(* ===== verification/Prelude.thy ===== *)
theory Prelude
  imports Main "HOL-Library.AList"
begin

text \<open>
  Shared ground of the development: Python strings, the ordered-list idioms the
  services use, and the lemma collections the component theories fill.

  A Python \<open>str\<close> is an Isabelle \<open>string\<close> whose characters are read as the Latin-1 code
  points U+0000 to U+00FF. On that range \<open>py_strip\<close> and \<open>py_lower\<close> are exactly
  \<open>str.strip()\<close> and \<open>str.lower()\<close>. \<open>py_upper\<close> is \<open>str.upper()\<close> except for the micro
  sign and y-diaeresis, whose capitals lie outside Latin-1 and which it keeps; neither
  those nor their capitals occur in a vocabulary of the program. Code points above
  U+00FF are outside the model.
\<close>

named_theorems vocab_simps "closed vocabularies and string constants, unfolded for evaluation"
named_theorems step_invs "operations preserve their component's invariant"

section \<open>Strings\<close>

definition py_space :: "char \<Rightarrow> bool" where
  "py_space c = (let n = of_char c :: nat in
     9 \<le> n \<and> n \<le> 13 \<or> 28 \<le> n \<and> n \<le> 32 \<or> n = 133 \<or> n = 160)"

definition py_strip :: "string \<Rightarrow> string" where
  "py_strip s = rev (dropWhile py_space (rev (dropWhile py_space s)))"

definition lower_char :: "char \<Rightarrow> char" where
  "lower_char c = (let n = of_char c :: nat in
     if 65 \<le> n \<and> n \<le> 90 \<or> 192 \<le> n \<and> n \<le> 222 \<and> n \<noteq> 215 then char_of (n + 32) else c)"

definition upper_char :: "char \<Rightarrow> string" where
  "upper_char c = (let n = of_char c :: nat in
     if 97 \<le> n \<and> n \<le> 122 \<or> 224 \<le> n \<and> n \<le> 254 \<and> n \<noteq> 247 then [char_of (n - 32)]
     else if n = 223 then ''SS'' else [c])"

definition py_lower :: "string \<Rightarrow> string" where
  "py_lower s = map lower_char s"

definition py_upper :: "string \<Rightarrow> string" where
  "py_upper s = concat (map upper_char s)"

definition starts_with :: "string \<Rightarrow> string \<Rightarrow> bool" where
  "starts_with pre s = (take (length pre) s = pre)"

text \<open>\<open>sub in text\<close>.\<close>

fun contains :: "string \<Rightarrow> string \<Rightarrow> bool" where
  "contains sub [] = (sub = [])"
| "contains sub (c # cs) = (starts_with sub (c # cs) \<or> contains sub cs)"

fun replace_char :: "char \<Rightarrow> char \<Rightarrow> string \<Rightarrow> string" where
  "replace_char a b [] = []"
| "replace_char a b (c # cs) = (if c = a then b else c) # replace_char a b cs"

fun str_nat :: "nat \<Rightarrow> string" where
  "str_nat n = (if n < 10 then [char_of (48 + n)]
                else str_nat (n div 10) @ [char_of (48 + n mod 10)])"

declare str_nat.simps [simp del]

definition str_int :: "int \<Rightarrow> string" where
  "str_int i = (if i < 0 then ''-'' @ str_nat (nat (- i)) else str_nat (nat i))"

text \<open>\<open>sep.join(parts)\<close>.\<close>

fun py_join :: "string \<Rightarrow> string list \<Rightarrow> string" where
  "py_join sep [] = []"
| "py_join sep [x] = x"
| "py_join sep (x # y # ys) = x @ sep @ py_join sep (y # ys)"

definition digit_char :: "char \<Rightarrow> bool" where
  "digit_char c = (let n = of_char c :: nat in 48 \<le> n \<and> n \<le> 57)"

definition digit_val :: "char \<Rightarrow> nat" where
  "digit_val c = of_char c - 48"

definition digits_val :: "string \<Rightarrow> nat" where
  "digits_val s = foldl (\<lambda>acc c. 10 * acc + digit_val c) 0 s"

text \<open>
  Python's \<open>int(text)\<close> in base ten: surrounding whitespace is stripped, one sign is
  allowed, and single underscores may stand between digits. \<open>None\<close> is \<open>ValueError\<close>.
  Unlike \<open>str.strip()\<close>, it does not take the four separators U+001C to U+001F for whitespace.
\<close>

definition int_space :: "char \<Rightarrow> bool" where
  "int_space c = (let n = of_char c :: nat in 9 \<le> n \<and> n \<le> 13 \<or> n = 32 \<or> n = 133 \<or> n = 160)"

definition int_strip :: "string \<Rightarrow> string" where
  "int_strip s = rev (dropWhile int_space (rev (dropWhile int_space s)))"

fun digits_with_underscores :: "string \<Rightarrow> bool" where
  "digits_with_underscores [] = False"
| "digits_with_underscores [c] = digit_char c"
| "digits_with_underscores (c # d # cs) =
     (digit_char c \<and>
      (if d = CHR ''_'' then digits_with_underscores cs else digits_with_underscores (d # cs)))"

definition py_int_nat :: "string \<Rightarrow> nat option" where
  "py_int_nat s = (if digits_with_underscores s
                   then Some (digits_val (filter (\<lambda>c. c \<noteq> CHR ''_'') s)) else None)"

definition py_int :: "string \<Rightarrow> int option" where
  "py_int s = (case int_strip s of
       [] \<Rightarrow> None
     | c # cs \<Rightarrow>
         if c = CHR ''-'' then map_option (\<lambda>n. - int n) (py_int_nat cs)
         else if c = CHR ''+'' then map_option int (py_int_nat cs)
         else map_option int (py_int_nat (c # cs)))"

section \<open>Ordered lists used as sets\<close>

text \<open>\<open>if x not in xs: xs.append(x)\<close>\<close>

definition append_new :: "'a \<Rightarrow> 'a list \<Rightarrow> 'a list" where
  "append_new x xs = (if x \<in> set xs then xs else xs @ [x])"

lemma set_append_new [simp]: "set (append_new x xs) = insert x (set xs)"
  by (auto simp: append_new_def)

lemma distinct_append_new [simp]: "distinct (append_new x xs) = distinct xs"
  by (auto simp: append_new_def)

lemma append_new_not_Nil [simp]: "append_new x xs \<noteq> []"
  by (auto simp: append_new_def)

lemma fold_append_new_set: "set (fold append_new ys xs) = set xs \<union> set ys"
  by (induction ys arbitrary: xs) auto

lemma fold_append_new_distinct: "distinct (fold append_new ys xs) = distinct xs"
  by (induction ys arbitrary: xs) auto

section \<open>Results that may raise\<close>

definition bind_result :: "'e + 'a \<Rightarrow> ('a \<Rightarrow> 'e + 'b) \<Rightarrow> 'e + 'b" where
  "bind_result r f = (case r of Inl e \<Rightarrow> Inl e | Inr a \<Rightarrow> f a)"

lemma bind_result_simps [simp]:
  "bind_result (Inl e) f = Inl e" "bind_result (Inr a) f = f a"
  by (simp_all add: bind_result_def)

lemma bind_result_Inr: "bind_result r f = Inr b \<longleftrightarrow> (\<exists>a. r = Inr a \<and> f a = Inr b)"
  by (cases r) auto

lemma bind_result_Inl:
  "bind_result r f = Inl e \<longleftrightarrow> r = Inl e \<or> (\<exists>a. r = Inr a \<and> f a = Inl e)"
  by (cases r) auto

text \<open>A property of the value, when there is one; of the value, and there is one.\<close>

definition on_ok :: "('a \<Rightarrow> bool) \<Rightarrow> 'e + 'a \<Rightarrow> bool" where
  "on_ok P r = (case r of Inl _ \<Rightarrow> True | Inr a \<Rightarrow> P a)"

definition returns :: "('a \<Rightarrow> bool) \<Rightarrow> 'e + 'a \<Rightarrow> bool" where
  "returns P r = (case r of Inl _ \<Rightarrow> False | Inr a \<Rightarrow> P a)"

lemma on_ok_simps [simp]: "on_ok P (Inl e)" "on_ok P (Inr a) = P a"
  by (simp_all add: on_ok_def)

lemma returns_simps [simp]: "\<not> returns P (Inl e)" "returns P (Inr a) = P a"
  by (simp_all add: returns_def)

lemma on_ok_bind: "on_ok P (bind_result r f) \<longleftrightarrow> (\<forall>a. r = Inr a \<longrightarrow> on_ok P (f a))"
  by (cases r) auto

lemma returns_bind: "returns P (bind_result r f) \<longleftrightarrow> (\<exists>a. r = Inr a \<and> returns P (f a))"
  by (cases r) auto

lemma returns_iff: "returns P r \<longleftrightarrow> (\<exists>a. r = Inr a \<and> P a)"
  by (cases r) auto

lemma on_okD: "on_ok P r \<Longrightarrow> r = Inr a \<Longrightarrow> P a"
  by simp

section \<open>Lemmas on strings\<close>

lemma py_strip_Nil [simp]: "py_strip [] = []"
  by (simp add: py_strip_def)

lemma py_lower_Nil [simp]: "py_lower [] = []"
  by (simp add: py_lower_def)

lemma py_upper_Nil [simp]: "py_upper [] = []"
  by (simp add: py_upper_def)

lemma py_lower_eq_Nil [simp]: "py_lower s = [] \<longleftrightarrow> s = []"
  by (simp add: py_lower_def)

lemma dropWhile_id: "xs = [] \<or> \<not> P (hd xs) \<Longrightarrow> dropWhile P xs = xs"
  by (cases xs) auto

lemma py_strip_id: "s = [] \<or> \<not> py_space (hd s) \<and> \<not> py_space (last s) \<Longrightarrow> py_strip s = s"
  by (auto simp: py_strip_def dropWhile_id hd_rev)

lemma dropWhile_hd: "dropWhile P xs \<noteq> [] \<Longrightarrow> \<not> P (hd (dropWhile P xs))"
  by (rule hd_dropWhile)

lemma py_strip_strip [simp]: "py_strip (py_strip s) = py_strip s"
proof (cases "py_strip s = []")
  case False
  let ?t = "dropWhile py_space s"
  let ?u = "dropWhile py_space (rev ?t)"
  have s: "py_strip s = rev ?u" by (simp add: py_strip_def)
  with False have u: "?u \<noteq> []" by simp
  then have last: "\<not> py_space (last (rev ?u))"
    using dropWhile_hd [of py_space "rev ?t"] by (simp add: last_rev)
  have t: "?t \<noteq> []" using u by (metis dropWhile.simps(1) rev.simps(1))
  obtain zs where "rev ?t = zs @ ?u"
    by (metis takeWhile_dropWhile_id)
  then have "?t = rev ?u @ rev zs" by (metis rev_append rev_rev_ident)
  with u have "hd (rev ?u) = hd ?t" by (metis hd_append2 rev_is_Nil_conv)
  then have "\<not> py_space (hd (rev ?u))"
    using dropWhile_hd [OF t] by metis
  with last s show ?thesis by (metis py_strip_id)
next
  case True
  then show ?thesis by (simp only: py_strip_Nil)
qed

end
