(* ===== verification/Py_Values.thy ===== *)
theory Py_Values
  imports Prelude
begin

text \<open>
  The Python values the services read from rows and requests, with their truth value,
  their \<open>str()\<close> text, and the parser of \<open>decimal.Decimal\<close> literals.

  A finite decimal is kept as CPython keeps it, sign, coefficient and exponent, so that
  texts and roundings are those of the library. The exponent is unbounded: the limits
  \<open>Emin\<close> and \<open>Emax\<close> (six digits long) are outside the model. A float is known by its
  shortest \<open>repr\<close>; a datetime by the microseconds since the epoch (of its UTC instant
  when it is aware, of its own fields when it is naive) together with its \<open>str()\<close> text;
  any other object by its truth value and its \<open>str()\<close> text. \<open>datetime.fromisoformat\<close>
  is C code of the interpreter and stays a parameter, \<open>fromiso\<close>, of the definitions that
  parse timestamps.
\<close>

section \<open>Values\<close>

datatype fin_dec = FinDec (fd_neg: bool) (fd_coeff: nat) (fd_exp: int)

datatype dec = Finite fin_dec | Infinite bool | NotANumber bool

datatype pytime = Naive int | Aware int

datatype pyval =
    PNone
  | PBool bool
  | PInt int
  | PFloat string
  | PStr string
  | PDec dec
  | PTime pytime string
  | PObj bool string

datatype py_error = InvalidOperation | ZeroDivisionError | ValueError | TypeError

type_synonym iso_parser = "string \<Rightarrow> pytime option"

text \<open>\<open>dt if dt.tzinfo else dt.replace(tzinfo=timezone.utc)\<close>, as the UTC instant.\<close>

fun utc_micros :: "pytime \<Rightarrow> int" where
  "utc_micros (Naive t) = t"
| "utc_micros (Aware t) = t"

section \<open>Decimal texts\<close>

definition findec_str :: "fin_dec \<Rightarrow> string" where
  "findec_str x = (let digits = str_nat (fd_coeff x);
       sign = (if fd_neg x then ''-'' else []);
       n = int (length digits);
       leftdigits = fd_exp x + n;
       dotplace = (if fd_exp x \<le> 0 \<and> leftdigits > -6 then leftdigits else 1);
       body = (if dotplace \<le> 0 then ''0.'' @ replicate (nat (- dotplace)) (CHR ''0'') @ digits
               else if dotplace \<ge> n then digits @ replicate (nat (dotplace - n)) (CHR ''0'')
               else take (nat dotplace) digits @ ''.'' @ drop (nat dotplace) digits);
       ex = leftdigits - dotplace
     in sign @ body @ (if ex = 0 then [] else ''E'' @ (if ex > 0 then ''+'' else []) @ str_int ex))"

fun dec_str :: "dec \<Rightarrow> string" where
  "dec_str (Finite x) = findec_str x"
| "dec_str (Infinite neg) = (if neg then ''-Infinity'' else ''Infinity'')"
| "dec_str (NotANumber signalling) = (if signalling then ''sNaN'' else ''NaN'')"

text \<open>
  \<open>Decimal(text)\<close>: surrounding whitespace and every underscore are dropped, case is
  ignored. \<open>None\<close> is the conversion error. The payload of a NaN is not kept.
\<close>

definition parse_exponent :: "string \<Rightarrow> int option" where
  "parse_exponent s = (case s of
       [] \<Rightarrow> Some 0
     | c # cs \<Rightarrow> if c \<noteq> CHR ''e'' then None else
         (let neg = (cs \<noteq> [] \<and> hd cs = CHR ''-'');
              ds = (if cs \<noteq> [] \<and> (hd cs = CHR ''-'' \<or> hd cs = CHR ''+'') then tl cs else cs)
          in if ds \<noteq> [] \<and> list_all digit_char ds
             then Some (if neg then - int (digits_val ds) else int (digits_val ds)) else None))"

definition parse_unsigned :: "bool \<Rightarrow> string \<Rightarrow> dec option" where
  "parse_unsigned neg s =
     (if s = ''inf'' \<or> s = ''infinity'' then Some (Infinite neg)
      else if starts_with ''nan'' s \<and> list_all digit_char (drop 3 s) then Some (NotANumber False)
      else if starts_with ''snan'' s \<and> list_all digit_char (drop 4 s) then Some (NotANumber True)
      else let ip = takeWhile digit_char s;
               r1 = dropWhile digit_char s;
               dot = (r1 \<noteq> [] \<and> hd r1 = CHR ''.'');
               fp = (if dot then takeWhile digit_char (tl r1) else []);
               r2 = (if dot then dropWhile digit_char (tl r1) else r1)
           in if ip = [] \<and> fp = [] then None
              else map_option (\<lambda>e. Finite (FinDec neg (digits_val (ip @ fp)) (e - int (length fp))))
                     (parse_exponent r2))"

definition parse_decimal :: "string \<Rightarrow> dec option" where
  "parse_decimal text = (let s = py_lower (filter (\<lambda>c. c \<noteq> CHR ''_'') (py_strip text)) in
     if s \<noteq> [] \<and> hd s = CHR ''-'' then parse_unsigned True (tl s)
     else if s \<noteq> [] \<and> hd s = CHR ''+'' then parse_unsigned False (tl s)
     else parse_unsigned False s)"

section \<open>Truth value and text\<close>

fun truthy :: "pyval \<Rightarrow> bool" where
  "truthy PNone = False"
| "truthy (PBool b) = b"
| "truthy (PInt i) = (i \<noteq> 0)"
| "truthy (PFloat r) = (r \<noteq> ''0.0'' \<and> r \<noteq> ''-0.0'')"
| "truthy (PStr s) = (s \<noteq> [])"
| "truthy (PDec (Finite x)) = (fd_coeff x \<noteq> 0)"
| "truthy (PDec d) = True"
| "truthy (PTime t s) = True"
| "truthy (PObj b s) = b"

fun py_str :: "pyval \<Rightarrow> string" where
  "py_str PNone = ''None''"
| "py_str (PBool b) = (if b then ''True'' else ''False'')"
| "py_str (PInt i) = str_int i"
| "py_str (PFloat r) = r"
| "py_str (PStr s) = s"
| "py_str (PDec d) = dec_str d"
| "py_str (PTime t s) = s"
| "py_str (PObj b s) = s"

text \<open>\<open>str(value or '')\<close>, and the two normalised keys the program builds from it.\<close>

definition text_of :: "pyval \<Rightarrow> string" where
  "text_of v = (if truthy v then py_str v else [])"

definition lower_key :: "pyval \<Rightarrow> string" where
  "lower_key v = py_lower (py_strip (text_of v))"

definition upper_key :: "pyval \<Rightarrow> string" where
  "upper_key v = py_upper (py_strip (text_of v))"

text \<open>The same for a field that is \<open>None\<close> or a string.\<close>

definition opt_str :: "string option \<Rightarrow> pyval" where
  "opt_str s = (case s of None \<Rightarrow> PNone | Some t \<Rightarrow> PStr t)"

lemma text_of_simps [simp]:
  "text_of PNone = []" "text_of (PStr s) = s" "text_of (PBool False) = []"
  by (simp_all add: text_of_def)

lemma key_None [simp]: "lower_key PNone = []" "upper_key PNone = []"
  by (simp_all add: lower_key_def upper_key_def)

lemma opt_str_simps [simp]: "opt_str None = PNone" "opt_str (Some t) = PStr t"
  by (simp_all add: opt_str_def)

section \<open>Closed vocabularies\<close>

text \<open>
  The contract the \<open>normalize_*\<close> functions of the configuration modules share: the key of
  the value is returned when it is a word of the vocabulary, and nothing otherwise.
\<close>

locale vocabulary =
  fixes fold_case :: "string \<Rightarrow> string"
    and vocab :: "string list"
    and norm :: "pyval \<Rightarrow> string option"
  assumes norm_eq: "norm v = (if fold_case (py_strip (text_of v)) \<in> set vocab
                              then Some (fold_case (py_strip (text_of v))) else None)"
    and canonical: "w \<in> set vocab \<Longrightarrow> fold_case (py_strip w) = w"
    and no_empty: "fold_case [] \<notin> set vocab"
begin

lemma norm_in: "norm v = Some k \<Longrightarrow> k \<in> set vocab"
  by (auto simp: norm_eq split: if_splits)

lemma norm_word: "w \<in> set vocab \<Longrightarrow> norm (PStr w) = Some w"
  by (simp add: norm_eq canonical)

lemma norm_idem: "norm v = Some k \<Longrightarrow> norm (PStr k) = Some k"
  by (rule norm_word) (rule norm_in)

lemma norm_missing: "norm PNone = None" "norm (PStr []) = None"
  using no_empty by (simp_all add: norm_eq)

lemma norm_range: "range norm = insert None (Some ` set vocab)"
proof
  show "range norm \<subseteq> insert None (Some ` set vocab)"
    by (auto simp: norm_eq)
  have "Some w \<in> range norm" if "w \<in> set vocab" for w
    using norm_word [OF that] by (metis rangeI)
  then show "insert None (Some ` set vocab) \<subseteq> range norm"
    using norm_missing(1) by (metis image_subset_iff insert_subset rangeI)
qed

end

end
