(* ===== verification/Entitlements.thy ===== *)
theory Entitlements
  imports Py_Values
begin

text \<open>
  Plan entitlements of a tenant, \<open>services/api/app/entitlements.py\<close>: the plan table,
  internal overrides, the lifecycle of an evaluation, and the two questions callers ask
  (what may this tenant do, may it create one more resource).

  An \<open>organizations\<close> row is the record below; a key the row lacks reads as \<open>None\<close>, and the
  empty mapping and \<open>None\<close> are the record of \<open>None\<close>s. Overrides that are not a mapping are
  \<open>None\<close>. The clock is the argument \<open>now\<close>, in microseconds. The count of whole days uses
  exact microseconds; the float of \<open>total_seconds()\<close> is exact below 285 years.
\<close>

section \<open>Vocabulary\<close>

abbreviation PLAN_PILOT :: string where
  "PLAN_PILOT \<equiv> ''pilot''"
abbreviation PLAN_SCALE :: string where
  "PLAN_SCALE \<equiv> ''scale''"
abbreviation PLAN_ENTERPRISE :: string where
  "PLAN_ENTERPRISE \<equiv> ''enterprise''"

definition PLANS :: "string list" where
  [vocab_simps]: "PLANS = [PLAN_PILOT, PLAN_SCALE, PLAN_ENTERPRISE]"

definition PLAN_LABELS :: "(string \<times> string) list" where
  [vocab_simps]: "PLAN_LABELS =
    [(PLAN_PILOT, ''Pilot''), (PLAN_SCALE, ''Scale''), (PLAN_ENTERPRISE, ''Enterprise'')]"

abbreviation DEFAULT_PLAN :: string where
  "DEFAULT_PLAN \<equiv> PLAN_PILOT"

definition EVALUATION_PLANS :: "string list" where
  [vocab_simps]: "EVALUATION_PLANS = [PLAN_PILOT]"

abbreviation STATUS_ACTIVE :: string where
  "STATUS_ACTIVE \<equiv> ''active''"
abbreviation STATUS_SUSPENDED :: string where
  "STATUS_SUSPENDED \<equiv> ''suspended''"
abbreviation STATUS_EXPIRED :: string where
  "STATUS_EXPIRED \<equiv> ''expired''"

definition STATUSES :: "string list" where
  [vocab_simps]: "STATUSES = [STATUS_ACTIVE, STATUS_SUSPENDED, STATUS_EXPIRED]"

abbreviation LIFECYCLE_ACTIVE_PILOT :: string where
  "LIFECYCLE_ACTIVE_PILOT \<equiv> ''ACTIVE_PILOT''"
abbreviation LIFECYCLE_EXPIRED_PILOT :: string where
  "LIFECYCLE_EXPIRED_PILOT \<equiv> ''EXPIRED_PILOT''"
abbreviation LIFECYCLE_SUSPENDED :: string where
  "LIFECYCLE_SUSPENDED \<equiv> ''SUSPENDED''"
abbreviation LIFECYCLE_ACTIVE_SCALE :: string where
  "LIFECYCLE_ACTIVE_SCALE \<equiv> ''ACTIVE_SCALE''"
abbreviation LIFECYCLE_ENTERPRISE :: string where
  "LIFECYCLE_ENTERPRISE \<equiv> ''ENTERPRISE''"

abbreviation LIMIT_WORKSPACES :: string where
  "LIMIT_WORKSPACES \<equiv> ''max_workspaces''"
abbreviation LIMIT_MONITORED_CONTRACTS :: string where
  "LIMIT_MONITORED_CONTRACTS \<equiv> ''max_monitored_contracts''"
abbreviation LIMIT_MONITORING_TARGETS :: string where
  "LIMIT_MONITORING_TARGETS \<equiv> ''max_monitoring_targets''"
abbreviation LIMIT_EVIDENCE_PACKAGES :: string where
  "LIMIT_EVIDENCE_PACKAGES \<equiv> ''max_evidence_packages''"

definition LIMIT_KEYS :: "string list" where
  [vocab_simps]: "LIMIT_KEYS = [LIMIT_WORKSPACES, LIMIT_MONITORED_CONTRACTS,
     LIMIT_MONITORING_TARGETS, LIMIT_EVIDENCE_PACKAGES]"

definition LIMIT_RESOURCES :: "(string \<times> string) list" where
  [vocab_simps]: "LIMIT_RESOURCES =
    [(LIMIT_WORKSPACES, ''workspaces''), (LIMIT_MONITORED_CONTRACTS, ''monitored_contracts''),
     (LIMIT_MONITORING_TARGETS, ''monitoring_targets''),
     (LIMIT_EVIDENCE_PACKAGES, ''evidence_packages'')]"

abbreviation FEATURE_THREAT_MONITORING :: string where
  "FEATURE_THREAT_MONITORING \<equiv> ''threat_monitoring''"
abbreviation FEATURE_AI_INVESTIGATION :: string where
  "FEATURE_AI_INVESTIGATION \<equiv> ''ai_investigation''"
abbreviation FEATURE_RESPONSE_RECOMMENDATIONS :: string where
  "FEATURE_RESPONSE_RECOMMENDATIONS \<equiv> ''response_recommendations''"
abbreviation FEATURE_AUTOMATIC_EXECUTION :: string where
  "FEATURE_AUTOMATIC_EXECUTION \<equiv> ''automatic_execution''"
abbreviation FEATURE_EVIDENCE_EXPORT :: string where
  "FEATURE_EVIDENCE_EXPORT \<equiv> ''evidence_export''"
abbreviation FEATURE_INCIDENT_PLAYBOOKS :: string where
  "FEATURE_INCIDENT_PLAYBOOKS \<equiv> ''incident_playbooks''"
abbreviation FEATURE_CUSTOM_INTEGRATIONS :: string where
  "FEATURE_CUSTOM_INTEGRATIONS \<equiv> ''custom_integrations''"
abbreviation FEATURE_CUSTOM_EVIDENCE_TEMPLATES :: string where
  "FEATURE_CUSTOM_EVIDENCE_TEMPLATES \<equiv> ''custom_evidence_templates''"
abbreviation FEATURE_MULTI_NETWORK :: string where
  "FEATURE_MULTI_NETWORK \<equiv> ''multi_network''"
abbreviation FEATURE_PRIORITY_ROUTING :: string where
  "FEATURE_PRIORITY_ROUTING \<equiv> ''priority_routing''"

definition FEATURE_KEYS :: "string list" where
  [vocab_simps]: "FEATURE_KEYS = [FEATURE_THREAT_MONITORING, FEATURE_AI_INVESTIGATION,
     FEATURE_RESPONSE_RECOMMENDATIONS, FEATURE_AUTOMATIC_EXECUTION, FEATURE_EVIDENCE_EXPORT,
     FEATURE_INCIDENT_PLAYBOOKS, FEATURE_CUSTOM_INTEGRATIONS,
     FEATURE_CUSTOM_EVIDENCE_TEMPLATES, FEATURE_MULTI_NETWORK, FEATURE_PRIORITY_ROUTING]"

definition LIFECYCLE_RESTRICTED_FEATURES :: "string list" where
  [vocab_simps]: "LIFECYCLE_RESTRICTED_FEATURES = [FEATURE_THREAT_MONITORING,
     FEATURE_AI_INVESTIGATION, FEATURE_RESPONSE_RECOMMENDATIONS, FEATURE_INCIDENT_PLAYBOOKS,
     FEATURE_EVIDENCE_EXPORT, FEATURE_AUTOMATIC_EXECUTION]"

definition UNENFORCED_FEATURES :: "string list" where
  [vocab_simps]: "UNENFORCED_FEATURES = [FEATURE_CUSTOM_INTEGRATIONS,
     FEATURE_CUSTOM_EVIDENCE_TEMPLATES, FEATURE_MULTI_NETWORK, FEATURE_PRIORITY_ROUTING]"

section \<open>The plan table\<close>

datatype ent_value = EntNone | EntInt int | EntBool bool

type_synonym entitlements = "string \<rightharpoonup> ent_value"

definition plan_row ::
  "ent_value \<Rightarrow> ent_value \<Rightarrow> ent_value \<Rightarrow> ent_value \<Rightarrow> bool list \<Rightarrow> entitlements" where
  "plan_row ws contracts targets evidence features =
     map_of (zip LIMIT_KEYS [ws, contracts, targets, evidence] @
             zip FEATURE_KEYS (map EntBool features))"

definition PLAN_TABLE :: "string \<rightharpoonup> entitlements" where
  "PLAN_TABLE = map_of
    [(PLAN_PILOT, plan_row (EntInt 1) (EntInt 5) (EntInt 10) (EntInt 10)
        [True, True, True, False, True, True, False, False, False, False]),
     (PLAN_SCALE, plan_row (EntInt 3) (EntInt 25) (EntInt 50) EntNone
        [True, True, True, False, True, True, False, False, False, True]),
     (PLAN_ENTERPRISE, plan_row EntNone EntNone EntNone EntNone
        [True, True, True, False, True, True, True, True, True, True])]"

section \<open>Evaluation window\<close>

definition OPEN_ENDED_EVALUATION_VALUES :: "string list" where
  [vocab_simps]: "OPEN_ENDED_EVALUATION_VALUES =
     [''0'', ''none'', ''null'', ''off'', ''open'', ''open-ended'', ''unset'']"

definition MIN_EVALUATION_DAYS :: int where "MIN_EVALUATION_DAYS = 1"
definition MAX_EVALUATION_DAYS :: int where "MAX_EVALUATION_DAYS = 365"

text \<open>The environment variable's text is the argument; unset reads as the empty text.\<close>

definition evaluation_days :: "string \<Rightarrow> int option" where
  "evaluation_days env = (let raw = py_strip env in
     if raw = [] then None
     else if py_lower raw \<in> set OPEN_ENDED_EVALUATION_VALUES then None
     else case py_int raw of
       None \<Rightarrow> None
     | Some parsed \<Rightarrow> if parsed \<le> 0 then None
                     else Some (max MIN_EVALUATION_DAYS (min MAX_EVALUATION_DAYS parsed)))"

definition DAY_MICROS :: int where "DAY_MICROS = 86400 * 1000000"

definition evaluation_window :: "string \<Rightarrow> int option \<Rightarrow> int \<Rightarrow> int \<times> int option" where
  "evaluation_window env started_at now =
     (let start = (case started_at of Some t \<Rightarrow> t | None \<Rightarrow> now)
      in (start, map_option (\<lambda>days. start + days * DAY_MICROS) (evaluation_days env)))"

section \<open>Normalisation\<close>

definition normalize_plan :: "pyval \<Rightarrow> string" where
  "normalize_plan v = (let key = lower_key v in if key \<in> set PLANS then key else DEFAULT_PLAN)"

definition normalize_status :: "pyval \<Rightarrow> string" where
  "normalize_status v = (let key = lower_key v in
     if key = [] then STATUS_ACTIVE else if key \<in> set STATUSES then key else STATUS_SUSPENDED)"

definition plan_label :: "pyval \<Rightarrow> string" where
  "plan_label v = (case map_of PLAN_LABELS (normalize_plan v) of Some l \<Rightarrow> l | None \<Rightarrow> ''Pilot'')"

definition as_datetime :: "iso_parser \<Rightarrow> pyval \<Rightarrow> int option" where
  "as_datetime fromiso v = (case v of
       PNone \<Rightarrow> None
     | PTime t s \<Rightarrow> Some (utc_micros t)
     | _ \<Rightarrow> if v = PStr [] then None
            else map_option utc_micros
              (fromiso (concat (map (\<lambda>c. if c = CHR ''Z'' then ''+00:00'' else [c]) (py_str v)))))"

text \<open>\<open>str.isdigit\<close> also accepts the three superscript digits of Latin-1.\<close>

definition py_isdigit :: "string \<Rightarrow> bool" where
  "py_isdigit s = (s \<noteq> [] \<and> list_all (\<lambda>c. digit_char c \<or> of_char c \<in> {178, 179, 185 :: nat}) s)"

text \<open>\<open>Inr None\<close> is the sentinel \<open>_INVALID\<close>.\<close>

definition coerce_limit :: "pyval \<Rightarrow> py_error + ent_value option" where
  "coerce_limit v = (case v of
       PNone \<Rightarrow> Inr (Some EntNone)
     | PBool b \<Rightarrow> Inr None
     | PInt i \<Rightarrow> Inr (if 0 \<le> i then Some (EntInt i) else None)
     | PStr s \<Rightarrow>
         if py_isdigit (dropWhile (\<lambda>c. c = CHR ''-'') (py_strip s))
         then (case py_int (py_strip s) of
                 None \<Rightarrow> Inl ValueError
               | Some parsed \<Rightarrow> Inr (if 0 \<le> parsed then Some (EntInt parsed) else None))
         else Inr None
     | _ \<Rightarrow> Inr None)"

fun normalize_override_items ::
  "(string \<times> pyval) list \<Rightarrow> entitlements \<Rightarrow> py_error + entitlements" where
  "normalize_override_items [] cleaned = Inr cleaned"
| "normalize_override_items ((name, v) # items) cleaned =
     (if name \<in> set LIMIT_KEYS then
        bind_result (coerce_limit v) (\<lambda>coerced. normalize_override_items items
          (case coerced of None \<Rightarrow> cleaned | Some x \<Rightarrow> cleaned(name \<mapsto> x)))
      else if name \<in> set FEATURE_KEYS then
        normalize_override_items items
          (case v of PBool b \<Rightarrow> cleaned(name \<mapsto> EntBool b) | _ \<Rightarrow> cleaned)
      else normalize_override_items items cleaned)"

definition normalize_overrides :: "(string \<times> pyval) list option \<Rightarrow> py_error + entitlements" where
  "normalize_overrides raw =
     (case raw of None \<Rightarrow> Inr Map.empty | Some items \<Rightarrow> normalize_override_items items Map.empty)"

section \<open>Entitlements\<close>

record organization =
  org_plan :: pyval
  org_status :: pyval
  org_started_at :: pyval
  org_expires_at :: pyval
  org_overrides :: "(string \<times> pyval) list option"

definition no_organization :: organization where
  "no_organization = \<lparr>org_plan = PNone, org_status = PNone, org_started_at = PNone,
     org_expires_at = PNone, org_overrides = None\<rparr>"

definition org_or_empty :: "organization option \<Rightarrow> organization" where
  "org_or_empty organization = (case organization of None \<Rightarrow> no_organization | Some org \<Rightarrow> org)"

definition plan_entitlements :: "pyval \<Rightarrow> entitlements" where
  "plan_entitlements plan =
     (case PLAN_TABLE (normalize_plan plan) of Some row \<Rightarrow> row | None \<Rightarrow> Map.empty)"

definition get_entitlements :: "organization option \<Rightarrow> py_error + entitlements" where
  "get_entitlements organization = (let org = org_or_empty organization in
     bind_result (normalize_overrides (org_overrides org)) (\<lambda>overrides.
       let e = plan_entitlements (org_plan org) ++ overrides
       in Inr (e(''evidence_unlimited'' \<mapsto>
             EntBool (e LIMIT_EVIDENCE_PACKAGES = None \<or> e LIMIT_EVIDENCE_PACKAGES = Some EntNone)))))"

definition limit_for :: "entitlements \<Rightarrow> string \<Rightarrow> py_error + int option" where
  "limit_for e limit_key =
     (if limit_key \<notin> set LIMIT_KEYS then Inl ValueError
      else Inr (case e limit_key of
          None \<Rightarrow> None | Some EntNone \<Rightarrow> None
        | Some (EntInt i) \<Rightarrow> Some i
        | Some (EntBool b) \<Rightarrow> Some (if b then 1 else 0)))"

fun ent_truthy :: "ent_value option \<Rightarrow> bool" where
  "ent_truthy None = False"
| "ent_truthy (Some EntNone) = False"
| "ent_truthy (Some (EntInt i)) = (i \<noteq> 0)"
| "ent_truthy (Some (EntBool b)) = b"

definition has_entitlement :: "entitlements \<Rightarrow> string \<Rightarrow> py_error + bool" where
  "has_entitlement e feature_key =
     (if feature_key \<notin> set FEATURE_KEYS then Inl ValueError else Inr (ent_truthy (e feature_key)))"

section \<open>Lifecycle\<close>

definition evaluation_expired :: "iso_parser \<Rightarrow> organization option \<Rightarrow> int \<Rightarrow> bool" where
  "evaluation_expired fromiso organization now = (let org = org_or_empty organization in
     if normalize_plan (org_plan org) \<notin> set EVALUATION_PLANS then False
     else if normalize_status (org_status org) = STATUS_EXPIRED then True
     else case as_datetime fromiso (org_expires_at org) of
       None \<Rightarrow> False
     | Some expires_at \<Rightarrow> now \<ge> expires_at)"

definition days_remaining :: "iso_parser \<Rightarrow> organization option \<Rightarrow> int \<Rightarrow> int option" where
  "days_remaining fromiso organization now = (let org = org_or_empty organization in
     if normalize_plan (org_plan org) \<notin> set EVALUATION_PLANS then None
     else case as_datetime fromiso (org_expires_at org) of
       None \<Rightarrow> None
     | Some expires_at \<Rightarrow>
         let delta = expires_at - now
         in if delta \<le> 0 then Some 0 else Some (max 0 (delta div DAY_MICROS)))"

definition lifecycle_state :: "iso_parser \<Rightarrow> organization option \<Rightarrow> int \<Rightarrow> string" where
  "lifecycle_state fromiso organization now = (let org = org_or_empty organization;
       plan = normalize_plan (org_plan org) in
     if normalize_status (org_status org) = STATUS_SUSPENDED then LIFECYCLE_SUSPENDED
     else if plan = PLAN_ENTERPRISE then LIFECYCLE_ENTERPRISE
     else if plan = PLAN_SCALE then LIFECYCLE_ACTIVE_SCALE
     else if evaluation_expired fromiso (Some org) now then LIFECYCLE_EXPIRED_PILOT
     else LIFECYCLE_ACTIVE_PILOT)"

definition monitoring_allowed :: "iso_parser \<Rightarrow> organization option \<Rightarrow> int \<Rightarrow> bool" where
  "monitoring_allowed fromiso organization now =
     (lifecycle_state fromiso organization now \<notin> {LIFECYCLE_SUSPENDED, LIFECYCLE_EXPIRED_PILOT})"

definition provisioning_allowed :: "iso_parser \<Rightarrow> organization option \<Rightarrow> int \<Rightarrow> bool" where
  "provisioning_allowed fromiso organization now = monitoring_allowed fromiso organization now"

definition withdraw_features :: "entitlements \<Rightarrow> entitlements" where
  "withdraw_features e = fold (\<lambda>feature e. e(feature \<mapsto> EntBool False)) LIFECYCLE_RESTRICTED_FEATURES e"

definition effective_entitlements ::
  "iso_parser \<Rightarrow> organization option \<Rightarrow> int \<Rightarrow> py_error + entitlements" where
  "effective_entitlements fromiso organization now =
     bind_result (get_entitlements organization) (\<lambda>e.
       Inr (if monitoring_allowed fromiso organization now then e else withdraw_features e))"

definition lifecycle_blocked_reason ::
  "iso_parser \<Rightarrow> organization option \<Rightarrow> int \<Rightarrow> (string \<times> string) option" where
  "lifecycle_blocked_reason fromiso organization now =
     (let state = lifecycle_state fromiso organization now in
      if state = LIFECYCLE_SUSPENDED then
        Some (''ORGANIZATION_SUSPENDED'',
          ''This organization is suspended. Existing records remain available; contact Decoda to reactivate it.'')
      else if state = LIFECYCLE_EXPIRED_PILOT then
        Some (''PLAN_EVALUATION_EXPIRED'',
          ''Your Pilot evaluation has ended. Your data is preserved and remains viewable; upgrade to Scale to resume adding monitoring coverage.'')
      else None)"

section \<open>Enforcement\<close>

text \<open>
  The bodies of the 403 responses, and \<open>PyRaised\<close> for an exception of the interpreter that
  passes through.
\<close>

datatype ent_error =
    PlanLimitReached string int int string string
  | EntitlementRequired string string string
  | LifecycleError string string string string
  | PyRaised py_error

definition lift_py :: "py_error + 'a \<Rightarrow> ('a \<Rightarrow> ent_error + 'b) \<Rightarrow> ent_error + 'b" where
  "lift_py r f = (case r of Inl e \<Rightarrow> Inl (PyRaised e) | Inr a \<Rightarrow> f a)"

definition py_capitalize :: "string \<Rightarrow> string" where
  "py_capitalize s = (case s of [] \<Rightarrow> [] | c # cs \<Rightarrow> upper_char c @ py_lower cs)"

definition plan_limit_error :: "string \<Rightarrow> int \<Rightarrow> int \<Rightarrow> pyval \<Rightarrow> ent_error" where
  "plan_limit_error res lim cur pl = PlanLimitReached res lim cur (normalize_plan pl)
     (''Your '' @ plan_label pl @ '' plan supports up to '' @ str_int lim @ '' '' @
      replace_char (CHR ''_'') (CHR '' '') res @ ''.'')"

definition entitlement_required_error :: "string \<Rightarrow> pyval \<Rightarrow> string option \<Rightarrow> ent_error" where
  "entitlement_required_error ent pl msg = EntitlementRequired ent (normalize_plan pl)
     (case msg of Some (c # cs) \<Rightarrow> c # cs
      | _ \<Rightarrow> py_capitalize (replace_char (CHR ''_'') (CHR '' '') ent) @
             '' is not available on the '' @ plan_label pl @ '' plan.'')"

definition lifecycle_error :: "string \<Rightarrow> string \<Rightarrow> pyval \<Rightarrow> string \<Rightarrow> ent_error" where
  "lifecycle_error code msg pl lifecycle = LifecycleError code msg (normalize_plan pl) lifecycle"

definition require_lifecycle_active ::
  "iso_parser \<Rightarrow> organization option \<Rightarrow> int \<Rightarrow> ent_error + unit" where
  "require_lifecycle_active fromiso organization now =
     (case lifecycle_blocked_reason fromiso organization now of
        None \<Rightarrow> Inr ()
      | Some (code, msg) \<Rightarrow>
          Inl (lifecycle_error code msg (org_plan (org_or_empty organization))
                 (lifecycle_state fromiso organization now)))"

definition require_entitlement ::
  "iso_parser \<Rightarrow> organization option \<Rightarrow> string \<Rightarrow> entitlements option \<Rightarrow> string option \<Rightarrow> int
     \<Rightarrow> ent_error + unit" where
  "require_entitlement fromiso organization feature_key given msg now =
     lift_py (case given of Some e \<Rightarrow> Inr e | None \<Rightarrow> effective_entitlements fromiso organization now)
       (\<lambda>effective. lift_py (has_entitlement effective feature_key) (\<lambda>held.
          if held then Inr ()
          else lift_py (if feature_key \<in> set LIFECYCLE_RESTRICTED_FEATURES
                        then bind_result (get_entitlements organization)
                               (\<lambda>e. has_entitlement e feature_key)
                        else Inr False)
                 (\<lambda>in_plan. bind_result
                    (if in_plan then require_lifecycle_active fromiso organization now else Inr ())
                    (\<lambda>_. Inl (entitlement_required_error feature_key
                             (org_plan (org_or_empty organization)) msg)))))"

definition check_limit ::
  "organization option \<Rightarrow> string \<Rightarrow> int \<Rightarrow> entitlements option \<Rightarrow> ent_error + unit" where
  "check_limit organization limit_key cur given =
     lift_py (case given of Some e \<Rightarrow> Inr e | None \<Rightarrow> get_entitlements organization)
       (\<lambda>effective. lift_py (limit_for effective limit_key) (\<lambda>lim. case lim of
            None \<Rightarrow> Inr ()
          | Some l \<Rightarrow> if cur < l then Inr ()
                      else Inl (plan_limit_error (the (map_of LIMIT_RESOURCES limit_key)) l cur
                                  (org_plan (org_or_empty organization)))))"

definition enforce_resource_creation ::
  "iso_parser \<Rightarrow> organization option \<Rightarrow> string \<Rightarrow> int \<Rightarrow> entitlements option \<Rightarrow> int
     \<Rightarrow> ent_error + unit" where
  "enforce_resource_creation fromiso organization limit_key cur given now =
     bind_result (require_lifecycle_active fromiso organization now)
       (\<lambda>_. check_limit organization limit_key cur given)"

section \<open>The capability matrix\<close>

datatype cap_source = SOURCE_FEATURE | SOURCE_LIMIT | SOURCE_LIFECYCLE | SOURCE_ALWAYS | SOURCE_AGREEMENT

record capability_row =
  cap_name :: string
  cap_src :: cap_source
  cap_key :: "string option"

definition cap :: "string \<Rightarrow> cap_source \<Rightarrow> string option \<Rightarrow> capability_row" where
  "cap name src key = \<lparr>cap_name = name, cap_src = src, cap_key = key\<rparr>"

definition CAPABILITY_ROWS :: "capability_row list" where
  [vocab_simps]: "CAPABILITY_ROWS =
    [cap ''Core dashboard'' SOURCE_ALWAYS None,
     cap ''Monitoring'' SOURCE_LIFECYCLE None,
     cap ''Threat detection'' SOURCE_FEATURE (Some FEATURE_THREAT_MONITORING),
     cap ''Alerts'' SOURCE_ALWAYS None,
     cap ''Incidents'' SOURCE_ALWAYS None,
     cap ''AI investigation'' SOURCE_FEATURE (Some FEATURE_AI_INVESTIGATION),
     cap ''Incident playbooks'' SOURCE_FEATURE (Some FEATURE_INCIDENT_PLAYBOOKS),
     cap ''Response recommendations'' SOURCE_FEATURE (Some FEATURE_RESPONSE_RECOMMENDATIONS),
     cap ''Evidence workflows'' SOURCE_LIFECYCLE None,
     cap ''Audit-ready exports'' SOURCE_FEATURE (Some FEATURE_EVIDENCE_EXPORT),
     cap ''Workspaces'' SOURCE_LIMIT (Some LIMIT_WORKSPACES),
     cap ''Contracts'' SOURCE_LIMIT (Some LIMIT_MONITORED_CONTRACTS),
     cap ''Evidence packages'' SOURCE_LIMIT (Some LIMIT_EVIDENCE_PACKAGES),
     cap ''Automatic production execution'' SOURCE_FEATURE (Some FEATURE_AUTOMATIC_EXECUTION),
     cap ''Multi-network'' SOURCE_FEATURE (Some FEATURE_MULTI_NETWORK),
     cap ''Custom evidence templates'' SOURCE_FEATURE (Some FEATURE_CUSTOM_EVIDENCE_TEMPLATES),
     cap ''Custom integrations'' SOURCE_FEATURE (Some FEATURE_CUSTOM_INTEGRATIONS),
     cap ''Priority alert routing'' SOURCE_FEATURE (Some FEATURE_PRIORITY_ROUTING),
     cap ''Custom SLA'' SOURCE_AGREEMENT None]"

text \<open>The text of the synthetic timestamps is never read.\<close>

definition matrix_organizations :: "int \<Rightarrow> (string \<times> organization) list" where
  "matrix_organizations now =
    [(''active_pilot'', no_organization\<lparr>org_plan := PStr PLAN_PILOT, org_status := PStr STATUS_ACTIVE,
        org_expires_at := PTime (Aware (now + DAY_MICROS)) []\<rparr>),
     (''expired_pilot'', no_organization\<lparr>org_plan := PStr PLAN_PILOT, org_status := PStr STATUS_ACTIVE,
        org_expires_at := PTime (Aware (now - DAY_MICROS)) []\<rparr>),
     (''scale'', no_organization\<lparr>org_plan := PStr PLAN_SCALE, org_status := PStr STATUS_ACTIVE\<rparr>),
     (''enterprise'', no_organization\<lparr>org_plan := PStr PLAN_ENTERPRISE, org_status := PStr STATUS_ACTIVE\<rparr>)]"

definition yes_no :: "bool \<Rightarrow> string" where
  "yes_no b = (if b then ''YES'' else ''NO'')"

definition matrix_cell ::
  "iso_parser \<Rightarrow> capability_row \<Rightarrow> organization \<Rightarrow> int \<Rightarrow> py_error + string" where
  "matrix_cell fromiso row org now = (case cap_src row of
       SOURCE_ALWAYS \<Rightarrow> Inr ''YES''
     | SOURCE_AGREEMENT \<Rightarrow> Inr (yes_no (normalize_plan (org_plan org) = PLAN_ENTERPRISE))
     | SOURCE_LIFECYCLE \<Rightarrow> Inr (yes_no (monitoring_allowed fromiso (Some org) now))
     | SOURCE_FEATURE \<Rightarrow> bind_result (effective_entitlements fromiso (Some org) now) (\<lambda>e.
         bind_result (has_entitlement e (py_str (opt_str (cap_key row)))) (\<lambda>held. Inr (yes_no held)))
     | SOURCE_LIMIT \<Rightarrow> bind_result (effective_entitlements fromiso (Some org) now) (\<lambda>e.
         bind_result (limit_for e (py_str (opt_str (cap_key row)))) (\<lambda>lim. Inr (case lim of
             None \<Rightarrow> if normalize_plan (org_plan org) = PLAN_ENTERPRISE then ''CUSTOM'' else ''UNLIMITED''
           | Some l \<Rightarrow> str_int l))))"

text \<open>One matrix line: capability, whether a code path enforces it, and the four cells.\<close>

definition capability_matrix ::
  "iso_parser \<Rightarrow> int \<Rightarrow> (capability_row \<times> bool \<times> (string \<times> (py_error + string)) list) list" where
  "capability_matrix fromiso now = map (\<lambda>row.
     (row,
      \<not> (cap_src row = SOURCE_FEATURE \<and>
          (case cap_key row of None \<Rightarrow> False | Some key \<Rightarrow> key \<in> set UNENFORCED_FEATURES)),
      map (\<lambda>(column, org). (column, matrix_cell fromiso row org now)) (matrix_organizations now)))
     CAPABILITY_ROWS"

section \<open>Lemmas\<close>

lemma normalize_plan_cases:
  "normalize_plan v = PLAN_PILOT \<or> normalize_plan v = PLAN_SCALE \<or> normalize_plan v = PLAN_ENTERPRISE"
  by (auto simp: normalize_plan_def Let_def PLANS_def)

lemma PLAN_TABLE_simps:
  "PLAN_TABLE PLAN_PILOT = Some (plan_row (EntInt 1) (EntInt 5) (EntInt 10) (EntInt 10)
        [True, True, True, False, True, True, False, False, False, False])"
  "PLAN_TABLE PLAN_SCALE = Some (plan_row (EntInt 3) (EntInt 25) (EntInt 50) EntNone
        [True, True, True, False, True, True, False, False, False, True])"
  "PLAN_TABLE PLAN_ENTERPRISE = Some (plan_row EntNone EntNone EntNone EntNone
        [True, True, True, False, True, True, True, True, True, True])"
  by (simp_all add: PLAN_TABLE_def)

lemma plan_row_simps:
  "plan_row w c t e fs LIMIT_WORKSPACES = Some w"
  "plan_row w c t e fs LIMIT_MONITORED_CONTRACTS = Some c"
  "plan_row w c t e fs LIMIT_MONITORING_TARGETS = Some t"
  "plan_row w c t e fs LIMIT_EVIDENCE_PACKAGES = Some e"
  "plan_row w c t e [f1, f2, f3, f4, f5, f6, f7, f8, f9, f10] FEATURE_AUTOMATIC_EXECUTION
     = Some (EntBool f4)"
  by (simp_all add: plan_row_def LIMIT_KEYS_def FEATURE_KEYS_def)

text \<open>No plan row grants automatic execution.\<close>

lemma plan_entitlements_execution:
  "plan_entitlements v FEATURE_AUTOMATIC_EXECUTION = Some (EntBool False)"
  using normalize_plan_cases [of v]
  by (auto simp: plan_entitlements_def PLAN_TABLE_simps plan_row_simps)

lemma withdraw_features_apply:
  "withdraw_features e k =
     (if k \<in> set LIFECYCLE_RESTRICTED_FEATURES then Some (EntBool False) else e k)"
  by (simp add: withdraw_features_def LIFECYCLE_RESTRICTED_FEATURES_def)

definition well_typed_override :: "string \<Rightarrow> ent_value \<Rightarrow> bool" where
  "well_typed_override k x =
     (k \<in> set LIMIT_KEYS \<and> (x = EntNone \<or> (\<exists>i\<ge>0. x = EntInt i)) \<or>
      k \<in> set FEATURE_KEYS \<and> (\<exists>b. x = EntBool b))"

lemma coerce_limit_typed:
  "coerce_limit v = Inr (Some x) \<Longrightarrow> x = EntNone \<or> (\<exists>i\<ge>0. x = EntInt i)"
  by (auto simp: coerce_limit_def split: pyval.splits if_splits option.splits)

lemma normalize_override_items_typed:
  "normalize_override_items items cleaned = Inr m \<Longrightarrow>
     (\<And>k x. cleaned k = Some x \<Longrightarrow> well_typed_override k x) \<Longrightarrow>
     m k = Some x \<Longrightarrow> well_typed_override k x"
proof (induction items cleaned rule: normalize_override_items.induct)
  case (1 cleaned)
  then show ?case by simp
next
  case (2 name v items cleaned)
  consider "name \<in> set LIMIT_KEYS" | "name \<notin> set LIMIT_KEYS" "name \<in> set FEATURE_KEYS"
    | "name \<notin> set LIMIT_KEYS" "name \<notin> set FEATURE_KEYS" by blast
  then show ?case
  proof cases
    case 1
    then obtain c where c: "coerce_limit v = Inr c"
      and rest: "normalize_override_items items
        (case c of None \<Rightarrow> cleaned | Some x \<Rightarrow> cleaned(name \<mapsto> x)) = Inr m"
      using "2.prems"(1) by (auto simp: bind_result_Inr)
    show ?thesis
    proof (rule "2.IH"(1) [OF 1 rest _ "2.prems"(3)])
      fix k x assume "(case c of None \<Rightarrow> cleaned | Some x \<Rightarrow> cleaned(name \<mapsto> x)) k = Some x"
      then show "well_typed_override k x"
        using "2.prems"(2) 1 c coerce_limit_typed
        by (auto simp: well_typed_override_def split: option.splits if_splits)
    qed
  next
    case 2
    then have rest: "normalize_override_items items
        (case v of PBool b \<Rightarrow> cleaned(name \<mapsto> EntBool b) | _ \<Rightarrow> cleaned) = Inr m"
      using "2.prems"(1) by simp
    show ?thesis
    proof (rule "2.IH"(2) [OF 2 rest _ "2.prems"(3)])
      fix k x assume "(case v of PBool b \<Rightarrow> cleaned(name \<mapsto> EntBool b) | _ \<Rightarrow> cleaned) k = Some x"
      then show "well_typed_override k x"
        using "2.prems"(2) 2
        by (auto simp: well_typed_override_def split: pyval.splits if_splits)
    qed
  next
    case 3
    then show ?thesis using 2 by simp
  qed
qed

lemma normalize_overrides_typed:
  "normalize_overrides raw = Inr m \<Longrightarrow> m k = Some x \<Longrightarrow> well_typed_override k x"
  using normalize_override_items_typed [of _ Map.empty m]
  by (auto simp: normalize_overrides_def split: option.splits)

lemma get_entitlements_Inr:
  "get_entitlements organization = Inr e \<longleftrightarrow>
     (\<exists>m. normalize_overrides (org_overrides (org_or_empty organization)) = Inr m \<and>
        e = (let b = plan_entitlements (org_plan (org_or_empty organization)) ++ m
             in b(''evidence_unlimited'' \<mapsto>
               EntBool (b LIMIT_EVIDENCE_PACKAGES = None \<or> b LIMIT_EVIDENCE_PACKAGES = Some EntNone))))"
  by (auto simp: get_entitlements_def Let_def bind_result_Inr)

text \<open>A feature is decided by the override when there is one, by the plan row otherwise.\<close>

lemma get_entitlements_key:
  "get_entitlements organization = Inr e \<Longrightarrow>
   normalize_overrides (org_overrides (org_or_empty organization)) = Inr m \<Longrightarrow>
   k \<noteq> ''evidence_unlimited'' \<Longrightarrow>
   e k = (case m k of None \<Rightarrow> plan_entitlements (org_plan (org_or_empty organization)) k
          | Some x \<Rightarrow> Some x)"
  by (auto simp: get_entitlements_Inr Let_def map_add_def split: option.splits)

lemma effective_entitlements_execution:
  assumes "effective_entitlements fromiso organization now = Inr e"
    and m: "normalize_overrides (org_overrides (org_or_empty organization)) = Inr m"
  shows "ent_truthy (e FEATURE_AUTOMATIC_EXECUTION) \<longleftrightarrow>
     m FEATURE_AUTOMATIC_EXECUTION = Some (EntBool True) \<and>
     monitoring_allowed fromiso organization now"
proof -
  obtain g where g: "get_entitlements organization = Inr g"
    and e: "e = (if monitoring_allowed fromiso organization now then g else withdraw_features g)"
    using assms(1) by (auto simp: effective_entitlements_def bind_result_Inr)
  have key: "g FEATURE_AUTOMATIC_EXECUTION =
      (case m FEATURE_AUTOMATIC_EXECUTION of None \<Rightarrow> Some (EntBool False) | Some x \<Rightarrow> Some x)"
    using get_entitlements_key [OF g m, of FEATURE_AUTOMATIC_EXECUTION]
    by (simp add: plan_entitlements_execution split: option.splits)
  have typed: "m FEATURE_AUTOMATIC_EXECUTION = Some x \<Longrightarrow> \<exists>b. x = EntBool b" for x
    using normalize_overrides_typed [OF m, of FEATURE_AUTOMATIC_EXECUTION x]
    by (simp add: well_typed_override_def vocab_simps)
  show ?thesis
    using typed
    by (auto simp: e key withdraw_features_apply LIFECYCLE_RESTRICTED_FEATURES_def
             split: option.splits)
qed

lemma lifecycle_blocked_iff:
  "lifecycle_blocked_reason fromiso organization now = None \<longleftrightarrow>
     monitoring_allowed fromiso organization now"
  by (simp add: lifecycle_blocked_reason_def monitoring_allowed_def Let_def)

lemma require_lifecycle_active_iff:
  "require_lifecycle_active fromiso organization now = Inr () \<longleftrightarrow>
     monitoring_allowed fromiso organization now"
  by (auto simp: require_lifecycle_active_def lifecycle_blocked_iff [symmetric] split: option.splits)

text \<open>An entitlement check passes exactly when the effective table holds the feature.\<close>

lemma require_entitlement_iff:
  "require_entitlement fromiso organization feature_key None msg now = Inr () \<longleftrightarrow>
     bind_result (effective_entitlements fromiso organization now) (\<lambda>e. has_entitlement e feature_key)
       = Inr True"
  by (auto simp: require_entitlement_def lift_py_def bind_result_def split: sum.splits if_splits)

lemma check_limit_iff:
  assumes "(case given of Some e \<Rightarrow> Inr e | None \<Rightarrow> get_entitlements organization) = Inr e"
    and "limit_for e limit_key = Inr lim"
  shows "check_limit organization limit_key cur given = Inr () \<longleftrightarrow>
     (case lim of None \<Rightarrow> True | Some l \<Rightarrow> cur < l)"
  using assms by (auto simp: check_limit_def lift_py_def split: option.splits)

lemma evaluation_days_range:
  "evaluation_days env = Some d \<Longrightarrow> MIN_EVALUATION_DAYS \<le> d \<and> d \<le> MAX_EVALUATION_DAYS"
  by (auto simp: evaluation_days_def Let_def MIN_EVALUATION_DAYS_def MAX_EVALUATION_DAYS_def
           split: if_splits option.splits)

text \<open>
  A doubled sign passes the digit test of \<open>_coerce_limit\<close>, whose \<open>lstrip\<close> drops every
  leading minus, and then raises in \<open>int\<close>.
\<close>

lemma coerce_limit_double_minus:
  "coerce_limit (PStr ''--5'') = Inl ValueError"
  by code_simp

lemma overrides_double_minus_raise:
  "get_entitlements (Some (no_organization\<lparr>org_overrides := Some [(LIMIT_WORKSPACES, PStr ''--5'')]\<rparr>))
     = Inl ValueError"
  by (simp add: get_entitlements_def org_or_empty_def normalize_overrides_def
      coerce_limit_double_minus LIMIT_KEYS_def no_organization_def Let_def)

lemma cap_simps [simp]: "cap_src (cap n src key) = src" "cap_key (cap n src key) = key"
  by (simp_all add: cap_def)

section \<open>Runs of creation requests\<close>

text \<open>One resource counter under a sequence of creation requests at the given times.\<close>

fun creation_run ::
  "iso_parser \<Rightarrow> organization option \<Rightarrow> string \<Rightarrow> entitlements option \<Rightarrow> int list \<Rightarrow> int \<Rightarrow> int" where
  "creation_run fromiso organization limit_key given [] cur = cur"
| "creation_run fromiso organization limit_key given (now # nows) cur =
     creation_run fromiso organization limit_key given nows
       (case enforce_resource_creation fromiso organization limit_key cur given now of
          Inl _ \<Rightarrow> cur | Inr _ \<Rightarrow> cur + 1)"

lemma enforce_resource_creation_iff:
  assumes "(case given of Some e \<Rightarrow> Inr e | None \<Rightarrow> get_entitlements organization) = Inr e"
    and "limit_for e limit_key = Inr lim"
  shows "enforce_resource_creation fromiso organization limit_key cur given now = Inr () \<longleftrightarrow>
     monitoring_allowed fromiso organization now \<and> (case lim of None \<Rightarrow> True | Some l \<Rightarrow> cur < l)"
  using check_limit_iff [OF assms] require_lifecycle_active_iff [of fromiso organization now]
  by (auto simp: enforce_resource_creation_def bind_result_Inr)

lemma creation_step:
  assumes "(case given of Some e \<Rightarrow> Inr e | None \<Rightarrow> get_entitlements organization) = Inr e"
    and "limit_for e limit_key = Inr lim"
  shows "(case enforce_resource_creation fromiso organization limit_key cur given now of
            Inl _ \<Rightarrow> cur | Inr _ \<Rightarrow> cur + 1)
     = (if monitoring_allowed fromiso organization now \<and> (case lim of None \<Rightarrow> True | Some l \<Rightarrow> cur < l)
        then cur + 1 else cur)"
  using enforce_resource_creation_iff [OF assms, of fromiso cur now]
  by (auto split: sum.splits)

section \<open>Properties\<close>

text \<open>
  C6. Automatic execution is never part of a plan. The effective entitlement to automatic
  execution is true exactly when the overrides normalise to a table with the boolean
  \<open>True\<close> under that key and the lifecycle is neither suspended nor expired, whatever the
  plan, status or other overrides are.
\<close>

theorem automatic_execution_needs_override:
  "bind_result (effective_entitlements fromiso organization now)
       (\<lambda>e. has_entitlement e FEATURE_AUTOMATIC_EXECUTION) = Inr True \<longleftrightarrow>
     (\<exists>m. normalize_overrides (org_overrides (org_or_empty organization)) = Inr m \<and>
          m FEATURE_AUTOMATIC_EXECUTION = Some (EntBool True)) \<and>
     monitoring_allowed fromiso organization now"
  (is "?held \<longleftrightarrow> ?override \<and> _")
proof -
  have known: "FEATURE_AUTOMATIC_EXECUTION \<in> set FEATURE_KEYS" by (simp add: FEATURE_KEYS_def)
  show ?thesis
  proof (cases "normalize_overrides (org_overrides (org_or_empty organization))")
    case (Inl err)
    then show ?thesis by (simp add: effective_entitlements_def get_entitlements_def Let_def)
  next
    case (Inr m)
    then obtain e where e: "effective_entitlements fromiso organization now = Inr e"
      by (simp add: effective_entitlements_def get_entitlements_def Let_def)
    from effective_entitlements_execution [OF this Inr] Inr e known
    show ?thesis by (simp add: has_entitlement_def)
  qed
qed

text \<open>
  C7. Typed overrides. Whatever JSON the override column holds, a normalised table binds
  only known keys, a limit to \<open>None\<close> or a non-negative integer and a feature to a boolean.
\<close>

theorem overrides_well_typed:
  "normalize_overrides raw = Inr m \<Longrightarrow> m k = Some x \<Longrightarrow>
     k \<in> set LIMIT_KEYS \<and> (x = EntNone \<or> (\<exists>i\<ge>0. x = EntInt i)) \<or>
     k \<in> set FEATURE_KEYS \<and> (\<exists>b. x = EntBool b)"
  using normalize_overrides_typed [of raw m k x] by (simp add: well_typed_override_def)

theorem overrides_well_typed_witness:
  "\<exists>m. normalize_overrides (Some [(LIMIT_WORKSPACES, PStr '' 7 ''), (''surprise'', PInt 1),
          (FEATURE_MULTI_NETWORK, PStr ''yes'')]) = Inr m \<and> m LIMIT_WORKSPACES = Some (EntInt 7) \<and>
     (LIMIT_WORKSPACES \<in> set LIMIT_KEYS \<and> (EntInt 7 = EntNone \<or> (\<exists>i\<ge>0. EntInt 7 = EntInt i)) \<or>
      LIMIT_WORKSPACES \<in> set FEATURE_KEYS \<and> (\<exists>b. EntInt 7 = EntBool b))"
proof -
  have c: "coerce_limit (PStr '' 7 '') = Inr (Some (EntInt 7))" by code_simp
  then have n: "normalize_overrides (Some [(LIMIT_WORKSPACES, PStr '' 7 ''), (''surprise'', PInt 1),
      (FEATURE_MULTI_NETWORK, PStr ''yes'')]) = Inr [LIMIT_WORKSPACES \<mapsto> EntInt 7]"
    by (simp add: normalize_overrides_def LIMIT_KEYS_def FEATURE_KEYS_def)
  show ?thesis
    using n overrides_well_typed [OF n, of LIMIT_WORKSPACES "EntInt 7"]
    by (intro exI [of _ "[LIMIT_WORKSPACES \<mapsto> EntInt 7]"]) simp
qed

text \<open>
  C7. Creation stays within the limit, and uses all of it. Starting from \<open>cur\<close> resources,
  a sequence of creation requests under a limit \<open>l\<close> ends at the smaller of \<open>max cur l\<close> and
  \<open>cur\<close> plus the number of requests made while the lifecycle allowed provisioning.
\<close>

theorem creation_run_count:
  assumes "(case given of Some e \<Rightarrow> Inr e | None \<Rightarrow> get_entitlements organization) = Inr e"
    and "limit_for e limit_key = Inr (Some l)"
  shows "creation_run fromiso organization limit_key given nows cur =
     min (max cur l) (cur + int (length (filter (monitoring_allowed fromiso organization) nows)))"
  by (induction nows arbitrary: cur)
    (auto simp: creation_step [OF assms] min_def max_def)

lemma scale_workspace_limit:
  "get_entitlements (Some (no_organization\<lparr>org_plan := PStr ''Scale''\<rparr>)) =
     Inr ((plan_entitlements (PStr ''Scale''))(''evidence_unlimited'' \<mapsto> EntBool True))"
  "limit_for ((plan_entitlements (PStr ''Scale''))(''evidence_unlimited'' \<mapsto> EntBool True))
     LIMIT_WORKSPACES = Inr (Some 3)"
proof -
  have n: "normalize_plan (PStr ''Scale'') = PLAN_SCALE" by code_simp
  show "limit_for ((plan_entitlements (PStr ''Scale''))(''evidence_unlimited'' \<mapsto> EntBool True))
     LIMIT_WORKSPACES = Inr (Some 3)"
    by (simp add: limit_for_def LIMIT_KEYS_def plan_entitlements_def n PLAN_TABLE_simps plan_row_simps)
  show "get_entitlements (Some (no_organization\<lparr>org_plan := PStr ''Scale''\<rparr>)) =
     Inr ((plan_entitlements (PStr ''Scale''))(''evidence_unlimited'' \<mapsto> EntBool True))"
    by (simp add: get_entitlements_def org_or_empty_def no_organization_def normalize_overrides_def
        plan_entitlements_def n PLAN_TABLE_simps plan_row_simps Let_def)
qed

theorem creation_run_count_witness:
  "creation_run (\<lambda>_. None) (Some (no_organization\<lparr>org_plan := PStr ''Scale''\<rparr>)) LIMIT_WORKSPACES None
     [1, 2, 3, 4, 5] 1 = 3"
proof -
  have live: "monitoring_allowed (\<lambda>_. None) (Some (no_organization\<lparr>org_plan := PStr ''Scale''\<rparr>)) = (\<lambda>_. True)"
  proof
    fix t
    have "normalize_plan (PStr ''Scale'') = PLAN_SCALE" "normalize_status PNone = STATUS_ACTIVE" by code_simp+
    then show "monitoring_allowed (\<lambda>_. None) (Some (no_organization\<lparr>org_plan := PStr ''Scale''\<rparr>)) t = True"
      by (simp add: monitoring_allowed_def lifecycle_state_def org_or_empty_def no_organization_def Let_def)
  qed
  show ?thesis
    by (subst creation_run_count [where e = "(plan_entitlements (PStr ''Scale''))(''evidence_unlimited'' \<mapsto> EntBool True)"
          and l = 3])
      (simp_all add: scale_workspace_limit live)
qed

text \<open>
  The published matrix never sells automatic execution. At any time the row
  "Automatic production execution" of the capability matrix is enforced and reads NO in
  all four columns.
\<close>

theorem matrix_denies_execution:
  "(cap ''Automatic production execution'' SOURCE_FEATURE (Some FEATURE_AUTOMATIC_EXECUTION), True,
     [(''active_pilot'', Inr ''NO''), (''expired_pilot'', Inr ''NO''), (''scale'', Inr ''NO''),
      (''enterprise'', Inr ''NO'')]) \<in> set (capability_matrix fromiso now)"
proof -
  let ?row = "cap ''Automatic production execution'' SOURCE_FEATURE (Some FEATURE_AUTOMATIC_EXECUTION)"
  have cell: "org_overrides org = None \<Longrightarrow> matrix_cell fromiso ?row org now = Inr ''NO''" for org
  proof -
    assume "org_overrides org = None"
    then have "normalize_overrides (org_overrides (org_or_empty (Some org))) = Inr Map.empty"
      by (simp add: normalize_overrides_def org_or_empty_def)
    moreover from this obtain e where e: "effective_entitlements fromiso (Some org) now = Inr e"
      by (simp add: effective_entitlements_def get_entitlements_def Let_def)
    ultimately have "\<not> ent_truthy (e FEATURE_AUTOMATIC_EXECUTION)"
      by (simp add: effective_entitlements_execution [OF e])
    then show ?thesis
      by (simp add: matrix_cell_def e has_entitlement_def FEATURE_KEYS_def yes_no_def)
  qed
  have row: "?row \<in> set CAPABILITY_ROWS" by (simp add: CAPABILITY_ROWS_def)
  show ?thesis
    unfolding capability_matrix_def set_map
    by (rule image_eqI [OF _ row])
      (simp add: matrix_organizations_def cell no_organization_def UNENFORCED_FEATURES_def)
qed

end
