(* ===== verification/Execution_Authorization.thy ===== *)
theory Execution_Authorization
  imports Entitlements
begin

text \<open>
  Authorization of production execution, \<open>services/api/app/execution_authorization.py\<close>:
  the tenancy decision, the fail-closed lock with its per-request cache, the grant an
  authorization mints and the guard in front of a write-capable provider.

  The database is a parameter: the result of the schema probe's query and the lookup of
  a workspace's organization row, each of which may raise. The two clock readings of one
  decision are the arguments \<open>now1\<close> and \<open>now2\<close>. Building the HTTP form of a refusal and
  writing the log are not modelled.
\<close>

section \<open>Vocabulary\<close>

abbreviation CODE_PILOT_EXECUTION_DISABLED :: string where
  "CODE_PILOT_EXECUTION_DISABLED \<equiv> ''PILOT_EXECUTION_DISABLED''"
abbreviation REASON_PLAN_RECOMMEND_ONLY :: string where
  "REASON_PLAN_RECOMMEND_ONLY \<equiv> ''plan_recommend_only''"
abbreviation REASON_EVALUATION_EXPIRED :: string where
  "REASON_EVALUATION_EXPIRED \<equiv> ''evaluation_expired''"
abbreviation REASON_ORGANIZATION_SUSPENDED :: string where
  "REASON_ORGANIZATION_SUSPENDED \<equiv> ''organization_suspended''"
abbreviation REASON_ORGANIZATION_NOT_LINKED :: string where
  "REASON_ORGANIZATION_NOT_LINKED \<equiv> ''organization_not_linked''"
abbreviation REASON_ENTITLEMENT_UNAVAILABLE :: string where
  "REASON_ENTITLEMENT_UNAVAILABLE \<equiv> ''entitlement_unavailable''"
abbreviation REASON_SCHEMA_NOT_MIGRATED :: string where
  "REASON_SCHEMA_NOT_MIGRATED \<equiv> ''tenancy_schema_not_migrated''"

definition LOCK_REASONS :: "string list" where
  [vocab_simps]: "LOCK_REASONS = [REASON_PLAN_RECOMMEND_ONLY, REASON_EVALUATION_EXPIRED,
     REASON_ORGANIZATION_SUSPENDED, REASON_ORGANIZATION_NOT_LINKED,
     REASON_ENTITLEMENT_UNAVAILABLE]"

definition REASON_MESSAGES :: "(string \<times> string) list" where
  "REASON_MESSAGES =
    [(REASON_PLAN_RECOMMEND_ONLY,
      ''Production execution is disabled for Pilot workspaces. Pilot mode supports monitoring, investigation, simulation, recommendations, and evidence only.''),
     (REASON_EVALUATION_EXPIRED,
      ''Your Pilot evaluation has ended, so this action cannot be executed against production. Your existing actions and evidence remain available; upgrade to Scale to resume.''),
     (REASON_ORGANIZATION_SUSPENDED,
      ''This organization is suspended, so this action cannot be executed against production. Existing records remain available; contact Decoda to reactivate it.''),
     (REASON_ORGANIZATION_NOT_LINKED,
      ''Production execution is disabled because this workspace is not linked to an organization, so no plan entitlement could be established for it.''),
     (REASON_ENTITLEMENT_UNAVAILABLE,
      ''Production execution is disabled because the plan entitlement for this workspace could not be read. Execution stays closed until it can be.'')]"

definition DEFAULT_MESSAGE :: string where
  "DEFAULT_MESSAGE = the (map_of REASON_MESSAGES REASON_PLAN_RECOMMEND_ONLY)"

definition reason_message :: "pyval \<Rightarrow> string" where
  "reason_message reason =
     (case map_of REASON_MESSAGES (py_strip (text_of reason)) of Some m \<Rightarrow> m | None \<Rightarrow> DEFAULT_MESSAGE)"

abbreviation SOURCE_SERVICE :: string where
  "SOURCE_SERVICE \<equiv> ''service''"
abbreviation SOURCE_PROVIDER :: string where
  "SOURCE_PROVIDER \<equiv> ''provider''"

definition normalize_source :: "pyval \<Rightarrow> string" where
  "normalize_source v = (let key = lower_key v in if key = [] then SOURCE_SERVICE else key)"

section \<open>The refusal and the grant\<close>

record forbidden =
  fb_reason :: string
  fb_message :: string
  fb_plan :: "string option"
  fb_lifecycle_state :: "string option"
  fb_workspace_id :: "string option"
  fb_action_id :: "string option"
  fb_action_type :: "string option"
  fb_source :: string

text \<open>\<open>ExecutionForbidden(...)\<close>: an empty reason or message falls back.\<close>

definition execution_forbidden ::
  "string \<Rightarrow> string option \<Rightarrow> string option \<Rightarrow> string option \<Rightarrow> string option \<Rightarrow>
     string option \<Rightarrow> string option \<Rightarrow> pyval \<Rightarrow> forbidden" where
  "execution_forbidden reason msg pl lifecycle ws aid atype src =
     (let r = (if reason = [] then REASON_PLAN_RECOMMEND_ONLY else reason) in
      \<lparr>fb_reason = r,
       fb_message = (case msg of Some (c # cs) \<Rightarrow> c # cs | _ \<Rightarrow> reason_message (PStr r)),
       fb_plan = pl, fb_lifecycle_state = lifecycle, fb_workspace_id = ws,
       fb_action_id = aid, fb_action_type = atype, fb_source = normalize_source src\<rparr>)"

record grant =
  gr_workspace_id :: string
  gr_plan :: "string option"
  gr_source :: string
  gr_action_id :: "string option"
  gr_action_type :: "string option"
  gr_granted_at :: int

definition grant_matches :: "grant \<Rightarrow> string \<Rightarrow> string option \<Rightarrow> bool" where
  "grant_matches g ws aid =
     (if gr_workspace_id g \<noteq> ws then False
      else if aid = None \<or> gr_action_id g = None then True
      else gr_action_id g = aid)"

section \<open>The decision\<close>

abbreviation SCHEMA_READY :: string where
  "SCHEMA_READY \<equiv> ''ready''"
abbreviation SCHEMA_ABSENT :: string where
  "SCHEMA_ABSENT \<equiv> ''absent''"
abbreviation SCHEMA_UNKNOWN :: string where
  "SCHEMA_UNKNOWN \<equiv> ''unknown''"

text \<open>The probe's query raises (\<open>None\<close>) or counts the tables and the link column.\<close>

definition tenancy_schema_state :: "(int \<times> int) option \<Rightarrow> string" where
  "tenancy_schema_state row = (case row of
       None \<Rightarrow> SCHEMA_UNKNOWN
     | Some (table_count, link_count) \<Rightarrow>
         if table_count \<ge> 2 \<and> link_count \<ge> 1 then SCHEMA_READY else SCHEMA_ABSENT)"

record exec_decision =
  ed_allowed :: bool
  ed_reason :: "string option"
  ed_plan :: "string option"
  ed_lifecycle :: "string option"

definition refuse :: "string \<Rightarrow> exec_decision" where
  "refuse reason = \<lparr>ed_allowed = False, ed_reason = Some reason, ed_plan = None, ed_lifecycle = None\<rparr>"

definition decide ::
  "iso_parser \<Rightarrow> organization option \<Rightarrow> string \<Rightarrow> int \<Rightarrow> int \<Rightarrow> py_error + exec_decision" where
  "decide fromiso organization schema_state now1 now2 =
     (if schema_state = SCHEMA_UNKNOWN then Inr (refuse REASON_ENTITLEMENT_UNAVAILABLE)
      else if schema_state = SCHEMA_ABSENT then
        Inr \<lparr>ed_allowed = True, ed_reason = Some REASON_SCHEMA_NOT_MIGRATED,
             ed_plan = None, ed_lifecycle = None\<rparr>
      else case organization of
        None \<Rightarrow> Inr (refuse REASON_ORGANIZATION_NOT_LINKED)
      | Some org \<Rightarrow>
          bind_result (effective_entitlements fromiso organization now1) (\<lambda>e.
          bind_result (has_entitlement e FEATURE_AUTOMATIC_EXECUTION) (\<lambda>allowed.
            let lifecycle = lifecycle_state fromiso organization now2 in
            Inr \<lparr>ed_allowed = allowed,
                 ed_reason = (if allowed then None
                   else if lifecycle = LIFECYCLE_EXPIRED_PILOT then Some REASON_EVALUATION_EXPIRED
                   else if lifecycle = LIFECYCLE_SUSPENDED then Some REASON_ORGANIZATION_SUSPENDED
                   else Some REASON_PLAN_RECOMMEND_ONLY),
                 ed_plan = Some (normalize_plan (org_plan org)),
                 ed_lifecycle = Some lifecycle\<rparr>)))"

record lock =
  lk_locked :: bool
  lk_reason :: "string option"
  lk_plan :: "string option"

type_synonym lock_cache = "string \<rightharpoonup> lock"

record tenancy_db =
  db_probe :: "(int \<times> int) option"
  db_lookup :: "string \<Rightarrow> organization option option"

text \<open>
  \<open>db_lookup ws\<close> is \<open>None\<close> when the query raises. The cache is \<open>None\<close> when the caller
  passed none; the result carries the cache back.
\<close>

definition fresh_lock :: "iso_parser \<Rightarrow> tenancy_db \<Rightarrow> string \<Rightarrow> int \<Rightarrow> int \<Rightarrow> lock" where
  "fresh_lock fromiso db ws now1 now2 =
     (let closed = \<lparr>lk_locked = True, lk_reason = Some REASON_ENTITLEMENT_UNAVAILABLE, lk_plan = None\<rparr>;
          schema_state = tenancy_schema_state (db_probe db)
      in case (if schema_state = SCHEMA_READY then db_lookup db ws else Some None) of
           None \<Rightarrow> closed
         | Some organization \<Rightarrow>
             (case decide fromiso organization schema_state now1 now2 of
                Inl _ \<Rightarrow> closed
              | Inr d \<Rightarrow> \<lparr>lk_locked = (\<not> ed_allowed d), lk_reason = ed_reason d, lk_plan = ed_plan d\<rparr>))"

definition resolve_execution_lock ::
  "iso_parser \<Rightarrow> tenancy_db \<Rightarrow> string \<Rightarrow> lock_cache option \<Rightarrow> int \<Rightarrow> int \<Rightarrow> lock \<times> lock_cache option" where
  "resolve_execution_lock fromiso db ws cache now1 now2 =
     (let cache_key = ''execution_lock:'' @ ws in
      case cache of
        None \<Rightarrow> (fresh_lock fromiso db ws now1 now2, None)
      | Some c \<Rightarrow>
          (case c cache_key of
             Some l \<Rightarrow> (l, cache)
           | None \<Rightarrow> let l = fresh_lock fromiso db ws now1 now2 in (l, Some (c(cache_key \<mapsto> l)))))"

section \<open>The guards\<close>

text \<open>The fields of an action row the guards read; a missing row is the row of \<open>None\<close>s.\<close>

record action_row =
  ar_id :: pyval
  ar_action_type :: pyval
  ar_mode :: pyval

definition is_production_execution :: "action_row option \<Rightarrow> bool" where
  "is_production_execution action =
     (case action of None \<Rightarrow> False | Some a \<Rightarrow> lower_key (ar_mode a) = ''live'')"

definition text_or_none :: "pyval \<Rightarrow> string option" where
  "text_or_none v = (if text_of v = [] then None else Some (text_of v))"

definition assert_execution_allowed ::
  "iso_parser \<Rightarrow> tenancy_db \<Rightarrow> string \<Rightarrow> action_row option \<Rightarrow> pyval \<Rightarrow> lock_cache option
     \<Rightarrow> int \<Rightarrow> int \<Rightarrow> (forbidden + grant) \<times> lock_cache option" where
  "assert_execution_allowed fromiso db ws action src cache now1 now2 =
     (let (l, cache') = resolve_execution_lock fromiso db ws cache now1 now2;
          aid = (case action of None \<Rightarrow> None | Some a \<Rightarrow> text_or_none (ar_id a));
          atype = (case action of None \<Rightarrow> None | Some a \<Rightarrow> text_or_none (ar_action_type a))
      in (if lk_locked l
          then Inl (execution_forbidden
                 (case lk_reason l of None \<Rightarrow> REASON_PLAN_RECOMMEND_ONLY | Some r \<Rightarrow> r)
                 None (lk_plan l) None (Some ws) aid atype src)
          else Inr \<lparr>gr_workspace_id = ws, gr_plan = lk_plan l, gr_source = normalize_source src,
                    gr_action_id = aid, gr_action_type = atype, gr_granted_at = now2\<rparr>, cache'))"

definition assert_provider_call_allowed ::
  "grant option \<Rightarrow> string \<Rightarrow> string option \<Rightarrow> string option \<Rightarrow> forbidden + grant" where
  "assert_provider_call_allowed authorization ws aid atype =
     (let refusal = execution_forbidden REASON_ENTITLEMENT_UNAVAILABLE
            (Some ''Production execution was refused: this provider call carries no verified plan authorization for the workspace and action it names.'')
            None None (Some ws) aid atype (PStr SOURCE_PROVIDER)
      in case authorization of
           None \<Rightarrow> Inl refusal
         | Some g \<Rightarrow> if \<not> grant_matches g ws aid then Inl refusal else Inr g)"

text \<open>The audit row of a refusal, as the list of its entries.\<close>

definition blocked_audit_metadata ::
  "forbidden \<Rightarrow> string option \<Rightarrow> string \<Rightarrow> string option \<Rightarrow> string \<Rightarrow> (string \<times> string option) list" where
  "blocked_audit_metadata err actor_id actor_type request_id occurred_at =
     [(''event_type'', Some ''pilot_execution_blocked''),
      (''code'', Some CODE_PILOT_EXECUTION_DISABLED),
      (''workspace_id'', fb_workspace_id err),
      (''actor_type'', Some actor_type),
      (''actor_id'', actor_id),
      (''action_id'', fb_action_id err),
      (''action_type'', fb_action_type err),
      (''source'', Some (fb_source err)),
      (''reason'', Some (fb_reason err)),
      (''plan'', fb_plan err),
      (''lifecycle_state'', fb_lifecycle_state err),
      (''request_id'', request_id),
      (''occurred_at'', Some occurred_at)]"

section \<open>Lemmas\<close>

text \<open>
  What must hold for a tenant to run against production: an explicit override granting
  automatic execution, and a live lifecycle. No plan is on this list.
\<close>

definition execution_granted :: "iso_parser \<Rightarrow> organization \<Rightarrow> int \<Rightarrow> bool" where
  "execution_granted fromiso org now \<longleftrightarrow>
     (\<exists>m. normalize_overrides (org_overrides org) = Inr m \<and>
          m FEATURE_AUTOMATIC_EXECUTION = Some (EntBool True)) \<and>
     monitoring_allowed fromiso (Some org) now"

lemma automatic_execution_known: "FEATURE_AUTOMATIC_EXECUTION \<in> set FEATURE_KEYS"
  by (simp add: FEATURE_KEYS_def)

lemma decide_ready:
  "decide fromiso (Some org) SCHEMA_READY now1 now2 = Inr d \<Longrightarrow>
   ed_allowed d \<longleftrightarrow> execution_granted fromiso org now1"
proof -
  assume "decide fromiso (Some org) SCHEMA_READY now1 now2 = Inr d"
  then obtain e where e: "effective_entitlements fromiso (Some org) now1 = Inr e"
    and d: "ed_allowed d = ent_truthy (e FEATURE_AUTOMATIC_EXECUTION)"
    by (auto simp: decide_def bind_result_Inr has_entitlement_def automatic_execution_known Let_def
             split: if_splits)
  then obtain m where m: "normalize_overrides (org_overrides org) = Inr m"
    by (auto simp: effective_entitlements_def bind_result_Inr get_entitlements_Inr org_or_empty_def)
  then show ?thesis
    using effective_entitlements_execution [OF e, of m] d
    by (auto simp: execution_granted_def org_or_empty_def)
qed

lemma decide_ready_error:
  "decide fromiso (Some org) SCHEMA_READY now1 now2 = Inl err \<Longrightarrow> \<not> execution_granted fromiso org now1"
  by (auto simp: decide_def bind_result_Inl has_entitlement_def automatic_execution_known Let_def
        effective_entitlements_def get_entitlements_def execution_granted_def org_or_empty_def
        split: if_splits)

text \<open>Who may run: nobody behind an unreadable fact; before the migration, everybody.\<close>

definition tenant_may_execute :: "iso_parser \<Rightarrow> tenancy_db \<Rightarrow> string \<Rightarrow> int \<Rightarrow> bool" where
  "tenant_may_execute fromiso db ws now =
     (case db_probe db of
        None \<Rightarrow> False
      | Some (tables, links) \<Rightarrow>
          if tables < 2 \<or> links < 1 then True
          else (case db_lookup db ws of
                  Some (Some org) \<Rightarrow> execution_granted fromiso org now
                | _ \<Rightarrow> False))"

lemma fresh_lock_correct:
  "\<not> lk_locked (fresh_lock fromiso db ws now1 now2) \<longleftrightarrow> tenant_may_execute fromiso db ws now1"
proof (cases "db_probe db")
  case None
  then show ?thesis
    by (simp add: fresh_lock_def tenant_may_execute_def tenancy_schema_state_def decide_def refuse_def
        Let_def)
next
  case (Some tl)
  obtain t l where tl: "tl = (t, l)" by (cases tl)
  show ?thesis
  proof (cases "t < 2 \<or> l < 1")
    case True
    then have "tenancy_schema_state (db_probe db) = SCHEMA_ABSENT"
      using Some tl by (auto simp: tenancy_schema_state_def)
    with True Some tl show ?thesis
      by (simp add: fresh_lock_def tenant_may_execute_def decide_def Let_def)
  next
    case False
    then have ready: "tenancy_schema_state (db_probe db) = SCHEMA_READY"
      using Some tl by (simp add: tenancy_schema_state_def)
    have may: "tenant_may_execute fromiso db ws now1 \<longleftrightarrow>
        (\<exists>org. db_lookup db ws = Some (Some org) \<and> execution_granted fromiso org now1)"
      using False Some tl by (auto simp: tenant_may_execute_def split: option.splits)
    show ?thesis
    proof (cases "db_lookup db ws")
      case None
      then show ?thesis
        unfolding may fresh_lock_def Let_def ready by simp
    next
      case (Some row)
      show ?thesis
      proof (cases row)
        case None
        then show ?thesis
          unfolding may fresh_lock_def Let_def ready using Some by (simp add: decide_def refuse_def)
      next
        case (Some org)
        then show ?thesis
          unfolding may fresh_lock_def Let_def ready
          using \<open>db_lookup db ws = Some row\<close> decide_ready [of fromiso org now1 now2]
            decide_ready_error [of fromiso org now1 now2]
          by (auto split: sum.splits)
      qed
    qed
  qed
qed

lemma resolve_lock_cache_none:
  "resolve_execution_lock fromiso db ws None now1 now2 = (fresh_lock fromiso db ws now1 now2, None)"
  by (simp add: resolve_execution_lock_def Let_def)

lemma assert_execution_allowed_Inr:
  "fst (assert_execution_allowed fromiso db ws action src cache now1 now2) = Inr g \<Longrightarrow>
     gr_workspace_id g = ws \<and>
     gr_action_id g = (case action of None \<Rightarrow> None | Some a \<Rightarrow> text_or_none (ar_id a)) \<and>
     \<not> lk_locked (fst (resolve_execution_lock fromiso db ws cache now1 now2))"
  by (auto simp: assert_execution_allowed_def Let_def split: prod.splits if_splits)

lemma assert_provider_call_allowed_Inr:
  "assert_provider_call_allowed authorization ws aid atype = Inr g \<longleftrightarrow>
     authorization = Some g \<and> grant_matches g ws aid"
  by (auto simp: assert_provider_call_allowed_def Let_def split: option.splits if_splits)

lemma resolve_lock_cached:
  "resolve_execution_lock fromiso db ws (Some c) now1 now2 = (l, c') \<Longrightarrow>
     l = (case c (''execution_lock:'' @ ws) of Some k \<Rightarrow> k | None \<Rightarrow> fresh_lock fromiso db ws now1 now2) \<and>
     c' = Some (c(''execution_lock:'' @ ws \<mapsto> l))"
  by (auto simp: resolve_execution_lock_def Let_def map_upd_triv split: option.splits)

section \<open>Runs\<close>

text \<open>
  The life of the grants across requests. \<open>es_reads\<close> is history: the tenancy state and the
  clock of every authorization that was asked for. A provider is reached only through
  \<open>assert_provider_call_allowed\<close> with a grant \<open>assert_execution_allowed\<close> returned.
\<close>

record exec_state =
  es_db :: tenancy_db
  es_cache :: lock_cache
  es_reads :: "(tenancy_db \<times> int) list"
  es_grants :: "grant list"
  es_calls :: "(grant \<times> string \<times> string option) list"

inductive exec_step :: "iso_parser \<Rightarrow> exec_state \<Rightarrow> exec_state \<Rightarrow> bool" for fromiso where
  tenancy_write: "exec_step fromiso s (s\<lparr>es_db := db\<rparr>)"
| new_request: "exec_step fromiso s (s\<lparr>es_cache := Map.empty\<rparr>)"
| authorized: "assert_execution_allowed fromiso (es_db s) ws action src (Some (es_cache s)) now1 now2
      = (Inr g, Some c) \<Longrightarrow>
    exec_step fromiso s (s\<lparr>es_cache := c, es_reads := (es_db s, now1) # es_reads s,
                           es_grants := g # es_grants s\<rparr>)"
| refused: "assert_execution_allowed fromiso (es_db s) ws action src (Some (es_cache s)) now1 now2
      = (Inl err, Some c) \<Longrightarrow>
    exec_step fromiso s (s\<lparr>es_cache := c, es_reads := (es_db s, now1) # es_reads s\<rparr>)"
| provider_call: "g' \<in> set (es_grants s) \<Longrightarrow>
    assert_provider_call_allowed (Some g') ws aid atype = Inr g \<Longrightarrow>
    exec_step fromiso s (s\<lparr>es_calls := (g, ws, aid) # es_calls s\<rparr>)"

inductive_cases exec_stepE: "exec_step fromiso s s'"

definition exec_init :: "tenancy_db \<Rightarrow> exec_state" where
  "exec_init db = \<lparr>es_db = db, es_cache = Map.empty, es_reads = [], es_grants = [], es_calls = []\<rparr>"

inductive exec_reachable :: "iso_parser \<Rightarrow> exec_state \<Rightarrow> bool" for fromiso where
  init: "exec_reachable fromiso (exec_init db)"
| step: "exec_reachable fromiso s \<Longrightarrow> exec_step fromiso s s' \<Longrightarrow> exec_reachable fromiso s'"

definition permitted_by_reads :: "iso_parser \<Rightarrow> exec_state \<Rightarrow> string \<Rightarrow> bool" where
  "permitted_by_reads fromiso s ws = list_ex (\<lambda>(db, t). tenant_may_execute fromiso db ws t) (es_reads s)"

definition exec_inv :: "iso_parser \<Rightarrow> exec_state \<Rightarrow> bool" where
  "exec_inv fromiso s \<longleftrightarrow>
     (\<forall>ws l. es_cache s (''execution_lock:'' @ ws) = Some l \<longrightarrow> \<not> lk_locked l \<longrightarrow>
        permitted_by_reads fromiso s ws) \<and>
     (\<forall>g \<in> set (es_grants s). permitted_by_reads fromiso s (gr_workspace_id g)) \<and>
     (\<forall>(g, ws, aid) \<in> set (es_calls s). g \<in> set (es_grants s) \<and> grant_matches g ws aid)"

lemma exec_inv_authorization:
  assumes inv: "exec_inv fromiso s"
    and call: "assert_execution_allowed fromiso (es_db s) ws action src (Some (es_cache s)) now1 now2
       = (r, Some c)"
    and s': "s' = s\<lparr>es_cache := c, es_reads := (es_db s, now1) # es_reads s\<rparr>"
  shows "exec_inv fromiso s'" and "r = Inr g \<Longrightarrow> permitted_by_reads fromiso s' (gr_workspace_id g)"
proof -
  obtain l where l: "resolve_execution_lock fromiso (es_db s) ws (Some (es_cache s)) now1 now2 = (l, Some c)"
    and g: "\<forall>g. r = Inr g \<longrightarrow> gr_workspace_id g = ws \<and> \<not> lk_locked l"
    using call by (fastforce simp: assert_execution_allowed_def Let_def split: prod.splits if_splits)
  have mono: "permitted_by_reads fromiso s w \<Longrightarrow> permitted_by_reads fromiso s' w" for w
    by (simp add: permitted_by_reads_def s')
  have read: "\<not> lk_locked l \<Longrightarrow> permitted_by_reads fromiso s' ws"
  proof (cases "es_cache s (''execution_lock:'' @ ws)")
    case None
    then show "\<not> lk_locked l \<Longrightarrow> permitted_by_reads fromiso s' ws"
      using resolve_lock_cached [OF l] fresh_lock_correct [of fromiso "es_db s" ws now1 now2]
      by (simp add: permitted_by_reads_def s')
  next
    case (Some k)
    then show "\<not> lk_locked l \<Longrightarrow> permitted_by_reads fromiso s' ws"
      using resolve_lock_cached [OF l] inv mono by (simp add: exec_inv_def)
  qed
  with g show "r = Inr g \<Longrightarrow> permitted_by_reads fromiso s' (gr_workspace_id g)" by simp
  have c: "c = (es_cache s)(''execution_lock:'' @ ws \<mapsto> l)"
    using resolve_lock_cached [OF l] by simp
  show "exec_inv fromiso s'"
    unfolding exec_inv_def
  proof (intro conjI allI impI)
    fix w k assume "es_cache s' (''execution_lock:'' @ w) = Some k" "\<not> lk_locked k"
    then show "permitted_by_reads fromiso s' w"
      using read mono inv by (auto simp: s' c exec_inv_def split: if_splits)
  qed (use inv mono in \<open>auto simp: exec_inv_def s'\<close>)
qed

lemma exec_inv_step [step_invs]:
  assumes "exec_step fromiso s s'" and inv: "exec_inv fromiso s"
  shows "exec_inv fromiso s'"
  using assms(1)
proof (rule exec_stepE)
  fix ws action src now1 now2 g c
  assume call: "assert_execution_allowed fromiso (es_db s) ws action src (Some (es_cache s)) now1 now2
      = (Inr g, Some c)"
    and s': "s' = s\<lparr>es_cache := c, es_reads := (es_db s, now1) # es_reads s, es_grants := g # es_grants s\<rparr>"
  from exec_inv_authorization [OF inv call refl] s'
  show ?thesis by (auto simp: exec_inv_def permitted_by_reads_def)
next
  fix ws action src now1 now2 err c
  assume "assert_execution_allowed fromiso (es_db s) ws action src (Some (es_cache s)) now1 now2
      = (Inl err, Some c)"
    and "s' = s\<lparr>es_cache := c, es_reads := (es_db s, now1) # es_reads s\<rparr>"
  then show ?thesis using exec_inv_authorization(1) [OF inv] by blast
qed (use inv in \<open>auto simp: exec_inv_def permitted_by_reads_def assert_provider_call_allowed_Inr\<close>)

lemma exec_inv_reachable: "exec_reachable fromiso s \<Longrightarrow> exec_inv fromiso s"
proof (induction rule: exec_reachable.induct)
  case (init db)
  then show ?case by (simp add: exec_inv_def exec_init_def)
next
  case (step s s')
  then show ?case by (blast intro: step_invs)
qed

section \<open>Properties\<close>

text \<open>
  C3. Fail-closed tenancy lock. A lock computed from the database lets a workspace run
  against production exactly when the deployment has no tenancy schema yet, or the schema
  and the workspace's organization row could both be read and that row carries an explicit
  boolean override for automatic execution while its lifecycle is live. In particular an
  unreadable probe, an unreadable or missing row, and overrides that raise all lock.
\<close>

theorem execution_lock_open_iff:
  "\<not> lk_locked (fst (resolve_execution_lock fromiso db ws None now1 now2)) \<longleftrightarrow>
     tenant_may_execute fromiso db ws now1"
  by (simp add: resolve_lock_cache_none fresh_lock_correct)

text \<open>
  C4. No provider call without a permitted tenant. In every run of requests, with tenancy
  rows changing in between and locks cached within a request, each call that reached a
  provider names a workspace that one of the authorizations asked for found permitted, and
  carries a grant whose workspace and action match the call.
\<close>

theorem provider_calls_permitted:
  "exec_reachable fromiso s \<Longrightarrow> (g, ws, aid) \<in> set (es_calls s) \<Longrightarrow>
     gr_workspace_id g = ws \<and> (aid = None \<or> gr_action_id g = None \<or> gr_action_id g = aid) \<and>
     (\<exists>db t. (db, t) \<in> set (es_reads s) \<and> tenant_may_execute fromiso db ws t)"
  using exec_inv_reachable [of fromiso s]
  by (fastforce simp: exec_inv_def permitted_by_reads_def list_ex_iff grant_matches_def split: if_splits)

definition sample_db :: tenancy_db where
  "sample_db = \<lparr>db_probe = Some (2, 1),
     db_lookup = (\<lambda>ws. Some (if ws = ''w1'' then Some (no_organization\<lparr>org_plan := PStr ''scale'',
        org_overrides := Some [(''automatic_execution'', PBool True)]\<rparr>) else None))\<rparr>"

definition sample_grant :: grant where
  "sample_grant = \<lparr>gr_workspace_id = ''w1'', gr_plan = Some ''scale'', gr_source = ''service'',
     gr_action_id = None, gr_action_type = None, gr_granted_at = 6\<rparr>"

lemma sample_fresh_lock:
  "fresh_lock (\<lambda>_. None) sample_db ''w1'' 5 6
     = \<lparr>lk_locked = False, lk_reason = None, lk_plan = Some ''scale''\<rparr>"
  by code_simp

lemma sample_run:
  "\<exists>s. exec_reachable (\<lambda>_. None) s \<and> (sample_grant, ''w1'', Some ''a7'') \<in> set (es_calls s)"
proof -
  let ?c = "[''execution_lock:w1'' \<mapsto> \<lparr>lk_locked = False, lk_reason = None, lk_plan = Some ''scale''\<rparr>]"
  let ?s = "(exec_init sample_db)\<lparr>es_cache := ?c,
      es_reads := (es_db (exec_init sample_db), 5) # es_reads (exec_init sample_db),
      es_grants := sample_grant # es_grants (exec_init sample_db)\<rparr>"
  have "assert_execution_allowed (\<lambda>_. None) (es_db (exec_init sample_db)) ''w1'' None PNone
      (Some (es_cache (exec_init sample_db))) 5 6 = (Inr sample_grant, Some ?c)"
    by (simp add: assert_execution_allowed_def resolve_execution_lock_def exec_init_def
        sample_fresh_lock sample_grant_def normalize_source_def Let_def)
  from exec_step.authorized [OF this] have "exec_reachable (\<lambda>_. None) ?s"
    by (rule exec_reachable.step [OF exec_reachable.init])
  moreover have "assert_provider_call_allowed (Some sample_grant) ''w1'' (Some ''a7'') None = Inr sample_grant"
    by code_simp
  then have "exec_step (\<lambda>_. None) ?s (?s\<lparr>es_calls := (sample_grant, ''w1'', Some ''a7'') # es_calls ?s\<rparr>)"
    by (rule exec_step.provider_call [rotated]) simp
  ultimately have "exec_reachable (\<lambda>_. None)
      (?s\<lparr>es_calls := (sample_grant, ''w1'', Some ''a7'') # es_calls ?s\<rparr>)"
    by (rule exec_reachable.step)
  then show ?thesis by (intro exI conjI) auto
qed

theorem provider_calls_permitted_witness:
  "\<exists>s db t. exec_reachable (\<lambda>_. None) s \<and>
     (sample_grant, ''w1'', Some ''a7'') \<in> set (es_calls s) \<and> (db, t) \<in> set (es_reads s) \<and>
     tenant_may_execute (\<lambda>_. None) db ''w1'' t"
proof -
  obtain s where s: "exec_reachable (\<lambda>_. None) s"
    "(sample_grant, ''w1'', Some ''a7'') \<in> set (es_calls s)" using sample_run by blast
  with provider_calls_permitted [OF s] show ?thesis by blast
qed

end
