(* ===== verification/Governance_Config.thy ===== *)
theory Governance_Config
  imports Py_Values
begin

text \<open>
  Vocabulary of the governance policies,
  \<open>services/api/app/domains/governance_policy/config.py\<close>: the closed sets of operations,
  statuses, settlement states, business events and roles with their normalisers, the reason
  codes, the checks and their order, the starter templates and the environment settings.
  Every normaliser is an instance of the \<open>vocabulary\<close> contract. Names the other modules
  also use carry the prefix \<open>GP_\<close>.
\<close>

abbreviation GP_ENGINE_VERSION :: string where
  "GP_ENGINE_VERSION \<equiv> ''governance-policy-engine-v1''"

section \<open>Operations\<close>

abbreviation OPERATION_MINT :: string where
  "OPERATION_MINT \<equiv> ''MINT''"
abbreviation OPERATION_BURN :: string where
  "OPERATION_BURN \<equiv> ''BURN''"
abbreviation OPERATION_TRANSFER :: string where
  "OPERATION_TRANSFER \<equiv> ''TRANSFER''"

definition OPERATIONS :: "string list" where
  [vocab_simps]: "OPERATIONS = [OPERATION_MINT, OPERATION_BURN, OPERATION_TRANSFER]"

definition OPERATION_LABELS :: "(string \<times> string) list" where
  [vocab_simps]: "OPERATION_LABELS =
    [(OPERATION_MINT, ''Mint''), (OPERATION_BURN, ''Burn''), (OPERATION_TRANSFER, ''Transfer'')]"

definition normalize_operation :: "pyval \<Rightarrow> string option" where
  "normalize_operation v = (let key = upper_key v in if key \<in> set OPERATIONS then Some key else None)"

section \<open>Policy status\<close>

abbreviation GP_STATUS_DRAFT :: string where
  "GP_STATUS_DRAFT \<equiv> ''DRAFT''"
abbreviation GP_STATUS_ACTIVE :: string where
  "GP_STATUS_ACTIVE \<equiv> ''ACTIVE''"
abbreviation GP_STATUS_DISABLED :: string where
  "GP_STATUS_DISABLED \<equiv> ''DISABLED''"
abbreviation GP_STATUS_ARCHIVED :: string where
  "GP_STATUS_ARCHIVED \<equiv> ''ARCHIVED''"

definition GP_STATUSES :: "string list" where
  [vocab_simps]: "GP_STATUSES =
    [GP_STATUS_DRAFT, GP_STATUS_ACTIVE, GP_STATUS_DISABLED, GP_STATUS_ARCHIVED]"

definition GP_STATUS_LABELS :: "(string \<times> string) list" where
  [vocab_simps]: "GP_STATUS_LABELS = [(GP_STATUS_DRAFT, ''Draft''), (GP_STATUS_ACTIVE, ''Active''),
     (GP_STATUS_DISABLED, ''Disabled''), (GP_STATUS_ARCHIVED, ''Archived'')]"

definition gp_normalize_status :: "pyval \<Rightarrow> string option" where
  "gp_normalize_status v = (let key = upper_key v in if key \<in> set GP_STATUSES then Some key else None)"

section \<open>Settlement\<close>

abbreviation SETTLEMENT_CLEARED :: string where
  "SETTLEMENT_CLEARED \<equiv> ''CLEARED''"
abbreviation SETTLEMENT_PENDING :: string where
  "SETTLEMENT_PENDING \<equiv> ''PENDING''"
abbreviation SETTLEMENT_FAILED :: string where
  "SETTLEMENT_FAILED \<equiv> ''FAILED''"
abbreviation SETTLEMENT_MISSING :: string where
  "SETTLEMENT_MISSING \<equiv> ''MISSING''"

definition SETTLEMENT_STATES :: "string list" where
  [vocab_simps]: "SETTLEMENT_STATES =
    [SETTLEMENT_CLEARED, SETTLEMENT_PENDING, SETTLEMENT_FAILED, SETTLEMENT_MISSING]"

definition SETTLEMENT_LABELS :: "(string \<times> string) list" where
  [vocab_simps]: "SETTLEMENT_LABELS = [(SETTLEMENT_CLEARED, ''Cleared''),
     (SETTLEMENT_PENDING, ''Pending''), (SETTLEMENT_FAILED, ''Failed''),
     (SETTLEMENT_MISSING, ''Missing'')]"

definition normalize_settlement :: "pyval \<Rightarrow> string option" where
  "normalize_settlement v =
     (let key = upper_key v in if key \<in> set SETTLEMENT_STATES then Some key else None)"

abbreviation REQUIREMENT_CLEARED :: string where
  "REQUIREMENT_CLEARED \<equiv> ''CLEARED''"
abbreviation REQUIREMENT_CLEARED_OR_PENDING :: string where
  "REQUIREMENT_CLEARED_OR_PENDING \<equiv> ''CLEARED_OR_PENDING''"

definition SETTLEMENT_REQUIREMENTS :: "string list" where
  [vocab_simps]: "SETTLEMENT_REQUIREMENTS = [REQUIREMENT_CLEARED, REQUIREMENT_CLEARED_OR_PENDING]"

definition SETTLEMENT_SATISFIES :: "(string \<times> string list) list" where
  [vocab_simps]: "SETTLEMENT_SATISFIES =
    [(REQUIREMENT_CLEARED, [SETTLEMENT_CLEARED]),
     (REQUIREMENT_CLEARED_OR_PENDING, [SETTLEMENT_CLEARED, SETTLEMENT_PENDING])]"

definition SETTLEMENT_REQUIREMENT_LABELS :: "(string \<times> string) list" where
  [vocab_simps]: "SETTLEMENT_REQUIREMENT_LABELS =
    [(REQUIREMENT_CLEARED, ''CLEARED''), (REQUIREMENT_CLEARED_OR_PENDING, ''CLEARED or PENDING'')]"

definition normalize_settlement_requirement :: "pyval \<Rightarrow> string option" where
  "normalize_settlement_requirement v =
     (let key = upper_key v in if key \<in> set SETTLEMENT_REQUIREMENTS then Some key else None)"

section \<open>Business events\<close>

abbreviation BUSINESS_EVENT_SUBSCRIPTION :: string where
  "BUSINESS_EVENT_SUBSCRIPTION \<equiv> ''SUBSCRIPTION''"
abbreviation BUSINESS_EVENT_REDEMPTION :: string where
  "BUSINESS_EVENT_REDEMPTION \<equiv> ''REDEMPTION''"
abbreviation BUSINESS_EVENT_TRANSFER_INSTRUCTION :: string where
  "BUSINESS_EVENT_TRANSFER_INSTRUCTION \<equiv> ''TRANSFER_INSTRUCTION''"

definition BUSINESS_EVENTS :: "string list" where
  [vocab_simps]: "BUSINESS_EVENTS = [BUSINESS_EVENT_SUBSCRIPTION, BUSINESS_EVENT_REDEMPTION,
     BUSINESS_EVENT_TRANSFER_INSTRUCTION]"

definition BUSINESS_EVENT_LABELS :: "(string \<times> string) list" where
  [vocab_simps]: "BUSINESS_EVENT_LABELS = [(BUSINESS_EVENT_SUBSCRIPTION, ''Subscription''),
     (BUSINESS_EVENT_REDEMPTION, ''Redemption''),
     (BUSINESS_EVENT_TRANSFER_INSTRUCTION, ''Transfer Instruction'')]"

definition normalize_business_event :: "pyval \<Rightarrow> string option" where
  "normalize_business_event v =
     (let key = upper_key v in if key \<in> set BUSINESS_EVENTS then Some key else None)"

section \<open>Roles\<close>

abbreviation ROLE_SECURITY_LEAD :: string where
  "ROLE_SECURITY_LEAD \<equiv> ''SECURITY_LEAD''"
abbreviation ROLE_TREASURY_OPERATOR :: string where
  "ROLE_TREASURY_OPERATOR \<equiv> ''TREASURY_OPERATOR''"
abbreviation ROLE_COMPLIANCE_APPROVER :: string where
  "ROLE_COMPLIANCE_APPROVER \<equiv> ''COMPLIANCE_APPROVER''"

definition GOVERNANCE_ROLES :: "string list" where
  [vocab_simps]: "GOVERNANCE_ROLES =
    [ROLE_SECURITY_LEAD, ROLE_TREASURY_OPERATOR, ROLE_COMPLIANCE_APPROVER]"

definition GOVERNANCE_ROLE_LABELS :: "(string \<times> string) list" where
  [vocab_simps]: "GOVERNANCE_ROLE_LABELS = [(ROLE_SECURITY_LEAD, ''Security Lead''),
     (ROLE_TREASURY_OPERATOR, ''Treasury Operator''),
     (ROLE_COMPLIANCE_APPROVER, ''Compliance Approver'')]"

definition ROLE_PERMISSIONS :: "(string \<times> string) list" where
  [vocab_simps]: "ROLE_PERMISSIONS = [(ROLE_SECURITY_LEAD, ''security.manage''),
     (ROLE_TREASURY_OPERATOR, ''response.propose''), (ROLE_COMPLIANCE_APPROVER, ''response.approve'')]"

definition ROLE_SATISFACTION :: "(string \<times> string) list" where
  [vocab_simps]: "ROLE_SATISFACTION = [(ROLE_SECURITY_LEAD, ''approval''),
     (ROLE_TREASURY_OPERATOR, ''operator''), (ROLE_COMPLIANCE_APPROVER, ''approval'')]"

definition normalize_role :: "pyval \<Rightarrow> string option" where
  "normalize_role v = (let key = upper_key v in if key \<in> set GOVERNANCE_ROLES then Some key else None)"

section \<open>Reason codes\<close>

abbreviation POLICY_SATISFIED :: string where
  "POLICY_SATISFIED \<equiv> ''POLICY_SATISFIED''"
abbreviation POLICY_NOT_FOUND :: string where
  "POLICY_NOT_FOUND \<equiv> ''POLICY_NOT_FOUND''"
abbreviation POLICY_DISABLED :: string where
  "POLICY_DISABLED \<equiv> ''POLICY_DISABLED''"
abbreviation POLICY_NOT_ACTIVE :: string where
  "POLICY_NOT_ACTIVE \<equiv> ''POLICY_NOT_ACTIVE''"
abbreviation OPERATION_MISMATCH :: string where
  "OPERATION_MISMATCH \<equiv> ''OPERATION_MISMATCH''"
abbreviation OPERATION_NOT_ESTABLISHED :: string where
  "OPERATION_NOT_ESTABLISHED \<equiv> ''OPERATION_NOT_ESTABLISHED''"
abbreviation AUTHORITATIVE_FACTS_UNAVAILABLE :: string where
  "AUTHORITATIVE_FACTS_UNAVAILABLE \<equiv> ''AUTHORITATIVE_FACTS_UNAVAILABLE''"
abbreviation DETECTION_FACTS_UNAVAILABLE :: string where
  "DETECTION_FACTS_UNAVAILABLE \<equiv> ''DETECTION_FACTS_UNAVAILABLE''"
abbreviation ISSUANCE_FACTS_UNAVAILABLE :: string where
  "ISSUANCE_FACTS_UNAVAILABLE \<equiv> ''ISSUANCE_FACTS_UNAVAILABLE''"

definition FACTS_UNAVAILABLE_REASON_CODES :: "string list" where
  [vocab_simps]: "FACTS_UNAVAILABLE_REASON_CODES = [AUTHORITATIVE_FACTS_UNAVAILABLE,
     DETECTION_FACTS_UNAVAILABLE, ISSUANCE_FACTS_UNAVAILABLE]"

abbreviation BUSINESS_EVENT_MISSING :: string where
  "BUSINESS_EVENT_MISSING \<equiv> ''BUSINESS_EVENT_MISSING''"
abbreviation BUSINESS_EVENT_MISMATCH :: string where
  "BUSINESS_EVENT_MISMATCH \<equiv> ''BUSINESS_EVENT_MISMATCH''"
abbreviation SETTLEMENT_NOT_CLEARED :: string where
  "SETTLEMENT_NOT_CLEARED \<equiv> ''SETTLEMENT_NOT_CLEARED''"
abbreviation SETTLEMENT_STATE_UNKNOWN :: string where
  "SETTLEMENT_STATE_UNKNOWN \<equiv> ''SETTLEMENT_STATE_UNKNOWN''"
abbreviation OUTSIDE_ALLOWED_WINDOW :: string where
  "OUTSIDE_ALLOWED_WINDOW \<equiv> ''OUTSIDE_ALLOWED_WINDOW''"
abbreviation EVALUATION_TIMESTAMP_MISSING :: string where
  "EVALUATION_TIMESTAMP_MISSING \<equiv> ''EVALUATION_TIMESTAMP_MISSING''"
abbreviation AMOUNT_LIMIT_EXCEEDED :: string where
  "AMOUNT_LIMIT_EXCEEDED \<equiv> ''AMOUNT_LIMIT_EXCEEDED''"
abbreviation AMOUNT_INVALID :: string where
  "AMOUNT_INVALID \<equiv> ''AMOUNT_INVALID''"
abbreviation DAILY_TOTAL_UNAVAILABLE :: string where
  "DAILY_TOTAL_UNAVAILABLE \<equiv> ''DAILY_TOTAL_UNAVAILABLE''"
abbreviation TREASURY_OPERATOR_MISSING :: string where
  "TREASURY_OPERATOR_MISSING \<equiv> ''TREASURY_OPERATOR_MISSING''"
abbreviation COMPLIANCE_APPROVAL_MISSING :: string where
  "COMPLIANCE_APPROVAL_MISSING \<equiv> ''COMPLIANCE_APPROVAL_MISSING''"
abbreviation SECURITY_LEAD_APPROVAL_MISSING :: string where
  "SECURITY_LEAD_APPROVAL_MISSING \<equiv> ''SECURITY_LEAD_APPROVAL_MISSING''"
abbreviation REQUIRED_ROLE_MISSING :: string where
  "REQUIRED_ROLE_MISSING \<equiv> ''REQUIRED_ROLE_MISSING''"

definition REASON_CODES :: "string list" where
  [vocab_simps]: "REASON_CODES =
    [POLICY_SATISFIED, POLICY_NOT_FOUND, POLICY_DISABLED, POLICY_NOT_ACTIVE, OPERATION_MISMATCH,
     OPERATION_NOT_ESTABLISHED, AUTHORITATIVE_FACTS_UNAVAILABLE, DETECTION_FACTS_UNAVAILABLE,
     ISSUANCE_FACTS_UNAVAILABLE, BUSINESS_EVENT_MISSING, BUSINESS_EVENT_MISMATCH,
     SETTLEMENT_NOT_CLEARED, SETTLEMENT_STATE_UNKNOWN, OUTSIDE_ALLOWED_WINDOW,
     EVALUATION_TIMESTAMP_MISSING, AMOUNT_LIMIT_EXCEEDED, AMOUNT_INVALID, DAILY_TOTAL_UNAVAILABLE,
     TREASURY_OPERATOR_MISSING, COMPLIANCE_APPROVAL_MISSING, SECURITY_LEAD_APPROVAL_MISSING,
     REQUIRED_ROLE_MISSING]"

definition ROLE_MISSING_REASON :: "(string \<times> string) list" where
  [vocab_simps]: "ROLE_MISSING_REASON = [(ROLE_SECURITY_LEAD, SECURITY_LEAD_APPROVAL_MISSING),
     (ROLE_TREASURY_OPERATOR, TREASURY_OPERATOR_MISSING),
     (ROLE_COMPLIANCE_APPROVER, COMPLIANCE_APPROVAL_MISSING)]"

definition role_missing_reason :: "string \<Rightarrow> string" where
  "role_missing_reason role = (case map_of ROLE_MISSING_REASON (upper_key (PStr role)) of
       Some reason \<Rightarrow> reason | None \<Rightarrow> REQUIRED_ROLE_MISSING)"

section \<open>Checks and decisions\<close>

abbreviation CHECK_POLICY_EXISTS :: string where
  "CHECK_POLICY_EXISTS \<equiv> ''policy_exists''"
abbreviation CHECK_POLICY_ACTIVE :: string where
  "CHECK_POLICY_ACTIVE \<equiv> ''policy_active''"
abbreviation CHECK_OPERATION_MATCHES :: string where
  "CHECK_OPERATION_MATCHES \<equiv> ''operation_matches''"
abbreviation CHECK_BUSINESS_EVENT :: string where
  "CHECK_BUSINESS_EVENT \<equiv> ''business_event''"
abbreviation CHECK_SETTLEMENT :: string where
  "CHECK_SETTLEMENT \<equiv> ''settlement''"
abbreviation CHECK_ALLOWED_WINDOW :: string where
  "CHECK_ALLOWED_WINDOW \<equiv> ''allowed_window''"
abbreviation CHECK_DAILY_LIMIT :: string where
  "CHECK_DAILY_LIMIT \<equiv> ''daily_limit''"
abbreviation CHECK_OPERATOR_ROLE :: string where
  "CHECK_OPERATOR_ROLE \<equiv> ''operator_role''"
abbreviation CHECK_COMPLIANCE_APPROVAL :: string where
  "CHECK_COMPLIANCE_APPROVAL \<equiv> ''compliance_approval''"

definition CHECK_ORDER :: "string list" where
  [vocab_simps]: "CHECK_ORDER = [CHECK_POLICY_EXISTS, CHECK_POLICY_ACTIVE, CHECK_OPERATION_MATCHES,
     CHECK_BUSINESS_EVENT, CHECK_SETTLEMENT, CHECK_ALLOWED_WINDOW, CHECK_DAILY_LIMIT,
     CHECK_OPERATOR_ROLE, CHECK_COMPLIANCE_APPROVAL]"

definition CHECK_LABELS :: "(string \<times> string) list" where
  [vocab_simps]: "CHECK_LABELS =
    [(CHECK_POLICY_EXISTS, ''Policy exists''), (CHECK_POLICY_ACTIVE, ''Policy is active''),
     (CHECK_OPERATION_MATCHES, ''Operation matches policy''),
     (CHECK_BUSINESS_EVENT, ''Required business event''),
     (CHECK_SETTLEMENT, ''Settlement requirement''),
     (CHECK_ALLOWED_WINDOW, ''Allowed window (UTC)''),
     (CHECK_DAILY_LIMIT, ''Daily issuance limit''),
     (CHECK_OPERATOR_ROLE, ''Required operator role''),
     (CHECK_COMPLIANCE_APPROVAL, ''Compliance approval'')]"

abbreviation DECISION_ALLOW :: string where
  "DECISION_ALLOW \<equiv> ''ALLOW''"
abbreviation DECISION_DENY :: string where
  "DECISION_DENY \<equiv> ''DENY''"

definition DECISIONS :: "string list" where
  [vocab_simps]: "DECISIONS = [DECISION_ALLOW, DECISION_DENY]"

abbreviation VIOLATION_ACTION_DENY :: string where
  "VIOLATION_ACTION_DENY \<equiv> ''DENY''"

section \<open>Starter templates\<close>

record policy_template =
  pt_policy_key :: string
  pt_name :: string
  pt_operation :: string
  pt_status :: string
  pt_required_business_event :: "string option"
  pt_settlement_requirement :: "string option"
  pt_allowed_window_utc :: "(string \<times> string) option"
  pt_maximum_daily_amount_usd :: "string option"
  pt_required_roles :: "string list"
  pt_violation_action :: string

definition POLICY_TEMPLATES :: "(string \<times> policy_template) list" where
  "POLICY_TEMPLATES =
    [(OPERATION_MINT,
      \<lparr>pt_policy_key = ''POL-MINT-007'', pt_name = ''RWA Mint Policy'', pt_operation = OPERATION_MINT,
       pt_status = GP_STATUS_ACTIVE,
       pt_required_business_event = Some BUSINESS_EVENT_SUBSCRIPTION,
       pt_settlement_requirement = Some REQUIREMENT_CLEARED,
       pt_allowed_window_utc = Some (''08:00'', ''18:00''),
       pt_maximum_daily_amount_usd = Some ''10000000.00'',
       pt_required_roles = [ROLE_TREASURY_OPERATOR, ROLE_COMPLIANCE_APPROVER],
       pt_violation_action = VIOLATION_ACTION_DENY\<rparr>),
     (OPERATION_BURN,
      \<lparr>pt_policy_key = ''POL-BURN-001'', pt_name = ''RWA Burn Policy'', pt_operation = OPERATION_BURN,
       pt_status = GP_STATUS_DRAFT,
       pt_required_business_event = Some BUSINESS_EVENT_REDEMPTION,
       pt_settlement_requirement = None, pt_allowed_window_utc = None,
       pt_maximum_daily_amount_usd = None, pt_required_roles = [ROLE_TREASURY_OPERATOR],
       pt_violation_action = VIOLATION_ACTION_DENY\<rparr>),
     (OPERATION_TRANSFER,
      \<lparr>pt_policy_key = ''POL-XFER-001'', pt_name = ''RWA Transfer Policy'',
       pt_operation = OPERATION_TRANSFER, pt_status = GP_STATUS_DRAFT,
       pt_required_business_event = None,
       pt_settlement_requirement = None, pt_allowed_window_utc = None,
       pt_maximum_daily_amount_usd = None, pt_required_roles = [ROLE_TREASURY_OPERATOR],
       pt_violation_action = VIOLATION_ACTION_DENY\<rparr>)]"

section \<open>Environment\<close>

text \<open>\<open>os.getenv\<close> as a map of the variables that are set.\<close>

type_synonym environ = "string \<rightharpoonup> string"

definition env_int :: "environ \<Rightarrow> string \<Rightarrow> int \<Rightarrow> int" where
  "env_int env name dflt =
     (case py_int (py_strip (case env name of Some s \<Rightarrow> s | None \<Rightarrow> str_int dflt)) of
        Some i \<Rightarrow> i | None \<Rightarrow> dflt)"

definition env_flag :: "environ \<Rightarrow> string \<Rightarrow> bool \<Rightarrow> bool" where
  "env_flag env name dflt =
     (py_lower (py_strip (case env name of Some s \<Rightarrow> s | None \<Rightarrow> if dflt then ''true'' else ''false''))
        \<in> {''1'', ''true'', ''yes'', ''on''})"

record gp_engine_settings =
  gs_record_simulations :: bool
  gs_history_limit :: int
  gs_max_policies_per_workspace :: int
  gs_engine_version :: string

definition gp_engine_config :: "environ \<Rightarrow> gp_engine_settings" where
  "gp_engine_config env =
     \<lparr>gs_record_simulations = env_flag env ''GOVERNANCE_POLICY_RECORD_SIMULATIONS'' True,
      gs_history_limit = max 1 (env_int env ''GOVERNANCE_POLICY_HISTORY_LIMIT'' 50),
      gs_max_policies_per_workspace = max 1 (env_int env ''GOVERNANCE_POLICY_MAX_PER_WORKSPACE'' 200),
      gs_engine_version = GP_ENGINE_VERSION\<rparr>"

section \<open>The normalisers are vocabularies\<close>

lemma canonical_words:
  "list_all (\<lambda>w. py_upper (py_strip w) = w) (OPERATIONS @ GP_STATUSES @ SETTLEMENT_STATES @
     SETTLEMENT_REQUIREMENTS @ BUSINESS_EVENTS @ GOVERNANCE_ROLES)"
  by code_simp

interpretation operation_words: vocabulary py_upper OPERATIONS normalize_operation
  using canonical_words
  by unfold_locales (auto simp: normalize_operation_def upper_key_def Let_def list_all_iff OPERATIONS_def)

interpretation status_words: vocabulary py_upper GP_STATUSES gp_normalize_status
  using canonical_words
  by unfold_locales (auto simp: gp_normalize_status_def upper_key_def Let_def list_all_iff GP_STATUSES_def)

interpretation settlement_words: vocabulary py_upper SETTLEMENT_STATES normalize_settlement
  using canonical_words
  by unfold_locales
    (auto simp: normalize_settlement_def upper_key_def Let_def list_all_iff SETTLEMENT_STATES_def)

interpretation requirement_words:
  vocabulary py_upper SETTLEMENT_REQUIREMENTS normalize_settlement_requirement
  using canonical_words
  by unfold_locales
    (auto simp: normalize_settlement_requirement_def upper_key_def Let_def list_all_iff
       SETTLEMENT_REQUIREMENTS_def)

interpretation event_words: vocabulary py_upper BUSINESS_EVENTS normalize_business_event
  using canonical_words
  by unfold_locales
    (auto simp: normalize_business_event_def upper_key_def Let_def list_all_iff BUSINESS_EVENTS_def)

interpretation role_words: vocabulary py_upper GOVERNANCE_ROLES normalize_role
  using canonical_words
  by unfold_locales (auto simp: normalize_role_def upper_key_def Let_def list_all_iff GOVERNANCE_ROLES_def)

lemma role_missing_reason_neq_satisfied: "role_missing_reason r \<noteq> POLICY_SATISFIED"
  by (simp add: role_missing_reason_def ROLE_MISSING_REASON_def)

lemma role_missing_reason_code: "role_missing_reason r \<in> set REASON_CODES"
  by (simp add: role_missing_reason_def ROLE_MISSING_REASON_def REASON_CODES_def)

lemma settlement_satisfies_total:
  "r \<in> set SETTLEMENT_REQUIREMENTS \<Longrightarrow> \<exists>xs. map_of SETTLEMENT_SATISFIES r = Some xs"
  by (auto simp: SETTLEMENT_REQUIREMENTS_def SETTLEMENT_SATISFIES_def)

end
