(* ===== verification/Py_Decimal.thy ===== *)
theory Py_Decimal
  imports Complex_Main Py_Values
begin

text \<open>
  Arithmetic of \<open>decimal.Decimal\<close> under a context precision. Additions, subtractions,
  absolute values and quotients round to \<open>p\<close> significant digits, half to even, as the
  default context (\<open>p = 28\<close>) does; comparisons are exact. \<open>fd_val\<close> is the abstraction:
  the rational number a finite decimal denotes.
\<close>

section \<open>Values\<close>

definition fd_int :: "fin_dec \<Rightarrow> int" where
  "fd_int x = (if fd_neg x then - int (fd_coeff x) else int (fd_coeff x))"

definition fd_val :: "fin_dec \<Rightarrow> rat" where
  "fd_val x = of_int (fd_int x) * power_int 10 (fd_exp x)"

definition fd_scaled :: "int \<Rightarrow> fin_dec \<Rightarrow> int" where
  "fd_scaled e x = fd_int x * 10 ^ nat (fd_exp x - e)"

fun ndigits :: "nat \<Rightarrow> nat" where
  "ndigits n = (if n < 10 then 1 else Suc (ndigits (n div 10)))"

declare ndigits.simps [simp del]

section \<open>Comparison\<close>

definition fd_less :: "fin_dec \<Rightarrow> fin_dec \<Rightarrow> bool" where
  "fd_less x y = (let e = min (fd_exp x) (fd_exp y) in fd_scaled e x < fd_scaled e y)"

definition fd_eq :: "fin_dec \<Rightarrow> fin_dec \<Rightarrow> bool" where
  "fd_eq x y = (let e = min (fd_exp x) (fd_exp y) in fd_scaled e x = fd_scaled e y)"

definition fd_le :: "fin_dec \<Rightarrow> fin_dec \<Rightarrow> bool" where
  "fd_le x y = (\<not> fd_less y x)"

section \<open>Rounding and arithmetic\<close>

definition half_even_div :: "nat \<Rightarrow> nat \<Rightarrow> nat" where
  "half_even_div c d = (let q = c div d; r = c mod d in
     if 2 * r > d \<or> 2 * r = d \<and> odd q then q + 1 else q)"

definition fd_round :: "nat \<Rightarrow> fin_dec \<Rightarrow> fin_dec" where
  "fd_round p x = (let c = fd_coeff x; d = ndigits c in
     if d \<le> p then x
     else let k = d - p; q = half_even_div c (10 ^ k)
          in if ndigits q > p then FinDec (fd_neg x) (q div 10) (fd_exp x + int k + 1)
             else FinDec (fd_neg x) q (fd_exp x + int k))"

definition fd_exact_add :: "fin_dec \<Rightarrow> fin_dec \<Rightarrow> fin_dec" where
  "fd_exact_add x y = (let e = min (fd_exp x) (fd_exp y);
       n = fd_scaled e x + fd_scaled e y
     in FinDec (if n = 0 then fd_neg x \<and> fd_neg y \<and> fd_coeff x = 0 \<and> fd_coeff y = 0 else n < 0)
               (nat \<bar>n\<bar>) e)"

definition fd_negate :: "fin_dec \<Rightarrow> fin_dec" where
  "fd_negate x = FinDec (\<not> fd_neg x) (fd_coeff x) (fd_exp x)"

definition fd_add :: "nat \<Rightarrow> fin_dec \<Rightarrow> fin_dec \<Rightarrow> fin_dec" where
  "fd_add p x y = fd_round p (fd_exact_add x y)"

definition fd_sub :: "nat \<Rightarrow> fin_dec \<Rightarrow> fin_dec \<Rightarrow> fin_dec" where
  "fd_sub p x y = fd_add p x (fd_negate y)"

definition fd_abs :: "nat \<Rightarrow> fin_dec \<Rightarrow> fin_dec" where
  "fd_abs p x = fd_round p (FinDec False (fd_coeff x) (fd_exp x))"

text \<open>
  Division as the library performs it: a quotient of at least \<open>p + 1\<close> digits whose last
  digit is made sticky when there is a remainder, then one rounding. An exact quotient
  keeps trailing zeros here; only its value is used by the program.
\<close>

definition fd_div :: "nat \<Rightarrow> fin_dec \<Rightarrow> fin_dec \<Rightarrow> py_error + fin_dec" where
  "fd_div p x y =
     (if fd_coeff y = 0 then Inl (if fd_coeff x = 0 then InvalidOperation else ZeroDivisionError)
      else let shift = int (ndigits (fd_coeff y)) - int (ndigits (fd_coeff x)) + int p + 1;
               n = fd_coeff x * 10 ^ nat shift;
               d = fd_coeff y * 10 ^ nat (- shift);
               q = n div d;
               q' = (if n mod d \<noteq> 0 \<and> q mod 5 = 0 then q + 1 else q)
           in Inr (fd_round p (FinDec (fd_neg x \<noteq> fd_neg y) q' (fd_exp x - fd_exp y - shift))))"

text \<open>Operations on any decimal; a signalling case raises \<open>InvalidOperation\<close>.\<close>

fun dec_add :: "nat \<Rightarrow> dec \<Rightarrow> dec \<Rightarrow> py_error + dec" where
  "dec_add p (NotANumber s) (NotANumber t) =
     (if s \<or> t then Inl InvalidOperation else Inr (NotANumber False))"
| "dec_add p (NotANumber s) y = (if s then Inl InvalidOperation else Inr (NotANumber False))"
| "dec_add p x (NotANumber t) = (if t then Inl InvalidOperation else Inr (NotANumber False))"
| "dec_add p (Infinite a) (Infinite b) = (if a = b then Inr (Infinite a) else Inl InvalidOperation)"
| "dec_add p (Infinite a) (Finite y) = Inr (Infinite a)"
| "dec_add p (Finite x) (Infinite b) = Inr (Infinite b)"
| "dec_add p (Finite x) (Finite y) = Inr (Finite (fd_add p x y))"

fun dec_less :: "dec \<Rightarrow> dec \<Rightarrow> py_error + bool" where
  "dec_less (NotANumber s) y = Inl InvalidOperation"
| "dec_less x (NotANumber t) = Inl InvalidOperation"
| "dec_less (Infinite a) (Infinite b) = Inr (a \<and> \<not> b)"
| "dec_less (Infinite a) (Finite y) = Inr a"
| "dec_less (Finite x) (Infinite b) = Inr (\<not> b)"
| "dec_less (Finite x) (Finite y) = Inr (fd_less x y)"

section \<open>Digits\<close>

lemma ndigits_pos [simp]: "0 < ndigits n"
  by (subst ndigits.simps) simp

lemma ndigits_less: "n < 10 ^ ndigits n"
proof (induction n rule: ndigits.induct)
  case (1 n)
  then show ?case by (cases "n < 10") (auto simp: ndigits.simps [of n])
qed

lemma ndigits_ge: "0 < n \<Longrightarrow> 10 ^ (ndigits n - 1) \<le> n"
proof (induction n rule: ndigits.induct)
  case (1 n)
  show ?case
  proof (cases "n < 10")
    case True
    with "1.prems" show ?thesis by (simp add: ndigits.simps [of n])
  next
    case False
    then have "0 < n div 10" by simp
    with False have ih: "10 ^ (ndigits (n div 10) - 1) \<le> n div 10"
      using "1.IH" by blast
    have "10 ^ (ndigits n - 1) = 10 * 10 ^ (ndigits (n div 10) - 1)"
      using False by (simp add: ndigits.simps [of n] flip: power_Suc)
    also have "\<dots> \<le> 10 * (n div 10)" using ih by simp
    also have "\<dots> \<le> n" by simp
    finally show ?thesis .
  qed
qed

lemma ndigits_le_iff: "0 < k \<Longrightarrow> ndigits n \<le> k \<longleftrightarrow> n < 10 ^ k"
proof
  assume "ndigits n \<le> k"
  then have "(10::nat) ^ ndigits n \<le> 10 ^ k" by (intro power_increasing) auto
  then show "n < 10 ^ k" using less_le_trans [OF ndigits_less [of n]] by simp
next
  assume k: "0 < k" and lt: "n < 10 ^ k"
  show "ndigits n \<le> k"
  proof (cases "n = 0")
    case False
    then have "10 ^ (ndigits n - 1) \<le> n" using ndigits_ge [of n] by (simp only: neq0_conv)
    then have "(10::nat) ^ (ndigits n - 1) < 10 ^ k" using lt by (rule le_less_trans)
    then have "ndigits n - 1 < k" by (rule power_less_imp_less_exp [rotated]) simp
    then show ?thesis by simp
  qed (use k in \<open>simp add: ndigits.simps\<close>)
qed

section \<open>Exactness\<close>

lemma fd_val_scaled:
  assumes "e \<le> fd_exp x"
  shows "fd_val x = of_int (fd_scaled e x) * power_int 10 e"
proof -
  have "power_int (10::rat) (fd_exp x) = power_int 10 (fd_exp x - e) * power_int 10 e"
    by (simp flip: power_int_add)
  also have "power_int (10::rat) (fd_exp x - e) = 10 ^ nat (fd_exp x - e)"
    using assms by (simp add: power_int_def)
  finally show ?thesis by (simp add: fd_val_def fd_scaled_def)
qed

lemma ten_powi_pos [simp]: "0 < power_int (10::rat) e"
  by (simp add: zero_less_power_int)

lemma fd_less_iff: "fd_less x y \<longleftrightarrow> fd_val x < fd_val y"
proof -
  let ?e = "min (fd_exp x) (fd_exp y)"
  have "fd_val x < fd_val y \<longleftrightarrow>
      (of_int (fd_scaled ?e x) :: rat) * power_int 10 ?e < of_int (fd_scaled ?e y) * power_int 10 ?e"
    using fd_val_scaled [of ?e x] fd_val_scaled [of ?e y] by simp
  then show ?thesis by (simp add: fd_less_def Let_def)
qed

lemma fd_eq_iff: "fd_eq x y \<longleftrightarrow> fd_val x = fd_val y"
proof -
  let ?e = "min (fd_exp x) (fd_exp y)"
  have "fd_val x = fd_val y \<longleftrightarrow>
      (of_int (fd_scaled ?e x) :: rat) * power_int 10 ?e = of_int (fd_scaled ?e y) * power_int 10 ?e"
    using fd_val_scaled [of ?e x] fd_val_scaled [of ?e y] by simp
  then show ?thesis by (simp add: fd_eq_def Let_def)
qed

lemma fd_le_iff: "fd_le x y \<longleftrightarrow> fd_val x \<le> fd_val y"
  by (auto simp: fd_le_def fd_less_iff)

lemma fd_exact_add_val: "fd_val (fd_exact_add x y) = fd_val x + fd_val y"
proof -
  let ?e = "min (fd_exp x) (fd_exp y)"
  have "fd_int (fd_exact_add x y) = fd_scaled ?e x + fd_scaled ?e y"
    by (auto simp: fd_exact_add_def fd_int_def Let_def)
  moreover have "fd_exp (fd_exact_add x y) = ?e"
    by (simp add: fd_exact_add_def Let_def)
  ultimately have "fd_val (fd_exact_add x y)
      = (of_int (fd_scaled ?e x) + of_int (fd_scaled ?e y)) * power_int 10 ?e"
    by (simp add: fd_val_def)
  then show ?thesis
    using fd_val_scaled [of ?e x] fd_val_scaled [of ?e y] by (simp add: distrib_right)
qed

lemma fd_negate_val [simp]: "fd_val (fd_negate x) = - fd_val x"
  by (simp add: fd_negate_def fd_val_def fd_int_def)

text \<open>A sum fits a precision when its exact coefficient has no more digits.\<close>

definition fits :: "nat \<Rightarrow> fin_dec \<Rightarrow> bool" where
  "fits p x = (ndigits (fd_coeff x) \<le> p)"

lemma fd_round_fits: "fits p x \<Longrightarrow> fd_round p x = x"
  by (simp add: fits_def fd_round_def)

lemma fd_add_exact: "fits p (fd_exact_add x y) \<Longrightarrow> fd_val (fd_add p x y) = fd_val x + fd_val y"
  by (simp add: fd_add_def fd_round_fits fd_exact_add_val)

lemma fd_sub_exact:
  "fits p (fd_exact_add x (fd_negate y)) \<Longrightarrow> fd_val (fd_sub p x y) = fd_val x - fd_val y"
  by (simp add: fd_sub_def fd_add_exact)

lemma fd_abs_exact: "fits p x \<Longrightarrow> fd_val (fd_abs p x) = \<bar>fd_val x\<bar>"
  by (cases x) (auto simp: fd_abs_def fd_round_fits fits_def fd_val_def fd_int_def abs_mult)

text \<open>Integral amounts, the base units of a token: a sum fits when it is small enough.\<close>

text \<open>A rounded value is not rounded again.\<close>

lemma fd_round_idem: "0 < p \<Longrightarrow> fd_round p (fd_round p x) = fd_round p x"
proof -
  assume p: "0 < p"
  have "ndigits (fd_coeff (fd_round p x)) \<le> p"
  proof (cases "ndigits (fd_coeff x) \<le> p")
    case True
    then show ?thesis by (simp add: fd_round_def Let_def)
  next
    case False
    define k where "k = ndigits (fd_coeff x) - p"
    define q where "q = half_even_div (fd_coeff x) (10 ^ k)"
    have "fd_coeff x < 10 ^ p * 10 ^ k"
      using ndigits_less [of "fd_coeff x"] False by (simp add: k_def power_add [symmetric])
    then have "fd_coeff x div 10 ^ k < 10 ^ p" by (simp add: less_mult_imp_div_less)
    then have q: "q \<le> 10 ^ p" by (auto simp: q_def half_even_div_def Let_def)
    have "10 ^ p = 10 * (10 :: nat) ^ (p - 1)" using p by (cases p) auto
    with q have "q div 10 \<le> 10 ^ (p - 1)" by linarith
    also have "\<dots> < 10 ^ p" using p by (cases p) auto
    finally have "q div 10 < 10 ^ p" .
    then show ?thesis
      using False p by (auto simp: fd_round_def Let_def k_def [symmetric] q_def [symmetric] ndigits_le_iff
          not_less)
  qed
  then show ?thesis by (simp add: fd_round_def [of p "fd_round p x"] Let_def)
qed

lemma fd_abs_idem: "0 < p \<Longrightarrow> fd_abs p (fd_abs p x) = fd_abs p x"
proof -
  assume p: "0 < p"
  have "\<not> fd_neg (fd_abs p x)" by (simp add: fd_abs_def fd_round_def Let_def)
  then have "FinDec False (fd_coeff (fd_abs p x)) (fd_exp (fd_abs p x)) = fd_abs p x"
    by (cases "fd_abs p x") auto
  then show ?thesis using p by (simp add: fd_abs_def [of p "fd_abs p x"]) (simp add: fd_abs_def fd_round_idem)
qed

lemma fits_integral_add:
  assumes "fd_exp x = 0" and "fd_exp y = 0" and "\<bar>fd_int x + fd_int y\<bar> < 10 ^ p" and "0 < p"
  shows "fits p (fd_exact_add x y)"
  using assms
  by (simp add: fits_def fd_exact_add_def Let_def fd_scaled_def ndigits_le_iff nat_less_iff)

text \<open>Rounding never brings a coefficient of more than \<open>p\<close> digits below \<open>10 ^ p\<close>.\<close>

lemma fd_round_large:
  assumes p: "0 < p" and big: "10 ^ p \<le> fd_coeff x" and pos: "\<not> fd_neg x"
  shows "10 ^ p * power_int 10 (fd_exp x) \<le> fd_val (fd_round p x)"
proof -
  let ?c = "fd_coeff x"
  define k where "k = ndigits ?c - p"
  have "\<not> ndigits ?c \<le> p" using big ndigits_le_iff [OF p, of ?c] by simp
  then have nd: "p < ndigits ?c" by simp
  have c: "10 ^ (p - 1) * 10 ^ k \<le> ?c"
  proof -
    have "0 < ?c" using big by (rule order.strict_trans2 [rotated]) simp
    moreover have "(p - 1) + k = ndigits ?c - 1" using nd p by (simp add: k_def)
    ultimately show ?thesis using ndigits_ge [of ?c] by (simp flip: power_add)
  qed
  define q where "q = half_even_div ?c (10 ^ k)"
  have "10 ^ (p - 1) \<le> ?c div 10 ^ k" using c by (simp add: less_eq_div_iff_mult_less_eq)
  then have q: "10 ^ (p - 1) \<le> q" by (simp add: q_def half_even_div_def Let_def)
  have val: "\<And>m j. fd_val (FinDec False m j) = of_nat m * power_int 10 j"
    by (simp add: fd_val_def fd_int_def)
  have shift: "10 ^ p * power_int (10::rat) (fd_exp x) \<le> of_nat m * power_int 10 (fd_exp x + int j)"
    if "10 ^ p \<le> m * 10 ^ j" for m j :: nat
  proof -
    have "power_int (10::rat) (fd_exp x + int j) = power_int 10 (fd_exp x) * 10 ^ j"
      by (simp add: power_int_add)
    moreover have "(10::rat) ^ p \<le> of_nat m * 10 ^ j"
      using of_nat_mono [OF that, where 'a = rat] by simp
    then have "10 ^ p * power_int (10::rat) (fd_exp x) \<le> (of_nat m * 10 ^ j) * power_int 10 (fd_exp x)"
      by (rule mult_right_mono) (simp add: less_imp_le)
    ultimately show ?thesis by (simp only: ac_simps)
  qed
  have k1: "1 \<le> k" using nd by (simp add: k_def)
  have pp: "(10::nat) ^ p = 10 ^ (p - 1) * 10" using p by (cases p) simp_all
  show ?thesis
  proof (cases "ndigits q > p")
    case True
    have "10 ^ p \<le> q" using True ndigits_le_iff [OF p, of q] by simp
    then have "10 ^ (p - 1) \<le> q div 10"
      using pp by (simp add: less_eq_div_iff_mult_less_eq)
    then have "10 ^ (p - 1) * 10 \<le> (q div 10) * 10 ^ (k + 1)"
      by (rule mult_le_mono) simp
    then have "10 ^ p \<le> (q div 10) * 10 ^ (k + 1)" by (simp only: pp)
    from shift [OF this] True nd pos show ?thesis
      by (simp add: fd_round_def Let_def val k_def [symmetric] q_def [symmetric] add.assoc add.commute [of 1])
  next
    case False
    have "(10::nat) \<le> 10 ^ k" using k1 power_increasing [of 1 k "10::nat"] by simp
    with q have "10 ^ (p - 1) * 10 \<le> q * 10 ^ k" by (rule mult_le_mono)
    then have "10 ^ p \<le> q * 10 ^ k" by (simp only: pp)
    from shift [OF this] False nd pos show ?thesis
      by (simp add: fd_round_def Let_def val k_def [symmetric] q_def [symmetric])
  qed
qed

text \<open>
  A cap of at most \<open>p\<close> digits is never passed by a sum of amounts that have no more decimals,
  although the sum may be rounded.
\<close>

lemma fd_add_cap:
  assumes p: "0 < p" and exps: "fd_exp l \<le> fd_exp x" "fd_exp l \<le> fd_exp y"
    and cap: "fd_coeff l < 10 ^ p" "0 \<le> fd_val l"
    and le: "\<not> fd_less l (fd_add p x y)"
  shows "fd_val x + fd_val y \<le> fd_val l"
proof (cases "fits p (fd_exact_add x y) \<or> fd_val x + fd_val y \<le> 0")
  case True
  then show ?thesis using le cap(2) by (auto simp: fd_less_iff fd_add_exact)
next
  case False
  let ?s = "fd_exact_add x y" and ?e = "fd_exp (fd_exact_add x y)"
  have big: "10 ^ p \<le> fd_coeff ?s"
    using False ndigits_le_iff [OF p, of "fd_coeff ?s"] by (simp add: fits_def)
  have e: "fd_exp l \<le> ?e" using exps by (simp add: fd_exact_add_def Let_def)
  have "\<not> fd_neg ?s"
  proof
    assume neg: "fd_neg ?s"
    have "0 < fd_coeff ?s" using big by (rule order.strict_trans2 [rotated]) simp
    with neg have "fd_val ?s < 0" by (simp add: fd_val_def fd_int_def mult_neg_pos)
    with False show False by (simp add: fd_exact_add_val)
  qed
  from fd_round_large [OF p big this] have "10 ^ p * power_int 10 ?e \<le> fd_val (fd_add p x y)"
    by (simp add: fd_add_def)
  moreover have "fd_val l < 10 ^ p * power_int 10 ?e"
  proof -
    have "int (fd_coeff l) < 10 ^ p"
      using cap(1) by (metis of_nat_less_iff of_nat_numeral of_nat_power)
    moreover have "fd_int l \<le> int (fd_coeff l)" by (simp add: fd_int_def)
    ultimately have "fd_int l < 10 ^ p" by (rule le_less_trans [rotated])
    then have "(of_int (fd_int l) :: rat) < 10 ^ p"
      by (metis of_int_less_iff of_int_numeral of_int_power)
    then have "fd_val l < 10 ^ p * power_int 10 (fd_exp l)" by (simp add: fd_val_def)
    also have "\<dots> \<le> 10 ^ p * power_int 10 ?e"
      using power_int_increasing [OF e, of "10 :: rat"] by simp
    finally show ?thesis .
  qed
  ultimately show ?thesis using le by (simp add: fd_less_iff)
qed

section \<open>Texts of decimals parse back\<close>

lemma digit_char_of [simp]: "n < 10 \<Longrightarrow> digit_char (char_of (48 + n :: nat))"
  by (simp add: digit_char_def)

lemma digit_val_of [simp]: "n < 10 \<Longrightarrow> digit_val (char_of (48 + n)) = n"
  by (simp add: digit_val_def)

lemma digits_val_snoc: "digits_val (xs @ [c]) = 10 * digits_val xs + digit_val c"
  by (simp add: digits_val_def)

lemma digits_val_zeros [simp]: "digits_val (replicate k (CHR ''0'') @ xs) = digits_val xs"
proof (induction xs rule: rev_induct)
  case Nil
  have "digits_val (replicate k (CHR ''0'')) = 0"
    by (induction k) (simp_all add: digits_val_def digit_val_def)
  then show ?case by (simp add: digits_val_def)
next
  case (snoc c xs)
  then show ?case by (simp add: digits_val_snoc flip: append_assoc)
qed

lemma digits_val_zero [simp]: "digits_val (CHR ''0'' # xs) = digits_val xs"
  using digits_val_zeros [of 1] by simp

lemma str_nat_props: "list_all digit_char (str_nat n)" "digits_val (str_nat n) = n"
    "length (str_nat n) = ndigits n"
proof (induction n rule: str_nat.induct)
  case (1 n)
  {
    case 1 then show ?case
      using "1.IH" by (subst str_nat.simps) auto
  next
    case 2 then show ?case
      using "1.IH" by (subst str_nat.simps) (auto simp: digits_val_snoc digits_val_def)
  next
    case 3 then show ?case
      using "1.IH" by (subst str_nat.simps) (auto simp: ndigits.simps [of n])
  }
qed

lemma str_nat_not_Nil [simp]: "str_nat n \<noteq> []"
  using str_nat_props(3) [of n] ndigits_pos [of n] by (metis length_0_conv less_irrefl)

lemma digit_char_facts:
  assumes "digit_char c"
  shows "\<not> py_space c" "c \<noteq> CHR ''_''" "lower_char c = c" "c \<noteq> CHR ''-''" "c \<noteq> CHR ''+''"
    "c \<noteq> CHR ''.''" "c \<noteq> CHR ''i''" "c \<noteq> CHR ''n''" "c \<noteq> CHR ''s''" "c \<noteq> CHR ''e''"
  using assms by (auto simp: digit_char_def py_space_def lower_char_def Let_def)

text \<open>The characters of a decimal text.\<close>

definition text_char :: "char \<Rightarrow> bool" where
  "text_char c = (digit_char c \<or> c \<in> set ''.-+E'')"

lemma text_char_facts: "text_char c \<Longrightarrow> \<not> py_space c \<and> c \<noteq> CHR ''_''"
  by (auto simp: text_char_def digit_char_facts(1)) (simp_all add: py_space_def digit_char_def)

lemma parse_decimal_text:
  assumes "list_all text_char s"
  shows "py_lower (filter (\<lambda>c. c \<noteq> CHR ''_'') (py_strip s)) = map lower_char s"
proof -
  have "py_strip s = s"
  proof (rule py_strip_id, cases "s = []")
    case False
    then have "hd s \<in> set s" "last s \<in> set s" by auto
    with assms show "s = [] \<or> \<not> py_space (hd s) \<and> \<not> py_space (last s)"
      by (auto simp: list_all_iff dest: text_char_facts)
  qed simp
  moreover have "filter (\<lambda>c. c \<noteq> CHR ''_'') s = s"
    using assms by (auto simp: list_all_iff filter_id_conv dest: text_char_facts)
  ultimately show ?thesis by (simp add: py_lower_def)
qed

lemma lower_digits [simp]: "list_all digit_char ds \<Longrightarrow> map lower_char ds = ds"
  by (induction ds) (auto simp: digit_char_facts)

lemma lower_marks [simp]: "lower_char (CHR ''.'') = CHR ''.''" "lower_char (CHR ''-'') = CHR ''-''"
    "lower_char (CHR ''+'') = CHR ''+''" "lower_char (CHR ''E'') = CHR ''e''"
  by (simp_all add: lower_char_def char_of_eq_iff)

lemma takeWhile_digits [simp]:
  "list_all P ds \<Longrightarrow> takeWhile P (ds @ r) = ds @ takeWhile P r"
  "list_all P ds \<Longrightarrow> dropWhile P (ds @ r) = dropWhile P r"
  by (induction ds) auto

lemma not_digit_marks [simp]: "\<not> digit_char (CHR ''.'')" "\<not> digit_char (CHR ''e'')"
    "\<not> digit_char (CHR ''-'')" "\<not> digit_char (CHR ''+'')"
  by (simp_all add: digit_char_def)

lemma parse_exponent_text:
  "parse_exponent (if ex = 0 then [] else CHR ''e'' # (if ex > 0 then ''+'' else []) @ str_int ex) = Some ex"
  using str_nat_props(1,2) [of "nat ex"] str_nat_props(1,2) [of "nat (- ex)"]
  by (auto simp: parse_exponent_def str_int_def)

lemma parse_unsigned_text:
  assumes "list_all digit_char ip" "ip \<noteq> []" "list_all digit_char fp"
    and ee: "parse_exponent ee = Some ex" "ee = [] \<or> hd ee = CHR ''e''"
  shows "parse_unsigned neg (ip @ (if fp = [] then [] else CHR ''.'' # fp) @ ee)
    = Some (Finite (FinDec neg (digits_val (ip @ fp)) (ex - int (length fp))))"
proof -
  obtain c cs where ip: "ip = c # cs" and c: "digit_char c"
    using assms(1,2) by (cases ip) auto
  have e1: "takeWhile digit_char ee = []" "dropWhile digit_char ee = ee"
    "\<not> (ee \<noteq> [] \<and> hd ee = CHR ''.'')"
    using ee(2) by (cases ee; force)+
  show ?thesis
    using assms(1,3) ee(1) e1 digit_char_facts [OF c]
    by (auto simp: parse_unsigned_def ip starts_with_def c Let_def)
qed

lemma list_all_text:
  "list_all digit_char ds \<Longrightarrow> list_all text_char ds"
  by (auto simp: list_all_iff text_char_def)

lemma list_all_replicate_zero [simp]: "list_all digit_char (replicate k (CHR ''0''))"
  by (simp add: list_all_iff digit_char_def)

definition exp_text :: "int \<Rightarrow> string" where
  "exp_text ex = (if ex = 0 then [] else ''E'' @ (if ex > 0 then ''+'' else []) @ str_int ex)"

lemma exp_text_lower:
  "map lower_char (exp_text ex) =
     (if ex = 0 then [] else CHR ''e'' # (if ex > 0 then ''+'' else []) @ str_int ex)"
  "list_all text_char (exp_text ex)"
  using str_nat_props(1) [of "nat ex"] str_nat_props(1) [of "nat (- ex)"]
  by (auto simp: exp_text_def str_int_def list_all_text) (auto simp: text_char_def)

lemma findec_str_parts:
  obtains ip fp ex where
    "findec_str x = (if fd_neg x then ''-'' else []) @ ip @ (if fp = [] then [] else CHR ''.'' # fp) @ exp_text ex"
    "list_all digit_char ip" "ip \<noteq> []" "list_all digit_char fp"
    "digits_val (ip @ fp) = fd_coeff x" "fd_exp x = ex - int (length fp)"
proof -
  define ds where "ds = str_nat (fd_coeff x)"
  define n where "n = int (length ds)"
  define left where "left = fd_exp x + n"
  define dot where "dot = (if fd_exp x \<le> 0 \<and> left > -6 then left else 1)"
  define ex where "ex = left - dot"
  have ds: "list_all digit_char ds" "digits_val ds = fd_coeff x" "ds \<noteq> []"
    by (simp_all add: ds_def str_nat_props)
  then have n: "n > 0" by (simp add: n_def)
  have str: "findec_str x = (if fd_neg x then ''-'' else []) @
      (if dot \<le> 0 then ''0.'' @ replicate (nat (- dot)) (CHR ''0'') @ ds
       else if dot \<ge> n then ds @ replicate (nat (dot - n)) (CHR ''0'')
       else take (nat dot) ds @ ''.'' @ drop (nat dot) ds) @ exp_text ex"
    unfolding findec_str_def Let_def exp_text_def ex_def dot_def left_def n_def ds_def by simp
  consider "dot \<le> 0" | "0 < dot" "n \<le> dot" | "0 < dot" "dot < n" by linarith
  then show ?thesis
  proof cases
    case 1
    have "length (replicate (nat (- dot)) (CHR ''0'') @ ds) = nat (n - dot)"
      using 1 n by (simp add: n_def nat_diff_distrib' nat_add_distrib)
    then show ?thesis
      using 1 ds n str
      by (intro that [of "''0''" "replicate (nat (- dot)) (CHR ''0'') @ ds" ex])
        (auto simp: digit_char_def ex_def left_def)
  next
    case 2
    have "dot = n" using 2 n by (auto simp: dot_def left_def split: if_splits)
    then show ?thesis
      using 2 ds n str by (intro that [of ds "[]" ex]) (auto simp: ex_def left_def)
  next
    case 3
    have all: "list_all digit_char (take (nat dot) ds)" "list_all digit_char (drop (nat dot) ds)"
      using ds(1) by (auto simp: list_all_iff dest: in_set_takeD in_set_dropD)
    have ne: "drop (nat dot) ds \<noteq> []" "take (nat dot) ds \<noteq> []"
      using 3 ds(3) by (auto simp: n_def)
    have "int (length (drop (nat dot) ds)) = n - dot" using 3 by (simp add: n_def)
    then show ?thesis
      using 3 ds n str all ne
      by (intro that [of "take (nat dot) ds" "drop (nat dot) ds" ex]) (auto simp: ex_def left_def)
  qed
qed

lemma parse_findec_str: "parse_decimal (findec_str x) = Some (Finite x)"
proof -
  obtain ip fp ex where str:
      "findec_str x = (if fd_neg x then ''-'' else []) @ ip @ (if fp = [] then [] else CHR ''.'' # fp) @ exp_text ex"
    and ip: "list_all digit_char ip" "ip \<noteq> []" and fp: "list_all digit_char fp"
    and val: "digits_val (ip @ fp) = fd_coeff x" "fd_exp x = ex - int (length fp)"
    by (rule findec_str_parts)
  define ee where "ee = map lower_char (exp_text ex)"
  have ee: "parse_exponent ee = Some ex" "ee = [] \<or> hd ee = CHR ''e''"
    using parse_exponent_text [of ex] by (auto simp: ee_def exp_text_lower(1))
  define body where "body = ip @ (if fp = [] then [] else CHR ''.'' # fp) @ ee"
  have "list_all text_char (findec_str x)"
    using ip(1) fp exp_text_lower(2) [of ex] by (auto simp: str list_all_text) (auto simp: text_char_def)
  then have lower: "py_lower (filter (\<lambda>c. c \<noteq> CHR ''_'') (py_strip (findec_str x)))
      = (if fd_neg x then ''-'' else []) @ body"
    using ip(1) fp by (simp add: parse_decimal_text str ee_def body_def)
  have hd: "hd body \<noteq> CHR ''-''" "hd body \<noteq> CHR ''+''" "body \<noteq> []"
    using ip digit_char_facts(4,5) by (cases ip; force simp: body_def)+
  have "parse_unsigned (fd_neg x) body = Some (Finite x)"
    using parse_unsigned_text [OF ip fp ee] val by (cases x) (simp add: body_def)
  then show ?thesis using hd by (auto simp: parse_decimal_def lower Let_def)
qed

end
