(* ===== verification/Policy_Engine.thy ===== *)
theory Policy_Engine
  imports Governance_Config Py_Decimal
begin

text \<open>
  The deterministic policy engine, \<open>services/api/app/domains/governance_policy/engine.py\<close>,
  with the data of \<open>schemas.py\<close> it reads and returns. \<open>evaluate_policy\<close> is one definition
  per numbered check of the source, threaded through the accumulator of checks and reason
  codes, and their composition.

  Amounts are Python values, converted by \<open>as_decimal\<close> as the source does; arithmetic runs
  in the default context of 28 digits. The limit of 4300 digits on conversions between
  integers and text is outside the model.
\<close>

section \<open>Data\<close>

abbreviation CHK_PASS :: string where
  "CHK_PASS \<equiv> ''PASS''"
abbreviation CHK_FAIL :: string where
  "CHK_FAIL \<equiv> ''FAIL''"
abbreviation CHK_NOT_APPLICABLE :: string where
  "CHK_NOT_APPLICABLE \<equiv> ''NOT_APPLICABLE''"

record policy_check =
  pc_key :: string
  pc_status :: string
  pc_detail :: string
  pc_reason_code :: "string option"

record policy_definition =
  pd_policy_id :: string
  pd_policy_key :: string
  pd_name :: string
  pd_operation :: string
  pd_status :: string
  pd_version :: int
  pd_required_business_event :: "string option"
  pd_settlement_requirement :: "string option"
  pd_allowed_window_start_utc :: "string option"
  pd_allowed_window_end_utc :: "string option"
  pd_maximum_daily_amount_usd :: pyval
  pd_required_roles :: "string list"
  pd_violation_action :: string

record evaluation_context =
  ec_operation :: "string option"
  ec_amount_usd :: pyval
  ec_operator_id :: "string option"
  ec_operator_has_treasury_role :: "bool option"
  ec_business_event :: "string option"
  ec_settlement_status :: "string option"
  ec_compliance_approval :: bool
  ec_evaluated_at :: "pytime option"
  ec_daily_total_usd :: pyval
  ec_asset_id :: "string option"
  ec_incident_id :: "string option"
  ec_canonical_event_id :: "string option"
  ec_simulation :: bool

record policy_decision =
  dc_decision :: string
  dc_reason_codes :: "string list"
  dc_checks :: "policy_check list"
  dc_policy_id :: "string option"
  dc_policy_key :: "string option"
  dc_policy_version :: "int option"
  dc_evaluation_id :: string
  dc_evaluated_at :: pytime
  dc_engine_version :: string
  dc_required_approvals :: "string list"
  dc_required_roles :: "string list"
  dc_operation :: "string option"
  dc_asset_id :: "string option"
  dc_incident_id :: "string option"
  dc_canonical_event_id :: "string option"
  dc_amount_usd :: "dec option"
  dc_simulation :: bool
  dc_violation_action :: string

definition pd_is_active :: "policy_definition \<Rightarrow> bool" where
  "pd_is_active p = (pd_status p = GP_STATUS_ACTIVE)"

definition pd_has_allowed_window :: "policy_definition \<Rightarrow> bool" where
  "pd_has_allowed_window p = (truthy (opt_str (pd_allowed_window_start_utc p)) \<and>
     truthy (opt_str (pd_allowed_window_end_utc p)))"

definition dc_is_allowed :: "policy_decision \<Rightarrow> bool" where
  "dc_is_allowed d = (dc_decision d = DECISION_ALLOW)"

text \<open>The dictionary of checks, and its serialisation in display order.\<close>

type_synonym check_map = "string \<rightharpoonup> policy_check"

definition checks_in_order :: "check_map \<Rightarrow> policy_check list" where
  "checks_in_order checks = concat (map (\<lambda>key. case checks key of None \<Rightarrow> [] | Some c \<Rightarrow> [c]) CHECK_ORDER)"

section \<open>Helpers\<close>

definition mk_check :: "string \<Rightarrow> string \<Rightarrow> string \<Rightarrow> string option \<Rightarrow> policy_check" where
  "mk_check key status detail reason =
     \<lparr>pc_key = key, pc_status = status, pc_detail = detail, pc_reason_code = reason\<rparr>"

definition parse_hhmm :: "string option \<Rightarrow> int option" where
  "parse_hhmm v = (let text = py_strip (text_of (opt_str v)) in
     if length text \<noteq> 5 \<or> text ! 2 \<noteq> CHR '':'' then None
     else case py_int (take 2 text) of
            None \<Rightarrow> None
          | Some hours \<Rightarrow> (case py_int (take 2 (drop 3 text)) of
                None \<Rightarrow> None
              | Some minutes \<Rightarrow>
                  if \<not> (0 \<le> hours \<and> hours \<le> 23 \<and> 0 \<le> minutes \<and> minutes \<le> 59) then None
                  else Some (hours * 60 + minutes)))"

definition minutes_utc :: "pytime \<Rightarrow> int" where
  "minutes_utc moment = utc_micros moment div 60000000 mod 1440"

definition in_window :: "int \<Rightarrow> int \<Rightarrow> int \<Rightarrow> bool" where
  "in_window m from until =
     (if from \<le> until then from \<le> m \<and> m \<le> until else m \<ge> from \<or> m \<le> until)"

definition as_decimal :: "pyval \<Rightarrow> dec option" where
  "as_decimal v = (case v of
       PNone \<Rightarrow> None
     | PDec d \<Rightarrow> Some d
     | PBool b \<Rightarrow> None
     | PFloat r \<Rightarrow> parse_decimal r
     | _ \<Rightarrow> parse_decimal (py_strip (py_str v)))"

definition dec_zero :: dec where
  "dec_zero = Finite (FinDec False 0 0)"

text \<open>\<open>f'{n:02d}'\<close> for the minutes and hours of a day.\<close>

definition two_digits :: "int \<Rightarrow> string" where
  "two_digits n = (if 0 \<le> n \<and> n < 10 then ''0'' @ str_int n else str_int n)"

definition clock_text :: "int \<Rightarrow> string" where
  "clock_text m = two_digits (m div 60) @ '':'' @ two_digits (m mod 60)"

definition roles_of :: "policy_definition option \<Rightarrow> string list" where
  "roles_of p = (case p of None \<Rightarrow> [] | Some q \<Rightarrow> pd_required_roles q)"

definition terminal_denial ::
  "string \<Rightarrow> check_map \<Rightarrow> policy_definition option \<Rightarrow> evaluation_context \<Rightarrow> string \<Rightarrow> pytime
     \<Rightarrow> policy_decision" where
  "terminal_denial reason checks p c eid stamp =
     \<lparr>dc_decision = DECISION_DENY, dc_reason_codes = [reason], dc_checks = checks_in_order checks,
      dc_policy_id = map_option pd_policy_id p, dc_policy_key = map_option pd_policy_key p,
      dc_policy_version = map_option pd_version p,
      dc_evaluation_id = eid, dc_evaluated_at = stamp, dc_engine_version = GP_ENGINE_VERSION,
      dc_required_approvals = roles_of p, dc_required_roles = roles_of p,
      dc_operation = ec_operation c, dc_asset_id = ec_asset_id c, dc_incident_id = ec_incident_id c,
      dc_canonical_event_id = ec_canonical_event_id c, dc_amount_usd = as_decimal (ec_amount_usd c),
      dc_simulation = ec_simulation c,
      dc_violation_action = (case p of None \<Rightarrow> VIOLATION_ACTION_DENY | Some q \<Rightarrow> pd_violation_action q)\<rparr>"

section \<open>The collected checks\<close>

text \<open>The accumulator: the checks recorded and the reason codes, without repetition.\<close>

type_synonym eval_acc = "check_map \<times> string list"

definition record_check :: "string \<Rightarrow> string \<Rightarrow> string \<Rightarrow> eval_acc \<Rightarrow> eval_acc" where
  "record_check key status detail acc =
     ((fst acc)(key \<mapsto> mk_check key status detail None), snd acc)"

definition fail_check :: "string \<Rightarrow> string \<Rightarrow> string \<Rightarrow> eval_acc \<Rightarrow> eval_acc" where
  "fail_check key reason detail acc =
     ((fst acc)(key \<mapsto> mk_check key CHK_FAIL detail (Some reason)), append_new reason (snd acc))"

definition check_business_event ::
  "policy_definition \<Rightarrow> evaluation_context \<Rightarrow> eval_acc \<Rightarrow> eval_acc" where
  "check_business_event p c acc =
     (let required_event = normalize_business_event (opt_str (pd_required_business_event p)) in
      case pd_required_business_event p of
        None \<Rightarrow> record_check CHECK_BUSINESS_EVENT CHK_NOT_APPLICABLE
                  ''This policy does not require a business event.'' acc
      | Some required \<Rightarrow>
          let observed = normalize_business_event (opt_str (ec_business_event c));
              given = py_strip (text_of (opt_str (ec_business_event c)))
          in if given = [] then
               fail_check CHECK_BUSINESS_EVENT BUSINESS_EVENT_MISSING
                 (''The policy requires a '' @ required @ '' business event; none was supplied.'') acc
             else if observed = None \<or> observed \<noteq> required_event then
               fail_check CHECK_BUSINESS_EVENT BUSINESS_EVENT_MISMATCH
                 (''The policy requires '' @ required @ ''; the request carries '' @
                  (case observed of Some e \<Rightarrow> e | None \<Rightarrow> given) @ ''.'') acc
             else record_check CHECK_BUSINESS_EVENT CHK_PASS
                    (''Business event is '' @ py_str (opt_str observed) @ ''.'') acc)"

definition requirement_label :: "string \<Rightarrow> string" where
  "requirement_label r = the (map_of SETTLEMENT_REQUIREMENT_LABELS r)"

definition check_settlement ::
  "policy_definition \<Rightarrow> evaluation_context \<Rightarrow> eval_acc \<Rightarrow> eval_acc" where
  "check_settlement p c acc =
     (case pd_settlement_requirement p of
        None \<Rightarrow> record_check CHECK_SETTLEMENT CHK_NOT_APPLICABLE
                  ''This policy does not impose a settlement requirement.'' acc
      | Some stored \<Rightarrow>
          (case normalize_settlement_requirement (opt_str (pd_settlement_requirement p)) of
             None \<Rightarrow> fail_check CHECK_SETTLEMENT SETTLEMENT_STATE_UNKNOWN
                (''The policy names an unrecognized settlement requirement ('' @ stored @
                 ''), so it cannot be evaluated.'') acc
           | Some requirement \<Rightarrow>
               (case normalize_settlement (opt_str (ec_settlement_status c)) of
                  None \<Rightarrow> fail_check CHECK_SETTLEMENT SETTLEMENT_STATE_UNKNOWN
                     (''The settlement state could not be established, so the requirement '' @
                      requirement_label requirement @ '' cannot be shown to be met.'') acc
                | Some observed \<Rightarrow>
                    if observed \<in> set (the (map_of SETTLEMENT_SATISFIES requirement)) then
                      record_check CHECK_SETTLEMENT CHK_PASS
                        (''Settlement is '' @ observed @ ''; the policy requires '' @
                         requirement_label requirement @ ''.'') acc
                    else fail_check CHECK_SETTLEMENT SETTLEMENT_NOT_CLEARED
                        (''Settlement is '' @ observed @ ''; the policy requires '' @
                         requirement_label requirement @ ''.'') acc)))"

definition check_allowed_window ::
  "policy_definition \<Rightarrow> evaluation_context \<Rightarrow> eval_acc \<Rightarrow> eval_acc" where
  "check_allowed_window p c acc =
     (if \<not> pd_has_allowed_window p then
        record_check CHECK_ALLOWED_WINDOW CHK_NOT_APPLICABLE
          ''This policy does not restrict the time of day.'' acc
      else case (parse_hhmm (pd_allowed_window_start_utc p), parse_hhmm (pd_allowed_window_end_utc p)) of
        (Some from, Some until) \<Rightarrow>
          (case ec_evaluated_at c of
             None \<Rightarrow> fail_check CHECK_ALLOWED_WINDOW EVALUATION_TIMESTAMP_MISSING
               ''No evaluation timestamp was supplied, so the allowed window cannot be checked.'' acc
           | Some moment \<Rightarrow>
               let m = minutes_utc moment;
                   window = py_str (opt_str (pd_allowed_window_start_utc p)) @ ''-'' @
                            py_str (opt_str (pd_allowed_window_end_utc p)) @ '' UTC''
               in if in_window m from until then
                    record_check CHECK_ALLOWED_WINDOW CHK_PASS
                      (clock_text m @ '' UTC is inside '' @ window @ ''.'') acc
                  else fail_check CHECK_ALLOWED_WINDOW OUTSIDE_ALLOWED_WINDOW
                      (clock_text m @ '' UTC is outside '' @ window @ ''.'') acc)
      | _ \<Rightarrow> fail_check CHECK_ALLOWED_WINDOW OUTSIDE_ALLOWED_WINDOW
               ''The policy window is not a valid UTC time range, so the request cannot be shown to fall inside it.'' acc)"

definition check_daily_limit ::
  "policy_definition \<Rightarrow> evaluation_context \<Rightarrow> eval_acc \<Rightarrow> py_error + eval_acc" where
  "check_daily_limit p c acc =
     (let invalid = fail_check CHECK_DAILY_LIMIT AMOUNT_INVALID
            ''The request amount is missing or not a valid non-negative value, so it cannot be checked against the daily limit.'' acc
      in case as_decimal (pd_maximum_daily_amount_usd p) of
        None \<Rightarrow> Inr (record_check CHECK_DAILY_LIMIT CHK_NOT_APPLICABLE
                      ''This policy does not cap daily issuance.'' acc)
      | Some daily_cap \<Rightarrow>
          (case as_decimal (ec_amount_usd c) of
             None \<Rightarrow> Inr invalid
           | Some amount \<Rightarrow>
               bind_result (dec_less amount dec_zero) (\<lambda>negative.
               if negative then Inr invalid
               else case as_decimal (ec_daily_total_usd c) of
                 None \<Rightarrow> Inr (fail_check CHECK_DAILY_LIMIT DAILY_TOTAL_UNAVAILABLE
                   ''Today's issuance total under this policy could not be established, so the daily limit cannot be shown to hold.'' acc)
               | Some prior \<Rightarrow>
                   bind_result (dec_add 28 prior amount) (\<lambda>total.
                   bind_result (dec_less daily_cap total) (\<lambda>exceeded.
                   Inr (if exceeded then fail_check CHECK_DAILY_LIMIT AMOUNT_LIMIT_EXCEEDED
                          (dec_str total @ '' USD would exceed the '' @ dec_str daily_cap @
                           '' USD daily limit ('' @ dec_str prior @ '' USD already permitted today).'') acc
                        else record_check CHECK_DAILY_LIMIT CHK_PASS
                          (dec_str total @ '' USD is within the '' @ dec_str daily_cap @
                           '' USD daily limit.'') acc))))))"

text \<open>The two role checks also list the roles left outstanding.\<close>

definition or_text :: "string option \<Rightarrow> string \<Rightarrow> string" where
  "or_text v dflt = (case v of Some (ch # cs) \<Rightarrow> ch # cs | _ \<Rightarrow> dflt)"

definition check_operator_role ::
  "policy_definition \<Rightarrow> evaluation_context \<Rightarrow> eval_acc \<times> string list \<Rightarrow> eval_acc \<times> string list" where
  "check_operator_role p c = (\<lambda>(acc, outstanding).
     if ROLE_TREASURY_OPERATOR \<in> set (pd_required_roles p) then
       if ec_operator_has_treasury_role c = Some True then
         (record_check CHECK_OPERATOR_ROLE CHK_PASS
            (''Operator '' @ or_text (ec_operator_id c) ''(unnamed)'' @
             '' holds response.propose in this workspace.'') acc, outstanding)
       else
         (fail_check CHECK_OPERATOR_ROLE TREASURY_OPERATOR_MISSING
            (''The policy requires a Treasury Operator; '' @ or_text (ec_operator_id c) ''no operator'' @
             '' does not hold response.propose in this workspace.'') acc,
          outstanding @ [ROLE_TREASURY_OPERATOR])
     else (record_check CHECK_OPERATOR_ROLE CHK_NOT_APPLICABLE
             ''This policy does not require a Treasury Operator.'' acc, outstanding))"

definition check_compliance_approval ::
  "policy_definition \<Rightarrow> evaluation_context \<Rightarrow> eval_acc \<times> string list \<Rightarrow> eval_acc \<times> string list" where
  "check_compliance_approval p c = (\<lambda>(acc, outstanding).
     if ROLE_COMPLIANCE_APPROVER \<in> set (pd_required_roles p) then
       if ec_compliance_approval c then
         (record_check CHECK_COMPLIANCE_APPROVAL CHK_PASS
            ''A compliance approval is present for this operation.'' acc, outstanding)
       else
         (fail_check CHECK_COMPLIANCE_APPROVAL COMPLIANCE_APPROVAL_MISSING
            ''The policy requires a Compliance Approver before issuance; no compliance approval is present.'' acc,
          outstanding @ [ROLE_COMPLIANCE_APPROVER])
     else (record_check CHECK_COMPLIANCE_APPROVAL CHK_NOT_APPLICABLE
             ''This policy does not require a compliance approval.'' acc, outstanding))"

text \<open>Every other required role has no evidence and stays outstanding.\<close>

fun check_other_roles :: "string list \<Rightarrow> eval_acc \<times> string list \<Rightarrow> eval_acc \<times> string list" where
  "check_other_roles [] st = st"
| "check_other_roles (role # roles) st =
     (if role = ROLE_TREASURY_OPERATOR \<or> role = ROLE_COMPLIANCE_APPROVER
      then check_other_roles roles st
      else check_other_roles roles
             ((fst (fst st), append_new (role_missing_reason role) (snd (fst st))), snd st @ [role]))"

definition check_roles ::
  "policy_definition \<Rightarrow> evaluation_context \<Rightarrow> eval_acc \<Rightarrow> eval_acc \<times> string list" where
  "check_roles p c acc = check_other_roles (pd_required_roles p)
     (check_compliance_approval p c (check_operator_role p c (acc, [])))"

definition collected_checks ::
  "policy_definition \<Rightarrow> evaluation_context \<Rightarrow> check_map \<Rightarrow> py_error + eval_acc \<times> string list" where
  "collected_checks p c checks =
     bind_result (check_daily_limit p c (check_allowed_window p c (check_settlement p c
         (check_business_event p c (checks, [])))))
       (\<lambda>acc. Inr (check_roles p c acc))"

section \<open>The evaluation\<close>

definition final_decision ::
  "policy_definition \<Rightarrow> evaluation_context \<Rightarrow> string option \<Rightarrow> string \<Rightarrow> pytime
     \<Rightarrow> eval_acc \<times> string list \<Rightarrow> policy_decision" where
  "final_decision p c operation eid stamp = (\<lambda>((checks, reason_codes), outstanding).
     let allowed = (reason_codes = []) in
     \<lparr>dc_decision = (if allowed then DECISION_ALLOW else DECISION_DENY),
      dc_reason_codes = (if allowed then [POLICY_SATISFIED] else reason_codes),
      dc_checks = checks_in_order checks,
      dc_policy_id = Some (pd_policy_id p), dc_policy_key = Some (pd_policy_key p),
      dc_policy_version = Some (pd_version p),
      dc_evaluation_id = eid, dc_evaluated_at = stamp,
      dc_engine_version = GP_ENGINE_VERSION,
      dc_required_approvals = outstanding,
      dc_required_roles = pd_required_roles p,
      dc_operation = operation, dc_asset_id = ec_asset_id c,
      dc_incident_id = ec_incident_id c,
      dc_canonical_event_id = ec_canonical_event_id c,
      dc_amount_usd = as_decimal (ec_amount_usd c),
      dc_simulation = ec_simulation c,
      dc_violation_action = pd_violation_action p\<rparr>)"

text \<open>
  \<open>fresh_id\<close> is the random identifier and \<open>clock\<close> the time read when the caller gave none.
\<close>

definition evaluate_policy ::
  "policy_definition option \<Rightarrow> evaluation_context \<Rightarrow> string option \<Rightarrow> pytime option
     \<Rightarrow> string \<Rightarrow> pytime \<Rightarrow> py_error + policy_decision" where
  "evaluate_policy given c evaluation_id now fresh_id clock =
     (let eid = or_text evaluation_id fresh_id;
          stamp = (case now of Some t \<Rightarrow> t | None \<Rightarrow>
                  (case ec_evaluated_at c of Some t \<Rightarrow> t | None \<Rightarrow> clock))
      in case given of
        None \<Rightarrow>
          Inr (terminal_denial POLICY_NOT_FOUND
            [CHECK_POLICY_EXISTS \<mapsto> mk_check CHECK_POLICY_EXISTS CHK_FAIL
               ''No policy governs this operation, so nothing authorizes it.'' (Some POLICY_NOT_FOUND)]
            None c eid stamp)
      | Some p \<Rightarrow>
          let checks1 = [CHECK_POLICY_EXISTS \<mapsto> mk_check CHECK_POLICY_EXISTS CHK_PASS
                (''Policy '' @ pd_policy_key p @ '' version '' @ str_int (pd_version p) @
                 '' governs this operation.'') None]
          in if \<not> pd_is_active p then
               let reason = (if pd_status p = GP_STATUS_DISABLED then POLICY_DISABLED else POLICY_NOT_ACTIVE)
               in Inr (terminal_denial reason
                    (checks1(CHECK_POLICY_ACTIVE \<mapsto> mk_check CHECK_POLICY_ACTIVE CHK_FAIL
                       (''Policy status is '' @ pd_status p @
                        ''. Only an ACTIVE policy can authorize an operation.'') (Some reason)))
                    given c eid stamp)
             else
               let checks2 = checks1(CHECK_POLICY_ACTIVE \<mapsto>
                      mk_check CHECK_POLICY_ACTIVE CHK_PASS ''Policy status is ACTIVE.'' None);
                   operation = normalize_operation (opt_str (ec_operation c))
               in if operation = None \<or> operation \<noteq> Some (pd_operation p) then
                    Inr (terminal_denial OPERATION_MISMATCH
                      (checks2(CHECK_OPERATION_MATCHES \<mapsto> mk_check CHECK_OPERATION_MATCHES CHK_FAIL
                         (''Policy governs '' @ pd_operation p @ ''; the request is '' @
                          or_text operation ''an unrecognized operation'' @ ''.'')
                         (Some OPERATION_MISMATCH)))
                      given c eid stamp)
                  else
                    bind_result (collected_checks p c (checks2(CHECK_OPERATION_MATCHES \<mapsto>
                        mk_check CHECK_OPERATION_MATCHES CHK_PASS
                          (''Operation is '' @ py_str (opt_str operation) @ ''.'') None)))
                      (\<lambda>r. Inr (final_decision p c operation eid stamp r)))"

section \<open>What a policy permits\<close>

text \<open>
  The specification the engine is compared with: one condition per constraint, none of
  them mentioning checks, reasons or their order. The window is cyclic distance on the
  day's 1440 minutes.
\<close>

definition event_ok :: "policy_definition \<Rightarrow> evaluation_context \<Rightarrow> bool" where
  "event_ok p c \<longleftrightarrow> pd_required_business_event p = None \<or>
     (\<exists>e. normalize_business_event (opt_str (pd_required_business_event p)) = Some e \<and>
          normalize_business_event (opt_str (ec_business_event c)) = Some e)"

definition settlement_ok :: "policy_definition \<Rightarrow> evaluation_context \<Rightarrow> bool" where
  "settlement_ok p c \<longleftrightarrow> pd_settlement_requirement p = None \<or>
     (\<exists>r s. normalize_settlement_requirement (opt_str (pd_settlement_requirement p)) = Some r \<and>
        normalize_settlement (opt_str (ec_settlement_status c)) = Some s \<and>
        (s = SETTLEMENT_CLEARED \<or> r = REQUIREMENT_CLEARED_OR_PENDING \<and> s = SETTLEMENT_PENDING))"

definition window_ok :: "policy_definition \<Rightarrow> evaluation_context \<Rightarrow> bool" where
  "window_ok p c \<longleftrightarrow> \<not> pd_has_allowed_window p \<or>
     (\<exists>a b t. parse_hhmm (pd_allowed_window_start_utc p) = Some a \<and>
        parse_hhmm (pd_allowed_window_end_utc p) = Some b \<and> ec_evaluated_at c = Some t \<and>
        (minutes_utc t - a) mod 1440 \<le> (b - a) mod 1440)"

definition daily_ok :: "policy_definition \<Rightarrow> evaluation_context \<Rightarrow> bool" where
  "daily_ok p c \<longleftrightarrow> as_decimal (pd_maximum_daily_amount_usd p) = None \<or>
     (\<exists>l a prior total. as_decimal (pd_maximum_daily_amount_usd p) = Some l \<and>
        as_decimal (ec_amount_usd c) = Some a \<and> dec_less a dec_zero = Inr False \<and>
        as_decimal (ec_daily_total_usd c) = Some prior \<and>
        dec_add 28 prior a = Inr total \<and> dec_less l total = Inr False)"

definition roles_ok :: "policy_definition \<Rightarrow> evaluation_context \<Rightarrow> bool" where
  "roles_ok p c \<longleftrightarrow> (\<forall>role \<in> set (pd_required_roles p).
     role = ROLE_TREASURY_OPERATOR \<and> ec_operator_has_treasury_role c = Some True \<or>
     role = ROLE_COMPLIANCE_APPROVER \<and> ec_compliance_approval c)"

definition policy_permits :: "policy_definition \<Rightarrow> evaluation_context \<Rightarrow> bool" where
  "policy_permits p c \<longleftrightarrow> pd_status p = GP_STATUS_ACTIVE \<and>
     normalize_operation (opt_str (ec_operation c)) = Some (pd_operation p) \<and>
     event_ok p c \<and> settlement_ok p c \<and> window_ok p c \<and> daily_ok p c \<and> roles_ok p c"

section \<open>Lemmas on the window\<close>

lemma parse_hhmm_range: "parse_hhmm v = Some m \<Longrightarrow> 0 \<le> m \<and> m < 1440"
  by (auto simp: parse_hhmm_def Let_def split: if_splits option.splits)

lemma minutes_utc_range: "0 \<le> minutes_utc t \<and> minutes_utc t < 1440"
  by (simp add: minutes_utc_def)

lemma in_window_cyclic:
  assumes "0 \<le> m" "m < 1440" "0 \<le> a" "a < 1440" "0 \<le> b" "b < 1440"
  shows "in_window m a b \<longleftrightarrow> (m - a) mod 1440 \<le> (b - a) mod 1440"
proof -
  have wrap: "(x - a) mod 1440 = (if a \<le> x then x - a else x - a + 1440)"
    if "0 \<le> x" "x < 1440" for x :: int
  proof (cases "a \<le> x")
    case True
    then show ?thesis using that assms by simp
  next
    case False
    then have "(x - a) mod 1440 = (x - a + 1440) mod 1440" by simp
    also have "\<dots> = x - a + 1440" using that assms False by (intro mod_pos_pos_trivial) auto
    finally show ?thesis using False by simp
  qed
  show ?thesis
    using assms by (simp add: in_window_def wrap)
qed

section \<open>Lemmas on the checks\<close>

text \<open>
  Every recorded check sits under its own key; it fails exactly when it carries a reason,
  and that reason is among the codes collected so far.
\<close>

definition check_wf :: "string set \<Rightarrow> string \<Rightarrow> policy_check \<Rightarrow> bool" where
  "check_wf codes k ck \<longleftrightarrow> pc_key ck = k \<and> (pc_status ck = CHK_FAIL \<longleftrightarrow> pc_reason_code ck \<noteq> None) \<and>
     set_option (pc_reason_code ck) \<subseteq> codes"

lemma check_wf_mono: "check_wf A k ck \<Longrightarrow> A \<subseteq> B \<Longrightarrow> check_wf B k ck"
  by (auto simp: check_wf_def)

definition acc_inv :: "eval_acc \<Rightarrow> bool" where
  "acc_inv acc \<longleftrightarrow> distinct (snd acc) \<and> set (snd acc) \<subseteq> set REASON_CODES - {POLICY_SATISFIED} \<and>
     (\<forall>k ck. fst acc k = Some ck \<longrightarrow> check_wf (set (snd acc)) k ck)"

lemma acc_inv_record [step_invs]:
  "acc_inv acc \<Longrightarrow> status \<noteq> CHK_FAIL \<Longrightarrow> acc_inv (record_check key status detail acc)"
  by (auto simp: acc_inv_def record_check_def mk_check_def check_wf_def)

lemma acc_inv_fail [step_invs]:
  "acc_inv acc \<Longrightarrow> reason \<in> set REASON_CODES \<Longrightarrow> reason \<noteq> POLICY_SATISFIED \<Longrightarrow>
     acc_inv (fail_check key reason detail acc)"
  by (auto simp: acc_inv_def fail_check_def mk_check_def check_wf_def)

lemma record_check_simps [simp]:
  "snd (record_check key status detail acc) = snd acc"
  "dom (fst (record_check key status detail acc)) = insert key (dom (fst acc))"
  by (simp_all add: record_check_def)

lemma fail_check_simps [simp]:
  "snd (fail_check key reason detail acc) = append_new reason (snd acc)"
  "dom (fst (fail_check key reason detail acc)) = insert key (dom (fst acc))"
  by (simp_all add: fail_check_def)

lemmas reason_code_simps = REASON_CODES_def

lemma check_business_event_inv [step_invs]: "acc_inv acc \<Longrightarrow> acc_inv (check_business_event p c acc)"
  by (auto simp: check_business_event_def reason_code_simps Let_def intro!: step_invs split: option.splits)

lemma check_settlement_inv [step_invs]: "acc_inv acc \<Longrightarrow> acc_inv (check_settlement p c acc)"
  by (auto simp: check_settlement_def reason_code_simps intro!: step_invs split: option.splits)

lemma check_allowed_window_inv [step_invs]: "acc_inv acc \<Longrightarrow> acc_inv (check_allowed_window p c acc)"
  by (auto simp: check_allowed_window_def reason_code_simps Let_def intro!: step_invs
      split: option.splits)

lemma check_daily_limit_inv [step_invs]:
  "acc_inv acc \<Longrightarrow> on_ok acc_inv (check_daily_limit p c acc)"
  by (simp add: check_daily_limit_def reason_code_simps Let_def on_ok_bind step_invs
      split: option.splits)

lemma check_business_event_dom [simp]:
  "dom (fst (check_business_event p c acc)) = insert CHECK_BUSINESS_EVENT (dom (fst acc))"
  by (simp add: check_business_event_def Let_def split: option.splits)

lemma check_settlement_dom [simp]:
  "dom (fst (check_settlement p c acc)) = insert CHECK_SETTLEMENT (dom (fst acc))"
  by (simp add: check_settlement_def split: option.splits)

lemma check_allowed_window_dom [simp]:
  "dom (fst (check_allowed_window p c acc)) = insert CHECK_ALLOWED_WINDOW (dom (fst acc))"
  by (simp add: check_allowed_window_def Let_def split: option.splits)

lemma check_daily_limit_dom:
  "on_ok (\<lambda>acc'. dom (fst acc') = insert CHECK_DAILY_LIMIT (dom (fst acc))) (check_daily_limit p c acc)"
  by (simp add: check_daily_limit_def Let_def on_ok_bind split: option.splits)

lemma check_business_event_ok:
  "snd (check_business_event p c acc) = [] \<longleftrightarrow> snd acc = [] \<and> event_ok p c"
  using event_words.norm_missing
  by (auto simp: check_business_event_def event_ok_def Let_def normalize_business_event_def
      upper_key_def BUSINESS_EVENTS_def split: option.splits if_splits)

lemma settlement_satisfies_iff:
  "r \<in> set SETTLEMENT_REQUIREMENTS \<Longrightarrow>
     s \<in> set (the (map_of SETTLEMENT_SATISFIES r)) \<longleftrightarrow>
       s = SETTLEMENT_CLEARED \<or> r = REQUIREMENT_CLEARED_OR_PENDING \<and> s = SETTLEMENT_PENDING"
  by (auto simp: SETTLEMENT_REQUIREMENTS_def SETTLEMENT_SATISFIES_def)

lemma check_settlement_ok:
  "snd (check_settlement p c acc) = [] \<longleftrightarrow> snd acc = [] \<and> settlement_ok p c"
  using requirement_words.norm_in [of "opt_str (pd_settlement_requirement p)"]
  by (auto simp: check_settlement_def settlement_ok_def settlement_satisfies_iff split: option.splits)

lemma check_allowed_window_ok:
  "snd (check_allowed_window p c acc) = [] \<longleftrightarrow> snd acc = [] \<and> window_ok p c"
  using parse_hhmm_range minutes_utc_range
  by (auto simp: check_allowed_window_def window_ok_def Let_def in_window_cyclic split: option.splits)

lemma check_daily_limit_ok:
  "returns (\<lambda>acc'. snd acc' = []) (check_daily_limit p c acc) \<longleftrightarrow> snd acc = [] \<and> daily_ok p c"
  by (auto simp: check_daily_limit_def daily_ok_def Let_def returns_bind split: option.splits)

section \<open>Lemmas on the roles\<close>

lemma check_other_roles_snd:
  "snd (fst (check_other_roles roles st)) =
     fold append_new (map role_missing_reason
       (filter (\<lambda>r. r \<noteq> ROLE_TREASURY_OPERATOR \<and> r \<noteq> ROLE_COMPLIANCE_APPROVER) roles)) (snd (fst st))"
  by (induction roles st rule: check_other_roles.induct) auto

lemma check_other_roles_fst: "fst (fst (check_other_roles roles st)) = fst (fst st)"
  by (induction roles st rule: check_other_roles.induct) auto

lemma check_other_roles_outstanding:
  "snd (check_other_roles roles st) =
     snd st @ filter (\<lambda>r. r \<noteq> ROLE_TREASURY_OPERATOR \<and> r \<noteq> ROLE_COMPLIANCE_APPROVER) roles"
  by (induction roles st rule: check_other_roles.induct) auto

lemma check_other_roles_inv [step_invs]:
  "acc_inv (fst st) \<Longrightarrow> acc_inv (fst (check_other_roles roles st))"
proof (induction roles st rule: check_other_roles.induct)
  case (2 role roles st)
  have "acc_inv (fst (fst st), append_new (role_missing_reason role) (snd (fst st)))"
    using "2.prems" role_missing_reason_code [of role] role_missing_reason_neq_satisfied [of role]
    by (auto simp: acc_inv_def intro: check_wf_mono)
  with 2 show ?case by simp
qed simp

lemma fold_append_new_Nil: "fold append_new ys xs = [] \<longleftrightarrow> xs = [] \<and> ys = []"
  by (induction ys arbitrary: xs) auto

lemma check_operator_role_reasons:
  "snd (fst (check_operator_role p c st)) =
     (if ROLE_TREASURY_OPERATOR \<in> set (pd_required_roles p) \<and> ec_operator_has_treasury_role c \<noteq> Some True
      then append_new TREASURY_OPERATOR_MISSING (snd (fst st)) else snd (fst st))"
  "snd (check_operator_role p c st) =
     (if ROLE_TREASURY_OPERATOR \<in> set (pd_required_roles p) \<and> ec_operator_has_treasury_role c \<noteq> Some True
      then snd st @ [ROLE_TREASURY_OPERATOR] else snd st)"
  "dom (fst (fst (check_operator_role p c st))) = insert CHECK_OPERATOR_ROLE (dom (fst (fst st)))"
  by (simp_all add: check_operator_role_def split_beta)

lemma check_compliance_approval_reasons:
  "snd (fst (check_compliance_approval p c st)) =
     (if ROLE_COMPLIANCE_APPROVER \<in> set (pd_required_roles p) \<and> \<not> ec_compliance_approval c
      then append_new COMPLIANCE_APPROVAL_MISSING (snd (fst st)) else snd (fst st))"
  "snd (check_compliance_approval p c st) =
     (if ROLE_COMPLIANCE_APPROVER \<in> set (pd_required_roles p) \<and> \<not> ec_compliance_approval c
      then snd st @ [ROLE_COMPLIANCE_APPROVER] else snd st)"
  "dom (fst (fst (check_compliance_approval p c st))) =
     insert CHECK_COMPLIANCE_APPROVAL (dom (fst (fst st)))"
  by (simp_all add: check_compliance_approval_def split_beta)

lemmas role_reason_simps = check_operator_role_reasons check_compliance_approval_reasons
  check_other_roles_snd check_other_roles_fst check_other_roles_outstanding fold_append_new_Nil

lemma check_roles_inv [step_invs]:
  assumes "acc_inv acc" shows "acc_inv (fst (check_roles p c acc))"
proof -
  have "acc_inv (fst (check_operator_role p c (acc, [])))"
    using assms by (auto simp: check_operator_role_def reason_code_simps intro!: step_invs)
  then have "acc_inv (fst (check_compliance_approval p c (check_operator_role p c (acc, []))))"
    by (auto simp: check_compliance_approval_def reason_code_simps split_beta intro!: step_invs)
  then show ?thesis by (simp add: check_roles_def check_other_roles_inv)
qed

lemma check_roles_dom:
  "dom (fst (fst (check_roles p c acc))) =
     insert CHECK_COMPLIANCE_APPROVAL (insert CHECK_OPERATOR_ROLE (dom (fst acc)))"
  by (simp add: check_roles_def role_reason_simps)

text \<open>The two named roles and the rest, without the texts of the names.\<close>

lemma roles_partition:
  assumes "T \<noteq> C"
  shows "(\<forall>r \<in> R. r = T \<and> a \<or> r = C \<and> b) \<longleftrightarrow>
      \<not> (T \<in> R \<and> \<not> a) \<and> \<not> (C \<in> R \<and> \<not> b) \<and> (\<forall>r \<in> R. \<not> (r \<noteq> T \<and> r \<noteq> C))"
    and "{r \<in> R. \<not> (r = T \<and> a) \<and> \<not> (r = C \<and> b)} =
      (if T \<in> R \<and> \<not> a then {T} else {}) \<union> (if C \<in> R \<and> \<not> b then {C} else {}) \<union>
      {r \<in> R. r \<noteq> T \<and> r \<noteq> C}"
proof -
  show "(\<forall>r \<in> R. r = T \<and> a \<or> r = C \<and> b) \<longleftrightarrow>
      \<not> (T \<in> R \<and> \<not> a) \<and> \<not> (C \<in> R \<and> \<not> b) \<and> (\<forall>r \<in> R. \<not> (r \<noteq> T \<and> r \<noteq> C))"
    using assms by metis
  show "{r \<in> R. \<not> (r = T \<and> a) \<and> \<not> (r = C \<and> b)} =
      (if T \<in> R \<and> \<not> a then {T} else {}) \<union> (if C \<in> R \<and> \<not> b then {C} else {}) \<union>
      {r \<in> R. r \<noteq> T \<and> r \<noteq> C}"
    using assms by (cases "T \<in> R \<and> \<not> a"; cases "C \<in> R \<and> \<not> b") auto
qed

lemma check_roles_ok:
  "snd (fst (check_roles p c acc)) = [] \<longleftrightarrow> snd acc = [] \<and> roles_ok p c"
proof -
  have "ROLE_TREASURY_OPERATOR \<noteq> ROLE_COMPLIANCE_APPROVER" by simp
  note roles = roles_partition(1) [OF this, of "set (pd_required_roles p)"
      "ec_operator_has_treasury_role c = Some True" "ec_compliance_approval c"]
  show ?thesis
    unfolding roles_ok_def roles check_roles_def role_reason_simps map_is_Nil_conv filter_empty_conv
    by (cases "ROLE_TREASURY_OPERATOR \<in> set (pd_required_roles p) \<and>
          ec_operator_has_treasury_role c \<noteq> Some True";
        cases "ROLE_COMPLIANCE_APPROVER \<in> set (pd_required_roles p) \<and> \<not> ec_compliance_approval c")
      (simp_all only: if_True if_False append_new_not_Nil fst_conv snd_conv simp_thms)
qed

lemma check_roles_outstanding:
  "set (snd (check_roles p c acc)) =
     {r \<in> set (pd_required_roles p).
        \<not> (r = ROLE_TREASURY_OPERATOR \<and> ec_operator_has_treasury_role c = Some True) \<and>
        \<not> (r = ROLE_COMPLIANCE_APPROVER \<and> ec_compliance_approval c)}"
proof -
  have "ROLE_TREASURY_OPERATOR \<noteq> ROLE_COMPLIANCE_APPROVER" by simp
  note roles = roles_partition(2) [OF this, of "set (pd_required_roles p)"
      "ec_operator_has_treasury_role c = Some True" "ec_compliance_approval c"]
  show ?thesis
    unfolding roles check_roles_def role_reason_simps
    by (cases "ROLE_TREASURY_OPERATOR \<in> set (pd_required_roles p) \<and>
          ec_operator_has_treasury_role c \<noteq> Some True";
        cases "ROLE_COMPLIANCE_APPROVER \<in> set (pd_required_roles p) \<and> \<not> ec_compliance_approval c")
      (simp_all only: if_True if_False snd_conv append.simps set_append set_simps set_filter Un_insert_left Un_empty_left
         Un_empty_right simp_thms)
qed

section \<open>Lemmas on the evaluation\<close>

definition collected_keys :: "string set" where
  "collected_keys = {CHECK_BUSINESS_EVENT, CHECK_SETTLEMENT, CHECK_ALLOWED_WINDOW, CHECK_DAILY_LIMIT,
     CHECK_OPERATOR_ROLE, CHECK_COMPLIANCE_APPROVAL}"

lemma collected_checks_facts:
  assumes "collected_checks p c ch = Inr (acc, outstanding)" and wf: "acc_inv (ch, [])"
  shows "acc_inv acc" and "dom (fst acc) = collected_keys \<union> dom ch"
    and "snd acc = [] \<longleftrightarrow> event_ok p c \<and> settlement_ok p c \<and> window_ok p c \<and> daily_ok p c \<and> roles_ok p c"
    and "set outstanding = {r \<in> set (pd_required_roles p).
        \<not> (r = ROLE_TREASURY_OPERATOR \<and> ec_operator_has_treasury_role c = Some True) \<and>
        \<not> (r = ROLE_COMPLIANCE_APPROVER \<and> ec_compliance_approval c)}"
proof -
  let ?w = "check_allowed_window p c (check_settlement p c (check_business_event p c (ch, [])))"
  obtain acc1 where d: "check_daily_limit p c ?w = Inr acc1"
    and r: "check_roles p c acc1 = (acc, outstanding)"
    using assms(1) by (auto simp: collected_checks_def bind_result_Inr)
  have w: "acc_inv ?w" using wf by (intro step_invs)
  have "acc_inv acc1" using check_daily_limit_inv [OF w] d by (rule on_okD)
  then show "acc_inv acc" using check_roles_inv [of acc1 p c] by (simp add: r)
  show "dom (fst acc) = collected_keys \<union> dom ch"
    using check_roles_dom [of p c acc1] on_okD [OF check_daily_limit_dom d]
    by (simp add: r collected_keys_def insert_commute)
  have "snd acc1 = [] \<longleftrightarrow> snd ?w = [] \<and> daily_ok p c"
    using check_daily_limit_ok [of p c ?w] by (simp add: d)
  then show "snd acc = [] \<longleftrightarrow>
      event_ok p c \<and> settlement_ok p c \<and> window_ok p c \<and> daily_ok p c \<and> roles_ok p c"
    using check_roles_ok [of p c acc1]
    by (simp add: r check_allowed_window_ok check_settlement_ok check_business_event_ok conj_assoc)
  show "set outstanding = {r \<in> set (pd_required_roles p).
        \<not> (r = ROLE_TREASURY_OPERATOR \<and> ec_operator_has_treasury_role c = Some True) \<and>
        \<not> (r = ROLE_COMPLIANCE_APPROVER \<and> ec_compliance_approval c)}"
    using check_roles_outstanding [of p c acc1] by (simp add: r)
qed

lemma daily_ok_no_error: "daily_ok p c \<Longrightarrow> \<exists>r. collected_checks p c ch = Inr r"
  by (auto simp: daily_ok_def collected_checks_def check_daily_limit_def Let_def simp del: split_paired_Ex)

definition entry_checks :: "policy_definition \<Rightarrow> string \<Rightarrow> check_map" where
  "entry_checks p operation =
     [CHECK_POLICY_EXISTS \<mapsto> mk_check CHECK_POLICY_EXISTS CHK_PASS
        (''Policy '' @ pd_policy_key p @ '' version '' @ str_int (pd_version p) @
         '' governs this operation.'') None,
      CHECK_POLICY_ACTIVE \<mapsto> mk_check CHECK_POLICY_ACTIVE CHK_PASS ''Policy status is ACTIVE.'' None,
      CHECK_OPERATION_MATCHES \<mapsto> mk_check CHECK_OPERATION_MATCHES CHK_PASS
        (''Operation is '' @ operation @ ''.'') None]"

lemma entry_checks_facts:
  "acc_inv (entry_checks p op, [])"
  "dom (entry_checks p op) = {CHECK_POLICY_EXISTS, CHECK_POLICY_ACTIVE, CHECK_OPERATION_MATCHES}"
  by (auto simp: acc_inv_def entry_checks_def mk_check_def check_wf_def split: if_splits)

lemma acc_inv_map:
  "distinct codes \<Longrightarrow> set codes \<subseteq> set REASON_CODES - {POLICY_SATISFIED} \<Longrightarrow> acc_inv (Map.empty, codes)"
  "acc_inv (checks, codes) \<Longrightarrow> check_wf (set codes) k ck \<Longrightarrow> acc_inv (checks(k \<mapsto> ck), codes)"
  by (auto simp: acc_inv_def)

lemmas terminal_simps = check_wf_def mk_check_def REASON_CODES_def CHECK_ORDER_def

text \<open>The evaluation either stops in the first three checks or reaches the collection.\<close>

lemma evaluate_policy_terminal:
  "given = None \<or> (\<exists>p. given = Some p \<and> (pd_status p \<noteq> GP_STATUS_ACTIVE \<or>
       normalize_operation (opt_str (ec_operation c)) \<noteq> Some (pd_operation p))) \<Longrightarrow>
   \<exists>reason checks eid stamp.
     evaluate_policy given c evaluation_id now fresh_id clock =
       Inr (terminal_denial reason checks given c eid stamp) \<and>
     acc_inv (checks, [reason]) \<and> (\<exists>n\<in>{1,2,3}. dom checks = set (take n CHECK_ORDER))"
proof (cases given)
  case None
  show ?thesis
    unfolding None evaluate_policy_def Let_def option.case
    by (intro exI conjI, rule refl) (auto intro!: acc_inv_map simp: terminal_simps)
next
  case (Some p)
  assume "given = None \<or> (\<exists>p. given = Some p \<and> (pd_status p \<noteq> GP_STATUS_ACTIVE \<or>
       normalize_operation (opt_str (ec_operation c)) \<noteq> Some (pd_operation p)))"
  with Some consider "pd_status p \<noteq> GP_STATUS_ACTIVE"
    | "pd_status p = GP_STATUS_ACTIVE"
      "normalize_operation (opt_str (ec_operation c)) \<noteq> Some (pd_operation p)" by auto
  then show ?thesis
  proof cases
    case 1
    then show ?thesis unfolding Some evaluate_policy_def Let_def option.case pd_is_active_def
      by (simp only: if_True not_False_eq_True simp_thms)
        (intro exI conjI, rule refl, auto intro!: acc_inv_map simp: terminal_simps)
  next
    case 2
    then show ?thesis unfolding Some evaluate_policy_def Let_def option.case pd_is_active_def
      by (simp only: if_True if_False not_False_eq_True simp_thms)
        (intro exI conjI, rule refl, auto intro!: acc_inv_map simp: terminal_simps)
  qed
qed

lemma evaluate_policy_collect:
  assumes "pd_status p = GP_STATUS_ACTIVE"
    and "normalize_operation (opt_str (ec_operation c)) = Some (pd_operation p)"
  shows "evaluate_policy (Some p) c evaluation_id now fresh_id clock =
    bind_result (collected_checks p c (entry_checks p (pd_operation p)))
      (\<lambda>r. Inr (final_decision p c (Some (pd_operation p)) (or_text evaluation_id fresh_id)
         (case now of Some t \<Rightarrow> t | None \<Rightarrow> (case ec_evaluated_at c of Some t \<Rightarrow> t | None \<Rightarrow> clock)) r))"
  using assms by (simp add: evaluate_policy_def Let_def pd_is_active_def entry_checks_def)

lemma terminal_fields:
  "dc_decision (terminal_denial reason checks given c eid stamp) = DECISION_DENY"
  "dc_reason_codes (terminal_denial reason checks given c eid stamp) = [reason]"
  "dc_checks (terminal_denial reason checks given c eid stamp) = checks_in_order checks"
  by (simp_all add: terminal_denial_def)

text \<open>The rendered checks are the recorded ones, each once, in display order.\<close>

lemma checks_in_order_set: "set (checks_in_order checks) = {ck. \<exists>k \<in> set CHECK_ORDER. checks k = Some ck}"
  by (auto simp: checks_in_order_def split: option.splits)

lemma checks_in_order_keys:
  assumes "acc_inv (checks, codes)"
  shows "map pc_key (checks_in_order checks) = filter (\<lambda>k. k \<in> dom checks) CHECK_ORDER"
proof -
  have "map pc_key (concat (map (\<lambda>key. case checks key of None \<Rightarrow> [] | Some ck \<Rightarrow> [ck]) ks))
      = filter (\<lambda>k. k \<in> dom checks) ks" for ks
    using assms by (induction ks) (auto simp: acc_inv_def check_wf_def split: option.splits)
  then show ?thesis by (simp add: checks_in_order_def)
qed

lemma filter_take_distinct:
  "distinct xs \<Longrightarrow> filter (\<lambda>k. k \<in> set (take n xs)) xs = take n xs"
proof (induction xs arbitrary: n)
  case (Cons x xs)
  show ?case
  proof (cases n)
    case (Suc m)
    have "filter (\<lambda>k. k = x \<or> k \<in> set (take m xs)) xs = filter (\<lambda>k. k \<in> set (take m xs)) xs"
      using Cons.prems by (intro filter_cong) auto
    then show ?thesis using Cons Suc by simp
  qed simp
qed simp

lemma CHECK_ORDER_distinct: "distinct CHECK_ORDER"
  by (simp add: CHECK_ORDER_def)

definition well_reported :: "policy_decision \<Rightarrow> nat \<Rightarrow> string list \<Rightarrow> bool" where
  "well_reported d n codes \<longleftrightarrow> map pc_key (dc_checks d) = take n CHECK_ORDER \<and>
     (\<forall>ck \<in> set (dc_checks d). check_wf (set codes) (pc_key ck) ck)"

lemma check_wf_key: "check_wf A k ck \<Longrightarrow> check_wf A (pc_key ck) ck"
  by (simp add: check_wf_def)

lemma well_reportedI:
  assumes "acc_inv (checks, codes)" and "dom checks = set (take n CHECK_ORDER)"
    and "dc_checks d = checks_in_order checks"
  shows "well_reported d n codes"
proof -
  have "check_wf (set codes) (pc_key ck) ck" if "checks k = Some ck" for k ck
    using assms(1) that check_wf_key [of "set codes" k ck] by (simp add: acc_inv_def)
  then show ?thesis
    using assms checks_in_order_keys [OF assms(1)] filter_take_distinct [OF CHECK_ORDER_distinct, of n]
    by (auto simp: well_reported_def checks_in_order_set)
qed

lemma order_keys: "collected_keys \<union> {CHECK_POLICY_EXISTS, CHECK_POLICY_ACTIVE, CHECK_OPERATION_MATCHES}
    = set (take 9 CHECK_ORDER)"
  by (auto simp: collected_keys_def CHECK_ORDER_def)

lemma evaluate_policy_denied:
  assumes "given = None \<or> (\<exists>p. given = Some p \<and> (pd_status p \<noteq> GP_STATUS_ACTIVE \<or>
       normalize_operation (opt_str (ec_operation c)) \<noteq> Some (pd_operation p)))"
  shows "\<exists>d n. evaluate_policy given c evaluation_id now fresh_id clock = Inr d \<and>
     dc_decision d = DECISION_DENY \<and> length (dc_reason_codes d) = 1 \<and>
     set (dc_reason_codes d) \<subseteq> set REASON_CODES - {POLICY_SATISFIED} \<and>
     n \<in> {1, 2, 3} \<and> well_reported d n (dc_reason_codes d)"
proof -
  obtain reason checks eid stamp n where e: "evaluate_policy given c evaluation_id now fresh_id clock =
       Inr (terminal_denial reason checks given c eid stamp)"
    and inv: "acc_inv (checks, [reason])" and n: "n \<in> {1, 2, 3}" "dom checks = set (take n CHECK_ORDER)"
    using evaluate_policy_terminal [OF assms, of evaluation_id now fresh_id clock] by blast
  let ?d = "terminal_denial reason checks given c eid stamp"
  have "well_reported ?d n [reason]"
    by (rule well_reportedI [OF inv n(2)]) (simp add: terminal_fields)
  then show ?thesis
    using e inv n by (intro exI [of _ ?d] exI [of _ n]) (auto simp: terminal_fields acc_inv_def)
qed

lemma evaluate_policy_collected:
  assumes active: "pd_status p = GP_STATUS_ACTIVE"
    and op: "normalize_operation (opt_str (ec_operation c)) = Some (pd_operation p)"
    and d: "evaluate_policy (Some p) c evaluation_id now fresh_id clock = Inr d"
  shows "dc_decision d = (if policy_permits p c then DECISION_ALLOW else DECISION_DENY)"
    and "policy_permits p c \<Longrightarrow> dc_reason_codes d = [POLICY_SATISFIED] \<and> well_reported d 9 []"
    and "\<not> policy_permits p c \<Longrightarrow> dc_reason_codes d \<noteq> [] \<and> distinct (dc_reason_codes d) \<and>
      set (dc_reason_codes d) \<subseteq> set REASON_CODES - {POLICY_SATISFIED} \<and>
      well_reported d 9 (dc_reason_codes d)"
    and "set (dc_required_approvals d) = {r \<in> set (pd_required_roles p).
        \<not> (r = ROLE_TREASURY_OPERATOR \<and> ec_operator_has_treasury_role c = Some True) \<and>
        \<not> (r = ROLE_COMPLIANCE_APPROVER \<and> ec_compliance_approval c)}"
proof -
  obtain checks codes os where cc: "collected_checks p c (entry_checks p (pd_operation p)) = Inr ((checks, codes), os)"
    and fields: "dc_decision d = (if codes = [] then DECISION_ALLOW else DECISION_DENY)"
      "dc_reason_codes d = (if codes = [] then [POLICY_SATISFIED] else codes)"
      "dc_checks d = checks_in_order checks" "dc_required_approvals d = os"
    using d unfolding evaluate_policy_collect [OF active op] bind_result_Inr
    by (auto simp: Let_def final_decision_def)
  note facts = collected_checks_facts [OF cc entry_checks_facts(1)]
  have permit: "codes = [] \<longleftrightarrow> policy_permits p c"
    using facts(3) active op by (simp add: policy_permits_def)
  have "well_reported d 9 codes"
    by (rule well_reportedI [OF facts(1)])
      (use facts(2) [unfolded entry_checks_facts order_keys] fields in simp_all)
  then show "policy_permits p c \<Longrightarrow> dc_reason_codes d = [POLICY_SATISFIED] \<and> well_reported d 9 []"
    and "\<not> policy_permits p c \<Longrightarrow> dc_reason_codes d \<noteq> [] \<and> distinct (dc_reason_codes d) \<and>
      set (dc_reason_codes d) \<subseteq> set REASON_CODES - {POLICY_SATISFIED} \<and>
      well_reported d 9 (dc_reason_codes d)"
    using facts(1) permit fields by (auto simp: acc_inv_def)
  show "dc_decision d = (if policy_permits p c then DECISION_ALLOW else DECISION_DENY)"
    using fields permit by simp
  show "set (dc_required_approvals d) = {r \<in> set (pd_required_roles p).
        \<not> (r = ROLE_TREASURY_OPERATOR \<and> ec_operator_has_treasury_role c = Some True) \<and>
        \<not> (r = ROLE_COMPLIANCE_APPROVER \<and> ec_compliance_approval c)}"
    using facts(4) fields by simp
qed

section \<open>The daily cap\<close>

lemma as_decimal_PDec [simp]: "as_decimal (PDec d) = Some d"
  by (simp add: as_decimal_def)

lemma fd_val_zero [simp]: "fd_val (FinDec False 0 e) = 0"
  by (simp add: fd_val_def fd_int_def)

lemma daily_ok_cap:
  assumes "daily_ok p c" and "as_decimal (pd_maximum_daily_amount_usd p) = Some (Finite l)"
    and "as_decimal (ec_amount_usd c) = Some (Finite a)"
    and "as_decimal (ec_daily_total_usd c) = Some (Finite prior)"
    and "fd_exp l \<le> fd_exp prior" "fd_exp l \<le> fd_exp a"
    and "fd_coeff l < 10 ^ 28" and "0 \<le> fd_val l"
  shows "fd_val prior + fd_val a \<le> fd_val l"
proof -
  have "\<not> fd_less l (fd_add 28 prior a)" using assms(1-4) by (auto simp: daily_ok_def)
  from fd_add_cap [OF _ assms(5-8) this] show ?thesis by simp
qed

text \<open>An ALLOW is a request the policy permits.\<close>

lemma evaluate_policy_permits:
  assumes "evaluate_policy (Some p) c evaluation_id now fresh_id clock = Inr d" and "dc_is_allowed d"
  shows "policy_permits p c"
proof (cases "pd_status p = GP_STATUS_ACTIVE \<and>
    normalize_operation (opt_str (ec_operation c)) = Some (pd_operation p)")
  case True
  then show ?thesis
    using evaluate_policy_collected(1) [OF _ _ assms(1)] assms(2)
    by (auto simp: dc_is_allowed_def split: if_splits)
next
  case False
  with evaluate_policy_denied [of "Some p" c evaluation_id now fresh_id clock] assms
  show ?thesis by (auto simp: dc_is_allowed_def)
qed

lemma policy_permits_evaluates:
  assumes "policy_permits p c"
  shows "\<exists>d. evaluate_policy (Some p) c evaluation_id now fresh_id clock = Inr d \<and>
     dc_decision d = DECISION_ALLOW"
proof -
  have active: "pd_status p = GP_STATUS_ACTIVE"
    and op: "normalize_operation (opt_str (ec_operation c)) = Some (pd_operation p)"
    using assms by (auto simp: policy_permits_def)
  obtain r where "collected_checks p c (entry_checks p (pd_operation p)) = Inr r"
    using daily_ok_no_error assms unfolding policy_permits_def by blast
  then obtain d where d: "evaluate_policy (Some p) c evaluation_id now fresh_id clock = Inr d"
    unfolding evaluate_policy_collect [OF active op] by (auto simp: Let_def split_beta)
  with evaluate_policy_collected(1) [OF active op d] assms show ?thesis by simp
qed

lemma policy_allows_spec:
  assumes "evaluate_policy given c evaluation_id now fresh_id clock = Inr d"
  shows "dc_decision d = DECISION_ALLOW \<longleftrightarrow> (\<exists>p. given = Some p \<and> policy_permits p c)"
proof (cases given)
  case None
  then show ?thesis using assms by (auto simp: evaluate_policy_def Let_def terminal_fields)
next
  case (Some p)
  then show ?thesis
    using evaluate_policy_permits policy_permits_evaluates [of p c evaluation_id now fresh_id clock] assms
    by (auto simp: dc_is_allowed_def)
qed

section \<open>Properties\<close>

text \<open>
  C2. The engine decides exactly the policy. An evaluation returns ALLOW if and only if the
  policy is ACTIVE, governs the requested operation, and its event, settlement, window,
  daily-cap and role constraints all hold of the request.
\<close>

theorem policy_allows_iff:
  "(\<exists>d. evaluate_policy given c evaluation_id now fresh_id clock = Inr d \<and> dc_is_allowed d) \<longleftrightarrow>
     (\<exists>p. given = Some p \<and> policy_permits p c)"
proof
  assume "\<exists>d. evaluate_policy given c evaluation_id now fresh_id clock = Inr d \<and> dc_is_allowed d"
  then obtain d where d: "evaluate_policy given c evaluation_id now fresh_id clock = Inr d"
    and ok: "dc_is_allowed d" by blast
  show "\<exists>p. given = Some p \<and> policy_permits p c"
  proof (cases given)
    case None
    then show ?thesis using d ok by (auto simp: evaluate_policy_def Let_def terminal_fields dc_is_allowed_def)
  next
    case (Some p)
    then show ?thesis using evaluate_policy_permits d ok by blast
  qed
next
  assume "\<exists>p. given = Some p \<and> policy_permits p c"
  then show "\<exists>d. evaluate_policy given c evaluation_id now fresh_id clock = Inr d \<and> dc_is_allowed d"
    using policy_permits_evaluates unfolding dc_is_allowed_def by blast
qed

text \<open>
  A decision explains itself. Whatever is returned is an ALLOW carrying only
  POLICY_SATISFIED, no failed check and no outstanding role, or a DENY with at least one
  reason code, all different and known; the rendered checks are an initial segment of the
  display order (all nine after an ALLOW), and a check has status FAIL exactly when it
  names a reason, which is then one of the decision's.
\<close>

theorem decision_well_formed:
  assumes "evaluate_policy given c evaluation_id now fresh_id clock = Inr d"
  shows "(dc_decision d = DECISION_ALLOW \<and> dc_reason_codes d = [POLICY_SATISFIED] \<and>
            dc_required_approvals d = [] \<and> well_reported d 9 []) \<or>
         (dc_decision d = DECISION_DENY \<and> dc_reason_codes d \<noteq> [] \<and> distinct (dc_reason_codes d) \<and>
            set (dc_reason_codes d) \<subseteq> set REASON_CODES - {POLICY_SATISFIED} \<and>
            (\<exists>n\<in>{1, 2, 3, 9}. well_reported d n (dc_reason_codes d)))"
proof (cases "given = None \<or> (\<exists>p. given = Some p \<and> (pd_status p \<noteq> GP_STATUS_ACTIVE \<or>
       normalize_operation (opt_str (ec_operation c)) \<noteq> Some (pd_operation p)))")
  case True
  from evaluate_policy_denied [OF this, of evaluation_id now fresh_id clock] assms
  show ?thesis by (auto simp: length_Suc_conv)
next
  case False
  then obtain p where p: "given = Some p" and active: "pd_status p = GP_STATUS_ACTIVE"
    and op: "normalize_operation (opt_str (ec_operation c)) = Some (pd_operation p)"
    by (cases given) auto
  note facts = evaluate_policy_collected [OF active op assms [unfolded p]]
  show ?thesis
  proof (cases "policy_permits p c")
    case True
    then have "set (dc_required_approvals d) = {}"
      unfolding facts(4) by (auto simp: policy_permits_def roles_ok_def)
    with True facts(1,2) show ?thesis by simp
  next
    case False
    with facts(1,3) show ?thesis by simp
  qed
qed

definition sample_policy :: policy_definition where
  "sample_policy = \<lparr>pd_policy_id = ''p1'', pd_policy_key = ''POL-MINT-007'', pd_name = ''RWA Mint Policy'',
     pd_operation = OPERATION_MINT, pd_status = GP_STATUS_ACTIVE, pd_version = 3,
     pd_required_business_event = Some BUSINESS_EVENT_SUBSCRIPTION,
     pd_settlement_requirement = Some REQUIREMENT_CLEARED,
     pd_allowed_window_start_utc = Some ''08:00'', pd_allowed_window_end_utc = Some ''18:00'',
     pd_maximum_daily_amount_usd = PStr ''100.00'',
     pd_required_roles = [ROLE_TREASURY_OPERATOR, ROLE_COMPLIANCE_APPROVER],
     pd_violation_action = VIOLATION_ACTION_DENY\<rparr>"

definition sample_context :: evaluation_context where
  "sample_context = \<lparr>ec_operation = Some ''mint'', ec_amount_usd = PStr ''60.00'', ec_operator_id = Some ''u1'',
     ec_operator_has_treasury_role = Some True, ec_business_event = Some ''subscription'',
     ec_settlement_status = Some ''CLEARED'', ec_compliance_approval = True,
     ec_evaluated_at = Some (Aware 43200000000), ec_daily_total_usd = PStr ''0.00'',
     ec_asset_id = None, ec_incident_id = None, ec_canonical_event_id = None, ec_simulation = False\<rparr>"

lemma sample_facts:
  "normalize_operation (PStr ''mint'') = Some ''MINT''"
  "normalize_business_event (PStr ''SUBSCRIPTION'') = Some ''SUBSCRIPTION''"
  "normalize_business_event (PStr ''subscription'') = Some ''SUBSCRIPTION''"
  "normalize_settlement_requirement (PStr ''CLEARED'') = Some ''CLEARED''"
  "normalize_settlement (PStr ''CLEARED'') = Some ''CLEARED''"
  "parse_hhmm (Some ''08:00'') = Some 480" "parse_hhmm (Some ''18:00'') = Some 1080"
  "minutes_utc (Aware 43200000000) = 720"
  "as_decimal (PStr ''100.00'') = Some (Finite (FinDec False 10000 (-2)))"
  "as_decimal (PStr ''60.00'') = Some (Finite (FinDec False 6000 (-2)))"
  "as_decimal (PStr ''0.00'') = Some (Finite (FinDec False 0 (-2)))"
  by code_simp+

lemma sample_arith:
  "fd_add 28 (FinDec False 0 (-2)) (FinDec False 6000 (-2)) = FinDec False 6000 (-2)"
  "\<not> fd_less (FinDec False 6000 (-2)) (FinDec False 0 0)"
  "\<not> fd_less (FinDec False 10000 (-2)) (FinDec False 6000 (-2))"
  by code_simp+

lemma sample_permitted: "policy_permits sample_policy sample_context"
  by (simp add: policy_permits_def sample_policy_def sample_context_def event_ok_def settlement_ok_def
      window_ok_def daily_ok_def roles_ok_def sample_facts sample_arith dec_zero_def)

lemma sample_allowed:
  "\<exists>d. evaluate_policy (Some sample_policy) sample_context None None ''e1'' (Naive 0) = Inr d \<and>
     dc_decision d = DECISION_ALLOW"
  using policy_permits_evaluates [OF sample_permitted] by blast

theorem decision_well_formed_witness:
  "\<exists>d. evaluate_policy (Some sample_policy) sample_context None None ''e1'' (Naive 0) = Inr d \<and>
     dc_decision d = DECISION_ALLOW \<and> dc_required_approvals d = [] \<and> well_reported d 9 []"
proof -
  obtain d where d: "evaluate_policy (Some sample_policy) sample_context None None ''e1'' (Naive 0) = Inr d"
    and allow: "dc_decision d = DECISION_ALLOW" using sample_allowed by blast
  from decision_well_formed [OF d] d allow show ?thesis by auto
qed

section \<open>Where the arithmetic differs from the documentation\<close>

text \<open>
  The cap column is NUMERIC(38, 2), wider than the 28 digits of the default context. With
  a cap and a total of 29 digits one more dollar is rounded away and the check passes.
\<close>

lemma daily_cap_exceeded_by_rounding:
  "\<exists>p c. daily_ok p c \<and> as_decimal (pd_maximum_daily_amount_usd p) = Some (Finite (FinDec False (10 ^ 28) 0)) \<and>
     as_decimal (ec_daily_total_usd c) = Some (Finite (FinDec False (10 ^ 28) 0)) \<and>
     as_decimal (ec_amount_usd c) = Some (Finite (FinDec False 1 0)) \<and>
     fd_val (FinDec False (10 ^ 28) 0) < fd_val (FinDec False (10 ^ 28) 0) + fd_val (FinDec False 1 0)"
proof -
  let ?big = "FinDec False (10 ^ 28) 0"
  let ?p = "sample_policy\<lparr>pd_maximum_daily_amount_usd := PDec (Finite ?big)\<rparr>"
  let ?c = "sample_context\<lparr>ec_daily_total_usd := PDec (Finite ?big), ec_amount_usd := PDec (Finite (FinDec False 1 0))\<rparr>"
  have arith: "\<not> fd_less ?big (fd_add 28 ?big (FinDec False 1 0))"
    by (simp add: fd_less_def fd_add_def fd_exact_add_def fd_round_def fd_scaled_def fd_int_def
        half_even_div_def ndigits.simps Let_def)
  have pos: "\<not> fd_less (FinDec False 1 0) (FinDec False 0 0)" by code_simp
  have "fd_val (FinDec False 1 0) = 1" by (simp add: fd_val_def fd_int_def)
  with arith pos show ?thesis
    by (intro exI [of _ ?p] exI [of _ ?c]) (simp add: daily_ok_def dec_zero_def)
qed

text \<open>A capped policy raises on a NaN amount; the request is neither allowed nor denied.\<close>

lemma nan_amount_raises:
  assumes "pd_status p = GP_STATUS_ACTIVE"
    and "normalize_operation (opt_str (ec_operation c)) = Some (pd_operation p)"
    and "as_decimal (pd_maximum_daily_amount_usd p) = Some l"
    and "as_decimal (ec_amount_usd c) = Some (NotANumber b)"
  shows "evaluate_policy (Some p) c evaluation_id now fresh_id clock = Inl InvalidOperation"
  using assms by (simp add: evaluate_policy_collect collected_checks_def check_daily_limit_def)

text \<open>The window parser accepts what \<open>int()\<close> accepts, not only two digits.\<close>

lemma parse_hhmm_lenient: "parse_hhmm (Some ''+8:-0'') = Some 480" "parse_hhmm (Some ''8 :00'') = Some 480"
  by code_simp+

end
