(* ===== verification/Evidence_Merkle.thy ===== *)
theory Evidence_Merkle
  imports Py_Values "HOL-Library.Word" "HOL-Library.Multiset" "HOL-Library.List_Lexorder"
begin

text \<open>
  The Merkle tree over the artifacts of an evidence package,
  \<open>services/api/app/evidence_merkle.py\<close>. SHA-256 is the parameter \<open>H\<close> on byte strings;
  only the length of its digests is ever assumed. A path is encoded in UTF-8 as for its
  Latin-1 characters; Python's order of \<open>bytes\<close> is the lexicographic order of lists.
\<close>

type_synonym bytes = "8 word list"

type_synonym hash_fun = "bytes \<Rightarrow> bytes"

section \<open>Encodings\<close>

definition utf8_char :: "char \<Rightarrow> bytes" where
  "utf8_char c = (let n = of_char c :: nat in
     if n < 128 then [of_nat n] else [of_nat (192 + n div 64), of_nat (128 + n mod 64)])"

definition utf8 :: "string \<Rightarrow> bytes" where
  "utf8 s = concat (map utf8_char s)"

definition hex_digit :: "nat \<Rightarrow> char" where
  "hex_digit n = (if n < 10 then char_of (48 + n) else char_of (87 + n))"

definition bytes_hex :: "bytes \<Rightarrow> string" where
  "bytes_hex bs = concat (map (\<lambda>b. [hex_digit (unat b div 16), hex_digit (unat b mod 16)]) bs)"

definition is_hex :: "char \<Rightarrow> bool" where
  "is_hex c = (c \<in> set ''0123456789abcdef'')"

section \<open>Leaves and nodes\<close>

datatype merkle_error = MerkleConstructionError string "string option"

record merkle_leaf =
  ml_path :: string
  ml_sha256 :: string

record merkle_tree =
  mt_root :: "string option"
  mt_leaves :: "merkle_leaf list"

definition normalize_digest :: "string \<Rightarrow> string \<Rightarrow> merkle_error + string" where
  "normalize_digest v path = (let digest0 = py_lower (py_strip v);
       digest = (if starts_with ''sha256:'' digest0 then drop 7 digest0 else digest0)
     in if length digest \<noteq> 64 \<or> \<not> list_all is_hex digest
        then Inl (MerkleConstructionError ''invalid_digest'' (Some path)) else Inr digest)"

definition leaf_preimage :: "string \<Rightarrow> string \<Rightarrow> merkle_error + bytes" where
  "leaf_preimage path sha =
     (if path = [] then Inl (MerkleConstructionError ''empty_path'' None)
      else bind_result (normalize_digest sha path)
             (\<lambda>digest. Inr ([0] @ utf8 path @ [31] @ utf8 digest)))"

definition leaf_hash :: "hash_fun \<Rightarrow> string \<Rightarrow> string \<Rightarrow> merkle_error + bytes" where
  "leaf_hash H path sha = bind_result (leaf_preimage path sha) (\<lambda>p. Inr (H p))"

definition node_hash :: "hash_fun \<Rightarrow> bytes \<Rightarrow> bytes \<Rightarrow> bytes" where
  "node_hash H left right = H ([1] @ left @ right)"

text \<open>The validation loop, with the paths seen and the leaves built so far.\<close>

fun validate_entries ::
  "(string \<times> string) list \<Rightarrow> string list \<Rightarrow> merkle_leaf list \<Rightarrow> merkle_error + merkle_leaf list" where
  "validate_entries [] seen leaves = Inr leaves"
| "validate_entries ((path, raw) # es) seen leaves =
     (if path = [] then Inl (MerkleConstructionError ''empty_path'' None)
      else if path \<in> set seen then Inl (MerkleConstructionError ''duplicate_path'' (Some path))
      else bind_result (normalize_digest raw path)
             (\<lambda>d. validate_entries es (seen @ [path]) (leaves @ [\<lparr>ml_path = path, ml_sha256 = d\<rparr>])))"

definition canonical_leaves :: "(string \<times> string) list \<Rightarrow> merkle_error + merkle_leaf list" where
  "canonical_leaves entries = bind_result (validate_entries entries [] [])
     (\<lambda>leaves. Inr (sort_key (\<lambda>leaf. utf8 (ml_path leaf)) leaves))"

section \<open>The tree\<close>

text \<open>One level: neighbours are hashed, an odd tail is promoted.\<close>

fun next_level :: "hash_fun \<Rightarrow> bytes list \<Rightarrow> bytes list" where
  "next_level H (a # b # level) = node_hash H a b # next_level H level"
| "next_level H level = level"

lemma length_next_level: "length (next_level H level) = (length level + 1) div 2"
  by (induction H level rule: next_level.induct) auto

function reduce_level :: "hash_fun \<Rightarrow> bytes list \<Rightarrow> bytes list" where
  "reduce_level H level = (if length level \<le> 1 then level else reduce_level H (next_level H level))"
  by auto
termination
  by (relation "measure (\<lambda>(H, level). length level)") (auto simp: length_next_level)

declare reduce_level.simps [simp del]

fun leaf_hashes :: "hash_fun \<Rightarrow> merkle_leaf list \<Rightarrow> merkle_error + bytes list" where
  "leaf_hashes H [] = Inr []"
| "leaf_hashes H (leaf # leaves) =
     bind_result (leaf_hash H (ml_path leaf) (ml_sha256 leaf))
       (\<lambda>h. bind_result (leaf_hashes H leaves) (\<lambda>hs. Inr (h # hs)))"

definition build_merkle_tree :: "hash_fun \<Rightarrow> (string \<times> string) list \<Rightarrow> merkle_error + merkle_tree" where
  "build_merkle_tree H entries =
     bind_result (canonical_leaves entries) (\<lambda>leaves.
       if leaves = [] then Inr \<lparr>mt_root = None, mt_leaves = []\<rparr>
       else bind_result (leaf_hashes H leaves) (\<lambda>level.
         Inr \<lparr>mt_root = Some (bytes_hex (hd (reduce_level H level))), mt_leaves = leaves\<rparr>))"

definition compute_merkle_root :: "hash_fun \<Rightarrow> (string \<times> string) list \<Rightarrow> merkle_error + string option" where
  "compute_merkle_root H entries = bind_result (build_merkle_tree H entries) (\<lambda>t. Inr (mt_root t))"

section \<open>Manifests\<close>

text \<open>An entry of the manifest's \<open>files\<close>: not a dictionary, or its \<open>path\<close> and \<open>sha256\<close>.\<close>

datatype manifest_file = NotADict | FileEntry pyval pyval

fun manifest_file_entries :: "manifest_file list \<Rightarrow> merkle_error + (string \<times> string) list" where
  "manifest_file_entries [] = Inr []"
| "manifest_file_entries (NotADict # files) = Inl (MerkleConstructionError ''invalid_digest'' None)"
| "manifest_file_entries (FileEntry p d # files) =
     bind_result (manifest_file_entries files) (\<lambda>es. Inr ((text_of p, text_of d) # es))"

text \<open>\<open>None\<close> when the manifest is no dictionary or its \<open>files\<close> no list.\<close>

definition merkle_root_for_manifest ::
  "hash_fun \<Rightarrow> manifest_file list option \<Rightarrow> merkle_error + string option" where
  "merkle_root_for_manifest H files =
     (case files of
        None \<Rightarrow> Inr None
      | Some [] \<Rightarrow> Inr None
      | Some fs \<Rightarrow> bind_result (manifest_file_entries fs) (compute_merkle_root H))"

section \<open>Lemmas on encodings\<close>

lemma of_nat_byte_eq: "m < 256 \<Longrightarrow> n < 256 \<Longrightarrow> (of_nat m :: 8 word) = of_nat n \<longleftrightarrow> m = n"
  by (simp add: word_of_nat_eq_iff take_bit_nat_eq_self)

lemma char_nat_less: "(of_char c :: nat) < 256"
  by simp

lemma char_nat_eq: "(of_char c :: nat) = of_char d \<longleftrightarrow> c = d"
  by simp

text \<open>The encoding of one character can be read off the front of a text.\<close>

lemma utf8_char_cancel:
  "utf8_char c @ xs = utf8_char d @ ys \<longleftrightarrow> c = d \<and> xs = ys"
proof -
  define m where "m = (of_char c :: nat)"
  define n where "n = (of_char d :: nat)"
  have lt: "m < 256" "n < 256" by (simp_all add: m_def n_def)
  have eq: "c = d \<longleftrightarrow> m = n" by (simp add: m_def n_def)
  have split: "m = n \<longleftrightarrow> m div 64 = n div 64 \<and> m mod 64 = n mod 64"
    by (metis div_mult_mod_eq)
  have bounds: "m div 64 < 4" "n div 64 < 4" using lt by auto
  have hi: "192 + m div 64 < 256" "192 + n div 64 < 256" "128 + m mod 64 < 256" "128 + n mod 64 < 256"
    using bounds by (auto intro: less_trans [of _ "128 + 64"])
  have "(if m < 128 then [of_nat m] else [of_nat (192 + m div 64), of_nat (128 + m mod 64)]) @ xs =
      (if n < 128 then [of_nat n] else [of_nat (192 + n div 64), of_nat (128 + n mod 64)]) @ ys
      \<longleftrightarrow> m = n \<and> xs = (ys :: bytes)"
  proof (cases "m < 128"; cases "n < 128")
    assume "\<not> m < 128" "\<not> n < 128"
    then show ?thesis using hi by (simp add: of_nat_byte_eq split)
  qed (use lt hi in \<open>auto simp: of_nat_byte_eq simp del: of_nat_add\<close>)
  then show ?thesis
    unfolding utf8_char_def Let_def m_def [symmetric] n_def [symmetric] eq .
qed

lemma utf8_Nil [simp]: "utf8 [] = []" and utf8_Cons [simp]: "utf8 (c # s) = utf8_char c @ utf8 s"
  by (simp_all add: utf8_def)

lemma utf8_char_not_Nil [simp]: "utf8_char c \<noteq> []"
  by (simp add: utf8_char_def Let_def)

lemma utf8_inj: "utf8 s = utf8 t \<longleftrightarrow> s = t"
proof (induction s arbitrary: t)
  case Nil
  then show ?case by (cases t) auto
next
  case (Cons c s)
  then show ?case by (cases t) (auto simp: utf8_char_cancel)
qed

lemma is_hex_ascii: "is_hex c \<Longrightarrow> (of_char c :: nat) < 128"
  by (auto simp: is_hex_def)

lemma length_utf8_hex: "list_all is_hex s \<Longrightarrow> length (utf8 s) = length s"
  by (induction s) (auto simp: utf8_char_def Let_def is_hex_ascii)

section \<open>Lemmas on the entries\<close>

text \<open>A digest after stripping, lower-casing and dropping its algorithm name.\<close>

definition digest_of :: "string \<Rightarrow> string" where
  "digest_of v = (let d = py_lower (py_strip v) in if starts_with ''sha256:'' d then drop 7 d else d)"

definition valid_digest :: "string \<Rightarrow> bool" where
  "valid_digest v \<longleftrightarrow> length (digest_of v) = 64 \<and> list_all is_hex (digest_of v)"

definition leaf_of :: "string \<times> string \<Rightarrow> merkle_leaf" where
  "leaf_of e = \<lparr>ml_path = fst e, ml_sha256 = digest_of (snd e)\<rparr>"

definition leaf_bytes :: "merkle_leaf \<Rightarrow> bytes" where
  "leaf_bytes leaf = [0] @ utf8 (ml_path leaf) @ [31] @ utf8 (ml_sha256 leaf)"

definition leaf_key :: "merkle_leaf \<Rightarrow> bytes" where
  "leaf_key leaf = utf8 (ml_path leaf)"

definition entries_ok :: "(string \<times> string) list \<Rightarrow> bool" where
  "entries_ok es \<longleftrightarrow> [] \<notin> set (map fst es) \<and> distinct (map fst es) \<and> list_all (\<lambda>e. valid_digest (snd e)) es"

lemma normalize_digest_eq:
  "normalize_digest v path = (if valid_digest v then Inr (digest_of v)
     else Inl (MerkleConstructionError ''invalid_digest'' (Some path)))"
  by (simp add: normalize_digest_def valid_digest_def digest_of_def Let_def)

lemma validate_entries_iff:
  "validate_entries es seen leaves = Inr r \<longleftrightarrow>
     entries_ok es \<and> set (map fst es) \<inter> set seen = {} \<and> r = leaves @ map leaf_of es"
proof (induction es seen leaves rule: validate_entries.induct)
  case (1 seen leaves)
  then show ?case by (auto simp: entries_ok_def)
next
  case (2 path raw es seen leaves)
  show ?case
  proof (cases "path = [] \<or> path \<in> set seen \<or> \<not> valid_digest raw")
    case True
    then show ?thesis by (auto simp: entries_ok_def normalize_digest_eq bind_result_def)
  next
    case False
    then have "normalize_digest raw path = Inr (digest_of raw)" by (simp add: normalize_digest_eq)
    with False 2 show ?thesis
      by (auto simp: entries_ok_def leaf_of_def)
  qed
qed

lemma canonical_leaves_iff:
  "canonical_leaves es = Inr ls \<longleftrightarrow> entries_ok es \<and> ls = sort_key leaf_key (map leaf_of es)"
  by (auto simp: canonical_leaves_def bind_result_Inr validate_entries_iff leaf_key_def [abs_def])

lemma hex_not_special: "is_hex c \<Longrightarrow> \<not> py_space c \<and> lower_char c = c \<and> c \<noteq> CHR ''s''"
proof -
  assume "is_hex c"
  then have "c \<in> set ''0123456789abcdef''" by (simp add: is_hex_def)
  moreover have "list_all (\<lambda>c. \<not> py_space c \<and> lower_char c = c \<and> c \<noteq> CHR ''s'') ''0123456789abcdef''"
    by code_simp
  ultimately show ?thesis by (auto simp only: list_all_iff)
qed

lemma hex_digest_normal:
  assumes "length s = 64" and "list_all is_hex s"
  shows "digest_of s = s" and "valid_digest s"
proof -
  have hex: "\<And>c. c \<in> set s \<Longrightarrow> is_hex c" using assms(2) by (simp add: list_all_iff)
  have ne: "s \<noteq> []" using assms(1) by auto
  then have "py_strip s = s"
    using hex hex_not_special by (intro py_strip_id) (auto simp: hd_in_set last_in_set)
  moreover have "py_lower s = s"
    unfolding py_lower_def using hex hex_not_special by (intro map_idI) auto
  moreover have "\<not> starts_with ''sha256:'' s"
    using hex [of "hd s"] hex_not_special [of "hd s"] ne by (cases s) (auto simp: starts_with_def)
  ultimately show "digest_of s = s" by (simp add: digest_of_def)
  with assms show "valid_digest s" by (simp add: valid_digest_def)
qed

lemma valid_leaf_hash:
  "ml_path leaf \<noteq> [] \<Longrightarrow> length (ml_sha256 leaf) = 64 \<Longrightarrow> list_all is_hex (ml_sha256 leaf) \<Longrightarrow>
     leaf_hash H (ml_path leaf) (ml_sha256 leaf) = Inr (H (leaf_bytes leaf))"
  by (simp add: leaf_hash_def leaf_preimage_def normalize_digest_eq hex_digest_normal leaf_bytes_def)

definition leaf_ok :: "merkle_leaf \<Rightarrow> bool" where
  "leaf_ok leaf \<longleftrightarrow> ml_path leaf \<noteq> [] \<and> length (ml_sha256 leaf) = 64 \<and> list_all is_hex (ml_sha256 leaf)"

lemma leaf_hashes_ok:
  "list_all leaf_ok ls \<Longrightarrow> leaf_hashes H ls = Inr (map (\<lambda>l. H (leaf_bytes l)) ls)"
  by (induction ls) (auto simp: leaf_ok_def valid_leaf_hash)

lemma entries_leaves_ok: "entries_ok es \<Longrightarrow> list_all leaf_ok (map leaf_of es)"
  by (force simp: entries_ok_def leaf_ok_def leaf_of_def list_all_iff valid_digest_def)

text \<open>The root of a valid set of entries, written out.\<close>

definition leaf_level :: "hash_fun \<Rightarrow> (string \<times> string) list \<Rightarrow> bytes list" where
  "leaf_level H es = map (\<lambda>l. H (leaf_bytes l)) (sort_key leaf_key (map leaf_of es))"

lemma compute_merkle_root_iff:
  "compute_merkle_root H es = Inr r \<longleftrightarrow>
     entries_ok es \<and> r = (if es = [] then None else Some (bytes_hex (hd (reduce_level H (leaf_level H es)))))"
proof (cases "entries_ok es")
  case True
  then have "list_all leaf_ok (sort_key leaf_key (map leaf_of es))"
    using entries_leaves_ok [OF True] by (simp add: list_all_iff)
  then have h: "leaf_hashes H (sort_key leaf_key (map leaf_of es)) = Inr (leaf_level H es)"
    by (simp add: leaf_hashes_ok leaf_level_def)
  have "sort_key leaf_key (map leaf_of es) = [] \<longleftrightarrow> es = []"
    by (metis map_is_Nil_conv set_empty set_sort)
  with True h show ?thesis
    by (auto simp: compute_merkle_root_def build_merkle_tree_def bind_result_Inr canonical_leaves_iff)
next
  case False
  then show ?thesis
    by (auto simp: compute_merkle_root_def build_merkle_tree_def bind_result_Inr canonical_leaves_iff)
qed

lemma inj_leaf_key: "entries_ok es \<Longrightarrow> inj_on leaf_key (leaf_of ` set es)"
  by (auto simp: inj_on_def leaf_key_def leaf_of_def utf8_inj entries_ok_def distinct_map)

lemma sort_key_perm:
  assumes "mset xs = mset ys" and "inj_on f (set xs)"
  shows "sort_key f xs = sort_key f ys"
proof (rule map_inj_on)
  have "mset (map f (sort_key f xs)) = mset (map f (sort_key f ys))"
    using assms(1) by simp
  then have "sort (map f (sort_key f xs)) = map f (sort_key f ys)"
    by (intro properties_for_sort) auto
  then show "map f (sort_key f xs) = map f (sort_key f ys)"
    by (simp add: sorted_sort_id)
  have "set ys = set xs" using assms(1) by (metis set_mset_mset)
  then show "inj_on f (set (sort_key f xs) \<union> set (sort_key f ys))"
    using assms(2) by simp
qed

section \<open>Symbolic trees\<close>

text \<open>
  The tree the levels describe, its digest under \<open>H\<close>, and the byte strings hashed for it.
\<close>

datatype mtree = MLeaf bytes | MNode mtree mtree

fun digest :: "hash_fun \<Rightarrow> mtree \<Rightarrow> bytes" where
  "digest H (MLeaf p) = H p"
| "digest H (MNode l r) = node_hash H (digest H l) (digest H r)"

fun hashed :: "hash_fun \<Rightarrow> mtree \<Rightarrow> bytes list" where
  "hashed H (MLeaf p) = [p]"
| "hashed H (MNode l r) = ([1] @ digest H l @ digest H r) # hashed H l @ hashed H r"

fun fringe :: "mtree \<Rightarrow> bytes list" where
  "fringe (MLeaf p) = [p]"
| "fringe (MNode l r) = fringe l @ fringe r"

fun next_trees :: "mtree list \<Rightarrow> mtree list" where
  "next_trees (a # b # ts) = MNode a b # next_trees ts"
| "next_trees ts = ts"

lemma length_next_trees: "length (next_trees ts) = (length ts + 1) div 2"
  by (induction ts rule: next_trees.induct) auto

function reduce_trees :: "mtree list \<Rightarrow> mtree list" where
  "reduce_trees ts = (if length ts \<le> 1 then ts else reduce_trees (next_trees ts))"
  by auto
termination
  by (relation "measure length") (auto simp: length_next_trees)

declare reduce_trees.simps [simp del]

lemma next_trees_level: "map (digest H) (next_trees ts) = next_level H (map (digest H) ts)"
  by (induction ts rule: next_trees.induct) auto

lemma reduce_trees_level: "map (digest H) (reduce_trees ts) = reduce_level H (map (digest H) ts)"
proof (induction ts rule: reduce_trees.induct)
  case (1 ts)
  then show ?case
    by (subst reduce_trees.simps, subst reduce_level.simps) (simp add: next_trees_level)
qed

lemma next_trees_fringe: "concat (map fringe (next_trees ts)) = concat (map fringe ts)"
  by (induction ts rule: next_trees.induct) auto

lemma reduce_trees_fringe: "concat (map fringe (reduce_trees ts)) = concat (map fringe ts)"
proof (induction ts rule: reduce_trees.induct)
  case (1 ts)
  then show ?case by (subst reduce_trees.simps) (simp add: next_trees_fringe)
qed

lemma reduce_trees_single: "ts \<noteq> [] \<Longrightarrow> \<exists>t. reduce_trees ts = [t]"
proof (induction ts rule: reduce_trees.induct)
  case (1 ts)
  show ?case
  proof (cases "length ts \<le> 1")
    case True
    with "1.prems" show ?thesis by (subst reduce_trees.simps) (cases ts, auto)
  next
    case False
    then have "next_trees ts \<noteq> []" by (cases ts rule: next_trees.cases) auto
    with False "1.IH" show ?thesis by (subst reduce_trees.simps) auto
  qed
qed

text \<open>The inputs of \<open>H\<close> when the levels above the leaves are computed.\<close>

fun level_inputs :: "bytes list \<Rightarrow> bytes list" where
  "level_inputs (a # b # level) = ([1] @ a @ b) # level_inputs level"
| "level_inputs level = []"

function tree_inputs :: "hash_fun \<Rightarrow> bytes list \<Rightarrow> bytes list" where
  "tree_inputs H level =
     (if length level \<le> 1 then [] else level_inputs level @ tree_inputs H (next_level H level))"
  by auto
termination
  by (relation "measure (\<lambda>(H, level). length level)") (auto simp: length_next_level)

declare tree_inputs.simps [simp del]

definition hashed_inputs :: "hash_fun \<Rightarrow> (string \<times> string) list \<Rightarrow> bytes list" where
  "hashed_inputs H es = map leaf_bytes (sort_key leaf_key (map leaf_of es)) @ tree_inputs H (leaf_level H es)"

lemma next_trees_hashed:
  "set (concat (map (hashed H) (next_trees ts))) =
     set (level_inputs (map (digest H) ts)) \<union> set (concat (map (hashed H) ts))"
  by (induction ts rule: next_trees.induct) auto

lemma reduce_trees_hashed:
  "set (concat (map (hashed H) (reduce_trees ts))) =
     set (tree_inputs H (map (digest H) ts)) \<union> set (concat (map (hashed H) ts))"
proof (induction ts rule: reduce_trees.induct)
  case (1 ts)
  show ?case
  proof (cases "length ts \<le> 1")
    case True
    then show ?thesis by (subst reduce_trees.simps, subst tree_inputs.simps) simp
  next
    case False
    have "set (concat (map (hashed H) (reduce_trees (next_trees ts)))) =
        set (tree_inputs H (next_level H (map (digest H) ts))) \<union>
        (set (level_inputs (map (digest H) ts)) \<union> set (concat (map (hashed H) ts)))"
      using "1.IH" [OF False] next_trees_hashed [of H ts] by (simp only: next_trees_level)
    with False show ?thesis
      by (subst reduce_trees.simps, subst tree_inputs.simps) (simp only: length_map if_False set_append Un_ac)
  qed
qed

text \<open>
  Two trees with one digest are equal, or two different strings hashed for them collide.
  Leaf inputs start with the byte 0 and node inputs with 1.
\<close>

definition collision :: "hash_fun \<Rightarrow> bytes list \<Rightarrow> bytes list \<Rightarrow> bool" where
  "collision H xs ys = list_ex (\<lambda>x. list_ex (\<lambda>y. x \<noteq> y \<and> H x = H y) ys) xs"

lemma collisionI: "x \<in> set xs \<Longrightarrow> y \<in> set ys \<Longrightarrow> x \<noteq> y \<Longrightarrow> H x = H y \<Longrightarrow> collision H xs ys"
  by (auto simp: collision_def list_ex_iff)

lemma collision_mono:
  "collision H xs ys \<Longrightarrow> set xs \<subseteq> set xs' \<Longrightarrow> set ys \<subseteq> set ys' \<Longrightarrow> collision H xs' ys'"
  unfolding collision_def list_ex_iff by blast

lemma digest_binding:
  assumes len: "\<And>x. length (H x) = 32"
    and leaves: "\<forall>p \<in> set (fringe t). p \<noteq> [] \<and> hd p = 0" "\<forall>p \<in> set (fringe u). p \<noteq> [] \<and> hd p = 0"
    and eq: "digest H t = digest H u"
  shows "t = u \<or> collision H (hashed H t) (hashed H u)"
  using leaves eq
proof (induction t arbitrary: u)
  case (MLeaf p)
  show ?case
  proof (cases u)
    case (MLeaf q)
    then show ?thesis using MLeaf.prems by (auto simp: collision_def)
  next
    case (MNode l r)
    have "p \<noteq> [1] @ digest H l @ digest H r" using MLeaf.prems(1) by auto
    then show ?thesis using MLeaf.prems MNode by (auto simp: collision_def node_hash_def)
  qed
next
  case (MNode l r)
  show ?case
  proof (cases u)
    case (MLeaf q)
    have "[1] @ digest H l @ digest H r \<noteq> q" using MNode.prems(2) MLeaf by auto
    then show ?thesis using MNode.prems MLeaf by (auto simp: collision_def node_hash_def)
  next
    case u: (MNode l' r')
    let ?x = "[1] @ digest H l @ digest H r" and ?y = "[1] @ digest H l' @ digest H r'"
    show ?thesis
    proof (cases "?x = ?y")
      case False
      then have "collision H (hashed H (MNode l r)) (hashed H u)"
        using MNode.prems(3) u by (intro collisionI [of ?x _ ?y]) (auto simp: node_hash_def)
      then show ?thesis ..
    next
      case True
      have "length (digest H l) = length (digest H l')"
        by (cases l; cases l') (simp_all add: len node_hash_def)
      with True have d: "digest H l = digest H l'" "digest H r = digest H r'" by auto
      have "l = l' \<or> collision H (hashed H l) (hashed H l')"
        by (rule MNode.IH(1)) (use MNode.prems u d in auto)
      moreover have "r = r' \<or> collision H (hashed H r) (hashed H r')"
        by (rule MNode.IH(2)) (use MNode.prems u d in auto)
      ultimately show ?thesis
        using u collision_mono [of H "hashed H l" "hashed H l'" "hashed H (MNode l r)" "hashed H u"]
          collision_mono [of H "hashed H r" "hashed H r'" "hashed H (MNode l r)" "hashed H u"]
        by auto
    qed
  qed
qed

lemma leaf_bytes_inj:
  assumes "leaf_ok a" and "leaf_ok b" and "leaf_bytes a = leaf_bytes b"
  shows "a = b"
proof -
  have "length (utf8 (ml_sha256 a)) = 64" "length (utf8 (ml_sha256 b)) = 64"
    using assms(1,2) by (simp_all add: leaf_ok_def length_utf8_hex)
  moreover have "utf8 (ml_path a) @ (31 # utf8 (ml_sha256 a)) = utf8 (ml_path b) @ (31 # utf8 (ml_sha256 b))"
    using assms(3) by (simp add: leaf_bytes_def)
  ultimately have "utf8 (ml_path a) = utf8 (ml_path b) \<and> utf8 (ml_sha256 a) = utf8 (ml_sha256 b)"
    by (subst (asm) append_eq_append_conv) auto
  then show ?thesis by (simp add: utf8_inj)
qed

text \<open>Hexadecimal texts of digests are read back.\<close>

lemma hex_digit_inj: "m < 16 \<Longrightarrow> n < 16 \<Longrightarrow> hex_digit m = hex_digit n \<longleftrightarrow> m = n"
proof -
  assume "m < 16" "n < 16"
  moreover have "distinct (map hex_digit [0..<16])" by code_simp
  then have "inj_on hex_digit {0..<16}" by (simp add: distinct_map)
  ultimately show ?thesis by (auto simp: inj_on_def)
qed

lemma bytes_hex_inj: "bytes_hex xs = bytes_hex ys \<longleftrightarrow> xs = ys"
proof (induction xs arbitrary: ys)
  case Nil
  then show ?case by (cases ys) (auto simp: bytes_hex_def)
next
  case (Cons x xs)
  show ?case
  proof (cases ys)
    case (Cons y ys')
    have "unat x < 2 ^ LENGTH(8)" "unat y < 2 ^ LENGTH(8)" by (rule unsigned_less)+
    then have lt: "unat x div 16 < 16" "unat y div 16 < 16" by auto
    have "unat x = unat y \<longleftrightarrow> unat x div 16 = unat y div 16 \<and> unat x mod 16 = unat y mod 16"
      by (metis div_mult_mod_eq)
    with lt Cons.IH [of ys'] Cons show ?thesis
      by (auto simp: bytes_hex_def hex_digit_inj word_unat_eq_iff)
  qed (simp add: bytes_hex_def)
qed

text \<open>The hexadecimal text of 32 bytes is a valid digest.\<close>

lemma hex_digit_cases: "n < 16 \<Longrightarrow> is_hex (hex_digit n) \<and> \<not> py_space (hex_digit n) \<and> lower_char (hex_digit n) = hex_digit n \<and> hex_digit n \<noteq> CHR ''s''"
proof -
  have "list_all (\<lambda>n. is_hex (hex_digit n) \<and> \<not> py_space (hex_digit n) \<and> lower_char (hex_digit n) = hex_digit n \<and> hex_digit n \<noteq> CHR ''s'') [0..<16]"
    by code_simp
  then show "n < 16 \<Longrightarrow> ?thesis" by (simp add: list_all_iff)
qed

lemma bytes_hex_chars:
  "c \<in> set (bytes_hex b) \<Longrightarrow> is_hex c \<and> \<not> py_space c \<and> lower_char c = c \<and> c \<noteq> CHR ''s''"
proof -
  assume "c \<in> set (bytes_hex b)"
  then obtain x where "c = hex_digit (unat x div 16) \<or> c = hex_digit (unat (x :: 8 word) mod 16)"
    by (auto simp: bytes_hex_def)
  moreover have "unat x < 2 ^ LENGTH(8)" by (rule unsigned_less)
  then have "unat x div 16 < 16" by simp
  moreover have "unat x mod 16 < 16" by simp
  ultimately show ?thesis using hex_digit_cases by metis
qed

lemma length_bytes_hex [simp]: "length (bytes_hex b) = 2 * length b"
  by (induction b) (simp_all add: bytes_hex_def)

lemma valid_digest_hex: "length b = 32 \<Longrightarrow> valid_digest (bytes_hex b)"
proof -
  assume len: "length b = 32"
  let ?h = "bytes_hex b"
  have ne: "?h \<noteq> []" using len length_bytes_hex [of b] by force
  have "py_strip ?h = ?h" using ne bytes_hex_chars by (intro py_strip_id) (metis hd_in_set last_in_set)
  moreover have "py_lower ?h = ?h" unfolding py_lower_def using bytes_hex_chars by (intro map_idI) blast
  moreover have "\<not> starts_with ''sha256:'' ?h"
    using ne bytes_hex_chars [of "hd ?h" b] by (cases ?h) (auto simp: starts_with_def)
  ultimately have "digest_of ?h = ?h" by (simp add: digest_of_def Let_def)
  then show ?thesis using len bytes_hex_chars by (auto simp: valid_digest_def list_all_iff)
qed
section \<open>Properties\<close>

text \<open>
  C13. Defined exactly on well-formed packages. A root is computed exactly when every path
  is non-empty, no path occurs twice and every digest is the text of a SHA-256 value; the
  root is \<open>None\<close> exactly for the empty package. Every other input fails closed.
\<close>

theorem merkle_root_defined_iff:
  "(\<exists>r. compute_merkle_root H es = Inr r \<and> (r = None \<longleftrightarrow> es = [])) \<longleftrightarrow>
     [] \<notin> set (map fst es) \<and> distinct (map fst es) \<and> list_all (\<lambda>e. valid_digest (snd e)) es"
  unfolding compute_merkle_root_iff entries_ok_def by auto

text \<open>
  The root is a function of the artifact set. Listing the entries in another order
  gives the same root, or the refusal of both listings.
\<close>

theorem merkle_root_order_free:
  assumes "mset es = mset es'"
  shows "compute_merkle_root H es = Inr r \<longleftrightarrow> compute_merkle_root H es' = Inr r"
proof -
  have ok: "entries_ok es \<longleftrightarrow> entries_ok es'"
    using assms unfolding entries_ok_def
    by (metis (no_types, lifting) distinct_count_atmost_1 list_all_iff mset_map set_mset_mset)
  have empty: "es = [] \<longleftrightarrow> es' = []"
    using assms by (metis mset_zero_iff)
  have "leaf_level H es = leaf_level H es'" if "entries_ok es"
    using sort_key_perm [of "map leaf_of es" "map leaf_of es'" leaf_key] assms inj_leaf_key [OF that]
    by (simp add: leaf_level_def)
  with ok empty show ?thesis unfolding compute_merkle_root_iff by auto
qed

definition sample_entries :: "(string \<times> string) list" where
  "sample_entries = [(''b.json'', bytes_hex (replicate 32 170)), (''a.json'', bytes_hex (replicate 32 7))]"

definition sample_hash :: hash_fun where
  "sample_hash bs = take 32 (bs @ replicate 32 0)"

lemma sample_entries_ok: "entries_ok sample_entries" "entries_ok (rev sample_entries)"
  by (simp_all add: sample_entries_def entries_ok_def valid_digest_hex)

theorem merkle_root_order_free_witness:
  "\<exists>r. compute_merkle_root sample_hash sample_entries = Inr r \<and>
     compute_merkle_root sample_hash (rev sample_entries) = Inr r"
proof -
  obtain r where r: "compute_merkle_root sample_hash sample_entries = Inr r"
    using sample_entries_ok(1) unfolding compute_merkle_root_iff by blast
  then have "compute_merkle_root sample_hash (rev sample_entries) = Inr r"
    using merkle_root_order_free [of sample_entries "rev sample_entries" sample_hash r] by simp
  with r show ?thesis by blast
qed

text \<open>
  C10. The root binds the package. When two packages have the same root, under a hash of 32
  bytes, either they hold the same paths with the same digests, or two different strings
  among those hashed while building the two trees have the same hash: changing, adding or
  removing an artifact needs a collision of the hash function, and the leaf and node
  domains cannot be confused.
\<close>

theorem merkle_root_binding:
  assumes len: "\<And>x. length (H x) = 32"
    and r: "compute_merkle_root H es = Inr (Some r)" "compute_merkle_root H es' = Inr (Some r)"
  shows "mset (map leaf_of es) = mset (map leaf_of es') \<or> collision H (hashed_inputs H es) (hashed_inputs H es')"
proof -
  let ?ls = "\<lambda>es. sort_key leaf_key (map leaf_of es)"
  let ?ts = "\<lambda>es. map (\<lambda>l. MLeaf (leaf_bytes l)) (?ls es)"
  have ok: "entries_ok es" "entries_ok es'" and ne: "es \<noteq> []" "es' \<noteq> []"
    using r unfolding compute_merkle_root_iff by (auto split: if_splits)
  have level: "map (digest H) (?ts es) = leaf_level H es" for es
    by (simp add: leaf_level_def o_def)
  have tree: "\<exists>t. bytes_hex (digest H t) = bytes_hex (hd (reduce_level H (leaf_level H es))) \<and>
      fringe t = map leaf_bytes (?ls es) \<and> set (hashed H t) \<subseteq> set (hashed_inputs H es)"
    if "es \<noteq> []" for es
  proof -
    have "?ts es \<noteq> []" using that by (metis map_is_Nil_conv set_empty set_sort)
    then obtain t where t: "reduce_trees (?ts es) = [t]" using reduce_trees_single by blast
    have "[digest H t] = reduce_level H (leaf_level H es)"
      using reduce_trees_level [of H "?ts es"] unfolding t level by simp
    then have "digest H t = hd (reduce_level H (leaf_level H es))" by (metis list.sel(1))
    moreover have "fringe t = map leaf_bytes (?ls es)"
      using reduce_trees_fringe [of "?ts es"] unfolding t by (simp add: o_def)
    moreover have "set (hashed H t) = set (hashed_inputs H es)"
      using reduce_trees_hashed [of H "?ts es"] unfolding t level hashed_inputs_def by (auto simp: o_def)
    ultimately show ?thesis by (intro exI [of _ t]) simp
  qed
  have root: "bytes_hex (hd (reduce_level H (leaf_level H es))) = r"
      "bytes_hex (hd (reduce_level H (leaf_level H es'))) = r"
    using r ne unfolding compute_merkle_root_iff by simp_all
  obtain t where t: "bytes_hex (digest H t) = r" "fringe t = map leaf_bytes (?ls es)"
      "set (hashed H t) \<subseteq> set (hashed_inputs H es)"
    using tree [OF ne(1)] unfolding root by blast
  obtain u where u: "bytes_hex (digest H u) = r" "fringe u = map leaf_bytes (?ls es')"
      "set (hashed H u) \<subseteq> set (hashed_inputs H es')"
    using tree [OF ne(2)] unfolding root by blast
  have eq: "digest H t = digest H u" using t(1) u(1) by (metis bytes_hex_inj)
  have zero: "\<forall>p \<in> set (fringe t). p \<noteq> [] \<and> hd p = 0" "\<forall>p \<in> set (fringe u). p \<noteq> [] \<and> hd p = 0"
    unfolding t(2) u(2) by (auto simp: leaf_bytes_def)
  consider "t = u" | "collision H (hashed H t) (hashed H u)"
    using digest_binding [OF len zero eq] by auto
  then show ?thesis
  proof cases
    case 1
    have "inj_on leaf_bytes (set (?ls es) \<union> set (?ls es'))"
      using entries_leaves_ok [OF ok(1)] entries_leaves_ok [OF ok(2)]
      by (auto intro!: inj_onI leaf_bytes_inj simp: list_all_iff)
    then have "?ls es = ?ls es'"
      using 1 t(2) u(2) by (metis map_inj_on)
    then have "mset (map leaf_of es) = mset (map leaf_of es')" by (metis mset_sort)
    then show ?thesis ..
  next
    case 2
    then show ?thesis using collision_mono [OF 2 t(3) u(3)] by blast
  qed
qed

theorem merkle_root_binding_witness:
  "\<exists>r. compute_merkle_root sample_hash sample_entries = Inr (Some r) \<and>
     (mset (map leaf_of sample_entries) = mset (map leaf_of (rev sample_entries)) \<or>
      collision sample_hash (hashed_inputs sample_hash sample_entries) (hashed_inputs sample_hash (rev sample_entries)))"
proof -
  have len: "length (sample_hash x) = 32" for x by (simp add: sample_hash_def)
  have lv: "leaf_level sample_hash (rev sample_entries) = leaf_level sample_hash sample_entries"
    using sort_key_perm [of "map leaf_of sample_entries" "map leaf_of (rev sample_entries)" leaf_key]
      inj_leaf_key [OF sample_entries_ok(1)] by (simp add: leaf_level_def)
  obtain r where r: "compute_merkle_root sample_hash sample_entries = Inr (Some r)"
    "compute_merkle_root sample_hash (rev sample_entries) = Inr (Some r)"
    using sample_entries_ok lv unfolding compute_merkle_root_iff by (auto simp: sample_entries_def)
  with merkle_root_binding [OF len r] show ?thesis by blast
qed

end
