(* ===== verification/Canonical_JSON.thy ===== *)
theory Canonical_JSON
  imports Evidence_Merkle Py_Decimal "HOL-Library.Char_ord"
begin

text \<open>
  The one serialiser behind every evidence hash,
  \<open>json_safe_for_hash\<close> and \<open>canonical_json\<close> of \<open>services/api/app/evidence_signing.py\<close>, with
  what they use of \<open>json.dumps\<close> (sorted keys, compact separators, ASCII output) and of
  \<open>base64.b64encode\<close> written out.

  An evidence value is a Python object of one of the types the code distinguishes. A float is
  known by the text \<open>json.dumps\<close> gives it, a date, a time or a datetime by its \<open>isoformat()\<close>, a
  dictionary by its items, each key by its \<open>str()\<close> text, any other object by the name of its
  type. Subclasses of \<open>str\<close>, \<open>int\<close> and \<open>float\<close> count as those. A document is a JSON value.
\<close>

section \<open>Values\<close>

datatype pyobj =
    ENone
  | EBool bool
  | EInt int
  | EFloat string
  | EStr string
  | EUuid string
  | EDecimal dec
  | EBytes bytes
  | EEnum pyobj string
  | ETime string string
  | EDict "(string \<times> pyobj) list"
  | EList "pyobj list"
  | EOther string

datatype json =
    JNull
  | JBool bool
  | JInt int
  | JFloat string
  | JStr string
  | JList "json list"
  | JDict "(string \<times> json) list"

text \<open>\<open>type(value).__name__\<close>; an enum and a time carry theirs, a list stands for a tuple as well.\<close>

fun type_name :: "pyobj \<Rightarrow> string" where
  "type_name ENone = ''NoneType''"
| "type_name (EBool _) = ''bool''"
| "type_name (EInt _) = ''int''"
| "type_name (EFloat _) = ''float''"
| "type_name (EStr _) = ''str''"
| "type_name (EUuid _) = ''UUID''"
| "type_name (EDecimal _) = ''Decimal''"
| "type_name (EBytes _) = ''bytes''"
| "type_name (EEnum _ _) = ''Enum''"
| "type_name (ETime n _) = n"
| "type_name (EDict _) = ''dict''"
| "type_name (EList _) = ''list''"
| "type_name (EOther n) = n"

section \<open>Base 64\<close>

definition b64_char :: "nat \<Rightarrow> char" where
  "b64_char n = (if n < 26 then char_of (65 + n) else if n < 52 then char_of (71 + n)
     else if n < 62 then char_of (n - 4) else if n = 62 then CHR ''+'' else CHR ''/'')"

fun b64encode :: "bytes \<Rightarrow> string" where
  "b64encode [] = []"
| "b64encode [a] = (let n = unat a * 16 in
     [b64_char (n div 64), b64_char (n mod 64), CHR ''='', CHR ''=''])"
| "b64encode [a, b] = (let n = (unat a * 256 + unat b) * 4 in
     [b64_char (n div 4096), b64_char (n div 64 mod 64), b64_char (n mod 64), CHR ''=''])"
| "b64encode (a # b # c # rest) = (let n = (unat a * 256 + unat b) * 256 + unat c in
     [b64_char (n div 262144), b64_char (n div 4096 mod 64), b64_char (n div 64 mod 64), b64_char (n mod 64)]
     @ b64encode rest)"

section \<open>Normalisation\<close>

text \<open>The structural path and the type of the unsupported value.\<close>

datatype serialization_error = UnsupportedEvidence string string

text \<open>A dictionary built item by item: a repeated key keeps its place and takes the last value.\<close>

definition dict_of :: "(string \<times> 'a) list \<Rightarrow> (string \<times> 'a) list" where
  "dict_of items = fold (\<lambda>(k, v). AList.update k v) items []"

fun scalar_json :: "pyobj \<Rightarrow> json option" where
  "scalar_json ENone = Some JNull"
| "scalar_json (EBool b) = Some (JBool b)"
| "scalar_json (EInt i) = Some (JInt i)"
| "scalar_json (EFloat r) = Some (JFloat r)"
| "scalar_json (EStr s) = Some (JStr s)"
| "scalar_json _ = None"

fun json_safe_for_hash :: "string \<Rightarrow> pyobj \<Rightarrow> serialization_error + json"
  and json_safe_items :: "string \<Rightarrow> (string \<times> pyobj) list \<Rightarrow> serialization_error + (string \<times> json) list"
  and json_safe_list :: "string \<Rightarrow> nat \<Rightarrow> pyobj list \<Rightarrow> serialization_error + json list" where
  "json_safe_for_hash path ENone = Inr JNull"
| "json_safe_for_hash path (EBool b) = Inr (JBool b)"
| "json_safe_for_hash path (EInt i) = Inr (JInt i)"
| "json_safe_for_hash path (EFloat r) = Inr (JFloat r)"
| "json_safe_for_hash path (EStr s) = Inr (JStr s)"
| "json_safe_for_hash path (EUuid s) = Inr (JStr s)"
| "json_safe_for_hash path (EDecimal d) = Inr (JStr (dec_str d))"
| "json_safe_for_hash path (EBytes b) = Inr (JStr (b64encode b))"
| "json_safe_for_hash path (EEnum inner text) =
     Inr (case scalar_json inner of Some j \<Rightarrow> j | None \<Rightarrow> JStr text)"
| "json_safe_for_hash path (ETime n shown) = Inr (JStr shown)"
| "json_safe_for_hash path (EDict items) =
     bind_result (json_safe_items path items) (\<lambda>js. Inr (JDict (dict_of js)))"
| "json_safe_for_hash path (EList xs) = bind_result (json_safe_list path 0 xs) (\<lambda>js. Inr (JList js))"
| "json_safe_for_hash path (EOther n) = Inl (UnsupportedEvidence path n)"
| "json_safe_items path [] = Inr []"
| "json_safe_items path ((k, v) # items) =
     bind_result (json_safe_for_hash (path @ ''.'' @ k) v) (\<lambda>j.
     bind_result (json_safe_items path items) (\<lambda>js. Inr ((k, j) # js)))"
| "json_safe_list path i [] = Inr []"
| "json_safe_list path i (x # xs) =
     bind_result (json_safe_for_hash (path @ ''['' @ str_nat i @ '']'') x) (\<lambda>j.
     bind_result (json_safe_list path (i + 1) xs) (\<lambda>js. Inr (j # js)))"

section \<open>Serialisation\<close>

definition escape_char :: "char \<Rightarrow> string" where
  "escape_char c = (let n = of_char c :: nat in
     if c = CHR 0x22 then [CHR 0x5C, CHR 0x22]
     else if c = CHR 0x5C then [CHR 0x5C, CHR 0x5C]
     else if n = 10 then [CHR 0x5C, CHR ''n'']
     else if n = 13 then [CHR 0x5C, CHR ''r'']
     else if n = 9 then [CHR 0x5C, CHR ''t'']
     else if n = 8 then [CHR 0x5C, CHR ''b'']
     else if n = 12 then [CHR 0x5C, CHR ''f'']
     else if 32 \<le> n \<and> n \<le> 126 then [c]
     else [CHR 0x5C, CHR ''u'', CHR ''0'', CHR ''0'', hex_digit (n div 16), hex_digit (n mod 16)])"

definition json_string :: "string \<Rightarrow> string" where
  "json_string s = [CHR 0x22] @ concat (map escape_char s) @ [CHR 0x22]"

definition sort_items :: "(string \<times> 'a) list \<Rightarrow> (string \<times> 'a) list" where
  "sort_items items = sort_key fst items"

fun json_dumps :: "json \<Rightarrow> string" where
  "json_dumps JNull = ''null''"
| "json_dumps (JBool b) = (if b then ''true'' else ''false'')"
| "json_dumps (JInt i) = str_int i"
| "json_dumps (JFloat r) = r"
| "json_dumps (JStr s) = json_string s"
| "json_dumps (JList xs) = ''['' @ py_join '','' (map json_dumps xs) @ '']''"
| "json_dumps (JDict items) =
     ''{'' @ py_join '','' (map (\<lambda>(k, text). json_string k @ '':'' @ text)
       (sort_items (map (\<lambda>(k, v). (k, json_dumps v)) items))) @ ''}''"

definition canonical_json :: "string \<Rightarrow> pyobj \<Rightarrow> serialization_error + bytes" where
  "canonical_json path v = bind_result (json_safe_for_hash path v) (\<lambda>j. Inr (utf8 (json_dumps j)))"

text \<open>A document read back from storage, as a Python object.\<close>

fun of_json :: "json \<Rightarrow> pyobj" where
  "of_json JNull = ENone"
| "of_json (JBool b) = EBool b"
| "of_json (JInt i) = EInt i"
| "of_json (JFloat r) = EFloat r"
| "of_json (JStr s) = EStr s"
| "of_json (JList xs) = EList (map of_json xs)"
| "of_json (JDict items) = EDict (map (\<lambda>(k, v). (k, of_json v)) items)"

section \<open>Well-formed documents\<close>

text \<open>What \<open>json.dumps\<close> writes for a float: a decimal fraction, an exponent, or a special value.\<close>

definition float_text :: "string \<Rightarrow> bool" where
  "float_text r \<longleftrightarrow> r \<in> {''NaN'', ''Infinity'', ''-Infinity''} \<or>
     list_all (\<lambda>c. digit_char c \<or> c \<in> set ''+-.e'') r \<and> (CHR ''.'' \<in> set r \<or> CHR ''e'' \<in> set r)"

fun json_ok :: "json \<Rightarrow> bool" where
  "json_ok (JFloat r) = float_text r"
| "json_ok (JList xs) = list_all json_ok xs"
| "json_ok (JDict items) = (distinct (map fst items) \<and> list_all (\<lambda>(k, v). json_ok v) items)"
| "json_ok _ = True"

text \<open>The document with the keys of every object in order: the abstraction the bytes determine.\<close>

fun canon :: "json \<Rightarrow> json" where
  "canon (JList xs) = JList (map canon xs)"
| "canon (JDict items) = JDict (sort_items (map (\<lambda>(k, v). (k, canon v)) items))"
| "canon j = j"

fun dump_raw :: "json \<Rightarrow> string" where
  "dump_raw (JList xs) = ''['' @ py_join '','' (map dump_raw xs) @ '']''"
| "dump_raw (JDict items) =
     ''{'' @ py_join '','' (map (\<lambda>(k, v). json_string k @ '':'' @ dump_raw v) items) @ ''}''"
| "dump_raw JNull = ''null''"
| "dump_raw (JBool b) = (if b then ''true'' else ''false'')"
| "dump_raw (JInt i) = str_int i"
| "dump_raw (JFloat r) = r"
| "dump_raw (JStr s) = json_string s"

section \<open>Dictionaries\<close>

lemma fold_update_keys:
  "distinct (map fst al) \<Longrightarrow> distinct (map fst (fold (\<lambda>(k, v). AList.update k v) items al))"
  by (induction items arbitrary: al) (auto simp: distinct_update)

lemma dict_of_distinct: "distinct (map fst (dict_of items))"
  by (simp add: dict_of_def fold_update_keys)

lemma update_new_key: "k \<notin> fst ` set al \<Longrightarrow> AList.update k v al = al @ [(k, v)]"
  by (induction al) auto

lemma fold_update_distinct:
  "distinct (map fst (al @ items)) \<Longrightarrow> fold (\<lambda>(k, v). AList.update k v) items al = al @ items"
proof (induction items arbitrary: al)
  case (Cons kv items)
  obtain k v where kv: "kv = (k, v)" by fastforce
  with Cons.prems have "AList.update k v al = al @ [(k, v)]" by (intro update_new_key) auto
  with Cons kv show ?case by simp
qed simp

lemma dict_of_id: "distinct (map fst items) \<Longrightarrow> dict_of items = items"
  using fold_update_distinct [of "[]" items] by (simp add: dict_of_def)

lemma dict_of_values:
  "x \<in> set (fold (\<lambda>(k, v). AList.update k v) items al) \<Longrightarrow> snd x \<in> snd ` set al \<union> snd ` set items"
proof (induction items arbitrary: al)
  case (Cons kv items)
  obtain k v where kv: "kv = (k, v)" by fastforce
  have "snd ` set (AList.update k v al) \<subseteq> insert v (snd ` set al)"
    by (induction al) auto
  with Cons.IH [of "AList.update k v al"] Cons.prems kv show ?case by auto
qed auto

text \<open>Normalisation is the identity on documents, and always yields one with distinct keys.\<close>

fun distinct_keys :: "json \<Rightarrow> bool" where
  "distinct_keys (JList xs) = list_all distinct_keys xs"
| "distinct_keys (JDict items) = (distinct (map fst items) \<and> list_all (\<lambda>(k, v). distinct_keys v) items)"
| "distinct_keys _ = True"

lemma json_ok_distinct_keys: "json_ok j \<Longrightarrow> distinct_keys j"
  by (induction j) (auto simp: list_all_iff split_beta snds.simps)

lemma json_safe_list_embed:
  "\<forall>x \<in> set xs. \<forall>p. json_safe_for_hash p (of_json x) = Inr x \<Longrightarrow>
     json_safe_list path i (map of_json xs) = Inr xs"
  by (induction xs arbitrary: i) auto

lemma json_safe_items_embed:
  "\<forall>(k, v) \<in> set items. \<forall>p. json_safe_for_hash p (of_json v) = Inr v \<Longrightarrow>
     json_safe_items path (map (\<lambda>(k, v). (k, of_json v)) items) = Inr items"
  by (induction items) auto

lemma json_safe_embed: "distinct_keys j \<Longrightarrow> json_safe_for_hash path (of_json j) = Inr j"
proof (induction j arbitrary: path)
  case (JList xs)
  then show ?case using json_safe_list_embed [of xs path 0] by (auto simp: list_all_iff)
next
  case (JDict items)
  have "json_safe_items path (map (\<lambda>(k, v). (k, of_json v)) items) = Inr items"
    using JDict by (intro json_safe_items_embed) (auto simp: list_all_iff snds.simps)
  then show ?case using JDict.prems by (simp add: dict_of_id)
qed auto

lemma json_safe_distinct:
  "json_safe_for_hash path v = Inr j \<Longrightarrow> distinct_keys j"
  "json_safe_items path items = Inr js \<Longrightarrow> list_all (\<lambda>(k, v). distinct_keys v) js"
  "json_safe_list path i xs = Inr ys \<Longrightarrow> list_all distinct_keys ys"
proof (induction path v and path items and path i xs arbitrary: j and js and ys
    rule: json_safe_for_hash_json_safe_items_json_safe_list.induct)
  case (9 path inner shown)
  then show ?case by (cases inner) auto
next
  case (11 path items)
  then obtain js where js: "json_safe_items path items = Inr js" "j = JDict (dict_of js)"
    by (auto simp: bind_result_Inr)
  then have "list_all (\<lambda>(k, v). distinct_keys v) js" using 11 by blast
  then have "\<forall>v \<in> snd ` set js. distinct_keys v" by (auto simp: list_all_iff)
  moreover have "snd ` set (dict_of js) \<subseteq> snd ` set js"
    using dict_of_values [of _ js "[]"] by (auto simp: dict_of_def)
  ultimately show ?case using js(2) by (force simp: dict_of_distinct list_all_iff)
qed (auto simp: bind_result_Inr)

lemma canonical_json_embed:
  "distinct_keys j \<Longrightarrow> canonical_json path (of_json j) = Inr (utf8 (json_dumps j))"
  by (simp add: canonical_json_def json_safe_embed)

lemma canonical_json_Inr:
  "canonical_json path v = Inr b \<longleftrightarrow> (\<exists>j. json_safe_for_hash path v = Inr j \<and> b = utf8 (json_dumps j))"
  by (auto simp: canonical_json_def bind_result_Inr)

section \<open>The bytes determine the document\<close>

text \<open>Every escape can be read off the front of a text, and none starts with the quotation mark.\<close>

definition hex_value :: "char \<Rightarrow> nat" where
  "hex_value c = (if of_char c < (58 :: nat) then of_char c - 48 else of_char c - 87)"

fun read_escape :: "string \<Rightarrow> (char \<times> string) option" where
  "read_escape [] = None"
| "read_escape (x # xs) =
     (if x \<noteq> CHR 0x5C then Some (x, xs)
      else case xs of [] \<Rightarrow> None
      | y # ys \<Rightarrow>
          if y = CHR ''n'' then Some (char_of (10 :: nat), ys)
          else if y = CHR ''r'' then Some (char_of (13 :: nat), ys)
          else if y = CHR ''t'' then Some (char_of (9 :: nat), ys)
          else if y = CHR ''b'' then Some (char_of (8 :: nat), ys)
          else if y = CHR ''f'' then Some (char_of (12 :: nat), ys)
          else if y = CHR ''u'' then (case drop 2 ys of
               a # b # zs \<Rightarrow> Some (char_of (16 * hex_value a + hex_value b), zs) | _ \<Rightarrow> None)
          else Some (y, ys))"

lemma hex_value_digit: "n < 16 \<Longrightarrow> hex_value (hex_digit n) = n"
  by (auto simp: hex_value_def hex_digit_def)

lemma read_escape_char: "read_escape (escape_char c @ r) = Some (c, r)"
proof -
  define n where "n = (of_char c :: nat)"
  have n: "n < 256" "c = char_of n" by (simp_all add: n_def)
  have "n div 16 < 16" using n(1) by auto
  then have hv: "hex_value (hex_digit (n div 16)) = n div 16" "hex_value (hex_digit (n mod 16)) = n mod 16"
    by (simp_all add: hex_value_digit)
  have "escape_char c = (if c = CHR 0x22 then [CHR 0x5C, CHR 0x22]
     else if c = CHR 0x5C then [CHR 0x5C, CHR 0x5C]
     else if n = 10 then [CHR 0x5C, CHR ''n'']
     else if n = 13 then [CHR 0x5C, CHR ''r'']
     else if n = 9 then [CHR 0x5C, CHR ''t'']
     else if n = 8 then [CHR 0x5C, CHR ''b'']
     else if n = 12 then [CHR 0x5C, CHR ''f'']
     else if 32 \<le> n \<and> n \<le> 126 then [c]
     else [CHR 0x5C, CHR ''u'', CHR ''0'', CHR ''0'', hex_digit (n div 16), hex_digit (n mod 16)])"
    by (simp add: escape_char_def n_def Let_def)
  then show ?thesis using hv n(2) by simp
qed

lemma escape_char_cancel: "escape_char c @ r = escape_char d @ s \<longleftrightarrow> c = d \<and> r = s"
  by (metis (no_types) read_escape_char option.inject prod.inject)

lemma escape_char_quote: "escape_char c @ r \<noteq> CHR 0x22 # s"
proof
  assume eq: "escape_char c @ r = CHR 0x22 # s"
  then have "c = CHR 0x22" using read_escape_char [of c r] by simp
  with eq show False by (simp add: escape_char_def)
qed

lemma escape_text_cancel:
  "concat (map escape_char k) @ CHR 0x22 # r = concat (map escape_char l) @ CHR 0x22 # s \<longleftrightarrow> k = l \<and> r = s"
proof (induction k arbitrary: l)
  case Nil
  show ?case
    using escape_char_quote [of _ "concat (map escape_char (tl l)) @ CHR 0x22 # s" r]
    by (cases l) (auto dest: sym)
next
  case (Cons c k)
  show ?case
    using escape_char_quote [of c "concat (map escape_char k) @ CHR 0x22 # r" s]
    by (cases l) (auto simp: escape_char_cancel Cons.IH)
qed

lemma json_string_cancel: "json_string k @ r = json_string l @ s \<longleftrightarrow> k = l \<and> r = s"
  using escape_text_cancel [of k r l s] by (simp add: json_string_def)

text \<open>The words null, true, false and the numbers, up to the next delimiter.\<close>

definition word_char :: "char \<Rightarrow> bool" where
  "word_char c \<longleftrightarrow> digit_char c \<or> c \<in> set ''+-.'' \<or> (97 \<le> (of_char c :: nat) \<and> (of_char c :: nat) \<le> 122)
     \<or> c \<in> set ''NI''"

definition delimited :: "string \<Rightarrow> bool" where
  "delimited r \<longleftrightarrow> r = [] \<or> \<not> word_char (hd r)"

lemma word_cancel:
  assumes "list_all word_char t" "list_all word_char u" "delimited r" "delimited s" "t @ r = u @ s"
  shows "t = u \<and> r = s"
proof -
  have "takeWhile word_char (x @ y) = x" if "list_all word_char x" "delimited y" for x y
    using that by (cases y) (simp_all add: delimited_def list_all_iff takeWhile_append2)
  with assms show ?thesis by (metis append_same_eq same_append_eq)
qed

fun is_word :: "json \<Rightarrow> bool" where
  "is_word (JStr _) = False" | "is_word (JList _) = False" | "is_word (JDict _) = False" | "is_word _ = True"

lemma str_int_chars: "list_all (\<lambda>c. digit_char c \<or> c = CHR ''-'') (str_int i) \<and> str_int i \<noteq> []"
  using str_nat_props(1) by (auto simp: str_int_def list_all_iff)

lemma digit_word_char: "digit_char c \<or> c = CHR ''-'' \<Longrightarrow> word_char c"
  by (auto simp: word_char_def)

lemma digit_char_words: "\<not> digit_char (CHR ''n'')" "\<not> digit_char (CHR ''t'')" "\<not> digit_char (CHR ''f'')"
    "\<not> digit_char (CHR ''N'')" "\<not> digit_char (CHR ''I'')"
  by (simp_all add: digit_char_def)

lemma special_floats: "list_all word_char ''NaN''" "list_all word_char ''Infinity''"
    "list_all word_char ''-Infinity''" "list_all word_char ''+-.e''"
    "list_all word_char ''null''" "list_all word_char ''true''" "list_all word_char ''false''"
  by code_simp+

lemma float_text_cases:
  assumes "float_text r"
  obtains (special) "r \<in> {''NaN'', ''Infinity'', ''-Infinity''}"
  | (number) "list_all (\<lambda>c. digit_char c \<or> c \<in> set ''+-.e'') r" "CHR ''.'' \<in> set r \<or> CHR ''e'' \<in> set r"
  using assms unfolding float_text_def by blast

lemma float_text_chars: "float_text r \<Longrightarrow> list_all word_char r \<and> r \<noteq> []"
proof (erule float_text_cases)
  assume "r \<in> {''NaN'', ''Infinity'', ''-Infinity''}"
  then show ?thesis using special_floats(1-3) by (elim insertE) simp_all
next
  assume r: "list_all (\<lambda>c. digit_char c \<or> c \<in> set ''+-.e'') r" "CHR ''.'' \<in> set r \<or> CHR ''e'' \<in> set r"
  have "word_char c" if "digit_char c \<or> c \<in> set ''+-.e''" for c
    using that digit_word_char special_floats(4) unfolding list_all_iff by blast
  with r(1) have "list_all word_char r" unfolding list_all_iff by blast
  then show ?thesis using r(2) by auto
qed

lemma str_int_lacks: "c \<in> set (str_int i) \<Longrightarrow> digit_char c \<or> c = CHR ''-''"
  using str_int_chars [of i] unfolding list_all_iff by blast

lemma not_int_chars: "\<not> (digit_char (CHR ''.'') \<or> CHR ''.'' = CHR ''-'')"
    "\<not> (digit_char (CHR ''e'') \<or> CHR ''e'' = CHR ''-'')" "\<not> (digit_char (CHR ''N'') \<or> CHR ''N'' = CHR ''-'')"
    "\<not> (digit_char (CHR ''n'') \<or> CHR ''n'' = CHR ''-'')" "\<not> (digit_char (CHR ''l'') \<or> CHR ''l'' = CHR ''-'')"
  by (simp_all add: digit_char_def)

lemma float_text_not_int:
  assumes "float_text r"
  shows "r \<noteq> str_int i"
  using assms
proof (rule float_text_cases)
  assume "r \<in> {''NaN'', ''Infinity'', ''-Infinity''}"
  then have "CHR ''N'' \<in> set r \<or> CHR ''n'' \<in> set r" by (elim insertE) simp_all
  then show ?thesis using str_int_lacks not_int_chars by blast
next
  assume "CHR ''.'' \<in> set r \<or> CHR ''e'' \<in> set r"
  then show ?thesis using str_int_lacks not_int_chars by blast
qed

lemma word_not_number: "\<not> (digit_char (CHR ''l'') \<or> CHR ''l'' \<in> set ''+-.e'')"
    "\<not> (digit_char (CHR ''t'') \<or> CHR ''t'' \<in> set ''+-.e'')"
  by (simp_all add: digit_char_def)

lemma float_text_not_word:
  assumes "float_text r"
  shows "r \<noteq> ''null'' \<and> r \<noteq> ''true'' \<and> r \<noteq> ''false''"
  using assms
proof (rule float_text_cases)
  assume "r \<in> {''NaN'', ''Infinity'', ''-Infinity''}"
  then show ?thesis by (elim insertE) simp_all
next
  assume "list_all (\<lambda>c. digit_char c \<or> c \<in> set ''+-.e'') r"
  then have "CHR ''l'' \<notin> set r \<and> CHR ''t'' \<notin> set r"
    using word_not_number unfolding list_all_iff by blast
  then show ?thesis by (intro conjI notI) simp_all
qed

lemma str_int_not_word: "str_int i \<noteq> ''null'' \<and> str_int i \<noteq> ''true'' \<and> str_int i \<noteq> ''false''"
proof -
  have "CHR ''l'' \<notin> set (str_int i) \<and> CHR ''e'' \<notin> set (str_int i)"
    using str_int_lacks not_int_chars by blast
  then show ?thesis by (intro conjI notI) simp_all
qed

lemma str_int_inj: "str_int i = str_int j \<longleftrightarrow> i = j"
proof -
  have nat: "str_nat m = str_nat n \<Longrightarrow> m = n" for m n by (metis str_nat_props(2))
  have "hd (str_nat n) \<noteq> CHR ''-''" for n
    using str_nat_props(1) [of n] str_nat_not_Nil [of n] by (cases "str_nat n") auto
  then have sign: "str_nat n \<noteq> CHR ''-'' # xs" for n xs by (metis list.sel(1))
  show ?thesis
    using nat [of "nat i" "nat j"] nat [of "nat (- i)" "nat (- j)"] sign sign [symmetric]
    by (auto simp: str_int_def split: if_splits)
qed

lemma word_dump: "is_word j \<Longrightarrow> json_ok j \<Longrightarrow> list_all word_char (dump_raw j) \<and> dump_raw j \<noteq> []"
proof (cases j)
  case (JInt i)
  then show ?thesis
    using str_int_chars [of i] str_int_lacks [of _ i] digit_word_char unfolding list_all_iff by simp
next
  case (JBool b)
  then show ?thesis using special_floats(6,7) by simp
qed (use special_floats(5) float_text_chars in simp_all)

lemma word_inj:
  "is_word j \<Longrightarrow> json_ok j \<Longrightarrow> is_word k \<Longrightarrow> json_ok k \<Longrightarrow> dump_raw j = dump_raw k \<Longrightarrow> j = k"
  using str_int_inj str_int_not_word float_text_not_int float_text_not_word
  by (cases j; cases k; simp split: if_splits; metis)

lemma nonword_hd: "\<not> is_word j \<Longrightarrow> \<exists>c r. dump_raw j = c # r \<and> \<not> word_char c"
  by (cases j) (auto simp: json_string_def word_char_def digit_char_def)

text \<open>
  An element can be cancelled off the front of a text when what follows is a comma or the
  closing bracket.
\<close>

definition ends_element :: "char \<Rightarrow> string \<Rightarrow> bool" where
  "ends_element cl r \<longleftrightarrow> r \<noteq> [] \<and> hd r \<in> {CHR '','', cl}"

definition cancels :: "char \<Rightarrow> ('a \<Rightarrow> string) \<Rightarrow> ('a \<Rightarrow> bool) \<Rightarrow> 'a \<Rightarrow> bool" where
  "cancels cl f ok x \<longleftrightarrow> (\<forall>y r s. ok y \<longrightarrow> ends_element cl r \<longrightarrow> ends_element cl s \<longrightarrow>
      f x @ r = f y @ s \<longrightarrow> x = y \<and> r = s)"

lemma cancelsD:
  "cancels cl f ok x \<Longrightarrow> ok y \<Longrightarrow> ends_element cl r \<Longrightarrow> ends_element cl s \<Longrightarrow> f x @ r = f y @ s \<Longrightarrow> x = y \<and> r = s"
  unfolding cancels_def by blast

text \<open>A sequence of elements, each after a comma, up to its closing bracket.\<close>

definition joined_tail :: "('a \<Rightarrow> string) \<Rightarrow> 'a list \<Rightarrow> string" where
  "joined_tail f xs = concat (map (\<lambda>x. CHR '','' # f x) xs)"

lemma py_join_Cons: "py_join '','' (map f (x # xs)) = f x @ joined_tail f xs"
  by (induction xs arbitrary: x) (auto simp: joined_tail_def)

lemma joined_tail_hd:
  "ends_element cl (joined_tail f xs @ cl # r)"
  by (cases xs) (auto simp: joined_tail_def ends_element_def)

lemma joined_tail_cancel:
  assumes "\<forall>x \<in> set xs. cancels cl f ok x"
    and "\<forall>y \<in> set ys. ok y" and "cl \<noteq> CHR '',''"
  shows "joined_tail f xs @ cl # r = joined_tail f ys @ cl # s \<Longrightarrow> xs = ys \<and> r = s"
  using assms(1,2)
proof (induction xs arbitrary: ys)
  case Nil
  then show ?case using assms(3) by (cases ys) (auto simp: joined_tail_def)
next
  case (Cons x xs)
  show ?case
  proof (cases ys)
    case Nil
    then show ?thesis using Cons.prems(1) assms(3) by (auto simp: joined_tail_def)
  next
    case (Cons y ys')
    have eq: "f x @ (joined_tail f xs @ cl # r) = f y @ (joined_tail f ys' @ cl # s)"
      using Cons.prems(1) Cons by (simp add: joined_tail_def)
    have "x = y \<and> joined_tail f xs @ cl # r = joined_tail f ys' @ cl # s"
      using cancelsD [of cl f ok x y, OF _ _ joined_tail_hd joined_tail_hd eq] Cons.prems(2,3) Cons by simp
    then show ?thesis using Cons.IH [of ys'] Cons.prems(2,3) Cons by simp
  qed
qed

lemma join_cancel:
  assumes el: "\<forall>x \<in> set xs. cancels cl f ok x"
    and ok: "\<forall>y \<in> set ys. ok y" and cl: "cl \<noteq> CHR '',''"
    and hds: "\<forall>x. x \<in> set xs \<union> set ys \<longrightarrow> f x \<noteq> [] \<and> hd (f x) \<noteq> cl"
    and eq: "py_join '','' (map f xs) @ cl # r = py_join '','' (map f ys) @ cl # s"
  shows "xs = ys \<and> r = s"
proof (cases xs)
  case Nil
  have "ys = []"
  proof (rule ccontr)
    assume "ys \<noteq> []"
    then obtain y ys' where ys: "ys = y # ys'" by (cases ys) auto
    with eq Nil have "cl # r = f y @ joined_tail f ys' @ cl # s" using py_join_Cons [of f y ys'] by simp
    moreover have "f y \<noteq> []" using hds ys by simp
    ultimately have "hd (f y) = cl" by (metis hd_append2 list.sel(1))
    with hds ys show False by auto
  qed
  with Nil eq show ?thesis by simp
next
  case (Cons x xs')
  show ?thesis
  proof (cases ys)
    case Nil
    with eq Cons have "cl # s = f x @ joined_tail f xs' @ cl # r" using py_join_Cons [of f x xs'] by simp
    moreover have "f x \<noteq> []" using hds \<open>xs = x # xs'\<close> by simp
    ultimately have "hd (f x) = cl" by (metis hd_append2 list.sel(1))
    with hds \<open>xs = x # xs'\<close> have False by auto
    then show ?thesis ..
  next
    case (Cons y ys')
    have eq': "f x @ (joined_tail f xs' @ cl # r) = f y @ (joined_tail f ys' @ cl # s)"
      using eq \<open>xs = x # xs'\<close> Cons py_join_Cons [of f x xs'] py_join_Cons [of f y ys'] by simp
    then have "x = y \<and> joined_tail f xs' @ cl # r = joined_tail f ys' @ cl # s"
      using cancelsD [of cl f ok x y, OF _ _ joined_tail_hd joined_tail_hd eq'] el ok \<open>xs = x # xs'\<close> Cons by simp
    then show ?thesis
      using joined_tail_cancel [of xs' cl f ok ys' r s] el ok cl \<open>xs = x # xs'\<close> Cons by simp
  qed
qed

lemma brackets_delimit:
  "ends_element (CHR '']'') r \<Longrightarrow> delimited r" "ends_element (CHR ''}'') r \<Longrightarrow> delimited r"
proof -
  have "\<not> word_char (CHR '','')" "\<not> word_char (CHR '']'')" "\<not> word_char (CHR ''}'')" by code_simp+
  then show "ends_element (CHR '']'') r \<Longrightarrow> delimited r" "ends_element (CHR ''}'') r \<Longrightarrow> delimited r"
    by (auto simp: delimited_def ends_element_def)
qed

lemma dump_raw_hd:
  "json_ok j \<Longrightarrow> dump_raw j \<noteq> [] \<and>
     (if is_word j then word_char (hd (dump_raw j)) else hd (dump_raw j) \<in> set [CHR 0x22, CHR ''['', CHR ''{''])"
proof (cases "is_word j")
  case True
  assume "json_ok j"
  with True show ?thesis using word_dump [of j] by (cases "dump_raw j") auto
next
  case False
  then show ?thesis by (cases j) (simp_all add: json_string_def)
qed

lemma brackets_not_word: "\<not> word_char (CHR '']'')" "\<not> word_char (CHR 0x22)" "\<not> word_char (CHR ''['')"
    "\<not> word_char (CHR ''{'')"
  by code_simp+

lemma dump_raw_not_bracket: "json_ok j \<Longrightarrow> dump_raw j \<noteq> [] \<and> hd (dump_raw j) \<noteq> CHR '']''"
  using dump_raw_hd [of j] brackets_not_word by (auto split: if_splits)

text \<open>The texts of two documents followed by a delimiter are equal only if the documents are.\<close>

lemma word_case:
  assumes "is_word j" "json_ok j" "json_ok k" "delimited r" "delimited s" "dump_raw j @ r = dump_raw k @ s"
  shows "j = k \<and> r = s"
proof -
  have "is_word k"
  proof (rule ccontr)
    assume "\<not> is_word k"
    then have "\<not> word_char (hd (dump_raw k))"
      using dump_raw_hd [OF assms(3)] brackets_not_word by auto
    moreover have "hd (dump_raw j) = hd (dump_raw k)"
      using assms(6) dump_raw_hd [OF assms(2)] dump_raw_hd [OF assms(3)] by (metis hd_append2)
    ultimately show False using dump_raw_hd [OF assms(2)] assms(1) by simp
  qed
  then have "dump_raw j = dump_raw k \<and> r = s"
    using word_cancel [OF _ _ assms(4,5,6)] word_dump assms(1-3) by blast
  then show ?thesis using word_inj assms(1-3) \<open>is_word k\<close> by blast
qed

lemma dump_raw_cancel:
  "json_ok j \<Longrightarrow> json_ok k \<Longrightarrow> delimited r \<Longrightarrow> delimited s \<Longrightarrow> dump_raw j @ r = dump_raw k @ s \<Longrightarrow> j = k \<and> r = s"
proof (induction j arbitrary: k r s)
  case (JStr x)
  have hd: "hd (dump_raw k) = CHR 0x22"
    using JStr.prems(5) dump_raw_hd [OF JStr.prems(2)] by (cases "dump_raw k") (auto simp: json_string_def)
  have "\<not> is_word k" using dump_raw_hd [OF JStr.prems(2)] hd brackets_not_word by auto
  with hd obtain y where "k = JStr y" by (cases k) auto
  with JStr.prems(5) show ?case by (simp add: json_string_cancel)
next
  case (JList xs)
  have hd: "hd (dump_raw k) = CHR ''[''"
    using JList.prems(5) dump_raw_hd [OF JList.prems(2)] by (cases "dump_raw k") auto
  have "\<not> is_word k" using dump_raw_hd [OF JList.prems(2)] hd brackets_not_word by auto
  with hd obtain ys where k: "k = JList ys" by (cases k) (auto simp: json_string_def)
  have eq: "py_join '','' (map dump_raw xs) @ CHR '']'' # r = py_join '','' (map dump_raw ys) @ CHR '']'' # s"
    using JList.prems(5) k by simp
  have oks: "\<forall>x \<in> set xs. json_ok x" "\<forall>y \<in> set ys. json_ok y"
    using JList.prems(1,2) k by (simp_all add: list_all_iff)
  have "\<forall>x \<in> set xs. cancels (CHR '']'') dump_raw json_ok x"
    using JList.IH oks(1) brackets_delimit(1) unfolding cancels_def by blast
  moreover have "\<forall>x. x \<in> set xs \<union> set ys \<longrightarrow> dump_raw x \<noteq> [] \<and> hd (dump_raw x) \<noteq> CHR '']''"
    using dump_raw_not_bracket oks by blast
  ultimately have "xs = ys \<and> r = s"
    using join_cancel [of xs "CHR '']''" dump_raw json_ok ys r s] oks(2) eq by simp
  with k show ?case by simp
next
  case (JDict items)
  have hd: "hd (dump_raw k) = CHR ''{''"
    using JDict.prems(5) dump_raw_hd [OF JDict.prems(2)] by (cases "dump_raw k") auto
  have "\<not> is_word k" using dump_raw_hd [OF JDict.prems(2)] hd brackets_not_word by auto
  with hd obtain ys where k: "k = JDict ys" by (cases k) (auto simp: json_string_def)
  let ?f = "\<lambda>(k, v). json_string k @ '':'' @ dump_raw v"
  have eq: "py_join '','' (map ?f items) @ CHR ''}'' # r = py_join '','' (map ?f ys) @ CHR ''}'' # s"
    using JDict.prems(5) k by simp
  have oks: "\<forall>(k, v) \<in> set items. json_ok v" "\<forall>(k, v) \<in> set ys. json_ok v"
    using JDict.prems(1,2) k by (simp_all add: list_all_iff)
  have "\<forall>x \<in> set items. cancels (CHR ''}'') ?f (\<lambda>(k, v). json_ok v) x"
  proof
    fix x assume x: "x \<in> set items"
    obtain a b where ab: "x = (a, b)" by fastforce
    have ih: "json_ok c \<Longrightarrow> delimited r \<Longrightarrow> delimited s \<Longrightarrow> dump_raw b @ r = dump_raw c @ s \<Longrightarrow> b = c \<and> r = s"
      for c r s
      using JDict.IH [of x b c r s] x ab oks(1) by (auto simp: snds.simps)
    show "cancels (CHR ''}'') ?f (\<lambda>(k, v). json_ok v) x"
      unfolding cancels_def
    proof (intro allI impI)
      fix y r s
      assume y: "(\<lambda>(k, v). json_ok v) y" and r: "ends_element (CHR ''}'') r" "ends_element (CHR ''}'') s"
        and e: "?f x @ r = ?f y @ s"
      obtain c d where cd: "y = (c, d)" by fastforce
      have "json_string a @ CHR '':'' # (dump_raw b @ r) = json_string c @ CHR '':'' # (dump_raw d @ s)"
        using e ab cd by simp
      then have "a = c" "dump_raw b @ r = dump_raw d @ s" by (simp_all add: json_string_cancel)
      with ih [of d r s] y r brackets_delimit(2) cd ab show "x = y \<and> r = s" by auto
    qed
  qed
  moreover have "\<forall>x. ?f x \<noteq> [] \<and> hd (?f x) \<noteq> CHR ''}''" by (auto simp: json_string_def)
  ultimately have "items = ys \<and> r = s"
    using join_cancel [of items "CHR ''}''" ?f "\<lambda>(k, v). json_ok v" ys r s] oks(2) eq by simp
  with k show ?case by simp
next
  case JNull
  show ?case by (rule word_case [OF _ JNull.prems]) simp
next
  case (JBool b)
  show ?case by (rule word_case [OF _ JBool.prems]) simp
next
  case (JInt i)
  show ?case by (rule word_case [OF _ JInt.prems]) simp
next
  case (JFloat x)
  show ?case by (rule word_case [OF _ JFloat.prems]) simp
qed

text \<open>Serialising sorts the keys and then writes the items in order.\<close>

lemma insort_key_map:
  "(\<And>x. h (g x) = h' x) \<Longrightarrow> insort_key h (g x) (map g xs) = map g (insort_key h' x xs)"
  by (induction xs) auto

lemma sort_items_map: "sort_items (map (\<lambda>(k, v). (k, f v)) items) = map (\<lambda>(k, v). (k, f v)) (sort_items items)"
proof (induction items)
  case (Cons x items)
  have "insort_key fst ((\<lambda>(k, v). (k, f v)) x) (map (\<lambda>(k, v). (k, f v)) xs) =
      map (\<lambda>(k, v). (k, f v)) (insort_key fst x xs)" for xs
    by (rule insort_key_map) auto
  with Cons show ?case by (simp add: sort_items_def)
qed (simp add: sort_items_def)

lemma set_sort_items [simp]: "set (sort_items items) = set items"
  by (simp add: sort_items_def)

lemma json_dumps_canon: "json_dumps j = dump_raw (canon j)"
proof (induction j)
  case (JList xs)
  then have "map json_dumps xs = map dump_raw (map canon xs)" by simp
  then show ?case by (simp only: json_dumps.simps dump_raw.simps canon.simps)
next
  case (JDict items)
  have eq: "json_dumps v = dump_raw (canon v)" if "(k, v) \<in> set items" for k v
    using JDict [of "(k, v)" v] that by (simp add: snds.simps)
  then show ?case
    by (simp add: sort_items_map) (rule arg_cong [of _ _ "py_join '',''"], rule map_cong, auto)
qed auto

lemma distinct_sort_items [simp]: "distinct (map fst (sort_items items)) = distinct (map fst items)"
proof -
  have "mset (map fst (sort_items items)) = mset (map fst items)"
    by (simp add: sort_items_def mset_map [symmetric] del: mset_map) (simp add: mset_map)
  then show ?thesis by (rule mset_eq_imp_distinct_iff)
qed

lemma json_ok_canon: "json_ok (canon j) = json_ok j"
proof (induction j)
  case (JDict items)
  have eq: "json_ok (canon v) = json_ok v" if "(k, v) \<in> set items" for k v
    using JDict [of "(k, v)" v] that by (simp add: snds.simps)
  have keys: "map fst (map (\<lambda>(k, v). (k, canon v)) items) = map fst items" by (induction items) auto
  have "list_all (\<lambda>(k, v). json_ok v) (sort_items (map (\<lambda>(k, v). (k, canon v)) items)) =
      list_all (\<lambda>(k, v). json_ok v) items"
    using eq by (auto simp: list_all_iff)
  then show ?case by (simp only: canon.simps json_ok.simps distinct_sort_items keys)
qed (auto simp: list_all_iff)

lemma canonical_bytes_eq:
  "json_ok j \<Longrightarrow> json_ok k \<Longrightarrow> utf8 (json_dumps j) = utf8 (json_dumps k) \<longleftrightarrow> canon j = canon k"
  using dump_raw_cancel [of "canon j" "canon k" "[]" "[]"]
  by (auto simp: utf8_inj json_dumps_canon json_ok_canon delimited_def)

section \<open>Properties\<close>

text \<open>
  The canonical bytes commit to the whole document: two documents have the same canonical
  JSON exactly when they are equal up to the order of the keys of their objects.
\<close>

theorem canonical_bytes_determine:
  assumes "json_ok j" and "json_ok k"
  shows "utf8 (json_dumps j) = utf8 (json_dumps k) \<longleftrightarrow> canon j = canon k"
  using assms by (rule canonical_bytes_eq)

definition sample_doc :: json where
  "sample_doc = JDict [(''b'', JList [JInt (-1), JFloat ''1.5'']), (''a'', JStr [CHR 0x22])]"

theorem canonical_bytes_determine_witness:
  "utf8 (json_dumps sample_doc) = utf8 (json_dumps (canon sample_doc)) \<and> sample_doc \<noteq> canon sample_doc"
proof
  have "json_ok sample_doc" "json_ok (canon sample_doc)" "canon sample_doc = canon (canon sample_doc)"
    by code_simp+
  then show "utf8 (json_dumps sample_doc) = utf8 (json_dumps (canon sample_doc))"
    using canonical_bytes_determine [of sample_doc "canon sample_doc"] by simp
  show "sample_doc \<noteq> canon sample_doc" by code_simp
qed

text \<open>
  C14. Normalisation is idempotent. The document made from any evidence value, read back from
  storage, is normalised to itself and has the same canonical bytes, whatever the diagnostic
  path: what is hashed is what is stored and verified later.
\<close>

theorem normalization_round_trip:
  assumes "json_safe_for_hash path v = Inr j"
  shows "json_safe_for_hash path' (of_json j) = Inr j \<and>
    canonical_json path' (of_json j) = canonical_json path v"
  using json_safe_distinct(1) [OF assms] assms
  by (simp add: json_safe_embed canonical_json_def)

theorem normalization_round_trip_witness:
  "json_safe_for_hash [] (of_json (JList [JStr ''AQI='', JNull])) = Inr (JList [JStr ''AQI='', JNull])"
proof -
  have "json_safe_for_hash ''$'' (EList [EBytes [1, 2], ENone]) = Inr (JList [JStr ''AQI='', JNull])"
    by code_simp
  from normalization_round_trip [OF this] show ?thesis by blast
qed

end
