(* ===== verification/Policy_Storage.thy ===== *)
theory Policy_Storage
  imports Policy_Engine Canonical_JSON
begin

text \<open>
  The stored policies and their immutable versions,
  \<open>services/api/app/domains/governance_policy/service.py\<close>: reading a policy, creating one and
  applying a versioned edit, over the tables \<open>governance_policies\<close> and
  \<open>governance_policy_versions\<close>.

  A row keeps its editable columns together in \<open>policy_values\<close>. The statements are those of the
  source; the optimistic guard is the \<open>WHERE\<close> clause of the update. Amounts are taken at the scale of
  their column, \<open>NUMERIC(38, 2)\<close>, so that storing one returns it; roles are stored as texts. Instants
  are microseconds. The tables are provisioned; a statement that fails raises and its transaction is
  rolled back, so only the statements that succeed are steps.
\<close>

section \<open>Rows\<close>

record policy_values =
  pv_name :: string
  pv_operation :: string
  pv_status :: string
  pv_asset :: "string option"
  pv_business_event :: "string option"
  pv_settlement :: "string option"
  pv_window_start :: "string option"
  pv_window_end :: "string option"
  pv_maximum :: "dec option"
  pv_roles :: "string list"
  pv_violation :: string

record policy_row =
  pr_id :: string
  pr_workspace :: string
  pr_policy_key :: string
  pr_version :: int
  pr_values :: policy_values
  pr_origin :: string
  pr_updated_at :: int

text \<open>
  The JSON snapshot of a version. \<open>sn_asset\<close> and \<open>sn_window_columns\<close> are keys the snapshot of a
  creation does not have.
\<close>

record policy_snapshot =
  sn_policy_key :: string
  sn_version :: int
  sn_name :: string
  sn_operation :: string
  sn_status :: string
  sn_asset :: "string option option"
  sn_business_event :: "string option"
  sn_settlement :: "string option"
  sn_window :: "(string \<times> string) option"
  sn_window_columns :: "(string option \<times> string option) option"
  sn_maximum :: "string option"
  sn_roles :: "string list"
  sn_violation :: string

record version_row =
  vr_workspace :: string
  vr_policy_id :: string
  vr_version :: int
  vr_status :: string
  vr_snapshot :: policy_snapshot
  vr_changed :: "string list"
  vr_summary :: string
  vr_changed_at :: int

record policy_tables =
  gs_policies :: "policy_row list"
  gs_versions :: "version_row list"

abbreviation ORIGIN_CUSTOMER :: string where
  "ORIGIN_CUSTOMER \<equiv> ''customer''"
abbreviation ORIGIN_DEMO_SEED :: string where
  "ORIGIN_DEMO_SEED \<equiv> ''demo_seed''"

section \<open>Reading a policy\<close>

definition roles_tuple :: "string list \<Rightarrow> string list" where
  "roles_tuple raw = fold append_new (filter (\<lambda>k. k \<noteq> []) (map (\<lambda>r. upper_key (PStr r)) raw)) []"

definition upper_text :: "string option \<Rightarrow> string option" where
  "upper_text v = (case v of None \<Rightarrow> None | Some t \<Rightarrow> if t = [] then None else Some (py_upper t))"

definition nonempty_text :: "string option \<Rightarrow> string option" where
  "nonempty_text v = (case v of None \<Rightarrow> None | Some t \<Rightarrow> if t = [] then None else Some t)"

text \<open>\<open>policy_from_row\<close>: the policy as the services hold it, and as the engine reads it.\<close>

definition load_policy :: "policy_row \<Rightarrow> policy_row" where
  "load_policy r = (let v = pr_values r in
     r\<lparr>pr_version := (if pr_version r = 0 then 1 else pr_version r),
       pr_values := v\<lparr>pv_operation := py_upper (pv_operation v), pv_status := py_upper (pv_status v),
         pv_asset := nonempty_text (pv_asset v),
         pv_business_event := upper_text (pv_business_event v), pv_settlement := upper_text (pv_settlement v),
         pv_window_start := nonempty_text (pv_window_start v), pv_window_end := nonempty_text (pv_window_end v),
         pv_roles := roles_tuple (pv_roles v),
         pv_violation := py_upper (if pv_violation v = [] then VIOLATION_ACTION_DENY else pv_violation v)\<rparr>,
       pr_origin := (if pr_origin r = [] then ORIGIN_CUSTOMER else pr_origin r)\<rparr>)"

definition engine_policy :: "policy_row \<Rightarrow> policy_definition" where
  "engine_policy p = (let v = pr_values p in
     \<lparr>pd_policy_id = pr_id p, pd_policy_key = pr_policy_key p, pd_name = pv_name v,
      pd_operation = pv_operation v, pd_status = pv_status v, pd_version = pr_version p,
      pd_required_business_event = pv_business_event v, pd_settlement_requirement = pv_settlement v,
      pd_allowed_window_start_utc = pv_window_start v, pd_allowed_window_end_utc = pv_window_end v,
      pd_maximum_daily_amount_usd = (case pv_maximum v of None \<Rightarrow> PNone | Some d \<Rightarrow> PDec d),
      pd_required_roles = pv_roles v, pd_violation_action = pv_violation v\<rparr>)"

definition policy_from_row :: "policy_row \<Rightarrow> policy_definition" where
  "policy_from_row r = engine_policy (load_policy r)"

text \<open>
  \<open>get_policy\<close>: by identifier when the reference is one, by key otherwise. \<open>is_uuid\<close> is
  \<open>uuid.UUID\<close> of the standard library and \<open>canon_uuid\<close> the text the database gives it.
\<close>

definition get_policy ::
  "(string \<Rightarrow> bool) \<Rightarrow> (string \<Rightarrow> string) \<Rightarrow> string \<Rightarrow> string \<Rightarrow> 'a policy_tables_scheme \<Rightarrow> policy_row option" where
  "get_policy is_uuid canon_uuid ws policy_ref db =
     (let ref = py_strip policy_ref in
      if ref = [] then None
      else map_option load_policy
        (if is_uuid ref then find (\<lambda>r. pr_id r = canon_uuid ref \<and> pr_workspace r = ws) (gs_policies db)
         else find (\<lambda>r. pr_policy_key r = ref \<and> pr_workspace r = ws) (gs_policies db)))"

definition list_policies :: "string \<Rightarrow> 'a policy_tables_scheme \<Rightarrow> policy_row list" where
  "list_policies ws db = map load_policy
     (sort_key (\<lambda>r. (if pv_status (pr_values r) = GP_STATUS_ACTIVE then 0 else 1 :: nat))
       (sort_key (\<lambda>r. - pr_updated_at r)
         (sort_key pr_policy_key (filter (\<lambda>r. pr_workspace r = ws) (gs_policies db)))))"

definition list_versions :: "string \<Rightarrow> string \<Rightarrow> nat \<Rightarrow> 'a policy_tables_scheme \<Rightarrow> version_row list" where
  "list_versions ws policy_id limit db =
     take limit (sort_key (\<lambda>v. - vr_version v)
       (filter (\<lambda>v. vr_workspace v = ws \<and> vr_policy_id v = policy_id) (gs_versions db)))"

definition count_policies :: "string \<Rightarrow> 'a policy_tables_scheme \<Rightarrow> nat" where
  "count_policies ws db = length (filter (\<lambda>r. pr_workspace r = ws) (gs_policies db))"

section \<open>Creating a policy\<close>

datatype create_result = PolicyCreated string | PolicyDuplicate string

definition both_windows :: "policy_values \<Rightarrow> (string \<times> string) option" where
  "both_windows v = (case (nonempty_text (pv_window_start v), nonempty_text (pv_window_end v)) of
       (Some a, Some b) \<Rightarrow> Some (a, b) | _ \<Rightarrow> None)"

definition creation_snapshot :: "string \<Rightarrow> policy_values \<Rightarrow> policy_snapshot" where
  "creation_snapshot key v =
     \<lparr>sn_policy_key = key, sn_version = 1, sn_name = pv_name v, sn_operation = pv_operation v,
      sn_status = pv_status v, sn_asset = None, sn_business_event = pv_business_event v,
      sn_settlement = pv_settlement v, sn_window = both_windows v, sn_window_columns = None,
      sn_maximum = map_option dec_str (pv_maximum v), sn_roles = pv_roles v,
      sn_violation = (if pv_violation v = [] then VIOLATION_ACTION_DENY else pv_violation v)\<rparr>"

definition CREATED_SUMMARY :: "string \<Rightarrow> string" where
  "CREATED_SUMMARY origin = (if origin = ORIGIN_DEMO_SEED then ''Policy created (demo scenario seed).'' else ''Policy created.'')"

definition create_policy ::
  "string \<Rightarrow> string \<Rightarrow> policy_values \<Rightarrow> string \<Rightarrow> string \<Rightarrow> int \<Rightarrow> 'a policy_tables_scheme
     \<Rightarrow> create_result \<times> 'a policy_tables_scheme" where
  "create_policy ws key v fresh_id origin now db =
     (if \<exists>r \<in> set (gs_policies db). pr_workspace r = ws \<and> pr_policy_key r = key then (PolicyDuplicate key, db)
      else
        let stored = v\<lparr>pv_violation := (if pv_violation v = [] then VIOLATION_ACTION_DENY else pv_violation v)\<rparr>;
            row = \<lparr>pr_id = fresh_id, pr_workspace = ws, pr_policy_key = key, pr_version = 1, pr_values = stored,
                   pr_origin = origin, pr_updated_at = now\<rparr>;
            version = \<lparr>vr_workspace = ws, vr_policy_id = fresh_id, vr_version = 1, vr_status = pv_status v,
                   vr_snapshot = creation_snapshot key v, vr_changed = [], vr_summary = CREATED_SUMMARY origin,
                   vr_changed_at = now\<rparr>
        in (PolicyCreated fresh_id,
            db\<lparr>gs_policies := gs_policies db @ [row], gs_versions := gs_versions db @ [version]\<rparr>))"

section \<open>Editing a policy\<close>

definition MATERIAL_FIELDS :: "string list" where
  "MATERIAL_FIELDS = [''operation'', ''status'', ''asset_id'', ''required_business_event'', ''settlement_requirement'',
     ''allowed_window_start_utc'', ''allowed_window_end_utc'', ''maximum_daily_amount_usd'', ''required_roles'',
     ''violation_action'']"

datatype field_value = FText "string option" | FAmount "dec option" | FRoles "string list"

definition editable_values :: "policy_values \<Rightarrow> (string \<times> field_value) list" where
  "editable_values v =
     [(''name'', FText (Some (pv_name v))), (''operation'', FText (Some (pv_operation v))),
      (''status'', FText (Some (pv_status v))), (''asset_id'', FText (pv_asset v)),
      (''required_business_event'', FText (pv_business_event v)), (''settlement_requirement'', FText (pv_settlement v)),
      (''allowed_window_start_utc'', FText (pv_window_start v)), (''allowed_window_end_utc'', FText (pv_window_end v)),
      (''maximum_daily_amount_usd'', FAmount (pv_maximum v)), (''required_roles'', FRoles (pv_roles v)),
      (''violation_action'', FText (Some (pv_violation v)))]"

fun comparable :: "field_value \<Rightarrow> field_value" where
  "comparable (FAmount d) = FText (map_option dec_str d)"
| "comparable x = x"

text \<open>
  An edit is the list of the fields it names together with their new values; the other components of
  \<open>new\<close> are not read.
\<close>

definition differs :: "policy_values \<Rightarrow> policy_values \<Rightarrow> string \<Rightarrow> bool" where
  "differs current new field =
     (map_option comparable (map_of (editable_values current) field)
        \<noteq> map_option comparable (map_of (editable_values new) field))"

definition material_diff :: "policy_values \<Rightarrow> string list \<Rightarrow> policy_values \<Rightarrow> string list" where
  "material_diff current named new = filter (\<lambda>f. f \<in> set named \<and> differs current new f) MATERIAL_FIELDS"

definition merge_values :: "policy_values \<Rightarrow> string list \<Rightarrow> policy_values \<Rightarrow> policy_values" where
  "merge_values current named new =
     (let given = (\<lambda>f. f \<in> set named) in
      \<lparr>pv_name = (if given ''name'' then pv_name new else pv_name current),
       pv_operation = (if given ''operation'' then pv_operation new else pv_operation current),
       pv_status = (if given ''status'' then pv_status new else pv_status current),
       pv_asset = (if given ''asset_id'' then pv_asset new else pv_asset current),
       pv_business_event = (if given ''required_business_event'' then pv_business_event new else pv_business_event current),
       pv_settlement = (if given ''settlement_requirement'' then pv_settlement new else pv_settlement current),
       pv_window_start = (if given ''allowed_window_start_utc'' then pv_window_start new else pv_window_start current),
       pv_window_end = (if given ''allowed_window_end_utc'' then pv_window_end new else pv_window_end current),
       pv_maximum = (if given ''maximum_daily_amount_usd'' then pv_maximum new else pv_maximum current),
       pv_roles = (if given ''required_roles'' then pv_roles new else pv_roles current),
       pv_violation = (if given ''violation_action'' then pv_violation new else pv_violation current)\<rparr>)"

text \<open>The old policy as a dictionary, overwritten by the merged fields and the new version.\<close>

definition update_snapshot :: "policy_row \<Rightarrow> policy_values \<Rightarrow> int \<Rightarrow> policy_snapshot" where
  "update_snapshot p merged version =
     \<lparr>sn_policy_key = pr_policy_key p, sn_version = version, sn_name = pv_name merged,
      sn_operation = pv_operation merged, sn_status = pv_status merged, sn_asset = Some (pv_asset merged),
      sn_business_event = pv_business_event merged, sn_settlement = pv_settlement merged,
      sn_window = both_windows (pr_values p),
      sn_window_columns = Some (pv_window_start merged, pv_window_end merged),
      sn_maximum = map_option dec_str (pv_maximum merged), sn_roles = pv_roles merged,
      sn_violation = pv_violation merged\<rparr>"

definition FIELD_LABELS :: "(string \<times> string) list" where
  "FIELD_LABELS = [(''operation'', ''Operation''), (''status'', ''Status''), (''asset_id'', ''Scoped asset''),
     (''required_business_event'', ''Required business event''), (''settlement_requirement'', ''Settlement requirement''),
     (''allowed_window_start_utc'', ''Allowed window start (UTC)''), (''allowed_window_end_utc'', ''Allowed window end (UTC)''),
     (''maximum_daily_amount_usd'', ''Maximum issuance''), (''required_roles'', ''Required roles''),
     (''violation_action'', ''On violation'')]"

fun render_value :: "field_value option \<Rightarrow> string" where
  "render_value (Some (FRoles rs)) = (if rs = [] then ''none'' else py_join '', '' rs)"
| "render_value (Some (FText (Some t))) = t"
| "render_value (Some (FAmount (Some d))) = dec_str d"
| "render_value _ = ''not set''"

text \<open>The arrow of the summary is U+2192, which the model writes as ->.\<close>

definition summarize_change :: "policy_values \<Rightarrow> policy_values \<Rightarrow> string list \<Rightarrow> string" where
  "summarize_change current new material =
     (if material = [] then ''No material governance change.''
      else py_join ''; '' (map (\<lambda>f. (case map_of FIELD_LABELS f of Some l \<Rightarrow> l | None \<Rightarrow> f) @ '' changed: '' @
          render_value (map_of (editable_values current) f) @ '' -> '' @ render_value (map_of (editable_values new) f))
        material))"

datatype update_result = PolicyUpdated int "string list" bool | PolicyUnchanged int | PolicyConflict int

definition apply_policy_update ::
  "string \<Rightarrow> policy_row \<Rightarrow> string list \<Rightarrow> policy_values \<Rightarrow> int option \<Rightarrow> int \<Rightarrow> 'a policy_tables_scheme
     \<Rightarrow> update_result \<times> 'a policy_tables_scheme" where
  "apply_policy_update ws p named new expected now db =
     (if expected \<noteq> None \<and> expected \<noteq> Some (pr_version p) then (PolicyConflict (pr_version p), db)
      else
        let current = pr_values p;
            material = material_diff current named new;
            renamed = (''name'' \<in> set named \<and> pv_name new \<noteq> pv_name current);
            merged = merge_values current named new;
            next_version = pr_version p + (if material = [] then 0 else 1);
            matches = (\<lambda>r. pr_id r = pr_id p \<and> pr_workspace r = ws \<and> pr_version r = pr_version p);
            rows = map (\<lambda>r. if matches r then r\<lparr>pr_values := merged, pr_version := next_version, pr_updated_at := now\<rparr> else r)
                     (gs_policies db);
            version = \<lparr>vr_workspace = ws, vr_policy_id = pr_id p, vr_version = next_version, vr_status = pv_status merged,
                   vr_snapshot = update_snapshot p merged next_version, vr_changed = material,
                   vr_summary = summarize_change current new material, vr_changed_at = now\<rparr>
        in if material = [] \<and> \<not> renamed then (PolicyUnchanged (pr_version p), db)
           else if \<not> list_ex matches (gs_policies db) then
             (PolicyConflict (case find (\<lambda>r. pr_id r = pr_id p \<and> pr_workspace r = ws) (gs_policies db) of
                 Some r \<Rightarrow> pr_version (load_policy r) | None \<Rightarrow> pr_version p), db)
           else (PolicyUpdated next_version (sort material) renamed,
             db\<lparr>gs_policies := rows, gs_versions := gs_versions db @ (if material = [] then [] else [version])\<rparr>))"

section \<open>What the fields of an edit change\<close>

definition material_view :: "policy_values \<Rightarrow> field_value option list" where
  "material_view v = map (\<lambda>f. map_option comparable (map_of (editable_values v) f)) MATERIAL_FIELDS"

lemma material_view_eq:
  "material_view v = material_view w \<longleftrightarrow>
     pv_operation v = pv_operation w \<and> pv_status v = pv_status w \<and> pv_asset v = pv_asset w
     \<and> pv_business_event v = pv_business_event w \<and> pv_settlement v = pv_settlement w
     \<and> pv_window_start v = pv_window_start w \<and> pv_window_end v = pv_window_end w
     \<and> map_option dec_str (pv_maximum v) = map_option dec_str (pv_maximum w)
     \<and> pv_roles v = pv_roles w \<and> pv_violation v = pv_violation w"
  by (simp add: material_view_def MATERIAL_FIELDS_def editable_values_def)

lemma differs_fields:
  "differs v w ''operation'' \<longleftrightarrow> pv_operation v \<noteq> pv_operation w"
  "differs v w ''status'' \<longleftrightarrow> pv_status v \<noteq> pv_status w"
  "differs v w ''asset_id'' \<longleftrightarrow> pv_asset v \<noteq> pv_asset w"
  "differs v w ''required_business_event'' \<longleftrightarrow> pv_business_event v \<noteq> pv_business_event w"
  "differs v w ''settlement_requirement'' \<longleftrightarrow> pv_settlement v \<noteq> pv_settlement w"
  "differs v w ''allowed_window_start_utc'' \<longleftrightarrow> pv_window_start v \<noteq> pv_window_start w"
  "differs v w ''allowed_window_end_utc'' \<longleftrightarrow> pv_window_end v \<noteq> pv_window_end w"
  "differs v w ''maximum_daily_amount_usd'' \<longleftrightarrow> map_option dec_str (pv_maximum v) \<noteq> map_option dec_str (pv_maximum w)"
  "differs v w ''required_roles'' \<longleftrightarrow> pv_roles v \<noteq> pv_roles w"
  "differs v w ''violation_action'' \<longleftrightarrow> pv_violation v \<noteq> pv_violation w"
  by (simp_all add: differs_def editable_values_def)

lemma material_diff_Nil:
  "material_diff v named w = [] \<longleftrightarrow> (\<forall>f \<in> set MATERIAL_FIELDS. f \<in> set named \<longrightarrow> \<not> differs v w f)"
  unfolding material_diff_def filter_empty_conv by blast

text \<open>An edit with no material field leaves what the policy demands.\<close>

lemma merge_immaterial:
  assumes "material_diff v named w = []"
  shows "material_view (merge_values v named w) = material_view v"
proof -
  have "f \<in> set named \<Longrightarrow> \<not> differs v w f" if "f \<in> set MATERIAL_FIELDS" for f
    using assms that unfolding material_diff_Nil by blast
  note d = this [unfolded MATERIAL_FIELDS_def]
  show ?thesis
    unfolding material_view_eq merge_values_def Let_def
    using d [of "''operation''"] d [of "''status''"] d [of "''asset_id''"] d [of "''required_business_event''"]
      d [of "''settlement_requirement''"] d [of "''allowed_window_start_utc''"] d [of "''allowed_window_end_utc''"]
      d [of "''maximum_daily_amount_usd''"] d [of "''required_roles''"] d [of "''violation_action''"]
    by (simp add: differs_fields)
qed

section \<open>Values in the form they are read back\<close>

definition canonical_values :: "policy_values \<Rightarrow> bool" where
  "canonical_values v \<longleftrightarrow> py_upper (pv_operation v) = pv_operation v \<and> py_upper (pv_status v) = pv_status v
     \<and> nonempty_text (pv_asset v) = pv_asset v \<and> upper_text (pv_business_event v) = pv_business_event v
     \<and> upper_text (pv_settlement v) = pv_settlement v \<and> nonempty_text (pv_window_start v) = pv_window_start v
     \<and> nonempty_text (pv_window_end v) = pv_window_end v \<and> roles_tuple (pv_roles v) = pv_roles v
     \<and> py_upper (pv_violation v) = pv_violation v \<and> pv_violation v \<noteq> []"

lemma load_policy_id:
  assumes "canonical_values (pr_values r)" and "pr_version r \<ge> 1" and "pr_origin r \<noteq> []"
  shows "load_policy r = r"
  using assms by (simp add: load_policy_def canonical_values_def Let_def)

lemma canonical_merge:
  "canonical_values v \<Longrightarrow> canonical_values w \<Longrightarrow> canonical_values (merge_values v named w)"
  by (simp add: canonical_values_def merge_values_def Let_def)

lemma nonempty_text_some: "nonempty_text v = Some t \<Longrightarrow> v = Some t"
  by (auto simp: nonempty_text_def split: option.splits if_split_asm)

section \<open>Histories\<close>

text \<open>
  Policies are created, read and edited in any order. The second component is every copy of a policy a
  request has read; an edit may be built on any of them, however old. What is written has been validated.
\<close>

inductive policy_history :: "policy_tables \<Rightarrow> policy_row set \<Rightarrow> bool" where
  first: "policy_history \<lparr>gs_policies = [], gs_versions = []\<rparr> {}"
| created: "policy_history db copies \<Longrightarrow> fresh_id \<notin> pr_id ` set (gs_policies db) \<Longrightarrow> canonical_values v \<Longrightarrow> origin \<noteq> [] \<Longrightarrow>
    create_policy ws key v fresh_id origin now db = (res, db') \<Longrightarrow> policy_history db' copies"
| loaded: "policy_history db copies \<Longrightarrow> r \<in> set (gs_policies db) \<Longrightarrow> policy_history db (insert (load_policy r) copies)"
| edited: "policy_history db copies \<Longrightarrow> p \<in> copies \<Longrightarrow> canonical_values new \<Longrightarrow>
    apply_policy_update (pr_workspace p) p named new expected now db = (res, db') \<Longrightarrow> policy_history db' copies"

definition versions_of :: "'a policy_tables_scheme \<Rightarrow> string \<Rightarrow> version_row list" where
  "versions_of db i = filter (\<lambda>v. vr_policy_id v = i) (gs_versions db)"

definition snapshot_shows :: "policy_snapshot \<Rightarrow> policy_values \<Rightarrow> bool" where
  "snapshot_shows sn v \<longleftrightarrow> sn_operation sn = pv_operation v \<and> sn_status sn = pv_status v
     \<and> (case sn_asset sn of None \<Rightarrow> True | Some a \<Rightarrow> a = pv_asset v)
     \<and> sn_business_event sn = pv_business_event v \<and> sn_settlement sn = pv_settlement v
     \<and> (case sn_window_columns sn of None \<Rightarrow> sn_window sn = both_windows v
          | Some w \<Rightarrow> w = (pv_window_start v, pv_window_end v))
     \<and> sn_maximum sn = map_option dec_str (pv_maximum v) \<and> sn_roles sn = pv_roles v
     \<and> sn_violation sn = pv_violation v"

lemma snapshot_shows_view:
  "material_view v = material_view w \<Longrightarrow> snapshot_shows sn v = snapshot_shows sn w"
  unfolding material_view_eq snapshot_shows_def both_windows_def by (simp split: option.split)

definition row_history :: "'a policy_tables_scheme \<Rightarrow> policy_row \<Rightarrow> bool" where
  "row_history db r \<longleftrightarrow> canonical_values (pr_values r) \<and> pr_origin r \<noteq> [] \<and> pr_version r \<ge> 1
     \<and> map vr_version (versions_of db (pr_id r)) = [1..pr_version r]
     \<and> snapshot_shows (vr_snapshot (last (versions_of db (pr_id r)))) (pr_values r)"

definition copy_of :: "policy_row \<Rightarrow> policy_row \<Rightarrow> bool" where
  "copy_of c r \<longleftrightarrow> pr_id r = pr_id c \<and> pr_workspace r = pr_workspace c \<and> pr_version c \<le> pr_version r
     \<and> (pr_version c = pr_version r \<longrightarrow> material_view (pr_values c) = material_view (pr_values r))"

definition history_ok :: "policy_tables \<Rightarrow> policy_row set \<Rightarrow> bool" where
  "history_ok db copies \<longleftrightarrow> distinct (map pr_id (gs_policies db))
     \<and> (\<forall>r \<in> set (gs_policies db). row_history db r)
     \<and> vr_policy_id ` set (gs_versions db) \<subseteq> pr_id ` set (gs_policies db)
     \<and> (\<forall>c \<in> copies. canonical_values (pr_values c) \<and> (\<exists>r \<in> set (gs_policies db). copy_of c r))"

lemma create_policy_cases:
  assumes "create_policy ws key v fresh_id origin now db = (res, db')"
  obtains (duplicate) "db' = db"
  | (new) row version where
      "db' = db\<lparr>gs_policies := gs_policies db @ [row], gs_versions := gs_versions db @ [version]\<rparr>"
      "pr_id row = fresh_id" "pr_version row = 1" "pr_origin row = origin"
      "pv_violation v \<noteq> [] \<longrightarrow> pr_values row = v" "vr_policy_id version = fresh_id" "vr_version version = 1"
      "vr_snapshot version = creation_snapshot key v"
proof -
  let ?row = "\<lparr>pr_id = fresh_id, pr_workspace = ws, pr_policy_key = key, pr_version = 1,
      pr_values = v\<lparr>pv_violation := (if pv_violation v = [] then VIOLATION_ACTION_DENY else pv_violation v)\<rparr>,
      pr_origin = origin, pr_updated_at = now\<rparr>"
  let ?version = "\<lparr>vr_workspace = ws, vr_policy_id = fresh_id, vr_version = 1, vr_status = pv_status v,
      vr_snapshot = creation_snapshot key v, vr_changed = [], vr_summary = CREATED_SUMMARY origin, vr_changed_at = now\<rparr>"
  show ?thesis
  proof (cases "\<exists>r \<in> set (gs_policies db). pr_workspace r = ws \<and> pr_policy_key r = key")
    case False
    then have "db' = db\<lparr>gs_policies := gs_policies db @ [?row], gs_versions := gs_versions db @ [?version]\<rparr>"
      using assms unfolding create_policy_def Let_def by (simp only: if_False prod.inject)
    then show ?thesis by (rule new) simp_all
  qed (use assms duplicate in \<open>simp add: create_policy_def\<close>)
qed

lemma creation_shows: "pv_violation v \<noteq> [] \<Longrightarrow> snapshot_shows (creation_snapshot key v) v"
  by (simp add: snapshot_shows_def creation_snapshot_def)

lemma created_ok:
  assumes ok: "history_ok db copies" and fresh: "fresh_id \<notin> pr_id ` set (gs_policies db)"
    and v: "canonical_values v" "origin \<noteq> []" and c: "create_policy ws key v fresh_id origin now db = (res, db')"
  shows "history_ok db' copies"
  using c
proof (cases rule: create_policy_cases)
  case (new row version)
  have row: "pr_values row = v" using new(5) v(1) by (simp add: canonical_values_def)
  have none: "versions_of db fresh_id = []"
    using ok fresh unfolding history_ok_def versions_of_def filter_empty_conv by blast
  have at: "versions_of db' i = versions_of db i @ (if i = fresh_id then [version] else [])" for i
    by (simp add: versions_of_def new(1,6))
  have "row_history db' row"
    using v at none new(2,3,4,7,8) row creation_shows [of v key] unfolding row_history_def
    by (simp add: canonical_values_def)
  moreover have "row_history db' r" if r: "r \<in> set (gs_policies db)" for r
  proof -
    have "pr_id r \<noteq> fresh_id" using fresh r by blast
    then have "versions_of db' (pr_id r) = versions_of db (pr_id r)" by (simp add: at)
    moreover have "row_history db r" using ok r by (simp add: history_ok_def)
    ultimately show ?thesis unfolding row_history_def by simp
  qed
  moreover have "distinct (map pr_id (gs_policies db'))"
    using ok fresh new(2) by (simp add: new(1) history_ok_def)
  moreover have "vr_policy_id ` set (gs_versions db') \<subseteq> pr_id ` set (gs_policies db')"
    using ok new(2,6) by (auto simp: new(1) history_ok_def)
  ultimately show ?thesis using ok by (auto simp: history_ok_def new(1))
qed (use ok in simp)

lemma loaded_ok:
  assumes ok: "history_ok db copies" and r: "r \<in> set (gs_policies db)"
  shows "history_ok db (insert (load_policy r) copies)"
proof -
  have h: "row_history db r" using ok r by (simp add: history_ok_def)
  then have "load_policy r = r" unfolding row_history_def by (intro load_policy_id) simp_all
  then show ?thesis using ok r h by (auto simp: history_ok_def row_history_def copy_of_def)
qed

lemma apply_policy_update_cases:
  assumes "apply_policy_update ws p named new expected now db = (res, db')"
  obtains (same) "db' = db"
  | (written) hit version where
      "hit = (\<lambda>r. pr_id r = pr_id p \<and> pr_workspace r = ws \<and> pr_version r = pr_version p)"
      "\<exists>r \<in> set (gs_policies db). hit r"
      "db' = db\<lparr>gs_policies := map (\<lambda>r. if hit r then r\<lparr>pr_values := merge_values (pr_values p) named new,
          pr_version := pr_version p + (if material_diff (pr_values p) named new = [] then 0 else 1), pr_updated_at := now\<rparr>
          else r) (gs_policies db),
        gs_versions := gs_versions db @ (if material_diff (pr_values p) named new = [] then [] else [version])\<rparr>"
      "vr_policy_id version = pr_id p" "vr_version version = pr_version p + 1"
      "vr_snapshot version = update_snapshot p (merge_values (pr_values p) named new) (pr_version p + 1)"
proof -
  let ?m = "material_diff (pr_values p) named new = []"
  let ?hit = "\<lambda>r. pr_id r = pr_id p \<and> pr_workspace r = ws \<and> pr_version r = pr_version p"
  let ?version = "\<lparr>vr_workspace = ws, vr_policy_id = pr_id p, vr_version = pr_version p + 1,
      vr_status = pv_status (merge_values (pr_values p) named new),
      vr_snapshot = update_snapshot p (merge_values (pr_values p) named new) (pr_version p + 1),
      vr_changed = material_diff (pr_values p) named new,
      vr_summary = summarize_change (pr_values p) new (material_diff (pr_values p) named new), vr_changed_at = now\<rparr>"
  show ?thesis
  proof (cases "db' = db")
    case False
    then have "\<exists>r \<in> set (gs_policies db). ?hit r"
      and "db' = db\<lparr>gs_policies := map (\<lambda>r. if ?hit r then r\<lparr>pr_values := merge_values (pr_values p) named new,
          pr_version := pr_version p + (if ?m then 0 else 1), pr_updated_at := now\<rparr> else r) (gs_policies db),
        gs_versions := gs_versions db @ (if ?m then [] else [?version])\<rparr>"
      using assms unfolding apply_policy_update_def Let_def
      by (auto simp: list_ex_iff split: if_split_asm)
    then show ?thesis by (intro written [of ?hit ?version]) simp_all
  qed (rule same)
qed

lemma update_shows: "snapshot_shows (update_snapshot p v n) v"
  by (simp add: snapshot_shows_def update_snapshot_def)

lemma history_row:
  assumes "history_ok db copies" and "r \<in> set (gs_policies db)"
  shows "row_history db r"
  using assms by (simp add: history_ok_def)

lemma history_unique:
  assumes "history_ok db copies" and "r \<in> set (gs_policies db)" and "s \<in> set (gs_policies db)" and "pr_id r = pr_id s"
  shows "r = s"
  using assms by (auto simp: history_ok_def distinct_map dest: inj_onD)

lemma edited_ok:
  assumes ok: "history_ok db copies" and p: "p \<in> copies" and new: "canonical_values new"
    and u: "apply_policy_update (pr_workspace p) p named new expected now db = (res, db')"
  shows "history_ok db' copies"
  using u
proof (cases rule: apply_policy_update_cases)
  case (written hit version)
  let ?merged = "merge_values (pr_values p) named new"
  let ?mat = "material_diff (pr_values p) named new \<noteq> []"
  let ?upd = "\<lambda>r. r\<lparr>pr_values := ?merged, pr_version := pr_version p + (if ?mat then 1 else 0), pr_updated_at := now\<rparr>"
  let ?step = "\<lambda>r. if hit r then ?upd r else r"
  have db': "gs_policies db' = map ?step (gs_policies db)" "gs_versions db' = gs_versions db @ (if ?mat then [version] else [])"
    using written(3) by simp_all
  have ids: "map pr_id (gs_policies db') = map pr_id (gs_policies db)"
    by (simp add: db'(1))
  obtain r0 where r0: "r0 \<in> set (gs_policies db)" "hit r0" using written(2) by blast
  have p_ok: "canonical_values (pr_values p)" using ok p by (simp add: history_ok_def)
  have same: "material_view (pr_values p) = material_view (pr_values r)" if "r \<in> set (gs_policies db)" "hit r" for r
  proof -
    obtain r' where "r' \<in> set (gs_policies db)" "copy_of p r'" using ok p by (auto simp: history_ok_def)
    moreover from this that have "r' = r" by (intro history_unique [OF ok]) (simp_all add: copy_of_def written(1))
    ultimately show ?thesis using that(2) by (simp add: copy_of_def written(1))
  qed
  have at: "versions_of db' i = versions_of db i @ (if ?mat \<and> i = pr_id p then [version] else [])" for i
    using written(4) by (simp add: versions_of_def db'(2))
  have rows: "row_history db' (?step r)" if r: "r \<in> set (gs_policies db)" for r
  proof -
    note h = history_row [OF ok r, unfolded row_history_def]
    show ?thesis
    proof (cases "hit r")
      case True
      then have id: "pr_id r = pr_id p" "pr_version r = pr_version p" by (simp_all add: written(1))
      have can: "canonical_values ?merged" using p_ok new by (rule canonical_merge)
      show ?thesis
      proof (cases ?mat)
        case True
        have "[1..pr_version p + 1] = [1..pr_version p] @ [pr_version p + 1]"
          using h id by (simp add: upto_rec2)
        then show ?thesis
          using h id can True \<open>hit r\<close> update_shows unfolding row_history_def by (simp add: at written(5,6))
      next
        case False
        then have view: "material_view ?merged = material_view (pr_values r)"
          using merge_immaterial same [OF r \<open>hit r\<close>] by simp
        have "versions_of db' (pr_id r) = versions_of db (pr_id r)" using False by (simp add: at)
        then show ?thesis
          using h id can False \<open>hit r\<close> snapshot_shows_view [OF view] unfolding row_history_def by simp
      qed
    next
      case False
      have "\<not> (?mat \<and> pr_id r = pr_id p)"
      proof
        assume "?mat \<and> pr_id r = pr_id p"
        then have "r = r0" using history_unique [OF ok r r0(1)] r0(2) by (simp add: written(1))
        with False r0(2) show False by blast
      qed
      then have "versions_of db' (pr_id r) = versions_of db (pr_id r)" by (simp add: at)
      then show ?thesis using h False unfolding row_history_def by simp
    qed
  qed
  have copies: "\<exists>r \<in> set (gs_policies db'). copy_of c r" if c: "c \<in> copies" for c
  proof -
    obtain r where r: "r \<in> set (gs_policies db)" "copy_of c r" using ok c by (auto simp: history_ok_def)
    have "copy_of c (?step r)"
    proof (cases "hit r")
      case True
      have "material_view ?merged = material_view (pr_values r)" if "\<not> ?mat"
        using merge_immaterial that same [OF r(1) True] by simp
      then show ?thesis using r(2) True by (auto simp: copy_of_def written(1))
    qed (use r(2) in simp)
    moreover have "?step r \<in> set (gs_policies db')" using r(1) by (simp add: db'(1))
    ultimately show ?thesis by blast
  qed
  have "pr_id p \<in> pr_id ` set (gs_policies db)" using r0 unfolding written(1) by (metis image_eqI)
  then have "vr_policy_id ` set (gs_versions db') \<subseteq> pr_id ` set (gs_policies db)"
    using ok written(4) by (auto simp: db'(2) history_ok_def)
  also have "\<dots> = pr_id ` set (gs_policies db')" using ids by (metis set_map)
  finally have owned: "vr_policy_id ` set (gs_versions db') \<subseteq> pr_id ` set (gs_policies db')" .
  have "distinct (map pr_id (gs_policies db'))" unfolding ids using ok by (simp add: history_ok_def)
  moreover have "\<forall>r \<in> set (gs_policies db'). row_history db' r"
    unfolding db'(1) set_map using rows by (simp only: ball_simps) blast
  moreover have "\<forall>c \<in> copies. canonical_values (pr_values c)" using ok by (simp add: history_ok_def)
  ultimately show ?thesis using owned copies unfolding history_ok_def by blast
qed (use ok in simp)

lemma policy_history_ok: "policy_history db copies \<Longrightarrow> history_ok db copies"
proof (induction rule: policy_history.induct)
  case first
  show ?case by (simp add: history_ok_def)
next
  case created
  then show ?case by (blast intro: created_ok)
next
  case loaded
  then show ?case by (blast intro: loaded_ok)
next
  case edited
  then show ?case by (blast intro: edited_ok)
qed

section \<open>Properties\<close>

text \<open>
  The history of a policy is complete. After any history of creations, readings and edits, where
  an edit may be built on a copy read at any earlier time: the versions of a policy are recorded once
  each, in order, from 1 to the version the policy carries, and the newest snapshot shows what the
  policy demands now.
\<close>

theorem policy_history_complete:
  assumes "policy_history db copies" and "r \<in> set (gs_policies db)"
  shows "map vr_version (versions_of db (pr_id r)) = [1..pr_version r]
    \<and> snapshot_shows (vr_snapshot (last (versions_of db (pr_id r)))) (pr_values r)"
  using history_row [OF policy_history_ok [OF assms(1)] assms(2)] by (simp add: row_history_def)

text \<open>
  A stale edit is refused. An edit built on a copy whose version the policy has left behind
  changes neither the policies nor their history, whatever version its request expects.
\<close>

theorem stale_edit_refused:
  assumes "policy_history db copies" and "p \<in> copies"
    and "r \<in> set (gs_policies db)" "pr_id r = pr_id p" "pr_version r \<noteq> pr_version p"
  shows "\<exists>n. apply_policy_update (pr_workspace p) p named new expected now db \<in> {(PolicyConflict n, db), (PolicyUnchanged n, db)}"
proof -
  have "\<not> list_ex (\<lambda>r. pr_id r = pr_id p \<and> pr_workspace r = pr_workspace p \<and> pr_version r = pr_version p) (gs_policies db)"
    using history_unique [OF policy_history_ok [OF assms(1)] assms(3)] assms(4,5) unfolding list_ex_iff by metis
  then show ?thesis unfolding apply_policy_update_def Let_def by simp
qed

section \<open>The properties on an edited policy\<close>

definition demo_values :: policy_values where
  "demo_values = \<lparr>pv_name = ''Mint'', pv_operation = OPERATION_MINT, pv_status = GP_STATUS_DRAFT, pv_asset = Some ''a1'',
     pv_business_event = None, pv_settlement = None, pv_window_start = Some ''08:00'', pv_window_end = Some ''17:00'',
     pv_maximum = None, pv_roles = [], pv_violation = VIOLATION_ACTION_DENY\<rparr>"

definition demo_created :: policy_tables where
  "demo_created = snd (create_policy ''w'' ''POL-1'' demo_values ''p1'' ORIGIN_CUSTOMER 1 \<lparr>gs_policies = [], gs_versions = []\<rparr>)"

definition demo_copy :: policy_row where
  "demo_copy = hd (gs_policies demo_created)"

definition demo_edit :: "string list \<Rightarrow> policy_values \<Rightarrow> policy_row \<Rightarrow> policy_tables \<Rightarrow> update_result \<times> policy_tables" where
  "demo_edit named new p db = apply_policy_update (pr_workspace p) p named new None 2 db"

definition demo_active :: policy_tables where
  "demo_active = snd (demo_edit [''status''] (demo_values\<lparr>pv_status := GP_STATUS_ACTIVE\<rparr>) demo_copy demo_created)"

lemma demo_rows:
  "gs_policies demo_created = [\<lparr>pr_id = ''p1'', pr_workspace = ''w'', pr_policy_key = ''POL-1'', pr_version = 1,
     pr_values = demo_values, pr_origin = ORIGIN_CUSTOMER, pr_updated_at = 1\<rparr>]"
  "gs_policies demo_active = [\<lparr>pr_id = ''p1'', pr_workspace = ''w'', pr_policy_key = ''POL-1'', pr_version = 2,
     pr_values = demo_values\<lparr>pv_status := GP_STATUS_ACTIVE\<rparr>, pr_origin = ORIGIN_CUSTOMER, pr_updated_at = 2\<rparr>]"
  by code_simp+

lemma demo_canonical: "canonical_values demo_values" "canonical_values (demo_values\<lparr>pv_status := GP_STATUS_ACTIVE\<rparr>)"
  by code_simp+

lemma demo_policy_history: "policy_history demo_active {load_policy demo_copy}"
proof -
  have "policy_history demo_created {}"
    unfolding demo_created_def
    by (rule policy_history.created [OF policy_history.first _ demo_canonical(1) _ surjective_pairing]) simp_all
  then have h: "policy_history demo_created {load_policy demo_copy}"
    by (rule policy_history.loaded) (simp add: demo_copy_def demo_rows(1))
  have "load_policy demo_copy = demo_copy" by code_simp
  with policy_history.edited [OF h _ demo_canonical(2) surjective_pairing, of demo_copy "[''status'']" None 2]
  show ?thesis by (simp add: demo_active_def demo_edit_def)
qed

theorem policy_history_complete_witness:
  "map vr_version (versions_of demo_active ''p1'') = [1..2]
   \<and> sn_status (vr_snapshot (last (versions_of demo_active ''p1''))) = GP_STATUS_ACTIVE"
  using policy_history_complete [OF demo_policy_history, of "hd (gs_policies demo_active)"]
  by (simp add: demo_rows(2) snapshot_shows_def)

theorem stale_edit_refused_witness:
  "snd (demo_edit [''status''] (demo_values\<lparr>pv_status := GP_STATUS_DISABLED\<rparr>) demo_copy demo_active) = demo_active"
proof -
  have c: "demo_copy \<in> {load_policy demo_copy}" by code_simp
  have r: "hd (gs_policies demo_active) \<in> set (gs_policies demo_active)" by (simp add: demo_rows(2))
  have "\<exists>n. demo_edit [''status''] (demo_values\<lparr>pv_status := GP_STATUS_DISABLED\<rparr>) demo_copy demo_active
      \<in> {(PolicyConflict n, demo_active), (PolicyUnchanged n, demo_active)}"
    unfolding demo_edit_def by (rule stale_edit_refused [OF demo_policy_history c r]) (simp_all add: demo_rows demo_copy_def)
  then show ?thesis by auto
qed

section \<open>Where the storage departs from its documentation\<close>

text \<open>
  A rename does not consume a version, so a concurrent edit of another field built before it writes the
  old name back without a conflict.
\<close>

lemma concurrent_edit_reverts_rename:
  "let renamed = snd (demo_edit [''name''] (demo_values\<lparr>pv_name := ''New''\<rparr>) demo_copy demo_created);
       edited = snd (demo_edit [''status''] (demo_values\<lparr>pv_status := GP_STATUS_ACTIVE\<rparr>) demo_copy renamed)
   in map (pv_name \<circ> pr_values) (gs_policies renamed) = [''New'']
      \<and> map (pv_name \<circ> pr_values) (gs_policies edited) = [''Mint'']"
  by code_simp

text \<open>
  The snapshot of a new version keeps the window of the old one under \<open>allowed_window_utc\<close>, and the
  snapshot of a creation has no asset.
\<close>

lemma snapshot_keeps_old_window:
  "let edited = snd (demo_edit [''allowed_window_end_utc''] (demo_values\<lparr>pv_window_end := Some ''20:00''\<rparr>) demo_copy demo_created);
       snapshot = vr_snapshot (last (gs_versions edited))
   in sn_window snapshot = Some (''08:00'', ''17:00'') \<and> sn_window_columns snapshot = Some (Some ''08:00'', Some ''20:00'')"
  by code_simp

lemma creation_snapshot_drops_asset:
  "map (pv_asset \<circ> pr_values) (gs_policies demo_created) = [Some ''a1''] \<and> map (sn_asset \<circ> vr_snapshot) (gs_versions demo_created) = [None]"
  by code_simp

end
