(* ===== verification/Json_Text.thy ===== *)
theory Json_Text
  imports Canonical_JSON
begin

text \<open>
  \<open>json.dumps(value, sort_keys=True)\<close> with the separators Python gives it by default, a comma and a
  colon each followed by a space, and the proof that two documents with one text are equal up to the
  order of keys. The text without the spaces outside its strings is the text of \<open>Canonical_JSON\<close>.
\<close>

fun spaced_dumps :: "json \<Rightarrow> string" where
  "spaced_dumps JNull = ''null''"
| "spaced_dumps (JBool b) = (if b then ''true'' else ''false'')"
| "spaced_dumps (JInt i) = str_int i"
| "spaced_dumps (JFloat r) = r"
| "spaced_dumps (JStr s) = json_string s"
| "spaced_dumps (JList xs) = ''['' @ py_join '', '' (map spaced_dumps xs) @ '']''"
| "spaced_dumps (JDict items) =
     ''{'' @ py_join '', '' (map (\<lambda>(k, text). json_string k @ '': '' @ text)
       (sort_items (map (\<lambda>(k, v). (k, spaced_dumps v)) items))) @ ''}''"

section \<open>Spaces outside strings\<close>

fun unspace :: "bool \<Rightarrow> string \<Rightarrow> string" where
  "unspace quoted [] = []"
| "unspace False (c # cs) =
     (if c = CHR '' '' then unspace False cs else c # unspace (c = CHR 0x22) cs)"
| "unspace True [c] = [c]"
| "unspace True (c # d # cs) =
     (if c = CHR 0x5C then c # d # unspace True cs else c # unspace (c \<noteq> CHR 0x22) (d # cs))"

lemma unspace_plain:
  "list_all (\<lambda>c. c \<noteq> CHR '' '' \<and> c \<noteq> CHR 0x22) t \<Longrightarrow> unspace False (t @ r) = t @ unspace False r"
  by (induction t) simp_all

lemma unspace_word: "list_all word_char t \<Longrightarrow> unspace False (t @ r) = t @ unspace False r"
proof (rule unspace_plain)
  assume "list_all word_char t"
  moreover have "\<not> word_char (CHR '' '')" "\<not> word_char (CHR 0x22)" by code_simp+
  ultimately show "list_all (\<lambda>c. c \<noteq> CHR '' '' \<and> c \<noteq> CHR 0x22) t" unfolding list_all_iff by metis
qed

lemma unspace_quoted: "c \<noteq> CHR 0x5C \<Longrightarrow> c \<noteq> CHR 0x22 \<Longrightarrow> unspace True (c # r) = c # unspace True r"
  by (cases r) simp_all

lemma unspace_escape: "unspace True (escape_char c @ r) = escape_char c @ unspace True r"
proof -
  have hex: "hex_digit n \<noteq> CHR 0x5C \<and> hex_digit n \<noteq> CHR 0x22" if "n < 16" for n :: nat
  proof -
    have "\<forall>m \<in> set [0..<16]. hex_digit m \<noteq> CHR 0x5C \<and> hex_digit m \<noteq> CHR 0x22" by code_simp
    with that show ?thesis by auto
  qed
  have "(of_char c :: nat) < 256" by simp
  then have small: "(of_char c :: nat) div 16 < 16" by (intro less_mult_imp_div_less) linarith
  have zero: "CHR ''0'' \<noteq> CHR 0x5C" "CHR ''0'' \<noteq> CHR 0x22" by simp_all
  show ?thesis
    using hex [OF small] hex [of "of_char c mod 16"]
    by (simp add: escape_char_def Let_def unspace_quoted)
qed

lemma unspace_text: "unspace True (concat (map escape_char s) @ CHR 0x22 # r) = concat (map escape_char s) @ CHR 0x22 # unspace False r"
proof (induction s)
  case Nil
  show ?case by (cases r) simp_all
next
  case (Cons c s)
  then show ?case by (simp add: unspace_escape)
qed

lemma unspace_string: "unspace False (json_string s @ r) = json_string s @ unspace False r"
  by (simp add: json_string_def unspace_text)

lemma unspace_join:
  "\<forall>x \<in> set xs. \<forall>r. unspace False (f x @ r) = g x @ unspace False r \<Longrightarrow>
     unspace False (py_join '', '' (map f xs) @ r) = py_join '','' (map g xs) @ unspace False r"
proof (induction xs arbitrary: r)
  case (Cons x xs)
  then show ?case by (cases xs) simp_all
qed simp

lemma unspace_spaced: "json_ok j \<Longrightarrow> unspace False (spaced_dumps j @ r) = json_dumps j @ unspace False r"
proof (induction j arbitrary: r)
  case (JInt i)
  have "list_all word_char (str_int i)" using str_int_chars [of i] digit_word_char unfolding list_all_iff by blast
  then show ?case by (simp add: unspace_word)
next
  case (JBool b)
  have "list_all word_char ''true''" "list_all word_char ''false''" by code_simp+
  then show ?case by (simp only: spaced_dumps.simps json_dumps.simps unspace_word split: if_split) simp
next
  case JNull
  have "list_all word_char ''null''" by code_simp
  then show ?case by (simp only: spaced_dumps.simps json_dumps.simps unspace_word)
next
  case (JFloat t)
  then have "list_all word_char t" using float_text_chars by simp
  then show ?case by (simp add: unspace_word)
next
  case (JStr t)
  show ?case by (simp add: unspace_string)
next
  case (JList xs)
  then have "\<forall>x \<in> set xs. \<forall>r. unspace False (spaced_dumps x @ r) = json_dumps x @ unspace False r"
    by (simp add: list_all_iff)
  from unspace_join [OF this, of "'']'' @ r"] show ?case by simp
next
  case (JDict items)
  let ?f = "\<lambda>(k, v). json_string k @ '': '' @ spaced_dumps v" and ?g = "\<lambda>(k, v). json_string k @ '':'' @ json_dumps v"
  have "unspace False (spaced_dumps v @ r) = json_dumps v @ unspace False r" if "(k, v) \<in> set items" for k v r
    using JDict.IH [of "(k, v)" v r] JDict.prems that by (auto simp: snds.simps list_all_iff)
  then have "\<forall>x \<in> set (sort_items items). \<forall>r. unspace False (?f x @ r) = ?g x @ unspace False r"
    by (auto simp: unspace_string)
  from unspace_join [OF this, of "''}'' @ r"] show ?case
    by (simp add: sort_items_map split_beta comp_def)
qed

lemma spaced_bytes_eq:
  assumes "json_ok j" and "json_ok k" and "utf8 (spaced_dumps j) = utf8 (spaced_dumps k)"
  shows "canon j = canon k"
proof -
  have "spaced_dumps j = spaced_dumps k" using assms(3) by (simp add: utf8_inj)
  then have "json_dumps j = json_dumps k"
    using unspace_spaced [OF assms(1), of "[]"] unspace_spaced [OF assms(2), of "[]"] by simp
  then show ?thesis using canonical_bytes_eq [OF assms(1,2)] by simp
qed

end
