(* ===== verification/Policy_Enforcement.thy ===== *)
theory Policy_Enforcement
  imports Policy_Storage Json_Text "HOL-Library.Product_Lexorder"
begin

text \<open>
  The enforcement evaluation of a response action,
  \<open>services/api/app/domains/governance_policy/enforcement.py\<close> with \<open>build_context\<close>,
  \<open>daily_total_usd\<close> and \<open>record_evaluation\<close> of \<open>service.py\<close>: the facts of one action are read from
  the tables, the policy that governs it is found, the engine decides, and the verdict is recorded.

  The store holds the rows of every workspace. The session \<open>db_session\<close> says what the database does:
  which tables exist, which statements fail, which texts it reads as identifiers and how it stores an
  amount; \<open>ds_py_uuid\<close> is \<open>uuid.UUID\<close> of the standard library and \<open>ds_authority\<close> what the membership and
  the permissions of \<open>pilot.py\<close> say of an operator. A statement raises when it fails or when a text given as an identifier is none. Every read
  that may fail has its own savepoint, so a failure is that of one statement. Of rows with equal sort
  keys the database returns the first stored. Logging is left out. Instants are microseconds.
\<close>

section \<open>The database\<close>

datatype db_statement =
    ProbeTable string | ProbeColumn | ProbeApprovalColumn | ReadAlert | ReadTarget | ReadDetectionById | ReadDetectionByAlert
  | ReadDetectionByIncident | ReadIssuance | ReadPolicy | ReadScope | ReadScopePolicies | ReadExisting
  | ReadTotal | InsertEvaluation | ReadEvaluation | ReadVersion | ReadApprovals | ReadIncident

record db_session =
  ds_tables :: "string list"
  ds_roles_column :: bool
  ds_fails :: "db_statement \<Rightarrow> bool"
  ds_uuid :: "string \<Rightarrow> string option"
  ds_numeric :: "dec \<Rightarrow> dec option"
  ds_py_uuid :: "string \<Rightarrow> bool"
  ds_authority :: "string \<Rightarrow> string \<Rightarrow> bool option"

abbreviation POLICIES_TABLE :: string where
  "POLICIES_TABLE \<equiv> ''governance_policies''"
abbreviation VERSIONS_TABLE :: string where
  "VERSIONS_TABLE \<equiv> ''governance_policy_versions''"
abbreviation EVALUATIONS_TABLE :: string where
  "EVALUATIONS_TABLE \<equiv> ''governance_policy_evaluations''"

record alert_link =
  lk_alert_id :: string
  lk_alert_workspace :: string
  lk_alert_target :: "string option"

record target_link =
  lk_target_id :: string
  lk_target_workspace :: string
  lk_target_asset :: "string option"

record detection_row =
  dr_id :: string
  dr_workspace :: string
  dr_operation :: "string option"
  dr_amount :: "dec option"
  dr_asset :: "string option"
  dr_tx_hash :: "string option"
  dr_external_reference :: pyval
  dr_authorization_id :: pyval
  dr_linked_alert :: "string option"
  dr_linked_incident :: "string option"
  dr_detected_at :: int

record issuance_row =
  ir_id :: string
  ir_workspace :: string
  ir_asset :: string
  ir_operation :: "string option"
  ir_settlement :: "string option"
  ir_reference :: "string option"
  ir_authorized_at :: int

record evaluation_row =
  er_workspace :: string
  er_policy_id :: "string option"
  er_asset_id :: "string option"
  er_incident_id :: "string option"
  er_decision :: policy_decision
  er_amount :: "dec option"
  er_roles :: "string list option"
  er_action :: "string option"
  er_digest :: "string option"
  er_evaluated_at :: int

record gov_store = policy_tables +
  gv_evaluations :: "evaluation_row list"
  gv_alerts :: "alert_link list"
  gv_targets :: "target_link list"
  gv_detections :: "detection_row list"
  gv_issuances :: "issuance_row list"

text \<open>\<open>ORDER BY key LIMIT 1\<close>.\<close>

definition first_by :: "('a \<Rightarrow> 'k::linorder) \<Rightarrow> 'a list \<Rightarrow> 'a option" where
  "first_by key xs = (case sort_key key xs of [] \<Rightarrow> None | x # _ \<Rightarrow> Some x)"

text \<open>
  A statement: \<open>None\<close> when it raises. \<open>with_uuid\<close> is a statement with one parameter cast to an identifier,
  where a missing value is \<open>NULL\<close>.
\<close>

definition statement :: "db_session \<Rightarrow> db_statement \<Rightarrow> 'a \<Rightarrow> 'a option" where
  "statement E q v = (if ds_fails E q then None else Some v)"

definition cast_uuid :: "db_session \<Rightarrow> string option \<Rightarrow> string option option" where
  "cast_uuid E v = (case v of None \<Rightarrow> Some None | Some t \<Rightarrow> map_option Some (ds_uuid E t))"

definition with_uuid :: "db_session \<Rightarrow> db_statement \<Rightarrow> string option \<Rightarrow> (string option \<Rightarrow> 'a) \<Rightarrow> 'a option" where
  "with_uuid E q v f = (case cast_uuid E v of None \<Rightarrow> None | Some u \<Rightarrow> statement E q (f u))"

section \<open>Facts that cannot be read\<close>

definition SUPPLEMENTARY_FACTS :: "string list" where
  "SUPPLEMENTARY_FACTS = [''threat_detection'', ''table:threat_detections'', ''asset_authorized_issuance'',
     ''table:asset_authorized_issuances'']"

definition FACT_REASON_CODES :: "(string \<times> string) list" where
  "FACT_REASON_CODES = [(''threat_detection'', DETECTION_FACTS_UNAVAILABLE),
     (''table:threat_detections'', DETECTION_FACTS_UNAVAILABLE),
     (''asset_authorized_issuance'', ISSUANCE_FACTS_UNAVAILABLE),
     (''table:asset_authorized_issuances'', ISSUANCE_FACTS_UNAVAILABLE)]"

definition is_supplementary_fact :: "string \<Rightarrow> bool" where
  "is_supplementary_fact key = (py_strip key \<in> set SUPPLEMENTARY_FACTS)"

definition facts_unavailable_reason_codes :: "string list \<Rightarrow> string list" where
  "facts_unavailable_reason_codes facts =
     (let specific = fold (\<lambda>f codes. case map_of FACT_REASON_CODES (py_strip f) of
            None \<Rightarrow> codes | Some c \<Rightarrow> append_new c codes) facts []
      in if specific = [] then [] else AUTHORITATIVE_FACTS_UNAVAILABLE # specific)"

definition BUSINESS_EVENT_FOR_OPERATION :: "(string \<times> string) list" where
  "BUSINESS_EVENT_FOR_OPERATION = [(OPERATION_MINT, BUSINESS_EVENT_SUBSCRIPTION),
     (OPERATION_BURN, BUSINESS_EVENT_REDEMPTION), (OPERATION_TRANSFER, BUSINESS_EVENT_TRANSFER_INSTRUCTION)]"

definition SETTLEMENT_CLEARED_STATES :: "string list" where
  "SETTLEMENT_CLEARED_STATES = [''settled'', ''cleared'', ''complete'', ''completed'', ''final'', ''finalized'']"

definition SETTLEMENT_PENDING_STATES :: "string list" where
  "SETTLEMENT_PENDING_STATES = [''pending'', ''in_progress'', ''processing'', ''submitted'']"

definition SETTLEMENT_FAILED_STATES :: "string list" where
  "SETTLEMENT_FAILED_STATES = [''failed'', ''rejected'', ''cancelled'', ''canceled'', ''reversed'']"

definition normalize_settlement_state :: "pyval \<Rightarrow> string option" where
  "normalize_settlement_state v = (let key = lower_key v in
     if key = [] then None
     else if key \<in> set SETTLEMENT_CLEARED_STATES then Some SETTLEMENT_CLEARED
     else if key \<in> set SETTLEMENT_PENDING_STATES then Some SETTLEMENT_PENDING
     else if key \<in> set SETTLEMENT_FAILED_STATES then Some SETTLEMENT_FAILED
     else None)"

definition enf_text :: "pyval \<Rightarrow> string option" where
  "enf_text v = (let t = py_strip (text_of v) in if t = [] then None else Some t)"

definition or_else :: "'a option \<Rightarrow> 'a option \<Rightarrow> 'a option" where
  "or_else a b = (case a of None \<Rightarrow> b | Some x \<Rightarrow> Some x)"

section \<open>The facts of an action\<close>

text \<open>
  What the code reads of a response action: its columns, the keys of its execution metadata and those of
  the identifiers linked there. A key that is absent, or under a value that is no dictionary, is \<open>PNone\<close>.
\<close>

record response_action =
  ra_id :: pyval
  ra_incident_id :: pyval
  ra_alert_id :: pyval
  ra_created_by :: pyval
  ra_meta_asset_id :: pyval
  ra_meta_event_id :: pyval
  ra_chain_incident_id :: pyval
  ra_chain_alert_id :: pyval
  ra_chain_asset_id :: pyval
  ra_chain_event_id :: pyval
  ra_chain_detection_id :: pyval

record enforcement_facts =
  ef_operation :: "string option"
  ef_amount :: "dec option"
  ef_business_event :: "string option"
  ef_settlement :: "string option"
  ef_asset_id :: "string option"
  ef_incident_id :: "string option"
  ef_event_id :: "string option"
  ef_proposer :: "string option"
  ef_unreadable :: "string list"
  ef_sources :: "(string \<times> json) list"

definition material_unreadable :: "enforcement_facts \<Rightarrow> string list" where
  "material_unreadable f = filter (\<lambda>x. \<not> is_supplementary_fact x) (ef_unreadable f)"

definition supplementary_unreadable :: "enforcement_facts \<Rightarrow> string list" where
  "supplementary_unreadable f = filter is_supplementary_fact (ef_unreadable f)"

text \<open>The probe of a table, and the facts found unreadable so far.\<close>

definition table_exists :: "db_session \<Rightarrow> string \<Rightarrow> string list \<Rightarrow> bool \<times> string list" where
  "table_exists E name unreadable =
     (if ds_fails E (ProbeTable name) then (False, append_new (''table:'' @ name) unreadable)
      else (name \<in> set (ds_tables E), unreadable))"

text \<open>The lookups in order: \<open>None\<close> when one raises before one finds a row.\<close>

fun first_found :: "'a option option list \<Rightarrow> 'a option option" where
  "first_found [] = Some None"
| "first_found (None # qs) = None"
| "first_found (Some (Some r) # qs) = Some (Some r)"
| "first_found (Some None # qs) = first_found qs"

definition newest_detection :: "(detection_row \<Rightarrow> bool) \<Rightarrow> detection_row list \<Rightarrow> detection_row option" where
  "newest_detection P rows = first_by (\<lambda>r. (- dr_detected_at r, dr_id r)) (filter P rows)"

definition resolve_threat_detection ::
  "db_session \<Rightarrow> string \<Rightarrow> string option \<Rightarrow> string option \<Rightarrow> string option \<Rightarrow> detection_row list \<Rightarrow> string list
     \<Rightarrow> detection_row option \<times> string list" where
  "resolve_threat_detection E ws detection_id alert_id incident_id rows unreadable =
     (if detection_id = None \<and> alert_id = None \<and> incident_id = None then (None, unreadable)
      else case table_exists E ''threat_detections'' unreadable of
        (False, unreadable') \<Rightarrow> (None, unreadable')
      | (True, unreadable') \<Rightarrow>
          (let mine = filter (\<lambda>r. dr_workspace r = ws) rows;
               by_id = (if detection_id = None then [] else
                 [with_uuid E ReadDetectionById detection_id (\<lambda>u. find (\<lambda>r. Some (dr_id r) = u) mine)]);
               by_alert = (if alert_id = None then [] else
                 [with_uuid E ReadDetectionByAlert alert_id (\<lambda>u. newest_detection (\<lambda>r. dr_linked_alert r = u) mine)]);
               by_incident = (if incident_id = None then [] else
                 [with_uuid E ReadDetectionByIncident incident_id (\<lambda>u. newest_detection (\<lambda>r. dr_linked_incident r = u) mine)])
           in case first_found (by_id @ by_alert @ by_incident) of
                None \<Rightarrow> (None, append_new ''threat_detection'' unreadable')
              | Some d \<Rightarrow> (d, unreadable')))"

text \<open>Alert, target, asset: the sources named on the way and the facts that could not be read.\<close>

definition resolve_target_asset ::
  "db_session \<Rightarrow> string \<Rightarrow> string \<Rightarrow> gov_store \<Rightarrow> string list
     \<Rightarrow> string option \<times> (string \<times> json) list \<times> string list" where
  "resolve_target_asset E ws alert_id db unreadable =
     (case table_exists E ''alerts'' unreadable of
        (False, unr) \<Rightarrow> (None, [], unr)
      | (True, unr) \<Rightarrow>
          (let found = with_uuid E ReadAlert (Some alert_id)
                 (\<lambda>u. find (\<lambda>r. Some (lk_alert_id r) = u \<and> lk_alert_workspace r = ws) (gv_alerts db));
               unr = (if found = None then unr @ [''alert''] else unr);
               target_id = (case found of Some (Some r) \<Rightarrow> enf_text (opt_str (lk_alert_target r)) | _ \<Rightarrow> None)
           in case target_id of None \<Rightarrow> (None, [], unr)
              | Some t \<Rightarrow>
                  (case table_exists E ''targets'' unr of
                     (False, unr) \<Rightarrow> (None, [(''target_id'', JStr t)], unr)
                   | (True, unr) \<Rightarrow>
                       (let found = with_uuid E ReadTarget (Some t)
                              (\<lambda>u. find (\<lambda>r. Some (lk_target_id r) = u \<and> lk_target_workspace r = ws) (gv_targets db));
                            unr = (if found = None then unr @ [''target''] else unr)
                        in (case found of Some (Some r) \<Rightarrow> enf_text (opt_str (lk_target_asset r)) | _ \<Rightarrow> None,
                            [(''target_id'', JStr t)], unr)))))"

text \<open>The authorized issuance the detection itself names; \<open>None\<close> where nothing is looked up.\<close>

definition resolve_issuance ::
  "db_session \<Rightarrow> string \<Rightarrow> string option \<Rightarrow> string option \<Rightarrow> string option \<Rightarrow> issuance_row list \<Rightarrow> string list
     \<Rightarrow> issuance_row option \<times> string list" where
  "resolve_issuance E ws asset_id authorization_id external_reference rows unreadable =
     (if asset_id = None \<or> authorization_id = None \<and> external_reference = None then (None, unreadable)
      else case table_exists E ''asset_authorized_issuances'' unreadable of
        (False, unr) \<Rightarrow> (None, unr)
      | (True, unr) \<Rightarrow>
          (let mine = filter (\<lambda>r. ir_workspace r = ws) rows;
               found = (case cast_uuid E asset_id of None \<Rightarrow> None
                 | Some asset \<Rightarrow>
                    if authorization_id \<noteq> None then
                      with_uuid E ReadIssuance authorization_id (\<lambda>u. find (\<lambda>r. Some (ir_asset r) = asset \<and> Some (ir_id r) = u) mine)
                    else statement E ReadIssuance
                      (first_by (\<lambda>r. - ir_authorized_at r)
                        (filter (\<lambda>r. Some (ir_asset r) = asset \<and> ir_reference r = external_reference) mine)))
           in case found of None \<Rightarrow> (None, unr @ [''asset_authorized_issuance'']) | Some i \<Rightarrow> (i, unr)))"

definition source_if :: "string \<Rightarrow> string option \<Rightarrow> (string \<times> json) list" where
  "source_if key v = (case v of None \<Rightarrow> [] | Some t \<Rightarrow> [(key, JStr t)])"

definition opt_json :: "string option \<Rightarrow> json" where
  "opt_json v = (case v of None \<Rightarrow> JNull | Some t \<Rightarrow> JStr t)"

definition resolve_action_facts :: "db_session \<Rightarrow> string \<Rightarrow> response_action \<Rightarrow> gov_store \<Rightarrow> enforcement_facts" where
  "resolve_action_facts E ws a db =
     (let incident_id = or_else (enf_text (ra_incident_id a)) (enf_text (ra_chain_incident_id a));
          alert_id = or_else (enf_text (ra_alert_id a)) (enf_text (ra_chain_alert_id a));
          named_asset = or_else (enf_text (ra_meta_asset_id a)) (enf_text (ra_chain_asset_id a));
          named_event = or_else (enf_text (ra_meta_event_id a)) (enf_text (ra_chain_event_id a));
          named_detection = enf_text (ra_chain_detection_id a);
          (target_asset, target_sources, unr) =
            (if alert_id \<noteq> None \<and> named_asset = None then resolve_target_asset E ws (the alert_id) db [] else (None, [], []));
          asset1 = or_else named_asset target_asset;
          (detection, unr) = resolve_threat_detection E ws named_detection alert_id incident_id (gv_detections db) unr;
          operation1 = (case detection of None \<Rightarrow> None | Some d \<Rightarrow> normalize_operation (opt_str (dr_operation d)));
          asset_id = (case detection of None \<Rightarrow> asset1 | Some d \<Rightarrow> or_else asset1 (enf_text (opt_str (dr_asset d))));
          event_id = (case detection of None \<Rightarrow> named_event | Some d \<Rightarrow> or_else named_event (enf_text (opt_str (dr_tx_hash d))));
          (issuance, unr) = (case detection of None \<Rightarrow> (None, unr)
             | Some d \<Rightarrow> resolve_issuance E ws asset_id (enf_text (dr_authorization_id d)) (enf_text (dr_external_reference d))
                 (gv_issuances db) unr);
          issued_operation = (case issuance of None \<Rightarrow> None | Some i \<Rightarrow> normalize_operation (opt_str (ir_operation i)))
      in \<lparr>ef_operation = or_else operation1 issued_operation,
          ef_amount = (case detection of None \<Rightarrow> None | Some d \<Rightarrow> dr_amount d),
          ef_business_event = (case issued_operation of None \<Rightarrow> None | Some op \<Rightarrow> map_of BUSINESS_EVENT_FOR_OPERATION op),
          ef_settlement = (case issuance of None \<Rightarrow> None | Some i \<Rightarrow> normalize_settlement_state (opt_str (ir_settlement i))),
          ef_asset_id = asset_id, ef_incident_id = incident_id, ef_event_id = event_id,
          ef_proposer = enf_text (ra_created_by a), ef_unreadable = unr,
          ef_sources = [(''response_action_id'', opt_json (enf_text (ra_id a)))] @ target_sources @ source_if ''alert_id'' alert_id @
            (case detection of None \<Rightarrow> [] | Some d \<Rightarrow> [(''detection_id'', JStr (dr_id d))]) @
            (case issuance of None \<Rightarrow> [] | Some i \<Rightarrow> [(''authorized_issuance_id'', JStr (ir_id i))]) @
            source_if ''incident_id'' incident_id @ source_if ''asset_id'' asset_id @ source_if ''canonical_event_id'' event_id\<rparr>)"

section \<open>The policy that governs\<close>

definition in_scope :: "string option \<Rightarrow> policy_row \<Rightarrow> bool" where
  "in_scope asset r = (pv_asset (pr_values r) = None \<or> asset \<noteq> None \<and> pv_asset (pr_values r) = asset)"

definition active_in :: "string \<Rightarrow> policy_row \<Rightarrow> bool" where
  "active_in ws r = (pr_workspace r = ws \<and> pv_status (pr_values r) = GP_STATUS_ACTIVE)"

definition scope_order :: "policy_row \<Rightarrow> nat \<times> int" where
  "scope_order r = (if pv_asset (pr_values r) = None then 1 else 0, - pr_updated_at r)"

definition governing_policy ::
  "db_session \<Rightarrow> string \<Rightarrow> string option \<Rightarrow> string option \<Rightarrow> 'a policy_tables_scheme \<Rightarrow> policy_row option option" where
  "governing_policy E ws operation asset_id db =
     (case normalize_operation (opt_str operation) of
        None \<Rightarrow> Some None
      | Some op \<Rightarrow> with_uuid E ReadPolicy asset_id (\<lambda>u. map_option load_policy (first_by scope_order
          (filter (\<lambda>r. active_in ws r \<and> pv_operation (pr_values r) = op \<and> in_scope u r) (gs_policies db)))))"

definition policy_scope_governed ::
  "db_session \<Rightarrow> string \<Rightarrow> string option \<Rightarrow> 'a policy_tables_scheme \<Rightarrow> bool option" where
  "policy_scope_governed E ws asset_id db =
     with_uuid E ReadScope (enf_text (opt_str asset_id)) (\<lambda>u. list_ex (\<lambda>r. active_in ws r \<and> in_scope u r) (gs_policies db))"

definition scope_policy_refs :: "db_session \<Rightarrow> string \<Rightarrow> string option \<Rightarrow> 'a policy_tables_scheme \<Rightarrow> json" where
  "scope_policy_refs E ws asset_id db =
     (case with_uuid E ReadScopePolicies (enf_text (opt_str asset_id)) (\<lambda>u. take 20 (sort_key scope_order
         (filter (\<lambda>r. active_in ws r \<and> in_scope u r) (gs_policies db)))) of
        None \<Rightarrow> JList []
      | Some rows \<Rightarrow> JList (map (\<lambda>r. JDict [(''policy_id'', JStr (pr_id r)), (''policy_key'', JStr (pr_policy_key r)),
          (''policy_version'', JInt (pr_version r)), (''operation'', JStr (pv_operation (pr_values r))),
          (''asset_scoped'', JBool (pv_asset (pr_values r) \<noteq> None))]) rows))"

section \<open>The digest of the facts\<close>

definition fact_material ::
  "enforcement_facts \<Rightarrow> string option \<Rightarrow> int option \<Rightarrow> string option \<Rightarrow> json" where
  "fact_material f policy_id policy_version action_id = JDict
     [(''policy_id'', JStr (case policy_id of None \<Rightarrow> [] | Some i \<Rightarrow> i)),
      (''policy_version'', JStr (case policy_version of None \<Rightarrow> [] | Some n \<Rightarrow> if n = 0 then [] else str_int n)),
      (''response_action_id'', JStr (case action_id of None \<Rightarrow> [] | Some i \<Rightarrow> i)),
      (''operation'', opt_json (ef_operation f)), (''amount_usd'', opt_json (map_option dec_str (ef_amount f))),
      (''business_event'', opt_json (ef_business_event f)), (''settlement_status'', opt_json (ef_settlement f)),
      (''compliance_approval'', JBool False), (''asset_id'', opt_json (ef_asset_id f)),
      (''incident_id'', opt_json (ef_incident_id f)), (''canonical_event_id'', opt_json (ef_event_id f)),
      (''operator_id'', JNull), (''proposer_user_id'', opt_json (ef_proposer f)),
      (''sources'', JDict (ef_sources f)), (''unreadable'', JList (map JStr (sort (ef_unreadable f))))]"

definition material_bytes :: "enforcement_facts \<Rightarrow> string option \<Rightarrow> int option \<Rightarrow> string option \<Rightarrow> bytes" where
  "material_bytes f policy_id policy_version action_id = utf8 (spaced_dumps (fact_material f policy_id policy_version action_id))"

definition fact_digest ::
  "hash_fun \<Rightarrow> enforcement_facts \<Rightarrow> string option \<Rightarrow> int option \<Rightarrow> string option \<Rightarrow> string" where
  "fact_digest H f policy_id policy_version action_id = bytes_hex (H (material_bytes f policy_id policy_version action_id))"

definition existing_evaluation ::
  "db_session \<Rightarrow> string \<Rightarrow> string option \<Rightarrow> string \<Rightarrow> gov_store \<Rightarrow> evaluation_row option" where
  "existing_evaluation E ws policy_id fingerprint db =
     (if fingerprint = [] then None
      else case with_uuid E ReadExisting policy_id (\<lambda>u. first_by (\<lambda>r. - er_evaluated_at r)
          (filter (\<lambda>r. er_workspace r = ws \<and> er_policy_id r = u \<and> \<not> dc_simulation (er_decision r)
             \<and> er_digest r = Some fingerprint) (gv_evaluations db))) of
        None \<Rightarrow> None | Some found \<Rightarrow> found)"

section \<open>The context of an evaluation\<close>

record policy_payload =
  pl_operation :: "string option"
  pl_amount :: pyval
  pl_operator_id :: pyval
  pl_business_event :: "string option"
  pl_settlement :: "string option"
  pl_compliance :: bool
  pl_asset_id :: pyval
  pl_incident_id :: pyval
  pl_event_id :: pyval

definition as_payload :: "enforcement_facts \<Rightarrow> policy_payload" where
  "as_payload f = \<lparr>pl_operation = ef_operation f,
     pl_amount = (case ef_amount f of None \<Rightarrow> PNone | Some d \<Rightarrow> PDec d), pl_operator_id = PNone,
     pl_business_event = ef_business_event f, pl_settlement = ef_settlement f, pl_compliance = False,
     pl_asset_id = opt_str (ef_asset_id f), pl_incident_id = opt_str (ef_incident_id f), pl_event_id = opt_str (ef_event_id f)\<rparr>"

definition decimal_of :: "pyval \<Rightarrow> dec option" where
  "decimal_of v = (case v of PNone \<Rightarrow> None | PDec d \<Rightarrow> Some d | _ \<Rightarrow> parse_decimal (py_strip (py_str v)))"

definition resolve_operator_authority :: "db_session \<Rightarrow> string \<Rightarrow> string option \<Rightarrow> bool option" where
  "resolve_operator_authority E ws operator = (case operator of
       None \<Rightarrow> Some False
     | Some u \<Rightarrow> if \<not> ds_py_uuid E u then Some False else ds_authority E ws u)"

text \<open>\<open>SUM\<close> over a column of numbers.\<close>

fun numeric_add :: "dec \<Rightarrow> dec \<Rightarrow> dec" where
  "numeric_add (Finite a) (Finite b) = Finite (fd_exact_add a b)"
| "numeric_add (Infinite s) (Infinite t) = (if s = t then Infinite s else NotANumber False)"
| "numeric_add (Infinite s) (Finite b) = Infinite s"
| "numeric_add (Finite a) (Infinite t) = Infinite t"
| "numeric_add _ _ = NotANumber False"

definition utc_day :: "pytime \<Rightarrow> int" where
  "utc_day t = utc_micros t div 86400000000"

definition counts_for :: "string \<Rightarrow> string option \<Rightarrow> pytime \<Rightarrow> evaluation_row \<Rightarrow> bool" where
  "counts_for ws policy_id now r = (er_workspace r = ws \<and> er_policy_id r = policy_id
     \<and> \<not> dc_simulation (er_decision r) \<and> dc_decision (er_decision r) = DECISION_ALLOW
     \<and> er_evaluated_at r div 86400000000 = utc_day now)"

definition daily_total_usd :: "db_session \<Rightarrow> string \<Rightarrow> string \<Rightarrow> pytime \<Rightarrow> gov_store \<Rightarrow> dec option" where
  "daily_total_usd E ws policy_id now db =
     (if ds_fails E (ProbeTable EVALUATIONS_TABLE) \<or> EVALUATIONS_TABLE \<notin> set (ds_tables E) then None
      else map_option (\<lambda>total. if truthy (PDec total) then total else dec_zero)
        (with_uuid E ReadTotal (Some policy_id) (\<lambda>u. fold (\<lambda>a total. numeric_add total a)
           (List.map_filter er_amount (filter (counts_for ws u now) (gv_evaluations db))) dec_zero)))"

definition build_context ::
  "db_session \<Rightarrow> string \<Rightarrow> policy_row option \<Rightarrow> policy_payload \<Rightarrow> pytime \<Rightarrow> bool \<Rightarrow> gov_store \<Rightarrow> evaluation_context" where
  "build_context E ws policy pl now simulation db =
     (let operator_id = enf_text (pl_operator_id pl);
          authority = (case policy of None \<Rightarrow> None
            | Some p \<Rightarrow> if ROLE_TREASURY_OPERATOR \<in> set (pv_roles (pr_values p))
                then resolve_operator_authority E ws operator_id else None);
          prior = (case policy of None \<Rightarrow> None
            | Some p \<Rightarrow> if pv_maximum (pr_values p) = None then None else daily_total_usd E ws (pr_id p) now db);
          given = (\<lambda>v. if truthy v then Some (py_strip (py_str v)) else None)
      in \<lparr>ec_operation = pl_operation pl,
          ec_amount_usd = (case decimal_of (pl_amount pl) of None \<Rightarrow> PNone | Some d \<Rightarrow> PDec d),
          ec_operator_id = operator_id, ec_operator_has_treasury_role = authority,
          ec_business_event = pl_business_event pl, ec_settlement_status = pl_settlement pl,
          ec_compliance_approval = pl_compliance pl, ec_evaluated_at = Some now,
          ec_daily_total_usd = (case prior of None \<Rightarrow> PNone | Some d \<Rightarrow> PDec d),
          ec_asset_id = given (pl_asset_id pl), ec_incident_id = given (pl_incident_id pl),
          ec_canonical_event_id = given (pl_event_id pl), ec_simulation = simulation\<rparr>)"

section \<open>Recording a verdict\<close>

text \<open>\<open>None\<close> when the insertion raises, \<open>False\<close> when there is no table to insert into.\<close>

definition record_evaluation ::
  "db_session \<Rightarrow> string \<Rightarrow> policy_decision \<Rightarrow> string option \<Rightarrow> string option \<Rightarrow> gov_store \<Rightarrow> (bool \<times> gov_store) option" where
  "record_evaluation E ws d action_id fingerprint db =
     (if ds_fails E (ProbeTable EVALUATIONS_TABLE) \<or> EVALUATIONS_TABLE \<notin> set (ds_tables E) then Some (False, db)
      else if ds_fails E InsertEvaluation then None
      else
        case (cast_uuid E (dc_policy_id d), cast_uuid E (dc_asset_id d), cast_uuid E (dc_incident_id d),
              case dc_amount_usd d of None \<Rightarrow> Some None | Some a \<Rightarrow> map_option Some (ds_numeric E a)) of
          (Some policy, Some asset, Some incident, Some amount) \<Rightarrow>
            Some (True, db\<lparr>gv_evaluations := gv_evaluations db @
              [\<lparr>er_workspace = ws, er_policy_id = policy, er_asset_id = asset, er_incident_id = incident,
                er_decision = d, er_amount = amount,
                er_roles = (if ds_roles_column E \<and> \<not> ds_fails E ProbeColumn then Some (dc_required_roles d) else None),
                er_action = action_id, er_digest = fingerprint,
                er_evaluated_at = utc_micros (dc_evaluated_at d)\<rparr>]\<rparr>)
        | _ \<Rightarrow> None)"

section \<open>The producer\<close>

datatype enforcement_status =
    Recorded | RecordedFailClosed | NoGoverningPolicy | FactsUnavailable | StorageUnavailable | AlreadyEvaluated | WriteFailed

datatype enforcement_error = EngineRaised py_error | InsertRaised

record enforcement_outcome =
  eo_status :: enforcement_status
  eo_decision :: "policy_decision option"
  eo_policy :: "policy_row option"
  eo_facts :: "enforcement_facts option"
  eo_recorded :: bool
  eo_existing :: "(string \<times> string) option"

definition plain_outcome :: "enforcement_status \<Rightarrow> enforcement_facts option \<Rightarrow> enforcement_outcome" where
  "plain_outcome status facts = \<lparr>eo_status = status, eo_decision = None, eo_policy = None, eo_facts = facts,
     eo_recorded = False, eo_existing = None\<rparr>"

definition storage_ready :: "db_session \<Rightarrow> bool" where
  "storage_ready E = list_all (\<lambda>t. \<not> ds_fails E (ProbeTable t) \<and> t \<in> set (ds_tables E))
     [POLICIES_TABLE, VERSIONS_TABLE, EVALUATIONS_TABLE]"

text \<open>The reason codes added to the verdict of the engine.\<close>

definition with_reasons :: "enforcement_facts \<Rightarrow> bool \<Rightarrow> policy_decision \<Rightarrow> policy_decision" where
  "with_reasons f fail_closed d =
     (let gap = supplementary_unreadable f;
          d = (if gap = [] then d else d\<lparr>dc_reason_codes := dc_reason_codes d @
                 filter (\<lambda>c. c \<notin> set (dc_reason_codes d)) (facts_unavailable_reason_codes gap)\<rparr>)
      in if fail_closed \<and> ef_operation f = None \<and> gap = []
         then d\<lparr>dc_reason_codes := dc_reason_codes d @ [OPERATION_NOT_ESTABLISHED]\<rparr> else d)"

definition enf_action_text :: "response_action \<Rightarrow> string option" where
  "enf_action_text a = nonempty_text (Some (text_of (ra_id a)))"

definition evaluation_digest :: "hash_fun \<Rightarrow> response_action \<Rightarrow> enforcement_facts \<Rightarrow> policy_row option \<Rightarrow> string" where
  "evaluation_digest H a f policy = fact_digest H f (map_option pr_id policy) (map_option pr_version policy) (enf_action_text a)"

definition existing_outcome :: "enforcement_facts \<Rightarrow> policy_row option \<Rightarrow> evaluation_row \<Rightarrow> enforcement_outcome" where
  "existing_outcome f policy r = \<lparr>eo_status = AlreadyEvaluated, eo_decision = None, eo_policy = policy,
     eo_facts = Some f, eo_recorded = False,
     eo_existing = Some (dc_evaluation_id (er_decision r), dc_decision (er_decision r))\<rparr>"

definition decided_outcome :: "enforcement_facts \<Rightarrow> policy_row option \<Rightarrow> policy_decision \<Rightarrow> bool \<Rightarrow> enforcement_outcome" where
  "decided_outcome f policy d recorded = \<lparr>eo_status = (if \<not> recorded then WriteFailed
       else if policy = None then RecordedFailClosed else Recorded),
     eo_decision = Some d, eo_policy = policy, eo_facts = Some f, eo_recorded = recorded, eo_existing = None\<rparr>"

text \<open>From a policy, or the absence of one in a governed scope, to the recorded verdict.\<close>

definition engine_verdict ::
  "db_session \<Rightarrow> string \<Rightarrow> pytime \<Rightarrow> string \<Rightarrow> enforcement_facts \<Rightarrow> policy_row option \<Rightarrow> gov_store \<Rightarrow> py_error + policy_decision" where
  "engine_verdict E ws now fresh_id f policy db =
     (case evaluate_policy (map_option engine_policy policy) (build_context E ws policy (as_payload f) now False db)
        None (Some now) fresh_id now of
        Inl e \<Rightarrow> Inl e | Inr d \<Rightarrow> Inr (with_reasons f (policy = None) d))"

definition decide_and_record ::
  "db_session \<Rightarrow> hash_fun \<Rightarrow> string \<Rightarrow> response_action \<Rightarrow> pytime \<Rightarrow> string \<Rightarrow> enforcement_facts \<Rightarrow> policy_row option \<Rightarrow> gov_store
     \<Rightarrow> enforcement_error + enforcement_outcome \<times> gov_store" where
  "decide_and_record E H ws a now fresh_id f policy db =
     (case existing_evaluation E ws (map_option pr_id policy) (evaluation_digest H a f policy) db of
        Some r \<Rightarrow> Inr (existing_outcome f policy r, db)
      | None \<Rightarrow>
          (case engine_verdict E ws now fresh_id f policy db of
             Inl e \<Rightarrow> Inl (EngineRaised e)
           | Inr d \<Rightarrow>
               (case record_evaluation E ws d (enf_action_text a) (Some (evaluation_digest H a f policy)) db of
                  None \<Rightarrow> Inl InsertRaised
                | Some (recorded, db') \<Rightarrow> Inr (decided_outcome f policy d recorded, db'))))"

text \<open>No policy for the operation: nothing is written unless the asset is in the scope of an active one.\<close>

definition scope_facts :: "db_session \<Rightarrow> string \<Rightarrow> enforcement_facts \<Rightarrow> gov_store \<Rightarrow> enforcement_facts" where
  "scope_facts E ws f db = f\<lparr>ef_sources := ef_sources f @ [(''scope_policies'', scope_policy_refs E ws (ef_asset_id f) db)]\<rparr>"

definition lost_fact :: "string \<Rightarrow> enforcement_facts \<Rightarrow> enforcement_outcome" where
  "lost_fact key f = plain_outcome FactsUnavailable (Some (f\<lparr>ef_unreadable := ef_unreadable f @ [key]\<rparr>))"

definition deny_in_scope ::
  "db_session \<Rightarrow> hash_fun \<Rightarrow> string \<Rightarrow> response_action \<Rightarrow> pytime \<Rightarrow> string \<Rightarrow> enforcement_facts \<Rightarrow> gov_store
     \<Rightarrow> enforcement_error + enforcement_outcome \<times> gov_store" where
  "deny_in_scope E H ws a now fresh_id f db =
     (case policy_scope_governed E ws (ef_asset_id f) db of
        None \<Rightarrow> Inr (lost_fact ''policy_scope'' f, db)
      | Some governed \<Rightarrow>
          if governed then decide_and_record E H ws a now fresh_id (scope_facts E ws f db) None db
          else Inr (plain_outcome NoGoverningPolicy (Some f), db))"

definition evaluate_response_action ::
  "db_session \<Rightarrow> hash_fun \<Rightarrow> string \<Rightarrow> response_action \<Rightarrow> pytime \<Rightarrow> string \<Rightarrow> gov_store
     \<Rightarrow> enforcement_error + enforcement_outcome \<times> gov_store" where
  "evaluate_response_action E H ws a now fresh_id db =
     (if \<not> storage_ready E then Inr (plain_outcome StorageUnavailable None, db)
      else
        let f = resolve_action_facts E ws a db in
        if material_unreadable f \<noteq> [] then Inr (plain_outcome FactsUnavailable (Some f), db)
        else if supplementary_unreadable f \<noteq> [] then deny_in_scope E H ws a now fresh_id f db
        else
          case governing_policy E ws (ef_operation f) (ef_asset_id f) db of
            None \<Rightarrow> Inr (lost_fact ''governing_policy'' f, db)
          | Some None \<Rightarrow> deny_in_scope E H ws a now fresh_id f db
          | Some (Some p) \<Rightarrow> decide_and_record E H ws a now fresh_id f (Some p) db)"

section \<open>What an evaluation returns\<close>

lemma first_by_in: "first_by key xs = Some x \<Longrightarrow> x \<in> set xs"
  unfolding first_by_def by (metis list.case_eq_if list.set_intros(1) list.set_sel(1) option.distinct(1) option.inject set_sort)

lemma first_by_None: "first_by key xs = None \<longleftrightarrow> xs = []"
  unfolding first_by_def by (metis list.case_eq_if option.distinct(1) set_empty set_sort)

lemma with_uuid_Some: "with_uuid E q v f = Some x \<Longrightarrow> \<exists>u. cast_uuid E v = Some u \<and> x = f u \<and> \<not> ds_fails E q"
  unfolding with_uuid_def statement_def by (auto split: option.splits if_split_asm)

lemma governing_policy_row:
  assumes "governing_policy E ws operation asset_id db = Some (Some p)"
  shows "\<exists>r u. r \<in> set (gs_policies db) \<and> p = load_policy r \<and> active_in ws r
    \<and> normalize_operation (opt_str operation) = Some (pv_operation (pr_values r))
    \<and> cast_uuid E asset_id = Some u \<and> in_scope u r"
proof -
  obtain op where op: "normalize_operation (opt_str operation) = Some op"
    using assms by (auto simp: governing_policy_def split: option.splits)
  let ?P = "\<lambda>u r. active_in ws r \<and> pv_operation (pr_values r) = op \<and> in_scope u r"
  have g: "with_uuid E ReadPolicy asset_id (\<lambda>u. map_option load_policy (first_by scope_order (filter (?P u) (gs_policies db))))
      = Some (Some p)"
    using assms unfolding governing_policy_def op option.case .
  obtain u where u: "cast_uuid E asset_id = Some u"
    and p: "map_option load_policy (first_by scope_order (filter (?P u) (gs_policies db))) = Some p"
    using with_uuid_Some [OF g] by (elim exE conjE) simp
  obtain r where r: "first_by scope_order (filter (?P u) (gs_policies db)) = Some r" "p = load_policy r"
    using p unfolding map_option_eq_Some by (elim exE conjE) simp
  have "r \<in> set (filter (?P u) (gs_policies db))" using r(1) by (rule first_by_in)
  then have "r \<in> set (gs_policies db)" "?P u r" by simp_all
  with u op r(2) show ?thesis by (intro exI [of _ r] exI [of _ u]) simp
qed

lemma with_reasons_fields [simp]:
  "dc_decision (with_reasons f b d) = dc_decision d" "dc_simulation (with_reasons f b d) = dc_simulation d"
  "dc_policy_id (with_reasons f b d) = dc_policy_id d" "dc_policy_version (with_reasons f b d) = dc_policy_version d"
  "dc_asset_id (with_reasons f b d) = dc_asset_id d" "dc_incident_id (with_reasons f b d) = dc_incident_id d"
  "dc_evaluation_id (with_reasons f b d) = dc_evaluation_id d"
  "dc_amount_usd (with_reasons f b d) = dc_amount_usd d"
  "dc_canonical_event_id (with_reasons f b d) = dc_canonical_event_id d"
  "dc_evaluated_at (with_reasons f b d) = dc_evaluated_at d"
  by (simp_all add: with_reasons_def Let_def)

text \<open>The two ways an evaluation ends with a verdict: one of an earlier pass or one of this.\<close>

lemma decide_and_record_cases:
  assumes "decide_and_record E H ws a now fresh_id f policy db = Inr (res, db')"
  obtains (existing) r where
      "existing_evaluation E ws (map_option pr_id policy) (evaluation_digest H a f policy) db = Some r"
      "res = existing_outcome f policy r" "db' = db"
  | (decided) d recorded where
      "engine_verdict E ws now fresh_id f policy db = Inr d" "res = decided_outcome f policy d recorded"
      "record_evaluation E ws d (enf_action_text a) (Some (evaluation_digest H a f policy)) db = Some (recorded, db')"
proof (cases "existing_evaluation E ws (map_option pr_id policy) (evaluation_digest H a f policy) db")
  case (Some r)
  have "res = existing_outcome f policy r" "db' = db" using assms unfolding decide_and_record_def Some by simp_all
  with Some show ?thesis by (rule existing)
next
  case None
  note step = assms [unfolded decide_and_record_def None option.case]
  show ?thesis
  proof (cases "engine_verdict E ws now fresh_id f policy db")
    case (Inl e)
    then show ?thesis using step by simp
  next
    case (Inr d)
    show ?thesis
    proof (cases "record_evaluation E ws d (enf_action_text a) (Some (evaluation_digest H a f policy)) db")
      case None
      then show ?thesis using step Inr by simp
    next
      case (Some w)
      obtain recorded db'' where w: "w = (recorded, db'')" by (rule prod.exhaust)
      have "res = decided_outcome f policy d recorded" "db'' = db'" using step Inr Some w by simp_all
      then show ?thesis using decided [OF Inr] Some w by simp
    qed
  qed
qed

definition unwritten :: "enforcement_outcome \<Rightarrow> bool" where
  "unwritten res \<longleftrightarrow> eo_decision res = None \<and> \<not> eo_recorded res \<and> eo_status res \<in> {StorageUnavailable, FactsUnavailable, NoGoverningPolicy}"

lemma unwritten_outcomes:
  "unwritten (plain_outcome StorageUnavailable x)" "unwritten (plain_outcome FactsUnavailable x)" "unwritten (plain_outcome NoGoverningPolicy x)"
  "unwritten (lost_fact key f)"
  by (simp_all add: unwritten_def plain_outcome_def lost_fact_def)

lemma deny_in_scope_cases:
  assumes "deny_in_scope E H ws a now fresh_id f db = Inr (res, db')"
  obtains (nothing) "db' = db" "unwritten res" "policy_scope_governed E ws (ef_asset_id f) db \<noteq> Some True"
  | (scoped) "policy_scope_governed E ws (ef_asset_id f) db = Some True"
      "decide_and_record E H ws a now fresh_id (scope_facts E ws f db) None db = Inr (res, db')"
proof (cases "policy_scope_governed E ws (ef_asset_id f) db")
  case None
  then have "res = lost_fact ''policy_scope'' f" "db' = db"
    using assms unfolding deny_in_scope_def None option.case by simp_all
  then show ?thesis by - (rule nothing, simp_all add: None unwritten_outcomes)
next
  case (Some governed)
  show ?thesis
  proof (cases governed)
    case True
    have "decide_and_record E H ws a now fresh_id (scope_facts E ws f db) None db = Inr (res, db')"
      using assms True unfolding deny_in_scope_def Some option.case by simp
    with Some True show ?thesis by (intro scoped) simp_all
  next
    case False
    then have "res = plain_outcome NoGoverningPolicy (Some f)" "db' = db"
      using assms unfolding deny_in_scope_def Some option.case by simp_all
    then show ?thesis by - (rule nothing, simp_all add: Some False unwritten_outcomes)
  qed
qed

lemma no_unreadable:
  "material_unreadable f = [] \<Longrightarrow> supplementary_unreadable f = [] \<Longrightarrow> ef_unreadable f = []"
  unfolding supplementary_unreadable_def material_unreadable_def filter_empty_conv
  by (metis list.set_intros(1) neq_Nil_conv)

lemma evaluate_response_action_cases:
  assumes "evaluate_response_action E H ws a now fresh_id db = Inr (res, db')"
  obtains (unchanged) "db' = db" "unwritten res"
  | (governed) f p where "storage_ready E" "f = resolve_action_facts E ws a db" "ef_unreadable f = []"
      "governing_policy E ws (ef_operation f) (ef_asset_id f) db = Some (Some p)"
      "decide_and_record E H ws a now fresh_id f (Some p) db = Inr (res, db')"
  | (denied) f where "storage_ready E" "f = resolve_action_facts E ws a db" "material_unreadable f = []"
      "policy_scope_governed E ws (ef_asset_id f) db = Some True"
      "decide_and_record E H ws a now fresh_id (scope_facts E ws f db) None db = Inr (res, db')"
      "supplementary_unreadable f \<noteq> [] \<or> governing_policy E ws (ef_operation f) (ef_asset_id f) db = Some None"
proof -
  define f where "f = resolve_action_facts E ws a db"
  have deny: thesis if d: "storage_ready E" "material_unreadable f = []" "deny_in_scope E H ws a now fresh_id f db = Inr (res, db')"
    and why: "supplementary_unreadable f \<noteq> [] \<or> governing_policy E ws (ef_operation f) (ef_asset_id f) db = Some None"
    using d(3)
  proof (cases rule: deny_in_scope_cases)
    case deny: scoped
    show ?thesis by (rule denied [OF d(1) f_def d(2) deny why])
  next
    case none: nothing
    show ?thesis by (rule unchanged [OF none(1,2)])
  qed
  note step = assms [unfolded evaluate_response_action_def Let_def, folded f_def]
  show ?thesis
  proof (cases "storage_ready E \<and> material_unreadable f = []")
    case False
    then have "db' = db \<and> (res = plain_outcome StorageUnavailable None \<or> res = plain_outcome FactsUnavailable (Some f))"
      using step by (cases "storage_ready E") simp_all
    then have "db' = db" "unwritten res" by (auto simp: unwritten_outcomes)
    then show ?thesis by (rule unchanged)
  next
    case True
    then have ready: "storage_ready E" and mat: "material_unreadable f = []" by simp_all
    note step = step [unfolded mat simp_thms if_False]
    show ?thesis
    proof (cases "supplementary_unreadable f = []")
      case False
      with step ready show ?thesis by (intro deny [OF ready mat]) simp_all
    next
      case sup: True
      note step = step [unfolded sup simp_thms if_False]
      show ?thesis
      proof (cases "governing_policy E ws (ef_operation f) (ef_asset_id f) db")
        case None
        then have "db' = db" "res = lost_fact ''governing_policy'' f" using step ready by simp_all
        then show ?thesis by - (rule unchanged, simp_all add: unwritten_outcomes)
      next
        case (Some g)
        show ?thesis
        proof (cases g)
          case None
          with Some step ready show ?thesis by (intro deny [OF ready mat]) simp_all
        next
          case p: (Some p)
          show ?thesis
            by (rule governed [OF ready f_def no_unreadable [OF mat sup]]) (use Some p step ready in simp_all)
        qed
      qed
    qed
  qed
qed

section \<open>What is recorded\<close>

lemma terminal_denial_fields:
  "dc_policy_id (terminal_denial reason checks given c eid stamp) = map_option pd_policy_id given"
  "dc_policy_version (terminal_denial reason checks given c eid stamp) = map_option pd_version given"
  "dc_simulation (terminal_denial reason checks given c eid stamp) = ec_simulation c"
  "dc_evaluated_at (terminal_denial reason checks given c eid stamp) = stamp"
  "dc_amount_usd (terminal_denial reason checks given c eid stamp) = as_decimal (ec_amount_usd c)"
  by (simp_all add: terminal_denial_def)

lemma final_decision_fields:
  "dc_policy_id (final_decision p c operation eid stamp r) = Some (pd_policy_id p)"
  "dc_policy_version (final_decision p c operation eid stamp r) = Some (pd_version p)"
  "dc_simulation (final_decision p c operation eid stamp r) = ec_simulation c"
  "dc_evaluated_at (final_decision p c operation eid stamp r) = stamp"
  "dc_amount_usd (final_decision p c operation eid stamp r) = as_decimal (ec_amount_usd c)"
  by (cases r; cases "fst r"; simp add: final_decision_def Let_def)+

lemma evaluate_policy_fields:
  assumes "evaluate_policy given c evaluation_id (Some now) fresh_id clock = Inr d"
  shows "dc_policy_id d = map_option pd_policy_id given" "dc_policy_version d = map_option pd_version given"
    "dc_simulation d = ec_simulation c" "dc_evaluated_at d = now" "dc_amount_usd d = as_decimal (ec_amount_usd c)"
proof -
  obtain reason checks r where "d = terminal_denial reason checks given c (or_text evaluation_id fresh_id) now
      \<or> (\<exists>p operation. given = Some p \<and> d = final_decision p c operation (or_text evaluation_id fresh_id) now r)"
  proof (cases given)
    case None
    then show ?thesis using assms that unfolding evaluate_policy_def Let_def by force
  next
    case (Some p)
    note step = assms [unfolded evaluate_policy_def Let_def Some option.case]
    show ?thesis
      using step that unfolding Some
      by (simp only: bind_result_Inr split: if_split_asm) (force simp: bind_result_Inr)+
  qed
  then show "dc_policy_id d = map_option pd_policy_id given" "dc_policy_version d = map_option pd_version given"
    "dc_simulation d = ec_simulation c" "dc_evaluated_at d = now" "dc_amount_usd d = as_decimal (ec_amount_usd c)"
    by (auto simp: terminal_denial_fields final_decision_fields)
qed

lemma engine_verdict_fields:
  assumes "engine_verdict E ws now fresh_id f policy db = Inr d"
  shows "dc_policy_id d = map_option pr_id policy" "dc_policy_version d = map_option pr_version policy"
    "\<not> dc_simulation d" "dc_evaluated_at d = now"
    "dc_decision d = DECISION_ALLOW \<longleftrightarrow> (\<exists>p. policy = Some p \<and>
       policy_permits (engine_policy p) (build_context E ws policy (as_payload f) now False db))"
    "dc_amount_usd d = ef_amount f"
proof -
  let ?c = "build_context E ws policy (as_payload f) now False db"
  obtain e where e: "evaluate_policy (map_option engine_policy policy) ?c None (Some now) fresh_id now = Inr e"
    and d: "d = with_reasons f (policy = None) e"
    using assms by (auto simp: engine_verdict_def split: sum.splits)
  note fields = evaluate_policy_fields [OF e]
  have "ec_simulation ?c = False" by (simp add: build_context_def Let_def)
  then show "dc_policy_id d = map_option pr_id policy" "dc_policy_version d = map_option pr_version policy"
    "\<not> dc_simulation d" "dc_evaluated_at d = now"
    using fields by (cases policy; simp add: d engine_policy_def Let_def)+
  have "dc_decision e = DECISION_ALLOW \<longleftrightarrow> (\<exists>q. map_option engine_policy policy = Some q \<and> policy_permits q ?c)"
    using policy_allows_spec [OF e] .
  then show "dc_decision d = DECISION_ALLOW \<longleftrightarrow> (\<exists>p. policy = Some p \<and> policy_permits (engine_policy p) ?c)"
    by (auto simp: d)
  have "as_decimal (ec_amount_usd ?c) = ef_amount f"
    by (cases "ef_amount f") (simp_all add: build_context_def Let_def as_payload_def decimal_of_def as_decimal_def)
  then show "dc_amount_usd d = ef_amount f" using fields(5) by (simp add: d)
qed

text \<open>What the amount column of a recorded verdict holds.\<close>

definition stored_amount :: "db_session \<Rightarrow> dec option \<Rightarrow> dec option \<Rightarrow> bool" where
  "stored_amount E amount stored \<longleftrightarrow> (case amount of None \<Rightarrow> stored = None
     | Some a \<Rightarrow> stored \<noteq> None \<and> stored = ds_numeric E a)"

lemma record_evaluation_cases:
  assumes "record_evaluation E ws d action fingerprint db = Some (recorded, db')"
  obtains (absent) "\<not> storage_ready E" "\<not> recorded" "db' = db"
  | (inserted) r where "recorded" "db' = db\<lparr>gv_evaluations := gv_evaluations db @ [r]\<rparr>" "er_workspace r = ws"
      "er_decision r = d" "er_action r = action" "er_digest r = fingerprint"
      "cast_uuid E (dc_policy_id d) = Some (er_policy_id r)" "cast_uuid E (dc_asset_id d) = Some (er_asset_id r)"
      "cast_uuid E (dc_incident_id d) = Some (er_incident_id r)" "er_evaluated_at r = utc_micros (dc_evaluated_at d)"
      "stored_amount E (dc_amount_usd d) (er_amount r)"
proof (cases "ds_fails E (ProbeTable EVALUATIONS_TABLE) \<or> EVALUATIONS_TABLE \<notin> set (ds_tables E)")
  case True
  then have "\<not> storage_ready E" by (auto simp: storage_ready_def)
  moreover have "\<not> recorded" "db' = db" using assms True unfolding record_evaluation_def by simp_all
  ultimately show ?thesis by (rule absent)
next
  case False
  let ?amount = "case dc_amount_usd d of None \<Rightarrow> Some None | Some a \<Rightarrow> map_option Some (ds_numeric E a)"
  let ?roles = "if ds_roles_column E \<and> \<not> ds_fails E ProbeColumn then Some (dc_required_roles d) else None"
  have ok: "\<not> ds_fails E InsertEvaluation" using assms False unfolding record_evaluation_def by (auto split: if_split_asm)
  note step = assms [unfolded record_evaluation_def if_not_P [OF False] if_not_P [OF ok]]
  obtain p where p: "cast_uuid E (dc_policy_id d) = Some p" using step by (cases "cast_uuid E (dc_policy_id d)") simp_all
  obtain a where a: "cast_uuid E (dc_asset_id d) = Some a" using step p by (cases "cast_uuid E (dc_asset_id d)") simp_all
  obtain i where i: "cast_uuid E (dc_incident_id d) = Some i" using step p a by (cases "cast_uuid E (dc_incident_id d)") simp_all
  obtain n where n: "?amount = Some n" using step p a i by (cases ?amount) simp_all
  note step = step [unfolded p a i n prod.case option.case]
  show ?thesis
    by (rule inserted [of "\<lparr>er_workspace = ws, er_policy_id = p, er_asset_id = a, er_incident_id = i, er_decision = d,
        er_amount = n, er_roles = ?roles, er_action = action, er_digest = fingerprint,
        er_evaluated_at = utc_micros (dc_evaluated_at d)\<rparr>"])
      (use step p a i n in \<open>cases "dc_amount_usd d"; auto simp: stored_amount_def\<close>)+
qed

section \<open>Where the facts come from\<close>

lemma first_found_in:
  "first_found qs = Some (Some d) \<Longrightarrow> Some (Some d) \<in> set qs"
  by (induction qs rule: first_found.induct) auto

lemma with_uuid_in:
  assumes "with_uuid E q v f = Some (Some d)" and "\<And>u. f u = Some d \<Longrightarrow> d \<in> S"
  shows "d \<in> S"
  using with_uuid_Some [OF assms(1)] assms(2) by metis

lemma find_in: "find P xs = Some x \<Longrightarrow> x \<in> set xs \<and> P x"
  by (metis find_Some_iff nth_mem)

lemma newest_detection_in: "newest_detection P rows = Some d \<Longrightarrow> d \<in> set rows \<and> P d"
  unfolding newest_detection_def by (drule first_by_in) simp

lemma resolve_threat_detection_in:
  assumes "resolve_threat_detection E ws i al inc rows unr = (Some d, unr')"
  shows "d \<in> set rows \<and> dr_workspace d = ws"
proof -
  let ?mine = "filter (\<lambda>r. dr_workspace r = ws) rows"
  let ?qs = "(if i = None then [] else [with_uuid E ReadDetectionById i (\<lambda>u. find (\<lambda>r. Some (dr_id r) = u) ?mine)])
    @ (if al = None then [] else [with_uuid E ReadDetectionByAlert al (\<lambda>u. newest_detection (\<lambda>r. dr_linked_alert r = u) ?mine)])
    @ (if inc = None then [] else [with_uuid E ReadDetectionByIncident inc (\<lambda>u. newest_detection (\<lambda>r. dr_linked_incident r = u) ?mine)])"
  have "first_found ?qs = Some (Some d)"
    using assms unfolding resolve_threat_detection_def Let_def
    by (auto split: if_split_asm option.splits prod.splits bool.splits)
  then have "Some (Some d) \<in> set ?qs" by (rule first_found_in)
  then have "with_uuid E ReadDetectionById i (\<lambda>u. find (\<lambda>r. Some (dr_id r) = u) ?mine) = Some (Some d)
      \<or> with_uuid E ReadDetectionByAlert al (\<lambda>u. newest_detection (\<lambda>r. dr_linked_alert r = u) ?mine) = Some (Some d)
      \<or> with_uuid E ReadDetectionByIncident inc (\<lambda>u. newest_detection (\<lambda>r. dr_linked_incident r = u) ?mine) = Some (Some d)"
    by (auto split: if_split_asm)
  then have "d \<in> set ?mine"
  proof (elim disjE)
    assume "with_uuid E ReadDetectionById i (\<lambda>u. find (\<lambda>r. Some (dr_id r) = u) ?mine) = Some (Some d)"
    then show ?thesis by (rule with_uuid_in) (drule find_in, erule conjunct1)
  next
    assume "with_uuid E ReadDetectionByAlert al (\<lambda>u. newest_detection (\<lambda>r. dr_linked_alert r = u) ?mine) = Some (Some d)"
    then show ?thesis by (rule with_uuid_in) (drule newest_detection_in, erule conjunct1)
  next
    assume "with_uuid E ReadDetectionByIncident inc (\<lambda>u. newest_detection (\<lambda>r. dr_linked_incident r = u) ?mine) = Some (Some d)"
    then show ?thesis by (rule with_uuid_in) (drule newest_detection_in, erule conjunct1)
  qed
  then show ?thesis by simp
qed

definition names_issuance :: "db_session \<Rightarrow> detection_row \<Rightarrow> issuance_row \<Rightarrow> bool" where
  "names_issuance E d i \<longleftrightarrow> (case enf_text (dr_authorization_id d) of
       Some t \<Rightarrow> ds_uuid E t = Some (ir_id i)
     | None \<Rightarrow> enf_text (dr_external_reference d) = ir_reference i \<and> ir_reference i \<noteq> None)"

lemma resolve_issuance_in:
  assumes "resolve_issuance E ws asset auth ref rows unr = (Some i, unr')"
  shows "i \<in> set rows \<and> ir_workspace i = ws \<and> cast_uuid E asset = Some (Some (ir_asset i))
    \<and> (case auth of Some t \<Rightarrow> ds_uuid E t = Some (ir_id i) | None \<Rightarrow> ref = ir_reference i \<and> ir_reference i \<noteq> None)"
proof -
  let ?mine = "filter (\<lambda>r. ir_workspace r = ws) rows"
  have given: "asset \<noteq> None" "auth \<noteq> None \<or> ref \<noteq> None"
    using assms unfolding resolve_issuance_def by (auto split: if_split_asm)
  have "(case cast_uuid E asset of None \<Rightarrow> None | Some a \<Rightarrow>
      if auth \<noteq> None then with_uuid E ReadIssuance auth (\<lambda>u. find (\<lambda>r. Some (ir_asset r) = a \<and> Some (ir_id r) = u) ?mine)
      else statement E ReadIssuance (first_by (\<lambda>r. - ir_authorized_at r)
        (filter (\<lambda>r. Some (ir_asset r) = a \<and> ir_reference r = ref) ?mine))) = Some (Some i)"
    using assms given unfolding resolve_issuance_def Let_def
    by (auto split: prod.splits bool.splits option.splits if_split_asm)
  then obtain a where a: "cast_uuid E asset = Some a"
    and q: "(if auth \<noteq> None then with_uuid E ReadIssuance auth (\<lambda>u. find (\<lambda>r. Some (ir_asset r) = a \<and> Some (ir_id r) = u) ?mine)
      else statement E ReadIssuance (first_by (\<lambda>r. - ir_authorized_at r)
        (filter (\<lambda>r. Some (ir_asset r) = a \<and> ir_reference r = ref) ?mine))) = Some (Some i)"
    by (cases "cast_uuid E asset") simp_all
  show ?thesis
  proof (cases auth)
    case None
    then have "first_by (\<lambda>r. - ir_authorized_at r) (filter (\<lambda>r. Some (ir_asset r) = a \<and> ir_reference r = ref) ?mine) = Some i"
      using q by (simp add: statement_def split: if_split_asm)
    from first_by_in [OF this] show ?thesis using None given a by auto
  next
    case (Some t)
    then have w: "with_uuid E ReadIssuance auth (\<lambda>u. find (\<lambda>r. Some (ir_asset r) = a \<and> Some (ir_id r) = u) ?mine) = Some (Some i)"
      using q by simp
    obtain u where u: "cast_uuid E auth = Some u" "find (\<lambda>r. Some (ir_asset r) = a \<and> Some (ir_id r) = u) ?mine = Some i"
      using with_uuid_Some [OF w] by (elim exE conjE) simp
    from find_in [OF u(2)] show ?thesis using Some u(1) a by (auto simp: cast_uuid_def)
  qed
qed

text \<open>A business event or a settlement state comes from the issuance the detection names.\<close>

lemma facts_backed:
  assumes "f = resolve_action_facts E ws a db" and "ef_business_event f \<noteq> None \<or> ef_settlement f \<noteq> None"
  shows "\<exists>d \<in> set (gv_detections db). \<exists>i \<in> set (gv_issuances db). dr_workspace d = ws \<and> ir_workspace i = ws
    \<and> names_issuance E d i \<and> cast_uuid E (ef_asset_id f) = Some (Some (ir_asset i))"
proof -
  define incident alert named where ids: "incident = or_else (enf_text (ra_incident_id a)) (enf_text (ra_chain_incident_id a))"
    "alert = or_else (enf_text (ra_alert_id a)) (enf_text (ra_chain_alert_id a))"
    "named = or_else (enf_text (ra_meta_asset_id a)) (enf_text (ra_chain_asset_id a))"
  obtain target sources unr0 where t: "(if alert \<noteq> None \<and> named = None then resolve_target_asset E ws (the alert) db []
      else (None, [], [])) = (target, sources, unr0)" by (metis prod_cases3)
  obtain detection unr1 where d: "resolve_threat_detection E ws (enf_text (ra_chain_detection_id a)) alert incident
      (gv_detections db) unr0 = (detection, unr1)" by (metis surj_pair)
  note facts = assms(1) [unfolded resolve_action_facts_def, folded ids, unfolded t d Let_def prod.case]
  show ?thesis
  proof (cases detection)
    case None
    then show ?thesis using assms(2) facts by simp
  next
    case (Some row)
    let ?asset = "or_else (or_else named target) (enf_text (opt_str (dr_asset row)))"
    obtain issuance unr2 where i: "resolve_issuance E ws ?asset (enf_text (dr_authorization_id row))
        (enf_text (dr_external_reference row)) (gv_issuances db) unr1 = (issuance, unr2)" by (metis surj_pair)
    note facts = facts [unfolded Some option.case i prod.case]
    obtain j where j: "issuance = Some j" using assms(2) facts by (cases issuance) simp_all
    have "row \<in> set (gv_detections db)" "dr_workspace row = ws" using resolve_threat_detection_in d Some by metis+
    moreover have "ef_asset_id f = ?asset" unfolding facts by simp
    ultimately show ?thesis using resolve_issuance_in [OF i [unfolded j]] unfolding names_issuance_def by metis
  qed
qed

section \<open>What an enforcement evaluation can allow\<close>

lemma context_fields:
  "ec_compliance_approval (build_context E ws policy (as_payload f) now b db) = False"
  "ec_operator_has_treasury_role (build_context E ws policy (as_payload f) now b db) \<noteq> Some True"
  "ec_business_event (build_context E ws policy (as_payload f) now b db) = ef_business_event f"
  "ec_settlement_status (build_context E ws policy (as_payload f) now b db) = ef_settlement f"
  "ec_operation (build_context E ws policy (as_payload f) now b db) = ef_operation f"
  by (simp_all add: build_context_def Let_def as_payload_def enf_text_def resolve_operator_authority_def
      py_strip_def split: option.split)

lemma permits_names_no_role:
  assumes "policy_permits (engine_policy p) (build_context E ws policy (as_payload f) now b db)"
  shows "pv_roles (pr_values p) = []"
proof -
  have "roles_ok (engine_policy p) (build_context E ws policy (as_payload f) now b db)"
    using assms by (simp add: policy_permits_def)
  moreover have "pd_required_roles (engine_policy p) = pv_roles (pr_values p)" by (simp add: engine_policy_def Let_def)
  ultimately have "\<forall>r \<in> set (pv_roles (pr_values p)). False" using context_fields(1,2) unfolding roles_ok_def by metis
  then show ?thesis by simp
qed

lemma permits_needs_facts:
  assumes "policy_permits (engine_policy p) (build_context E ws policy (as_payload f) now b db)"
    and "pv_business_event (pr_values p) \<noteq> None \<or> pv_settlement (pr_values p) \<noteq> None"
  shows "ef_business_event f \<noteq> None \<or> ef_settlement f \<noteq> None"
proof -
  let ?c = "build_context E ws policy (as_payload f) now b db"
  have fields: "pd_required_business_event (engine_policy p) = pv_business_event (pr_values p)"
    "pd_settlement_requirement (engine_policy p) = pv_settlement (pr_values p)" by (simp_all add: engine_policy_def Let_def)
  have none: "normalize_business_event PNone = None" "normalize_settlement PNone = None" by code_simp+
  have "event_ok (engine_policy p) ?c" "settlement_ok (engine_policy p) ?c" using assms(1) by (simp_all add: policy_permits_def)
  then show ?thesis
    using assms(2) none unfolding event_ok_def settlement_ok_def fields context_fields
    by (cases "ef_business_event f"; cases "ef_settlement f") auto
qed

lemma decided_allow:
  assumes "decide_and_record E H ws a now fresh_id f policy db = Inr (res, db')"
    and "eo_decision res = Some d" and "dc_decision d = DECISION_ALLOW"
  shows "\<exists>p. policy = Some p \<and> policy_permits (engine_policy p) (build_context E ws policy (as_payload f) now False db)"
    and "\<not> dc_simulation d"
proof -
  have "engine_verdict E ws now fresh_id f policy db = Inr d"
    using assms(1)
  proof (cases rule: decide_and_record_cases)
    case existing
    then show ?thesis using assms(2) by (simp add: existing_outcome_def)
  next
    case (decided e recorded)
    then show ?thesis using assms(2) by (simp add: decided_outcome_def)
  qed
  note fields = engine_verdict_fields [OF this]
  show "\<exists>p. policy = Some p \<and> policy_permits (engine_policy p) (build_context E ws policy (as_payload f) now False db)"
    using fields(5) assms(3) by metis
  show "\<not> dc_simulation d" by (rule fields(3))
qed

text \<open>
  What an ALLOW rests on: an active policy of the workspace whose scope holds the asset, every fact read,
  and, where the policy asks for a business event or a settlement, an authorization of that asset in
  that workspace which the detection itself names.
\<close>

definition allowed_by :: "db_session \<Rightarrow> string \<Rightarrow> pytime \<Rightarrow> enforcement_facts \<Rightarrow> policy_row \<Rightarrow> gov_store \<Rightarrow> bool" where
  "allowed_by E ws now f r db \<longleftrightarrow> r \<in> set (gs_policies db) \<and> active_in ws r \<and> ef_unreadable f = []
     \<and> (\<exists>u. cast_uuid E (ef_asset_id f) = Some u \<and> in_scope u r)
     \<and> policy_permits (policy_from_row r) (build_context E ws (Some (load_policy r)) (as_payload f) now False db)
     \<and> roles_tuple (pv_roles (pr_values r)) = []
     \<and> (upper_text (pv_business_event (pr_values r)) \<noteq> None \<or> upper_text (pv_settlement (pr_values r)) \<noteq> None \<longrightarrow>
          (\<exists>d \<in> set (gv_detections db). \<exists>i \<in> set (gv_issuances db). dr_workspace d = ws \<and> ir_workspace i = ws
             \<and> names_issuance E d i \<and> cast_uuid E (ef_asset_id f) = Some (Some (ir_asset i))))"

lemma load_policy_fields:
  "pv_roles (pr_values (load_policy r)) = roles_tuple (pv_roles (pr_values r))"
  "pv_business_event (pr_values (load_policy r)) = upper_text (pv_business_event (pr_values r))"
  "pv_settlement (pr_values (load_policy r)) = upper_text (pv_settlement (pr_values r))"
  "pr_id (load_policy r) = pr_id r"
  by (simp_all add: load_policy_def Let_def)

lemma allow_allowed_by:
  assumes run: "evaluate_response_action E H ws a now fresh_id db = Inr (res, db')"
    and d: "eo_decision res = Some d" "dc_decision d = DECISION_ALLOW"
  shows "\<exists>r. allowed_by E ws now (resolve_action_facts E ws a db) r db \<and> eo_policy res = Some (load_policy r)"
    and "\<not> dc_simulation d"
proof -
  have goal: "(\<exists>r. allowed_by E ws now (resolve_action_facts E ws a db) r db \<and> eo_policy res = Some (load_policy r)) \<and> \<not> dc_simulation d"
    using run
  proof (cases rule: evaluate_response_action_cases)
    case unchanged
    then show ?thesis using d(1) by (simp add: unwritten_def)
  next
    case (denied f)
    then show ?thesis using decided_allow(1) [OF denied(5) d] by simp
  next
    case (governed f p)
    obtain r u where r: "r \<in> set (gs_policies db)" "p = load_policy r" "active_in ws r"
      "cast_uuid E (ef_asset_id f) = Some u" "in_scope u r" using governing_policy_row [OF governed(4)] by metis
    have permits: "policy_permits (engine_policy p) (build_context E ws (Some p) (as_payload f) now False db)"
      using decided_allow(1) [OF governed(5) d] by simp
    note backed = facts_backed [OF governed(2)] permits_needs_facts [OF permits]
    have "allowed_by E ws now f r db"
      using r governed(3) permits permits_names_no_role [OF permits] backed
      unfolding allowed_by_def policy_from_row_def r(2) load_policy_fields by blast
    moreover have "eo_policy res = Some p"
      using governed(5)
    proof (cases rule: decide_and_record_cases)
      case existing
      then show ?thesis using d(1) by (simp add: existing_outcome_def)
    next
      case decided
      then show ?thesis by (simp add: decided_outcome_def)
    qed
    ultimately show ?thesis using r(2) governed(2) decided_allow(2) [OF governed(5) d] by blast
  qed
  then show "\<exists>r. allowed_by E ws now (resolve_action_facts E ws a db) r db \<and> eo_policy res = Some (load_policy r)"
    "\<not> dc_simulation d" by blast+
qed

section \<open>Tenants\<close>

definition tenant_view :: "string \<Rightarrow> gov_store \<Rightarrow> gov_store" where
  "tenant_view ws db = \<lparr>gs_policies = filter (\<lambda>r. pr_workspace r = ws) (gs_policies db),
     gs_versions = filter (\<lambda>r. vr_workspace r = ws) (gs_versions db),
     gv_evaluations = filter (\<lambda>r. er_workspace r = ws) (gv_evaluations db),
     gv_alerts = filter (\<lambda>r. lk_alert_workspace r = ws) (gv_alerts db),
     gv_targets = filter (\<lambda>r. lk_target_workspace r = ws) (gv_targets db),
     gv_detections = filter (\<lambda>r. dr_workspace r = ws) (gv_detections db),
     gv_issuances = filter (\<lambda>r. ir_workspace r = ws) (gv_issuances db)\<rparr>"

lemma filter_within: "(\<And>x. P x \<Longrightarrow> Q x) \<Longrightarrow> filter P (filter Q xs) = filter P xs"
  by (induction xs) auto

lemma find_within: "(\<And>x. P x \<Longrightarrow> Q x) \<Longrightarrow> find P (filter Q xs) = find P xs"
  by (induction xs) auto

lemma list_ex_within: "(\<And>x. P x \<Longrightarrow> Q x) \<Longrightarrow> list_ex P (filter Q xs) = list_ex P xs"
  by (induction xs) auto

lemma view_facts: "resolve_action_facts E ws a (tenant_view ws db) = resolve_action_facts E ws a db"
proof -
  have finds: "find (\<lambda>r. Some (lk_alert_id r) = u \<and> lk_alert_workspace r = ws) (gv_alerts (tenant_view ws db))
      = find (\<lambda>r. Some (lk_alert_id r) = u \<and> lk_alert_workspace r = ws) (gv_alerts db)"
    "find (\<lambda>r. Some (lk_target_id r) = u \<and> lk_target_workspace r = ws) (gv_targets (tenant_view ws db))
      = find (\<lambda>r. Some (lk_target_id r) = u \<and> lk_target_workspace r = ws) (gv_targets db)" for u
    unfolding tenant_view_def gov_store.simps by (rule find_within, erule conjunct2)+
  have rows: "filter (\<lambda>r. dr_workspace r = ws) (gv_detections (tenant_view ws db)) = filter (\<lambda>r. dr_workspace r = ws) (gv_detections db)"
    "filter (\<lambda>r. ir_workspace r = ws) (gv_issuances (tenant_view ws db)) = filter (\<lambda>r. ir_workspace r = ws) (gv_issuances db)"
    by (simp_all add: tenant_view_def)
  have "resolve_target_asset E ws i (tenant_view ws db) unr = resolve_target_asset E ws i db unr" for i unr
    unfolding resolve_target_asset_def finds by (rule refl)
  moreover have "resolve_threat_detection E ws i al inc (gv_detections (tenant_view ws db)) unr
      = resolve_threat_detection E ws i al inc (gv_detections db) unr" for i al inc unr
    unfolding resolve_threat_detection_def rows by (rule refl)
  moreover have "resolve_issuance E ws i au re (gv_issuances (tenant_view ws db)) unr
      = resolve_issuance E ws i au re (gv_issuances db) unr" for i au re unr
    unfolding resolve_issuance_def rows by (rule refl)
  ultimately show ?thesis unfolding resolve_action_facts_def by (simp only:)
qed

lemma view_policies:
  "governing_policy E ws operation asset (tenant_view ws db) = governing_policy E ws operation asset db"
  "policy_scope_governed E ws asset (tenant_view ws db) = policy_scope_governed E ws asset db"
  "scope_policy_refs E ws asset (tenant_view ws db) = scope_policy_refs E ws asset db"
proof -
  have own: "active_in ws r \<Longrightarrow> pr_workspace r = ws" for r by (simp add: active_in_def)
  have view: "gs_policies (tenant_view ws db) = filter (\<lambda>r. pr_workspace r = ws) (gs_policies db)" by (simp add: tenant_view_def)
  have "filter (\<lambda>r. active_in ws r \<and> pv_operation (pr_values r) = op \<and> in_scope u r) (gs_policies (tenant_view ws db))
      = filter (\<lambda>r. active_in ws r \<and> pv_operation (pr_values r) = op \<and> in_scope u r) (gs_policies db)"
    "filter (\<lambda>r. active_in ws r \<and> in_scope u r) (gs_policies (tenant_view ws db))
      = filter (\<lambda>r. active_in ws r \<and> in_scope u r) (gs_policies db)"
    "list_ex (\<lambda>r. active_in ws r \<and> in_scope u r) (gs_policies (tenant_view ws db))
      = list_ex (\<lambda>r. active_in ws r \<and> in_scope u r) (gs_policies db)" for op u
    unfolding view by (rule filter_within list_ex_within, erule conjE, erule own)+
  note eqs = this
  show "governing_policy E ws operation asset (tenant_view ws db) = governing_policy E ws operation asset db"
    "policy_scope_governed E ws asset (tenant_view ws db) = policy_scope_governed E ws asset db"
    "scope_policy_refs E ws asset (tenant_view ws db) = scope_policy_refs E ws asset db"
    unfolding governing_policy_def policy_scope_governed_def scope_policy_refs_def eqs by (rule refl)+
qed

lemma view_evaluations:
  "existing_evaluation E ws policy fingerprint (tenant_view ws db) = existing_evaluation E ws policy fingerprint db"
  "daily_total_usd E ws i now (tenant_view ws db) = daily_total_usd E ws i now db"
proof -
  have view: "gv_evaluations (tenant_view ws db) = filter (\<lambda>r. er_workspace r = ws) (gv_evaluations db)" by (simp add: tenant_view_def)
  have eqs: "filter (\<lambda>r. er_workspace r = ws \<and> er_policy_id r = u \<and> \<not> dc_simulation (er_decision r) \<and> er_digest r = x)
        (gv_evaluations (tenant_view ws db))
      = filter (\<lambda>r. er_workspace r = ws \<and> er_policy_id r = u \<and> \<not> dc_simulation (er_decision r) \<and> er_digest r = x)
        (gv_evaluations db)"
    "filter (counts_for ws u now) (gv_evaluations (tenant_view ws db)) = filter (counts_for ws u now) (gv_evaluations db)" for u x
    unfolding view by (rule filter_within, simp add: counts_for_def)+
  show "existing_evaluation E ws policy fingerprint (tenant_view ws db) = existing_evaluation E ws policy fingerprint db"
    "daily_total_usd E ws i now (tenant_view ws db) = daily_total_usd E ws i now db"
    unfolding existing_evaluation_def daily_total_usd_def eqs by (rule refl)+
qed

lemma view_verdict:
  "engine_verdict E ws now fresh_id f policy (tenant_view ws db) = engine_verdict E ws now fresh_id f policy db"
  unfolding engine_verdict_def build_context_def view_evaluations ..

definition same_for :: "string \<Rightarrow> 'e + 'o \<times> gov_store \<Rightarrow> 'e + 'o \<times> gov_store" where
  "same_for ws r = map_sum id (map_prod id (tenant_view ws)) r"

lemma view_idem: "tenant_view ws (tenant_view ws db) = tenant_view ws db"
  by (simp add: tenant_view_def)

lemma view_record:
  "map_option (map_prod id (tenant_view ws)) (record_evaluation E ws d action fingerprint (tenant_view ws db))
     = map_option (map_prod id (tenant_view ws)) (record_evaluation E ws d action fingerprint db)"
  unfolding record_evaluation_def by (simp add: view_idem tenant_view_def split: option.split)

lemma view_decide:
  "same_for ws (decide_and_record E H ws a now fresh_id f policy (tenant_view ws db))
     = same_for ws (decide_and_record E H ws a now fresh_id f policy db)"
proof (cases "existing_evaluation E ws (map_option pr_id policy) (evaluation_digest H a f policy) db")
  case (Some r)
  then show ?thesis unfolding decide_and_record_def view_evaluations by (simp add: same_for_def view_idem)
next
  case none: None
  show ?thesis
  proof (cases "engine_verdict E ws now fresh_id f policy db")
    case (Inl e)
    then show ?thesis unfolding decide_and_record_def view_evaluations view_verdict none by (simp add: same_for_def)
  next
    case (Inr d)
    let ?w = "record_evaluation E ws d (enf_action_text a) (Some (evaluation_digest H a f policy))"
    have step: "decide_and_record E H ws a now fresh_id f policy v =
        (case ?w v of None \<Rightarrow> Inl InsertRaised | Some (recorded, v') \<Rightarrow> Inr (decided_outcome f policy d recorded, v'))"
      if "v = db \<or> v = tenant_view ws db" for v
      using that unfolding decide_and_record_def
      by (elim disjE) (simp_all only: view_evaluations view_verdict none Inr option.case sum.case)
    have "map_option (map_prod id (tenant_view ws)) (?w (tenant_view ws db)) = map_option (map_prod id (tenant_view ws)) (?w db)"
      by (rule view_record)
    then show ?thesis
      unfolding step [OF disjI1 [OF refl]] step [OF disjI2 [OF refl]]
      by (cases "?w (tenant_view ws db)"; cases "?w db") (auto simp: same_for_def)
  qed
qed

lemma view_deny:
  "same_for ws (deny_in_scope E H ws a now fresh_id f (tenant_view ws db)) = same_for ws (deny_in_scope E H ws a now fresh_id f db)"
proof -
  have "scope_facts E ws f (tenant_view ws db) = scope_facts E ws f db" by (simp add: scope_facts_def view_policies)
  then show ?thesis
    unfolding deny_in_scope_def view_policies
    using view_decide [of ws E H a now fresh_id "scope_facts E ws f db" None db]
    by (simp add: view_idem same_for_def split: option.split)
qed

lemma view_evaluate:
  "same_for ws (evaluate_response_action E H ws a now fresh_id (tenant_view ws db))
     = same_for ws (evaluate_response_action E H ws a now fresh_id db)"
proof -
  have same: "same_for ws (Inr (x, tenant_view ws db)) = same_for ws (Inr (x, db))" for x by (simp add: same_for_def view_idem)
  show ?thesis
    unfolding evaluate_response_action_def view_facts view_policies Let_def
    using view_deny view_decide same by (auto split: option.split)
qed

section \<open>What an evaluation writes\<close>

lemma decide_writes:
  assumes "decide_and_record E H ws a now fresh_id f policy db = Inr (res, db')"
  obtains (none) "db' = db" "\<not> eo_recorded res" "storage_ready E \<Longrightarrow> eo_decision res = None"
  | (row) r where "db' = db\<lparr>gv_evaluations := gv_evaluations db @ [r]\<rparr>" "er_workspace r = ws"
      "engine_verdict E ws now fresh_id f policy db = Inr (er_decision r)" "eo_decision res = Some (er_decision r)"
      "er_action r = enf_action_text a" "er_digest r = Some (evaluation_digest H a f policy)"
      "cast_uuid E (map_option pr_id policy) = Some (er_policy_id r)" "\<not> dc_simulation (er_decision r)"
      "er_evaluated_at r = utc_micros now" "eo_policy res = policy" "eo_facts res = Some f"
      "eo_status res = (if policy = None then RecordedFailClosed else Recorded)"
      "stored_amount E (ef_amount f) (er_amount r)"
  using assms
proof (cases rule: decide_and_record_cases)
  case (existing r)
  have "\<not> eo_recorded res" "eo_decision res = None" using existing(2) by (simp_all add: existing_outcome_def)
  with existing(3) show ?thesis by (intro none) simp_all
next
  case (decided d recorded)
  note fields = engine_verdict_fields [OF decided(1)]
  show ?thesis
    using decided(3)
  proof (cases rule: record_evaluation_cases)
    case absent
    then have "\<not> eo_recorded res" using decided(2) by (simp add: decided_outcome_def)
    with absent(1,3) show ?thesis by (intro none) simp_all
  next
    case (inserted r)
    show ?thesis
      by (rule row [of r]) (use inserted decided fields in \<open>simp_all add: decided_outcome_def\<close>)
  qed
qed

lemma unwritten_not_recorded:
  assumes "evaluate_response_action E H ws a now fresh_id db = Inr (res, db')" and "unwritten res"
  shows "db' = db"
  using assms(1)
proof (cases rule: evaluate_response_action_cases)
  case (governed f p)
  from governed(5) show ?thesis
  proof (cases rule: decide_writes)
    case row
    then show ?thesis using assms(2) by (simp add: unwritten_def)
  qed
next
  case (denied f)
  from denied(5) show ?thesis
  proof (cases rule: decide_writes)
    case row
    then show ?thesis using assms(2) by (simp add: unwritten_def)
  qed
qed

lemma evaluation_writes:
  assumes "evaluate_response_action E H ws a now fresh_id db = Inr (res, db')"
  obtains (none) "db' = db" "\<not> eo_recorded res"
  | (row) r f policy where "db' = db\<lparr>gv_evaluations := gv_evaluations db @ [r]\<rparr>" "er_workspace r = ws"
      "eo_decision res = Some (er_decision r)" "er_action r = enf_action_text a"
      "er_digest r = Some (evaluation_digest H a f policy)" "\<not> dc_simulation (er_decision r)"
      "decide_and_record E H ws a now fresh_id f policy db = Inr (res, db')"
      "cast_uuid E (map_option pr_id policy) = Some (er_policy_id r)"
      "f = resolve_action_facts E ws a db \<or> f = scope_facts E ws (resolve_action_facts E ws a db) db"
  using assms
proof (cases rule: evaluate_response_action_cases)
  case unchanged
  show ?thesis by (rule none) (use unchanged in \<open>simp_all add: unwritten_def\<close>)
next
  case (governed f p)
  from governed(5) show ?thesis
  proof (cases rule: decide_writes)
    case none': none
    show ?thesis by (rule none [OF none'(1,2)])
  next
    case (row r)
    show ?thesis
      by (rule that(2) [of r f "Some p"]) (use row governed in simp_all)
  qed
next
  case (denied f)
  from denied(5) show ?thesis
  proof (cases rule: decide_writes)
    case none': none
    show ?thesis by (rule none [OF none'(1,2)])
  next
    case (row r)
    show ?thesis
      by (rule that(2) [of r "scope_facts E ws f db" None]) (use row denied in simp_all)
  qed
qed

lemma frame_facts: "resolve_action_facts E ws a (db\<lparr>gv_evaluations := x\<rparr>) = resolve_action_facts E ws a db"
proof -
  have frame: "gv_alerts (db\<lparr>gv_evaluations := x\<rparr>) = gv_alerts db" "gv_targets (db\<lparr>gv_evaluations := x\<rparr>) = gv_targets db"
    "gv_detections (db\<lparr>gv_evaluations := x\<rparr>) = gv_detections db" "gv_issuances (db\<lparr>gv_evaluations := x\<rparr>) = gv_issuances db"
    by simp_all
  have "resolve_target_asset E ws i (db\<lparr>gv_evaluations := x\<rparr>) unr = resolve_target_asset E ws i db unr" for i unr
    unfolding resolve_target_asset_def frame by (rule refl)
  then show ?thesis unfolding resolve_action_facts_def frame by (simp only:)
qed

lemma frame_store: "gs_policies (db\<lparr>gv_evaluations := x\<rparr>) = gs_policies db" "gs_versions (db\<lparr>gv_evaluations := x\<rparr>) = gs_versions db"
  by simp_all

lemma frame_policies:
  "governing_policy E ws operation asset (db\<lparr>gv_evaluations := x\<rparr>) = governing_policy E ws operation asset db"
  "policy_scope_governed E ws asset (db\<lparr>gv_evaluations := x\<rparr>) = policy_scope_governed E ws asset db"
  "scope_facts E ws f (db\<lparr>gv_evaluations := x\<rparr>) = scope_facts E ws f db"
  unfolding governing_policy_def policy_scope_governed_def scope_facts_def scope_policy_refs_def frame_store by (rule refl)+

text \<open>The row just written is found by the next evaluation of the same facts.\<close>

lemma existing_after_write:
  assumes "decide_and_record E H ws a now fresh_id f policy db = Inr (res, db')" and "eo_recorded res"
    and "\<not> ds_fails E ReadExisting" and "\<forall>b. H b \<noteq> []"
  shows "\<exists>res'. decide_and_record E H ws a now' fresh_id' f policy db' = Inr (res', db') \<and> eo_status res' = AlreadyEvaluated
    \<and> \<not> eo_recorded res'"
  using assms(1)
proof (cases rule: decide_writes)
  case none
  then show ?thesis using assms(2) by simp
next
  case (row r)
  let ?dig = "evaluation_digest H a f policy"
  have "?dig \<noteq> []" using assms(4) by (simp add: evaluation_digest_def fact_digest_def bytes_hex_def)
  let ?rows = "filter (\<lambda>r'. er_workspace r' = ws \<and> er_policy_id r' = er_policy_id r \<and> \<not> dc_simulation (er_decision r')
      \<and> er_digest r' = Some ?dig) (gv_evaluations db')"
  have "r \<in> set ?rows" using row by simp
  then have "?rows \<noteq> []" by (metis list.set(1) empty_iff)
  then have "first_by (\<lambda>r. - er_evaluated_at r) ?rows \<noteq> None" unfolding first_by_None .
  then obtain r' where r': "first_by (\<lambda>r. - er_evaluated_at r) ?rows = Some r'" by blast
  have "existing_evaluation E ws (map_option pr_id policy) ?dig db' = Some r'"
    unfolding existing_evaluation_def with_uuid_def row(7) option.case statement_def
    using \<open>?dig \<noteq> []\<close> assms(3) r' by simp
  then have "decide_and_record E H ws a now' fresh_id' f policy db' = Inr (existing_outcome f policy r', db')"
    unfolding decide_and_record_def by simp
  then show ?thesis by (simp add: existing_outcome_def)
qed

text \<open>The rows of the other workspaces are kept, whatever the evaluation returns.\<close>

lemma other_tenants_kept:
  assumes "evaluate_response_action E H ws a now fresh_id db = Inr (res, db')" and "ws' \<noteq> ws"
  shows "tenant_view ws' db' = tenant_view ws' db"
  using assms(1)
proof (cases rule: evaluation_writes)
  case none
  then show ?thesis by simp
next
  case (row r)
  then show ?thesis using assms(2) by (simp add: tenant_view_def)
qed

lemma evaluation_again:
  assumes "evaluate_response_action E H ws a now fresh_id db = Inr (res, db')" and "eo_recorded res"
  shows "\<exists>f policy. decide_and_record E H ws a now fresh_id f policy db = Inr (res, db')
    \<and> (\<forall>now' fresh_id'. evaluate_response_action E H ws a now' fresh_id' db' = decide_and_record E H ws a now' fresh_id' f policy db')"
  using assms(1)
proof (cases rule: evaluate_response_action_cases)
  case unchanged
  then show ?thesis using assms(2) by (simp add: unwritten_def)
next
  case (governed f p)
  have none: "material_unreadable f = []" "supplementary_unreadable f = []"
    using governed(3) by (simp_all add: material_unreadable_def supplementary_unreadable_def)
  obtain r where db': "db' = db\<lparr>gv_evaluations := gv_evaluations db @ [r]\<rparr>"
    using governed(5) by (cases rule: decide_writes) (use assms(2) in simp_all)
  have "evaluate_response_action E H ws a now' fresh_id' db' = decide_and_record E H ws a now' fresh_id' f (Some p) db'" for now' fresh_id'
    unfolding evaluate_response_action_def Let_def db' frame_facts frame_policies governed(2) [symmetric] governed(4) none
    using governed(1) by simp
  with governed(5) show ?thesis by blast
next
  case (denied f)
  obtain r where db': "db' = db\<lparr>gv_evaluations := gv_evaluations db @ [r]\<rparr>"
    using denied(5) by (cases rule: decide_writes) (use assms(2) in simp_all)
  have "evaluate_response_action E H ws a now' fresh_id' db' = deny_in_scope E H ws a now' fresh_id' f db'" for now' fresh_id'
    unfolding evaluate_response_action_def Let_def db' frame_facts frame_policies denied(2) [symmetric] denied(3)
    using denied(1,6) by auto
  moreover have "deny_in_scope E H ws a now' fresh_id' f db'
      = decide_and_record E H ws a now' fresh_id' (scope_facts E ws f db) None db'" for now' fresh_id'
    unfolding deny_in_scope_def db' frame_policies denied(4) by simp
  ultimately show ?thesis using denied(5) by metis
qed

section \<open>What is permitted in a day\<close>

text \<open>
  The value of the ALLOW verdicts given for a policy of a workspace on a UTC day, over the verdicts
  themselves, and the same over the rows of a table, where a simulation counts nothing.
\<close>

definition dec_value :: "dec option \<Rightarrow> rat" where
  "dec_value d = (case d of Some (Finite x) \<Rightarrow> fd_val x | _ \<Rightarrow> 0)"

definition granted :: "string \<Rightarrow> string \<Rightarrow> int \<Rightarrow> (string \<times> policy_decision) list \<Rightarrow> rat" where
  "granted ws pid day verdicts = (\<Sum>(w, d) \<leftarrow> verdicts.
     if w = ws \<and> dc_policy_id d = Some pid \<and> dc_decision d = DECISION_ALLOW
        \<and> utc_micros (dc_evaluated_at d) div 86400000000 = day
     then dec_value (dc_amount_usd d) else 0)"

definition permitted_value :: "string \<Rightarrow> string \<Rightarrow> int \<Rightarrow> evaluation_row list \<Rightarrow> rat" where
  "permitted_value ws pid day rows = (\<Sum>r \<leftarrow> rows.
     if er_workspace r = ws \<and> er_policy_id r = Some pid \<and> \<not> dc_simulation (er_decision r)
        \<and> dc_decision (er_decision r) = DECISION_ALLOW \<and> er_evaluated_at r div 86400000000 = day
     then dec_value (er_amount r) else 0)"

text \<open>
  What the columns promise: amounts are finite and have no more than two decimals, \<open>NUMERIC(38, 2)\<close> of
  an evaluation and \<open>NUMERIC(78, 0)\<close> of a detection; storing such an amount does not change its value;
  the identifier of a policy is read back as it is.
\<close>

definition in_cents :: "dec option \<Rightarrow> bool" where
  "in_cents d \<longleftrightarrow> (\<forall>x. d = Some x \<longrightarrow> (\<exists>n. x = Finite n \<and> -2 \<le> fd_exp n))"

definition amounts_in_cents :: "gov_store \<Rightarrow> bool" where
  "amounts_in_cents db \<longleftrightarrow> (\<forall>r \<in> set (gv_evaluations db). in_cents (er_amount r)) \<and>
     (\<forall>d \<in> set (gv_detections db). in_cents (dr_amount d))"

definition numeric_session :: "db_session \<Rightarrow> gov_store \<Rightarrow> bool" where
  "numeric_session E db \<longleftrightarrow> (\<forall>r \<in> set (gs_policies db). ds_uuid E (pr_id r) = Some (pr_id r)) \<and>
     (\<forall>a b. -2 \<le> fd_exp a \<and> ds_numeric E (Finite a) = Some b \<longrightarrow>
        (\<exists>n. b = Finite n \<and> -2 \<le> fd_exp n \<and> fd_val n = fd_val a))"

text \<open>The cap of a policy stays at or below a limit, and has at most the 28 digits of the engine.\<close>

definition capped :: "string \<Rightarrow> rat \<Rightarrow> gov_store \<Rightarrow> bool" where
  "capped pid limit db \<longleftrightarrow> (\<forall>r \<in> set (gs_policies db). pr_id r = pid \<longrightarrow>
     (\<exists>l. pv_maximum (pr_values r) = Some (Finite l) \<and> fd_exp l = -2 \<and> fd_coeff l < 10 ^ 28 \<and>
        0 \<le> fd_val l \<and> fd_val l \<le> limit))"

text \<open>
  A history that begins with no evaluation recorded, and the verdicts it gave: evaluations of any response
  actions of any workspace, at any instants and under any session, one after the other; simulations;
  and any other writes, which leave the recorded evaluations alone but may edit policies and store
  detections. An evaluation that raises writes nothing.
\<close>

definition verdict_of :: "string \<Rightarrow> enforcement_outcome \<Rightarrow> (string \<times> policy_decision) list" where
  "verdict_of ws res = (case eo_decision res of None \<Rightarrow> [] | Some d \<Rightarrow> [(ws, d)])"

inductive enforcement_history ::
  "hash_fun \<Rightarrow> string \<Rightarrow> rat \<Rightarrow> (string \<times> policy_decision) list \<Rightarrow> gov_store \<Rightarrow> bool" for H pid limit where
  start: "gv_evaluations db = [] \<Longrightarrow> amounts_in_cents db \<Longrightarrow> enforcement_history H pid limit [] db"
| evaluated: "enforcement_history H pid limit verdicts db \<Longrightarrow> numeric_session E db \<Longrightarrow> capped pid limit db \<Longrightarrow>
    evaluate_response_action E H ws a now fresh_id db = Inr (res, db') \<Longrightarrow>
    enforcement_history H pid limit (verdicts @ verdict_of ws res) db'"
| simulated: "enforcement_history H pid limit verdicts db \<Longrightarrow> dc_simulation (er_decision r) \<Longrightarrow> in_cents (er_amount r) \<Longrightarrow>
    enforcement_history H pid limit verdicts (db\<lparr>gv_evaluations := gv_evaluations db @ [r]\<rparr>)"
| changed: "enforcement_history H pid limit verdicts db \<Longrightarrow> gv_evaluations db' = gv_evaluations db \<Longrightarrow> amounts_in_cents db' \<Longrightarrow>
    enforcement_history H pid limit verdicts db'"

lemma permitted_value_snoc:
  "permitted_value ws pid day (rows @ [r]) = permitted_value ws pid day rows + permitted_value ws pid day [r]"
  by (simp add: permitted_value_def)

lemma numeric_sum:
  assumes "\<forall>a \<in> set xs. in_cents (Some a)" and "-2 \<le> fd_exp z"
  shows "\<exists>n. fold (\<lambda>a total. numeric_add total a) xs (Finite z) = Finite n \<and> -2 \<le> fd_exp n
    \<and> fd_val n = fd_val z + (\<Sum>a \<leftarrow> xs. dec_value (Some a))"
  using assms
proof (induction xs arbitrary: z)
  case (Cons a xs)
  obtain n where n: "a = Finite n" "-2 \<le> fd_exp n" using Cons.prems(1) by (auto simp: in_cents_def)
  have "-2 \<le> fd_exp (fd_exact_add z n)" using n(2) Cons.prems(2) by (simp add: fd_exact_add_def Let_def)
  then show ?case
    using Cons.IH [of "fd_exact_add z n"] Cons.prems(1) n(1) by (simp add: fd_exact_add_val dec_value_def add.assoc)
qed simp

text \<open>The total the service reads is the value permitted so far.\<close>

lemma permitted_value_sum:
  "permitted_value ws pid (utc_day now) rows
     = (\<Sum>a \<leftarrow> List.map_filter er_amount (filter (counts_for ws (Some pid) now) rows). dec_value (Some a))"
proof (induction rows)
  case (Cons r rows)
  then show ?case
    by (cases "er_amount r") (auto simp: permitted_value_def counts_for_def map_filter_simps dec_value_def)
qed (simp add: permitted_value_def map_filter_simps)

lemma daily_total_value:
  assumes total: "daily_total_usd E ws pid now db = Some t" and "ds_uuid E pid = Some pid" and cents: "amounts_in_cents db"
  shows "\<exists>n. t = Finite n \<and> -2 \<le> fd_exp n \<and> fd_val n = permitted_value ws pid (utc_day now) (gv_evaluations db)"
proof -
  let ?xs = "List.map_filter er_amount (filter (counts_for ws (Some pid) now) (gv_evaluations db))"
  have "\<forall>a \<in> set ?xs. in_cents (Some a)" using cents by (force simp: amounts_in_cents_def List.map_filter_def)
  from numeric_sum [OF this, of "FinDec False 0 0"] obtain n where
    n: "fold (\<lambda>a total. numeric_add total a) ?xs (Finite (FinDec False 0 0)) = Finite n" "-2 \<le> fd_exp n"
      "fd_val n = permitted_value ws pid (utc_day now) (gv_evaluations db)"
    unfolding permitted_value_sum by auto
  have t: "t = (if truthy (PDec (Finite n)) then Finite n else dec_zero)"
    using total assms(2) n(1) unfolding daily_total_usd_def with_uuid_def cast_uuid_def
    by (auto simp: statement_def dec_zero_def split: if_split_asm)
  show ?thesis
  proof (cases "truthy (PDec (Finite n))")
    case True
    then show ?thesis using t n by simp
  next
    case False
    then have "fd_val n = 0" by (simp add: fd_val_def fd_int_def)
    then show ?thesis using t n False by (simp add: dec_zero_def)
  qed
qed

lemma facts_amount:
  assumes "amounts_in_cents db"
  shows "in_cents (ef_amount (resolve_action_facts E ws a db))"
proof -
  have "in_cents (case detection of None \<Rightarrow> None | Some d \<Rightarrow> dr_amount d)"
    if "resolve_threat_detection E ws i al inc (gv_detections db) unr = (detection, unr')" for i al inc unr detection unr'
    using that resolve_threat_detection_in [of E ws i al inc "gv_detections db" unr _ unr'] assms
    by (cases detection) (auto simp: amounts_in_cents_def in_cents_def [of None])
  then show ?thesis unfolding resolve_action_facts_def Let_def by (auto split: prod.split)
qed

lemma stored_value:
  assumes "stored_amount E amount stored" "in_cents amount" "numeric_session E db"
  shows "in_cents stored" "dec_value stored = dec_value amount"
proof -
  have "in_cents stored \<and> dec_value stored = dec_value amount"
  proof (cases amount)
    case None
    then show ?thesis using assms(1) by (simp add: stored_amount_def in_cents_def)
  next
    case (Some a)
    then obtain n where n: "a = Finite n" "-2 \<le> fd_exp n" using assms(2) by (auto simp: in_cents_def)
    obtain b where b: "stored = Some b" "ds_numeric E (Finite n) = Some b"
      using assms(1) by (auto simp: stored_amount_def Some n(1))
    then obtain m where "b = Finite m" "-2 \<le> fd_exp m" "fd_val m = fd_val n"
      using assms(3) n(2) unfolding numeric_session_def by blast
    then show ?thesis by (simp add: in_cents_def dec_value_def b(1) Some n(1))
  qed
  then show "in_cents stored" "dec_value stored = dec_value amount" by simp_all
qed

text \<open>An evaluation leaves the amounts in cents and passes the limit of no day.\<close>

lemma recorded_within_cap:
  assumes verdict: "engine_verdict E ws now fresh_id f (Some p) db = Inr d" "dc_decision d = DECISION_ALLOW"
    and p: "p = load_policy r0" "r0 \<in> set (gs_policies db)" "pid = pr_id r0"
    and db: "numeric_session E db" "capped pid limit db" "amounts_in_cents db" "in_cents (ef_amount f)"
  shows "permitted_value ws pid (utc_day now) (gv_evaluations db) + dec_value (ef_amount f) \<le> limit"
proof -
  let ?c = "build_context E ws (Some p) (as_payload f) now False db"
  have id: "pr_id p = pid" by (simp add: p(1,3) load_policy_fields)
  have uuid: "ds_uuid E pid = Some pid" using db(1) p(2,3) by (simp add: numeric_session_def)
  obtain l where l: "pv_maximum (pr_values r0) = Some (Finite l)" "fd_exp l = -2" "fd_coeff l < 10 ^ 28"
    "0 \<le> fd_val l" "fd_val l \<le> limit" using db(2) p(2,3) unfolding capped_def by blast
  have maximum: "pv_maximum (pr_values p) = Some (Finite l)" by (simp add: p(1) load_policy_def Let_def l(1))
  have "policy_permits (engine_policy p) ?c" using engine_verdict_fields(5) [OF verdict(1)] verdict(2) by auto
  then have ok: "daily_ok (engine_policy p) ?c" by (simp add: policy_permits_def)
  have cap: "as_decimal (pd_maximum_daily_amount_usd (engine_policy p)) = Some (Finite l)"
    by (simp add: engine_policy_def Let_def maximum)
  obtain a prior where a: "as_decimal (ec_amount_usd ?c) = Some a" and prior: "as_decimal (ec_daily_total_usd ?c) = Some prior"
    using ok cap unfolding daily_ok_def by auto
  have amount: "ef_amount f = Some a"
    using a by (cases "ef_amount f") (simp_all add: build_context_def Let_def as_payload_def decimal_of_def as_decimal_def)
  then obtain n where n: "a = Finite n" "-2 \<le> fd_exp n" using db(4) by (auto simp: in_cents_def)
  have "daily_total_usd E ws pid now db = Some prior"
    using prior by (simp add: build_context_def Let_def maximum id as_decimal_def split: option.splits)
  then obtain t where t: "prior = Finite t" "-2 \<le> fd_exp t"
    "fd_val t = permitted_value ws pid (utc_day now) (gv_evaluations db)"
    using daily_total_value db(3) uuid by blast
  have "fd_val t + fd_val n \<le> fd_val l"
    by (rule daily_ok_cap [OF ok cap a [unfolded n(1)] prior [unfolded t(1)]]) (use t n l in simp_all)
  then show ?thesis using t(3) l(5) by (simp add: amount n(1) dec_value_def)
qed

definition kept_within :: "string \<Rightarrow> rat \<Rightarrow> string \<Rightarrow> int \<Rightarrow> gov_store \<Rightarrow> gov_store \<Rightarrow> (string \<times> policy_decision) list \<Rightarrow> bool" where
  "kept_within pid limit ws day db db' verdicts \<longleftrightarrow> amounts_in_cents db' \<and>
     permitted_value ws pid day (gv_evaluations db') = permitted_value ws pid day (gv_evaluations db) + granted ws pid day verdicts \<and>
     permitted_value ws pid day (gv_evaluations db') \<le> max limit (permitted_value ws pid day (gv_evaluations db))"

lemma kept_unchanged: "amounts_in_cents db \<Longrightarrow> eo_decision res = None \<Longrightarrow> kept_within pid limit ws day db db (verdict_of w res)"
  by (simp add: kept_within_def verdict_of_def granted_def)

lemma kept_appended:
  assumes db': "db' = db\<lparr>gv_evaluations := gv_evaluations db @ [r]\<rparr>" and "amounts_in_cents db" "in_cents (er_amount r)"
    and "permitted_value ws pid day [r] = granted ws pid day verdicts"
    and "granted ws pid day verdicts = 0 \<or>
      permitted_value ws pid day (gv_evaluations db) + granted ws pid day verdicts \<le> limit"
  shows "kept_within pid limit ws day db db' verdicts"
proof -
  have "amounts_in_cents db'" using assms(2,3) by (auto simp: amounts_in_cents_def db')
  moreover have "permitted_value ws pid day (gv_evaluations db')
      = permitted_value ws pid day (gv_evaluations db) + granted ws pid day verdicts"
    by (simp add: db' permitted_value_snoc assms(4))
  ultimately show ?thesis using assms(5) unfolding kept_within_def by auto
qed

lemma evaluated_within_cap:
  assumes run: "evaluate_response_action E H ws a now fresh_id db = Inr (res, db')"
    and db: "numeric_session E db" "capped pid limit db" "amounts_in_cents db"
  shows "kept_within pid limit ws' day db db' (verdict_of ws res)"
  using run
proof (cases rule: evaluate_response_action_cases)
  case unchanged
  then show ?thesis using db(3) by (simp add: kept_unchanged unwritten_def)
next
  case (denied f)
  have cents: "in_cents (ef_amount (scope_facts E ws f db))"
    using facts_amount [OF db(3)] by (simp add: scope_facts_def denied(2))
  from denied(5) show ?thesis
  proof (cases rule: decide_writes)
    case none
    then show ?thesis using db(3) denied(1) by (simp add: kept_unchanged)
  next
    case (row r)
    have "dc_decision (er_decision r) \<noteq> DECISION_ALLOW" using engine_verdict_fields(5) [OF row(3)] by simp
    then have "permitted_value ws' pid day [r] = 0" "granted ws' pid day (verdict_of ws res) = 0"
      by (simp_all add: permitted_value_def granted_def verdict_of_def row(4))
    then show ?thesis by (intro kept_appended [OF row(1) db(3) stored_value(1) [OF row(13) cents db(1)]]) simp_all
  qed
next
  case (governed f p)
  have cents: "in_cents (ef_amount f)" using facts_amount [OF db(3)] by (simp add: governed(2))
  obtain r0 where r0: "p = load_policy r0" "r0 \<in> set (gs_policies db)" using governing_policy_row [OF governed(4)] by metis
  have id: "pr_id p = pr_id r0" by (simp add: r0(1) load_policy_fields)
  from governed(5) show ?thesis
  proof (cases rule: decide_writes)
    case none
    then show ?thesis using db(3) governed(1) by (simp add: kept_unchanged)
  next
    case (row r)
    note fields = engine_verdict_fields [OF row(3)] and stored = stored_value [OF row(13) cents db(1)]
    have "er_policy_id r = Some (pr_id r0)"
      using row(7) db(1) r0(2) by (simp add: cast_uuid_def id numeric_session_def)
    then have same: "permitted_value ws' pid day [r] = granted ws' pid day (verdict_of ws res)"
      using fields by (auto simp: permitted_value_def granted_def verdict_of_def row(2,4,9) id stored(2))
    have "permitted_value ws' pid day (gv_evaluations db) + granted ws' pid day (verdict_of ws res) \<le> limit"
      if "granted ws' pid day (verdict_of ws res) \<noteq> 0"
    proof -
      have "ws' = ws" "pid = pr_id r0" "dc_decision (er_decision r) = DECISION_ALLOW" "day = utc_day now"
        and "granted ws' pid day (verdict_of ws res) = dec_value (ef_amount f)"
        using that fields by (auto simp: granted_def verdict_of_def row(4) id utc_day_def split: if_split_asm)
      then show ?thesis using recorded_within_cap [OF row(3) _ r0 _ db cents] by simp
    qed
    then show ?thesis by (intro kept_appended [OF row(1) db(3) stored(1) same]) blast
  qed
qed

lemma granted_append: "granted ws pid day (xs @ ys) = granted ws pid day xs + granted ws pid day ys"
  by (simp add: granted_def)

lemma enforcement_history_capped:
  assumes "enforcement_history H pid limit verdicts db"
  shows "amounts_in_cents db \<and> permitted_value ws pid day (gv_evaluations db) = granted ws pid day verdicts
    \<and> granted ws pid day verdicts \<le> max 0 limit"
  using assms
proof (induction rule: enforcement_history.induct)
  case start
  then show ?case by (simp add: permitted_value_def granted_def)
next
  case (evaluated verdicts db E ws1 a now fresh_id res db')
  have "kept_within pid limit ws day db db' (verdict_of ws1 res)"
    by (rule evaluated_within_cap [OF evaluated.hyps(4,2,3)]) (use evaluated.IH in blast)
  then show ?case using evaluated.IH by (auto simp: kept_within_def granted_append max_def split: if_split_asm)
next
  case (simulated verdicts db r)
  have "permitted_value ws pid day [r] = 0" using simulated.hyps(2) by (simp add: permitted_value_def)
  then show ?case using simulated by (auto simp: permitted_value_snoc amounts_in_cents_def)
next
  case (changed verdicts db db')
  then show ?case by simp
qed

section \<open>Properties\<close>

text \<open>
  C5. The daily cap is kept. Let the cap of a policy stay at or below a limit, with two decimals and at
  most 28 digits, and let amounts have no more than two decimals. Over any history of evaluations, one
  after the other, of any response actions and workspaces, with policies edited and detections stored
  in between, the amounts of the ALLOW verdicts given under the policy in a workspace on one UTC day
  never add up to more than the limit, although the engine rounds its sum to 28 digits.
\<close>

theorem daily_cap_is_kept:
  assumes "enforcement_history H pid limit verdicts db"
  shows "granted ws pid day verdicts \<le> max 0 limit"
  using enforcement_history_capped [OF assms] by blast

text \<open>
  An enforced ALLOW is backed by the records of its workspace. When the producer returns ALLOW for
  a response action, an active policy of the workspace whose scope holds the asset permits the facts
  read from the tables, every fact could be read, the policy names no role, and where it demands a
  business event or a settlement an authorization of that asset, named by a detection of the workspace,
  stands behind it. The verdict is never a simulation.
\<close>

theorem enforced_allow_is_permitted:
  assumes "evaluate_response_action E H ws a now fresh_id db = Inr (res, db')"
    and "eo_decision res = Some d" and "dc_decision d = DECISION_ALLOW"
  shows "(\<exists>r. allowed_by E ws now (resolve_action_facts E ws a db) r db \<and> eo_policy res = Some (load_policy r))
    \<and> \<not> dc_simulation d"
  using allow_allowed_by [OF assms] by blast

text \<open>
  Workspaces do not interfere. Two stores that hold the same rows of a workspace give its response
  actions the same outcome and the same new rows of that workspace, and an evaluation leaves the rows
  of every other workspace as they are.
\<close>

theorem tenants_do_not_interfere:
  assumes "tenant_view ws db = tenant_view ws db2"
  shows "same_for ws (evaluate_response_action E H ws a now fresh_id db) = same_for ws (evaluate_response_action E H ws a now fresh_id db2)
    \<and> (\<forall>res db' ws'. evaluate_response_action E H ws a now fresh_id db = Inr (res, db') \<and> ws' \<noteq> ws
          \<longrightarrow> tenant_view ws' db' = tenant_view ws' db)"
  using view_evaluate [of ws E H a now fresh_id db] view_evaluate [of ws E H a now fresh_id db2] assms other_tenants_kept
  by metis

text \<open>
  Evaluating again writes nothing. After an evaluation recorded a verdict, an evaluation of the same
  action at any later time finds it and leaves the store as it is, so one operation is not counted
  twice against a daily limit. The database answers the lookup and a digest is never empty.
\<close>

theorem reevaluation_writes_nothing:
  assumes "evaluate_response_action E H ws a now fresh_id db = Inr (res, db')" and "eo_recorded res"
    and "\<not> ds_fails E ReadExisting" and "\<forall>b. H b \<noteq> []"
  shows "\<exists>res'. evaluate_response_action E H ws a now' fresh_id' db' = Inr (res', db') \<and> eo_status res' = AlreadyEvaluated
    \<and> \<not> eo_recorded res'"
proof -
  obtain f policy where f: "decide_and_record E H ws a now fresh_id f policy db = Inr (res, db')"
    and again: "evaluate_response_action E H ws a now' fresh_id' db' = decide_and_record E H ws a now' fresh_id' f policy db'"
    using evaluation_again [OF assms(1,2)] by blast
  show ?thesis unfolding again by (rule existing_after_write [OF f assms(2-4)])
qed

section \<open>The properties on an issuance\<close>

definition enf_session :: db_session where
  "enf_session = \<lparr>ds_tables = [POLICIES_TABLE, VERSIONS_TABLE, EVALUATIONS_TABLE, ''threat_detections'', ''asset_authorized_issuances''],
     ds_roles_column = True, ds_fails = (\<lambda>_. False), ds_uuid = Some, ds_numeric = Some, ds_py_uuid = (\<lambda>_. False),
     ds_authority = (\<lambda>_ _. None)\<rparr>"

definition enf_policy :: policy_row where
  "enf_policy = \<lparr>pr_id = ''p1'', pr_workspace = ''w'', pr_policy_key = ''POL-1'', pr_version = 2,
     pr_values = \<lparr>pv_name = ''Mint'', pv_operation = OPERATION_MINT, pv_status = GP_STATUS_ACTIVE, pv_asset = Some ''a1'',
       pv_business_event = Some BUSINESS_EVENT_SUBSCRIPTION, pv_settlement = Some SETTLEMENT_CLEARED,
       pv_window_start = None, pv_window_end = None, pv_maximum = Some (Finite (FinDec False 10000 (-2))), pv_roles = [],
       pv_violation = VIOLATION_ACTION_DENY\<rparr>, pr_origin = ORIGIN_CUSTOMER, pr_updated_at = 1\<rparr>"

definition enf_detection :: detection_row where
  "enf_detection = \<lparr>dr_id = ''d1'', dr_workspace = ''w'', dr_operation = Some ''mint'', dr_amount = Some (Finite (FinDec False 6000 (-2))), dr_asset = Some ''a1'',
     dr_tx_hash = None, dr_external_reference = PStr ''R'', dr_authorization_id = PNone, dr_linked_alert = Some ''l1'',
     dr_linked_incident = None, dr_detected_at = 5\<rparr>"

definition enf_issuance :: issuance_row where
  "enf_issuance = \<lparr>ir_id = ''i1'', ir_workspace = ''w'', ir_asset = ''a1'', ir_operation = Some ''mint'',
     ir_settlement = Some ''settled'', ir_reference = Some ''R'', ir_authorized_at = 4\<rparr>"

definition enf_store :: gov_store where
  "enf_store = \<lparr>gs_policies = [enf_policy], gs_versions = [], gv_evaluations = [], gv_alerts = [], gv_targets = [],
     gv_detections = [enf_detection], gv_issuances = [enf_issuance]\<rparr>"

definition enf_action :: response_action where
  "enf_action = \<lparr>ra_id = PStr ''x1'', ra_incident_id = PNone, ra_alert_id = PStr ''l1'', ra_created_by = PNone,
     ra_meta_asset_id = PStr ''a1'', ra_meta_event_id = PNone, ra_chain_incident_id = PNone, ra_chain_alert_id = PNone,
     ra_chain_asset_id = PNone, ra_chain_event_id = PNone, ra_chain_detection_id = PNone\<rparr>"

definition enf_hash :: hash_fun where
  "enf_hash b = [1]"

definition enf_facts :: enforcement_facts where
  "enf_facts = \<lparr>ef_operation = Some OPERATION_MINT, ef_amount = Some (Finite (FinDec False 6000 (-2))),
     ef_business_event = Some BUSINESS_EVENT_SUBSCRIPTION, ef_settlement = Some SETTLEMENT_CLEARED,
     ef_asset_id = Some ''a1'', ef_incident_id = None, ef_event_id = None, ef_proposer = None, ef_unreadable = [],
     ef_sources = [(''response_action_id'', JStr ''x1''), (''alert_id'', JStr ''l1''), (''detection_id'', JStr ''d1''),
       (''authorized_issuance_id'', JStr ''i1''), (''asset_id'', JStr ''a1'')]\<rparr>"

lemma enf_resolves: "resolve_action_facts enf_session ''w'' enf_action enf_store = enf_facts"
  by code_simp

lemma enf_governed:
  "storage_ready enf_session" "material_unreadable enf_facts = []" "supplementary_unreadable enf_facts = []"
  "governing_policy enf_session ''w'' (ef_operation enf_facts) (ef_asset_id enf_facts) enf_store = Some (Some enf_policy)"
  by code_simp+

lemma enf_total: "daily_total_usd enf_session ''w'' ''p1'' (Aware 0) enf_store = Some dec_zero"
  by code_simp

lemma enf_fields:
  "ef_operation enf_facts = Some OPERATION_MINT" "ef_business_event enf_facts = Some BUSINESS_EVENT_SUBSCRIPTION"
  "ef_settlement enf_facts = Some SETTLEMENT_CLEARED" "ef_unreadable enf_facts = []"
  by (simp_all add: enf_facts_def)

lemma enf_permitted:
  "policy_permits (engine_policy enf_policy) (build_context enf_session ''w'' (Some enf_policy) (as_payload enf_facts) (Aware 0) False enf_store)"
  (is "policy_permits ?p ?c")
proof -
  have daily: "ec_daily_total_usd ?c = PDec dec_zero" by (simp add: build_context_def Let_def enf_policy_def enf_total)
  have p: "pd_status ?p = GP_STATUS_ACTIVE" "pd_operation ?p = OPERATION_MINT" "pd_required_roles ?p = []"
    "pd_required_business_event ?p = Some BUSINESS_EVENT_SUBSCRIPTION" "pd_settlement_requirement ?p = Some SETTLEMENT_CLEARED"
    "pd_allowed_window_start_utc ?p = None" "pd_allowed_window_end_utc ?p = None"
    "pd_maximum_daily_amount_usd ?p = PDec (Finite (FinDec False 10000 (-2)))"
    by (simp_all add: engine_policy_def enf_policy_def)
  have "ec_amount_usd ?c = PDec (Finite (FinDec False 6000 (-2)))"
    by (simp add: build_context_def Let_def as_payload_def enf_facts_def decimal_of_def)
  moreover have "\<not> pd_has_allowed_window ?p" by (simp add: pd_has_allowed_window_def p)
  moreover have "normalize_operation (opt_str (Some OPERATION_MINT)) = Some OPERATION_MINT"
    "normalize_business_event (opt_str (Some BUSINESS_EVENT_SUBSCRIPTION)) = Some BUSINESS_EVENT_SUBSCRIPTION"
    "normalize_settlement_requirement (opt_str (Some SETTLEMENT_CLEARED)) = Some SETTLEMENT_CLEARED"
    "normalize_settlement (opt_str (Some SETTLEMENT_CLEARED)) = Some SETTLEMENT_CLEARED"
    "\<not> fd_less (FinDec False 6000 (-2)) (FinDec False 0 0)"
    "\<not> fd_less (FinDec False 10000 (-2)) (fd_add 28 (FinDec False 0 0) (FinDec False 6000 (-2)))" by code_simp+
  ultimately show ?thesis
    unfolding policy_permits_def event_ok_def settlement_ok_def window_ok_def daily_ok_def roles_ok_def p context_fields
    by (simp add: daily enf_fields dec_zero_def)
qed

lemma enf_records: "\<exists>db'. record_evaluation enf_session ws d action fingerprint db = Some (True, db')"
  by (cases "dc_policy_id d"; cases "dc_asset_id d"; cases "dc_incident_id d"; cases "dc_amount_usd d")
    (simp_all add: record_evaluation_def enf_session_def cast_uuid_def)

text \<open>An action that has the facts of \<open>enf_action\<close> but its identifier.\<close>

lemma enf_run_of:
  assumes facts: "resolve_action_facts enf_session ''w'' a enf_store = enf_facts\<lparr>ef_sources := sources\<rparr>"
  shows "\<exists>res db' d. evaluate_response_action enf_session enf_hash ''w'' a (Aware 0) ''e1'' enf_store = Inr (res, db')
     \<and> eo_decision res = Some d \<and> dc_decision d = DECISION_ALLOW \<and> eo_recorded res
     \<and> granted ''w'' ''p1'' 0 [(''w'', d)] = 60"
proof -
  let ?f = "enf_facts\<lparr>ef_sources := sources\<rparr>"
  have payload: "as_payload ?f = as_payload enf_facts" by (simp add: as_payload_def)
  have governed: "material_unreadable ?f = []" "supplementary_unreadable ?f = []"
    "governing_policy enf_session ''w'' (ef_operation ?f) (ef_asset_id ?f) enf_store = Some (Some enf_policy)"
    using enf_governed by (simp_all add: material_unreadable_def supplementary_unreadable_def)
  obtain e where e: "evaluate_policy (Some (engine_policy enf_policy))
      (build_context enf_session ''w'' (Some enf_policy) (as_payload ?f) (Aware 0) False enf_store)
      None (Some (Aware 0)) ''e1'' (Aware 0) = Inr e" "dc_decision e = DECISION_ALLOW"
    unfolding payload using policy_permits_evaluates [OF enf_permitted] by blast
  let ?d = "with_reasons ?f False e"
  have v: "engine_verdict enf_session ''w'' (Aware 0) ''e1'' ?f (Some enf_policy) enf_store = Inr ?d"
    unfolding engine_verdict_def option.map e(1) by simp
  obtain db' where r: "record_evaluation enf_session ''w'' ?d (enf_action_text a)
      (Some (evaluation_digest enf_hash a ?f (Some enf_policy))) enf_store = Some (True, db')"
    using enf_records by blast
  have none: "existing_evaluation enf_session ''w'' i x enf_store = None" for i x
    by (cases i) (simp_all add: existing_evaluation_def enf_store_def with_uuid_def cast_uuid_def enf_session_def statement_def first_by_def)
  have "evaluate_response_action enf_session enf_hash ''w'' a (Aware 0) ''e1'' enf_store
      = Inr (decided_outcome ?f (Some enf_policy) ?d True, db')"
    unfolding evaluate_response_action_def Let_def facts decide_and_record_def none option.map
    by (simp only: enf_governed(1) governed simp_thms if_False option.case v sum.case r prod.case)
  moreover have "dc_decision ?d = DECISION_ALLOW" by (simp add: e(2))
  moreover have "granted ''w'' ''p1'' 0 [(''w'', ?d)] = 60"
    using engine_verdict_fields [OF v] e(2)
    by (simp add: granted_def dec_value_def enf_facts_def enf_policy_def fd_val_def fd_int_def)
  ultimately show ?thesis by (simp add: decided_outcome_def)
qed

lemma enf_run:
  "\<exists>res db' d. evaluate_response_action enf_session enf_hash ''w'' enf_action (Aware 0) ''e1'' enf_store = Inr (res, db')
     \<and> eo_decision res = Some d \<and> dc_decision d = DECISION_ALLOW \<and> eo_recorded res
     \<and> granted ''w'' ''p1'' 0 [(''w'', d)] = 60"
  by (rule enf_run_of [of enf_action "ef_sources enf_facts"]) (simp add: enf_resolves)

lemma enf_columns: "amounts_in_cents enf_store" "numeric_session enf_session enf_store" "capped ''p1'' 100 enf_store"
  by (simp_all add: amounts_in_cents_def in_cents_def numeric_session_def capped_def enf_store_def enf_detection_def
      enf_policy_def enf_session_def fd_val_def fd_int_def)

theorem daily_cap_is_kept_witness:
  "\<exists>res d db'. evaluate_response_action enf_session enf_hash ''w'' enf_action (Aware 0) ''e1'' enf_store = Inr (res, db')
     \<and> eo_decision res = Some d \<and> granted ''w'' ''p1'' 0 [(''w'', d)] = 60
     \<and> granted ''w'' ''p1'' 0 (verdict_of ''w'' res) \<le> 100"
proof -
  obtain res db' d where run: "evaluate_response_action enf_session enf_hash ''w'' enf_action (Aware 0) ''e1'' enf_store = Inr (res, db')"
    and d: "eo_decision res = Some d" "granted ''w'' ''p1'' 0 [(''w'', d)] = 60" using enf_run by blast
  have "enforcement_history enf_hash ''p1'' 100 [] enf_store"
    by (rule enforcement_history.start) (simp add: enf_store_def, rule enf_columns(1))
  from enforcement_history.evaluated [OF this enf_columns(2,3) run]
  have "enforcement_history enf_hash ''p1'' 100 (verdict_of ''w'' res) db'" by simp
  from daily_cap_is_kept [OF this, of "''w''" 0] run d show ?thesis by auto
qed

theorem enforced_allow_is_permitted_witness:
  "allowed_by enf_session ''w'' (Aware 0) enf_facts enf_policy enf_store"
proof -
  obtain res db' d where run: "evaluate_response_action enf_session enf_hash ''w'' enf_action (Aware 0) ''e1'' enf_store = Inr (res, db')"
    and d: "eo_decision res = Some d" "dc_decision d = DECISION_ALLOW" using enf_run by blast
  obtain r where r: "allowed_by enf_session ''w'' (Aware 0) enf_facts r enf_store"
    using enforced_allow_is_permitted [OF run d] unfolding enf_resolves by blast
  moreover have "r = enf_policy" using r unfolding allowed_by_def by (simp add: enf_store_def)
  ultimately show ?thesis by simp
qed

theorem tenants_do_not_interfere_witness:
  "same_for ''w'' (evaluate_response_action enf_session enf_hash ''w'' enf_action (Aware 0) ''e1'' enf_store)
     = same_for ''w'' (evaluate_response_action enf_session enf_hash ''w'' enf_action (Aware 0) ''e1''
         (enf_store\<lparr>gs_policies := enf_policy\<lparr>pr_id := ''p2'', pr_workspace := ''v''\<rparr> # gs_policies enf_store\<rparr>))"
proof -
  let ?other = "enf_store\<lparr>gs_policies := enf_policy\<lparr>pr_id := ''p2'', pr_workspace := ''v''\<rparr> # gs_policies enf_store\<rparr>"
  have "tenant_view ''w'' enf_store = tenant_view ''w'' ?other" by (simp add: tenant_view_def)
  from tenants_do_not_interfere [OF this] show ?thesis by blast
qed

theorem reevaluation_writes_nothing_witness:
  "\<exists>res db' res'. evaluate_response_action enf_session enf_hash ''w'' enf_action (Aware 0) ''e1'' enf_store = Inr (res, db')
     \<and> eo_recorded res
     \<and> evaluate_response_action enf_session enf_hash ''w'' enf_action (Aware 9) ''e2'' db' = Inr (res', db')
     \<and> eo_status res' = AlreadyEvaluated"
proof -
  obtain res db' where run: "evaluate_response_action enf_session enf_hash ''w'' enf_action (Aware 0) ''e1'' enf_store = Inr (res, db')"
    and r: "eo_recorded res" using enf_run by blast
  have "\<not> ds_fails enf_session ReadExisting" by (simp add: enf_session_def)
  moreover have "\<forall>b. enf_hash b \<noteq> []" by (simp add: enf_hash_def)
  ultimately show ?thesis using reevaluation_writes_nothing [OF run r, of "Aware 9" "''e2''"] run r by blast
qed

section \<open>Where enforcement departs from its documentation\<close>

text \<open>
  The total is read and the verdict recorded without a lock, so two evaluations that read the total before
  either is recorded both pass: two amounts of 60 under a cap of 100.
\<close>

definition enf_second :: response_action where
  "enf_second = enf_action\<lparr>ra_id := PStr ''x2''\<rparr>"

lemma concurrent_evaluations_pass_cap:
  "\<exists>res db' d res2 db2 d2.
     evaluate_response_action enf_session enf_hash ''w'' enf_action (Aware 0) ''e1'' enf_store = Inr (res, db') \<and> eo_decision res = Some d \<and>
     evaluate_response_action enf_session enf_hash ''w'' enf_second (Aware 0) ''e1'' enf_store = Inr (res2, db2) \<and> eo_decision res2 = Some d2 \<and>
     capped ''p1'' 100 enf_store \<and> granted ''w'' ''p1'' 0 [(''w'', d), (''w'', d2)] = 120"
proof -
  have facts: "resolve_action_facts enf_session ''w'' enf_second enf_store
      = enf_facts\<lparr>ef_sources := ef_sources (resolve_action_facts enf_session ''w'' enf_second enf_store)\<rparr>"
    by code_simp
  obtain res db' d where run: "evaluate_response_action enf_session enf_hash ''w'' enf_action (Aware 0) ''e1'' enf_store = Inr (res, db')"
    "eo_decision res = Some d" "granted ''w'' ''p1'' 0 [(''w'', d)] = 60" using enf_run by blast
  obtain res2 db2 d2 where run2: "evaluate_response_action enf_session enf_hash ''w'' enf_second (Aware 0) ''e1'' enf_store = Inr (res2, db2)"
    "eo_decision res2 = Some d2" "granted ''w'' ''p1'' 0 [(''w'', d2)] = 60" using enf_run_of [OF facts] by blast
  have "granted ''w'' ''p1'' 0 [(''w'', d), (''w'', d2)] = 120"
    using granted_append [of "''w''" "''p1''" 0 "[(''w'', d)]" "[(''w'', d2)]"] run(3) run2(3) by simp
  with run(1,2) run2(1,2) enf_columns(3) show ?thesis by blast
qed

end
