(* ===== verification/Response_Gate.thy ===== *)
theory Response_Gate
  imports Governance_Config
begin

text \<open>
  The deterministic execution gate of a response action,
  \<open>services/api/app/domains/response_gate/engine.py\<close> with the vocabulary of
  \<open>config.py\<close>: the approval quorum, the terminal facts, the policy verdict and its
  provenance, authorization against capability.

  \<open>inputs.now\<close> is an aware instant, as the service passes it; \<open>clock\<close> is the time read
  when it is missing. Fields annotated \<open>str\<close> are strings, the empty one being falsy.
\<close>

section \<open>Vocabulary\<close>

abbreviation GATE_VERSION :: string where
  "GATE_VERSION \<equiv> ''response-execution-gate-v1''"
abbreviation GATE_AUTHORIZED :: string where
  "GATE_AUTHORIZED \<equiv> ''AUTHORIZED''"
abbreviation GATE_LOCKED :: string where
  "GATE_LOCKED \<equiv> ''LOCKED''"
abbreviation GATE_DENIED :: string where
  "GATE_DENIED \<equiv> ''DENIED''"

definition GATE_DECISIONS :: "string list" where
  [vocab_simps]: "GATE_DECISIONS = [GATE_AUTHORIZED, GATE_LOCKED, GATE_DENIED]"

definition GATE_DECISION_LABELS :: "(string \<times> string) list" where
  [vocab_simps]: "GATE_DECISION_LABELS = [(GATE_AUTHORIZED, ''Execution Authorized''),
     (GATE_LOCKED, ''Execution Locked''), (GATE_DENIED, ''Execution Denied by Policy'')]"

abbreviation POLICY_ALLOW :: string where
  "POLICY_ALLOW \<equiv> ''ALLOW''"
abbreviation POLICY_DENY :: string where
  "POLICY_DENY \<equiv> ''DENY''"
abbreviation POLICY_NOT_APPLICABLE :: string where
  "POLICY_NOT_APPLICABLE \<equiv> ''NOT_APPLICABLE''"
abbreviation POLICY_NOT_EVALUATED :: string where
  "POLICY_NOT_EVALUATED \<equiv> ''NOT_EVALUATED''"

definition POLICY_DECISIONS :: "string list" where
  [vocab_simps]: "POLICY_DECISIONS =
    [POLICY_ALLOW, POLICY_DENY, POLICY_NOT_APPLICABLE, POLICY_NOT_EVALUATED]"

abbreviation MATCH_ACTION_SPECIFIC :: string where
  "MATCH_ACTION_SPECIFIC \<equiv> ''ACTION_SPECIFIC''"
abbreviation MATCH_EVENT_SHARED :: string where
  "MATCH_EVENT_SHARED \<equiv> ''EVENT_SHARED''"
abbreviation MATCH_INCIDENT_SHARED :: string where
  "MATCH_INCIDENT_SHARED \<equiv> ''INCIDENT_SHARED''"
abbreviation MATCH_ASSET_SHARED :: string where
  "MATCH_ASSET_SHARED \<equiv> ''ASSET_SHARED''"
abbreviation MATCH_UNATTRIBUTED :: string where
  "MATCH_UNATTRIBUTED \<equiv> ''UNATTRIBUTED''"
abbreviation MATCH_NONE :: string where
  "MATCH_NONE \<equiv> ''NONE''"

definition MATCH_PROVENANCES :: "string list" where
  [vocab_simps]: "MATCH_PROVENANCES = [MATCH_ACTION_SPECIFIC, MATCH_EVENT_SHARED,
     MATCH_INCIDENT_SHARED, MATCH_ASSET_SHARED, MATCH_UNATTRIBUTED, MATCH_NONE]"

definition SHARED_MATCH_PROVENANCES :: "string list" where
  [vocab_simps]: "SHARED_MATCH_PROVENANCES =
    [MATCH_EVENT_SHARED, MATCH_INCIDENT_SHARED, MATCH_ASSET_SHARED, MATCH_UNATTRIBUTED]"

definition match_is_action_specific :: "string \<Rightarrow> bool" where
  "match_is_action_specific provenance = (upper_key (PStr provenance) = MATCH_ACTION_SPECIFIC)"

abbreviation EXECUTION_AUTHORIZED :: string where
  "EXECUTION_AUTHORIZED \<equiv> ''EXECUTION_AUTHORIZED''"
abbreviation POLICY_DENIED :: string where
  "POLICY_DENIED \<equiv> ''POLICY_DENIED''"
abbreviation POLICY_VERSION_MISMATCH :: string where
  "POLICY_VERSION_MISMATCH \<equiv> ''POLICY_VERSION_MISMATCH''"
abbreviation POLICY_EVALUATION_MISSING :: string where
  "POLICY_EVALUATION_MISSING \<equiv> ''POLICY_EVALUATION_MISSING''"
abbreviation POLICY_EVALUATION_NOT_ACTION_SPECIFIC :: string where
  "POLICY_EVALUATION_NOT_ACTION_SPECIFIC \<equiv> ''POLICY_EVALUATION_NOT_ACTION_SPECIFIC''"
abbreviation HUMAN_QUORUM_INCOMPLETE :: string where
  "HUMAN_QUORUM_INCOMPLETE \<equiv> ''HUMAN_QUORUM_INCOMPLETE''"
abbreviation APPROVAL_REJECTED :: string where
  "APPROVAL_REJECTED \<equiv> ''APPROVAL_REJECTED''"
abbreviation ACTION_EXPIRED :: string where
  "ACTION_EXPIRED \<equiv> ''ACTION_EXPIRED''"
abbreviation ACTION_ALREADY_EXECUTED :: string where
  "ACTION_ALREADY_EXECUTED \<equiv> ''ACTION_ALREADY_EXECUTED''"
abbreviation ACTION_CANCELLED :: string where
  "ACTION_CANCELLED \<equiv> ''ACTION_CANCELLED''"
abbreviation INCIDENT_CLOSED :: string where
  "INCIDENT_CLOSED \<equiv> ''INCIDENT_CLOSED''"
abbreviation EXECUTION_AUTHORITY_MISSING :: string where
  "EXECUTION_AUTHORITY_MISSING \<equiv> ''EXECUTION_AUTHORITY_MISSING''"
abbreviation RBAC_FORBIDDEN :: string where
  "RBAC_FORBIDDEN \<equiv> ''RBAC_FORBIDDEN''"
abbreviation EXECUTION_ADAPTER_NOT_CONFIGURED :: string where
  "EXECUTION_ADAPTER_NOT_CONFIGURED \<equiv> ''EXECUTION_ADAPTER_NOT_CONFIGURED''"
abbreviation DELEGATED_AUTHORITY_NOT_VERIFIED :: string where
  "DELEGATED_AUTHORITY_NOT_VERIFIED \<equiv> ''DELEGATED_AUTHORITY_NOT_VERIFIED''"
abbreviation GATE_FACTS_UNAVAILABLE :: string where
  "GATE_FACTS_UNAVAILABLE \<equiv> ''GATE_FACTS_UNAVAILABLE''"

definition INCIDENT_CLOSED_STATES :: "string list" where
  [vocab_simps]: "INCIDENT_CLOSED_STATES = [''resolved'', ''suppressed'', ''closed'']"

definition incident_state_allows_response :: "string option \<Rightarrow> bool" where
  "incident_state_allows_response v = (let key = lower_key (opt_str v) in
     if key = [] then True else key \<notin> set INCIDENT_CLOSED_STATES)"

definition EXTERNAL_PROVIDER_EXECUTION_PATHS :: "string list" where
  [vocab_simps]: "EXTERNAL_PROVIDER_EXECUTION_PATHS = [''safe'', ''governance'']"

definition execution_adapter_required :: "pyval \<Rightarrow> pyval \<Rightarrow> bool" where
  "execution_adapter_required mode path =
     (if lower_key mode \<noteq> ''live'' then False
      else lower_key path \<in> set EXTERNAL_PROVIDER_EXECUTION_PATHS)"

definition normalize_approver_role :: "string option \<Rightarrow> string option" where
  "normalize_approver_role v = normalize_role (opt_str v)"

abbreviation QUORUM_AUTHORITY_WORKSPACE :: string where
  "QUORUM_AUTHORITY_WORKSPACE \<equiv> ''workspace_approvers''"
abbreviation QUORUM_AUTHORITY_DELEGATED :: string where
  "QUORUM_AUTHORITY_DELEGATED \<equiv> ''delegated_governance''"

text \<open>\<open>approver_role_label\<close> is asked only for normalised roles, which all have a label.\<close>

definition approver_role_label :: "string \<Rightarrow> string option" where
  "approver_role_label role = map_of GOVERNANCE_ROLE_LABELS (upper_key (PStr role))"

section \<open>Inputs and result\<close>

record approval_record =
  ap_approver_user_id :: string
  ap_decision :: string
  ap_role :: "string option"
  ap_approver_label :: "string option"
  ap_decided_at :: "string option"

definition ap_approved :: "approval_record \<Rightarrow> bool" where
  "ap_approved r = (lower_key (PStr (ap_decision r)) = ''approved'')"

definition ap_rejected :: "approval_record \<Rightarrow> bool" where
  "ap_rejected r = (lower_key (PStr (ap_decision r)) = ''rejected'')"

record gate_inputs =
  gi_action_id :: string
  gi_policy_decision :: string
  gi_policy_match_provenance :: string
  gi_policy_reason_codes :: "string list"
  gi_policy_id :: "string option"
  gi_policy_key :: "string option"
  gi_policy_version :: "int option"
  gi_policy_current_version :: "int option"
  gi_evaluation_id :: "string option"
  gi_evaluated_at :: "string option"
  gi_required_roles :: "string list"
  gi_approvals :: "approval_record list"
  gi_required_quorum :: int
  gi_approval_required :: bool
  gi_lifecycle_approval_status :: string
  gi_quorum_authority :: string
  gi_action_status :: string
  gi_execution_status :: string
  gi_rejected :: bool
  gi_cancelled :: bool
  gi_expires_at :: pyval
  gi_now :: "int option"
  gi_incident_id :: "string option"
  gi_incident_status :: "string option"
  gi_requester_authorized :: bool
  gi_execution_authority_available :: bool
  gi_execution_adapter_configured :: bool
  gi_execution_adapter_required :: bool
  gi_execution_adapter_label :: "string option"
  gi_unreadable_facts :: "string list"
  gi_chain :: "(string \<times> string) list"

record approver_entry =
  ae_role :: "string option"
  ae_role_label :: "string option"
  ae_approver_user_id :: "string option"
  ae_approver :: "string option"
  ae_decision :: string
  ae_decided_at :: "string option"

record execution_gate =
  eg_decision :: string
  eg_can_execute :: bool
  eg_authorization_decision :: string
  eg_execution_ready :: bool
  eg_execution_adapter_required :: bool
  eg_reason_codes :: "string list"
  eg_policy_decision :: string
  eg_policy_match_provenance :: string
  eg_required_quorum :: int
  eg_approvals_collected :: int
  eg_approval_required :: bool
  eg_required_roles :: "string list"
  eg_satisfied_roles :: "string list"
  eg_missing_roles :: "string list"
  eg_approvers :: "approver_entry list"
  eg_quorum_authority :: string
  eg_policy_id :: "string option"
  eg_policy_key :: "string option"
  eg_policy_version :: "int option"
  eg_evaluation_id :: "string option"
  eg_evaluated_at :: "string option"
  eg_incident_id :: "string option"
  eg_expires_at :: pyval
  eg_execution_adapter_configured :: bool
  eg_execution_adapter_label :: "string option"
  eg_chain :: "(string \<times> string) list"

section \<open>The quorum\<close>

definition gate_utc :: "iso_parser \<Rightarrow> pyval \<Rightarrow> int option" where
  "gate_utc fromiso moment = (case moment of
       PNone \<Rightarrow> None
     | PTime t s \<Rightarrow> Some (utc_micros t)
     | _ \<Rightarrow> (let text = py_strip (py_str moment) in
         if text = [] then None
         else map_option utc_micros
           (fromiso (if last text = CHR ''Z'' then butlast text @ ''+00:00'' else text))))"

definition some_text :: "string \<Rightarrow> string option" where
  "some_text s = (if s = [] then None else Some s)"

definition approver_entry_of :: "approval_record \<Rightarrow> approver_entry" where
  "approver_entry_of r = (let role = normalize_approver_role (ap_role r) in
     \<lparr>ae_role = role,
      ae_role_label = (case role of None \<Rightarrow> None | Some k \<Rightarrow> approver_role_label k),
      ae_approver_user_id = some_text (ap_approver_user_id r), ae_approver = ap_approver_label r,
      ae_decision = lower_key (PStr (ap_decision r)), ae_decided_at = ap_decided_at r\<rparr>)"

definition gate_required_roles :: "gate_inputs \<Rightarrow> string list" where
  "gate_required_roles i =
     concat (map (\<lambda>role. case normalize_role (PStr role) of None \<Rightarrow> [] | Some r \<Rightarrow> [r]) (gi_required_roles i))"

text \<open>The loop over the approvals: approved identifiers and satisfied roles so far.\<close>

fun collect_approvals ::
  "string list \<Rightarrow> approval_record list \<Rightarrow> string list \<times> string list \<Rightarrow> string list \<times> string list" where
  "collect_approvals required [] st = st"
| "collect_approvals required (r # rs) (ids, satisfied) =
     (if \<not> ap_approved r then collect_approvals required rs (ids, satisfied)
      else collect_approvals required rs
        (if ap_approver_user_id r \<noteq> [] \<and> ap_approver_user_id r \<notin> set ids
         then ids @ [ap_approver_user_id r] else ids,
         case normalize_approver_role (ap_role r) of
           None \<Rightarrow> satisfied
         | Some role \<Rightarrow> if role \<in> set required \<and> role \<notin> set satisfied
                        then satisfied @ [role] else satisfied))"

record quorum_facts =
  qf_required :: int
  qf_collected :: int
  qf_satisfied :: "string list"
  qf_missing :: "string list"
  qf_approvers :: "approver_entry list"

definition quorum_facts_of :: "gate_inputs \<Rightarrow> quorum_facts" where
  "quorum_facts_of i =
     (let required = gate_required_roles i;
          (ids, satisfied) = collect_approvals required (gi_approvals i) ([], []);
          numeric = (if gi_approval_required i then max 0 (gi_required_quorum i) else 0)
      in \<lparr>qf_required = max numeric (int (length required)),
          qf_collected = int (length ids),
          qf_satisfied = satisfied,
          qf_missing = filter (\<lambda>role. role \<notin> set satisfied) required,
          qf_approvers = map approver_entry_of (gi_approvals i)\<rparr>)"

definition quorum_met :: "gate_inputs \<Rightarrow> int \<Rightarrow> int \<Rightarrow> string list \<Rightarrow> bool" where
  "quorum_met i required collected missing =
     (if missing \<noteq> [] then False
      else if required \<le> 0 then True
      else if gi_approvals i \<noteq> [] then collected \<ge> required
      else lower_key (PStr (gi_lifecycle_approval_status i)) \<in> {''not_required'', ''approved''})"

section \<open>The gate\<close>

definition already_executed :: "gate_inputs \<Rightarrow> bool" where
  "already_executed i = (lower_key (PStr (gi_execution_status i)) = ''executed'' \<or>
     lower_key (PStr (gi_action_status i)) = ''executed'')"

definition action_cancelled :: "gate_inputs \<Rightarrow> bool" where
  "action_cancelled i = (gi_cancelled i \<or>
     lower_key (PStr (gi_action_status i)) \<in> {''canceled'', ''cancelled''})"

definition action_expired :: "iso_parser \<Rightarrow> gate_inputs \<Rightarrow> int \<Rightarrow> bool" where
  "action_expired fromiso i clock =
     (case gate_utc fromiso (gi_expires_at i) of
        None \<Rightarrow> False
      | Some e \<Rightarrow> e \<le> (case gi_now i of Some t \<Rightarrow> t | None \<Rightarrow> clock))"

definition code_if :: "bool \<Rightarrow> string \<Rightarrow> string list" where
  "code_if b reason = (if b then [reason] else [])"

definition terminal_codes :: "iso_parser \<Rightarrow> gate_inputs \<Rightarrow> int \<Rightarrow> string list" where
  "terminal_codes fromiso i clock =
     code_if (already_executed i) ACTION_ALREADY_EXECUTED @
     code_if (action_cancelled i) ACTION_CANCELLED @
     code_if (gi_rejected i \<or> lower_key (PStr (gi_lifecycle_approval_status i)) = ''rejected'')
       APPROVAL_REJECTED @
     code_if (action_expired fromiso i clock) ACTION_EXPIRED"

text \<open>The verdict as read, and as it stands after the provenance rule.\<close>

definition read_verdict :: "gate_inputs \<Rightarrow> string" where
  "read_verdict i =
     (let v = py_upper (py_strip (if gi_policy_decision i = [] then POLICY_NOT_APPLICABLE
                                  else gi_policy_decision i))
      in if v \<in> set POLICY_DECISIONS then v else POLICY_NOT_EVALUATED)"

definition borrowed_allow :: "gate_inputs \<Rightarrow> bool" where
  "borrowed_allow i = (read_verdict i = POLICY_ALLOW \<and>
     \<not> match_is_action_specific (gi_policy_match_provenance i))"

definition gate_verdict :: "gate_inputs \<Rightarrow> string" where
  "gate_verdict i = (if borrowed_allow i then POLICY_NOT_EVALUATED else read_verdict i)"

text \<open>The policy's own reason codes, upper-cased, empty ones dropped.\<close>

definition reflected_codes :: "gate_inputs \<Rightarrow> string list" where
  "reflected_codes i = filter (\<lambda>k. k \<noteq> []) (map (\<lambda>code. upper_key (PStr code)) (gi_policy_reason_codes i))"

definition version_mismatch :: "gate_inputs \<Rightarrow> bool" where
  "version_mismatch i =
     (gate_verdict i \<in> {POLICY_ALLOW, POLICY_DENY} \<and>
      (case (gi_policy_version i, gi_policy_current_version i) of
         (Some v, Some w) \<Rightarrow> v \<noteq> w | _ \<Rightarrow> False))"

definition policy_codes :: "gate_inputs \<Rightarrow> string list \<Rightarrow> string list" where
  "policy_codes i codes =
     (let codes1 = (if borrowed_allow i then append_new POLICY_EVALUATION_NOT_ACTION_SPECIFIC codes
                    else codes);
          codes2 = (if gate_verdict i = POLICY_DENY
                      then fold append_new (reflected_codes i) (codes1 @ [POLICY_DENIED])
                    else if gate_verdict i = POLICY_NOT_EVALUATED
                      then fold append_new (reflected_codes i) (codes1 @ [POLICY_EVALUATION_MISSING])
                    else codes1)
      in codes2 @ code_if (version_mismatch i) POLICY_VERSION_MISMATCH)"

definition policy_satisfied :: "gate_inputs \<Rightarrow> bool" where
  "policy_satisfied i =
     (gate_verdict i \<in> {POLICY_ALLOW, POLICY_NOT_APPLICABLE} \<and> \<not> version_mismatch i)"

definition quorum_codes :: "gate_inputs \<Rightarrow> quorum_facts \<Rightarrow> bool \<Rightarrow> string list" where
  "quorum_codes i q met =
     code_if (\<not> met) HUMAN_QUORUM_INCOMPLETE @
     code_if (gi_quorum_authority i = QUORUM_AUTHORITY_DELEGATED \<and> qf_required q > 0 \<and> \<not> met)
       DELEGATED_AUTHORITY_NOT_VERIFIED @
     code_if (qf_missing q \<noteq> []) REQUIRED_ROLE_MISSING"

definition context_codes :: "gate_inputs \<Rightarrow> string list" where
  "context_codes i =
     code_if (\<not> incident_state_allows_response (gi_incident_status i)) INCIDENT_CLOSED @
     code_if (\<not> gi_requester_authorized i) RBAC_FORBIDDEN @
     code_if (\<not> gi_execution_authority_available i) EXECUTION_AUTHORITY_MISSING @
     code_if (gi_unreadable_facts i \<noteq> []) GATE_FACTS_UNAVAILABLE @
     code_if (\<not> gi_execution_adapter_configured i) EXECUTION_ADAPTER_NOT_CONFIGURED"

definition gate_authorized :: "iso_parser \<Rightarrow> gate_inputs \<Rightarrow> int \<Rightarrow> bool \<Rightarrow> bool" where
  "gate_authorized fromiso i clock met =
     (gi_unreadable_facts i = [] \<and> policy_satisfied i \<and> met \<and> gi_requester_authorized i \<and>
      gi_execution_authority_available i \<and> \<not> action_expired fromiso i clock \<and>
      \<not> action_cancelled i \<and> \<not> already_executed i \<and> \<not> gi_rejected i \<and>
      incident_state_allows_response (gi_incident_status i))"

definition evaluate_gate :: "iso_parser \<Rightarrow> gate_inputs \<Rightarrow> int \<Rightarrow> execution_gate" where
  "evaluate_gate fromiso i clock =
     (let q = quorum_facts_of i;
          met = quorum_met i (qf_required q) (qf_collected q) (qf_missing q);
          codes = policy_codes i (terminal_codes fromiso i clock) @ quorum_codes i q met @ context_codes i;
          authorized = gate_authorized fromiso i clock met;
          ready = (\<not> gi_execution_adapter_required i \<or> gi_execution_adapter_configured i);
          can = (authorized \<and> ready);
          verdict = (if authorized then GATE_AUTHORIZED
                     else if gate_verdict i = POLICY_DENY then GATE_DENIED else GATE_LOCKED)
      in \<lparr>eg_decision = (if can then GATE_AUTHORIZED
                         else if verdict = GATE_DENIED then GATE_DENIED else GATE_LOCKED),
          eg_can_execute = can,
          eg_authorization_decision = verdict,
          eg_execution_ready = ready,
          eg_execution_adapter_required = gi_execution_adapter_required i,
          eg_reason_codes = (if can then EXECUTION_AUTHORIZED # codes else codes),
          eg_policy_decision = gate_verdict i,
          eg_policy_match_provenance = (if gi_policy_match_provenance i = [] then MATCH_NONE
                                        else gi_policy_match_provenance i),
          eg_required_quorum = qf_required q,
          eg_approvals_collected = qf_collected q,
          eg_approval_required = (qf_required q > 0),
          eg_required_roles = gate_required_roles i,
          eg_satisfied_roles = qf_satisfied q,
          eg_missing_roles = qf_missing q,
          eg_approvers = qf_approvers q,
          eg_quorum_authority = (if gi_quorum_authority i = [] then QUORUM_AUTHORITY_WORKSPACE
                                 else gi_quorum_authority i),
          eg_policy_id = gi_policy_id i, eg_policy_key = gi_policy_key i,
          eg_policy_version = gi_policy_version i, eg_evaluation_id = gi_evaluation_id i,
          eg_evaluated_at = gi_evaluated_at i, eg_incident_id = gi_incident_id i,
          eg_expires_at = gi_expires_at i,
          eg_execution_adapter_configured = gi_execution_adapter_configured i,
          eg_execution_adapter_label = gi_execution_adapter_label i,
          eg_chain = gi_chain i\<rparr>)"

section \<open>What opens a gate\<close>

text \<open>
  The specification is written over the inputs alone: it uses none of the definitions of the gate above
  except the parser of an instant. The humans who approved, the roles an approval was cast for, the
  roles the policy names and the quorum they bind.
\<close>

definition approver_set :: "gate_inputs \<Rightarrow> string set" where
  "approver_set i = {u. u \<noteq> [] \<and> (\<exists>r \<in> set (gi_approvals i). lower_key (PStr (ap_decision r)) = ''approved''
     \<and> ap_approver_user_id r = u)}"

definition approved_roles :: "gate_inputs \<Rightarrow> string set" where
  "approved_roles i = {k. \<exists>r \<in> set (gi_approvals i). lower_key (PStr (ap_decision r)) = ''approved''
     \<and> normalize_role (opt_str (ap_role r)) = Some k}"

definition named_roles :: "gate_inputs \<Rightarrow> string set" where
  "named_roles i = {k. \<exists>x \<in> set (gi_required_roles i). normalize_role (PStr x) = Some k}"

definition binding_quorum :: "gate_inputs \<Rightarrow> int" where
  "binding_quorum i = max (if gi_approval_required i then max 0 (gi_required_quorum i) else 0)
     (int (length (filter (\<lambda>x. normalize_role (PStr x) \<noteq> None) (gi_required_roles i))))"

text \<open>
  Where approvals are recorded, distinct users meet the quorum; where none is, the lifecycle status of the
  action stands for them.
\<close>

definition humans_agree :: "gate_inputs \<Rightarrow> bool" where
  "humans_agree i \<longleftrightarrow> named_roles i \<subseteq> approved_roles i \<and>
     (binding_quorum i = 0
      \<or> gi_approvals i \<noteq> [] \<and> binding_quorum i \<le> int (card (approver_set i))
      \<or> gi_approvals i = [] \<and> lower_key (PStr (gi_lifecycle_approval_status i)) \<in> {''not_required'', ''approved''})"

definition policy_agrees :: "gate_inputs \<Rightarrow> bool" where
  "policy_agrees i \<longleftrightarrow> gi_policy_decision i = [] \<or> upper_key (PStr (gi_policy_decision i)) = ''NOT_APPLICABLE'' \<or>
     upper_key (PStr (gi_policy_decision i)) = ''ALLOW'' \<and> upper_key (PStr (gi_policy_match_provenance i)) = ''ACTION_SPECIFIC'' \<and>
     \<not> (\<exists>v w. gi_policy_version i = Some v \<and> gi_policy_current_version i = Some w \<and> v \<noteq> w)"

text \<open>An expiry that is absent, or a text that is no instant, is none.\<close>

definition unexpired :: "iso_parser \<Rightarrow> gate_inputs \<Rightarrow> int \<Rightarrow> bool" where
  "unexpired fromiso i clock \<longleftrightarrow> (\<forall>e. gate_utc fromiso (gi_expires_at i) = Some e \<longrightarrow>
     (\<exists>now. now < e \<and> (gi_now i = Some now \<or> gi_now i = None \<and> now = clock)))"

definition action_live :: "iso_parser \<Rightarrow> gate_inputs \<Rightarrow> int \<Rightarrow> bool" where
  "action_live fromiso i clock \<longleftrightarrow>
     lower_key (PStr (gi_execution_status i)) \<noteq> ''executed'' \<and>
     lower_key (PStr (gi_action_status i)) \<notin> {''executed'', ''canceled'', ''cancelled''} \<and>
     \<not> gi_cancelled i \<and> \<not> gi_rejected i \<and> unexpired fromiso i clock \<and>
     lower_key (opt_str (gi_incident_status i)) \<notin> {''resolved'', ''suppressed'', ''closed''}"

definition adapter_ready :: "gate_inputs \<Rightarrow> bool" where
  "adapter_ready i \<longleftrightarrow> (gi_execution_adapter_required i \<longrightarrow> gi_execution_adapter_configured i)"

section \<open>Lemmas\<close>

lemma collect_approvals_spec:
  "distinct ids \<Longrightarrow>
   set (fst (collect_approvals required rs (ids, satisfied))) =
      set ids \<union> {u. u \<noteq> [] \<and> (\<exists>r \<in> set rs. ap_approved r \<and> ap_approver_user_id r = u)} \<and>
   distinct (fst (collect_approvals required rs (ids, satisfied))) \<and>
   set (snd (collect_approvals required rs (ids, satisfied))) =
      set satisfied \<union> {k \<in> set required. \<exists>r \<in> set rs. ap_approved r \<and> normalize_approver_role (ap_role r) = Some k}"
proof (induction rs arbitrary: ids satisfied)
  case (Cons r rs)
  let ?ids = "if ap_approver_user_id r \<noteq> [] \<and> ap_approver_user_id r \<notin> set ids
      then ids @ [ap_approver_user_id r] else ids"
  have d: "distinct ?ids" using Cons.prems by auto
  show ?case
    using Cons.IH [OF d] Cons.IH [OF Cons.prems]
    by (cases "ap_approved r"; cases "normalize_approver_role (ap_role r)") auto
qed auto

lemma gate_required_roles_set: "set (gate_required_roles i) = named_roles i"
  by (force simp: gate_required_roles_def named_roles_def split: option.splits)

lemma gate_required_roles_length:
  "length (gate_required_roles i) = length (filter (\<lambda>x. normalize_role (PStr x) \<noteq> None) (gi_required_roles i))"
proof -
  have "length (concat (map (\<lambda>role. case normalize_role (PStr role) of None \<Rightarrow> [] | Some r \<Rightarrow> [r]) xs))
      = length (filter (\<lambda>x. normalize_role (PStr x) \<noteq> None) xs)" for xs
    by (induction xs) (auto split: option.split)
  then show ?thesis by (simp add: gate_required_roles_def)
qed

lemma quorum_facts_spec:
  "qf_required (quorum_facts_of i) = binding_quorum i"
  "qf_collected (quorum_facts_of i) = int (card (approver_set i))"
  "qf_missing (quorum_facts_of i) = [] \<longleftrightarrow> named_roles i \<subseteq> approved_roles i"
proof -
  let ?c = "collect_approvals (gate_required_roles i) (gi_approvals i) ([], [])"
  have spec: "set (fst ?c) = approver_set i" "distinct (fst ?c)"
      "set (snd ?c) = {k \<in> set (gate_required_roles i). k \<in> approved_roles i}"
    using collect_approvals_spec [of "[]" "gate_required_roles i" "gi_approvals i" "[]"]
    by (simp_all add: approver_set_def approved_roles_def ap_approved_def normalize_approver_role_def)
  have "card (approver_set i) = length (fst ?c)"
    using spec(1,2) distinct_card [of "fst ?c"] by simp
  then show "qf_collected (quorum_facts_of i) = int (card (approver_set i))"
    by (simp add: quorum_facts_of_def Let_def split_beta)
  show "qf_required (quorum_facts_of i) = binding_quorum i"
    by (simp add: quorum_facts_of_def binding_quorum_def gate_required_roles_length Let_def split_beta)
  show "qf_missing (quorum_facts_of i) = [] \<longleftrightarrow> named_roles i \<subseteq> approved_roles i"
    unfolding gate_required_roles_set [symmetric] using spec(3) by (auto simp: quorum_facts_of_def Let_def split_beta filter_empty_conv)
qed

lemma binding_quorum_nonneg: "0 \<le> binding_quorum i"
  by (simp add: binding_quorum_def)

lemma quorum_met_iff:
  "quorum_met i (qf_required (quorum_facts_of i)) (qf_collected (quorum_facts_of i))
     (qf_missing (quorum_facts_of i)) \<longleftrightarrow> humans_agree i"
  using binding_quorum_nonneg [of i]
  by (auto simp: quorum_met_def humans_agree_def quorum_facts_spec)

lemma policy_satisfied_iff: "policy_satisfied i \<longleftrightarrow> policy_agrees i"
proof -
  have "py_upper (py_strip POLICY_NOT_APPLICABLE) = POLICY_NOT_APPLICABLE" by code_simp
  then show ?thesis
    by (auto simp: policy_satisfied_def policy_agrees_def gate_verdict_def version_mismatch_def read_verdict_def
        POLICY_DECISIONS_def match_is_action_specific_def upper_key_def Let_def borrowed_allow_def split: option.splits)
qed

lemma unexpired_iff: "unexpired fromiso i clock \<longleftrightarrow> \<not> action_expired fromiso i clock"
  by (auto simp: unexpired_def action_expired_def not_le split: option.splits)

lemma action_live_iff:
  "action_live fromiso i clock \<longleftrightarrow> \<not> already_executed i \<and> \<not> action_cancelled i \<and> \<not> gi_rejected i \<and>
     \<not> action_expired fromiso i clock \<and> incident_state_allows_response (gi_incident_status i)"
  unfolding action_live_def unexpired_iff
  by (auto simp: already_executed_def action_cancelled_def incident_state_allows_response_def INCIDENT_CLOSED_STATES_def Let_def)

lemma gate_fields:
  "eg_can_execute (evaluate_gate fromiso i clock) \<longleftrightarrow>
     gate_authorized fromiso i clock (humans_agree i) \<and>
     (\<not> gi_execution_adapter_required i \<or> gi_execution_adapter_configured i)"
  "eg_authorization_decision (evaluate_gate fromiso i clock) =
     (if gate_authorized fromiso i clock (humans_agree i) then GATE_AUTHORIZED
      else if gate_verdict i = POLICY_DENY then GATE_DENIED else GATE_LOCKED)"
  "eg_reason_codes (evaluate_gate fromiso i clock) =
     code_if (eg_can_execute (evaluate_gate fromiso i clock)) EXECUTION_AUTHORIZED @
     policy_codes i (terminal_codes fromiso i clock) @
     quorum_codes i (quorum_facts_of i) (humans_agree i) @ context_codes i"
  by (simp_all add: evaluate_gate_def Let_def quorum_met_iff code_if_def)

lemma code_if_set [simp]: "set (code_if b r) = (if b then {r} else {})"
  by (simp add: code_if_def)

lemma code_if_Nil [simp]: "code_if b r = [] \<longleftrightarrow> \<not> b"
  by (simp add: code_if_def)

text \<open>What every closed gate is closed by, and the code that says so.\<close>

definition blocking_codes :: "string set" where
  "blocking_codes = {POLICY_DENIED, POLICY_EVALUATION_MISSING, POLICY_VERSION_MISMATCH,
     HUMAN_QUORUM_INCOMPLETE, APPROVAL_REJECTED, ACTION_EXPIRED, ACTION_ALREADY_EXECUTED,
     ACTION_CANCELLED, INCIDENT_CLOSED, EXECUTION_AUTHORITY_MISSING, RBAC_FORBIDDEN,
     EXECUTION_ADAPTER_NOT_CONFIGURED, GATE_FACTS_UNAVAILABLE}"

lemma gate_verdict_cases:
  "gate_verdict i \<in> {POLICY_ALLOW, POLICY_DENY, POLICY_NOT_APPLICABLE, POLICY_NOT_EVALUATED}"
  by (auto simp: gate_verdict_def read_verdict_def POLICY_DECISIONS_def Let_def)

lemma policy_codes_set:
  "set (policy_codes i codes) = set codes \<union>
     (if borrowed_allow i then {POLICY_EVALUATION_NOT_ACTION_SPECIFIC} else {}) \<union>
     (if gate_verdict i = POLICY_DENY then {POLICY_DENIED} \<union> set (reflected_codes i) else {}) \<union>
     (if gate_verdict i = POLICY_NOT_EVALUATED
      then {POLICY_EVALUATION_MISSING} \<union> set (reflected_codes i) else {}) \<union>
     (if version_mismatch i then {POLICY_VERSION_MISMATCH} else {})"
  by (auto simp: policy_codes_def Let_def fold_append_new_set)

lemma policy_blocked:
  assumes "\<not> policy_satisfied i"
  shows "set (policy_codes i codes) \<inter> {POLICY_DENIED, POLICY_EVALUATION_MISSING, POLICY_VERSION_MISMATCH} \<noteq> {}"
  using assms gate_verdict_cases [of i] unfolding policy_codes_set policy_satisfied_def by auto

lemma context_blocked:
  assumes "\<not> incident_state_allows_response (gi_incident_status i) \<or> \<not> gi_requester_authorized i \<or>
     \<not> gi_execution_authority_available i \<or> gi_unreadable_facts i \<noteq> [] \<or> \<not> gi_execution_adapter_configured i"
  shows "set (context_codes i) \<inter> blocking_codes \<noteq> {}"
  using assms by (auto simp: context_codes_def blocking_codes_def)

lemma terminal_blocked:
  assumes "already_executed i \<or> action_cancelled i \<or> gi_rejected i \<or> action_expired fromiso i clock"
  shows "set (terminal_codes fromiso i clock) \<inter> blocking_codes \<noteq> {}"
  using assms by (auto simp: terminal_codes_def blocking_codes_def)

lemma closed_gate_blocked:
  assumes "\<not> eg_can_execute (evaluate_gate fromiso i clock)"
  shows "set (eg_reason_codes (evaluate_gate fromiso i clock)) \<inter> blocking_codes \<noteq> {}"
proof -
  let ?R = "set (eg_reason_codes (evaluate_gate fromiso i clock))"
  have parts: "set (policy_codes i (terminal_codes fromiso i clock)) \<subseteq> ?R" "set (context_codes i) \<subseteq> ?R"
      "set (quorum_codes i (quorum_facts_of i) (humans_agree i)) \<subseteq> ?R"
    unfolding gate_fields(3) by auto
  have terms: "set (terminal_codes fromiso i clock) \<subseteq> ?R"
    using parts(1) unfolding policy_codes_set by auto
  consider "\<not> policy_satisfied i" | "\<not> humans_agree i"
    | "already_executed i \<or> action_cancelled i \<or> gi_rejected i \<or> action_expired fromiso i clock"
    | "\<not> incident_state_allows_response (gi_incident_status i) \<or> \<not> gi_requester_authorized i \<or>
       \<not> gi_execution_authority_available i \<or> gi_unreadable_facts i \<noteq> [] \<or> \<not> gi_execution_adapter_configured i"
    using assms unfolding gate_fields(1) gate_authorized_def by auto
  then show ?thesis
  proof cases
    case 1
    have "{POLICY_DENIED, POLICY_EVALUATION_MISSING, POLICY_VERSION_MISMATCH} \<subseteq> blocking_codes"
      by (simp add: blocking_codes_def)
    with policy_blocked [OF 1, of "terminal_codes fromiso i clock"] parts(1) show ?thesis by blast
  next
    case 2
    then have "HUMAN_QUORUM_INCOMPLETE \<in> ?R" using parts(3) by (auto simp: quorum_codes_def)
    moreover have "HUMAN_QUORUM_INCOMPLETE \<in> blocking_codes" by (simp add: blocking_codes_def)
    ultimately show ?thesis by blast
  next
    case 3
    with terminal_blocked [of i fromiso clock] terms show ?thesis by blast
  next
    case 4
    with context_blocked [of i] parts(2) show ?thesis by blast
  qed
qed

lemma open_gate_codes:
  assumes "eg_can_execute (evaluate_gate fromiso i clock)"
  shows "\<exists>advisory. eg_reason_codes (evaluate_gate fromiso i clock) = EXECUTION_AUTHORIZED # advisory \<and>
     set advisory \<subseteq> {APPROVAL_REJECTED, EXECUTION_ADAPTER_NOT_CONFIGURED}"
proof -
  have auth: "gate_authorized fromiso i clock (humans_agree i)"
    using assms unfolding gate_fields(1) by blast
  then have policy: "policy_satisfied i" and humans: "humans_agree i"
    by (simp_all add: gate_authorized_def)
  have "\<not> borrowed_allow i" "gate_verdict i \<noteq> POLICY_DENY" "gate_verdict i \<noteq> POLICY_NOT_EVALUATED"
    using policy by (auto simp: policy_satisfied_def gate_verdict_def)
  moreover have "\<not> version_mismatch i" using policy by (simp add: policy_satisfied_def)
  moreover have "set (terminal_codes fromiso i clock) \<subseteq> {APPROVAL_REJECTED}"
    using auth by (auto simp: terminal_codes_def gate_authorized_def)
  ultimately have "set (policy_codes i (terminal_codes fromiso i clock)) \<subseteq> {APPROVAL_REJECTED}"
    unfolding policy_codes_set by simp
  moreover have "set (quorum_codes i (quorum_facts_of i) (humans_agree i)) = {}"
    using humans by (simp add: quorum_codes_def humans_agree_def quorum_facts_spec)
  moreover have "set (context_codes i) \<subseteq> {EXECUTION_ADAPTER_NOT_CONFIGURED}"
    using auth by (auto simp: context_codes_def gate_authorized_def)
  ultimately show ?thesis
    using assms unfolding gate_fields(3) by (auto simp: code_if_def)
qed

section \<open>Properties\<close>

text \<open>
  C1. The gate implements its specification. An action may execute exactly when the policy
  agrees (no policy applies, or an action-specific ALLOW under the current version), every
  role the policy names has an approval and the binding quorum is met (by distinct approving
  users where approvals are recorded, by the lifecycle status where none is), the action is
  neither executed, cancelled nor rejected and its incident is open, its expiry, if it has
  one that parses, is after the present instant, the requester and the execution path are
  authorised, every fact could be read, and an adapter is configured if one is needed.
\<close>

theorem gate_opens_iff:
  "eg_can_execute (evaluate_gate fromiso i clock) \<longleftrightarrow>
     policy_agrees i \<and> humans_agree i \<and> action_live fromiso i clock \<and>
     gi_requester_authorized i \<and> gi_execution_authority_available i \<and> gi_unreadable_facts i = [] \<and>
     adapter_ready i"
  unfolding gate_fields(1) gate_authorized_def action_live_iff policy_satisfied_iff adapter_ready_def
  by blast

definition sample_gate :: gate_inputs where
  "sample_gate = \<lparr>gi_action_id = ''a1'', gi_policy_decision = ''ALLOW'',
     gi_policy_match_provenance = MATCH_ACTION_SPECIFIC, gi_policy_reason_codes = [],
     gi_policy_id = None, gi_policy_key = None, gi_policy_version = Some 2,
     gi_policy_current_version = Some 2, gi_evaluation_id = None, gi_evaluated_at = None,
     gi_required_roles = [ROLE_COMPLIANCE_APPROVER],
     gi_approvals = [\<lparr>ap_approver_user_id = ''u1'', ap_decision = ''approved'',
       ap_role = Some ROLE_COMPLIANCE_APPROVER, ap_approver_label = None, ap_decided_at = None\<rparr>],
     gi_required_quorum = 1, gi_approval_required = True,
     gi_lifecycle_approval_status = ''pending'', gi_quorum_authority = QUORUM_AUTHORITY_WORKSPACE,
     gi_action_status = ''pending'', gi_execution_status = ''not_started'', gi_rejected = False,
     gi_cancelled = False, gi_expires_at = PNone, gi_now = Some 0, gi_incident_id = None,
     gi_incident_status = Some ''open'', gi_requester_authorized = True,
     gi_execution_authority_available = True, gi_execution_adapter_configured = True,
     gi_execution_adapter_required = True, gi_execution_adapter_label = None,
     gi_unreadable_facts = [], gi_chain = []\<rparr>"

text \<open>
  A named authority substitutes for nobody. Changing the quorum authority an action
  names changes neither whether it can execute nor the decision, the authorization
  verdict, or the quorum facts.
\<close>

theorem quorum_authority_irrelevant:
  "eg_can_execute (evaluate_gate fromiso (i\<lparr>gi_quorum_authority := a\<rparr>) clock) =
     eg_can_execute (evaluate_gate fromiso i clock) \<and>
   eg_decision (evaluate_gate fromiso (i\<lparr>gi_quorum_authority := a\<rparr>) clock) =
     eg_decision (evaluate_gate fromiso i clock) \<and>
   eg_authorization_decision (evaluate_gate fromiso (i\<lparr>gi_quorum_authority := a\<rparr>) clock) =
     eg_authorization_decision (evaluate_gate fromiso i clock) \<and>
   eg_approvals_collected (evaluate_gate fromiso (i\<lparr>gi_quorum_authority := a\<rparr>) clock) =
     eg_approvals_collected (evaluate_gate fromiso i clock)"
proof -
  have roles: "gate_required_roles (i\<lparr>gi_quorum_authority := a\<rparr>) = gate_required_roles i"
    by (simp add: gate_required_roles_def)
  have facts: "quorum_facts_of (i\<lparr>gi_quorum_authority := a\<rparr>) = quorum_facts_of i"
    by (simp add: quorum_facts_of_def roles)
  have met: "quorum_met (i\<lparr>gi_quorum_authority := a\<rparr>) = quorum_met i"
    by (intro ext) (simp add: quorum_met_def)
  have verdict: "gate_verdict (i\<lparr>gi_quorum_authority := a\<rparr>) = gate_verdict i"
    by (simp add: gate_verdict_def borrowed_allow_def read_verdict_def)
  have expired: "action_expired fromiso (i\<lparr>gi_quorum_authority := a\<rparr>) clock = action_expired fromiso i clock"
    by (simp add: action_expired_def split: option.split)
  have mismatch: "version_mismatch (i\<lparr>gi_quorum_authority := a\<rparr>) = version_mismatch i"
    by (simp add: version_mismatch_def verdict split: option.split)
  have auth: "gate_authorized fromiso (i\<lparr>gi_quorum_authority := a\<rparr>) clock m = gate_authorized fromiso i clock m" for m
    by (simp add: gate_authorized_def policy_satisfied_def verdict mismatch expired
        action_cancelled_def already_executed_def)
  show ?thesis
    by (simp add: evaluate_gate_def Let_def facts met verdict auth)
qed

text \<open>
  A closed gate says why. When an action may not execute, the decision is DENIED if the
  verdict is DENY and LOCKED otherwise, and the reason codes contain at least one of the
  codes that close a gate.
\<close>

theorem closed_gate_explained:
  assumes "\<not> eg_can_execute (evaluate_gate fromiso i clock)"
  shows "eg_decision (evaluate_gate fromiso i clock) =
       (if gate_verdict i = POLICY_DENY then GATE_DENIED else GATE_LOCKED) \<and>
     set (eg_reason_codes (evaluate_gate fromiso i clock)) \<inter> blocking_codes \<noteq> {}"
  using assms closed_gate_blocked [OF assms]
  by (auto simp: evaluate_gate_def Let_def gate_authorized_def policy_satisfied_def)

theorem closed_gate_explained_witness:
  "eg_decision (evaluate_gate (\<lambda>_. None) (sample_gate\<lparr>gi_policy_match_provenance := MATCH_INCIDENT_SHARED\<rparr>) 0)
       = GATE_LOCKED \<and>
   set (eg_reason_codes (evaluate_gate (\<lambda>_. None)
       (sample_gate\<lparr>gi_policy_match_provenance := MATCH_INCIDENT_SHARED\<rparr>) 0)) \<inter> blocking_codes \<noteq> {}"
proof -
  let ?i = "sample_gate\<lparr>gi_policy_match_provenance := MATCH_INCIDENT_SHARED\<rparr>"
  have closed: "\<not> eg_can_execute (evaluate_gate (\<lambda>_. None) ?i 0)" by code_simp
  have "gate_verdict ?i = POLICY_NOT_EVALUATED" by code_simp
  with closed_gate_explained [OF closed] show ?thesis by simp
qed

text \<open>
  An open gate carries no objection. When an action may execute, the reason codes are
  EXECUTION_AUTHORIZED followed by advisory codes only: the missing adapter of an action
  that needs none, or a lifecycle status that still reads rejected.
\<close>

theorem open_gate_unobjected:
  assumes "eg_can_execute (evaluate_gate fromiso i clock)"
  shows "\<exists>advisory. eg_reason_codes (evaluate_gate fromiso i clock) = EXECUTION_AUTHORIZED # advisory \<and>
     set advisory \<subseteq> {APPROVAL_REJECTED, EXECUTION_ADAPTER_NOT_CONFIGURED}"
  by (rule open_gate_codes [OF assms])

theorem open_gate_unobjected_witness:
  "\<exists>advisory. eg_reason_codes (evaluate_gate (\<lambda>_. None) sample_gate 0) = EXECUTION_AUTHORIZED # advisory \<and>
     set advisory \<subseteq> {APPROVAL_REJECTED, EXECUTION_ADAPTER_NOT_CONFIGURED}"
proof -
  have "eg_can_execute (evaluate_gate (\<lambda>_. None) sample_gate 0)" by code_simp
  then show ?thesis by (rule open_gate_unobjected)
qed

section \<open>Where the gate differs from its documentation\<close>

text \<open>
  A positive quorum without any approval row is met by a lifecycle status alone, although
  the precedence list of \<open>_quorum_met\<close> asks for that many approvals.
\<close>

lemma quorum_without_approvals:
  "eg_can_execute (evaluate_gate (\<lambda>_. None) (sample_gate\<lparr>gi_required_roles := [], gi_approvals := [],
      gi_required_quorum := 2, gi_lifecycle_approval_status := ''not_required''\<rparr>) 0)"
  by code_simp

text \<open>
  An expiry that cannot be parsed never expires, although no branch of the gate is meant to open on
  malformed input.
\<close>

lemma malformed_expiry_opens:
  "eg_can_execute (evaluate_gate (\<lambda>_. None) (sample_gate\<lparr>gi_expires_at := PStr ''soon''\<rparr>) 0)"
  by code_simp

text \<open>A lifecycle status of rejected is reported and does not close the gate.\<close>

lemma lifecycle_rejection_ignored:
  "eg_can_execute (evaluate_gate (\<lambda>_. None) (sample_gate\<lparr>gi_lifecycle_approval_status := ''rejected''\<rparr>) 0)"
  by code_simp

end
