(* ===== verification/Managed_Keys.thy ===== *)
theory Managed_Keys
  imports Governance_Config Evidence_Merkle
begin

text \<open>
  Loading of signing keys, \<open>services/api/app/managed_keys.py\<close>: which provider a deployment
  uses, whether static environment keys are allowed, and the key a purpose and version resolve
  to. AWS Secrets Manager is external: \<open>aws\<close> gives, for a secret id and a requested version
  (\<open>None\<close> for the current one), the stored value and the version resolved, or the error of the
  client. \<open>b64\<close> is \<open>base64.b64decode(..., validate=True)\<close>, C code of the interpreter. The cache
  of the AWS path only repeats answers and is left out, as is the rotation, which calls the
  provider to create a secret.
\<close>

datatype key_error = KeyRuntimeError string | KeyClientError string

record managed_key =
  mk_purpose :: string
  mk_provider :: string
  mk_key_id :: string
  mk_version :: string
  mk_material :: bytes

type_synonym aws_provider = "string \<Rightarrow> string option \<Rightarrow> key_error + string \<times> string"

type_synonym b64_decoder = "string \<Rightarrow> bytes option"

definition getenv :: "environ \<Rightarrow> string \<Rightarrow> string \<Rightarrow> string" where
  "getenv env name dflt = (case env name of Some s \<Rightarrow> s | None \<Rightarrow> dflt)"

definition env_key :: "environ \<Rightarrow> string \<Rightarrow> string \<Rightarrow> string" where
  "env_key env name dflt = py_lower (py_strip (getenv env name dflt))"

definition production_like :: "environ \<Rightarrow> bool" where
  "production_like env =
     (let app_mode = env_key env ''APP_MODE'' ''local'';
          app_env = env_key env ''APP_ENV'' app_mode
      in app_mode \<in> {''production'', ''staging'', ''prod''} \<or> app_env \<in> {''production'', ''staging'', ''prod''})"

definition managed_key_provider :: "environ \<Rightarrow> string" where
  "managed_key_provider env = (let p = env_key env ''MANAGED_KEY_PROVIDER'' ''env'' in if p = [] then ''env'' else p)"

definition managed_key_enforcement_mode :: "environ \<Rightarrow> key_error + string" where
  "managed_key_enforcement_mode env =
     (let raw = env_key env ''MANAGED_KEY_ENFORCEMENT'' ''compatibility'';
          mode = (case map_of [(''warn'', ''compatibility''), (''legacy'', ''compatibility''), (''enforce'', ''strict'')] raw
                  of Some m \<Rightarrow> m | None \<Rightarrow> raw)
      in if mode \<notin> {''compatibility'', ''strict''}
         then Inl (KeyRuntimeError ''MANAGED_KEY_ENFORCEMENT must be compatibility or strict.'') else Inr mode)"

definition legacy_environment_keys_allowed :: "environ \<Rightarrow> key_error + bool" where
  "legacy_environment_keys_allowed env =
     (if \<not> production_like env then Inr True
      else bind_result (managed_key_enforcement_mode env) (\<lambda>m. Inr (m = ''compatibility'')))"

definition using_legacy_environment_keys :: "environ \<Rightarrow> bool" where
  "using_legacy_environment_keys env = (production_like env \<and> managed_key_provider env = ''env'')"

definition purpose_env_prefix :: "string \<Rightarrow> string" where
  "purpose_env_prefix purpose =
     (let normalized = replace_char (CHR ''-'') (CHR ''_'') (py_upper (py_strip purpose)) in
      case map_of [(''AUTH'', ''AUTH_TOKEN''), (''ENCRYPTION'', ''SECRET_ENCRYPTION''),
          (''EVIDENCE_SIGNING'', ''EVIDENCE_SIGNING''),
          (''EVIDENCE_SIGNING_ED25519'', ''EVIDENCE_SIGNING_ED25519'')] normalized of
        Some p \<Rightarrow> p | None \<Rightarrow> normalized)"

definition decode_secret_value :: "b64_decoder \<Rightarrow> string \<Rightarrow> string \<Rightarrow> key_error + bytes" where
  "decode_secret_value b64 v encoding =
     (if encoding = ''base64'' then
        (case b64 v of Some m \<Rightarrow> Inr m
         | None \<Rightarrow> Inl (KeyRuntimeError ''Managed key value is not valid base64.''))
      else Inr (utf8 v))"

definition legacy_names :: "(string \<times> string list) list" where
  "legacy_names =
    [(''AUTH'', [''AUTH_TOKEN_SECRET'', ''JWT_SECRET'']),
     (''ENCRYPTION'', [''SECRET_ENCRYPTION_KEY'']),
     (''EVIDENCE_SIGNING'', [''EXPORT_SIGNING_SECRET'', ''EVIDENCE_SIGNING_SECRET'']),
     (''EVIDENCE_SIGNING_ED25519'', [''EVIDENCE_SIGNING_ED25519_PRIVATE_KEY''])]"

text \<open>The first of the names that is set to more than whitespace.\<close>

fun first_secret :: "environ \<Rightarrow> string list \<Rightarrow> string" where
  "first_secret env [] = []"
| "first_secret env (name # names) =
     (let v = py_strip (getenv env name []) in if v \<noteq> [] then v else first_secret env names)"

definition load_aws_key ::
  "environ \<Rightarrow> aws_provider \<Rightarrow> b64_decoder \<Rightarrow> string \<Rightarrow> string option \<Rightarrow> key_error + managed_key" where
  "load_aws_key env aws b64 purpose version =
     (let prefix = purpose_env_prefix purpose;
          encoding = env_key env (prefix @ ''_KEY_ENCODING'') ''utf8'';
          secret_id = py_strip (getenv env (prefix @ ''_KEY_SECRET_ID'') []);
          requested = (case version of Some v \<Rightarrow> v | None \<Rightarrow> py_strip (getenv env (prefix @ ''_KEY_VERSION'') []))
      in if secret_id = [] then
           Inl (KeyRuntimeError (prefix @ ''_KEY_SECRET_ID is required for AWS Secrets Manager.''))
         else bind_result (aws secret_id (if requested = [] then None else Some requested)) (\<lambda>(raw, resolved).
           bind_result (decode_secret_value b64 raw encoding) (\<lambda>material.
             Inr \<lparr>mk_purpose = purpose, mk_provider = ''aws_secrets_manager'', mk_key_id = secret_id,
                  mk_version = resolved, mk_material = material\<rparr>)))"

definition load_env_key ::
  "environ \<Rightarrow> b64_decoder \<Rightarrow> string \<Rightarrow> string option \<Rightarrow> key_error + managed_key" where
  "load_env_key env b64 purpose version =
     bind_result (legacy_environment_keys_allowed env) (\<lambda>allowed.
       if \<not> allowed then
         Inl (KeyRuntimeError (''MANAGED_KEY_PROVIDER must be a managed provider when '' @
           ''MANAGED_KEY_ENFORCEMENT=strict; static environment keys are forbidden.''))
       else
         let prefix = purpose_env_prefix purpose;
             encoding = env_key env (prefix @ ''_KEY_ENCODING'') ''utf8'';
             raw = first_secret env (case map_of legacy_names (py_upper purpose) of Some ns \<Rightarrow> ns | None \<Rightarrow> []);
             key_id = py_strip (getenv env (prefix @ ''_KEY_ID'') (getenv env ''EXPORT_SIGNING_KEY_ID'' ''env-default''))
         in if raw = [] then Inl (KeyRuntimeError (''No local environment key configured for '' @ purpose @ ''.''))
            else bind_result (decode_secret_value b64 raw encoding) (\<lambda>material.
              Inr \<lparr>mk_purpose = purpose, mk_provider = ''env'',
                   mk_key_id = (if key_id = [] then ''env-default'' else key_id),
                   mk_version = (case version of Some v \<Rightarrow> v | None \<Rightarrow> ''env-current''),
                   mk_material = material\<rparr>))"

definition load_managed_key ::
  "environ \<Rightarrow> aws_provider \<Rightarrow> b64_decoder \<Rightarrow> string \<Rightarrow> string option \<Rightarrow> key_error + managed_key" where
  "load_managed_key env aws b64 purpose version =
     (let provider = managed_key_provider env;
          normalized = py_upper (py_strip purpose);
          requested = (if version = Some [] then None else version)
      in if provider = ''aws_secrets_manager'' \<or> provider = ''aws-secrets-manager''
         then load_aws_key env aws b64 normalized requested
         else if provider \<noteq> ''env''
         then Inl (KeyRuntimeError (''Unsupported MANAGED_KEY_PROVIDER: '' @ provider))
         else load_env_key env b64 normalized requested)"

definition managed_keys_ready :: "environ \<Rightarrow> bool" where
  "managed_keys_ready env = (managed_key_provider env \<notin> {[], ''env''})"

section \<open>Properties\<close>

text \<open>
  Strict enforcement forbids static keys. In a production-like deployment with strict
  enforcement no key of any purpose comes from the environment; a key that is loaded then is
  the managed provider's.
\<close>

theorem strict_forbids_environment_keys:
  assumes "production_like env" and "managed_key_enforcement_mode env = Inr ''strict''"
    and "load_managed_key env aws b64 purpose version = Inr k"
  shows "mk_provider k = ''aws_secrets_manager'' \<and> managed_keys_ready env"
proof -
  have "legacy_environment_keys_allowed env = Inr False"
    using assms(1,2) by (simp add: legacy_environment_keys_allowed_def)
  then have "load_env_key env b64 p v \<noteq> Inr k" for p v
    by (simp add: load_env_key_def)
  then have provider: "managed_key_provider env = ''aws_secrets_manager'' \<or>
      managed_key_provider env = ''aws-secrets-manager''"
    and aws: "load_aws_key env aws b64 (py_upper (py_strip purpose)) (if version = Some [] then None else version) = Inr k"
    using assms(3) by (auto simp: load_managed_key_def Let_def split: if_splits)
  from aws have "mk_provider k = ''aws_secrets_manager''"
    by (auto simp: load_aws_key_def Let_def bind_result_Inr split: if_splits)
  with provider show ?thesis by (auto simp: managed_keys_ready_def)
qed

definition strict_env :: environ where
  "strict_env = map_of [(''APP_ENV'', ''production''), (''MANAGED_KEY_ENFORCEMENT'', ''enforce''),
     (''MANAGED_KEY_PROVIDER'', ''aws-secrets-manager''), (''EVIDENCE_SIGNING_KEY_SECRET_ID'', ''s1'')]"

theorem strict_forbids_environment_keys_witness:
  "\<exists>k. load_managed_key strict_env (\<lambda>i v. Inr (''pw'', ''7'')) (\<lambda>_. None) ''evidence_signing'' None = Inr k \<and>
    mk_provider k = ''aws_secrets_manager''"
proof -
  have prod: "production_like strict_env" and mode: "managed_key_enforcement_mode strict_env = Inr ''strict''"
    by code_simp+
  have "load_managed_key strict_env (\<lambda>i v. Inr (''pw'', ''7'')) (\<lambda>_. None) ''evidence_signing'' None =
      Inr \<lparr>mk_purpose = ''EVIDENCE_SIGNING'', mk_provider = ''aws_secrets_manager'', mk_key_id = ''s1'',
           mk_version = ''7'', mk_material = utf8 ''pw''\<rparr>"
    by code_simp
  with strict_forbids_environment_keys [OF prod mode this] show ?thesis by blast
qed

end
