(* ===== verification/Evidence_Signing.thy ===== *)
theory Evidence_Signing
  imports Canonical_JSON Managed_Keys
begin

text \<open>
  Manifests, seals and audit chains, \<open>services/api/app/evidence_signing.py\<close>: the manifest over
  the files of an evidence package, its HMAC seal, the verification of a bundle, and the
  hash chain of the audit log.

  SHA-256 is \<open>H\<close>, HMAC-SHA256 is \<open>hmac\<close>, both on bytes. The public-key signature that a seal
  may carry besides is \<open>ed_sign\<close>, the answer of \<open>evidence_ed25519\<close> for a digest. A dictionary is
  the list of its items; file values have distinct paths. The texts of the verification errors
  are constructors. A seal and an audit row are records of texts, an absent one empty.
\<close>

section \<open>Signing keys\<close>

definition dev_fallback_secret :: bytes where
  "dev_fallback_secret = utf8 ''decoda-dev-signing-secret-NOT-FOR-PRODUCTION''"

definition is_production_like :: "environ \<Rightarrow> bool" where
  "is_production_like env =
     (env_key env ''APP_MODE'' [] \<in> {''production'', ''staging''} \<or>
      env_key env ''APP_ENV'' [] \<in> {''production'', ''staging'', ''prod''})"

definition get_signing_secret ::
  "environ \<Rightarrow> aws_provider \<Rightarrow> b64_decoder \<Rightarrow> string option \<Rightarrow> key_error + bytes option" where
  "get_signing_secret env aws b64 version =
     (case load_managed_key env aws b64 ''EVIDENCE_SIGNING'' version of
        Inr k \<Rightarrow> Inr (Some (mk_material k))
      | Inl (KeyRuntimeError _) \<Rightarrow> Inr None
      | Inl e \<Rightarrow> Inl e)"

definition require_signing_secret ::
  "environ \<Rightarrow> aws_provider \<Rightarrow> b64_decoder \<Rightarrow> key_error + bytes \<times> bool" where
  "require_signing_secret env aws b64 =
     (let prod = is_production_like env;
          found = bind_result (get_signing_secret env aws b64 None) (\<lambda>secret.
            case secret of
              Some s \<Rightarrow>
                if prod \<and> s = dev_fallback_secret then
                  Inl (KeyRuntimeError ''The development evidence signing dev fallback is forbidden in production/staging.'')
                else Inr (s, True)
            | None \<Rightarrow>
                if prod then
                  Inl (KeyRuntimeError ''EXPORT_SIGNING_SECRET or a managed evidence signing key is required in production/staging.'')
                else Inr (dev_fallback_secret, False))
      in if prod \<and> managed_key_provider env = ''env'' then
           bind_result (managed_key_enforcement_mode env) (\<lambda>mode.
             if mode = ''strict'' then
               Inl (KeyRuntimeError ''MANAGED_KEY_ENFORCEMENT=strict forbids EXPORT_SIGNING_SECRET environment operation.'')
             else found)
         else found)"

definition signing_key_id :: "environ \<Rightarrow> aws_provider \<Rightarrow> b64_decoder \<Rightarrow> key_error + string" where
  "signing_key_id env aws b64 =
     (case load_managed_key env aws b64 ''EVIDENCE_SIGNING'' None of
        Inr k \<Rightarrow> Inr (mk_key_id k)
      | Inl (KeyRuntimeError _) \<Rightarrow>
          Inr (let i = py_strip (getenv env ''EXPORT_SIGNING_KEY_ID'' ''env-default'')
               in if i = [] then ''env-default'' else i)
      | Inl e \<Rightarrow> Inl e)"

definition signing_key_version :: "environ \<Rightarrow> aws_provider \<Rightarrow> b64_decoder \<Rightarrow> key_error + string" where
  "signing_key_version env aws b64 =
     (case load_managed_key env aws b64 ''EVIDENCE_SIGNING'' None of
        Inr k \<Rightarrow> Inr (mk_version k)
      | Inl (KeyRuntimeError _) \<Rightarrow> Inr ''dev-fallback''
      | Inl e \<Rightarrow> Inl e)"

text \<open>What the health checks learn of the key; startup fails on a weak or a missing one.\<close>

definition bytes_strip :: "bytes \<Rightarrow> bytes" where
  "bytes_strip b = (let ws = (\<lambda>c. c \<in> set [9, 10, 11, 12, 13, 32])
     in rev (dropWhile ws (rev (dropWhile ws b))))"

definition bytes_lower :: "bytes \<Rightarrow> bytes" where
  "bytes_lower b = map (\<lambda>c. if 65 \<le> c \<and> c \<le> 90 then c + 32 else c) b"

definition known_weak_signing_secrets :: "bytes list" where
  "known_weak_signing_secrets =
     map utf8 [''changeme'', ''local'', ''test'', ''secret'', ''password'', ''proofpass123!'',
       ''pdl_whsec_local'', ''replace-with-long-random-secret''] @ [bytes_lower dev_fallback_secret]"

record key_status =
  ks_configured :: bool
  ks_strong :: bool
  ks_provider :: string
  ks_enforcement :: string
  ks_key_id :: "string option"
  ks_key_version :: "string option"
  ks_error :: "string option"

definition signing_key_status :: "environ \<Rightarrow> aws_provider \<Rightarrow> b64_decoder \<Rightarrow> key_error + key_status" where
  "signing_key_status env aws b64 =
     (let provider = managed_key_provider env;
          bare = (\<lambda>mode e. \<lparr>ks_configured = False, ks_strong = False, ks_provider = provider,
            ks_enforcement = mode, ks_key_id = None, ks_key_version = None, ks_error = Some e\<rparr>)
      in bind_result (managed_key_enforcement_mode env) (\<lambda>mode.
           if is_production_like env \<and> provider = ''env'' \<and> mode = ''strict'' then
             Inr (bare mode ''MANAGED_KEY_ENFORCEMENT=strict forbids EXPORT_SIGNING_SECRET environment operation.'')
           else bind_result (get_signing_secret env aws b64 None) (\<lambda>secret.
             case secret of
               None \<Rightarrow> Inr (bare mode ''EXPORT_SIGNING_SECRET or a managed evidence signing key is required in production/staging.'')
             | Some s \<Rightarrow>
                 (let weak = bytes_lower (bytes_strip s) \<in> set known_weak_signing_secrets
                  in bind_result (signing_key_id env aws b64) (\<lambda>key_id.
                     bind_result (signing_key_version env aws b64) (\<lambda>key_version.
                     Inr \<lparr>ks_configured = True, ks_strong = (\<not> weak), ks_provider = provider, ks_enforcement = mode,
                       ks_key_id = Some key_id, ks_key_version = Some key_version,
                       ks_error = (if weak then Some (''The development dev fallback or a known weak evidence '' @
                         ''signing key is forbidden in production/staging.'') else None)\<rparr>))))))"

definition validate_signing_secret_at_startup ::
  "environ \<Rightarrow> aws_provider \<Rightarrow> b64_decoder \<Rightarrow> key_error + unit" where
  "validate_signing_secret_at_startup env aws b64 =
     bind_result (signing_key_status env aws b64) (\<lambda>st.
       if is_production_like env \<and> (\<not> ks_configured st \<or> \<not> ks_strong st)
       then Inl (KeyRuntimeError (case ks_error st of Some e \<Rightarrow> e | None \<Rightarrow> ''None''))
       else Inr ())"

section \<open>The manifest\<close>

definition sha256_hex :: "hash_fun \<Rightarrow> bytes \<Rightarrow> string" where
  "sha256_hex H b = bytes_hex (H b)"

definition file_sha256 :: "hash_fun \<Rightarrow> string \<Rightarrow> pyobj \<Rightarrow> serialization_error + bytes \<times> string" where
  "file_sha256 H path v = bind_result (canonical_json path v) (\<lambda>b. Inr (b, sha256_hex H b))"

text \<open>The error with the logical path and the type of the value it is annotated with.\<close>

datatype manifest_error =
    EvidenceSerializationError serialization_error string string
  | ManifestMerkleError merkle_error

record file_meta =
  fm_media_type :: string
  fm_domain :: string
  fm_source_record_type :: string

definition text_default :: "string \<Rightarrow> string \<Rightarrow> string" where
  "text_default s dflt = (if s = [] then dflt else s)"

record manifest_inputs =
  mi_export_id :: pyobj
  mi_export_type :: pyobj
  mi_workspace_id :: pyobj
  mi_generated_at :: pyobj
  mi_generated_by_user_id :: pyobj
  mi_source_resource_type :: pyobj
  mi_source_resource_id :: pyobj
  mi_storage_backend :: pyobj
  mi_previous_audit_anchor_hash :: string
  mi_app_version :: string
  mi_seal_merkle :: bool
  mi_policy_snapshot :: "pyobj option"
  mi_required_artifacts :: "string list"
  mi_file_provenance :: "(string \<times> file_meta) list"

definition file_entry ::
  "manifest_inputs \<Rightarrow> string \<Rightarrow> string \<Rightarrow> bytes \<Rightarrow> (string \<times> pyobj) list" where
  "file_entry inp path sha b =
     [(''path'', EStr path), (''sha256'', EStr sha), (''size_bytes'', EInt (int (length b)))] @
     (if mi_seal_merkle inp then
        let meta = (case map_of (mi_file_provenance inp) path of Some m \<Rightarrow> m
              | None \<Rightarrow> \<lparr>fm_media_type = [], fm_domain = [], fm_source_record_type = []\<rparr>)
        in [(''media_type'', EStr (text_default (fm_media_type meta) ''application/json'')),
            (''domain'', EStr (text_default (fm_domain meta) ''PACKAGE'')),
            (''source_record_type'', EStr (text_default (fm_source_record_type meta) ''evidence''))]
      else [])"

text \<open>The loop over the paths in order: each path, its canonical bytes and its digest.\<close>

fun hash_files ::
  "hash_fun \<Rightarrow> (string \<times> pyobj) list \<Rightarrow> manifest_error + (string \<times> bytes \<times> string) list" where
  "hash_files H [] = Inr []"
| "hash_files H ((path, v) # rest) =
     (case file_sha256 H path v of
        Inl e \<Rightarrow> Inl (EvidenceSerializationError e path (type_name v))
      | Inr (b, sha) \<Rightarrow> bind_result (hash_files H rest) (\<lambda>others. Inr ((path, b, sha) # others)))"

definition merkle_fields ::
  "hash_fun \<Rightarrow> manifest_inputs \<Rightarrow> (string \<times> bytes \<times> string) list \<Rightarrow> manifest_error + (string \<times> pyobj) list" where
  "merkle_fields H inp files =
     (case build_merkle_tree H (map (\<lambda>(path, b, sha). (path, sha)) files) of
        Inl e \<Rightarrow> Inl (ManifestMerkleError e)
      | Inr tree \<Rightarrow> Inr
          [(''schema_version'', EStr ''2.0''), (''hash_algorithm'', EStr ''SHA-256''),
           (''artifact_count'', EInt (int (length files))),
           (''merkle_root'', case mt_root tree of Some r \<Rightarrow> EStr r | None \<Rightarrow> ENone),
           (''merkle_scheme'', EStr ''decoda-merkle-v1''),
           (''policy_snapshot'', case mi_policy_snapshot inp of
              Some (EDict items) \<Rightarrow> EDict items
            | _ \<Rightarrow> EDict [(''present'', EBool False),
                (''reason'', EStr ''No policy evaluation was recorded for this incident.'')]),
           (''required_artifacts'', EList (map EStr (sort (remdups
              (filter (\<lambda>item. py_strip item \<noteq> []) (mi_required_artifacts inp))))))])"

definition finish_manifest ::
  "hash_fun \<Rightarrow> string \<Rightarrow> (string \<times> pyobj) list \<Rightarrow> manifest_error + (string \<times> json) list" where
  "finish_manifest H logical_path items =
     (case json_safe_for_hash ''$'' (EDict items) of
        Inr (JDict m) \<Rightarrow>
          (case canonical_json ''$'' (of_json (JDict m)) of
             Inr b \<Rightarrow> Inr (AList.update ''manifest_sha256'' (JStr (sha256_hex H b)) m)
           | Inl e \<Rightarrow> Inl (EvidenceSerializationError e logical_path ''dict''))
      | Inr _ \<Rightarrow> Inr []
      | Inl e \<Rightarrow> Inl (EvidenceSerializationError e logical_path ''dict''))"

definition build_evidence_manifest ::
  "hash_fun \<Rightarrow> manifest_inputs \<Rightarrow> (string \<times> pyobj) list
     \<Rightarrow> manifest_error + (string \<times> json) list \<times> (string \<times> bytes) list" where
  "build_evidence_manifest H inp file_values =
     bind_result (hash_files H (sort_items file_values)) (\<lambda>files.
     bind_result (if mi_seal_merkle inp then merkle_fields H inp files else Inr []) (\<lambda>sealed.
     bind_result (finish_manifest H ''<manifest>''
       ([(''manifest_version'', EStr ''1.0''), (''export_id'', mi_export_id inp),
         (''export_type'', mi_export_type inp), (''workspace_id'', mi_workspace_id inp),
         (''generated_at'', mi_generated_at inp),
         (''generated_by_user_id'', mi_generated_by_user_id inp),
         (''source_resource_type'', mi_source_resource_type inp),
         (''source_resource_id'', mi_source_resource_id inp),
         (''storage_backend'', mi_storage_backend inp),
         (''files'', EList (map (\<lambda>(path, b, sha). EDict (file_entry inp path sha b)) files))] @
        sealed @
        (if mi_app_version inp \<noteq> [] then [(''app_version'', EStr (mi_app_version inp))] else []) @
        (if mi_previous_audit_anchor_hash inp \<noteq> []
         then [(''previous_audit_anchor_hash'', EStr (mi_previous_audit_anchor_hash inp))] else [])))
       (\<lambda>manifest. Inr (manifest, map (\<lambda>(path, b, sha). (path, b)) files))))"

section \<open>The recovery manifest\<close>

record recovery_inputs =
  rc_export_id :: pyobj
  rc_export_type :: pyobj
  rc_workspace_id :: pyobj
  rc_generated_at :: pyobj
  rc_generated_by_user_id :: pyobj
  rc_incident_id :: pyobj
  rc_storage_backend :: pyobj
  rc_package_number :: string
  rc_file_source_types :: "(string \<times> string) list"
  rc_completeness_score :: "pyobj option"
  rc_missing_evidence_codes :: "string list"
  rc_unverifiable_evidence_codes :: "string list"
  rc_evidence_window :: "(string \<times> pyobj) list"
  rc_app_version :: string

definition source_type_of :: "recovery_inputs \<Rightarrow> string \<Rightarrow> string" where
  "source_type_of rc path = (case map_of (rc_file_source_types rc) path of Some t \<Rightarrow> t | None \<Rightarrow> ''evidence'')"

definition recovery_base :: "recovery_inputs \<Rightarrow> string list \<Rightarrow> manifest_inputs" where
  "recovery_base rc paths =
     \<lparr>mi_export_id = rc_export_id rc, mi_export_type = rc_export_type rc, mi_workspace_id = rc_workspace_id rc,
      mi_generated_at = rc_generated_at rc, mi_generated_by_user_id = rc_generated_by_user_id rc,
      mi_source_resource_type = EStr ''incident'', mi_source_resource_id = rc_incident_id rc,
      mi_storage_backend = rc_storage_backend rc, mi_previous_audit_anchor_hash = [],
      mi_app_version = rc_app_version rc, mi_seal_merkle = True,
      mi_policy_snapshot = Some (EDict [(''present'', EBool False),
        (''reason'', EStr (''No policy evaluation was preserved for this package; '' @
          ''this manifest was reconstructed from stored bytes.''))]),
      mi_required_artifacts = [],
      mi_file_provenance = map (\<lambda>path. (path, \<lparr>fm_media_type = ''application/json'', fm_domain = [],
        fm_source_record_type = source_type_of rc path\<rparr>)) paths\<rparr>"

definition recovery_entry :: "recovery_inputs \<Rightarrow> (string \<times> json) list \<Rightarrow> (string \<times> json) list" where
  "recovery_entry rc entry =
     AList.update ''source_record_type''
       (JStr (source_type_of rc (case map_of entry ''path'' of Some (JStr p) \<Rightarrow> p | _ \<Rightarrow> [])))
       (AList.update ''media_type'' (JStr ''application/json'') entry)"

definition recovery_files :: "recovery_inputs \<Rightarrow> json \<Rightarrow> json" where
  "recovery_files rc files = (case files of
       JList entries \<Rightarrow> JList (map (\<lambda>e. case e of JDict items \<Rightarrow> JDict (recovery_entry rc items) | _ \<Rightarrow> e) entries)
     | _ \<Rightarrow> files)"

definition with_item :: "bool \<Rightarrow> string \<Rightarrow> pyobj \<Rightarrow> (string \<times> pyobj) list \<Rightarrow> (string \<times> pyobj) list" where
  "with_item present k v items = (if present then AList.update k v items else items)"

definition recovery_fields :: "recovery_inputs \<Rightarrow> (string \<times> pyobj) list \<Rightarrow> (string \<times> pyobj) list" where
  "recovery_fields rc items =
     with_item (rc_evidence_window rc \<noteq> []) ''evidence_window'' (EDict (rc_evidence_window rc))
     (with_item True ''unverifiable_evidence_codes'' (EList (map EStr (rc_unverifiable_evidence_codes rc)))
     (with_item True ''missing_evidence_codes'' (EList (map EStr (rc_missing_evidence_codes rc)))
     (with_item (rc_completeness_score rc \<noteq> None) ''completeness_score'' (the (rc_completeness_score rc))
     (with_item True ''manifest_origin'' (EStr ''recovery'')
     (with_item True ''created_at'' (rc_generated_at rc)
     (with_item True ''incident_id'' (rc_incident_id rc)
     (with_item (rc_package_number rc \<noteq> []) ''package_number'' (EStr (rc_package_number rc))
     (with_item True ''package_id'' (rc_export_id rc) items))))))))"

definition build_recovery_manifest ::
  "hash_fun \<Rightarrow> recovery_inputs \<Rightarrow> (string \<times> pyobj) list
     \<Rightarrow> manifest_error + (string \<times> json) list \<times> (string \<times> bytes) list" where
  "build_recovery_manifest H rc file_values =
     bind_result (build_evidence_manifest H (recovery_base rc (map fst file_values)) file_values)
       (\<lambda>(manifest, file_bytes_map).
          let body = filter (\<lambda>(k, v). k \<noteq> ''manifest_sha256'') manifest;
              enriched = map (\<lambda>(k, v). (k, of_json (if k = ''files'' then recovery_files rc v else v))) body
          in bind_result (finish_manifest H ''<recovery-manifest>'' (recovery_fields rc enriched))
               (\<lambda>recovered. Inr (recovered, file_bytes_map)))"

section \<open>The seal\<close>

record seal =
  sl_signature_algorithm :: string
  sl_key_id :: string
  sl_key_version :: string
  sl_key_provider :: string
  sl_signed_manifest_sha256 :: string
  sl_signature :: string
  sl_signed_at :: string
  sl_warning :: string
  sl_schema_version :: "int option"
  sl_signatures :: "json list"

definition item_text :: "(string \<times> json) list \<Rightarrow> string \<Rightarrow> string" where
  "item_text items k = (case map_of items k of Some (JStr s) \<Rightarrow> s | _ \<Rightarrow> [])"

type_synonym hmac_fun = "bytes \<Rightarrow> bytes \<Rightarrow> bytes"

text \<open>The canonical bytes of a stored document.\<close>

definition manifest_bytes :: "(string \<times> json) list \<Rightarrow> bytes" where
  "manifest_bytes m = utf8 (json_dumps (JDict m))"

definition seal_manifest ::
  "environ \<Rightarrow> aws_provider \<Rightarrow> b64_decoder \<Rightarrow> hmac_fun \<Rightarrow> (string \<Rightarrow> json option)
     \<Rightarrow> (string \<times> json) list \<Rightarrow> key_error + seal" where
  "seal_manifest env aws b64 hmac ed_sign manifest =
     bind_result (require_signing_secret env aws b64) (\<lambda>(secret, is_prod_secret).
     bind_result (signing_key_id env aws b64) (\<lambda>key_id.
     bind_result (signing_key_version env aws b64) (\<lambda>key_version.
       let sha = py_strip (item_text manifest ''manifest_sha256'');
           public_signature = (if sha = [] then None else ed_sign sha)
       in Inr \<lparr>sl_signature_algorithm = ''HMAC-SHA256'', sl_key_id = key_id, sl_key_version = key_version,
            sl_key_provider = managed_key_provider env,
            sl_signed_manifest_sha256 = item_text manifest ''manifest_sha256'',
            sl_signature = bytes_hex (hmac secret (manifest_bytes manifest)),
            sl_signed_at = item_text manifest ''generated_at'',
            sl_warning = (if is_prod_secret then []
              else ''DEV_MODE_TEST_SECRET: This seal was generated with a non-production '' @
                ''test secret and is NOT valid for regulatory, legal, or evidentiary purposes.''),
            sl_schema_version = (case public_signature of Some _ \<Rightarrow> Some 2 | None \<Rightarrow> None),
            sl_signatures = (case public_signature of Some g \<Rightarrow> [g] | None \<Rightarrow> [])\<rparr>)))"

section \<open>Verification of a bundle\<close>

datatype bundle_error =
    FileMissing json
  | FileUnserializable string
  | FileTampered string
  | UnlistedFiles "string list"
  | ManifestHashMismatch
  | SigningSecretNotAvailable
  | HmacSignatureInvalid

datatype verify_exception = MalformedManifest | VerifyKeyError key_error

definition item_or :: "(string \<times> json) list \<Rightarrow> string \<Rightarrow> json \<Rightarrow> json" where
  "item_or items k dflt = (case map_of items k of Some v \<Rightarrow> v | None \<Rightarrow> dflt)"

definition check_file ::
  "hash_fun \<Rightarrow> (string \<times> pyobj) list \<Rightarrow> json \<Rightarrow> json \<Rightarrow> verify_exception + bundle_error list" where
  "check_file H file_values path expected =
     (case path of
        JStr p \<Rightarrow> Inr
          (case map_of file_values p of
             None \<Rightarrow> [FileMissing path]
           | Some v \<Rightarrow>
               (case file_sha256 H p v of
                  Inl _ \<Rightarrow> [FileUnserializable p]
                | Inr (b, actual) \<Rightarrow> if JStr actual \<noteq> expected then [FileTampered p] else []))
      | JList _ \<Rightarrow> Inl MalformedManifest
      | JDict _ \<Rightarrow> Inl MalformedManifest
      | _ \<Rightarrow> Inr [FileMissing path])"

fun check_files ::
  "hash_fun \<Rightarrow> (string \<times> pyobj) list \<Rightarrow> json list \<Rightarrow> verify_exception + bundle_error list" where
  "check_files H file_values [] = Inr []"
| "check_files H file_values (JDict entry # entries) =
     bind_result (check_file H file_values (item_or entry ''path'' (JStr [])) (item_or entry ''sha256'' (JStr [])))
       (\<lambda>errs. bind_result (check_files H file_values entries) (\<lambda>rest. Inr (errs @ rest)))"
| "check_files H file_values (_ # entries) = Inl MalformedManifest"

definition listed_files :: "(string \<times> json) list \<Rightarrow> verify_exception + json list" where
  "listed_files manifest =
     (case item_or manifest ''files'' (JList []) of
        JList entries \<Rightarrow> Inr entries
      | JStr [] \<Rightarrow> Inr []
      | JDict [] \<Rightarrow> Inr []
      | _ \<Rightarrow> Inl MalformedManifest)"

definition listed_paths :: "json list \<Rightarrow> json list" where
  "listed_paths entries = map (\<lambda>e. case e of JDict items \<Rightarrow> item_or items ''path'' (JStr []) | _ \<Rightarrow> JNull) entries"

definition verify_bundle ::
  "hash_fun \<Rightarrow> hmac_fun \<Rightarrow> (string option \<Rightarrow> key_error + bytes option) \<Rightarrow> (string \<times> pyobj) list
     \<Rightarrow> (string \<times> json) list \<Rightarrow> seal \<Rightarrow> bytes option \<Rightarrow> verify_exception + bundle_error list" where
  "verify_bundle H hmac get_secret file_values manifest seal signing_secret =
     bind_result (listed_files manifest) (\<lambda>entries.
     bind_result (check_files H file_values entries) (\<lambda>file_errors.
       let extra = sort (filter (\<lambda>p. JStr p \<notin> set (listed_paths entries)) (map fst file_values));
           unlisted = (if extra \<noteq> [] then [UnlistedFiles extra] else []);
           without_hash = filter (\<lambda>(k, v). k \<noteq> ''manifest_sha256'') manifest;
           mismatch = (if JStr (sha256_hex H (manifest_bytes without_hash))
                          \<noteq> item_or manifest ''manifest_sha256'' (JStr [])
                       then [ManifestHashMismatch] else []);
           found = (case signing_secret of
               Some s \<Rightarrow> Inr (Some s)
             | None \<Rightarrow> get_secret (if sl_key_version seal = [] then None else Some (sl_key_version seal)))
       in case found of
            Inl e \<Rightarrow> Inl (VerifyKeyError e)
          | Inr None \<Rightarrow> Inr (file_errors @ unlisted @ mismatch @ [SigningSecretNotAvailable])
          | Inr (Some secret) \<Rightarrow>
              Inr (file_errors @ unlisted @ mismatch @
                   (if bytes_hex (hmac secret (manifest_bytes manifest)) = sl_signature seal
                    then [] else [HmacSignatureInvalid]))))"

section \<open>Lemmas on manifests\<close>

lemma json_safe_items_keys: "json_safe_items p items = Inr js \<Longrightarrow> map fst js = map fst items"
  by (induction items arbitrary: js) (auto simp: bind_result_Inr)

lemma json_safe_items_lookup:
  "json_safe_items p items = Inr js \<Longrightarrow> map_of items k = Some (of_json v) \<Longrightarrow> distinct_keys v \<Longrightarrow>
     map_of js k = Some v"
  by (induction items arbitrary: js) (auto simp: bind_result_Inr json_safe_embed split: if_splits)

lemma hash_files_props:
  "hash_files H files = Inr hs \<Longrightarrow> map fst hs = map fst files \<and>
     (\<forall>(p, b, sha) \<in> set hs. \<exists>v. (p, v) \<in> set files \<and> file_sha256 H p v = Inr (b, sha))"
  by (induction files arbitrary: hs) (fastforce simp: bind_result_Inr split: sum.splits)+

text \<open>The entry of a file in the finished manifest.\<close>

definition file_json :: "manifest_inputs \<Rightarrow> string \<times> bytes \<times> string \<Rightarrow> (string \<times> json) list" where
  "file_json inp f = (case f of (path, b, sha) \<Rightarrow>
     [(''path'', JStr path), (''sha256'', JStr sha), (''size_bytes'', JInt (int (length b)))] @
     (if mi_seal_merkle inp then
        let meta = (case map_of (mi_file_provenance inp) path of Some m \<Rightarrow> m
              | None \<Rightarrow> \<lparr>fm_media_type = [], fm_domain = [], fm_source_record_type = []\<rparr>)
        in [(''media_type'', JStr (text_default (fm_media_type meta) ''application/json'')),
            (''domain'', JStr (text_default (fm_domain meta) ''PACKAGE'')),
            (''source_record_type'', JStr (text_default (fm_source_record_type meta) ''evidence''))]
      else []))"

lemma file_entry_json:
  "EDict (file_entry inp path sha b) = of_json (JDict (file_json inp (path, b, sha)))"
  by (simp add: file_entry_def file_json_def Let_def)

lemma file_json_items:
  "item_or (file_json inp (path, b, sha)) ''path'' d = JStr path"
  "item_or (file_json inp (path, b, sha)) ''sha256'' d = JStr sha"
  "distinct_keys (JDict (file_json inp (path, b, sha)))"
  by (cases "mi_seal_merkle inp"; simp add: file_json_def item_or_def Let_def)+

lemma finish_manifest_Inr:
  assumes "finish_manifest H lp items = Inr m" and "distinct (map fst items)" and "''manifest_sha256'' \<notin> fst ` set items"
  obtains js where "json_safe_items ''$'' items = Inr js" "distinct_keys (JDict js)" "map fst js = map fst items"
    "m = js @ [(''manifest_sha256'', JStr (sha256_hex H (manifest_bytes js)))]"
proof -
  obtain js where js: "json_safe_items ''$'' items = Inr js"
    using assms(1) by (cases "json_safe_items ''$'' items") (auto simp: finish_manifest_def)
  have keys: "map fst js = map fst items" by (rule json_safe_items_keys [OF js])
  then have "dict_of js = js" using assms(2) by (simp add: dict_of_id)
  then have safe: "json_safe_for_hash ''$'' (EDict items) = Inr (JDict js)" using js by simp
  have dk: "distinct_keys (JDict js)" by (rule json_safe_distinct(1) [OF safe])
  have new: "''manifest_sha256'' \<notin> fst ` set js" using assms(3) keys by (metis list.set_map)
  have "m = js @ [(''manifest_sha256'', JStr (sha256_hex H (manifest_bytes js)))]"
    using assms(1) safe canonical_json_embed [OF dk] new
    by (simp add: finish_manifest_def manifest_bytes_def update_new_key)
  with js dk keys show ?thesis by (rule that)
qed

text \<open>What a built manifest is made of.\<close>

lemma merkle_fields_keys:
  "merkle_fields H inp hs = Inr sealed \<Longrightarrow> map fst sealed =
     [''schema_version'', ''hash_algorithm'', ''artifact_count'', ''merkle_root'', ''merkle_scheme'',
      ''policy_snapshot'', ''required_artifacts'']"
  by (auto simp: merkle_fields_def split: sum.splits)

lemma build_manifest_Inr:
  assumes "build_evidence_manifest H inp fv = Inr (m, fb)"
  obtains hs sealed js where "hash_files H (sort_items fv) = Inr hs"
    "fb = map (\<lambda>(path, b, sha). (path, b)) hs"
    "(if mi_seal_merkle inp then merkle_fields H inp hs else Inr []) = Inr sealed"
    "map_of js ''files'' = Some (JList (map (JDict \<circ> file_json inp) hs))"
    "\<And>v. mi_seal_merkle inp \<Longrightarrow> map_of sealed ''merkle_root'' = Some (of_json v) \<Longrightarrow> distinct_keys v \<Longrightarrow>
        map_of js ''merkle_root'' = Some v"
    "''manifest_sha256'' \<notin> fst ` set js"
    "m = js @ [(''manifest_sha256'', JStr (sha256_hex H (manifest_bytes js)))]" "distinct_keys (JDict js)"
proof -
  obtain hs sealed where hs: "hash_files H (sort_items fv) = Inr hs"
      and sealed: "(if mi_seal_merkle inp then merkle_fields H inp hs else Inr []) = Inr sealed"
    using assms by (auto simp: build_evidence_manifest_def bind_result_Inr)
  define items where "items =
       ([(''manifest_version'', EStr ''1.0''), (''export_id'', mi_export_id inp),
         (''export_type'', mi_export_type inp), (''workspace_id'', mi_workspace_id inp),
         (''generated_at'', mi_generated_at inp),
         (''generated_by_user_id'', mi_generated_by_user_id inp),
         (''source_resource_type'', mi_source_resource_type inp),
         (''source_resource_id'', mi_source_resource_id inp),
         (''storage_backend'', mi_storage_backend inp),
         (''files'', EList (map (\<lambda>(path, b, sha). EDict (file_entry inp path sha b)) hs))] @
        sealed @
        (if mi_app_version inp \<noteq> [] then [(''app_version'', EStr (mi_app_version inp))] else []) @
        (if mi_previous_audit_anchor_hash inp \<noteq> []
         then [(''previous_audit_anchor_hash'', EStr (mi_previous_audit_anchor_hash inp))] else []))"
  have "bind_result (finish_manifest H ''<manifest>'' items)
      (\<lambda>manifest. Inr (manifest, map (\<lambda>(path, b, sha). (path, b)) hs)) = Inr (m, fb)"
    using assms unfolding build_evidence_manifest_def hs bind_result_simps sealed items_def .
  then have fin: "finish_manifest H ''<manifest>'' items = Inr m" and fb: "fb = map (\<lambda>(path, b, sha). (path, b)) hs"
    by (auto simp: bind_result_Inr)
  have sk: "map fst sealed = (if mi_seal_merkle inp then
      [''schema_version'', ''hash_algorithm'', ''artifact_count'', ''merkle_root'', ''merkle_scheme'',
       ''policy_snapshot'', ''required_artifacts''] else [])"
    using sealed merkle_fields_keys by (auto split: if_splits)
  have keys: "map fst items = [''manifest_version'', ''export_id'', ''export_type'', ''workspace_id'',
      ''generated_at'', ''generated_by_user_id'', ''source_resource_type'', ''source_resource_id'',
      ''storage_backend'', ''files''] @ map fst sealed @
      (if mi_app_version inp \<noteq> [] then [''app_version''] else []) @
      (if mi_previous_audit_anchor_hash inp \<noteq> [] then [''previous_audit_anchor_hash''] else [])"
    by (simp add: items_def)
  have dist: "distinct (map fst items)" unfolding keys sk by simp
  have "''manifest_sha256'' \<notin> set (map fst items)" unfolding keys sk by simp
  then have fresh: "''manifest_sha256'' \<notin> fst ` set items" by simp
  obtain js where js: "json_safe_items ''$'' items = Inr js" "map fst js = map fst items"
      "m = js @ [(''manifest_sha256'', JStr (sha256_hex H (manifest_bytes js)))]" "distinct_keys (JDict js)"
    by (rule finish_manifest_Inr [OF fin dist fresh])
  have js_fresh: "''manifest_sha256'' \<notin> fst ` set js"
    using arg_cong [OF js(2), of set] fresh by simp
  have "EList (map (\<lambda>(path, b, sha). EDict (file_entry inp path sha b)) hs)
      = of_json (JList (map (JDict \<circ> file_json inp) hs))"
    by (simp add: file_entry_json split_beta)
  then have "map_of items ''files'' = Some (of_json (JList (map (JDict \<circ> file_json inp) hs)))"
    by (simp add: items_def)
  moreover have "distinct_keys (JList (map (JDict \<circ> file_json inp) hs))"
  proof -
    have "distinct_keys ((JDict \<circ> file_json inp) f)" for f
      using file_json_items(3) [of inp "fst f" "fst (snd f)" "snd (snd f)"] by simp
    then show ?thesis by (simp add: list_all_iff del: o_apply)
  qed
  ultimately have files: "map_of js ''files'' = Some (JList (map (JDict \<circ> file_json inp) hs))"
    by (rule json_safe_items_lookup [OF js(1)])
  have root: "map_of js ''merkle_root'' = Some v"
    if "mi_seal_merkle inp" "map_of sealed ''merkle_root'' = Some (of_json v)" "distinct_keys v" for v
    using that by (intro json_safe_items_lookup [OF js(1)]) (simp_all add: items_def map_add_Some_iff)
  show ?thesis by (rule that [OF hs fb sealed files root js_fresh js(3,4)])
qed

text \<open>Entries that name each path with its digest, whatever else they say of the file.\<close>

definition entries_for :: "(string \<times> bytes \<times> string \<Rightarrow> (string \<times> json) list) \<Rightarrow> bool" where
  "entries_for g = (\<forall>p b sha d. item_or (g (p, b, sha)) ''path'' d = JStr p \<and>
     item_or (g (p, b, sha)) ''sha256'' d = JStr sha)"

lemma entries_for_file_json: "entries_for (file_json inp)"
  by (simp add: entries_for_def file_json_items)

lemma check_files_hashed:
  assumes "\<forall>(p, b, sha) \<in> set hs. \<exists>v. map_of fv p = Some v \<and> file_sha256 H p v = Inr (b, sha)" and "entries_for g"
  shows "check_files H fv (map (JDict \<circ> g) hs) = Inr []"
  using assms
proof (induction hs)
  case (Cons f hs)
  obtain p b sha where f: "f = (p, b, sha)" by (cases f) auto
  then obtain v where "map_of fv p = Some v" "file_sha256 H p v = Inr (b, sha)" using Cons.prems by auto
  then have "check_file H fv (JStr p) (JStr sha) = Inr []" by (simp add: check_file_def)
  then show ?case using Cons f assms(2) by (simp add: entries_for_def)
qed simp

lemma hash_files_lookup:
  assumes "hash_files H (sort_items fv) = Inr hs" and "distinct (map fst fv)"
  shows "\<forall>(p, b, sha) \<in> set hs. \<exists>v. map_of fv p = Some v \<and> file_sha256 H p v = Inr (b, sha)"
    and "fst ` set hs = fst ` set fv"
proof -
  have props: "map fst hs = map fst (sort_items fv)"
      "\<forall>(p, b, sha) \<in> set hs. \<exists>v. (p, v) \<in> set fv \<and> file_sha256 H p v = Inr (b, sha)"
    using hash_files_props [OF assms(1)] by simp_all
  show "\<forall>(p, b, sha) \<in> set hs. \<exists>v. map_of fv p = Some v \<and> file_sha256 H p v = Inr (b, sha)"
    using props(2) assms(2) by (force simp: map_of_eq_Some_iff)
  show "fst ` set hs = fst ` set fv"
    using arg_cong [OF props(1), of set] by simp
qed

lemma listed_paths_files: "entries_for g \<Longrightarrow> listed_paths (map (JDict \<circ> g) hs) = map (JStr \<circ> fst) hs"
  by (induction hs) (auto simp: listed_paths_def entries_for_def)

section \<open>Lemmas on verification\<close>

lemma check_files_ok:
  "check_files H fv es = Inr [] \<Longrightarrow> JDict items \<in> set es \<Longrightarrow>
     check_file H fv (item_or items ''path'' (JStr [])) (item_or items ''sha256'' (JStr [])) = Inr []"
  by (induction H fv es rule: check_files.induct) (auto simp: bind_result_Inr)

lemma check_files_dicts: "check_files H fv es = Inr errs \<Longrightarrow> e \<in> set es \<Longrightarrow> \<exists>items. e = JDict items"
  by (induction H fv es arbitrary: errs rule: check_files.induct) (auto simp: bind_result_Inr)

lemma check_file_ok:
  "check_file H fv path expected = Inr [] \<longleftrightarrow>
     (\<exists>p v b. path = JStr p \<and> map_of fv p = Some v \<and> canonical_json p v = Inr b \<and>
        expected = JStr (sha256_hex H b))"
  by (cases path) (auto simp: check_file_def file_sha256_def bind_result_Inr bind_result_Inl
      split: option.splits sum.splits)

lemma verify_bundle_ok:
  "verify_bundle H hmac gs fv m sl (Some k) = Inr [] \<longleftrightarrow>
     (\<exists>es. listed_files m = Inr es \<and> check_files H fv es = Inr [] \<and>
       (\<forall>p \<in> fst ` set fv. JStr p \<in> set (listed_paths es)) \<and>
       item_or m ''manifest_sha256'' (JStr []) =
         JStr (sha256_hex H (manifest_bytes (filter (\<lambda>(k, v). k \<noteq> ''manifest_sha256'') m))) \<and>
       bytes_hex (hmac k (manifest_bytes m)) = sl_signature sl)"
proof -
  have extra: "sort (filter P xs) = [] \<longleftrightarrow> (\<forall>p \<in> set xs. \<not> P p)" for P and xs :: "string list"
    by (metis (no_types, lifting) filter_empty_conv length_0_conv length_sort)
  show ?thesis
    unfolding verify_bundle_def
    by (cases "listed_files m"; cases "check_files H fv (projr (listed_files m))")
      (auto simp: bind_result_Inr Let_def extra)
qed

text \<open>Documents equal up to the order of keys have the same items.\<close>

lemma map_of_sort_items: "distinct (map fst xs) \<Longrightarrow> map_of (sort_items xs) = map_of xs"
  by (subst map_of_inject_set) simp_all

lemma map_of_canon_items:
  "distinct (map fst m) \<Longrightarrow> map_of (sort_items (map (\<lambda>(k, v). (k, canon v)) m)) k = map_option canon (map_of m k)"
proof -
  assume d: "distinct (map fst m)"
  have "map fst (map (\<lambda>(k, v). (k, canon v)) m) = map fst m" by (induction m) auto
  then have "distinct (map fst (map (\<lambda>(k, v). (k, canon v)) m))" using d by metis
  then have "map_of (sort_items (map (\<lambda>(k, v). (k, canon v)) m)) = map_of (map (\<lambda>(k, v). (k, canon v)) m)"
    by (rule map_of_sort_items)
  then show ?thesis by (simp add: map_of_map)
qed

lemma canon_items:
  assumes "distinct (map fst m)" "distinct (map fst m')" "canon (JDict m) = canon (JDict m')"
  shows "map_option canon (map_of m k) = map_option canon (map_of m' k)"
  using assms map_of_canon_items [of m k] map_of_canon_items [of m' k] by simp

lemma canon_JStr: "canon v = JStr s \<longleftrightarrow> v = JStr s"
  by (cases v) auto

lemma canon_item_or:
  assumes "distinct (map fst m)" "distinct (map fst m')" "canon (JDict m) = canon (JDict m')"
  shows "item_or m k (JStr []) = JStr s \<longleftrightarrow> item_or m' k (JStr []) = JStr s"
  using canon_items [OF assms, of k]
  by (cases "map_of m k"; cases "map_of m' k") (simp_all add: item_or_def, metis canon_JStr)

lemma sort_items_Nil [simp]: "sort_items xs = [] \<longleftrightarrow> xs = []"
  by (metis length_0_conv length_sort sort_items_def)

lemma listed_files_canon:
  assumes "distinct (map fst m)" "distinct (map fst m')" "canon (JDict m) = canon (JDict m')"
    and "listed_files m = Inr es" "listed_files m' = Inr es'"
  shows "map canon es = map canon es'"
proof -
  have shape: "(\<exists>es. v = JList es \<and> xs = es) \<or> (v = JStr [] \<or> v = JDict []) \<and> xs = []"
    if "(case v of JList entries \<Rightarrow> Inr entries | JStr [] \<Rightarrow> Inr [] | JDict [] \<Rightarrow> Inr []
         | _ \<Rightarrow> Inl MalformedManifest) = Inr xs" for v xs
    using that by (cases v) (auto split: list.splits)
  define v where "v = item_or m ''files'' (JList [])"
  define v' where "v' = item_or m' ''files'' (JList [])"
  have "canon v = canon v'"
    using canon_items [OF assms(1-3), of "''files''"]
    by (cases "map_of m ''files''"; cases "map_of m' ''files''") (auto simp: v_def v'_def item_or_def)
  moreover have "(\<exists>zs. v = JList zs \<and> es = zs) \<or> (v = JStr [] \<or> v = JDict []) \<and> es = []"
    using assms(4) unfolding listed_files_def v_def [symmetric] by (rule shape)
  moreover have "(\<exists>zs. v' = JList zs \<and> es' = zs) \<or> (v' = JStr [] \<or> v' = JDict []) \<and> es' = []"
    using assms(5) unfolding listed_files_def v'_def [symmetric] by (rule shape)
  ultimately show ?thesis by auto
qed

text \<open>The bytes of a bundle: for each path the canonical bytes of its file.\<close>

definition bundle_bytes :: "(string \<times> pyobj) list \<Rightarrow> string \<Rightarrow> bytes option" where
  "bundle_bytes fv p = (case map_of fv p of None \<Rightarrow> None
     | Some v \<Rightarrow> (case canonical_json p v of Inr b \<Rightarrow> Some b | Inl _ \<Rightarrow> None))"

definition file_bytes :: "(string \<times> pyobj) list \<Rightarrow> bytes list" where
  "file_bytes fv = List.map_filter (bundle_bytes fv) (map fst fv)"

lemma bundle_bytes_listed: "bundle_bytes fv p = Some b \<Longrightarrow> b \<in> set (file_bytes fv)"
proof -
  assume b: "bundle_bytes fv p = Some b"
  then have "p \<in> fst ` set fv"
    by (auto simp: bundle_bytes_def split: option.splits dest: map_of_SomeD intro: rev_image_eqI)
  with b show ?thesis by (force simp: file_bytes_def List.map_filter_def)
qed

text \<open>What a verified bundle promises of each path: listed with the digest of its bytes, or absent.\<close>

lemma verified_path:
  assumes "check_files H fv es = Inr []" and "\<forall>p \<in> fst ` set fv. JStr p \<in> set (listed_paths es)"
  shows "map_of fv p \<noteq> None \<longleftrightarrow> (\<exists>items. JDict items \<in> set es \<and> item_or items ''path'' (JStr []) = JStr p)"
    and "JDict items \<in> set es \<Longrightarrow> item_or items ''path'' (JStr []) = JStr p \<Longrightarrow>
      \<exists>b. bundle_bytes fv p = Some b \<and> item_or items ''sha256'' (JStr []) = JStr (sha256_hex H b)"
proof -
  have ok: "\<exists>b. bundle_bytes fv p = Some b \<and> item_or items ''sha256'' (JStr []) = JStr (sha256_hex H b)"
    if "JDict items \<in> set es" "item_or items ''path'' (JStr []) = JStr p" for items p
    using check_files_ok [OF assms(1) that(1)] that(2) by (auto simp: check_file_ok bundle_bytes_def)
  then show "JDict items \<in> set es \<Longrightarrow> item_or items ''path'' (JStr []) = JStr p \<Longrightarrow>
      \<exists>b. bundle_bytes fv p = Some b \<and> item_or items ''sha256'' (JStr []) = JStr (sha256_hex H b)" by blast
  show "map_of fv p \<noteq> None \<longleftrightarrow> (\<exists>items. JDict items \<in> set es \<and> item_or items ''path'' (JStr []) = JStr p)"
  proof
    assume "map_of fv p \<noteq> None"
    then have "JStr p \<in> set (listed_paths es)"
      using assms(2) by (metis (no_types, lifting) domIff dom_map_of_conv_image_fst)
    then obtain e where e: "e \<in> set es"
        "JStr p = (case e of JDict items \<Rightarrow> item_or items ''path'' (JStr []) | _ \<Rightarrow> JNull)"
      by (auto simp: listed_paths_def)
    then obtain items where "e = JDict items" using check_files_dicts [OF assms(1)] by blast
    with e show "\<exists>items. JDict items \<in> set es \<and> item_or items ''path'' (JStr []) = JStr p" by auto
  next
    assume "\<exists>items. JDict items \<in> set es \<and> item_or items ''path'' (JStr []) = JStr p"
    then obtain b where "bundle_bytes fv p = Some b" using ok by blast
    then show "map_of fv p \<noteq> None" by (cases "map_of fv p") (simp_all add: bundle_bytes_def)
  qed
qed

lemma listed_entry_distinct:
  assumes "json_ok (JDict m)" and "listed_files m = Inr es" and "JDict items \<in> set es"
  shows "distinct (map fst items)"
proof -
  have "item_or m ''files'' (JList []) = JList es"
    using assms(2,3) by (auto simp: listed_files_def split: json.splits list.splits)
  then have "(''files'', JList es) \<in> set m"
    using assms(3) by (auto simp: item_or_def dest: map_of_SomeD split: option.splits)
  then have "json_ok (JList es)" using assms(1) by (auto simp: list_all_iff)
  then have "json_ok (JDict items)" using assms(3) unfolding json_ok.simps(2) list_all_iff by blast
  then show ?thesis by simp
qed

lemma bundle_bytes_listed_entry:
  assumes "check_files H fv es = Inr []" and "\<forall>p \<in> fst ` set fv. JStr p \<in> set (listed_paths es)"
    and "bundle_bytes fv p = Some b"
  obtains items where "JDict items \<in> set es" "item_or items ''path'' (JStr []) = JStr p"
    "item_or items ''sha256'' (JStr []) = JStr (sha256_hex H b)"
proof -
  have "map_of fv p \<noteq> None" using assms(3) by (cases "map_of fv p") (simp_all add: bundle_bytes_def)
  then obtain items where i: "JDict items \<in> set es" "item_or items ''path'' (JStr []) = JStr p"
    using verified_path(1) [OF assms(1,2)] by blast
  from verified_path(2) [OF assms(1,2) this] assms(3)
  have "item_or items ''sha256'' (JStr []) = JStr (sha256_hex H b)" by auto
  with i show ?thesis by (rule that)
qed

text \<open>One direction: a path of the first bundle is in the second, with the same bytes up to a collision.\<close>

lemma bundle_path_bound:
  assumes ok: "json_ok (JDict m)" "json_ok (JDict m')" and same: "canon (JDict m) = canon (JDict m')"
    and es: "listed_files m = Inr es" "check_files H fv es = Inr []"
      "\<forall>p \<in> fst ` set fv. JStr p \<in> set (listed_paths es)"
    and es': "listed_files m' = Inr es'" "check_files H fv' es' = Inr []"
      "\<forall>p \<in> fst ` set fv'. JStr p \<in> set (listed_paths es')"
    and b: "bundle_bytes fv p = Some b"
  shows "\<exists>b'. bundle_bytes fv' p = Some b' \<and> H b = H b'"
proof -
  obtain items where i: "JDict items \<in> set es" "item_or items ''path'' (JStr []) = JStr p"
      "item_or items ''sha256'' (JStr []) = JStr (sha256_hex H b)"
    by (rule bundle_bytes_listed_entry [OF es(2,3) b])
  have "map canon es = map canon es'"
    using listed_files_canon [OF _ _ same es(1) es'(1)] ok by simp
  then have "canon (JDict items) \<in> set (map canon es')" using i(1) by (metis image_eqI list.set_map)
  then obtain e where e: "e \<in> set es'" "canon (JDict items) = canon e" by auto
  obtain items' where i': "e = JDict items'" using check_files_dicts [OF es'(2) e(1)] by blast
  note swap = canon_item_or [OF listed_entry_distinct [OF ok(1) es(1) i(1)]
      listed_entry_distinct [OF ok(2) es'(1), of items'] e(2) [unfolded i']]
  have "item_or items' ''path'' (JStr []) = JStr p" "item_or items' ''sha256'' (JStr []) = JStr (sha256_hex H b)"
    using swap i(2,3) e(1) i' by blast+
  moreover from this(1) obtain b' where "bundle_bytes fv' p = Some b'"
      "item_or items' ''sha256'' (JStr []) = JStr (sha256_hex H b')"
    using verified_path(2) [OF es'(2,3), of items' p] e(1) i' by blast
  ultimately show ?thesis by (auto simp: sha256_hex_def bytes_hex_inj)
qed

text \<open>A manifest over the digests of its files verifies with the secret it was sealed with.\<close>

lemma manifest_verifies:
  assumes hs: "hash_files H (sort_items fv) = Inr hs" "distinct (map fst fv)"
    and files: "map_of js ''files'' = Some (JList (map (JDict \<circ> g) hs))" "entries_for g"
    and m: "''manifest_sha256'' \<notin> fst ` set js" "m = js @ [(''manifest_sha256'', JStr (sha256_hex H (manifest_bytes js)))]"
    and signed: "bytes_hex (hmac secret (manifest_bytes m)) = sl_signature sl"
  shows "verify_bundle H hmac get_secret fv m sl (Some secret) = Inr []"
proof -
  have "filter (\<lambda>(k, v). k \<noteq> ''manifest_sha256'') js = js"
    using m(1) by (force intro: filter_True)
  then have hash: "item_or m ''manifest_sha256'' (JStr []) =
      JStr (sha256_hex H (manifest_bytes (filter (\<lambda>(k, v). k \<noteq> ''manifest_sha256'') m)))"
    using m(1) by (simp add: m(2) item_or_def map_add_def map_of_eq_None_iff [symmetric] split: option.split)
  have "listed_files m = Inr (map (JDict \<circ> g) hs)"
    using files(1) by (simp add: listed_files_def item_or_def m(2) map_add_def)
  moreover have "check_files H fv (map (JDict \<circ> g) hs) = Inr []"
    by (rule check_files_hashed [OF hash_files_lookup(1) [OF hs] files(2)])
  moreover have "\<forall>p \<in> fst ` set fv. JStr p \<in> set (listed_paths (map (JDict \<circ> g) hs))"
    unfolding listed_paths_files [OF files(2)] using hash_files_lookup(2) [OF hs] by force
  ultimately show ?thesis using hash signed by (simp add: verify_bundle_ok)
qed

lemma seal_signs:
  assumes "require_signing_secret env aws b64 = Inr (secret, genuine)"
    and "seal_manifest env aws b64 hmac ed_sign m = Inr sl"
  shows "bytes_hex (hmac secret (manifest_bytes m)) = sl_signature sl"
  using assms by (auto simp: seal_manifest_def bind_result_Inr Let_def)

text \<open>What a recovery manifest is made of.\<close>

lemma update_lookup: "map_of (AList.update k v al) = (map_of al)(k \<mapsto> v)"
  by (rule update_conv')

lemma map_of_json_items: "map_of (map (\<lambda>(k, v). (k, of_json v)) js) k = map_option of_json (map_of js k)"
  by (induction js) auto

lemma distinct_keys_update:
  assumes "distinct_keys (JDict items)" and "distinct_keys v"
  shows "distinct_keys (JDict (AList.update k v items))"
proof -
  have "list_all P (AList.update k v items)" if "list_all P items" "P (k, v)" for P
    using that by (induction items) auto
  with assms show ?thesis by (simp add: distinct_update)
qed

lemma recovery_fields_keys:
  "distinct (map fst items) \<Longrightarrow> distinct (map fst (recovery_fields rc items))"
  "''manifest_sha256'' \<notin> fst ` set items \<Longrightarrow> ''manifest_sha256'' \<notin> fst ` set (recovery_fields rc items)"
  "map_of (recovery_fields rc items) ''files'' = map_of items ''files''"
  by (auto simp: recovery_fields_def with_item_def distinct_update dom_update update_lookup split: option.split)

lemma recovery_manifest_Inr:
  assumes "build_recovery_manifest H rc fv = Inr (m, fb)"
  obtains hs js g where "hash_files H (sort_items fv) = Inr hs" "entries_for g"
    "map_of js ''files'' = Some (JList (map (JDict \<circ> g) hs))"
    "''manifest_sha256'' \<notin> fst ` set js"
    "m = js @ [(''manifest_sha256'', JStr (sha256_hex H (manifest_bytes js)))]"
proof -
  obtain base fb' where base: "build_evidence_manifest H (recovery_base rc (map fst fv)) fv = Inr (base, fb')"
    using assms by (auto simp: build_recovery_manifest_def bind_result_Inr)
  let ?inp = "recovery_base rc (map fst fv)"
  obtain hs sealed js where b: "hash_files H (sort_items fv) = Inr hs"
      "map_of js ''files'' = Some (JList (map (JDict \<circ> file_json ?inp) hs))"
      "''manifest_sha256'' \<notin> fst ` set js"
      "base = js @ [(''manifest_sha256'', JStr (sha256_hex H (manifest_bytes js)))]" "distinct_keys (JDict js)"
    by (rule build_manifest_Inr [OF base])
  define g where "g = recovery_entry rc \<circ> file_json ?inp"
  have g: "entries_for g"
    by (simp add: g_def entries_for_def recovery_entry_def item_or_def update_lookup)
      (simp add: item_or_def [symmetric] file_json_items)
  let ?v = "\<lambda>k v. if k = ''files'' then recovery_files rc v else v"
  define rows where "rows = map (\<lambda>(k, v). (k, ?v k v)) js"
  define items where "items = map (\<lambda>(k, v). (k, of_json (?v k v))) js"
  have items_rows: "items = map (\<lambda>(k, v). (k, of_json v)) rows" by (simp add: items_def rows_def split_beta)
  have keys: "map fst items = map fst js" by (simp add: items_def comp_def split_beta)
  have "map_of rows ''files'' = Some (JList (map (JDict \<circ> g) hs))"
    using b(2) unfolding rows_def by (induction js) (auto simp: recovery_files_def g_def)
  then have files: "map_of items ''files'' = Some (of_json (JList (map (JDict \<circ> g) hs)))"
    unfolding items_rows map_of_json_items by simp
  have "filter (\<lambda>(k, v). k \<noteq> ''manifest_sha256'') base = js"
    unfolding b(4) using b(3) by (force intro: filter_True)
  then have fin: "finish_manifest H ''<recovery-manifest>'' (recovery_fields rc items) = Inr m"
    using assms base by (auto simp: build_recovery_manifest_def bind_result_Inr items_def Let_def)
  have fresh: "''manifest_sha256'' \<notin> fst ` set (recovery_fields rc items)"
    and dist: "distinct (map fst (recovery_fields rc items))"
    using recovery_fields_keys(1,2) [of items rc] b(3,5) keys by (metis list.set_map distinct_keys.simps(2))+
  obtain js' where js': "json_safe_items ''$'' (recovery_fields rc items) = Inr js'"
      "map fst js' = map fst (recovery_fields rc items)"
      "m = js' @ [(''manifest_sha256'', JStr (sha256_hex H (manifest_bytes js')))]"
    by (rule finish_manifest_Inr [OF fin dist fresh])
  have "distinct_keys (JList (map (JDict \<circ> g) hs))"
  proof -
    have "distinct_keys (JDict (recovery_entry rc (file_json ?inp f)))" for f
      using file_json_items(3) [of ?inp "fst f" "fst (snd f)" "snd (snd f)"]
      unfolding recovery_entry_def by (intro distinct_keys_update) simp_all
    then show ?thesis by (simp add: list_all_iff g_def del: distinct_keys.simps(2))
  qed
  with files have "map_of js' ''files'' = Some (JList (map (JDict \<circ> g) hs))"
    using recovery_fields_keys(3) by (intro json_safe_items_lookup [OF js'(1)]) simp_all
  moreover have "''manifest_sha256'' \<notin> fst ` set js'"
    using fresh js'(2) by (metis list.set_map)
  ultimately show ?thesis using b(1) g js'(3) that by blast
qed

text \<open>Building fails only on a value without a JSON form: the rest of it is total.\<close>

definition safe :: "pyobj \<Rightarrow> bool" where
  "safe v = (\<forall>p. \<exists>j. json_safe_for_hash p v = Inr j)"

lemma safe_items: "\<forall>(k, v) \<in> set items. safe v \<Longrightarrow> \<exists>js. json_safe_items p items = Inr js"
proof (induction items)
  case (Cons e items)
  obtain k v where e: "e = (k, v)" by fastforce
  with Cons obtain js where js: "json_safe_items p items = Inr js" by auto
  have "safe v" using Cons.prems e by simp
  then obtain j where "json_safe_for_hash (p @ ''.'' @ k) v = Inr j" unfolding safe_def by blast
  then show ?case using js by (simp add: e)
qed simp

lemma safe_list: "\<forall>v \<in> set vs. safe v \<Longrightarrow> \<exists>js. json_safe_list p i vs = Inr js"
proof (induction vs arbitrary: i)
  case (Cons v vs)
  then obtain js where js: "json_safe_list p (i + 1) vs = Inr js" by fastforce
  have "safe v" using Cons.prems by simp
  then obtain j where "json_safe_for_hash (p @ ''['' @ str_nat i @ '']'') v = Inr j" unfolding safe_def by blast
  then show ?case using js by simp
qed simp

lemma safe_simps [simp]:
  "safe ENone" "safe (EBool b)" "safe (EInt i)" "safe (EStr s)" "safe (EUuid s)" "safe (EDecimal d)"
  by (simp_all add: safe_def)

lemma safe_EDict:
  assumes "\<forall>(k, v) \<in> set items. safe v"
  shows "safe (EDict items)"
  unfolding safe_def
proof
  fix p
  obtain js where "json_safe_items p items = Inr js" using safe_items [OF assms] by blast
  then show "\<exists>j. json_safe_for_hash p (EDict items) = Inr j" by simp
qed

lemma safe_EList:
  assumes "\<forall>v \<in> set vs. safe v"
  shows "safe (EList vs)"
  unfolding safe_def
proof
  fix p
  obtain js where "json_safe_list p 0 vs = Inr js" using safe_list [OF assms] by blast
  then show "\<exists>j. json_safe_for_hash p (EList vs) = Inr j" by simp
qed

lemma safe_file_entry: "safe (EDict (file_entry inp path sha b))"
  by (rule safe_EDict) (auto simp: file_entry_def Let_def)

lemma safe_of_json: "distinct_keys j \<Longrightarrow> safe (of_json j)"
  by (simp add: safe_def json_safe_embed)

lemma finish_manifest_defined:
  assumes "\<forall>(k, v) \<in> set items. safe v"
  shows "\<exists>m. finish_manifest H lp items = Inr m"
proof -
  obtain js where "json_safe_items ''$'' items = Inr js" using safe_items [OF assms] by blast
  then have safe: "json_safe_for_hash ''$'' (EDict items) = Inr (JDict (dict_of js))" by simp
  from canonical_json_embed [OF json_safe_distinct(1) [OF this]] safe show ?thesis
    by (simp add: finish_manifest_def del: json_safe_for_hash.simps of_json.simps)
qed

lemma hash_files_defined: "\<forall>(p, v) \<in> set fv. safe v \<Longrightarrow> \<exists>hs. hash_files H fv = Inr hs"
proof (induction fv)
  case (Cons e fv)
  obtain p v where e: "e = (p, v)" by fastforce
  with Cons obtain hs where "hash_files H fv = Inr hs" by auto
  moreover have "safe v" using Cons.prems e by simp
  then obtain j where "json_safe_for_hash p v = Inr j" unfolding safe_def by blast
  ultimately show ?case by (simp add: e file_sha256_def canonical_json_def)
qed simp

lemma merkle_fields_defined:
  assumes hs: "hash_files H (sort_items fv) = Inr hs" and keys: "distinct (map fst fv)" "[] \<notin> fst ` set fv"
    and len: "\<And>b. length (H b) = 32" and snap: "\<And>v. mi_policy_snapshot inp = Some v \<Longrightarrow> safe v"
  shows "\<exists>sealed. merkle_fields H inp hs = Inr sealed \<and> (\<forall>(k, v) \<in> set sealed. safe v)"
proof -
  let ?es = "map (\<lambda>(path, b, sha). (path, sha)) hs"
  have fst_es: "map fst ?es = map fst hs" by (simp add: split_beta comp_def)
  have "map fst hs = map fst (sort_items fv)" using hash_files_props [OF hs] by blast
  then have "distinct (map fst ?es)" "[] \<notin> set (map fst ?es)"
    unfolding fst_es using keys by simp_all
  moreover have "valid_digest sha" if "(p, b, sha) \<in> set hs" for p b sha
  proof -
    have "sha = bytes_hex (H b)"
      using hash_files_props [OF hs] that by (fastforce simp: file_sha256_def bind_result_Inr sha256_hex_def)
    then show ?thesis using len valid_digest_hex by simp
  qed
  then have "list_all (\<lambda>e. valid_digest (snd e)) ?es" by (auto simp: list_all_iff)
  ultimately have "\<exists>r. compute_merkle_root H ?es = Inr r"
    unfolding compute_merkle_root_iff entries_ok_def by simp
  then obtain tree where tree: "build_merkle_tree H ?es = Inr tree"
    by (auto simp: compute_merkle_root_def bind_result_Inr)
  have "safe (case mi_policy_snapshot inp of Some (EDict items) \<Rightarrow> EDict items
      | _ \<Rightarrow> EDict [(''present'', EBool False), (''reason'', EStr ''No policy evaluation was recorded for this incident.'')])"
    using snap by (auto intro!: safe_EDict split: option.split pyobj.split)
  moreover have "safe (case mt_root tree of Some r \<Rightarrow> EStr r | None \<Rightarrow> ENone)" by (simp split: option.split)
  ultimately show ?thesis
    unfolding merkle_fields_def tree by (auto intro!: safe_EList)
qed

text \<open>The parts of the manifest the caller supplies.\<close>

definition inputs_safe :: "manifest_inputs \<Rightarrow> bool" where
  "inputs_safe inp = ((\<forall>v \<in> set [mi_export_id inp, mi_export_type inp, mi_workspace_id inp, mi_generated_at inp,
     mi_generated_by_user_id inp, mi_source_resource_type inp, mi_source_resource_id inp, mi_storage_backend inp]. safe v) \<and>
     (\<forall>v. mi_policy_snapshot inp = Some v \<longrightarrow> safe v))"

lemma build_manifest_defined:
  assumes fv: "\<forall>(p, v) \<in> set fv. safe v" "distinct (map fst fv)" "[] \<notin> fst ` set fv"
    and len: "\<And>b. length (H b) = 32" and inp: "inputs_safe inp"
  shows "\<exists>m fb. build_evidence_manifest H inp fv = Inr (m, fb)"
proof -
  obtain hs where hs: "hash_files H (sort_items fv) = Inr hs" using hash_files_defined [of "sort_items fv"] fv(1) by auto
  have "\<exists>sealed. merkle_fields H inp hs = Inr sealed \<and> (\<forall>(k, v) \<in> set sealed. safe v)"
    using inp by (intro merkle_fields_defined [OF hs fv(2,3) len]) (simp add: inputs_safe_def)
  then obtain sealed where sealed: "(if mi_seal_merkle inp then merkle_fields H inp hs else Inr []) = Inr sealed"
      "\<forall>(k, v) \<in> set sealed. safe v"
    by (cases "mi_seal_merkle inp") force+
  have "safe (EList (map (\<lambda>(path, b, sha). EDict (file_entry inp path sha b)) hs))"
    by (rule safe_EList) (auto simp: safe_file_entry)
  then have items: "\<forall>(k, v) \<in> set ([(''manifest_version'', EStr ''1.0''), (''export_id'', mi_export_id inp),
         (''export_type'', mi_export_type inp), (''workspace_id'', mi_workspace_id inp),
         (''generated_at'', mi_generated_at inp),
         (''generated_by_user_id'', mi_generated_by_user_id inp),
         (''source_resource_type'', mi_source_resource_type inp),
         (''source_resource_id'', mi_source_resource_id inp),
         (''storage_backend'', mi_storage_backend inp),
         (''files'', EList (map (\<lambda>(path, b, sha). EDict (file_entry inp path sha b)) hs))] @
        sealed @
        (if mi_app_version inp \<noteq> [] then [(''app_version'', EStr (mi_app_version inp))] else []) @
        (if mi_previous_audit_anchor_hash inp \<noteq> []
         then [(''previous_audit_anchor_hash'', EStr (mi_previous_audit_anchor_hash inp))] else [])). safe v"
    using sealed(2) inp by (simp add: inputs_safe_def ball_Un)
  obtain m where "finish_manifest H ''<manifest>'' ([(''manifest_version'', EStr ''1.0''), (''export_id'', mi_export_id inp),
         (''export_type'', mi_export_type inp), (''workspace_id'', mi_workspace_id inp),
         (''generated_at'', mi_generated_at inp),
         (''generated_by_user_id'', mi_generated_by_user_id inp),
         (''source_resource_type'', mi_source_resource_type inp),
         (''source_resource_id'', mi_source_resource_id inp),
         (''storage_backend'', mi_storage_backend inp),
         (''files'', EList (map (\<lambda>(path, b, sha). EDict (file_entry inp path sha b)) hs))] @
        sealed @
        (if mi_app_version inp \<noteq> [] then [(''app_version'', EStr (mi_app_version inp))] else []) @
        (if mi_previous_audit_anchor_hash inp \<noteq> []
         then [(''previous_audit_anchor_hash'', EStr (mi_previous_audit_anchor_hash inp))] else [])) = Inr m"
    using finish_manifest_defined [OF items] by blast
  then show ?thesis
    unfolding build_evidence_manifest_def hs bind_result_simps sealed(1) by simp
qed

lemma recovery_files_distinct: "distinct_keys v \<Longrightarrow> distinct_keys (recovery_files rc v)"
proof -
  assume v: "distinct_keys v"
  show ?thesis
  proof (cases v)
    case (JList entries)
    have "distinct_keys (JDict (recovery_entry rc items))" if "distinct_keys (JDict items)" for items
      unfolding recovery_entry_def using that by (intro distinct_keys_update) simp_all
    with v JList show ?thesis
      by (auto simp: recovery_files_def list_all_iff simp del: distinct_keys.simps(2) split: json.split)
  qed (use v in \<open>simp_all add: recovery_files_def\<close>)
qed

lemma safe_with_item:
  "(present \<Longrightarrow> safe v) \<Longrightarrow> \<forall>(k, v) \<in> set items. safe v \<Longrightarrow> \<forall>(k, v) \<in> set (with_item present key v items). safe v"
proof -
  have "\<forall>(k, v) \<in> set (AList.update key v items). safe v" if "safe v" "\<forall>(k, v) \<in> set items. safe v"
    using that by (induction items) auto
  then show "(present \<Longrightarrow> safe v) \<Longrightarrow> \<forall>(k, v) \<in> set items. safe v \<Longrightarrow> ?thesis"
    by (simp add: with_item_def)
qed

definition recovery_safe :: "recovery_inputs \<Rightarrow> bool" where
  "recovery_safe rc = ((\<forall>v \<in> set [rc_export_id rc, rc_export_type rc, rc_workspace_id rc, rc_generated_at rc,
     rc_generated_by_user_id rc, rc_incident_id rc, rc_storage_backend rc]. safe v) \<and>
     (\<forall>v. rc_completeness_score rc = Some v \<longrightarrow> safe v) \<and> (\<forall>(k, v) \<in> set (rc_evidence_window rc). safe v))"

lemma recovery_manifest_defined:
  assumes fv: "\<forall>(p, v) \<in> set fv. safe v" "distinct (map fst fv)" "[] \<notin> fst ` set fv"
    and len: "\<And>b. length (H b) = 32" and rc: "recovery_safe rc"
  shows "\<exists>m fb. build_recovery_manifest H rc fv = Inr (m, fb)"
proof -
  let ?inp = "recovery_base rc (map fst fv)"
  have "inputs_safe ?inp"
    using rc by (auto simp: inputs_safe_def recovery_safe_def recovery_base_def intro!: safe_EDict)
  then obtain base fb where base: "build_evidence_manifest H ?inp fv = Inr (base, fb)"
    using build_manifest_defined [where H = H, OF fv len] by blast
  obtain js where b: "''manifest_sha256'' \<notin> fst ` set js"
      "base = js @ [(''manifest_sha256'', JStr (sha256_hex H (manifest_bytes js)))]" "distinct_keys (JDict js)"
    by (rule build_manifest_Inr [OF base])
  have body: "filter (\<lambda>(k, v). k \<noteq> ''manifest_sha256'') base = js"
    unfolding b(2) using b(1) by (force intro: filter_True)
  define items where "items = map (\<lambda>(k, v). (k, of_json (if k = ''files'' then recovery_files rc v else v))) js"
  have "\<forall>(k, v) \<in> set items. safe v"
    using b(3) by (auto simp: items_def list_all_iff intro!: safe_of_json recovery_files_distinct)
  then have "\<forall>(k, v) \<in> set (recovery_fields rc items). safe v"
    using rc unfolding recovery_fields_def
    by (intro safe_with_item) (auto simp: recovery_safe_def intro!: safe_EList safe_EDict)
  then obtain m where "finish_manifest H ''<recovery-manifest>'' (recovery_fields rc items) = Inr m"
    using finish_manifest_defined by blast
  then show ?thesis
    by (simp add: build_recovery_manifest_def base body items_def Let_def)
qed

section \<open>Properties\<close>

text \<open>
  A bundle verifies under its own seal: when a manifest can be built over the files of a
  package and sealed, verifying the same files against that manifest and seal with the sealing
  secret reports no error, whatever the deployment's keys, and with the Merkle fields or not.
\<close>

theorem sealed_bundle_verifies:
  assumes "distinct (map fst fv)" and "build_evidence_manifest H inp fv = Inr (m, fb)"
    and "require_signing_secret env aws b64 = Inr (secret, genuine)"
    and "seal_manifest env aws b64 hmac ed_sign m = Inr sl"
  shows "verify_bundle H hmac get_secret fv m sl (Some secret) = Inr []"
proof -
  obtain hs sealed js where b: "hash_files H (sort_items fv) = Inr hs"
      "map_of js ''files'' = Some (JList (map (JDict \<circ> file_json inp) hs))"
      "''manifest_sha256'' \<notin> fst ` set js"
      "m = js @ [(''manifest_sha256'', JStr (sha256_hex H (manifest_bytes js)))]"
    by (rule build_manifest_Inr [OF assms(2)])
  show ?thesis
    by (rule manifest_verifies [where g = "file_json inp", OF b(1) assms(1) b(2) entries_for_file_json [of inp] b(3,4)])
      (rule seal_signs [OF assms(3,4)])
qed

lemma unconfigured_signing:
  "require_signing_secret Map.empty aws b64 = Inr (dev_fallback_secret, False)"
  "signing_key_id Map.empty aws b64 = Inr ''env-default''"
  "signing_key_version Map.empty aws b64 = Inr ''dev-fallback''"
proof -
  have env: "managed_key_provider Map.empty = ''env''" "legacy_environment_keys_allowed Map.empty = Inr True"
      "is_production_like Map.empty = False" by code_simp+
  have names: "py_upper (py_strip ''EVIDENCE_SIGNING'') = ''EVIDENCE_SIGNING''" by code_simp
  have "\<exists>msg. load_managed_key Map.empty aws b64 ''EVIDENCE_SIGNING'' None = Inl (KeyRuntimeError msg)"
    by (simp add: load_managed_key_def load_env_key_def Let_def env names legacy_names_def getenv_def)
  then obtain msg where load: "load_managed_key Map.empty aws b64 ''EVIDENCE_SIGNING'' None = Inl (KeyRuntimeError msg)"
    by blast
  show "require_signing_secret Map.empty aws b64 = Inr (dev_fallback_secret, False)"
    by (simp add: require_signing_secret_def get_signing_secret_def load env Let_def)
  have "py_strip ''env-default'' = ''env-default''" by code_simp
  then show "signing_key_id Map.empty aws b64 = Inr ''env-default''"
    by (simp add: signing_key_id_def load getenv_def)
  show "signing_key_version Map.empty aws b64 = Inr ''dev-fallback''"
    by (simp add: signing_key_version_def load)
qed

lemma unconfigured_seal: "\<exists>sl. seal_manifest Map.empty aws b64 hmac ed_sign m = Inr sl"
  by (simp add: seal_manifest_def unconfigured_signing Let_def)

definition sample_inputs :: manifest_inputs where
  "sample_inputs = \<lparr>mi_export_id = EStr ''e1'', mi_export_type = EStr ''incident'', mi_workspace_id = EStr ''w1'',
     mi_generated_at = EStr ''t'', mi_generated_by_user_id = ENone, mi_source_resource_type = ENone,
     mi_source_resource_id = ENone, mi_storage_backend = EStr ''s3'', mi_previous_audit_anchor_hash = [],
     mi_app_version = [], mi_seal_merkle = False, mi_policy_snapshot = None, mi_required_artifacts = [],
     mi_file_provenance = []\<rparr>"

text \<open>A digest of the right length.\<close>

definition pad32 :: hash_fun where
  "pad32 b = take 32 (b @ replicate 32 0)"

lemma length_pad32: "length (pad32 b) = 32"
  by (simp add: pad32_def)

lemma sample_build:
  "\<exists>m fb. build_evidence_manifest pad32 (sample_inputs\<lparr>mi_seal_merkle := sealed\<rparr>) [(''a'', EInt 1)] = Inr (m, fb)"
  by (rule build_manifest_defined) (simp_all add: length_pad32 inputs_safe_def sample_inputs_def)

theorem sealed_bundle_verifies_witness:
  "\<exists>m fb secret genuine sl. build_evidence_manifest pad32 (sample_inputs\<lparr>mi_seal_merkle := True\<rparr>) [(''a'', EInt 1)] = Inr (m, fb) \<and>
     require_signing_secret Map.empty (\<lambda>i v. Inl (KeyClientError [])) (\<lambda>_. None) = Inr (secret, genuine) \<and>
     seal_manifest Map.empty (\<lambda>i v. Inl (KeyClientError [])) (\<lambda>_. None) (\<lambda>k b. k @ b) (\<lambda>_. None) m = Inr sl \<and>
     verify_bundle pad32 (\<lambda>k b. k @ b) (\<lambda>_. Inr None) [(''a'', EInt 1)] m sl (Some secret) = Inr []"
proof -
  obtain m fb where m: "build_evidence_manifest pad32 (sample_inputs\<lparr>mi_seal_merkle := True\<rparr>) [(''a'', EInt 1)] = Inr (m, fb)"
    using sample_build by blast
  let ?aws = "\<lambda>i v. Inl (KeyClientError [])" and ?b64 = "\<lambda>_. None"
  obtain sl where sl: "seal_manifest Map.empty ?aws ?b64 (\<lambda>k b. k @ b) (\<lambda>_. None) m = Inr sl"
    using unconfigured_seal by blast
  have "distinct (map fst [(''a'', EInt 1)])" by simp
  from sealed_bundle_verifies [OF this m unconfigured_signing(1) sl] m sl show ?thesis
    using unconfigured_signing(1) by blast
qed

text \<open>
  C11. A seal binds the manifest and every byte of the package. When two packages verify against
  the same seal with the same secret, their manifests are equal up to the order of keys and each
  path holds the same canonical bytes in both or is in neither; otherwise the two packages
  exhibit two manifests with one HMAC, or two files with one digest.
\<close>

theorem seal_binds_package:
  assumes "json_ok (JDict m)" and "json_ok (JDict m')"
    and "verify_bundle H hmac get_secret fv m sl (Some k) = Inr []"
    and "verify_bundle H hmac get_secret fv' m' sl (Some k) = Inr []"
  shows "collision (hmac k) [manifest_bytes m] [manifest_bytes m'] \<or>
    collision H (file_bytes fv) (file_bytes fv') \<or>
    canon (JDict m) = canon (JDict m') \<and> bundle_bytes fv = bundle_bytes fv'"
proof -
  obtain es where es: "listed_files m = Inr es" "check_files H fv es = Inr []"
      "\<forall>p \<in> fst ` set fv. JStr p \<in> set (listed_paths es)" "bytes_hex (hmac k (manifest_bytes m)) = sl_signature sl"
    using assms(3) unfolding verify_bundle_ok by blast
  obtain es' where es': "listed_files m' = Inr es'" "check_files H fv' es' = Inr []"
      "\<forall>p \<in> fst ` set fv'. JStr p \<in> set (listed_paths es')" "bytes_hex (hmac k (manifest_bytes m')) = sl_signature sl"
    using assms(4) unfolding verify_bundle_ok by blast
  have mac: "hmac k (manifest_bytes m) = hmac k (manifest_bytes m')"
    using es(4) es'(4) by (metis bytes_hex_inj)
  show ?thesis
  proof (cases "canon (JDict m) = canon (JDict m')")
    case False
    then have "manifest_bytes m \<noteq> manifest_bytes m'"
      using canonical_bytes_eq [OF assms(1,2)] by (simp add: manifest_bytes_def)
    with mac show ?thesis by (simp add: collision_def)
  next
    case True
    note thither = bundle_path_bound [OF assms(1,2) True es(1-3) es'(1-3)]
    note hither = bundle_path_bound [OF assms(2,1) True [symmetric] es'(1-3) es(1-3)]
    have "bundle_bytes fv p = bundle_bytes fv' p" if none: "\<not> collision H (file_bytes fv) (file_bytes fv')" for p
    proof (cases "bundle_bytes fv p")
      case None
      then show ?thesis using hither [of p] by (cases "bundle_bytes fv' p") auto
    next
      case (Some b)
      with thither obtain b' where "bundle_bytes fv' p = Some b'" "H b = H b'" by blast
      with Some none show ?thesis using collisionI [of b _ b'] bundle_bytes_listed by metis
    qed
    then show ?thesis using True by blast
  qed
qed

definition sample_manifest :: "(string \<times> json) list" where
  "sample_manifest = [(''files'', JList []), (''manifest_sha256'', JStr (bytes_hex [1]))]"

theorem seal_binds_package_witness:
  "\<exists>sl. verify_bundle (\<lambda>_. [1]) (\<lambda>k b. k @ b) (\<lambda>_. Inr None) [] sample_manifest sl (Some [7]) = Inr [] \<and>
     verify_bundle (\<lambda>_. [1]) (\<lambda>k b. k @ b) (\<lambda>_. Inr None) [] (rev sample_manifest) sl (Some [7]) = Inr [] \<and>
     canon (JDict sample_manifest) = canon (JDict (rev sample_manifest))"
proof -
  define sl where "sl = \<lparr>sl_signature_algorithm = [], sl_key_id = [], sl_key_version = [],
      sl_key_provider = [], sl_signed_manifest_sha256 = [],
      sl_signature = bytes_hex ([7] @ manifest_bytes sample_manifest), sl_signed_at = [], sl_warning = [],
      sl_schema_version = None, sl_signatures = []\<rparr>"
  have ok: "json_ok (JDict sample_manifest)" "json_ok (JDict (rev sample_manifest))" by code_simp+
  have "canon (JDict (rev sample_manifest)) = canon (JDict sample_manifest)" by code_simp
  then have bytes: "manifest_bytes (rev sample_manifest) = manifest_bytes sample_manifest"
    using canonical_bytes_eq [OF ok(2,1)] by (simp add: manifest_bytes_def)
  have first: "verify_bundle (\<lambda>_. [1]) (\<lambda>k b. k @ b) (\<lambda>_. Inr None) [] sample_manifest sl (Some [7]) = Inr []"
    and second: "verify_bundle (\<lambda>_. [1]) (\<lambda>k b. k @ b) (\<lambda>_. Inr None) [] (rev sample_manifest) sl (Some [7]) = Inr []"
    unfolding verify_bundle_ok sl_def append_Cons append_Nil bytes [symmetric]
    by (simp_all add: sample_manifest_def listed_files_def item_or_def listed_paths_def sha256_hex_def)
  have "\<not> collision ((\<lambda>k b. k @ b) [7]) [manifest_bytes sample_manifest] [manifest_bytes (rev sample_manifest)]"
    by (simp add: collision_def)
  moreover have "\<not> collision (\<lambda>_. [1]) (file_bytes []) (file_bytes [])"
    by (simp add: collision_def file_bytes_def)
  ultimately have "canon (JDict sample_manifest) = canon (JDict (rev sample_manifest))"
    using seal_binds_package [OF ok first second] by blast
  with first second show ?thesis by blast
qed

text \<open>
  A recovered manifest is as good as an original one: the manifest rebuilt for a package
  from its stored files, once sealed, verifies against those files with the sealing secret.
\<close>

theorem recovered_bundle_verifies:
  assumes "distinct (map fst fv)" and "build_recovery_manifest H rc fv = Inr (m, fb)"
    and "require_signing_secret env aws b64 = Inr (secret, genuine)"
    and "seal_manifest env aws b64 hmac ed_sign m = Inr sl"
  shows "verify_bundle H hmac get_secret fv m sl (Some secret) = Inr []"
proof -
  obtain hs js g where b: "hash_files H (sort_items fv) = Inr hs" "entries_for g"
      "map_of js ''files'' = Some (JList (map (JDict \<circ> g) hs))" "''manifest_sha256'' \<notin> fst ` set js"
      "m = js @ [(''manifest_sha256'', JStr (sha256_hex H (manifest_bytes js)))]"
    by (rule recovery_manifest_Inr [OF assms(2)])
  show ?thesis
    by (rule manifest_verifies [where g = g, OF b(1) assms(1) b(3,2,4,5)]) (rule seal_signs [OF assms(3,4)])
qed

definition sample_recovery :: recovery_inputs where
  "sample_recovery = \<lparr>rc_export_id = EStr ''e1'', rc_export_type = EStr ''proof'', rc_workspace_id = EUuid ''w1'',
     rc_generated_at = EStr ''t'', rc_generated_by_user_id = ENone, rc_incident_id = EStr ''i1'',
     rc_storage_backend = EStr ''s3'', rc_package_number = ''EV-1'', rc_file_source_types = [(''a'', ''alert'')],
     rc_completeness_score = None, rc_missing_evidence_codes = [''m''], rc_unverifiable_evidence_codes = [],
     rc_evidence_window = [], rc_app_version = []\<rparr>"

theorem recovered_bundle_verifies_witness:
  "\<exists>m fb sl. build_recovery_manifest pad32 sample_recovery [(''a'', EInt 1)] = Inr (m, fb) \<and>
     seal_manifest Map.empty (\<lambda>i v. Inl (KeyClientError [])) (\<lambda>_. None) (\<lambda>k b. k @ b) (\<lambda>_. None) m = Inr sl \<and>
     verify_bundle pad32 (\<lambda>k b. k @ b) (\<lambda>_. Inr None) [(''a'', EInt 1)] m sl (Some dev_fallback_secret) = Inr []"
proof -
  have "\<exists>m fb. build_recovery_manifest pad32 sample_recovery [(''a'', EInt 1)] = Inr (m, fb)"
    by (rule recovery_manifest_defined) (simp_all add: length_pad32 recovery_safe_def sample_recovery_def)
  then obtain m fb where m: "build_recovery_manifest pad32 sample_recovery [(''a'', EInt 1)] = Inr (m, fb)" by blast
  let ?aws = "\<lambda>i v. Inl (KeyClientError [])" and ?b64 = "\<lambda>_. None"
  obtain sl where sl: "seal_manifest Map.empty ?aws ?b64 (\<lambda>k b. k @ b) (\<lambda>_. None) m = Inr sl"
    using unconfigured_seal by blast
  have "distinct (map fst [(''a'', EInt 1)])" by simp
  from recovered_bundle_verifies [OF this m unconfigured_signing(1) sl] m sl show ?thesis by blast
qed

text \<open>
  C16. A production deployment that started only ever signs with a genuine key: once the check
  at startup has passed in production or staging, the signing secret is a configured one, flagged
  as such, it is no weak one up to case and surrounding whitespace, and never the fallback.
\<close>

theorem started_production_signs_genuinely:
  assumes "is_production_like env" and "validate_signing_secret_at_startup env aws b64 = Inr ()"
  shows "\<exists>secret. require_signing_secret env aws b64 = Inr (secret, True) \<and> secret \<noteq> dev_fallback_secret \<and>
    bytes_lower (bytes_strip secret) \<notin> set known_weak_signing_secrets"
proof -
  have weak: "bytes_lower (bytes_strip dev_fallback_secret) \<in> set known_weak_signing_secrets"
  proof -
    have "bytes_strip dev_fallback_secret = dev_fallback_secret"
      by (simp add: bytes_strip_def dev_fallback_secret_def utf8_def utf8_char_def)
    then show ?thesis by (simp add: known_weak_signing_secrets_def)
  qed
  obtain st where st: "signing_key_status env aws b64 = Inr st" "ks_configured st" "ks_strong st"
    using assms by (auto simp: validate_signing_secret_at_startup_def bind_result_Inr split: if_splits)
  then obtain mode where mode: "managed_key_enforcement_mode env = Inr mode"
      "\<not> (managed_key_provider env = ''env'' \<and> mode = ''strict'')"
    using assms(1) by (auto simp: signing_key_status_def Let_def bind_result_Inr split: if_splits)
  with st assms(1) obtain secret where s: "get_signing_secret env aws b64 None = Inr (Some secret)"
      "bytes_lower (bytes_strip secret) \<notin> set known_weak_signing_secrets"
    by (cases "get_signing_secret env aws b64 None"; cases "projr (get_signing_secret env aws b64 None)")
      (auto simp: signing_key_status_def Let_def bind_result_Inr)
  with weak have "secret \<noteq> dev_fallback_secret" by metis
  with s mode assms(1) show ?thesis by (auto simp: require_signing_secret_def Let_def)
qed

definition production_env :: environ where
  "production_env = map_of [(''APP_ENV'', ''production''), (''EXPORT_SIGNING_SECRET'', ''k3y'')]"

theorem started_production_signs_genuinely_witness:
  "\<exists>secret. require_signing_secret production_env (\<lambda>i v. Inl (KeyClientError [])) (\<lambda>_. None) = Inr (secret, True) \<and>
     secret \<noteq> dev_fallback_secret"
proof -
  let ?aws = "\<lambda>i v. Inl (KeyClientError [])" and ?b64 = "\<lambda>_. None"
  have env: "is_production_like production_env" "managed_key_provider production_env = ''env''"
      "managed_key_enforcement_mode production_env = Inr ''compatibility''"
      "legacy_environment_keys_allowed production_env = Inr True" by code_simp+
  have names: "py_upper (py_strip ''EVIDENCE_SIGNING'') = ''EVIDENCE_SIGNING''"
      "purpose_env_prefix ''EVIDENCE_SIGNING'' = ''EVIDENCE_SIGNING''" "py_upper ''EVIDENCE_SIGNING'' = ''EVIDENCE_SIGNING''"
      "py_strip ''k3y'' = ''k3y''" "py_strip ''env-default'' = ''env-default''"
      "py_lower (py_strip ''utf8'') = ''utf8''" by code_simp+
  have vals: "getenv production_env ''EXPORT_SIGNING_SECRET'' [] = ''k3y''"
      "getenv production_env ''EVIDENCE_SIGNING_KEY_ENCODING'' ''utf8'' = ''utf8''"
      "getenv production_env ''EVIDENCE_SIGNING_KEY_ID'' t = t"
      "getenv production_env ''EXPORT_SIGNING_KEY_ID'' t = t" for t
    by (simp_all add: getenv_def production_env_def)
  obtain k where k: "load_managed_key production_env ?aws ?b64 ''EVIDENCE_SIGNING'' None = Inr k"
      "mk_material k = utf8 ''k3y''"
    by (simp add: load_managed_key_def load_env_key_def Let_def env names legacy_names_def env_key_def
      vals decode_secret_value_def del: utf8_def)
  have short: "length (bytes_lower (bytes_strip (utf8 ''k3y''))) = 3" by code_simp
  have "length (bytes_lower dev_fallback_secret) \<noteq> 3"
    by (simp add: bytes_lower_def dev_fallback_secret_def utf8_def utf8_char_def)
  with short have "bytes_lower (bytes_strip (utf8 ''k3y'')) \<noteq> bytes_lower dev_fallback_secret" by metis
  moreover have "bytes_lower (bytes_strip (utf8 ''k3y'')) \<notin> utf8 ` set [''changeme'', ''local'', ''test'', ''secret'',
      ''password'', ''proofpass123!'', ''pdl_whsec_local'', ''replace-with-long-random-secret'']"
    using short by (auto simp: utf8_def utf8_char_def)
  ultimately have "bytes_lower (bytes_strip (utf8 ''k3y'')) \<notin> set known_weak_signing_secrets"
    by (auto simp: known_weak_signing_secrets_def)
  with k env have "validate_signing_secret_at_startup production_env ?aws ?b64 = Inr ()"
    by (simp add: validate_signing_secret_at_startup_def signing_key_status_def get_signing_secret_def
      signing_key_id_def signing_key_version_def Let_def)
  from started_production_signs_genuinely [OF env(1) this] show ?thesis by blast
qed

text \<open>
  The two modules do not agree on what a production deployment is: with \<open>APP_MODE=prod\<close> the key
  provider runs in production mode while the signer does not, and without a key it signs with
  the development secret that is in the source.
\<close>

lemma prod_mode_signs_with_dev_secret:
  "production_like (map_of [(''APP_MODE'', ''prod'')])"
  "require_signing_secret (map_of [(''APP_MODE'', ''prod'')]) (\<lambda>i v. Inl (KeyClientError [])) (\<lambda>_. None) =
     Inr (dev_fallback_secret, False)"
  by code_simp+

text \<open>
  C21. A sealed manifest commits to the artifact set it was built from: its \<open>merkle_root\<close> is the
  Merkle root of the paths of the written files with the digests of the very bytes written, and
  the manifest lists exactly these paths.
\<close>

theorem sealed_root_commits_files:
  assumes "build_evidence_manifest H inp fv = Inr (m, fb)" and "mi_seal_merkle inp"
  shows "(\<exists>root. compute_merkle_root H (map (\<lambda>(p, b). (p, sha256_hex H b)) fb) = Inr root \<and>
      map_of m ''merkle_root'' = Some (case root of Some r \<Rightarrow> JStr r | None \<Rightarrow> JNull)) \<and>
    (\<exists>es. listed_files m = Inr es \<and> listed_paths es = map (JStr \<circ> fst) fb)"
proof -
  obtain hs sealed js where b: "hash_files H (sort_items fv) = Inr hs"
      "fb = map (\<lambda>(path, b, sha). (path, b)) hs"
      "(if mi_seal_merkle inp then merkle_fields H inp hs else Inr []) = Inr sealed"
      "map_of js ''files'' = Some (JList (map (JDict \<circ> file_json inp) hs))"
      "\<And>v. mi_seal_merkle inp \<Longrightarrow> map_of sealed ''merkle_root'' = Some (of_json v) \<Longrightarrow> distinct_keys v \<Longrightarrow>
        map_of js ''merkle_root'' = Some v"
      "m = js @ [(''manifest_sha256'', JStr (sha256_hex H (manifest_bytes js)))]"
    by (rule build_manifest_Inr [OF assms(1)]) blast
  have "sha = sha256_hex H b" if "(p, b, sha) \<in> set hs" for p b sha
    using hash_files_props [OF b(1)] that by (fastforce simp: file_sha256_def bind_result_Inr)
  then have entries: "map (\<lambda>(p, b). (p, sha256_hex H b)) fb = map (\<lambda>(path, b, sha). (path, sha)) hs"
    unfolding b(2) by auto
  obtain tree where tree: "build_merkle_tree H (map (\<lambda>(path, b, sha). (path, sha)) hs) = Inr tree"
      "map_of sealed ''merkle_root'' = Some (case mt_root tree of Some r \<Rightarrow> EStr r | None \<Rightarrow> ENone)"
    using b(3) assms(2) by (auto simp: merkle_fields_def split: sum.splits)
  let ?v = "case mt_root tree of Some r \<Rightarrow> JStr r | None \<Rightarrow> JNull"
  have "map_of js ''merkle_root'' = Some ?v"
    using tree(2) by (intro b(5) assms(2)) (simp_all split: option.splits)
  then have "map_of m ''merkle_root'' = Some ?v" by (simp add: b(6) map_add_def)
  moreover have "compute_merkle_root H (map (\<lambda>(p, b). (p, sha256_hex H b)) fb) = Inr (mt_root tree)"
    using tree(1) unfolding entries by (simp add: compute_merkle_root_def)
  ultimately have root: "\<exists>root. compute_merkle_root H (map (\<lambda>(p, b). (p, sha256_hex H b)) fb) = Inr root \<and>
      map_of m ''merkle_root'' = Some (case root of Some r \<Rightarrow> JStr r | None \<Rightarrow> JNull)" by blast
  have "listed_files m = Inr (map (JDict \<circ> file_json inp) hs)"
    using b(4) by (simp add: listed_files_def item_or_def b(6) map_add_def)
  then have "\<exists>es. listed_files m = Inr es \<and> listed_paths es = map (JStr \<circ> fst) fb"
    by (simp add: listed_paths_files [OF entries_for_file_json] b(2) split_beta)
  with root show ?thesis by blast
qed

theorem sealed_root_commits_files_witness:
  "\<exists>m fb. build_evidence_manifest pad32 (sample_inputs\<lparr>mi_seal_merkle := True\<rparr>) [(''a'', EInt 1)] = Inr (m, fb) \<and>
     (\<exists>root. map_of m ''merkle_root'' = Some (case root of Some r \<Rightarrow> JStr r | None \<Rightarrow> JNull))"
proof -
  obtain m fb where
    m: "build_evidence_manifest pad32 (sample_inputs\<lparr>mi_seal_merkle := True\<rparr>) [(''a'', EInt 1)] = Inr (m, fb)"
    using sample_build by blast
  with sealed_root_commits_files [OF this] show ?thesis by auto
qed

end
