(* ===== verification/Audit_Chain.thy ===== *)
theory Audit_Chain
  imports Evidence_Signing
begin

text \<open>
  The hash-chained audit log: the row hash, the verifier and the retention exception of
  \<open>services/api/app/evidence_signing.py\<close>, and the insert of \<open>log_audit\<close> in
  \<open>services/api/app/pilot.py\<close>.

  A row is a record of its columns as \<open>str()\<close> gives them; \<open>None\<close> is SQL's NULL. The column
  \<open>created_at\<close> is the instant the queries order by together with its \<open>isoformat()\<close> text, empty
  for NULL. The metadata is the JSON document the column holds. The table is the list of rows in
  the order they were inserted. A statement that fails aborts its transaction, so that no row is
  written. Metadata are JSON documents; \<open>J\<close> is the document the column gives back for the one that
  was stored, and \<open>ae_unhashable\<close> says that hashing the event raises.
\<close>

section \<open>Rows and their hash\<close>

record audit_row =
  ar_id :: string
  ar_workspace_id :: "string option"
  ar_user_id :: "string option"
  ar_action :: string
  ar_entity_type :: string
  ar_entity_id :: string
  ar_created_at :: "int \<times> string"
  ar_metadata :: json
  ar_row_hash :: "string option"
  ar_previous_row_hash :: "string option"

text \<open>A text or None as JSON; \<open>str(x or '') or None\<close>.\<close>

definition text_json :: "string option \<Rightarrow> json" where
  "text_json t = (case t of None \<Rightarrow> JNull | Some s \<Rightarrow> JStr s)"

definition or_none :: "string option \<Rightarrow> string option" where
  "or_none t = (if t = Some [] then None else t)"

definition audit_payload ::
  "string \<Rightarrow> string option \<Rightarrow> string option \<Rightarrow> string \<Rightarrow> string \<Rightarrow> string \<Rightarrow> string \<Rightarrow> string
     \<Rightarrow> string option \<Rightarrow> (string \<times> json) list" where
  "audit_payload row_id workspace_id user_id action entity_type entity_id created_at_iso metadata_sha256 previous =
     [(''id'', JStr row_id), (''workspace_id'', text_json workspace_id), (''user_id'', text_json user_id),
      (''action'', JStr action), (''entity_type'', JStr entity_type), (''entity_id'', JStr entity_id),
      (''created_at'', JStr created_at_iso), (''metadata_sha256'', JStr metadata_sha256),
      (''previous_row_hash'', text_json previous)]"

definition compute_audit_row_hash ::
  "hash_fun \<Rightarrow> string \<Rightarrow> string option \<Rightarrow> string option \<Rightarrow> string \<Rightarrow> string \<Rightarrow> string \<Rightarrow> string \<Rightarrow> string
     \<Rightarrow> string option \<Rightarrow> string" where
  "compute_audit_row_hash H row_id workspace_id user_id action entity_type entity_id created_at_iso metadata_sha256 previous =
     sha256_hex H (manifest_bytes
       (audit_payload row_id workspace_id user_id action entity_type entity_id created_at_iso metadata_sha256 previous))"

section \<open>Verification of a chain\<close>

text \<open>The truth value of a stored document, and \<open>metadata or {}\<close>.\<close>

fun json_truthy :: "json \<Rightarrow> bool" where
  "json_truthy JNull = False"
| "json_truthy (JBool b) = b"
| "json_truthy (JInt i) = (i \<noteq> 0)"
| "json_truthy (JFloat r) = (r \<noteq> ''0.0'' \<and> r \<noteq> ''-0.0'')"
| "json_truthy (JStr s) = (s \<noteq> [])"
| "json_truthy (JList xs) = (xs \<noteq> [])"
| "json_truthy (JDict items) = (items \<noteq> [])"

definition row_metadata :: "audit_row \<Rightarrow> json" where
  "row_metadata r = (if json_truthy (ar_metadata r) then ar_metadata r else JDict [])"

definition metadata_bytes :: "audit_row \<Rightarrow> bytes" where
  "metadata_bytes r = utf8 (json_dumps (row_metadata r))"

text \<open>Python's \<open>value == True\<close>: the numbers one are equal to it.\<close>

definition equals_true :: "json \<Rightarrow> bool" where
  "equals_true j = (j \<in> {JBool True, JInt 1, JFloat ''1.0''})"

definition is_retention_anonymized :: "audit_row \<Rightarrow> bool" where
  "is_retention_anonymized r = (or_none (ar_user_id r) = None \<and>
     (case ar_metadata r of
        JDict [(k, v)] \<Rightarrow> k = ''_retention_anonymized'' \<and> equals_true v
      | _ \<Rightarrow> False))"

datatype chain_error =
    ChainBreak nat string "string option" "string option"
  | RowHashMismatch nat string

definition row_payload :: "hash_fun \<Rightarrow> audit_row \<Rightarrow> (string \<times> json) list" where
  "row_payload H r = audit_payload (ar_id r) (or_none (ar_workspace_id r)) (or_none (ar_user_id r))
     (ar_action r) (ar_entity_type r) (ar_entity_id r) (snd (ar_created_at r))
     (sha256_hex H (metadata_bytes r)) (or_none (ar_previous_row_hash r))"

definition computed_row_hash :: "hash_fun \<Rightarrow> audit_row \<Rightarrow> string" where
  "computed_row_hash H r = compute_audit_row_hash H (ar_id r) (or_none (ar_workspace_id r))
     (or_none (ar_user_id r)) (ar_action r) (ar_entity_type r) (ar_entity_id r) (snd (ar_created_at r))
     (sha256_hex H (metadata_bytes r)) (or_none (ar_previous_row_hash r))"

text \<open>The errors of one row, and the hash its successor must name.\<close>

definition row_errors :: "hash_fun \<Rightarrow> nat \<Rightarrow> string option \<Rightarrow> audit_row \<Rightarrow> chain_error list" where
  "row_errors H i previous r =
     (if ar_previous_row_hash r \<noteq> previous then [ChainBreak i (ar_id r) previous (ar_previous_row_hash r)] else []) @
     (case or_none (ar_row_hash r) of
        None \<Rightarrow> []
      | Some stored \<Rightarrow>
          if \<not> is_retention_anonymized r \<and> computed_row_hash H r \<noteq> stored
          then [RowHashMismatch i (ar_id r)] else [])"

definition next_previous :: "string option \<Rightarrow> audit_row \<Rightarrow> string option" where
  "next_previous previous r =
     (case or_none (ar_row_hash r) of
        Some stored \<Rightarrow> Some stored
      | None \<Rightarrow> (case or_none (ar_previous_row_hash r) of Some p \<Rightarrow> Some p | None \<Rightarrow> previous))"

definition counts_anonymized :: "audit_row \<Rightarrow> bool" where
  "counts_anonymized r = (or_none (ar_row_hash r) \<noteq> None \<and> is_retention_anonymized r)"

fun chain_errors :: "hash_fun \<Rightarrow> nat \<Rightarrow> string option \<Rightarrow> audit_row list \<Rightarrow> chain_error list" where
  "chain_errors H i previous [] = []"
| "chain_errors H i previous (r # rows) =
     row_errors H i previous r @ chain_errors H (Suc i) (next_previous previous r) rows"

record chain_report =
  cr_valid :: bool
  cr_errors :: "chain_error list"
  cr_chain_length :: nat
  cr_anonymized_rows :: nat
  cr_fully_verifiable :: bool

definition verify_audit_chain :: "hash_fun \<Rightarrow> audit_row list \<Rightarrow> string option \<Rightarrow> chain_report" where
  "verify_audit_chain H rows initial =
     (let errors = chain_errors H 0 initial rows;
          anonymized = length (filter counts_anonymized rows)
      in \<lparr>cr_valid = (errors = []), cr_errors = errors, cr_chain_length = length rows,
          cr_anonymized_rows = anonymized, cr_fully_verifiable = (errors = [] \<and> anonymized = 0)\<rparr>)"

section \<open>Writing a row\<close>

text \<open>\<open>ORDER BY created_at DESC, id DESC LIMIT 1\<close> over the hashed rows of the workspace.\<close>

definition newer :: "audit_row \<Rightarrow> audit_row \<Rightarrow> bool" where
  "newer r q = (fst (ar_created_at q) < fst (ar_created_at r) \<or>
     fst (ar_created_at q) = fst (ar_created_at r) \<and> ar_id q < ar_id r)"

fun newest :: "audit_row list \<Rightarrow> audit_row option" where
  "newest [] = None"
| "newest (r # rows) = (case newest rows of None \<Rightarrow> Some r | Some q \<Rightarrow> Some (if newer r q then r else q))"

definition chain_tip :: "audit_row list \<Rightarrow> string option \<Rightarrow> string option" where
  "chain_tip table workspace_id =
     (case newest (filter (\<lambda>r. ar_workspace_id r = or_none workspace_id \<and> ar_row_hash r \<noteq> None) table) of
        None \<Rightarrow> None
      | Some r \<Rightarrow> or_none (ar_row_hash r))"

text \<open>\<open>if value and not metadata.get(key): metadata = {**metadata, key: value}\<close>.\<close>

definition with_default :: "string \<Rightarrow> string option \<Rightarrow> (string \<times> json) list \<Rightarrow> (string \<times> json) list" where
  "with_default key t metadata =
     (case or_none t of
        Some s \<Rightarrow> if json_truthy (item_or metadata key JNull) then metadata
                   else AList.update key (JStr s) metadata
      | None \<Rightarrow> metadata)"

record audit_event =
  ae_action :: string
  ae_entity_type :: string
  ae_entity_id :: string
  ae_user_id :: "string option"
  ae_workspace_id :: "string option"
  ae_metadata :: "(string \<times> json) list"
  ae_request_id :: "string option"
  ae_ip_address :: "string option"
  ae_unhashable :: bool

definition stamped_metadata :: "audit_event \<Rightarrow> (string \<times> json) list" where
  "stamped_metadata ev = with_default ''source_ip'' (ae_ip_address ev)
     (with_default ''request_id'' (ae_request_id ev) (ae_metadata ev))"

text \<open>The row of an event, given the id drawn, the clock and the chain tip that was read.\<close>

definition audit_insert_row ::
  "hash_fun \<Rightarrow> (json \<Rightarrow> json) \<Rightarrow> audit_event \<Rightarrow> string \<Rightarrow> int \<times> string \<Rightarrow> string option \<Rightarrow> audit_row" where
  "audit_insert_row H J ev row_id now previous =
     (let metadata = stamped_metadata ev;
          row_hash = compute_audit_row_hash H row_id (ae_workspace_id ev) (ae_user_id ev) (ae_action ev)
            (ae_entity_type ev) (ae_entity_id ev) (snd now)
            (sha256_hex H (manifest_bytes metadata)) previous
      in \<lparr>ar_id = row_id, ar_workspace_id = ae_workspace_id ev, ar_user_id = ae_user_id ev,
          ar_action = ae_action ev, ar_entity_type = ae_entity_type ev, ar_entity_id = ae_entity_id ev,
          ar_created_at = now, ar_metadata = J (JDict metadata),
          ar_row_hash = (if ae_unhashable ev then None else Some row_hash),
          ar_previous_row_hash = previous\<rparr>)"

definition log_audit ::
  "hash_fun \<Rightarrow> (json \<Rightarrow> json) \<Rightarrow> audit_row list \<Rightarrow> audit_event \<Rightarrow> string \<Rightarrow> int \<times> string \<Rightarrow> audit_row list" where
  "log_audit H J table ev row_id now =
     table @ [audit_insert_row H J ev row_id now (chain_tip table (ae_workspace_id ev))]"

text \<open>The retention sweep, \<open>ANONYMIZE_SQL['audit_logs']\<close> of \<open>data_retention.py\<close>.\<close>

definition anonymize_row :: "audit_row \<Rightarrow> audit_row" where
  "anonymize_row r = r\<lparr>ar_user_id := None, ar_metadata := JDict [(''_retention_anonymized'', JBool True)]\<rparr>"

definition anonymize_audit_logs :: "string \<Rightarrow> int \<Rightarrow> audit_row list \<Rightarrow> audit_row list" where
  "anonymize_audit_logs workspace_id cutoff table =
     map (\<lambda>r. if ar_workspace_id r = Some workspace_id \<and> fst (ar_created_at r) < cutoff
              then anonymize_row r else r) table"

section \<open>Lemmas\<close>

lemma computed_row_hash_payload: "computed_row_hash H r = sha256_hex H (manifest_bytes (row_payload H r))"
  by (simp add: computed_row_hash_def compute_audit_row_hash_def row_payload_def)

lemma payload_distinct: "distinct (map fst (row_payload H r))"
  by (simp add: row_payload_def audit_payload_def)

lemma payload_ok: "json_ok (JDict (row_payload H r))"
  by (simp add: row_payload_def audit_payload_def text_json_def split: option.split)

lemma canon_text_json [simp]: "canon (text_json t) = text_json t"
  by (simp add: text_json_def split: option.split)

lemma text_json_inj [simp]: "text_json t = text_json u \<longleftrightarrow> t = u"
  by (simp add: text_json_def split: option.split)

text \<open>The content a row hash covers, the metadata by its digest; two rows with one payload agree on it.\<close>

definition row_content ::
  "audit_row \<Rightarrow> string \<times> string option \<times> string option \<times> string \<times> string \<times> string \<times> string \<times> string option" where
  "row_content r = (ar_id r, or_none (ar_workspace_id r), or_none (ar_user_id r), ar_action r,
     ar_entity_type r, ar_entity_id r, snd (ar_created_at r), or_none (ar_previous_row_hash r))"

lemma payload_lookup:
  "map_of (row_payload H r) ''id'' = Some (JStr (ar_id r))"
  "map_of (row_payload H r) ''workspace_id'' = Some (text_json (or_none (ar_workspace_id r)))"
  "map_of (row_payload H r) ''user_id'' = Some (text_json (or_none (ar_user_id r)))"
  "map_of (row_payload H r) ''action'' = Some (JStr (ar_action r))"
  "map_of (row_payload H r) ''entity_type'' = Some (JStr (ar_entity_type r))"
  "map_of (row_payload H r) ''entity_id'' = Some (JStr (ar_entity_id r))"
  "map_of (row_payload H r) ''created_at'' = Some (JStr (snd (ar_created_at r)))"
  "map_of (row_payload H r) ''metadata_sha256'' = Some (JStr (sha256_hex H (metadata_bytes r)))"
  "map_of (row_payload H r) ''previous_row_hash'' = Some (text_json (or_none (ar_previous_row_hash r)))"
  by (simp_all add: row_payload_def audit_payload_def)

lemma payload_content:
  assumes "canon (JDict (row_payload H r)) = canon (JDict (row_payload H q))"
  shows "row_content r = row_content q" and "H (metadata_bytes r) = H (metadata_bytes q)"
proof -
  note same = canon_items [OF payload_distinct payload_distinct assms]
  note fields = same [of "''id''"] same [of "''workspace_id''"] same [of "''user_id''"] same [of "''action''"]
    same [of "''entity_type''"] same [of "''entity_id''"] same [of "''created_at''"]
    same [of "''metadata_sha256''"] same [of "''previous_row_hash''"]
  then show "row_content r = row_content q"
    unfolding payload_lookup by (simp add: row_content_def)
  show "H (metadata_bytes r) = H (metadata_bytes q)"
    using fields(8) unfolding payload_lookup by (simp add: sha256_hex_def bytes_hex_inj)
qed

text \<open>Everything a verified row hash binds.\<close>

definition row_inputs :: "hash_fun \<Rightarrow> audit_row \<Rightarrow> bytes list" where
  "row_inputs H r = [manifest_bytes (row_payload H r), metadata_bytes r]"

definition chain_inputs :: "hash_fun \<Rightarrow> audit_row list \<Rightarrow> bytes list" where
  "chain_inputs H rows = concat (map (row_inputs H) rows)"

definition same_row :: "audit_row \<Rightarrow> audit_row \<Rightarrow> bool" where
  "same_row r q = (row_content r = row_content q \<and> canon (row_metadata r) = canon (row_metadata q))"

lemma row_hash_binds:
  assumes "computed_row_hash H r = computed_row_hash H q"
    and "json_ok (ar_metadata r)" "json_ok (ar_metadata q)"
  shows "same_row r q \<or> collision H (row_inputs H r) (row_inputs H q)"
proof (cases "canon (JDict (row_payload H r)) = canon (JDict (row_payload H q))")
  case False
  then have "manifest_bytes (row_payload H r) \<noteq> manifest_bytes (row_payload H q)"
    using canonical_bytes_eq [OF payload_ok payload_ok] by (simp add: manifest_bytes_def)
  moreover have "H (manifest_bytes (row_payload H r)) = H (manifest_bytes (row_payload H q))"
    using assms(1) by (simp add: computed_row_hash_payload sha256_hex_def bytes_hex_inj)
  ultimately show ?thesis by (simp add: collision_def row_inputs_def)
next
  case True
  have "json_ok (row_metadata r)" "json_ok (row_metadata q)"
    using assms(2,3) by (simp_all add: row_metadata_def)
  then have "canon (row_metadata r) = canon (row_metadata q) \<or> metadata_bytes r \<noteq> metadata_bytes q"
    using canonical_bytes_eq by (auto simp: metadata_bytes_def)
  then show ?thesis using payload_content [OF True] by (auto simp: same_row_def collision_def row_inputs_def)
qed

section \<open>Chains without unhashed or anonymized rows\<close>

definition plain_row :: "audit_row \<Rightarrow> bool" where
  "plain_row r = (or_none (ar_row_hash r) \<noteq> None \<and> \<not> is_retention_anonymized r)"

text \<open>What the verifier expects next after a chain.\<close>

definition chain_end :: "string option \<Rightarrow> audit_row list \<Rightarrow> string option" where
  "chain_end previous rows = foldl next_previous previous rows"

lemma chain_errors_append:
  "chain_errors H i previous (xs @ ys) =
     chain_errors H i previous xs @ chain_errors H (i + length xs) (chain_end previous xs) ys"
  by (induction xs arbitrary: i previous) (auto simp: chain_end_def)

lemma chain_end_snoc [simp]: "chain_end previous (rows @ [r]) = next_previous (chain_end previous rows) r"
  by (simp add: chain_end_def)

lemma chain_end_Nil [simp]: "chain_end previous [] = previous"
  by (simp add: chain_end_def)

lemma or_none_simps [simp]: "or_none None = None" "or_none (Some s) = (if s = [] then None else Some s)"
  by (simp_all add: or_none_def)

lemma verify_audit_chain_simps:
  "cr_valid (verify_audit_chain H rows p) \<longleftrightarrow> chain_errors H 0 p rows = []"
  "cr_anonymized_rows (verify_audit_chain H rows p) = length (filter counts_anonymized rows)"
  "cr_fully_verifiable (verify_audit_chain H rows p) \<longleftrightarrow>
     chain_errors H 0 p rows = [] \<and> filter counts_anonymized rows = []"
  by (simp_all add: verify_audit_chain_def Let_def)

lemma collision_appendI: "collision H xs ys \<or> collision H xs' ys' \<Longrightarrow> collision H (xs @ xs') (ys @ ys')"
  by (auto elim: collision_mono)

lemma or_none_Some: "or_none t = Some s \<longleftrightarrow> t = Some s \<and> s \<noteq> []"
  by (auto simp: or_none_def)

lemma plain_row_end:
  "or_none (ar_row_hash r) \<noteq> None \<Longrightarrow> next_previous previous r = ar_row_hash r \<and> ar_row_hash r \<noteq> None \<and> ar_row_hash r \<noteq> Some []"
  by (auto simp: next_previous_def or_none_Some)

lemma plain_row_errors:
  assumes "plain_row r"
  shows "row_errors H i previous r = [] \<longleftrightarrow> ar_previous_row_hash r = previous \<and> ar_row_hash r = Some (computed_row_hash H r)"
  using assms by (auto simp: plain_row_def row_errors_def or_none_Some split: if_splits)

lemma chain_end_hashed:
  assumes "\<forall>r \<in> set rows. plain_row r" and "rows \<noteq> []"
  shows "chain_end previous rows = ar_row_hash (last rows) \<and> chain_end previous rows \<noteq> None \<and>
    or_none (chain_end previous rows) = chain_end previous rows"
  using assms
proof (induction rows rule: rev_induct)
  case (snoc r rows)
  then have "or_none (ar_row_hash r) \<noteq> None" by (simp add: plain_row_def)
  from plain_row_end [OF this] show ?case by (simp add: or_none_def)
qed simp

lemma chain_inputs_snoc: "chain_inputs H (rows @ [r]) = chain_inputs H rows @ row_inputs H r"
  by (simp add: chain_inputs_def)

lemma chain_binds:
  assumes "chain_errors H 0 None xs = []" "chain_errors H 0 None ys = []"
    and "\<forall>r \<in> set xs. plain_row r \<and> json_ok (ar_metadata r)" "\<forall>r \<in> set ys. plain_row r \<and> json_ok (ar_metadata r)"
    and "chain_end None xs = chain_end None ys"
  shows "list_all2 same_row xs ys \<or> collision H (chain_inputs H xs) (chain_inputs H ys)"
  using assms
proof (induction xs arbitrary: ys rule: rev_induct)
  case Nil
  then have "ys = []" using chain_end_hashed [of ys None] by force
  then show ?case by simp
next
  case (snoc r xs)
  have "ys \<noteq> []" using snoc.prems(3,5) chain_end_hashed [of "xs @ [r]" None] by force
  then obtain zs q where ys: "ys = zs @ [q]" by (metis rev_exhaust)
  have r: "plain_row r" "ar_previous_row_hash r = chain_end None xs" "ar_row_hash r = Some (computed_row_hash H r)"
    using snoc.prems(1,3) by (auto simp: chain_errors_append plain_row_errors)
  have q: "plain_row q" "ar_previous_row_hash q = chain_end None zs" "ar_row_hash q = Some (computed_row_hash H q)"
    using snoc.prems(2,4) by (auto simp: ys chain_errors_append plain_row_errors)
  have "ar_row_hash r = ar_row_hash q"
    using snoc.prems(5) r(1) q(1) by (simp add: ys plain_row_def plain_row_end)
  then have "same_row r q \<or> collision H (row_inputs H r) (row_inputs H q)"
    using r(3) q(3) snoc.prems(3,4) by (intro row_hash_binds) (simp_all add: ys)
  then show ?case
  proof
    assume "collision H (row_inputs H r) (row_inputs H q)"
    then show ?thesis by (simp add: ys chain_inputs_snoc collision_appendI)
  next
    assume same: "same_row r q"
    then have "or_none (chain_end None xs) = or_none (chain_end None zs)"
      using r(2) q(2) by (simp add: same_row_def row_content_def)
    moreover have "or_none (chain_end None us) = chain_end None us" if "\<forall>u \<in> set us. plain_row u" for us
      using chain_end_hashed [OF that, of None] by (cases "us = []") (simp, metis)
    ultimately have "chain_end None xs = chain_end None zs" using snoc.prems(3,4) by (simp add: ys)
    then have "list_all2 same_row xs zs \<or> collision H (chain_inputs H xs) (chain_inputs H zs)"
      using snoc.prems by (intro snoc.IH) (simp_all add: ys chain_errors_append)
    then show ?thesis
    proof
      assume "list_all2 same_row xs zs"
      with same show ?thesis by (simp add: ys list_all2_appendI)
    next
      assume "collision H (chain_inputs H xs) (chain_inputs H zs)"
      then show ?thesis by (simp add: ys chain_inputs_snoc collision_appendI)
    qed
  qed
qed

section \<open>Properties\<close>

text \<open>
  C12. The last hash of an audit log binds the whole log. When two logs of hashed rows that were
  not anonymized both verify from the beginning and end in the same row hash, they have the same
  length and agree row by row on every column the hash covers and on the metadata, up to the
  order of its keys; otherwise they exhibit two different inputs with one SHA-256 digest.
\<close>

theorem audit_chain_binds:
  assumes "cr_valid (verify_audit_chain H xs None)" and "cr_valid (verify_audit_chain H ys None)"
    and "\<forall>r \<in> set xs. plain_row r \<and> json_ok (ar_metadata r)"
    and "\<forall>r \<in> set ys. plain_row r \<and> json_ok (ar_metadata r)"
    and "xs \<noteq> []" "ys \<noteq> []" "ar_row_hash (last xs) = ar_row_hash (last ys)"
  shows "list_all2 same_row xs ys \<or> collision H (chain_inputs H xs) (chain_inputs H ys)"
proof -
  have "chain_end None xs = chain_end None ys"
    using assms(3-7) chain_end_hashed [of xs None] chain_end_hashed [of ys None] by simp
  with assms(1-4) show ?thesis by (intro chain_binds) (simp_all add: verify_audit_chain_simps)
qed

text \<open>The retention sweep and the verifier.\<close>

fun is_break :: "chain_error \<Rightarrow> bool" where
  "is_break (ChainBreak i r p q) = True"
| "is_break (RowHashMismatch i r) = False"

lemma anonymize_row_simps [simp]:
  "is_retention_anonymized (anonymize_row r)" "ar_row_hash (anonymize_row r) = ar_row_hash r"
  "ar_previous_row_hash (anonymize_row r) = ar_previous_row_hash r" "ar_id (anonymize_row r) = ar_id r"
  by (simp_all add: anonymize_row_def is_retention_anonymized_def equals_true_def)

lemma next_previous_anonymize [simp]: "next_previous p (anonymize_row r) = next_previous p r"
  by (simp add: next_previous_def split: option.split)

lemma row_errors_anonymize:
  "set (row_errors H i p (anonymize_row r)) \<subseteq> set (row_errors H i p r)"
  "filter is_break (row_errors H i p (anonymize_row r)) = filter is_break (row_errors H i p r)"
  by (auto simp: row_errors_def split: option.splits)

lemma chain_errors_anonymize:
  "set (chain_errors H i p (map (\<lambda>r. if P r then anonymize_row r else r) rows)) \<subseteq> set (chain_errors H i p rows)"
  "filter is_break (chain_errors H i p (map (\<lambda>r. if P r then anonymize_row r else r) rows)) =
     filter is_break (chain_errors H i p rows)"
proof (induction rows arbitrary: i p)
  case (Cons r rows)
  {
    case 1
    show ?case using row_errors_anonymize(1) [of H i p r] Cons(1) by (cases "P r") (simp_all, blast+)
  next
    case 2
    show ?case using row_errors_anonymize(2) [of H i p r] Cons(2) by (cases "P r") simp_all
  }
qed simp_all

text \<open>
  C15. The retention sweep never makes an intact audit log look tampered with, and hides no
  broken link: a log that verifies still verifies after rows of it were anonymized, the chain
  breaks reported of any log are the same before and after, and the sweep is visible, since a
  log holding a hashed row that was swept is no longer reported as fully verifiable.
\<close>

theorem retention_keeps_chain:
  assumes "r \<in> set rows" and "ar_workspace_id r = Some w" and "fst (ar_created_at r) < cutoff"
    and "or_none (ar_row_hash r) \<noteq> None"
  shows "cr_valid (verify_audit_chain H rows p) \<longrightarrow> cr_valid (verify_audit_chain H (anonymize_audit_logs w cutoff rows) p) \<and>
    filter is_break (cr_errors (verify_audit_chain H (anonymize_audit_logs w cutoff rows) p)) =
      filter is_break (cr_errors (verify_audit_chain H rows p)) \<and>
    \<not> cr_fully_verifiable (verify_audit_chain H (anonymize_audit_logs w cutoff rows) p)"
proof -
  let ?swept = "anonymize_audit_logs w cutoff rows"
  have "anonymize_row r \<in> set ?swept" using assms(1-3) by (force simp: anonymize_audit_logs_def)
  moreover have "counts_anonymized (anonymize_row r)" using assms(4) by (simp add: counts_anonymized_def)
  ultimately have "filter counts_anonymized ?swept \<noteq> []" by (auto simp: filter_empty_conv)
  then have "\<not> cr_fully_verifiable (verify_audit_chain H ?swept p)" by (simp add: verify_audit_chain_simps)
  moreover have "set (chain_errors H 0 p ?swept) \<subseteq> set (chain_errors H 0 p rows)"
    and "filter is_break (chain_errors H 0 p ?swept) = filter is_break (chain_errors H 0 p rows)"
    unfolding anonymize_audit_logs_def by (rule chain_errors_anonymize)+
  ultimately show ?thesis by (auto simp: verify_audit_chain_def Let_def)
qed

text \<open>
  A log written by the service one insert after the other. \<open>event_ok\<close>: the identifiers are not empty
  texts, and the column gives the metadata back with the bytes that were hashed.
\<close>

definition workspace_log :: "string option \<Rightarrow> audit_row list \<Rightarrow> audit_row list" where
  "workspace_log w table = filter (\<lambda>r. ar_workspace_id r = w) table"

definition event_ok :: "(json \<Rightarrow> json) \<Rightarrow> audit_event \<Rightarrow> bool" where
  "event_ok J ev = (or_none (ae_user_id ev) = ae_user_id ev \<and> or_none (ae_workspace_id ev) = ae_workspace_id ev \<and>
     (case J (JDict (stamped_metadata ev)) of
        JDict d \<Rightarrow> json_dumps (JDict d) = json_dumps (JDict (stamped_metadata ev)) | _ \<Rightarrow> False))"

definition write_log :: "hash_fun \<Rightarrow> (json \<Rightarrow> json) \<Rightarrow> (audit_event \<times> string \<times> int \<times> string) list \<Rightarrow> audit_row list" where
  "write_log H J events = foldl (\<lambda>table (ev, row_id, now). log_audit H J table ev row_id now) [] events"

definition log_sound :: "hash_fun \<Rightarrow> string option \<Rightarrow> audit_row list \<Rightarrow> bool" where
  "log_sound H w table = (let rows = workspace_log w table in
     sorted_wrt (\<lambda>r q. fst (ar_created_at r) < fst (ar_created_at q)) rows \<and>
     chain_errors H 0 None rows = [] \<and> (\<forall>r \<in> set rows. ar_row_hash r \<noteq> Some []))"

lemma newest_last:
  "rows \<noteq> [] \<Longrightarrow> sorted_wrt (\<lambda>r q. fst (ar_created_at r) < fst (ar_created_at q)) rows \<Longrightarrow> newest rows = Some (last rows)"
proof (induction rows)
  case (Cons r rows)
  show ?case
  proof (cases "rows = []")
    case False
    with Cons have "fst (ar_created_at r) < fst (ar_created_at (last rows))" by simp
    then have "\<not> newer r (last rows)" by (auto simp: newer_def)
    with Cons False show ?thesis by simp
  qed simp
qed simp

lemma insert_row_simps [simp]:
  "ar_workspace_id (audit_insert_row H J ev i now p) = ae_workspace_id ev"
  "ar_created_at (audit_insert_row H J ev i now p) = now"
  "ar_previous_row_hash (audit_insert_row H J ev i now p) = p"
  by (simp_all add: audit_insert_row_def Let_def)

lemma insert_row_hash:
  assumes "event_ok J ev" and "or_none p = p" and "\<not> ae_unhashable ev"
  shows "ar_row_hash (audit_insert_row H J ev i now p) = Some (computed_row_hash H (audit_insert_row H J ev i now p))"
proof -
  obtain d where d: "J (JDict (stamped_metadata ev)) = JDict d" "json_dumps (JDict d) = json_dumps (JDict (stamped_metadata ev))"
    using assms(1) by (auto simp: event_ok_def split: json.splits)
  let ?r = "audit_insert_row H J ev i now p"
  have "ar_metadata ?r = JDict d" by (simp add: audit_insert_row_def Let_def d(1))
  then have "row_metadata ?r = JDict d" by (simp add: row_metadata_def)
  then have "metadata_bytes ?r = manifest_bytes (stamped_metadata ev)"
    by (simp only: metadata_bytes_def manifest_bytes_def d(2))
  then show ?thesis
    using assms by (simp add: audit_insert_row_def Let_def computed_row_hash_def event_ok_def)
qed

text \<open>Where a chain verifies, an unhashed row passes on the hash it names.\<close>

definition last_hash :: "audit_row list \<Rightarrow> string option" where
  "last_hash rows = (if filter (\<lambda>r. ar_row_hash r \<noteq> None) rows = [] then None
     else ar_row_hash (last (filter (\<lambda>r. ar_row_hash r \<noteq> None) rows)))"

lemma chain_end_hashes:
  assumes "chain_errors H 0 None rows = []" and "\<forall>r \<in> set rows. ar_row_hash r \<noteq> Some []"
  shows "chain_end None rows = last_hash rows \<and> last_hash rows \<noteq> Some []"
  using assms
proof (induction rows rule: rev_induct)
  case Nil
  show ?case by (simp add: last_hash_def)
next
  case (snoc r rows)
  have IH: "chain_end None rows = last_hash rows" "last_hash rows \<noteq> Some []"
    using snoc.IH snoc.prems by (simp_all add: chain_errors_append)
  have prev: "ar_previous_row_hash r = last_hash rows"
    using snoc.prems(1) IH(1) by (simp add: chain_errors_append row_errors_def split: if_split_asm)
  show ?case
  proof (cases "ar_row_hash r")
    case None
    then have "next_previous (last_hash rows) r = last_hash rows"
      using IH(2) by (cases "last_hash rows") (simp_all add: next_previous_def prev)
    moreover have "last_hash (rows @ [r]) = last_hash rows" using None by (simp add: last_hash_def)
    ultimately show ?thesis using IH by simp
  next
    case (Some h)
    then have "h \<noteq> []" using snoc.prems(2) by auto
    moreover have "last_hash (rows @ [r]) = Some h" using Some by (simp add: last_hash_def)
    ultimately show ?thesis using Some by (simp add: next_previous_def)
  qed
qed

lemma chain_tip_end:
  assumes "log_sound H w table" and "or_none w = w"
  shows "chain_tip table w = chain_end None (workspace_log w table)" and "or_none (chain_tip table w) = chain_tip table w"
proof -
  let ?rows = "workspace_log w table"
  let ?hashed = "filter (\<lambda>r. ar_row_hash r \<noteq> None) ?rows"
  have sound: "sorted_wrt (\<lambda>r q. fst (ar_created_at r) < fst (ar_created_at q)) ?rows" "chain_errors H 0 None ?rows = []"
    "\<forall>r \<in> set ?rows. ar_row_hash r \<noteq> Some []" using assms(1) by (simp_all add: log_sound_def Let_def)
  note chain_end = chain_end_hashes [OF sound(2,3)]
  have "filter (\<lambda>r. ar_workspace_id r = or_none w \<and> ar_row_hash r \<noteq> None) table = ?hashed"
    unfolding workspace_log_def assms(2) filter_filter by (rule filter_cong) auto
  then have tip: "chain_tip table w = (case newest ?hashed of None \<Rightarrow> None | Some r \<Rightarrow> or_none (ar_row_hash r))"
    by (simp only: chain_tip_def)
  show same: "chain_tip table w = chain_end None ?rows"
  proof (cases "?hashed = []")
    case True
    then show ?thesis using chain_end tip by (simp add: last_hash_def)
  next
    case False
    then have new: "newest ?hashed = Some (last ?hashed)"
      using sound(1) by (intro newest_last sorted_wrt_filter)
    have "last ?hashed \<in> set ?rows" using last_in_set [OF False] by simp
    then have "or_none (ar_row_hash (last ?hashed)) = ar_row_hash (last ?hashed)"
      using sound(3) by (simp add: or_none_def)
    with new tip chain_end False show ?thesis by (simp only: option.case last_hash_def if_False)
  qed
  show "or_none (chain_tip table w) = chain_tip table w" using chain_end unfolding same or_none_def by metis
qed

lemma log_audit_sound:
  assumes len: "\<And>b. H b \<noteq> []" and sound: "log_sound H w table" "or_none w = w" and ev: "event_ok J ev"
    and later: "\<forall>r \<in> set table. fst (ar_created_at r) < fst now"
  shows "log_sound H w (log_audit H J table ev i now)"
proof (cases "ae_workspace_id ev = w")
  case False
  then show ?thesis using sound by (simp add: log_sound_def workspace_log_def log_audit_def)
next
  case True
  let ?p = "chain_tip table w" and ?r = "audit_insert_row H J ev i now (chain_tip table w)"
  note tip = chain_tip_end [OF sound]
  have log: "workspace_log w (log_audit H J table ev i now) = workspace_log w table @ [?r]"
    using True by (simp add: workspace_log_def log_audit_def)
  have some: "computed_row_hash H ?r \<noteq> []"
    using len [of "manifest_bytes (row_payload H ?r)"] bytes_hex_inj [of _ "[]"]
    by (simp add: computed_row_hash_payload sha256_hex_def) (simp add: bytes_hex_def)
  have hash: "ar_row_hash ?r = None \<or> ar_row_hash ?r = Some (computed_row_hash H ?r)"
    using insert_row_hash [OF ev tip(2)] by (cases "ae_unhashable ev") (simp_all add: audit_insert_row_def Let_def)
  then have "row_errors H n (chain_end None (workspace_log w table)) ?r = []" for n
    using tip by (auto simp: row_errors_def)
  moreover have "ar_row_hash ?r \<noteq> Some []" using hash some by auto
  ultimately show ?thesis
    using sound later unfolding log_sound_def log Let_def
    by (auto simp: chain_errors_append sorted_wrt_append workspace_log_def)
qed

lemma write_log_sound:
  assumes "\<And>b. H b \<noteq> []" and "or_none w = w" and "\<forall>(ev, i, now) \<in> set events. event_ok J ev"
    and "sorted_wrt (\<lambda>(ev, i, now) (ev', i', now'). fst now < fst now') events"
  shows "log_sound H w (write_log H J events)"
    and "map (\<lambda>r. (ar_workspace_id r, ar_created_at r)) (write_log H J events) = map (\<lambda>(ev, i, now). (ae_workspace_id ev, now)) events"
proof -
  have "log_sound H w (write_log H J events) \<and>
      map (\<lambda>r. (ar_workspace_id r, ar_created_at r)) (write_log H J events) = map (\<lambda>(ev, i, now). (ae_workspace_id ev, now)) events"
    using assms(3,4)
  proof (induction events rule: rev_induct)
    case Nil
    show ?case by (simp add: write_log_def log_sound_def workspace_log_def)
  next
    case (snoc e events)
    obtain ev i now where e: "e = (ev, i, now)" by (cases e) auto
    have written: "write_log H J (events @ [e]) = log_audit H J (write_log H J events) ev i now"
      by (simp add: write_log_def e)
    have before: "log_sound H w (write_log H J events)"
        and rows: "map (\<lambda>r. (ar_workspace_id r, ar_created_at r)) (write_log H J events) = map (\<lambda>(ev, i, now). (ae_workspace_id ev, now)) events"
      using snoc by (simp_all add: sorted_wrt_append)
    have "ar_created_at r \<in> (\<lambda>(ev, i, now). now) ` set events" if "r \<in> set (write_log H J events)" for r
    proof -
      have "(ar_workspace_id r, ar_created_at r) \<in> set (map (\<lambda>(ev, i, now). (ae_workspace_id ev, now)) events)"
        using that unfolding rows [symmetric] by simp
      then show ?thesis by force
    qed
    then have "\<forall>r \<in> set (write_log H J events). fst (ar_created_at r) < fst now"
      using snoc.prems(2) by (fastforce simp: sorted_wrt_append e)
    then have "log_sound H w (log_audit H J (write_log H J events) ev i now)"
      using snoc.prems(1) by (intro log_audit_sound [OF assms(1) before assms(2)]) (simp_all add: e)
    then show ?case unfolding written using rows by (simp add: log_audit_def e)
  qed
  then show "log_sound H w (write_log H J events)"
    and "map (\<lambda>r. (ar_workspace_id r, ar_created_at r)) (write_log H J events) = map (\<lambda>(ev, i, now). (ae_workspace_id ev, now)) events"
    by blast+
qed

text \<open>
  C13. The log the service writes one insert after the other verifies. When each insert reads the
  rows of all the earlier ones, the clock advances between inserts and the column gives the metadata
  back as they were hashed, the inserts of several workspaces may come in any order and some may fail
  to hash: the rows of every workspace verify from the beginning, none missing and none broken.
\<close>

theorem written_log_verifies:
  assumes "\<And>b. H b \<noteq> []" and "\<forall>(ev, i, now) \<in> set events. event_ok J ev"
    and "sorted_wrt (\<lambda>(ev, i, now) (ev', i', now'). fst now < fst now') events" and "or_none w = w"
  shows "cr_valid (verify_audit_chain H (workspace_log w (write_log H J events)) None) \<and>
    length (workspace_log w (write_log H J events)) = length (filter (\<lambda>e. ae_workspace_id (fst e) = w) events)"
proof -
  note sound = write_log_sound(1) [OF assms(1,4,2,3)] and rows = write_log_sound(2) [OF assms(1,4,2,3)]
  have "length (filter (\<lambda>(w', t). w' = w) (map (\<lambda>r. (ar_workspace_id r, ar_created_at r)) (write_log H J events))) =
      length (filter (\<lambda>(w', t). w' = w) (map (\<lambda>(ev, i, now). (ae_workspace_id ev, now)) events))"
    using rows by simp
  then have "length (workspace_log w (write_log H J events)) = length (filter (\<lambda>e. ae_workspace_id (fst e) = w) events)"
    by (simp add: workspace_log_def filter_map comp_def split_beta)
  with sound show ?thesis by (simp add: log_sound_def Let_def verify_audit_chain_simps)
qed

text \<open>A log of two workspaces; the digest is injective and never empty.\<close>

definition marked :: hash_fun where
  "marked b = 1 # b"

definition sample_event :: audit_event where
  "sample_event = \<lparr>ae_action = ''a'', ae_entity_type = ''t'', ae_entity_id = ''e'', ae_user_id = Some ''u'',
     ae_workspace_id = Some ''w'', ae_metadata = [], ae_request_id = None, ae_ip_address = Some ''i'', ae_unhashable = False\<rparr>"

definition sample_events :: "(audit_event \<times> string \<times> int \<times> string) list" where
  "sample_events = [(sample_event, ''1'', 1, ''T1''), (sample_event\<lparr>ae_workspace_id := None\<rparr>, ''2'', 2, ''T2''),
     (sample_event, ''3'', 3, ''T3'')]"

definition sample_log :: "audit_row list" where
  "sample_log = workspace_log (Some ''w'') (write_log marked id sample_events)"

lemma sample_events_ok:
  "\<forall>(ev, i, now) \<in> set sample_events. event_ok id ev"
  "sorted_wrt (\<lambda>(ev, i, now) (ev', i', now'). fst now < fst now') sample_events"
  "marked b \<noteq> []" "or_none (Some ''w'') = Some ''w''"
  by (simp_all add: sample_events_def sample_event_def event_ok_def stamped_metadata_def with_default_def item_or_def marked_def)

theorem written_log_verifies_witness:
  "cr_valid (verify_audit_chain marked sample_log None) \<and> length sample_log = 2"
  using written_log_verifies [of marked sample_events id "Some ''w''", OF sample_events_ok(3,1,2,4)]
  by (simp add: sample_log_def) (simp add: sample_events_def sample_event_def)

lemma sample_log_valid: "cr_valid (verify_audit_chain marked sample_log None)"
  using write_log_sound(1) [of marked "Some ''w''" sample_events id, OF sample_events_ok(3,4,1,2)]
  by (simp add: log_sound_def Let_def verify_audit_chain_simps sample_log_def)

text \<open>The two rows of the log, the fields that are read off written out.\<close>

lemma sample_rows:
  "\<exists>r q. sample_log = [r, q] \<and> list_all (\<lambda>r. ar_user_id r = Some ''u'' \<and> ar_workspace_id r = Some ''w'' \<and>
     or_none (ar_row_hash r) \<noteq> None \<and> ar_metadata r = JDict [(''source_ip'', JStr ''i'')]) [r, q] \<and>
     fst (ar_created_at r) = 1"
proof -
  have hash: "bytes_hex (marked b) \<noteq> []" for b by (simp add: marked_def bytes_hex_def)
  have user: "ae_user_id sample_event = Some ''u''" "ae_workspace_id sample_event = Some ''w''" by (simp_all add: sample_event_def)
  have meta: "stamped_metadata sample_event = [(''source_ip'', JStr ''i'')]" "\<not> ae_unhashable sample_event"
    by (simp_all add: stamped_metadata_def sample_event_def with_default_def item_or_def)
  have other: "stamped_metadata (sample_event\<lparr>ae_workspace_id := x\<rparr>) = stamped_metadata sample_event" for x
    by (simp add: stamped_metadata_def)
  show ?thesis
    unfolding sample_log_def sample_events_def write_log_def log_audit_def
    by (simp add: workspace_log_def audit_insert_row_def Let_def meta other user compute_audit_row_hash_def sha256_hex_def hash)
qed

theorem retention_keeps_chain_witness:
  "cr_valid (verify_audit_chain marked (anonymize_audit_logs ''w'' 2 sample_log) None) \<and>
   \<not> cr_fully_verifiable (verify_audit_chain marked (anonymize_audit_logs ''w'' 2 sample_log) None)"
proof -
  obtain r q where log: "sample_log = [r, q]" and r: "ar_workspace_id r = Some ''w''" "fst (ar_created_at r) < 2"
      "or_none (ar_row_hash r) \<noteq> None"
    using sample_rows by auto
  have "r \<in> set sample_log" unfolding log by simp
  with r show ?thesis using retention_keeps_chain [of r sample_log "''w''" 2 marked None] sample_log_valid by blast
qed

theorem audit_chain_binds_witness:
  "list_all2 same_row sample_log sample_log"
proof -
  obtain r q where log: "sample_log = [r, q]" and rows: "list_all (\<lambda>r. ar_user_id r = Some ''u'' \<and> ar_workspace_id r = Some ''w'' \<and>
     or_none (ar_row_hash r) \<noteq> None \<and> ar_metadata r = JDict [(''source_ip'', JStr ''i'')]) [r, q]"
    using sample_rows by blast
  have plain: "\<forall>r \<in> set sample_log. plain_row r \<and> json_ok (ar_metadata r)"
    using rows unfolding log by (simp add: plain_row_def is_retention_anonymized_def)
  have "sample_log \<noteq> []" unfolding log by simp
  moreover have "\<not> collision marked xs ys" for xs ys
    by (simp add: collision_def marked_def list_ex_iff)
  ultimately show ?thesis
    using audit_chain_binds [OF sample_log_valid sample_log_valid plain plain] by blast
qed

text \<open>
  Two inserts of a workspace that read the chain before either is written name the same
  predecessor, and the verifier then reports a broken link: nothing serialises the read of the
  tip with the insert.
\<close>

lemma concurrent_inserts_break_chain:
  assumes "ae_workspace_id ev = ae_workspace_id ev'" and "\<not> ae_unhashable ev"
  shows "\<not> cr_valid (verify_audit_chain H [audit_insert_row H J ev i now (chain_tip [] (ae_workspace_id ev)),
    audit_insert_row H J ev' i' now' (chain_tip [] (ae_workspace_id ev'))] None) \<or>
    (\<exists>b. H b = [])"
proof -
  have tip: "chain_tip [] w = None" for w by (simp add: chain_tip_def)
  let ?r = "audit_insert_row H J ev i now None"
  obtain b where "ar_row_hash ?r = Some (bytes_hex (H b))"
    using assms(2) by (auto simp: audit_insert_row_def Let_def compute_audit_row_hash_def sha256_hex_def)
  moreover have "bytes_hex (H b) = [] \<longleftrightarrow> H b = []" using bytes_hex_inj [of "H b" "[]"] by (simp add: bytes_hex_def)
  ultimately show ?thesis by (auto simp: tip verify_audit_chain_simps row_errors_def next_previous_def)
qed

text \<open>
  A row without a hash is accepted whatever it says, at the end of a log as at its beginning,
  and the report still calls the log fully verifiable.
\<close>

lemma unhashed_row_accepted:
  assumes "cr_fully_verifiable (verify_audit_chain H rows p)"
    and "ar_row_hash r = None" and "ar_previous_row_hash r = chain_end p rows"
  shows "cr_fully_verifiable (verify_audit_chain H (rows @ [r]) p)"
  using assms by (simp add: verify_audit_chain_simps chain_errors_append row_errors_def counts_anonymized_def)

end
