(* ===== verification/Asset_Reconciliation.thy ===== *)
theory Asset_Reconciliation
  imports Governance_Config Py_Decimal
begin

text \<open>
  Reconciliation of an asset's on-chain supply with the authoritative record,
  \<open>services/api/app/domains/asset_integrity/reconciliation.py\<close> and the rule settings of
  \<open>config.py\<close>: units, the authorization matcher, severity and the verdict.

  Amounts are Python values read by \<open>to_units\<close>; subtraction, absolute value and division
  run in the default context of 28 digits. A timestamp is a datetime or no instant; the
  process's zone is UTC. The floats of \<open>timestamp()\<close> keep microseconds apart until the
  year 2106, so ages and windows are computed on integers. The limits \<open>Emin\<close>, \<open>Emax\<close> of the
  context are outside the model.
\<close>

section \<open>Vocabulary\<close>

abbreviation RECONCILED :: string where
  "RECONCILED \<equiv> ''RECONCILED''"
abbreviation AUTHORIZED_VARIANCE :: string where
  "AUTHORIZED_VARIANCE \<equiv> ''AUTHORIZED_VARIANCE''"
abbreviation UNEXPLAINED_VARIANCE :: string where
  "UNEXPLAINED_VARIANCE \<equiv> ''UNEXPLAINED_VARIANCE''"
abbreviation STALE_AUTHORITATIVE_DATA :: string where
  "STALE_AUTHORITATIVE_DATA \<equiv> ''STALE_AUTHORITATIVE_DATA''"
abbreviation MISSING_AUTHORITATIVE_DATA :: string where
  "MISSING_AUTHORITATIVE_DATA \<equiv> ''MISSING_AUTHORITATIVE_DATA''"
abbreviation INSUFFICIENT_EVIDENCE :: string where
  "INSUFFICIENT_EVIDENCE \<equiv> ''INSUFFICIENT_EVIDENCE''"
abbreviation SOURCE_UNAVAILABLE :: string where
  "SOURCE_UNAVAILABLE \<equiv> ''SOURCE_UNAVAILABLE''"
abbreviation NOT_APPLICABLE :: string where
  "NOT_APPLICABLE \<equiv> ''NOT_APPLICABLE''"

definition RECONCILIATION_STATUSES :: "string list" where
  [vocab_simps]: "RECONCILIATION_STATUSES =
    [RECONCILED, AUTHORIZED_VARIANCE, UNEXPLAINED_VARIANCE, STALE_AUTHORITATIVE_DATA,
     MISSING_AUTHORITATIVE_DATA, INSUFFICIENT_EVIDENCE, SOURCE_UNAVAILABLE, NOT_APPLICABLE]"

definition ANOMALY_STATUSES :: "string list" where
  [vocab_simps]: "ANOMALY_STATUSES = [UNEXPLAINED_VARIANCE]"

definition INDETERMINATE_STATUSES :: "string list" where
  [vocab_simps]: "INDETERMINATE_STATUSES = [STALE_AUTHORITATIVE_DATA, MISSING_AUTHORITATIVE_DATA,
     INSUFFICIENT_EVIDENCE, SOURCE_UNAVAILABLE, NOT_APPLICABLE]"

abbreviation MATCHED_AUTHORIZED_ISSUANCE :: string where
  "MATCHED_AUTHORIZED_ISSUANCE \<equiv> ''MATCHED_AUTHORIZED_ISSUANCE''"
abbreviation MATCHED_AUTHORIZED_REDEMPTION :: string where
  "MATCHED_AUTHORIZED_REDEMPTION \<equiv> ''MATCHED_AUTHORIZED_REDEMPTION''"
abbreviation NO_MATCHING_AUTHORIZED_ISSUANCE :: string where
  "NO_MATCHING_AUTHORIZED_ISSUANCE \<equiv> ''NO_MATCHING_AUTHORIZED_ISSUANCE''"
abbreviation NO_MATCHING_AUTHORIZED_REDEMPTION :: string where
  "NO_MATCHING_AUTHORIZED_REDEMPTION \<equiv> ''NO_MATCHING_AUTHORIZED_REDEMPTION''"
abbreviation AMOUNT_MISMATCH :: string where
  "AMOUNT_MISMATCH \<equiv> ''AMOUNT_MISMATCH''"
abbreviation SETTLEMENT_NOT_COMPLETE :: string where
  "SETTLEMENT_NOT_COMPLETE \<equiv> ''SETTLEMENT_NOT_COMPLETE''"
abbreviation REFERENCE_MISMATCH :: string where
  "REFERENCE_MISMATCH \<equiv> ''REFERENCE_MISMATCH''"
abbreviation OUTSIDE_AUTHORIZED_WINDOW :: string where
  "OUTSIDE_AUTHORIZED_WINDOW \<equiv> ''OUTSIDE_AUTHORIZED_WINDOW''"
abbreviation AUTHORITATIVE_SOURCE_STALE :: string where
  "AUTHORITATIVE_SOURCE_STALE \<equiv> ''AUTHORITATIVE_SOURCE_STALE''"
abbreviation AUTHORITATIVE_SOURCE_MISSING :: string where
  "AUTHORITATIVE_SOURCE_MISSING \<equiv> ''AUTHORITATIVE_SOURCE_MISSING''"
abbreviation AUTHORITATIVE_SOURCE_UNAVAILABLE :: string where
  "AUTHORITATIVE_SOURCE_UNAVAILABLE \<equiv> ''AUTHORITATIVE_SOURCE_UNAVAILABLE''"
abbreviation ONCHAIN_OBSERVATION_MISSING :: string where
  "ONCHAIN_OBSERVATION_MISSING \<equiv> ''ONCHAIN_OBSERVATION_MISSING''"
abbreviation ONCHAIN_OBSERVATION_STALE :: string where
  "ONCHAIN_OBSERVATION_STALE \<equiv> ''ONCHAIN_OBSERVATION_STALE''"
abbreviation SUPPLY_MATCHES_AUTHORITATIVE_STATE :: string where
  "SUPPLY_MATCHES_AUTHORITATIVE_STATE \<equiv> ''SUPPLY_MATCHES_AUTHORITATIVE_STATE''"
abbreviation SUPPLY_RECONCILIATION_NOT_APPLICABLE :: string where
  "SUPPLY_RECONCILIATION_NOT_APPLICABLE \<equiv> ''SUPPLY_RECONCILIATION_NOT_APPLICABLE''"

abbreviation MATCH :: string where
  "MATCH \<equiv> ''MATCH''"
abbreviation MATCH_NO_MATCH :: string where
  "MATCH_NO_MATCH \<equiv> ''NO_MATCH''"
abbreviation MATCH_INSUFFICIENT_DATA :: string where
  "MATCH_INSUFFICIENT_DATA \<equiv> ''INSUFFICIENT_DATA''"

definition SETTLED_STATES :: "string list" where
  [vocab_simps]: "SETTLED_STATES =
    [''settled'', ''cleared'', ''complete'', ''completed'', ''final'', ''finalized'']"

definition is_settled :: "pyval \<Rightarrow> bool" where
  "is_settled v = (lower_key v \<in> set SETTLED_STATES)"

section \<open>Reading values\<close>

definition to_units :: "pyval \<Rightarrow> fin_dec option" where
  "to_units v = (if v = PNone \<or> v = PStr [] then None
     else case parse_decimal (py_str v) of Some (Finite x) \<Rightarrow> Some x | _ \<Rightarrow> None)"

definition supply_operation :: "string option \<Rightarrow> string option" where
  "supply_operation v = (let key = lower_key (opt_str v) in
     if key \<in> {''mint'', ''burn''} then Some key else None)"

definition norm_reference :: "pyval \<Rightarrow> string" where
  "norm_reference v = upper_key v"

definition epoch :: "pyval \<Rightarrow> int option" where
  "epoch v = (case v of PTime t s \<Rightarrow> Some (utc_micros t) | _ \<Rightarrow> None)"

definition age_seconds :: "pyval \<Rightarrow> pyval \<Rightarrow> int option" where
  "age_seconds observed_at now = (case (epoch observed_at, epoch now) of
       (Some a, Some b) \<Rightarrow> Some (max 0 (b - a) div 1000000)
     | _ \<Rightarrow> None)"

section \<open>Inputs and results\<close>

record onchain_observation =
  oc_total_supply :: pyval
  oc_observed_at :: pyval
  oc_block_number :: "int option"
  oc_tx_hash :: pyval
  oc_last_delta :: pyval
  oc_last_delta_operation :: pyval
  oc_last_delta_at :: pyval
  oc_external_reference :: pyval
  oc_provider_type :: string
  oc_evidence_source :: string
  oc_available :: bool

record authoritative_state =
  au_expected_total_supply :: pyval
  au_observed_at :: pyval
  au_settlement_state :: pyval
  au_source_name :: pyval
  au_external_reference :: pyval
  au_evidence_source :: string
  au_source_status :: pyval

record authorized_issuance =
  ai_id :: "string option"
  ai_operation :: pyval
  ai_amount :: pyval
  ai_settlement_state :: pyval
  ai_external_reference :: pyval
  ai_authorized_at :: pyval
  ai_effective_from :: pyval
  ai_effective_until :: pyval
  ai_source_name :: pyval
  ai_evidence_source :: string

record reconciliation_rules =
  ru_rule_id :: string
  ru_rule_version :: int
  ru_authoritative_stale_seconds :: int
  ru_onchain_stale_seconds :: int
  ru_variance_tolerance_units :: pyval
  ru_match_window_seconds :: int

definition default_rules :: reconciliation_rules where
  "default_rules = \<lparr>ru_rule_id = ''RP-17'', ru_rule_version = 4,
     ru_authoritative_stale_seconds = 3600, ru_onchain_stale_seconds = 3600,
     ru_variance_tolerance_units = PDec (Finite (FinDec False 0 0)), ru_match_window_seconds = 86400\<rparr>"

record rule_config =
  rc_authoritative_stale_seconds :: int
  rc_onchain_stale_seconds :: int
  rc_variance_tolerance_units :: string
  rc_match_window_seconds :: int

definition rule_as_config :: "reconciliation_rules \<Rightarrow> rule_config" where
  "rule_as_config r = \<lparr>rc_authoritative_stale_seconds = ru_authoritative_stale_seconds r,
     rc_onchain_stale_seconds = ru_onchain_stale_seconds r,
     rc_variance_tolerance_units = py_str (ru_variance_tolerance_units r),
     rc_match_window_seconds = ru_match_window_seconds r\<rparr>"

record match_result =
  mr_outcome :: string
  mr_reason_code :: "string option"
  mr_matched :: "authorized_issuance option"
  mr_candidates_considered :: nat
  mr_rejections :: "(string \<times> pyval) list"

record reconciliation_result =
  rr_status :: string
  rr_reason_code :: string
  rr_variance_units :: "fin_dec option"
  rr_observed_supply :: "fin_dec option"
  rr_expected_supply :: "fin_dec option"
  rr_severity :: string
  rr_rule_id :: string
  rr_rule_version :: int
  rr_rule_config :: rule_config
  rr_match :: match_result
  rr_matched_issuance_id :: "string option"
  rr_operation :: "string option"
  rr_onchain_age_seconds :: "int option"
  rr_authoritative_age_seconds :: "int option"
  rr_data_gaps :: "string list"

section \<open>Configuration\<close>

record integrity_settings =
  ic_rule_id :: string
  ic_rule_version :: int
  ic_authoritative_stale_seconds :: int
  ic_onchain_stale_seconds :: int
  ic_variance_tolerance_units :: dec
  ic_match_window_seconds :: int
  ic_on_demand_enabled :: bool
  ic_authorization_lookback_limit :: int
  ic_history_limit :: int

definition env_decimal :: "environ \<Rightarrow> string \<Rightarrow> dec \<Rightarrow> dec" where
  "env_decimal env name dflt =
     (case parse_decimal (py_strip (case env name of Some s \<Rightarrow> s | None \<Rightarrow> dec_str dflt)) of
        Some d \<Rightarrow> d | None \<Rightarrow> dflt)"

definition integrity_config :: "environ \<Rightarrow> integrity_settings" where
  "integrity_config env =
     \<lparr>ic_rule_id = py_strip (case env ''ASSET_RECONCILIATION_RULE_ID'' of
         Some s \<Rightarrow> if s = [] then ''RP-17'' else s | None \<Rightarrow> ''RP-17''),
      ic_rule_version = max 1 (env_int env ''ASSET_RECONCILIATION_RULE_VERSION'' 4),
      ic_authoritative_stale_seconds = max 60 (env_int env ''ASSET_AUTHORITATIVE_STALE_SECONDS'' 3600),
      ic_onchain_stale_seconds = max 60 (env_int env ''ASSET_ONCHAIN_OBSERVATION_STALE_SECONDS'' 3600),
      ic_variance_tolerance_units =
        env_decimal env ''ASSET_RECONCILIATION_VARIANCE_TOLERANCE_UNITS'' (Finite (FinDec False 0 0)),
      ic_match_window_seconds = max 60 (env_int env ''ASSET_RECONCILIATION_MATCH_WINDOW_SECONDS'' 86400),
      ic_on_demand_enabled = env_flag env ''ASSET_RECONCILIATION_ON_DEMAND_ENABLED'' True,
      ic_authorization_lookback_limit = max 1 (env_int env ''ASSET_RECONCILIATION_AUTHORIZATION_LIMIT'' 50),
      ic_history_limit = max 1 (min 200 (env_int env ''ASSET_RECONCILIATION_HISTORY_LIMIT'' 25))\<rparr>"

definition rules_from_config :: "integrity_settings \<Rightarrow> reconciliation_rules" where
  "rules_from_config cfg =
     \<lparr>ru_rule_id = ic_rule_id cfg, ru_rule_version = ic_rule_version cfg,
      ru_authoritative_stale_seconds = ic_authoritative_stale_seconds cfg,
      ru_onchain_stale_seconds = ic_onchain_stale_seconds cfg,
      ru_variance_tolerance_units = PDec (ic_variance_tolerance_units cfg),
      ru_match_window_seconds = ic_match_window_seconds cfg\<rparr>"

section \<open>The matcher\<close>

definition within_window :: "authorized_issuance \<Rightarrow> int \<Rightarrow> int \<Rightarrow> bool" where
  "within_window candidate event_epoch window =
     (let start = epoch (ai_effective_from candidate);
          until = epoch (ai_effective_until candidate)
      in if start \<noteq> None \<or> until \<noteq> None then
           if (case start of Some s \<Rightarrow> event_epoch < s | None \<Rightarrow> False) then False
           else if (case until of Some e \<Rightarrow> event_epoch > e | None \<Rightarrow> False) then False
           else True
         else case epoch (ai_authorized_at candidate) of
                None \<Rightarrow> True
              | Some authorized \<Rightarrow> \<bar>event_epoch - authorized\<bar> \<le> window * 1000000)"

definition rejection_priority :: "string \<Rightarrow> nat" where
  "rejection_priority reason =
     (case map_of [(SETTLEMENT_NOT_COMPLETE, 4), (REFERENCE_MISMATCH, 3),
        (OUTSIDE_AUTHORIZED_WINDOW, 2), (AMOUNT_MISMATCH, 1)] reason of Some n \<Rightarrow> n | None \<Rightarrow> 0)"

text \<open>The checks on one candidate of the right operation: the first one that fails.\<close>

definition reject_candidate ::
  "nat \<Rightarrow> fin_dec \<Rightarrow> string \<Rightarrow> int option \<Rightarrow> int \<Rightarrow> authorized_issuance \<Rightarrow> string option" where
  "reject_candidate p magnitude wanted event_epoch window candidate =
     (case to_units (ai_amount candidate) of
        None \<Rightarrow> Some AMOUNT_MISMATCH
      | Some amount \<Rightarrow>
          if \<not> fd_eq (fd_abs p amount) magnitude then Some AMOUNT_MISMATCH
          else if wanted \<noteq> [] \<and> norm_reference (ai_external_reference candidate) \<noteq> wanted
            then Some REFERENCE_MISMATCH
          else if \<not> is_settled (ai_settlement_state candidate) then Some SETTLEMENT_NOT_COMPLETE
          else case event_epoch of
                 None \<Rightarrow> None
               | Some e \<Rightarrow> if \<not> within_window candidate e window then Some OUTSIDE_AUTHORIZED_WINDOW
                           else None)"

definition better_reason :: "string \<Rightarrow> string option \<Rightarrow> string option" where
  "better_reason reason best = (case best of
       None \<Rightarrow> Some reason
     | Some b \<Rightarrow> if rejection_priority reason > rejection_priority b then Some reason else best)"

fun match_loop ::
  "string \<Rightarrow> (authorized_issuance \<Rightarrow> string option) \<Rightarrow> authorized_issuance list \<Rightarrow> nat
     \<Rightarrow> (string \<times> pyval) list \<Rightarrow> string option \<Rightarrow> match_result" where
  "match_loop op reject [] considered rejections best =
     \<lparr>mr_outcome = MATCH_NO_MATCH,
      mr_reason_code = Some (case best of Some r \<Rightarrow> r
        | None \<Rightarrow> if op = ''mint'' then NO_MATCHING_AUTHORIZED_ISSUANCE
                  else NO_MATCHING_AUTHORIZED_REDEMPTION),
      mr_matched = None, mr_candidates_considered = considered, mr_rejections = rejections\<rparr>"
| "match_loop op reject (candidate # cs) considered rejections best =
     (if lower_key (ai_operation candidate) \<noteq> op then match_loop op reject cs considered rejections best
      else case reject candidate of
             Some reason \<Rightarrow> match_loop op reject cs (considered + 1)
               (rejections @ [(reason, ai_external_reference candidate)]) (better_reason reason best)
           | None \<Rightarrow>
               \<lparr>mr_outcome = MATCH,
                mr_reason_code = Some (if op = ''mint'' then MATCHED_AUTHORIZED_ISSUANCE
                                       else MATCHED_AUTHORIZED_REDEMPTION),
                mr_matched = Some candidate, mr_candidates_considered = considered + 1,
                mr_rejections = rejections\<rparr>)"

definition empty_match :: match_result where
  "empty_match = \<lparr>mr_outcome = MATCH_INSUFFICIENT_DATA, mr_reason_code = None, mr_matched = None,
     mr_candidates_considered = 0, mr_rejections = []\<rparr>"

definition match_authorization ::
  "nat \<Rightarrow> string option \<Rightarrow> fin_dec option \<Rightarrow> pyval \<Rightarrow> pyval \<Rightarrow> authorized_issuance list
     \<Rightarrow> reconciliation_rules \<Rightarrow> match_result" where
  "match_authorization p operation amount event_reference event_at candidates rules =
     (let op = lower_key (opt_str operation) in
      if op \<notin> {''mint'', ''burn''} \<or> amount = None then empty_match
      else match_loop op
             (reject_candidate p (fd_abs p (the amount)) (norm_reference event_reference)
                (epoch event_at) (max 0 (ru_match_window_seconds rules)))
             candidates 0 [] None)"

section \<open>Severity\<close>

definition magnitude_ratio :: "fin_dec option \<Rightarrow> fin_dec option \<Rightarrow> fin_dec option" where
  "magnitude_ratio variance expected = (case (variance, expected) of
       (Some v, Some e) \<Rightarrow>
         if fd_eq e (FinDec False 0 0) then None
         else (case fd_div 28 (fd_abs 28 v) (fd_abs 28 e) of Inl _ \<Rightarrow> None | Inr r \<Rightarrow> Some r)
     | _ \<Rightarrow> None)"

definition variance_severity ::
  "string \<Rightarrow> string \<Rightarrow> fin_dec option \<Rightarrow> fin_dec option \<Rightarrow> string option \<Rightarrow> string" where
  "variance_severity status reason variance expected operation =
     (if status = RECONCILED \<or> status = AUTHORIZED_VARIANCE then ''low''
      else if status = NOT_APPLICABLE then ''low''
      else if status \<in> set INDETERMINATE_STATUSES then ''medium''
      else if status \<noteq> UNEXPLAINED_VARIANCE then ''medium''
      else
        let unauthorized = (lower_key (opt_str operation) = ''mint'' \<or>
              (case variance of None \<Rightarrow> False | Some v \<Rightarrow> fd_less (FinDec False 0 0) v))
        in if unauthorized \<and> reason \<in> {NO_MATCHING_AUTHORIZED_ISSUANCE,
                NO_MATCHING_AUTHORIZED_REDEMPTION, REFERENCE_MISMATCH} then ''critical''
           else if unauthorized then
             (case magnitude_ratio variance expected of
                None \<Rightarrow> ''high''
              | Some r \<Rightarrow> if fd_le (FinDec False 1 (-2)) r then ''critical'' else ''high'')
           else ''high'')"

section \<open>The verdict\<close>

definition mk_result ::
  "reconciliation_rules \<Rightarrow> string list \<Rightarrow> string \<Rightarrow> string \<Rightarrow> fin_dec option \<Rightarrow> fin_dec option
     \<Rightarrow> fin_dec option \<Rightarrow> match_result \<Rightarrow> string option \<Rightarrow> int option \<Rightarrow> int option
     \<Rightarrow> reconciliation_result" where
  "mk_result rules gaps status reason observed expected variance m operation onchain_age auth_age =
     \<lparr>rr_status = status, rr_reason_code = reason, rr_variance_units = variance,
      rr_observed_supply = observed, rr_expected_supply = expected,
      rr_severity = variance_severity status reason variance expected operation,
      rr_rule_id = ru_rule_id rules, rr_rule_version = ru_rule_version rules,
      rr_rule_config = rule_as_config rules, rr_match = m, rr_matched_issuance_id = (case mr_matched m of None \<Rightarrow> None | Some i \<Rightarrow> ai_id i),
      rr_operation = supply_operation operation,
      rr_onchain_age_seconds = onchain_age, rr_authoritative_age_seconds = auth_age,
      rr_data_gaps = gaps\<rparr>"

definition age_exceeds :: "int option \<Rightarrow> int \<Rightarrow> bool" where
  "age_exceeds age threshold = (case age of None \<Rightarrow> False | Some a \<Rightarrow> a > max 0 threshold)"

definition tolerance_of :: "reconciliation_rules \<Rightarrow> fin_dec" where
  "tolerance_of rules = fd_abs 28 (case to_units (ru_variance_tolerance_units rules) of
       Some t \<Rightarrow> if fd_coeff t \<noteq> 0 then t else FinDec False 0 0
     | None \<Rightarrow> FinDec False 0 0)"

text \<open>The operation and amount of the supply change; inferred when no event was captured.\<close>

definition supply_change :: "onchain_observation \<Rightarrow> fin_dec \<Rightarrow> string \<times> fin_dec" where
  "supply_change onchain variance =
     (let key = lower_key (oc_last_delta_operation onchain) in
      case (if key = [] then None else to_units (oc_last_delta onchain)) of
        Some delta \<Rightarrow> (key, delta)
      | None \<Rightarrow> (if fd_less (FinDec False 0 0) variance then ''mint'' else ''burn'', fd_abs 28 variance))"

text \<open>Step 4: both sides are trustworthy and a variance exists.\<close>

definition explain_variance ::
  "onchain_observation \<Rightarrow> authorized_issuance list \<Rightarrow> reconciliation_rules \<Rightarrow> fin_dec \<Rightarrow> fin_dec
     \<Rightarrow> fin_dec \<Rightarrow> int option \<Rightarrow> int option \<Rightarrow> reconciliation_result" where
  "explain_variance onchain authorizations rules observed expected variance oage aage =
     (let (operation, delta) = supply_change onchain variance;
          m = match_authorization 28 (Some operation) (Some delta) (oc_external_reference onchain)
                (if truthy (oc_last_delta_at onchain) then oc_last_delta_at onchain
                 else oc_observed_at onchain)
                authorizations rules
      in if mr_outcome m = MATCH then
           mk_result rules [] AUTHORIZED_VARIANCE
             (case mr_reason_code m of Some r \<Rightarrow> r | None \<Rightarrow> MATCHED_AUTHORIZED_ISSUANCE)
             (Some observed) (Some expected) (Some variance) m (Some operation) oage aage
         else if mr_outcome m = MATCH_INSUFFICIENT_DATA then
           mk_result rules
             [''The observed supply change could not be resolved to a mint or burn operation.'']
             INSUFFICIENT_EVIDENCE ONCHAIN_OBSERVATION_MISSING
             (Some observed) (Some expected) (Some variance) m None oage aage
         else
           mk_result rules [] UNEXPLAINED_VARIANCE
             (case mr_reason_code m of Some r \<Rightarrow> r
              | None \<Rightarrow> if operation = ''mint'' then NO_MATCHING_AUTHORIZED_ISSUANCE
                        else NO_MATCHING_AUTHORIZED_REDEMPTION)
             (Some observed) (Some expected) (Some variance) m (Some operation) oage aage)"

text \<open>Steps 2 and 3, once the on-chain supply is known and fresh.\<close>

definition judge_authoritative ::
  "onchain_observation \<Rightarrow> authoritative_state option \<Rightarrow> authorized_issuance list
     \<Rightarrow> reconciliation_rules \<Rightarrow> pyval \<Rightarrow> fin_dec \<Rightarrow> int option \<Rightarrow> reconciliation_result" where
  "judge_authoritative onchain authoritative authorizations rules now observed oage =
     (let missing = mk_result rules
            [''No authoritative off-chain state is configured or recorded for this asset.'']
            MISSING_AUTHORITATIVE_DATA AUTHORITATIVE_SOURCE_MISSING (Some observed) None None
            empty_match None oage None
      in case authoritative of
        None \<Rightarrow> missing
      | Some au \<Rightarrow>
          if lower_key (au_source_status au) = ''missing'' then missing
          else if lower_key (au_source_status au) \<in> {''unavailable'', ''error''} then
            mk_result rules
              [''The authoritative source did not return a usable state on its last attempt.'']
              SOURCE_UNAVAILABLE AUTHORITATIVE_SOURCE_UNAVAILABLE (Some observed) None None
              empty_match None oage None
          else case to_units (au_expected_total_supply au) of
            None \<Rightarrow> mk_result rules [''The authoritative source reported no expected supply value.'']
              MISSING_AUTHORITATIVE_DATA AUTHORITATIVE_SOURCE_MISSING (Some observed) None None
              empty_match None oage None
          | Some expected \<Rightarrow>
              let aage = age_seconds (au_observed_at au) now;
                  variance = fd_sub 28 observed expected
              in if age_exceeds aage (ru_authoritative_stale_seconds rules) then
                   mk_result rules
                     [''The authoritative state is older than the configured freshness threshold.'']
                     STALE_AUTHORITATIVE_DATA AUTHORITATIVE_SOURCE_STALE
                     (Some observed) (Some expected) (Some variance) empty_match None oage aage
                 else if fd_le (fd_abs 28 variance) (tolerance_of rules) then
                   mk_result rules [] RECONCILED SUPPLY_MATCHES_AUTHORITATIVE_STATE
                     (Some observed) (Some expected) (Some variance) empty_match None oage aage
                 else explain_variance onchain authorizations rules observed expected variance oage aage)"

definition integrity_evaluate ::
  "onchain_observation option \<Rightarrow> authoritative_state option \<Rightarrow> authorized_issuance list
     \<Rightarrow> reconciliation_rules option \<Rightarrow> pyval \<Rightarrow> bool \<Rightarrow> reconciliation_result" where
  "integrity_evaluate onchain authoritative authorizations given now supply_applicable =
     (let rules = (case given of Some r \<Rightarrow> r | None \<Rightarrow> default_rules) in
      if \<not> supply_applicable then
        mk_result rules [''Token supply reconciliation does not apply to this kind of asset.'']
          NOT_APPLICABLE SUPPLY_RECONCILIATION_NOT_APPLICABLE None None None empty_match None None None
      else
        let unobserved = mk_result rules [''No on-chain supply observation is stored for this asset.'']
              INSUFFICIENT_EVIDENCE ONCHAIN_OBSERVATION_MISSING None None None empty_match None None None
        in case onchain of
          None \<Rightarrow> unobserved
        | Some oc \<Rightarrow>
            if \<not> oc_available oc \<or> oc_total_supply oc = PNone then unobserved
            else case to_units (oc_total_supply oc) of
              None \<Rightarrow> mk_result rules
                [''The stored on-chain supply observation is not a usable number.'']
                INSUFFICIENT_EVIDENCE ONCHAIN_OBSERVATION_MISSING None None None empty_match None None None
            | Some observed \<Rightarrow>
                let oage = age_seconds (oc_observed_at oc) now
                in if age_exceeds oage (ru_onchain_stale_seconds rules) then
                     mk_result rules
                       [''The on-chain observation is older than the configured freshness threshold.'']
                       INSUFFICIENT_EVIDENCE ONCHAIN_OBSERVATION_STALE
                       (Some observed) None None empty_match None oage None
                   else judge_authoritative oc authoritative authorizations rules now observed oage)"

definition rr_is_anomaly :: "reconciliation_result \<Rightarrow> bool" where
  "rr_is_anomaly r = (rr_status r \<in> set ANOMALY_STATUSES)"

definition rr_is_indeterminate :: "reconciliation_result \<Rightarrow> bool" where
  "rr_is_indeterminate r = (rr_status r \<in> set INDETERMINATE_STATUSES)"

definition rr_is_healthy :: "reconciliation_result \<Rightarrow> bool" where
  "rr_is_healthy r = (rr_status r = RECONCILED \<or> rr_status r = AUTHORIZED_VARIANCE)"

section \<open>What authorizes a supply change\<close>

definition in_authorized_period :: "authorized_issuance \<Rightarrow> int \<Rightarrow> int \<Rightarrow> bool" where
  "in_authorized_period c e window \<longleftrightarrow>
     (if epoch (ai_effective_from c) = None \<and> epoch (ai_effective_until c) = None
      then (\<forall>a. epoch (ai_authorized_at c) = Some a \<longrightarrow> \<bar>e - a\<bar> \<le> window * 1000000)
      else (\<forall>s. epoch (ai_effective_from c) = Some s \<longrightarrow> s \<le> e) \<and>
           (\<forall>u. epoch (ai_effective_until c) = Some u \<longrightarrow> e \<le> u))"

definition authorizes ::
  "nat \<Rightarrow> string \<Rightarrow> fin_dec \<Rightarrow> pyval \<Rightarrow> pyval \<Rightarrow> reconciliation_rules \<Rightarrow> authorized_issuance \<Rightarrow> bool" where
  "authorizes p op amount reference event_at rules c \<longleftrightarrow>
     lower_key (ai_operation c) = op \<and>
     (\<exists>x. to_units (ai_amount c) = Some x \<and> fd_val (fd_abs p x) = fd_val (fd_abs p amount)) \<and>
     (norm_reference reference = [] \<or>
      norm_reference (ai_external_reference c) = norm_reference reference) \<and>
     is_settled (ai_settlement_state c) \<and>
     (\<forall>e. epoch event_at = Some e \<longrightarrow>
        in_authorized_period c e (max 0 (ru_match_window_seconds rules)))"

section \<open>Lemmas\<close>

lemma within_window_iff: "within_window c e w \<longleftrightarrow> in_authorized_period c e w"
  by (auto simp: within_window_def in_authorized_period_def Let_def split: option.splits)

lemma reject_candidate_None:
  "reject_candidate p (fd_abs p amount) (norm_reference reference) (epoch event_at)
     (max 0 (ru_match_window_seconds rules)) c = None \<and> lower_key (ai_operation c) = op \<longleftrightarrow>
   authorizes p op amount reference event_at rules c"
  by (auto simp: reject_candidate_def authorizes_def fd_eq_iff within_window_iff split: option.splits)

lemma match_loop_find:
  "mr_matched (match_loop op reject cs k rs best) =
     find (\<lambda>c. reject c = None \<and> lower_key (ai_operation c) = op) cs"
  "mr_outcome (match_loop op reject cs k rs best) =
     (if find (\<lambda>c. reject c = None \<and> lower_key (ai_operation c) = op) cs = None then MATCH_NO_MATCH else MATCH)"
  by (induction op reject cs k rs best rule: match_loop.induct) (auto split: option.splits)

lemma match_authorization_facts:
  assumes "lower_key (opt_str operation) \<in> {''mint'', ''burn''}" and "amount = Some a"
  shows "mr_matched (match_authorization p operation amount reference event_at cs rules) =
      find (authorizes p (lower_key (opt_str operation)) a reference event_at rules) cs"
    and "mr_outcome (match_authorization p operation amount reference event_at cs rules) =
      (if find (authorizes p (lower_key (opt_str operation)) a reference event_at rules) cs = None
       then MATCH_NO_MATCH else MATCH)"
proof -
  let ?op = "lower_key (opt_str operation)"
  have "(\<lambda>c. reject_candidate p (fd_abs p a) (norm_reference reference) (epoch event_at)
        (max 0 (ru_match_window_seconds rules)) c = None \<and> lower_key (ai_operation c) = ?op)
      = authorizes p ?op a reference event_at rules"
    by (rule ext) (rule reject_candidate_None)
  with assms show "mr_matched (match_authorization p operation amount reference event_at cs rules) =
      find (authorizes p ?op a reference event_at rules) cs"
    and "mr_outcome (match_authorization p operation amount reference event_at cs rules) =
      (if find (authorizes p ?op a reference event_at rules) cs = None then MATCH_NO_MATCH else MATCH)"
    by (auto simp: match_authorization_def Let_def match_loop_find)
qed

lemma match_authorization_undecided:
  "lower_key (opt_str operation) \<notin> {''mint'', ''burn''} \<or> amount = None \<Longrightarrow>
     match_authorization p operation amount reference event_at cs rules = empty_match"
  by (simp add: match_authorization_def Let_def)

lemma mk_result_fields [simp]:
  "rr_status (mk_result rules gaps st reason ob ex va m op oa aa) = st"
  "rr_variance_units (mk_result rules gaps st reason ob ex va m op oa aa) = va"
  "rr_severity (mk_result rules gaps st reason ob ex va m op oa aa) =
     variance_severity st reason va ex op"
  "rr_reason_code (mk_result rules gaps st reason ob ex va m op oa aa) = reason"
  by (simp_all add: mk_result_def)

text \<open>
  The best rejection code: one of those noted, and of the highest priority.
\<close>

lemma better_reason_max:
  "\<exists>r. better_reason reason best = Some r \<and> r \<in> insert reason (set_option best) \<and>
     (\<forall>x \<in> insert reason (set_option best). rejection_priority x \<le> rejection_priority r)"
  by (cases best) (auto simp: better_reason_def)

lemma match_loop_reason:
  assumes "mr_outcome (match_loop op reject cs k rs best) = MATCH_NO_MATCH"
    and "rs = [] \<longleftrightarrow> best = None"
    and "\<And>b. best = Some b \<Longrightarrow> b \<in> fst ` set rs \<and>
           (\<forall>x \<in> fst ` set rs. rejection_priority x \<le> rejection_priority b)"
  shows "let m = match_loop op reject cs k rs best in
     (if mr_rejections m = []
      then mr_reason_code m = Some (if op = ''mint'' then NO_MATCHING_AUTHORIZED_ISSUANCE
                                    else NO_MATCHING_AUTHORIZED_REDEMPTION)
      else \<exists>r. mr_reason_code m = Some r \<and> r \<in> fst ` set (mr_rejections m) \<and>
             (\<forall>x \<in> fst ` set (mr_rejections m). rejection_priority x \<le> rejection_priority r))"
  using assms
proof (induction op reject cs k rs best rule: match_loop.induct)
  case (1 op reject k rs best)
  then show ?case by (cases best) (auto simp: Let_def)
next
  case (2 op reject c cs k rs best)
  show ?case
  proof (cases "lower_key (ai_operation c) = op")
    case False
    with 2 show ?thesis by simp
  next
    case True
    then obtain reason where r: "reject c = Some reason"
      using "2.prems"(1) by (cases "reject c") auto
    obtain b where b: "better_reason reason best = Some b" "b \<in> insert reason (set_option best)"
      and max: "\<forall>x \<in> insert reason (set_option best). rejection_priority x \<le> rejection_priority b"
      using better_reason_max [of reason best] by blast
    have inv: "b \<in> insert reason (fst ` set rs) \<and>
        (\<forall>x \<in> insert reason (fst ` set rs). rejection_priority x \<le> rejection_priority b)"
    proof (cases best)
      case None
      then show ?thesis using b max "2.prems"(2) by auto
    next
      case (Some b0)
      then show ?thesis using b max "2.prems"(3) [OF Some] by (auto intro: order_trans)
    qed
    show ?thesis
      using "2.IH"(2) [of reason] "2.prems"(1) True r b(1) inv by simp
  qed
qed

text \<open>The codes an unmatched change can carry.\<close>

definition near_miss_codes :: "string set" where
  "near_miss_codes = {AMOUNT_MISMATCH, REFERENCE_MISMATCH, SETTLEMENT_NOT_COMPLETE, OUTSIDE_AUTHORIZED_WINDOW}"

definition no_match_codes :: "string set" where
  "no_match_codes = {NO_MATCHING_AUTHORIZED_ISSUANCE, NO_MATCHING_AUTHORIZED_REDEMPTION}"

lemma reject_candidate_code: "reject_candidate p m w e n c = Some r \<Longrightarrow> r \<in> near_miss_codes"
  by (auto simp: reject_candidate_def near_miss_codes_def split: option.splits if_splits)

lemma match_loop_codes:
  assumes "\<forall>c r. reject c = Some r \<longrightarrow> r \<in> R" and "set_option best \<subseteq> R"
  shows "mr_outcome (match_loop op reject cs k rs best) = MATCH_NO_MATCH \<Longrightarrow>
    \<exists>r \<in> R \<union> no_match_codes. mr_reason_code (match_loop op reject cs k rs best) = Some r"
  using assms
proof (induction op reject cs k rs best rule: match_loop.induct)
  case (1 op reject k rs best)
  then show ?case by (cases best) (auto simp: no_match_codes_def)
next
  case (2 op reject c cs k rs best)
  have "set_option (better_reason r best) \<subseteq> R" if "reject c = Some r" for r
    using that "2.prems"(2,3) by (auto simp: better_reason_def split: option.splits if_splits)
  with 2 show ?case by (auto split: if_splits option.splits)
qed

lemma match_authorization_code:
  assumes "lower_key (opt_str operation) \<in> {''mint'', ''burn''}" and "amount = Some a"
    and "find (authorizes p (lower_key (opt_str operation)) a reference event_at rules) cs = None"
  shows "\<exists>r \<in> near_miss_codes \<union> no_match_codes.
    mr_reason_code (match_authorization p operation amount reference event_at cs rules) = Some r"
proof -
  have "mr_outcome (match_authorization p operation amount reference event_at cs rules) = MATCH_NO_MATCH"
    using match_authorization_facts(2) [OF assms(1,2)] assms(3) by simp
  moreover have "match_authorization p operation amount reference event_at cs rules =
      match_loop (lower_key (opt_str operation)) (reject_candidate p (fd_abs p a) (norm_reference reference)
        (epoch event_at) (max 0 (ru_match_window_seconds rules))) cs 0 [] None"
    using assms(1,2) by (auto simp: match_authorization_def Let_def)
  ultimately show ?thesis
    using match_loop_codes [of "reject_candidate p (fd_abs p a) (norm_reference reference)
        (epoch event_at) (max 0 (ru_match_window_seconds rules))" near_miss_codes None]
      reject_candidate_code by simp
qed

text \<open>Inputs a verdict may rest on: both sides read, usable and fresh.\<close>

definition trusted_inputs ::
  "onchain_observation \<Rightarrow> authoritative_state \<Rightarrow> reconciliation_rules \<Rightarrow> pyval \<Rightarrow> fin_dec \<Rightarrow> fin_dec \<Rightarrow> bool" where
  "trusted_inputs oc au rules now observed expected \<longleftrightarrow>
     oc_available oc \<and> to_units (oc_total_supply oc) = Some observed \<and>
     \<not> age_exceeds (age_seconds (oc_observed_at oc) now) (ru_onchain_stale_seconds rules) \<and>
     lower_key (au_source_status au) \<notin> {''missing'', ''unavailable'', ''error''} \<and>
     to_units (au_expected_total_supply au) = Some expected \<and>
     \<not> age_exceeds (age_seconds (au_observed_at au) now) (ru_authoritative_stale_seconds rules)"

definition change_time :: "onchain_observation \<Rightarrow> pyval" where
  "change_time oc = (if truthy (oc_last_delta_at oc) then oc_last_delta_at oc else oc_observed_at oc)"

text \<open>A supply change no authoritative record explains.\<close>

definition unauthorized_change ::
  "onchain_observation \<Rightarrow> authorized_issuance list \<Rightarrow> reconciliation_rules \<Rightarrow> fin_dec \<Rightarrow> bool" where
  "unauthorized_change oc cs rules variance \<longleftrightarrow>
     fd_val (tolerance_of rules) < fd_val (fd_abs 28 variance) \<and>
     lower_key (PStr (fst (supply_change oc variance))) \<in> {''mint'', ''burn''} \<and>
     \<not> list_ex (authorizes 28 (lower_key (PStr (fst (supply_change oc variance)))) (snd (supply_change oc variance))
          (oc_external_reference oc) (change_time oc) rules) cs"

lemma explain_variance_status:
  "rr_status (explain_variance oc cs rules observed expected variance oage aage) =
     (if lower_key (PStr (fst (supply_change oc variance))) \<notin> {''mint'', ''burn''} then INSUFFICIENT_EVIDENCE
      else if list_ex (authorizes 28 (lower_key (PStr (fst (supply_change oc variance))))
          (snd (supply_change oc variance)) (oc_external_reference oc) (change_time oc) rules) cs
      then AUTHORIZED_VARIANCE else UNEXPLAINED_VARIANCE)"
proof -
  obtain op delta where sc: "supply_change oc variance = (op, delta)" by (cases "supply_change oc variance")
  have ex: "find P cs = None \<longleftrightarrow> \<not> list_ex P cs" for P :: "authorized_issuance \<Rightarrow> bool"
    by (auto simp: find_None_iff list_ex_iff)
  show ?thesis
  proof (cases "lower_key (PStr op) \<in> {''mint'', ''burn''}")
    case True
    then show ?thesis
      using match_authorization_facts [of "Some op" "Some delta" delta 28 "oc_external_reference oc"
          "change_time oc" cs rules]
      by (simp add: explain_variance_def sc Let_def change_time_def [symmetric] ex)
  next
    case False
    then have "match_authorization 28 (Some op) (Some delta) (oc_external_reference oc) (change_time oc) cs rules
        = empty_match" by (intro match_authorization_undecided) simp
    then show ?thesis
      using False by (simp add: explain_variance_def sc Let_def change_time_def [symmetric] empty_match_def)
  qed
qed

lemma explain_variance_severity:
  "rr_severity (explain_variance oc cs rules observed expected variance oage aage) \<in> {''high'', ''critical''}
     \<longleftrightarrow> rr_status (explain_variance oc cs rules observed expected variance oage aage) = UNEXPLAINED_VARIANCE"
  by (auto simp: explain_variance_def variance_severity_def INDETERMINATE_STATUSES_def Let_def split_beta
      split: option.splits)

lemma integrity_evaluate_cases:
  assumes "rules = (case given of Some r \<Rightarrow> r | None \<Rightarrow> default_rules)"
  obtains (verdict) oc au observed expected where "supply_applicable" "onchain = Some oc"
      "authoritative = Some au" "trusted_inputs oc au rules now observed expected"
      "fd_val (tolerance_of rules) < fd_val (fd_abs 28 (fd_sub 28 observed expected))"
      "integrity_evaluate onchain authoritative cs given now supply_applicable =
         explain_variance oc cs rules observed expected (fd_sub 28 observed expected)
           (age_seconds (oc_observed_at oc) now) (age_seconds (au_observed_at au) now)"
  | (other) "rr_status (integrity_evaluate onchain authoritative cs given now supply_applicable)
        \<in> insert RECONCILED (set INDETERMINATE_STATUSES)"
      "rr_severity (integrity_evaluate onchain authoritative cs given now supply_applicable) \<in> {''low'', ''medium''}"
      "\<not> (supply_applicable \<and> (\<exists>oc au observed expected. onchain = Some oc \<and> authoritative = Some au \<and>
          trusted_inputs oc au rules now observed expected \<and>
          fd_val (tolerance_of rules) < fd_val (fd_abs 28 (fd_sub 28 observed expected))))"
proof (cases "supply_applicable \<and> (\<exists>oc au observed expected. onchain = Some oc \<and> authoritative = Some au \<and>
          trusted_inputs oc au rules now observed expected \<and>
          fd_val (tolerance_of rules) < fd_val (fd_abs 28 (fd_sub 28 observed expected)))")
  case True
  then obtain oc au observed expected where t: "supply_applicable" "onchain = Some oc"
      "authoritative = Some au" "trusted_inputs oc au rules now observed expected"
      "fd_val (tolerance_of rules) < fd_val (fd_abs 28 (fd_sub 28 observed expected))" by blast
  then have "oc_total_supply oc \<noteq> PNone" by (auto simp: trusted_inputs_def to_units_def)
  with t show ?thesis
    by (intro that(1)) (simp_all add: integrity_evaluate_def judge_authoritative_def trusted_inputs_def
        fd_le_iff Let_def assms [symmetric])
next
  case False
  have tol: "fd_le (fd_abs 28 v) (tolerance_of rules) \<longleftrightarrow> \<not> fd_val (tolerance_of rules) < fd_val (fd_abs 28 v)" for v
    by (auto simp: fd_le_iff)
  let ?r = "integrity_evaluate onchain authoritative cs given now supply_applicable"
  have "rr_status ?r \<in> insert RECONCILED (set INDETERMINATE_STATUSES) \<and> rr_severity ?r \<in> {''low'', ''medium''}"
    using False unfolding integrity_evaluate_def judge_authoritative_def Let_def assms [symmetric] tol
    by (auto simp: trusted_inputs_def variance_severity_def INDETERMINATE_STATUSES_def
        split: option.splits)
  then show ?thesis using False by (intro that(2)) blast+
qed

text \<open>The reason codes each status may carry.\<close>

definition status_reasons :: "(string \<times> string set) list" where
  "status_reasons =
    [(RECONCILED, {SUPPLY_MATCHES_AUTHORITATIVE_STATE}),
     (AUTHORIZED_VARIANCE, {MATCHED_AUTHORIZED_ISSUANCE, MATCHED_AUTHORIZED_REDEMPTION}),
     (UNEXPLAINED_VARIANCE, near_miss_codes \<union> no_match_codes),
     (STALE_AUTHORITATIVE_DATA, {AUTHORITATIVE_SOURCE_STALE}),
     (MISSING_AUTHORITATIVE_DATA, {AUTHORITATIVE_SOURCE_MISSING}),
     (INSUFFICIENT_EVIDENCE, {ONCHAIN_OBSERVATION_MISSING, ONCHAIN_OBSERVATION_STALE}),
     (SOURCE_UNAVAILABLE, {AUTHORITATIVE_SOURCE_UNAVAILABLE}),
     (NOT_APPLICABLE, {SUPPLY_RECONCILIATION_NOT_APPLICABLE})]"

definition coherent_reason :: "string \<Rightarrow> string \<Rightarrow> bool" where
  "coherent_reason status reason = (case map_of status_reasons status of
     Some rs \<Rightarrow> reason \<in> rs | None \<Rightarrow> False)"

lemma match_loop_matched_reason:
  "mr_outcome (match_loop op reject cs k rs best) = MATCH \<Longrightarrow>
    mr_reason_code (match_loop op reject cs k rs best) =
      Some (if op = ''mint'' then MATCHED_AUTHORIZED_ISSUANCE else MATCHED_AUTHORIZED_REDEMPTION)"
  by (induction op reject cs k rs best rule: match_loop.induct) (auto split: option.splits)

lemma coherent_reasons [simp]:
  "coherent_reason RECONCILED r = (r = SUPPLY_MATCHES_AUTHORITATIVE_STATE)"
  "coherent_reason AUTHORIZED_VARIANCE r =
     (r = MATCHED_AUTHORIZED_ISSUANCE \<or> r = MATCHED_AUTHORIZED_REDEMPTION)"
  "coherent_reason UNEXPLAINED_VARIANCE r = (r \<in> near_miss_codes \<union> no_match_codes)"
  "coherent_reason STALE_AUTHORITATIVE_DATA r = (r = AUTHORITATIVE_SOURCE_STALE)"
  "coherent_reason MISSING_AUTHORITATIVE_DATA r = (r = AUTHORITATIVE_SOURCE_MISSING)"
  "coherent_reason INSUFFICIENT_EVIDENCE r = (r = ONCHAIN_OBSERVATION_MISSING \<or> r = ONCHAIN_OBSERVATION_STALE)"
  "coherent_reason SOURCE_UNAVAILABLE r = (r = AUTHORITATIVE_SOURCE_UNAVAILABLE)"
  "coherent_reason NOT_APPLICABLE r = (r = SUPPLY_RECONCILIATION_NOT_APPLICABLE)"
  by (simp_all add: coherent_reason_def status_reasons_def)

lemma explain_variance_reason:
  "coherent_reason (rr_status (explain_variance oc cs rules observed expected variance oage aage))
     (rr_reason_code (explain_variance oc cs rules observed expected variance oage aage))"
proof -
  obtain op delta where sc: "supply_change oc variance = (op, delta)" by (cases "supply_change oc variance")
  define m where "m = match_authorization 28 (Some op) (Some delta) (oc_external_reference oc)
    (change_time oc) cs rules"
  have ev: "explain_variance oc cs rules observed expected variance oage aage =
      (if mr_outcome m = MATCH then
           mk_result rules [] AUTHORIZED_VARIANCE
             (case mr_reason_code m of Some r \<Rightarrow> r | None \<Rightarrow> MATCHED_AUTHORIZED_ISSUANCE)
             (Some observed) (Some expected) (Some variance) m (Some op) oage aage
         else if mr_outcome m = MATCH_INSUFFICIENT_DATA then
           mk_result rules
             [''The observed supply change could not be resolved to a mint or burn operation.'']
             INSUFFICIENT_EVIDENCE ONCHAIN_OBSERVATION_MISSING
             (Some observed) (Some expected) (Some variance) m None oage aage
         else
           mk_result rules [] UNEXPLAINED_VARIANCE
             (case mr_reason_code m of Some r \<Rightarrow> r
              | None \<Rightarrow> if op = ''mint'' then NO_MATCHING_AUTHORIZED_ISSUANCE
                        else NO_MATCHING_AUTHORIZED_REDEMPTION)
             (Some observed) (Some expected) (Some variance) m (Some op) oage aage)"
    by (simp add: explain_variance_def sc Let_def change_time_def m_def)
  show ?thesis
  proof (cases "lower_key (opt_str (Some op)) \<in> {''mint'', ''burn''}")
    case False
    then have "m = empty_match" by (simp add: m_def match_authorization_undecided)
    then show ?thesis by (simp add: ev empty_match_def)
  next
    case True
    let ?found = "find (authorizes 28 (lower_key (opt_str (Some op))) delta (oc_external_reference oc)
      (change_time oc) rules) cs"
    have out: "mr_outcome m = (if ?found = None then MATCH_NO_MATCH else MATCH)"
      unfolding m_def by (rule match_authorization_facts(2) [OF True refl])
    show ?thesis
    proof (cases "?found = None")
      case None: True
      then obtain r where "r \<in> near_miss_codes \<union> no_match_codes" "mr_reason_code m = Some r"
        using match_authorization_code [OF True refl None] unfolding m_def by blast
      then show ?thesis using out None by (simp add: ev)
    next
      case Some: False
      then have "mr_outcome m = MATCH" using out by simp
      moreover have "m = match_loop (lower_key (opt_str (Some op))) (reject_candidate 28 (fd_abs 28 delta)
          (norm_reference (oc_external_reference oc)) (epoch (change_time oc))
          (max 0 (ru_match_window_seconds rules))) cs 0 [] None"
        using True by (auto simp: m_def match_authorization_def Let_def)
      ultimately show ?thesis using match_loop_matched_reason by (auto simp: ev)
    qed
  qed
qed

lemma integrity_reason:
  "coherent_reason (rr_status (integrity_evaluate onchain authoritative cs given now supply_applicable))
     (rr_reason_code (integrity_evaluate onchain authoritative cs given now supply_applicable))"
  by (simp add: integrity_evaluate_def judge_authoritative_def Let_def explain_variance_reason split: option.splits)

lemma coherent_status: "coherent_reason st r \<Longrightarrow> st \<in> set RECONCILIATION_STATUSES"
proof -
  assume "coherent_reason st r"
  then have "st \<in> fst ` set status_reasons"
    by (auto simp: coherent_reason_def split: option.splits dest: map_of_SomeD intro: rev_image_eqI)
  then show ?thesis by (simp add: status_reasons_def RECONCILIATION_STATUSES_def)
qed

lemma coherent_matched:
  "coherent_reason st r \<Longrightarrow>
     r \<in> {MATCHED_AUTHORIZED_ISSUANCE, MATCHED_AUTHORIZED_REDEMPTION} \<longleftrightarrow> st = AUTHORIZED_VARIANCE"
proof -
  assume c: "coherent_reason st r"
  have "r \<notin> near_miss_codes \<union> no_match_codes"
    if "r \<in> {MATCHED_AUTHORIZED_ISSUANCE, MATCHED_AUTHORIZED_REDEMPTION}"
    using that by (elim insertE) (simp_all add: near_miss_codes_def no_match_codes_def)
  then show ?thesis
    using coherent_status [OF c] c unfolding RECONCILIATION_STATUSES_def set_simps
    by (elim insertE) auto
qed

lemma coherent_source_gap:
  "coherent_reason st r \<Longrightarrow>
     r \<in> {AUTHORITATIVE_SOURCE_MISSING, AUTHORITATIVE_SOURCE_STALE, AUTHORITATIVE_SOURCE_UNAVAILABLE}
     \<Longrightarrow> st \<in> set INDETERMINATE_STATUSES"
proof -
  assume c: "coherent_reason st r" and
    r: "r \<in> {AUTHORITATIVE_SOURCE_MISSING, AUTHORITATIVE_SOURCE_STALE, AUTHORITATIVE_SOURCE_UNAVAILABLE}"
  have "r \<notin> near_miss_codes \<union> no_match_codes"
    using r by (elim insertE) (simp_all add: near_miss_codes_def no_match_codes_def)
  then show ?thesis
    using coherent_status [OF c] c r
    unfolding RECONCILIATION_STATUSES_def INDETERMINATE_STATUSES_def set_simps
    by (elim insertE) simp_all
qed

section \<open>Properties\<close>

text \<open>
  The matcher is sound and complete. For a mint or burn of a known amount the record it
  reports is the first candidate that authorizes the change: same operation, same amount,
  same reference when one is given, settled, and in its authorized period. Without such a
  candidate, or without operation or amount, nothing matches.
\<close>

theorem match_authorization_first:
  "mr_matched (match_authorization p operation amount reference event_at cs rules) =
     (if lower_key (opt_str operation) \<in> {''mint'', ''burn''}
      then (case amount of None \<Rightarrow> None
            | Some a \<Rightarrow> find (authorizes p (lower_key (opt_str operation)) a reference event_at rules) cs)
      else None)"
proof (cases "lower_key (opt_str operation) \<in> {''mint'', ''burn''}")
  case True
  then show ?thesis
    using match_authorization_facts(1) [OF True] match_authorization_undecided [of operation amount]
    by (cases amount) (auto simp: empty_match_def)
next
  case False
  with match_authorization_undecided [of operation amount p reference event_at cs rules] show ?thesis
    by (simp add: empty_match_def)
qed

text \<open>
  C8. An anomaly is evidenced. The verdict is UNEXPLAINED_VARIANCE exactly when supply
  reconciliation applies, both sides were read, usable and fresh, their difference exceeds
  the tolerance, the change is a mint or a burn, and no authorization record explains it.
  A failed or stale source never produces it.
\<close>

theorem anomaly_iff:
  "rr_is_anomaly (integrity_evaluate onchain authoritative cs given now supply_applicable) \<longleftrightarrow>
     supply_applicable \<and>
     (\<exists>oc au observed expected. onchain = Some oc \<and> authoritative = Some au \<and>
        trusted_inputs oc au (case given of Some r \<Rightarrow> r | None \<Rightarrow> default_rules) now observed expected \<and>
        unauthorized_change oc cs (case given of Some r \<Rightarrow> r | None \<Rightarrow> default_rules)
          (fd_sub 28 observed expected))"
proof -
  define rules where "rules = (case given of Some r \<Rightarrow> r | None \<Rightarrow> default_rules)"
  show ?thesis
    unfolding rules_def [symmetric]
  proof (cases rule: integrity_evaluate_cases [OF rules_def, of supply_applicable onchain authoritative now cs, case_names verdict other])
    case (verdict oc au observed expected)
    have unique: "trusted_inputs oc au rules now o' e' \<Longrightarrow> o' = observed \<and> e' = expected" for o' e'
      using verdict(4) by (simp add: trusted_inputs_def)
    show "rr_is_anomaly (integrity_evaluate onchain authoritative cs given now supply_applicable) \<longleftrightarrow>
      supply_applicable \<and> (\<exists>oc au observed expected. onchain = Some oc \<and> authoritative = Some au \<and>
        trusted_inputs oc au rules now observed expected \<and>
        unauthorized_change oc cs rules (fd_sub 28 observed expected))"
    proof -
      have "rr_is_anomaly (integrity_evaluate onchain authoritative cs given now supply_applicable)
          \<longleftrightarrow> unauthorized_change oc cs rules (fd_sub 28 observed expected)"
        unfolding verdict(6) rr_is_anomaly_def explain_variance_status unauthorized_change_def
        using verdict(5) by (simp add: ANOMALY_STATUSES_def)
      then show ?thesis using verdict(1-4) unique by blast
    qed
  next
    case other
    then show "rr_is_anomaly (integrity_evaluate onchain authoritative cs given now supply_applicable) \<longleftrightarrow>
      supply_applicable \<and> (\<exists>oc au observed expected. onchain = Some oc \<and> authoritative = Some au \<and>
        trusted_inputs oc au rules now observed expected \<and>
        unauthorized_change oc cs rules (fd_sub 28 observed expected))"
      by (auto simp: rr_is_anomaly_def ANOMALY_STATUSES_def INDETERMINATE_STATUSES_def unauthorized_change_def)
  qed
qed

text \<open>
  Status and reason agree: every verdict has one of the eight statuses, with a reason code
  of that status. An unexplained variance always names why: a near miss of some record, or that
  there is no record.
\<close>

theorem verdict_reason_coherent:
  "rr_status (integrity_evaluate onchain authoritative cs given now supply_applicable)
      \<in> set RECONCILIATION_STATUSES \<and>
   coherent_reason (rr_status (integrity_evaluate onchain authoritative cs given now supply_applicable))
     (rr_reason_code (integrity_evaluate onchain authoritative cs given now supply_applicable))"
  using integrity_reason coherent_status by blast

text \<open>
  Severity follows the evidence. A result is high or critical exactly when it is an
  anomaly, and every result is exactly one of anomaly, indeterminate and healthy.
\<close>

theorem severity_iff_anomaly:
  "(rr_severity (integrity_evaluate onchain authoritative cs given now supply_applicable)
       \<in> {''high'', ''critical''} \<longleftrightarrow>
     rr_is_anomaly (integrity_evaluate onchain authoritative cs given now supply_applicable)) \<and>
   length (filter id [rr_is_anomaly (integrity_evaluate onchain authoritative cs given now supply_applicable),
     rr_is_indeterminate (integrity_evaluate onchain authoritative cs given now supply_applicable),
     rr_is_healthy (integrity_evaluate onchain authoritative cs given now supply_applicable)]) = 1"
proof -
  define rules where "rules = (case given of Some r \<Rightarrow> r | None \<Rightarrow> default_rules)"
  show ?thesis
  proof (cases rule: integrity_evaluate_cases [OF rules_def, of supply_applicable onchain authoritative now cs, case_names verdict other])
    case (verdict oc au observed expected)
    show ?thesis
      unfolding verdict(6) rr_is_anomaly_def explain_variance_severity
      by (simp add: rr_is_indeterminate_def rr_is_healthy_def ANOMALY_STATUSES_def
          INDETERMINATE_STATUSES_def explain_variance_status)
  next
    case other
    then show ?thesis
      by (auto simp: rr_is_anomaly_def rr_is_indeterminate_def rr_is_healthy_def ANOMALY_STATUSES_def
          INDETERMINATE_STATUSES_def)
  qed
qed

section \<open>Where the matcher differs from its documentation\<close>

text \<open>
  Amounts of 29 digits that differ by one unit are rounded to the same value and match,
  although the module promises exact arithmetic on base units.
\<close>

lemma distinct_amounts_match:
  "fd_val (fd_abs 28 (FinDec False (10 ^ 28 + 1) 0)) = fd_val (fd_abs 28 (FinDec False (10 ^ 28 + 2) 0)) \<and>
   fd_val (FinDec False (10 ^ 28 + 1) 0) \<noteq> fd_val (FinDec False (10 ^ 28 + 2) 0)"
  by (simp add: fd_abs_def fd_round_def half_even_div_def ndigits.simps Let_def fd_val_def fd_int_def)

definition sample_record :: authorized_issuance where
  "sample_record = \<lparr>ai_id = None, ai_operation = PStr ''mint'', ai_amount = PInt 5,
     ai_settlement_state = PStr ''settled'', ai_external_reference = PStr ''R1'',
     ai_authorized_at = PTime (Aware 0) [], ai_effective_from = PNone, ai_effective_until = PNone,
     ai_source_name = PNone, ai_evidence_source = ''live''\<rparr>"

text \<open>
  The closest candidate fails the window only, the last check; the reported reason is that
  of a candidate which failed earlier, on its reference.
\<close>

lemma closest_candidate_not_reported:
  "mr_reason_code (match_authorization 28 (Some ''mint'') (Some (FinDec False 5 0)) (PStr ''R1'')
     (PTime (Aware 90000000000) [])
     [sample_record, sample_record\<lparr>ai_external_reference := PStr ''R2''\<rparr>] default_rules)
   = Some REFERENCE_MISMATCH"
  by code_simp

end
