(* ===== verification/Telemetry_Normalization.thy ===== *)
theory Telemetry_Normalization
  imports Governance_Config Asset_Reconciliation
begin

text \<open>
  Provider-independent telemetry and the claims made about it,
  \<open>services/api/app/domains/operational_integrity/normalization.py\<close>, with the stages of
  \<open>schemas.py\<close>.

  A payload is a map from its keys to values. A registered preconfirmation provider is
  external code of which only \<open>is_available()\<close> is called here: the registry holds, under
  each key, the outcome of that call, \<open>None\<close> when it raises. An event's copy of its raw payload is not kept.
\<close>

section \<open>Stages and sources\<close>

abbreviation STAGE_PRECONFIRMATION :: string where
  "STAGE_PRECONFIRMATION \<equiv> ''PRECONFIRMATION''"
abbreviation STAGE_CONFIRMED :: string where
  "STAGE_CONFIRMED \<equiv> ''CONFIRMED''"
abbreviation STAGE_FINALIZED :: string where
  "STAGE_FINALIZED \<equiv> ''FINALIZED''"
abbreviation STAGE_UNKNOWN :: string where
  "STAGE_UNKNOWN \<equiv> ''UNKNOWN''"

definition TELEMETRY_STAGES :: "string list" where
  [vocab_simps]: "TELEMETRY_STAGES =
    [STAGE_PRECONFIRMATION, STAGE_CONFIRMED, STAGE_FINALIZED, STAGE_UNKNOWN]"

definition ZERO_ADDRESS :: string where
  "ZERO_ADDRESS = ''0x0000000000000000000000000000000000000000''"

definition BURN_ADDRESSES :: "string list" where
  "BURN_ADDRESSES = [ZERO_ADDRESS, ''0x000000000000000000000000000000000000dead'']"

definition TRANSFER_EVENT_TYPES :: "string list" where
  "TRANSFER_EVENT_TYPES = [''erc20_transfer'', ''token_transfer'', ''transfer'', ''native_transfer'',
     ''wallet_transfer_detected'']"

definition MINT_EVENT_TYPES :: "string list" where
  "MINT_EVENT_TYPES = [''mint'', ''tokens_minted'', ''issuance'']"

definition BURN_EVENT_TYPES :: "string list" where
  "BURN_EVENT_TYPES = [''burn'', ''tokens_burned'', ''redemption'']"

definition SOURCE_STAGE :: "(string \<times> string) list" where
  "SOURCE_STAGE = [(''rpc_polling'', STAGE_FINALIZED), (''evm_rpc'', STAGE_FINALIZED),
     (''backfill'', STAGE_FINALIZED), (''realtime_websocket'', STAGE_CONFIRMED),
     (''websocket'', STAGE_CONFIRMED), (''quicknode_stream'', STAGE_CONFIRMED),
     (''quicknode_http_fast_tail'', STAGE_CONFIRMED), (''webhook'', STAGE_CONFIRMED)]"

definition SOURCE_LABELS :: "(string \<times> string) list" where
  "SOURCE_LABELS = [(''rpc_polling'', ''RPC polling''), (''evm_rpc'', ''RPC polling''),
     (''backfill'', ''RPC backfill''), (''realtime_websocket'', ''WebSocket''),
     (''websocket'', ''WebSocket''), (''quicknode_stream'', ''Streams''),
     (''quicknode_http_fast_tail'', ''HTTP fast tail''), (''webhook'', ''Webhook''),
     (''manual'', ''Manual / imported''), (''simulator'', ''Simulator''), (''unknown'', ''Unknown'')]"

section \<open>Reading a payload\<close>

type_synonym payload = "string \<rightharpoonup> pyval"

definition get :: "payload \<Rightarrow> string \<Rightarrow> pyval" where
  "get p k = (case p k of Some v \<Rightarrow> v | None \<Rightarrow> PNone)"

text \<open>\<open>a or b\<close>, and \<open>p.get(k1) or ... or p.get(kn)\<close>.\<close>

definition py_or :: "pyval \<Rightarrow> pyval \<Rightarrow> pyval" where
  "py_or a b = (if truthy a then a else b)"

fun first_of :: "payload \<Rightarrow> string list \<Rightarrow> pyval" where
  "first_of p [] = PNone"
| "first_of p [k] = get p k"
| "first_of p (k # k' # ks) = py_or (get p k) (first_of p (k' # ks))"

definition exact_decimal :: "pyval \<Rightarrow> fin_dec option" where
  "exact_decimal v = (if v = PNone \<or> v = PStr [] then None
     else case parse_decimal (py_str v) of Some (Finite x) \<Rightarrow> Some x | _ \<Rightarrow> None)"

text \<open>
  \<open>int(value)\<close>; the result \<open>Inr None\<close> stands for \<open>TypeError\<close> and \<open>ValueError\<close>, which are caught.
  The integer of an infinity raises \<open>OverflowError\<close>, which is not: \<open>Inl ()\<close>.
\<close>

definition fd_trunc :: "fin_dec \<Rightarrow> int" where
  "fd_trunc x = (let n = (if fd_exp x \<ge> 0 then fd_coeff x * 10 ^ nat (fd_exp x)
                          else fd_coeff x div 10 ^ nat (- fd_exp x))
                 in if fd_neg x then - int n else int n)"

definition int_of_dec :: "dec \<Rightarrow> unit + int option" where
  "int_of_dec d = (case d of Finite x \<Rightarrow> Inr (Some (fd_trunc x)) | Infinite _ \<Rightarrow> Inl ()
     | NotANumber _ \<Rightarrow> Inr None)"

fun int_or_none :: "pyval \<Rightarrow> unit + int option" where
  "int_or_none (PInt i) = Inr (Some i)"
| "int_or_none (PBool b) = Inr (Some (if b then 1 else 0))"
| "int_or_none (PStr s) = Inr (py_int s)"
| "int_or_none (PFloat r) = (case parse_decimal r of Some d \<Rightarrow> int_of_dec d | None \<Rightarrow> Inr None)"
| "int_or_none (PDec d) = int_of_dec d"
| "int_or_none v = Inr None"

section \<open>Decoding\<close>

definition decode_operation :: "pyval \<Rightarrow> payload \<Rightarrow> string option" where
  "decode_operation event_type payload =
     (let et = lower_key event_type;
          explicit = lower_key (first_of payload [''operation'', ''decoded_operation'']);
          frm = lower_key (first_of payload [''from'', ''from_address'']);
          to = lower_key (first_of payload [''to'', ''to_address''])
      in if et \<in> set MINT_EVENT_TYPES then Some ''mint''
         else if et \<in> set BURN_EVENT_TYPES then Some ''burn''
         else if explicit = ''mint'' \<or> explicit = ''burn'' then Some explicit
         else if et \<notin> set TRANSFER_EVENT_TYPES then None
         else if frm = ZERO_ADDRESS then Some ''mint''
         else if to \<in> set BURN_ADDRESSES then Some ''burn''
         else None)"

definition resolve_source :: "pyval \<Rightarrow> payload \<Rightarrow> string" where
  "resolve_source provider_type payload =
     (let explicit = lower_key (first_of payload [''ingestion_source'', ''detected_by'']);
          pt = lower_key provider_type
      in if explicit \<noteq> [] then explicit
         else if contains ''quicknode'' pt then ''quicknode_stream''
         else if contains ''webhook'' pt then ''webhook''
         else if pt \<in> {''evm_rpc'', ''rpc'', ''rpc_polling''} then ''rpc_polling''
         else if pt = [] then ''unknown'' else pt)"

definition source_label :: "string option \<Rightarrow> string" where
  "source_label source =
     (let key = lower_key (opt_str source) in
      case map_of SOURCE_LABELS key of Some l \<Rightarrow> l
      | None \<Rightarrow> let t = replace_char (CHR ''_'') (CHR '' '') key
                in if t = [] then ''Unknown'' else t)"

section \<open>Preconfirmation providers\<close>

type_synonym provider_registry = "(string \<times> bool option) list"

definition register_preconfirmation_provider ::
  "string \<Rightarrow> bool option \<Rightarrow> provider_registry \<Rightarrow> provider_registry" where
  "register_preconfirmation_provider key available registry = AList.update key available registry"

definition preconfirmation_provider :: "provider_registry \<Rightarrow> string \<Rightarrow> bool option option" where
  "preconfirmation_provider registry key = map_of registry key"

fun preconfirmation_available :: "provider_registry \<Rightarrow> bool" where
  "preconfirmation_available [] = False"
| "preconfirmation_available ((k, a) # rest) =
     (case a of Some True \<Rightarrow> True | _ \<Rightarrow> preconfirmation_available rest)"

definition resolve_stage :: "provider_registry \<Rightarrow> string \<Rightarrow> payload \<Rightarrow> string" where
  "resolve_stage registry source payload =
     (let key = lower_key (PStr source);
          stamped = upper_key (first_of payload [''telemetry_stage'', ''stage''])
      in if stamped = STAGE_PRECONFIRMATION \<and>
            (case preconfirmation_provider registry key of Some (Some True) \<Rightarrow> True | _ \<Rightarrow> False)
         then STAGE_PRECONFIRMATION
         else if stamped = STAGE_CONFIRMED \<or> stamped = STAGE_FINALIZED then stamped
         else case map_of SOURCE_STAGE key of
           Some mapped \<Rightarrow> mapped
         | None \<Rightarrow> if truthy (first_of payload [''block_number'', ''block'']) then STAGE_CONFIRMED
                   else STAGE_UNKNOWN)"

section \<open>Normalized events\<close>

record normalized_chain_event =
  ne_chain_id :: "int option"
  ne_tx_hash :: pyval
  ne_from_address :: pyval
  ne_to_address :: pyval
  ne_method_selector :: pyval
  ne_decoded_operation :: "string option"
  ne_amount :: "fin_dec option"
  ne_token_address :: pyval
  ne_token_decimals :: "int option"
  ne_token_symbol :: pyval
  ne_block_number :: "int option"
  ne_observed_at :: pyval
  ne_source :: string
  ne_stage :: string
  ne_preconfirmation_received_at :: pyval
  ne_external_reference :: pyval
  ne_evidence_source :: string
  ne_telemetry_id :: "string option"
  ne_asset_id :: "string option"
  ne_signature_valid :: bool

definition ne_is_issuance :: "normalized_chain_event \<Rightarrow> bool" where
  "ne_is_issuance e = (py_lower (text_of (opt_str (ne_decoded_operation e))) = ''mint'')"

definition ne_is_redemption :: "normalized_chain_event \<Rightarrow> bool" where
  "ne_is_redemption e = (py_lower (text_of (opt_str (ne_decoded_operation e))) = ''burn'')"

text \<open>A stored row; its \<open>payload_json\<close> is the empty map when it is no object.\<close>

record telemetry_row =
  tr_id :: pyval
  tr_asset_id :: pyval
  tr_chain_id :: pyval
  tr_provider_type :: pyval
  tr_event_type :: pyval
  tr_observed_at :: pyval
  tr_evidence_source :: pyval
  tr_payload :: payload

definition id_text :: "pyval \<Rightarrow> string option" where
  "id_text v = (if truthy v then Some (py_str v) else None)"

definition text_or :: "pyval \<Rightarrow> string \<Rightarrow> string" where
  "text_or v dflt = py_str (py_or v (PStr dflt))"

definition normalize_telemetry_row ::
  "provider_registry \<Rightarrow> telemetry_row \<Rightarrow> unit + normalized_chain_event" where
  "normalize_telemetry_row registry row =
     (let payload = tr_payload row;
          source = resolve_source (tr_provider_type row) payload;
          amount = exact_decimal (first_of payload
            [''amount_base_units'', ''value_base_units'', ''amount'', ''value'']);
          tx = first_of payload [''tx_hash'', ''transaction_hash'', ''hash'']
      in bind_result (int_or_none (py_or (get payload ''chain_id'') (tr_chain_id row))) (\<lambda>chain_id.
         bind_result (int_or_none (first_of payload [''token_decimals'', ''decimals''])) (\<lambda>decimals.
         bind_result (int_or_none (first_of payload [''block_number'', ''block''])) (\<lambda>block.
           Inr \<lparr>ne_chain_id = chain_id, ne_tx_hash = tx,
             ne_from_address = first_of payload [''from'', ''from_address''],
             ne_to_address = first_of payload [''to'', ''to_address''],
             ne_method_selector = first_of payload [''method_selector'', ''selector''],
             ne_decoded_operation = decode_operation (tr_event_type row) payload,
             ne_amount = amount,
             ne_token_address = first_of payload [''token'', ''token_address'', ''contract_address''],
             ne_token_decimals = decimals,
             ne_token_symbol = first_of payload [''token_symbol'', ''symbol''],
             ne_block_number = block, ne_observed_at = tr_observed_at row,
             ne_source = source, ne_stage = resolve_stage registry source payload,
             ne_preconfirmation_received_at = get payload ''preconfirmation_received_at'',
             ne_external_reference = first_of payload
               [''external_reference'', ''subscription_id'', ''business_reference''],
             ne_evidence_source = text_or (tr_evidence_source row) ''live'',
             ne_telemetry_id = id_text (tr_id row), ne_asset_id = id_text (tr_asset_id row),
             ne_signature_valid = truthy tx\<rparr>))))"

section \<open>Lemmas\<close>

text \<open>The two readers of base units agree.\<close>

lemma exact_decimal_to_units: "exact_decimal = to_units"
  by (rule ext) (simp add: exact_decimal_def to_units_def)

lemma decode_operation_word:
  "decode_operation et p = Some op \<Longrightarrow> op = ''mint'' \<or> op = ''burn''"
  by (auto simp: decode_operation_def Let_def split: if_splits)

lemma source_stage_no_preconfirmation:
  "map_of SOURCE_STAGE k = Some s \<Longrightarrow> s = STAGE_FINALIZED \<or> s = STAGE_CONFIRMED"
  by (auto simp: SOURCE_STAGE_def split: if_splits)

lemma resolve_stage_cases:
  "if upper_key (first_of payload [''telemetry_stage'', ''stage'']) = STAGE_PRECONFIRMATION \<and>
      preconfirmation_provider registry (lower_key (PStr source)) = Some (Some True)
   then resolve_stage registry source payload = STAGE_PRECONFIRMATION
   else resolve_stage registry source payload \<in> {STAGE_CONFIRMED, STAGE_FINALIZED, STAGE_UNKNOWN}"
proof -
  have live: "(case a of Some (Some True) \<Rightarrow> True | _ \<Rightarrow> False) \<longleftrightarrow> a = Some (Some True)"
    for a :: "bool option option" by (auto split: option.splits bool.splits)
  show ?thesis
    using source_stage_no_preconfirmation [of "lower_key (PStr source)"]
    unfolding resolve_stage_def Let_def live
    by (cases "map_of SOURCE_STAGE (lower_key (PStr source))") auto
qed

lemma preconfirmation_available_iff:
  "preconfirmation_available r \<longleftrightarrow> (\<exists>k. (k, Some True) \<in> set r)"
proof (induction r rule: preconfirmation_available.induct)
  case (2 k a rest)
  then show ?case by (cases a) (auto split: bool.splits)
qed simp

lemma register_distinct:
  "distinct (map fst r) \<Longrightarrow> distinct (map fst (register_preconfirmation_provider k a r))"
  by (simp add: register_preconfirmation_provider_def distinct_update)

lemma register_lookup:
  "preconfirmation_provider (register_preconfirmation_provider k a r) k' =
     (if k' = k then Some a else preconfirmation_provider r k')"
  by (simp add: register_preconfirmation_provider_def preconfirmation_provider_def update_conv')

section \<open>Properties\<close>

text \<open>
  No unearned claim. Telemetry is called a preconfirmation exactly when its row is stamped so
  and the provider registered under its source answers that it is available. In particular a stage
  is always one of the four, and with no registered provider it is never a preconfirmation.
\<close>

theorem preconfirmation_iff:
  "(resolve_stage registry source payload = STAGE_PRECONFIRMATION \<longleftrightarrow>
     upper_key (first_of payload [''telemetry_stage'', ''stage'']) = STAGE_PRECONFIRMATION \<and>
     preconfirmation_provider registry (lower_key (PStr source)) = Some (Some True)) \<and>
   resolve_stage registry source payload \<in> set TELEMETRY_STAGES \<and>
   resolve_stage [] source payload \<noteq> STAGE_PRECONFIRMATION"
  using resolve_stage_cases [of payload registry source] resolve_stage_cases [of payload "[]" source]
  by (auto simp: TELEMETRY_STAGES_def preconfirmation_provider_def split: if_splits)

section \<open>Where the normalizer raises\<close>

text \<open>
  An infinite number in a payload is not mapped to no integer, as a malformed one is; its
  \<open>OverflowError\<close> leaves the normalizer.
\<close>

lemma infinite_block_number_raises:
  "normalize_telemetry_row []
     \<lparr>tr_id = PNone, tr_asset_id = PNone, tr_chain_id = PNone, tr_provider_type = PNone,
      tr_event_type = PNone, tr_observed_at = PNone, tr_evidence_source = PNone,
      tr_payload = map_of [(''block_number'', PFloat ''inf'')]\<rparr> = Inl ()"
  by code_simp

end
