(* ===== verification/Operational_Matcher.thy ===== *)
theory Operational_Matcher
  imports Telemetry_Normalization
begin

text \<open>
  The operational matcher of \<open>services/api/app/domains/operational_integrity\<close>: the
  configuration of \<open>config.py\<close>, checks and conclusions of \<open>schemas.py\<close>, and the verdicts of
  \<open>matcher.py\<close> on an observed issuance, a settlement deadline and a supply reconciliation.

  Its arithmetic runs in a context of 90 digits. The configuration is the resolved one,
  \<open>config or engine_config()\<close>; an empty authoritative state is no state. Missing columns of a
  row are \<open>None\<close>. The em dash of two reason texts is written as a hyphen.
\<close>

section \<open>Vocabulary and configuration\<close>

abbreviation OI_MATCHER_VERSION :: string where
  "OI_MATCHER_VERSION \<equiv> ''op-integrity-v1''"
abbreviation CATEGORY_CYBER_SECURITY :: string where
  "CATEGORY_CYBER_SECURITY \<equiv> ''CYBER_SECURITY''"
abbreviation CATEGORY_OPERATIONAL_INTEGRITY :: string where
  "CATEGORY_OPERATIONAL_INTEGRITY \<equiv> ''OPERATIONAL_INTEGRITY''"

definition CATEGORIES :: "string list" where
  [vocab_simps]: "CATEGORIES = [CATEGORY_CYBER_SECURITY, CATEGORY_OPERATIONAL_INTEGRITY]"

definition normalize_category :: "pyval \<Rightarrow> string option" where
  "normalize_category value = (let key = upper_key value in if key \<in> set CATEGORIES then Some key else None)"

abbreviation UNMATCHED_ISSUANCE :: string where
  "UNMATCHED_ISSUANCE \<equiv> ''unmatched_issuance''"
abbreviation SETTLEMENT_TIMEOUT :: string where
  "SETTLEMENT_TIMEOUT \<equiv> ''settlement_timeout''"
abbreviation NAV_VALUATION_DRIFT :: string where
  "NAV_VALUATION_DRIFT \<equiv> ''nav_valuation_drift''"
abbreviation TRANSFER_AGENT_MISMATCH :: string where
  "TRANSFER_AGENT_MISMATCH \<equiv> ''transfer_agent_mismatch''"
abbreviation UNAUTHORIZED_ADMIN_CHANGE :: string where
  "UNAUTHORIZED_ADMIN_CHANGE \<equiv> ''unauthorized_admin_change''"
abbreviation SETTLEMENT_DEADLINE_EXCEEDED :: string where
  "SETTLEMENT_DEADLINE_EXCEEDED \<equiv> ''SETTLEMENT_DEADLINE_EXCEEDED''"
abbreviation OPERATION_NOT_DECODED :: string where
  "OPERATION_NOT_DECODED \<equiv> ''OPERATION_NOT_DECODED''"

definition DETECTION_TYPES :: "string list" where
  [vocab_simps]: "DETECTION_TYPES = [UNMATCHED_ISSUANCE, SETTLEMENT_TIMEOUT, NAV_VALUATION_DRIFT,
     TRANSFER_AGENT_MISMATCH, UNAUTHORIZED_ADMIN_CHANGE]"

definition ANOMALY_REASON_CODES :: "string list" where
  [vocab_simps]: "ANOMALY_REASON_CODES = [NO_MATCHING_AUTHORIZED_ISSUANCE, NO_MATCHING_AUTHORIZED_REDEMPTION,
     AMOUNT_MISMATCH, REFERENCE_MISMATCH, SETTLEMENT_NOT_COMPLETE, OUTSIDE_AUTHORIZED_WINDOW,
     SETTLEMENT_DEADLINE_EXCEEDED]"

definition INDETERMINATE_REASON_CODES :: "string list" where
  [vocab_simps]: "INDETERMINATE_REASON_CODES = [AUTHORITATIVE_SOURCE_MISSING,
     AUTHORITATIVE_SOURCE_UNAVAILABLE, AUTHORITATIVE_SOURCE_STALE, OPERATION_NOT_DECODED]"

definition DEFAULT_SEVERITY :: "(string \<times> string) list" where
  "DEFAULT_SEVERITY = [(UNMATCHED_ISSUANCE, ''critical''), (SETTLEMENT_TIMEOUT, ''high''),
     (NAV_VALUATION_DRIFT, ''high''), (TRANSFER_AGENT_MISMATCH, ''medium''),
     (UNAUTHORIZED_ADMIN_CHANGE, ''medium'')]"

definition SEVERITY_ENV :: "(string \<times> string) list" where
  "SEVERITY_ENV =
    [(UNMATCHED_ISSUANCE, ''OPERATIONAL_INTEGRITY_SEVERITY_UNMATCHED_ISSUANCE''),
     (SETTLEMENT_TIMEOUT, ''OPERATIONAL_INTEGRITY_SEVERITY_SETTLEMENT_TIMEOUT''),
     (NAV_VALUATION_DRIFT, ''OPERATIONAL_INTEGRITY_SEVERITY_NAV_DRIFT''),
     (TRANSFER_AGENT_MISMATCH, ''OPERATIONAL_INTEGRITY_SEVERITY_TRANSFER_AGENT_MISMATCH''),
     (UNAUTHORIZED_ADMIN_CHANGE, ''OPERATIONAL_INTEGRITY_SEVERITY_UNAUTHORIZED_ADMIN_CHANGE'')]"

definition VALID_SEVERITIES :: "string list" where
  [vocab_simps]: "VALID_SEVERITIES = [''low'', ''medium'', ''high'', ''critical'']"

record oi_settings =
  os_enabled :: bool
  os_batch_size :: int
  os_lookback_seconds :: int
  os_authorization_limit :: int
  os_match_window_seconds :: int
  os_amount_tolerance_units :: dec
  os_authoritative_stale_seconds :: int
  os_settlement_deadline_seconds :: int
  os_nav_drift_tolerance :: dec
  os_severity_by_type :: "(string \<times> string) list"
  os_deterministic_confidence :: dec
  os_matcher_version :: string

definition severity_setting :: "environ \<Rightarrow> string \<Rightarrow> string \<Rightarrow> string" where
  "severity_setting env dtype env_name =
     (let value = py_lower (py_strip (case env env_name of Some s \<Rightarrow> s | None \<Rightarrow> []))
      in if value \<in> set VALID_SEVERITIES then value
         else case map_of DEFAULT_SEVERITY dtype of Some s \<Rightarrow> s | None \<Rightarrow> [])"

definition oi_engine_config :: "environ \<Rightarrow> oi_settings" where
  "oi_engine_config env =
     \<lparr>os_enabled = env_flag env ''OPERATIONAL_INTEGRITY_ENABLED'' False,
      os_batch_size = max 1 (env_int env ''OPERATIONAL_INTEGRITY_BATCH_SIZE'' 200),
      os_lookback_seconds = max 60 (env_int env ''OPERATIONAL_INTEGRITY_LOOKBACK_SECONDS'' 86400),
      os_authorization_limit = max 1 (env_int env ''OPERATIONAL_INTEGRITY_AUTHORIZATION_LIMIT'' 50),
      os_match_window_seconds = max 60 (env_int env ''OPERATIONAL_INTEGRITY_MATCH_WINDOW_SECONDS'' 86400),
      os_amount_tolerance_units =
        env_decimal env ''OPERATIONAL_INTEGRITY_AMOUNT_TOLERANCE_UNITS'' (Finite (FinDec False 0 0)),
      os_authoritative_stale_seconds =
        max 60 (env_int env ''OPERATIONAL_INTEGRITY_AUTHORITATIVE_STALE_SECONDS'' 3600),
      os_settlement_deadline_seconds =
        max 60 (env_int env ''OPERATIONAL_INTEGRITY_SETTLEMENT_DEADLINE_SECONDS'' 172800),
      os_nav_drift_tolerance =
        env_decimal env ''OPERATIONAL_INTEGRITY_NAV_DRIFT_TOLERANCE'' (Finite (FinDec False 5 (-3))),
      os_severity_by_type = map (\<lambda>(dtype, name). (dtype, severity_setting env dtype name)) SEVERITY_ENV,
      os_deterministic_confidence =
        env_decimal env ''OPERATIONAL_INTEGRITY_DETERMINISTIC_CONFIDENCE'' (Finite (FinDec False 991 (-3))),
      os_matcher_version = OI_MATCHER_VERSION\<rparr>"

definition severity_for :: "string \<Rightarrow> oi_settings \<Rightarrow> string" where
  "severity_for detection_type cfg =
     (case map_of (os_severity_by_type cfg) detection_type of
        Some s \<Rightarrow> if s = [] then ''medium'' else s | None \<Rightarrow> ''medium'')"

text \<open>Detector support, without the prose of its reasons.\<close>

record detector_entry =
  de_supported :: bool
  de_category :: string
  de_evidence_quality :: string
  de_requires :: "string list"

definition detector_support :: "(string \<times> detector_entry) list" where
  "detector_support =
    [(UNMATCHED_ISSUANCE, \<lparr>de_supported = True, de_category = CATEGORY_OPERATIONAL_INTEGRITY,
        de_evidence_quality = ''event_logs'', de_requires = [''asset_authorized_issuances'']\<rparr>),
     (SETTLEMENT_TIMEOUT, \<lparr>de_supported = True, de_category = CATEGORY_OPERATIONAL_INTEGRITY,
        de_evidence_quality = ''normalized_telemetry'', de_requires = [''asset_authorized_issuances'']\<rparr>),
     (TRANSFER_AGENT_MISMATCH, \<lparr>de_supported = True, de_category = CATEGORY_OPERATIONAL_INTEGRITY,
        de_evidence_quality = ''event_logs'', de_requires = [''asset_authorized_issuances'']\<rparr>),
     (NAV_VALUATION_DRIFT, \<lparr>de_supported = False, de_category = CATEGORY_OPERATIONAL_INTEGRITY,
        de_evidence_quality = ''normalized_telemetry'', de_requires = [''asset_nav_observations'']\<rparr>),
     (UNAUTHORIZED_ADMIN_CHANGE, \<lparr>de_supported = False, de_category = CATEGORY_OPERATIONAL_INTEGRITY,
        de_evidence_quality = ''decoded_call'', de_requires = [''authoritative_admin_authorizations'']\<rparr>)]"

definition supported_detection_types :: "string list" where
  "supported_detection_types = map fst (filter (\<lambda>(k, v). de_supported v) detector_support)"

definition is_supported :: "string \<Rightarrow> bool" where
  "is_supported detection_type =
     (case map_of detector_support detection_type of Some v \<Rightarrow> de_supported v | None \<Rightarrow> False)"

section \<open>Checks and conclusions\<close>

abbreviation CHECK_PASS :: string where
  "CHECK_PASS \<equiv> ''PASS''"
abbreviation CHECK_FAIL :: string where
  "CHECK_FAIL \<equiv> ''FAIL''"
abbreviation CHECK_UNKNOWN :: string where
  "CHECK_UNKNOWN \<equiv> ''UNKNOWN''"

abbreviation CHECK_ON_CHAIN_EVENT :: string where
  "CHECK_ON_CHAIN_EVENT \<equiv> ''on_chain_event''"
abbreviation CHECK_TRANSFER_AGENT_MATCH :: string where
  "CHECK_TRANSFER_AGENT_MATCH \<equiv> ''transfer_agent_match''"
abbreviation CHECK_SETTLEMENT_MATCH :: string where
  "CHECK_SETTLEMENT_MATCH \<equiv> ''settlement_match''"
abbreviation CHECK_SIGNER_VALIDITY :: string where
  "CHECK_SIGNER_VALIDITY \<equiv> ''signer_validity''"

definition OI_CHECK_ORDER :: "string list" where
  [vocab_simps]: "OI_CHECK_ORDER =
    [CHECK_ON_CHAIN_EVENT, CHECK_TRANSFER_AGENT_MATCH, CHECK_SETTLEMENT_MATCH, CHECK_SIGNER_VALIDITY]"

definition OI_CHECK_LABELS :: "(string \<times> string) list" where
  "OI_CHECK_LABELS = [(CHECK_ON_CHAIN_EVENT, ''On-Chain Event''),
     (CHECK_TRANSFER_AGENT_MATCH, ''Transfer-Agent''), (CHECK_SETTLEMENT_MATCH, ''Settlement''),
     (CHECK_SIGNER_VALIDITY, ''Signer Validity'')]"

abbreviation CONCLUSION_OPERATIONALLY_AUTHORIZED :: string where
  "CONCLUSION_OPERATIONALLY_AUTHORIZED \<equiv> ''OPERATIONALLY_AUTHORIZED''"
abbreviation CONCLUSION_CRITICAL_OPERATIONAL_ANOMALY :: string where
  "CONCLUSION_CRITICAL_OPERATIONAL_ANOMALY \<equiv> ''CRITICAL_OPERATIONAL_ANOMALY''"
abbreviation CONCLUSION_OPERATIONAL_ANOMALY :: string where
  "CONCLUSION_OPERATIONAL_ANOMALY \<equiv> ''OPERATIONAL_ANOMALY''"
abbreviation CONCLUSION_INDETERMINATE :: string where
  "CONCLUSION_INDETERMINATE \<equiv> ''INDETERMINATE''"

record operational_check =
  ck_key :: string
  ck_status :: string
  ck_reason :: string
  ck_source :: pyval

definition oi_check :: "string \<Rightarrow> string \<Rightarrow> string \<Rightarrow> pyval \<Rightarrow> operational_check" where
  "oi_check key status reason source =
     \<lparr>ck_key = key, ck_status = status, ck_reason = reason, ck_source = source\<rparr>"

type_synonym checks = "(string \<times> operational_check) list"

definition check_statuses :: "checks \<Rightarrow> string list" where
  "check_statuses checks = map (ck_status \<circ> snd) checks"

definition conclusion_from :: "checks \<Rightarrow> string \<Rightarrow> string" where
  "conclusion_from checks severity =
     (let statuses = set (check_statuses checks) in
      if CHECK_FAIL \<in> statuses then
        (if py_lower severity = ''critical'' then CONCLUSION_CRITICAL_OPERATIONAL_ANOMALY
         else CONCLUSION_OPERATIONAL_ANOMALY)
      else if CHECK_UNKNOWN \<in> statuses then CONCLUSION_INDETERMINATE
      else CONCLUSION_OPERATIONALLY_AUTHORIZED)"

fun checks_as_dict :: "checks \<Rightarrow> checks" where
  "checks_as_dict checks =
     concat (map (\<lambda>k. case map_of checks k of Some c \<Rightarrow> [(k, c)] | None \<Rightarrow> []) OI_CHECK_ORDER)"

record oi_event =
  oe_workspace_id :: string
  oe_asset_id :: "string option"
  oe_category :: string
  oe_detection_type :: string
  oe_severity :: string
  oe_status :: string
  oe_reason_code :: string
  oe_confidence :: dec
  oe_checks :: checks
  oe_conclusion :: string
  oe_event_type :: "string option"
  oe_chain_id :: "int option"
  oe_operation :: "string option"
  oe_observed_amount :: "fin_dec option"
  oe_expected_amount :: "fin_dec option"
  oe_variance_amount :: "fin_dec option"
  oe_amount_decimals :: pyval
  oe_amount_unit :: pyval
  oe_tx_hash :: pyval
  oe_block_number :: "int option"
  oe_telemetry_source :: "string option"
  oe_telemetry_stage :: string
  oe_telemetry_observed_at :: pyval
  oe_preconfirmation_received_at :: pyval
  oe_external_reference :: pyval
  oe_matched_authorization_reference :: pyval
  oe_matcher_version :: string
  oe_evidence_source :: string
  oe_first_seen_at :: pyval
  oe_provenance :: "(string \<times> pyval) list"

definition oe_is_anomaly :: "oi_event \<Rightarrow> bool" where
  "oe_is_anomaly e = (oe_conclusion e \<in>
     {CONCLUSION_CRITICAL_OPERATIONAL_ANOMALY, CONCLUSION_OPERATIONAL_ANOMALY})"

definition oe_is_indeterminate :: "oi_event \<Rightarrow> bool" where
  "oe_is_indeterminate e = (oe_conclusion e = CONCLUSION_INDETERMINATE)"

text \<open>\<open>value.isoformat()\<close> where there is one, else the text of the value.\<close>

definition iso_text :: "pyval \<Rightarrow> pyval" where
  "iso_text v = (case v of PNone \<Rightarrow> PNone
     | PTime t s \<Rightarrow> PStr (replace_char (CHR '' '') (CHR ''T'') s)
     | _ \<Rightarrow> PStr (py_str v))"

section \<open>Reconciling one observed operation\<close>

record authoritative_row =
  ar_source_name :: pyval
  ar_source_status :: pyval
  ar_observed_at :: pyval

definition authoritative_source_state ::
  "authoritative_row option \<Rightarrow> pyval \<Rightarrow> oi_settings \<Rightarrow> string \<times> pyval" where
  "authoritative_source_state authoritative now cfg =
     (case authoritative of
        None \<Rightarrow> (''missing'', PNone)
      | Some row \<Rightarrow>
          let name = (if text_of (ar_source_name row) = [] then PNone else PStr (text_of (ar_source_name row)));
              status = py_lower (py_strip (text_or (ar_source_status row) ''reported''))
          in if status \<in> {''unavailable'', ''error'', ''missing''} then
               (if status = ''missing'' then ''missing'' else ''unavailable'', name)
             else (case age_seconds (ar_observed_at row) now of
                 Some age \<Rightarrow> (if age > os_authoritative_stale_seconds cfg then ''stale'' else ''ok'', name)
               | None \<Rightarrow> (''ok'', name)))"

definition settlement_check ::
  "match_result \<Rightarrow> authorized_issuance list \<Rightarrow> pyval \<Rightarrow> operational_check" where
  "settlement_check m candidates source_name =
     (case (if mr_outcome m = MATCH then mr_matched m else None) of
        Some c \<Rightarrow> oi_check CHECK_SETTLEMENT_MATCH CHECK_PASS
          (''Settlement '' @ py_lower (text_or (ai_settlement_state c) ''cleared'')) source_name
      | None \<Rightarrow>
          let settled = filter (\<lambda>c. is_settled (ai_settlement_state c)) candidates
          in if candidates = [] then
               oi_check CHECK_SETTLEMENT_MATCH CHECK_FAIL ''No matching settlement'' source_name
             else if settled = [] then
               oi_check CHECK_SETTLEMENT_MATCH CHECK_FAIL ''Settlement not cleared'' source_name
             else oi_check CHECK_SETTLEMENT_MATCH CHECK_FAIL ''No matching settlement'' source_name)"

definition detection_type_for :: "string \<Rightarrow> string" where
  "detection_type_for reason =
     (if reason \<in> {NO_MATCHING_AUTHORIZED_ISSUANCE, NO_MATCHING_AUTHORIZED_REDEMPTION} then UNMATCHED_ISSUANCE
      else if reason \<in> {AMOUNT_MISMATCH, REFERENCE_MISMATCH, OUTSIDE_AUTHORIZED_WINDOW}
      then TRANSFER_AGENT_MISMATCH
      else if reason \<in> {SETTLEMENT_NOT_COMPLETE, SETTLEMENT_DEADLINE_EXCEEDED} then SETTLEMENT_TIMEOUT
      else UNMATCHED_ISSUANCE)"

record authorization_row =
  au_id :: pyval
  au_operation :: pyval
  au_amount :: pyval
  au_settlement :: pyval
  au_reference :: pyval
  au_authorized_at :: pyval
  au_effective_from :: pyval
  au_effective_until :: pyval
  au_source :: pyval
  au_evidence :: pyval
  au_token_decimals :: pyval

definition dec_or_none :: "fin_dec option \<Rightarrow> pyval" where
  "dec_or_none x = (case x of None \<Rightarrow> PNone | Some d \<Rightarrow> PDec (Finite d))"

definition to_authorized_issuance :: "authorization_row \<Rightarrow> authorized_issuance" where
  "to_authorized_issuance row =
     \<lparr>ai_id = id_text (au_id row),
      ai_operation = PStr (text_or (au_operation row) ''mint''),
      ai_amount = dec_or_none (to_units (au_amount row)),
      ai_settlement_state = PStr (text_or (au_settlement row) ''pending''),
      ai_external_reference = au_reference row,
      ai_authorized_at = au_authorized_at row,
      ai_effective_from = au_effective_from row,
      ai_effective_until = au_effective_until row,
      ai_source_name = au_source row,
      ai_evidence_source = text_or (au_evidence row) ''live''\<rparr>"

definition decoded_operation :: "normalized_chain_event \<Rightarrow> string option" where
  "decoded_operation event = (let op = lower_key (opt_str (ne_decoded_operation event)) in
     if op = [] then None else Some op)"

definition matcher_rules :: "oi_settings \<Rightarrow> reconciliation_rules" where
  "matcher_rules cfg = default_rules
     \<lparr>ru_rule_id := os_matcher_version cfg, ru_rule_version := 1,
      ru_variance_tolerance_units := PDec (os_amount_tolerance_units cfg),
      ru_match_window_seconds := os_match_window_seconds cfg,
      ru_authoritative_stale_seconds := os_authoritative_stale_seconds cfg\<rparr>"

text \<open>\<open>max(usable, key=lambda a: abs(a))\<close>: the first of the largest magnitudes.\<close>

fun largest :: "nat \<Rightarrow> fin_dec \<Rightarrow> fin_dec list \<Rightarrow> fin_dec" where
  "largest p best [] = best"
| "largest p best (x # xs) =
     largest p (if fd_less (fd_abs p best) (fd_abs p x) then x else best) xs"

definition py_capitalize :: "string \<Rightarrow> string" where
  "py_capitalize s = (case s of [] \<Rightarrow> []
     | c # cs \<Rightarrow> (if of_char c = (223 :: nat) then ''Ss'' else upper_char c) @ py_lower cs)"

abbreviation matcher_precision :: nat where
  "matcher_precision \<equiv> 90"

definition observed_checks :: "normalized_chain_event \<Rightarrow> checks" where
  "observed_checks event =
     (let op = decoded_operation event;
          label = PStr (source_label (Some (ne_source event)))
      in [(CHECK_ON_CHAIN_EVENT,
           if op \<in> {Some ''mint'', Some ''burn''} \<and> ne_amount event \<noteq> None
           then oi_check CHECK_ON_CHAIN_EVENT CHECK_PASS (py_capitalize (the op) @ '' observed'') label
           else oi_check CHECK_ON_CHAIN_EVENT CHECK_UNKNOWN
                  ''Operation could not be decoded from the observed event'' label),
          (CHECK_SIGNER_VALIDITY,
           oi_check CHECK_SIGNER_VALIDITY
             (if ne_signature_valid event then CHECK_PASS else CHECK_UNKNOWN)
             (if ne_signature_valid event then ''Cryptographically valid''
              else ''No transaction reference to verify'')
             (PStr (case ne_chain_id event of
                Some i \<Rightarrow> if i \<noteq> 0 then ''chain '' @ str_int i else ''chain''
              | None \<Rightarrow> ''chain'')))])"

definition opt_text :: "string \<Rightarrow> pyval" where
  "opt_text s = (if s = [] then PNone else PStr s)"

definition opt_int :: "int option \<Rightarrow> pyval" where
  "opt_int i = (case i of None \<Rightarrow> PNone | Some n \<Rightarrow> PInt n)"

definition issuance_event ::
  "string \<Rightarrow> normalized_chain_event \<Rightarrow> authoritative_row option \<Rightarrow> oi_settings \<Rightarrow> string option
     \<Rightarrow> checks \<Rightarrow> string \<Rightarrow> string \<Rightarrow> string \<Rightarrow> fin_dec option \<Rightarrow> pyval \<Rightarrow> oi_event" where
  "issuance_event workspace_id event authoritative cfg asset_name checks reason dtype status expected matched =
     (let op = decoded_operation event;
          magnitude = map_option (fd_abs matcher_precision) (ne_amount event);
          severity = severity_for dtype cfg;
          conclusion = conclusion_from checks severity;
          source = opt_text (case authoritative of None \<Rightarrow> [] | Some row \<Rightarrow> text_of (ar_source_name row))
      in \<lparr>oe_workspace_id = workspace_id, oe_asset_id = ne_asset_id event,
          oe_category = CATEGORY_OPERATIONAL_INTEGRITY, oe_detection_type = dtype,
          oe_severity = (if conclusion = CONCLUSION_INDETERMINATE then ''medium'' else severity),
          oe_status = status, oe_reason_code = reason,
          oe_confidence = os_deterministic_confidence cfg,
          oe_checks = checks, oe_conclusion = conclusion,
          oe_event_type = (if op = Some ''mint'' then Some ''MINT''
                           else if op = Some ''burn'' then Some ''BURN'' else None),
          oe_chain_id = ne_chain_id event, oe_operation = op,
          oe_observed_amount = magnitude, oe_expected_amount = expected,
          oe_variance_amount = (case (magnitude, expected) of
             (Some m, Some e) \<Rightarrow> Some (fd_sub matcher_precision m e) | _ \<Rightarrow> None),
          oe_amount_decimals = opt_int (ne_token_decimals event),
          oe_amount_unit = ne_token_symbol event,
          oe_tx_hash = ne_tx_hash event, oe_block_number = ne_block_number event,
          oe_telemetry_source = Some (ne_source event), oe_telemetry_stage = ne_stage event,
          oe_telemetry_observed_at = ne_observed_at event,
          oe_preconfirmation_received_at =
            (if ne_stage event = STAGE_PRECONFIRMATION then ne_preconfirmation_received_at event else PNone),
          oe_external_reference = ne_external_reference event,
          oe_matched_authorization_reference = matched,
          oe_matcher_version = os_matcher_version cfg,
          oe_evidence_source = ne_evidence_source event,
          oe_first_seen_at = ne_observed_at event,
          oe_provenance =
            [(''telemetry_id'', opt_str (ne_telemetry_id event)),
             (''telemetry_source'', PStr (ne_source event)),
             (''telemetry_stage'', PStr (ne_stage event)),
             (''chain_id'', opt_int (ne_chain_id event)),
             (''tx_hash'', ne_tx_hash event),
             (''block_number'', opt_int (ne_block_number event)),
             (''observed_at'', iso_text (ne_observed_at event)),
             (''decoder'', PStr ''operational-integrity-normalizer-v1''),
             (''matcher'', PStr (os_matcher_version cfg)),
             (''authoritative_source'', source),
             (''asset_name'', opt_str asset_name),
             (''evidence_source'', PStr (ne_evidence_source event))]\<rparr>)"

definition agent_reason_for :: "string \<Rightarrow> string \<Rightarrow> string" where
  "agent_reason_for op reason =
     (if reason \<in> {NO_MATCHING_AUTHORIZED_ISSUANCE, NO_MATCHING_AUTHORIZED_REDEMPTION} then
        (if op = ''mint'' then ''No authorized issuance'' else ''No authorized redemption'')
      else if reason = AMOUNT_MISMATCH then ''Authorized amount does not match the observed amount''
      else if reason = REFERENCE_MISMATCH then ''Business reference does not match the authorization record''
      else if reason = OUTSIDE_AUTHORIZED_WINDOW then ''Authorization falls outside its permitted window''
      else if reason = SETTLEMENT_NOT_COMPLETE then ''Authorization on record, settlement not complete''
      else ''No authorized issuance'')"

definition source_gap :: "string \<Rightarrow> string \<times> string" where
  "source_gap state =
     (if state = ''missing'' then
        (AUTHORITATIVE_SOURCE_MISSING, ''No authoritative source is recorded for this asset'')
      else if state = ''unavailable'' then
        (AUTHORITATIVE_SOURCE_UNAVAILABLE, ''The authoritative source did not return a usable state'')
      else (AUTHORITATIVE_SOURCE_STALE,
        ''The authoritative state is older than the configured freshness threshold''))"

definition expected_amount :: "string \<Rightarrow> authorized_issuance list \<Rightarrow> fin_dec" where
  "expected_amount reason same_operation =
     (if reason \<in> {NO_MATCHING_AUTHORIZED_ISSUANCE, NO_MATCHING_AUTHORIZED_REDEMPTION} \<and> same_operation = []
      then FinDec False 0 0
      else case List.map_filter (\<lambda>c. to_units (ai_amount c)) same_operation of
             [] \<Rightarrow> FinDec False 0 0
           | x # xs \<Rightarrow> largest matcher_precision x xs)"

definition unknown_pair :: "string \<Rightarrow> pyval \<Rightarrow> checks" where
  "unknown_pair reason source =
     [(CHECK_TRANSFER_AGENT_MATCH, oi_check CHECK_TRANSFER_AGENT_MATCH CHECK_UNKNOWN reason source),
      (CHECK_SETTLEMENT_MATCH, oi_check CHECK_SETTLEMENT_MATCH CHECK_UNKNOWN reason source)]"

text \<open>The authorization search and its classification, step 5.\<close>

definition search_authorizations ::
  "string \<Rightarrow> normalized_chain_event \<Rightarrow> authoritative_row option \<Rightarrow> authorization_row list
     \<Rightarrow> oi_settings \<Rightarrow> string option \<Rightarrow> pyval \<Rightarrow> oi_event" where
  "search_authorizations workspace_id event authoritative authorizations cfg asset_name source_name =
     (let op = (case decoded_operation event of Some w \<Rightarrow> w | None \<Rightarrow> []);
          candidates = map to_authorized_issuance authorizations;
          same_operation = filter (\<lambda>c. py_lower (text_of (ai_operation c)) = op) candidates;
          m = match_authorization matcher_precision (decoded_operation event)
                (map_option (fd_abs matcher_precision) (ne_amount event))
                (ne_external_reference event) (ne_observed_at event) candidates (matcher_rules cfg);
          settlement = (CHECK_SETTLEMENT_MATCH, settlement_check m same_operation source_name)
      in case (if mr_outcome m = MATCH then mr_matched m else None) of
           Some c \<Rightarrow>
             issuance_event workspace_id event authoritative cfg asset_name
               (observed_checks event @
                [(CHECK_TRANSFER_AGENT_MATCH,
                  oi_check CHECK_TRANSFER_AGENT_MATCH CHECK_PASS
                    (if op = ''mint'' then ''Authorized issuance on record''
                     else ''Authorized redemption on record'')
                    (py_or (ai_source_name c) source_name)), settlement])
               (if op = ''mint'' then MATCHED_AUTHORIZED_ISSUANCE else MATCHED_AUTHORIZED_REDEMPTION)
               UNMATCHED_ISSUANCE ''authorized'' (to_units (ai_amount c)) (ai_external_reference c)
         | None \<Rightarrow>
             let reason = (case mr_reason_code m of
                   Some r \<Rightarrow> if r = [] then NO_MATCHING_AUTHORIZED_ISSUANCE else r
                 | None \<Rightarrow> NO_MATCHING_AUTHORIZED_ISSUANCE)
             in issuance_event workspace_id event authoritative cfg asset_name
               (observed_checks event @
                [(CHECK_TRANSFER_AGENT_MATCH,
                  oi_check CHECK_TRANSFER_AGENT_MATCH
                    (if reason = SETTLEMENT_NOT_COMPLETE then CHECK_PASS else CHECK_FAIL)
                    (agent_reason_for op reason) source_name), settlement])
               reason (detection_type_for reason) ''anomaly''
               (Some (expected_amount reason same_operation)) PNone)"

definition evaluate_issuance ::
  "string \<Rightarrow> normalized_chain_event \<Rightarrow> authoritative_row option \<Rightarrow> authorization_row list
     \<Rightarrow> pyval \<Rightarrow> oi_settings \<Rightarrow> string option \<Rightarrow> oi_event" where
  "evaluate_issuance workspace_id event authoritative authorizations now cfg asset_name =
     (if decoded_operation event \<notin> {Some ''mint'', Some ''burn''} \<or> ne_amount event = None then
        issuance_event workspace_id event authoritative cfg asset_name
          (observed_checks event @
           unknown_pair ''Not evaluated - the on-chain operation was not decoded'' PNone)
          OPERATION_NOT_DECODED UNMATCHED_ISSUANCE ''indeterminate'' None PNone
      else
        let (source_state, source_name) = authoritative_source_state authoritative now cfg
        in if source_state \<noteq> ''ok'' then
             let (code, text) = source_gap source_state
             in issuance_event workspace_id event authoritative cfg asset_name
                  (observed_checks event @ unknown_pair text source_name)
                  code UNMATCHED_ISSUANCE ''indeterminate'' None PNone
           else search_authorizations workspace_id event authoritative authorizations cfg asset_name
                  source_name)"

section \<open>Settlement deadlines\<close>

text \<open>
  The instant settlement is due, with where it comes from: the record's own
  \<open>effective_until\<close>, else its authorization time plus the given or the default number of seconds.
\<close>

definition settlement_due ::
  "authorization_row \<Rightarrow> oi_settings \<Rightarrow> int option \<Rightarrow> (int \<times> string) option" where
  "settlement_due a cfg deadline_seconds =
     (case epoch (au_effective_until a) of
        Some d \<Rightarrow> Some (d, ''authorization.effective_until'')
      | None \<Rightarrow>
          let window = (case deadline_seconds of Some s \<Rightarrow> s | None \<Rightarrow> os_settlement_deadline_seconds cfg);
              origin = (if deadline_seconds \<noteq> None then ''policy'' else ''default'')
          in case epoch (au_authorized_at a) of
               None \<Rightarrow> None
             | Some t \<Rightarrow> Some (t + window * 1000000, origin))"

definition deadline_event ::
  "string \<Rightarrow> authorization_row \<Rightarrow> string option \<Rightarrow> string option \<Rightarrow> oi_settings \<Rightarrow> string \<Rightarrow> oi_event" where
  "deadline_event workspace_id a asset_id asset_name cfg deadline_source =
     (let amount = to_units (au_amount a);
          source_name = opt_text (text_of (au_source a));
          checks =
            [(CHECK_ON_CHAIN_EVENT,
              oi_check CHECK_ON_CHAIN_EVENT CHECK_PASS ''Authorized operation on record'' source_name),
             (CHECK_TRANSFER_AGENT_MATCH,
              oi_check CHECK_TRANSFER_AGENT_MATCH CHECK_PASS ''Authorized by the transfer agent'' source_name),
             (CHECK_SETTLEMENT_MATCH,
              oi_check CHECK_SETTLEMENT_MATCH CHECK_FAIL
                (''Settlement deadline passed with state '' @ [CHR 0x22] @
                 py_lower (text_or (au_settlement a) ''unknown'') @ [CHR 0x22]) source_name),
             (CHECK_SIGNER_VALIDITY,
              oi_check CHECK_SIGNER_VALIDITY CHECK_UNKNOWN
                ''Not applicable - no on-chain event is being reconciled'' PNone)];
          severity = severity_for SETTLEMENT_TIMEOUT cfg;
          op = text_of (au_operation a);
          evidence = text_or (au_evidence a) ''live''
      in \<lparr>oe_workspace_id = workspace_id, oe_asset_id = asset_id,
          oe_category = CATEGORY_OPERATIONAL_INTEGRITY, oe_detection_type = SETTLEMENT_TIMEOUT,
          oe_severity = severity, oe_status = ''anomaly'', oe_reason_code = SETTLEMENT_DEADLINE_EXCEEDED,
          oe_confidence = os_deterministic_confidence cfg,
          oe_checks = checks, oe_conclusion = conclusion_from checks severity,
          oe_event_type = (if op = [] then None else Some (py_upper op)), oe_chain_id = None,
          oe_operation = (if op = [] then None else Some op),
          oe_observed_amount = amount, oe_expected_amount = amount,
          oe_variance_amount = (if amount \<noteq> None then Some (FinDec False 0 0) else None),
          oe_amount_decimals = au_token_decimals a, oe_amount_unit = PNone,
          oe_tx_hash = PNone, oe_block_number = None, oe_telemetry_source = None,
          oe_telemetry_stage = STAGE_UNKNOWN, oe_telemetry_observed_at = PNone,
          oe_preconfirmation_received_at = PNone,
          oe_external_reference = au_reference a, oe_matched_authorization_reference = au_reference a,
          oe_matcher_version = os_matcher_version cfg, oe_evidence_source = evidence,
          oe_first_seen_at = au_authorized_at a,
          oe_provenance =
            [(''authorization_id'', opt_text (text_of (au_id a))),
             (''authoritative_source'', source_name),
             (''settlement_state'', au_settlement a),
             (''deadline_source'', PStr deadline_source),
             (''matcher'', PStr (os_matcher_version cfg)),
             (''asset_name'', opt_str asset_name),
             (''evidence_source'', PStr evidence)]\<rparr>)"

definition evaluate_settlement_deadline ::
  "string \<Rightarrow> authorization_row \<Rightarrow> string option \<Rightarrow> string option \<Rightarrow> pyval \<Rightarrow> oi_settings
     \<Rightarrow> int option \<Rightarrow> oi_event option" where
  "evaluate_settlement_deadline workspace_id a asset_id asset_name now cfg deadline_seconds =
     (if is_settled (au_settlement a) then None
      else case epoch now of
        None \<Rightarrow> None
      | Some n \<Rightarrow>
          (case settlement_due a cfg deadline_seconds of
             None \<Rightarrow> None
           | Some (due, origin) \<Rightarrow>
               if n \<le> due then None
               else Some (deadline_event workspace_id a asset_id asset_name cfg origin)))"

section \<open>Checks of a supply reconciliation\<close>

record onchain_row =
  or_last_delta_operation :: pyval
  or_provider_type :: pyval
  or_tx_hash :: pyval
  or_chain_network :: pyval

definition supply_agent_reason :: "string \<Rightarrow> string" where
  "supply_agent_reason reason =
     (case map_of
        [(NO_MATCHING_AUTHORIZED_ISSUANCE, ''No authorized issuance''),
         (NO_MATCHING_AUTHORIZED_REDEMPTION, ''No authorized redemption''),
         (AMOUNT_MISMATCH, ''Authorized amount does not match the observed change''),
         (REFERENCE_MISMATCH, ''Business reference does not match the authorization record''),
         (OUTSIDE_AUTHORIZED_WINDOW, ''Authorization falls outside its permitted window''),
         (SETTLEMENT_NOT_COMPLETE, ''Authorization on record, settlement not complete'')] reason of
        Some t \<Rightarrow> t | None \<Rightarrow> ''No matching authorization'')"

definition checks_from_reconciliation ::
  "reconciliation_result \<Rightarrow> onchain_row option \<Rightarrow> pyval \<Rightarrow> checks" where
  "checks_from_reconciliation result onchain source =
     (let row = (case onchain of Some r \<Rightarrow> r
            | None \<Rightarrow> \<lparr>or_last_delta_operation = PNone, or_provider_type = PNone, or_tx_hash = PNone,
                or_chain_network = PNone\<rparr>);
          status = rr_status result;
          reason = rr_reason_code result;
          matched_op = (case mr_matched (rr_match result) of Some c \<Rightarrow> text_of (ai_operation c) | None \<Rightarrow> []);
          operation = (if matched_op = [] then text_of (or_last_delta_operation row) else matched_op);
          pair = (\<lambda>agent_status agent_reason settlement_status settlement_reason.
            [(CHECK_TRANSFER_AGENT_MATCH,
              oi_check CHECK_TRANSFER_AGENT_MATCH agent_status agent_reason source),
             (CHECK_SETTLEMENT_MATCH,
              oi_check CHECK_SETTLEMENT_MATCH settlement_status settlement_reason source)])
      in [(CHECK_ON_CHAIN_EVENT,
           oi_check CHECK_ON_CHAIN_EVENT CHECK_PASS
             (if operation \<noteq> [] then py_capitalize operation @ '' observed'' else ''Supply change observed'')
             (opt_text (text_of (or_provider_type row)))),
          (CHECK_SIGNER_VALIDITY,
           if truthy (or_tx_hash row) then
             oi_check CHECK_SIGNER_VALIDITY CHECK_PASS ''Cryptographically valid''
               (PStr (text_or (or_chain_network row) ''chain''))
           else oi_check CHECK_SIGNER_VALIDITY CHECK_UNKNOWN
             ''Not evaluated - the supply observation carries no transaction reference'' PNone)] @
         (if reason \<in> {MATCHED_AUTHORIZED_ISSUANCE, MATCHED_AUTHORIZED_REDEMPTION} then
            pair CHECK_PASS ''Authorized record on file'' CHECK_PASS ''Settlement cleared''
          else if status \<in> set INDETERMINATE_STATUSES \<or>
              reason \<in> {AUTHORITATIVE_SOURCE_MISSING, AUTHORITATIVE_SOURCE_STALE,
                AUTHORITATIVE_SOURCE_UNAVAILABLE} then
            pair CHECK_UNKNOWN ''Authoritative state could not be established''
              CHECK_UNKNOWN ''Authoritative state could not be established''
          else
            pair (if reason = SETTLEMENT_NOT_COMPLETE then CHECK_PASS else CHECK_FAIL)
              (supply_agent_reason reason) CHECK_FAIL
              (if reason = SETTLEMENT_NOT_COMPLETE then ''Settlement not cleared''
               else ''No matching settlement'')))"

section \<open>Specification\<close>

text \<open>
  A source a verdict may rest on, and an event that can be reconciled against it.
\<close>

definition source_usable :: "authoritative_row option \<Rightarrow> pyval \<Rightarrow> oi_settings \<Rightarrow> bool" where
  "source_usable authoritative now cfg \<longleftrightarrow>
     (\<exists>row. authoritative = Some row \<and>
        py_lower (py_strip (text_or (ar_source_status row) ''reported'')) \<notin> {''unavailable'', ''error'', ''missing''} \<and>
        \<not> (\<exists>age. age_seconds (ar_observed_at row) now = Some age \<and> age > os_authoritative_stale_seconds cfg))"

definition reconcilable ::
  "normalized_chain_event \<Rightarrow> authoritative_row option \<Rightarrow> pyval \<Rightarrow> oi_settings \<Rightarrow> bool" where
  "reconcilable event authoritative now cfg \<longleftrightarrow>
     decoded_operation event \<in> {Some ''mint'', Some ''burn''} \<and> ne_amount event \<noteq> None \<and>
     source_usable authoritative now cfg"

text \<open>The record that explains the event: the first one that authorizes it.\<close>

definition explanation ::
  "normalized_chain_event \<Rightarrow> authorization_row list \<Rightarrow> oi_settings \<Rightarrow> authorized_issuance option" where
  "explanation event authorizations cfg =
     (case (decoded_operation event, ne_amount event) of
        (Some op, Some a) \<Rightarrow> find (authorizes matcher_precision op a (ne_external_reference event)
            (ne_observed_at event) (matcher_rules cfg)) (map to_authorized_issuance authorizations)
      | _ \<Rightarrow> None)"

section \<open>Lemmas\<close>

interpretation category_words: vocabulary py_upper CATEGORIES normalize_category
proof
  show "normalize_category v = (if py_upper (py_strip (text_of v)) \<in> set CATEGORIES
      then Some (py_upper (py_strip (text_of v))) else None)" for v
    by (simp add: normalize_category_def upper_key_def Let_def)
  have "list_all (\<lambda>w. py_upper (py_strip w) = w) CATEGORIES" by code_simp
  then show "w \<in> set CATEGORIES \<Longrightarrow> py_upper (py_strip w) = w" for w by (auto simp: list_all_iff)
qed (simp add: CATEGORIES_def)

lemma severity_setting_valid:
  "(dtype, name) \<in> set SEVERITY_ENV \<Longrightarrow> severity_setting env dtype name \<in> set VALID_SEVERITIES"
  by (auto simp: severity_setting_def SEVERITY_ENV_def DEFAULT_SEVERITY_def VALID_SEVERITIES_def Let_def)

lemma source_state_ok:
  "fst (authoritative_source_state authoritative now cfg) = ''ok'' \<longleftrightarrow> source_usable authoritative now cfg"
  by (auto simp: authoritative_source_state_def source_usable_def Let_def split: option.splits)

lemma source_gap_code: "fst (source_gap st) \<in> set INDETERMINATE_REASON_CODES"
  by (simp add: source_gap_def INDETERMINATE_REASON_CODES_def)

lemma supported_types:
  "set supported_detection_types = {UNMATCHED_ISSUANCE, SETTLEMENT_TIMEOUT, TRANSFER_AGENT_MISMATCH}"
  by (auto simp: supported_detection_types_def detector_support_def)

lemma is_supported_iff: "is_supported t \<longleftrightarrow> t \<in> set supported_detection_types"
  by (auto simp: supported_types is_supported_def detector_support_def split: option.splits if_splits)

lemma detection_type_supported: "detection_type_for r \<in> set supported_detection_types"
  by (simp add: detection_type_for_def supported_types)

lemma issuance_event_fields [simp]:
  "oe_status (issuance_event ws e au cfg nm cs r t st ex m) = st"
  "oe_reason_code (issuance_event ws e au cfg nm cs r t st ex m) = r"
  "oe_detection_type (issuance_event ws e au cfg nm cs r t st ex m) = t"
  "oe_expected_amount (issuance_event ws e au cfg nm cs r t st ex m) = ex"
  "oe_observed_amount (issuance_event ws e au cfg nm cs r t st ex m)
     = map_option (fd_abs matcher_precision) (ne_amount e)"
  "oe_matched_authorization_reference (issuance_event ws e au cfg nm cs r t st ex m) = m"
  "oe_conclusion (issuance_event ws e au cfg nm cs r t st ex m) = conclusion_from cs (severity_for t cfg)"
  "oe_severity (issuance_event ws e au cfg nm cs r t st ex m) =
     (if conclusion_from cs (severity_for t cfg) = CONCLUSION_INDETERMINATE then ''medium''
      else severity_for t cfg)"
  by (simp_all add: issuance_event_def Let_def)

lemma conclusion_from_anomaly:
  "conclusion_from cs sev \<in> {CONCLUSION_CRITICAL_OPERATIONAL_ANOMALY, CONCLUSION_OPERATIONAL_ANOMALY}
     \<longleftrightarrow> CHECK_FAIL \<in> set (check_statuses cs)"
  by (simp add: conclusion_from_def Let_def)

lemma conclusion_from_indeterminate:
  "conclusion_from cs sev = CONCLUSION_INDETERMINATE
     \<longleftrightarrow> CHECK_FAIL \<notin> set (check_statuses cs) \<and> CHECK_UNKNOWN \<in> set (check_statuses cs)"
  by (simp add: conclusion_from_def Let_def)

lemma conclusion_from_authorized:
  "conclusion_from cs sev = CONCLUSION_OPERATIONALLY_AUTHORIZED
     \<longleftrightarrow> CHECK_FAIL \<notin> set (check_statuses cs) \<and> CHECK_UNKNOWN \<notin> set (check_statuses cs)"
  by (simp add: conclusion_from_def Let_def)

lemmas conclusions = conclusion_from_anomaly conclusion_from_indeterminate conclusion_from_authorized

lemma issuance_event_verdict [simp]:
  "oe_is_anomaly (issuance_event ws e au cfg nm cs r t st ex m) \<longleftrightarrow> CHECK_FAIL \<in> set (check_statuses cs)"
  "oe_is_indeterminate (issuance_event ws e au cfg nm cs r t st ex m) \<longleftrightarrow>
     CHECK_FAIL \<notin> set (check_statuses cs) \<and> CHECK_UNKNOWN \<in> set (check_statuses cs)"
  unfolding oe_is_anomaly_def oe_is_indeterminate_def issuance_event_fields by (rule conclusions)+

lemma check_statuses_append [simp]: "check_statuses (a @ b) = check_statuses a @ check_statuses b"
  by (simp add: check_statuses_def)

lemma check_statuses_Cons [simp]:
  "check_statuses ((k, oi_check k' st reason src) # cs) = st # check_statuses cs"
  "check_statuses [] = []"
  by (simp_all add: check_statuses_def oi_check_def)

lemma unknown_pair_statuses [simp]: "check_statuses (unknown_pair r s) = [CHECK_UNKNOWN, CHECK_UNKNOWN]"
  by (simp add: unknown_pair_def)

lemma observed_statuses:
  "check_statuses (observed_checks e) =
     [if decoded_operation e \<in> {Some ''mint'', Some ''burn''} \<and> ne_amount e \<noteq> None then CHECK_PASS
      else CHECK_UNKNOWN,
      if ne_signature_valid e then CHECK_PASS else CHECK_UNKNOWN]"
  by (simp add: observed_checks_def Let_def)

lemma settlement_check_shape:
  "settlement_check m cs src = oi_check CHECK_SETTLEMENT_MATCH
     (if mr_outcome m = MATCH \<and> mr_matched m \<noteq> None then CHECK_PASS else CHECK_FAIL)
     (ck_reason (settlement_check m cs src)) src"
  by (simp add: settlement_check_def oi_check_def Let_def split: option.splits)

lemma settlement_check_status [simp]:
  "check_statuses ((k, settlement_check m cs src) # rest) =
     (if mr_outcome m = MATCH \<and> mr_matched m \<noteq> None then CHECK_PASS else CHECK_FAIL) # check_statuses rest"
  by (subst settlement_check_shape) (simp only: check_statuses_Cons)

lemma decoded_key: "op = ''mint'' \<or> op = ''burn'' \<Longrightarrow> lower_key (opt_str (Some op)) = op"
proof -
  have "lower_key (opt_str (Some ''mint'')) = ''mint''" "lower_key (opt_str (Some ''burn'')) = ''burn''"
    by code_simp+
  then show "op = ''mint'' \<or> op = ''burn'' \<Longrightarrow> lower_key (opt_str (Some op)) = op" by auto
qed

lemma authorizes_abs:
  "authorizes matcher_precision op (fd_abs matcher_precision a) = authorizes matcher_precision op a"
  by (intro ext) (simp add: authorizes_def fd_abs_idem)

text \<open>The three outcomes of an evaluation.\<close>

lemma evaluate_issuance_cases:
  obtains (blocked) checks reason where "\<not> reconcilable event authoritative now cfg"
      "CHECK_FAIL \<notin> set (check_statuses checks)" "CHECK_UNKNOWN \<in> set (check_statuses checks)"
      "reason \<in> set INDETERMINATE_REASON_CODES"
      "evaluate_issuance ws event authoritative auths now cfg name =
         issuance_event ws event authoritative cfg name checks reason UNMATCHED_ISSUANCE ''indeterminate'' None PNone"
  | (matched) c checks where "reconcilable event authoritative now cfg"
      "explanation event auths cfg = Some c"
      "check_statuses checks = [CHECK_PASS, if ne_signature_valid event then CHECK_PASS else CHECK_UNKNOWN,
         CHECK_PASS, CHECK_PASS]"
      "evaluate_issuance ws event authoritative auths now cfg name =
         issuance_event ws event authoritative cfg name checks
           (if decoded_operation event = Some ''mint'' then MATCHED_AUTHORIZED_ISSUANCE
            else MATCHED_AUTHORIZED_REDEMPTION)
           UNMATCHED_ISSUANCE ''authorized'' (to_units (ai_amount c)) (ai_external_reference c)"
  | (unmatched) reason checks expected where "reconcilable event authoritative now cfg"
      "explanation event auths cfg = None"
      "CHECK_FAIL \<in> set (check_statuses checks)"
      "reason \<in> near_miss_codes \<union> no_match_codes"
      "evaluate_issuance ws event authoritative auths now cfg name =
         issuance_event ws event authoritative cfg name checks reason (detection_type_for reason) ''anomaly''
           (Some expected) PNone"
proof (cases "reconcilable event authoritative now cfg")
  case False
  obtain st src where ss: "authoritative_source_state authoritative now cfg = (st, src)" by fastforce
  show ?thesis
  proof (cases "decoded_operation event \<notin> {Some ''mint'', Some ''burn''} \<or> ne_amount event = None")
    case True
    show ?thesis
      by (rule blocked [OF False, of "observed_checks event @
            unknown_pair ''Not evaluated - the on-chain operation was not decoded'' PNone" OPERATION_NOT_DECODED])
        (use True in \<open>auto simp: evaluate_issuance_def observed_statuses INDETERMINATE_REASON_CODES_def\<close>)
  next
    case decoded: False
    with False ss have st: "st \<noteq> ''ok''"
      using source_state_ok [of authoritative now cfg] by (auto simp: reconcilable_def)
    obtain code prose where sg: "source_gap st = (code, prose)" by fastforce
    show ?thesis
      by (rule blocked [OF False, of "observed_checks event @ unknown_pair prose src" code])
        (use decoded st sg ss source_gap_code [of st] in
          \<open>auto simp: evaluate_issuance_def observed_statuses split: if_splits\<close>)
  qed
next
  case True
  then obtain op a src where d: "decoded_operation event = Some op" "op = ''mint'' \<or> op = ''burn''"
      "ne_amount event = Some a" and "authoritative_source_state authoritative now cfg = (''ok'', src)"
    using source_state_ok [of authoritative now cfg]
    by (cases "authoritative_source_state authoritative now cfg") (auto simp: reconcilable_def)
  then have ev: "evaluate_issuance ws event authoritative auths now cfg name =
      search_authorizations ws event authoritative auths cfg name src"
    by (auto simp: evaluate_issuance_def)
  let ?cs = "map to_authorized_issuance auths"
  define m where "m = match_authorization matcher_precision (decoded_operation event)
    (map_option (fd_abs matcher_precision) (ne_amount event))
    (ne_external_reference event) (ne_observed_at event) ?cs (matcher_rules cfg)"
  have key: "lower_key (opt_str (decoded_operation event)) = op"
    using d(1) decoded_key [OF d(2)] by simp
  have ex: "explanation event auths cfg = find (authorizes matcher_precision op a (ne_external_reference event)
      (ne_observed_at event) (matcher_rules cfg)) ?cs"
    using d by (simp add: explanation_def)
  have facts: "mr_matched m = explanation event auths cfg"
      "mr_outcome m = (if explanation event auths cfg = None then MATCH_NO_MATCH else MATCH)"
    using match_authorization_facts [of "decoded_operation event"
        "map_option (fd_abs matcher_precision) (ne_amount event)" "fd_abs matcher_precision a"
        matcher_precision "ne_external_reference event" "ne_observed_at event" ?cs "matcher_rules cfg"] d(2,3)
    by (auto simp: m_def key ex authorizes_abs)
  have pass: "check_statuses (observed_checks event) =
      [CHECK_PASS, if ne_signature_valid event then CHECK_PASS else CHECK_UNKNOWN]"
    using d by (auto simp: observed_statuses)
  show ?thesis
  proof (cases "explanation event auths cfg")
    case (Some c)
    have out: "(if mr_outcome m = MATCH then mr_matched m else None) = Some c"
      using facts Some by simp
    show ?thesis
    proof (rule matched [OF True Some])
      show "evaluate_issuance ws event authoritative auths now cfg name =
        issuance_event ws event authoritative cfg name
          (observed_checks event @
             [(CHECK_TRANSFER_AGENT_MATCH,
               oi_check CHECK_TRANSFER_AGENT_MATCH CHECK_PASS
                 (if op = ''mint'' then ''Authorized issuance on record'' else ''Authorized redemption on record'')
                 (py_or (ai_source_name c) src)),
              (CHECK_SETTLEMENT_MATCH, settlement_check m
                 (filter (\<lambda>c. py_lower (text_of (ai_operation c)) = op) ?cs) src)])
          (if decoded_operation event = Some ''mint'' then MATCHED_AUTHORIZED_ISSUANCE
           else MATCHED_AUTHORIZED_REDEMPTION)
          UNMATCHED_ISSUANCE ''authorized'' (to_units (ai_amount c)) (ai_external_reference c)"
        unfolding ev search_authorizations_def Let_def m_def [symmetric]
        unfolding out d(1) option.case option.inject by (rule refl)
    qed (use facts Some in \<open>simp add: pass\<close>)
  next
    case None
    have "\<exists>r \<in> near_miss_codes \<union> no_match_codes. mr_reason_code m = Some r"
      unfolding m_def
    proof (rule match_authorization_code [where a = "fd_abs matcher_precision a"])
      show "lower_key (opt_str (decoded_operation event)) \<in> {''mint'', ''burn''}"
        unfolding key using d(2) by simp
      show "find (authorizes matcher_precision (lower_key (opt_str (decoded_operation event)))
          (fd_abs matcher_precision a) (ne_external_reference event) (ne_observed_at event)
          (matcher_rules cfg)) ?cs = None"
        unfolding key authorizes_abs using None ex by simp
    qed (simp add: d(3))
    then obtain r where r: "mr_reason_code m = Some r" "r \<in> near_miss_codes \<union> no_match_codes" by blast
    then have "r \<noteq> []" by (auto simp: near_miss_codes_def no_match_codes_def)
    have out: "(if mr_outcome m = MATCH then mr_matched m else None) = None"
      using facts None by simp
    show ?thesis
    proof (rule unmatched [OF True None _ r(2)])
      show "evaluate_issuance ws event authoritative auths now cfg name =
        issuance_event ws event authoritative cfg name
          (observed_checks event @
             [(CHECK_TRANSFER_AGENT_MATCH,
               oi_check CHECK_TRANSFER_AGENT_MATCH
                 (if r = SETTLEMENT_NOT_COMPLETE then CHECK_PASS else CHECK_FAIL) (agent_reason_for op r) src),
              (CHECK_SETTLEMENT_MATCH, settlement_check m
                 (filter (\<lambda>c. py_lower (text_of (ai_operation c)) = op) ?cs) src)])
          r (detection_type_for r) ''anomaly''
          (Some (expected_amount r (filter (\<lambda>c. py_lower (text_of (ai_operation c)) = op) ?cs))) PNone"
        unfolding ev search_authorizations_def Let_def m_def [symmetric]
        unfolding out d(1) r(1) option.case if_not_P [OF \<open>r \<noteq> []\<close>] by (rule refl)
    qed (use facts None in \<open>simp add: pass\<close>)
  qed
qed

lemma issuance_status:
  "oe_status (evaluate_issuance ws event authoritative auths now cfg name) = ''authorized'' \<longleftrightarrow>
     reconcilable event authoritative now cfg \<and> explanation event auths cfg \<noteq> None"
  by (cases rule: evaluate_issuance_cases [of event authoritative now cfg ws auths name]) simp_all

section \<open>Properties\<close>

text \<open>
  C9. Verdicts on an observed operation. It is an anomaly exactly when it can be reconciled
  (decoded as mint or burn, its amount known, the authoritative source usable) and no record
  explains it; its status is authorized exactly when a record does; and the conclusion is
  OPERATIONALLY_AUTHORIZED exactly when, besides, its transaction reference is known. An
  outage of the source or an undecoded operation is never an anomaly.
\<close>

theorem issuance_verdict:
  "(oe_is_anomaly (evaluate_issuance ws event authoritative auths now cfg name) \<longleftrightarrow>
      reconcilable event authoritative now cfg \<and> explanation event auths cfg = None) \<and>
   (oe_status (evaluate_issuance ws event authoritative auths now cfg name) = ''authorized'' \<longleftrightarrow>
      reconcilable event authoritative now cfg \<and> explanation event auths cfg \<noteq> None) \<and>
   (oe_conclusion (evaluate_issuance ws event authoritative auths now cfg name)
        = CONCLUSION_OPERATIONALLY_AUTHORIZED \<longleftrightarrow>
      reconcilable event authoritative now cfg \<and> explanation event auths cfg \<noteq> None \<and>
      ne_signature_valid event)"
proof (cases rule: evaluate_issuance_cases [of event authoritative now cfg ws auths name,
      case_names blocked matched unmatched])
  case (blocked checks reason)
  then show ?thesis by (simp add: conclusion_from_authorized)
next
  case (matched c checks)
  then show ?thesis by (simp add: conclusion_from_authorized)
next
  case (unmatched reason checks expected)
  then show ?thesis by (simp add: conclusion_from_authorized)
qed

text \<open>
  Reason, type and severity agree with the conclusion. The reason code is one of the
  anomaly codes exactly for an anomaly, and one of the indeterminate codes exactly when the
  event could not be reconciled; only supported detectors report; an indeterminate event has
  medium severity, any other the one configured for its detection type.
\<close>

theorem issuance_reason_and_severity:
  "(oe_reason_code (evaluate_issuance ws event authoritative auths now cfg name) \<in> set ANOMALY_REASON_CODES \<longleftrightarrow>
      oe_is_anomaly (evaluate_issuance ws event authoritative auths now cfg name)) \<and>
   (oe_reason_code (evaluate_issuance ws event authoritative auths now cfg name) \<in> set INDETERMINATE_REASON_CODES \<longleftrightarrow>
      \<not> reconcilable event authoritative now cfg) \<and>
   is_supported (oe_detection_type (evaluate_issuance ws event authoritative auths now cfg name)) \<and>
   oe_severity (evaluate_issuance ws event authoritative auths now cfg name) =
     (if oe_is_indeterminate (evaluate_issuance ws event authoritative auths now cfg name) then ''medium''
      else severity_for (oe_detection_type (evaluate_issuance ws event authoritative auths now cfg name)) cfg)"
proof -
  have codes: "near_miss_codes \<union> no_match_codes \<subseteq> set ANOMALY_REASON_CODES"
      "(near_miss_codes \<union> no_match_codes) \<inter> set INDETERMINATE_REASON_CODES = {}"
      "set ANOMALY_REASON_CODES \<inter> set INDETERMINATE_REASON_CODES = {}"
    by (simp_all add: near_miss_codes_def no_match_codes_def ANOMALY_REASON_CODES_def INDETERMINATE_REASON_CODES_def)
  have "UNMATCHED_ISSUANCE \<in> set supported_detection_types" by (simp add: supported_types)
  note sup = this detection_type_supported
  show ?thesis
  proof (cases rule: evaluate_issuance_cases [of event authoritative now cfg ws auths name,
        case_names blocked matched unmatched])
    case (blocked checks reason)
    then have "reason \<notin> set ANOMALY_REASON_CODES" using codes by blast
    with blocked show ?thesis
      by (simp add: conclusion_from_indeterminate is_supported_iff sup)
  next
    case (matched c checks)
    then show ?thesis
      by (simp add: conclusion_from_indeterminate is_supported_iff sup
          ANOMALY_REASON_CODES_def INDETERMINATE_REASON_CODES_def)
  next
    case (unmatched reason checks expected)
    then have "reason \<in> set ANOMALY_REASON_CODES" "reason \<notin> set INDETERMINATE_REASON_CODES"
      using codes by blast+
    with unmatched show ?thesis
      by (simp add: conclusion_from_indeterminate is_supported_iff sup)
  qed
qed

text \<open>
  Authorization is exact. When the observed amount and every recorded one fit the 90 digits
  of the context, an event with status authorized was expected to move exactly the observed
  amount: no two different amounts match.
\<close>

theorem authorized_amount_exact:
  assumes "oe_status (evaluate_issuance ws event authoritative auths now cfg name) = ''authorized''"
    and "list_all (fits matcher_precision) (List.map_filter (\<lambda>r. to_units (au_amount r)) auths)"
    and "map_option (fits matcher_precision) (ne_amount event) \<noteq> Some False"
  shows "map_option (\<lambda>x. \<bar>fd_val x\<bar>) (oe_expected_amount (evaluate_issuance ws event authoritative auths now cfg name))
    = map_option (\<lambda>x. \<bar>fd_val x\<bar>) (ne_amount event)"
proof (cases rule: evaluate_issuance_cases [of event authoritative now cfg ws auths name,
      case_names blocked matched unmatched])
  case (matched c checks)
  then obtain op a where d: "decoded_operation event = Some op" "ne_amount event = Some a"
    by (auto simp: reconcilable_def)
  with matched(2) have c: "c \<in> set (map to_authorized_issuance auths)"
    and au: "authorizes matcher_precision op a (ne_external_reference event) (ne_observed_at event)
        (matcher_rules cfg) c"
    by (auto simp: explanation_def find_Some_iff)
  obtain x where x: "to_units (ai_amount c) = Some x"
      "fd_val (fd_abs matcher_precision x) = fd_val (fd_abs matcher_precision a)"
    using au by (auto simp: authorizes_def)
  obtain r where r: "r \<in> set auths" "c = to_authorized_issuance r" using c by auto
  then have "to_units (au_amount r) = Some x"
    using x(1) by (cases "to_units (au_amount r)")
      (auto simp: to_authorized_issuance_def dec_or_none_def to_units_def parse_findec_str)
  with r(1) assms(2) have "fits matcher_precision x"
    by (force simp: list_all_iff List.map_filter_def)
  moreover have "fits matcher_precision a" using assms(3) d by simp
  ultimately show ?thesis
    using x matched(4) d by (simp add: fd_abs_exact)
qed (use assms(1) in simp_all)

definition sample_cfg :: oi_settings where
  "sample_cfg = oi_engine_config Map.empty"

definition sample_event :: normalized_chain_event where
  "sample_event = \<lparr>ne_chain_id = Some 8453, ne_tx_hash = PStr ''0xab'', ne_from_address = PNone,
     ne_to_address = PNone, ne_method_selector = PNone, ne_decoded_operation = Some ''mint'',
     ne_amount = Some (FinDec False 5 0), ne_token_address = PNone, ne_token_decimals = None,
     ne_token_symbol = PNone, ne_block_number = None, ne_observed_at = PNone, ne_source = ''websocket'',
     ne_stage = STAGE_CONFIRMED, ne_preconfirmation_received_at = PNone, ne_external_reference = PNone,
     ne_evidence_source = ''live'', ne_telemetry_id = None, ne_asset_id = None, ne_signature_valid = True\<rparr>"

definition sample_source :: "authoritative_row option" where
  "sample_source = Some \<lparr>ar_source_name = PStr ''TA'', ar_source_status = PNone, ar_observed_at = PNone\<rparr>"

definition sample_auth :: authorization_row where
  "sample_auth = \<lparr>au_id = PNone, au_operation = PNone, au_amount = PStr ''5'',
     au_settlement = PStr ''cleared'', au_reference = PNone, au_authorized_at = PNone,
     au_effective_from = PNone, au_effective_until = PNone, au_source = PNone, au_evidence = PNone,
     au_token_decimals = PNone\<rparr>"

theorem authorized_amount_exact_witness:
  "map_option (\<lambda>x. \<bar>fd_val x\<bar>) (oe_expected_amount
      (evaluate_issuance [] sample_event sample_source [sample_auth] PNone sample_cfg None)) = Some 5"
proof -
  have "oe_status (evaluate_issuance [] sample_event sample_source [sample_auth] PNone sample_cfg None)
      = ''authorized''"
    unfolding issuance_status
  proof
    have op: "decoded_operation sample_event = Some ''mint''" by code_simp
    have "py_lower (py_strip ''reported'') = ''reported''" by code_simp
    then show "reconcilable sample_event sample_source PNone sample_cfg"
      by (simp add: reconcilable_def op source_usable_def sample_source_def age_seconds_def epoch_def
          text_or_def py_or_def) (simp add: sample_event_def)
    have units: "to_units (ai_amount (to_authorized_issuance sample_auth)) = Some (FinDec False 5 0)"
        "lower_key (ai_operation (to_authorized_issuance sample_auth)) = ''mint''"
        "is_settled (ai_settlement_state (to_authorized_issuance sample_auth))"
      by code_simp+
    show "explanation sample_event [sample_auth] sample_cfg \<noteq> None"
      unfolding explanation_def op
      by (simp add: sample_event_def) (simp add: authorizes_def units epoch_def norm_reference_def)
  qed
  moreover have "list_all (fits matcher_precision)
      (List.map_filter (\<lambda>r. to_units (au_amount r)) [sample_auth])" by code_simp
  moreover have "fits matcher_precision (FinDec False 5 0)" by code_simp
  ultimately show ?thesis
    using authorized_amount_exact [of "[]" sample_event sample_source "[sample_auth]" PNone sample_cfg None]
    by (simp add: sample_event_def fd_val_def fd_int_def)
qed

text \<open>
  Settlement deadlines. A timeout is reported exactly for an unsettled authorization with
  a known due time that has passed; the due time is the record's own end of effect when it
  has one, else its authorization time plus the policy's or the default window. The report is
  always an anomaly with reason SETTLEMENT_DEADLINE_EXCEEDED.
\<close>

theorem settlement_timeout_iff:
  "(evaluate_settlement_deadline ws a asset name now cfg deadline \<noteq> None \<longleftrightarrow>
      \<not> is_settled (au_settlement a) \<and>
      (\<exists>n due. epoch now = Some n \<and> due < n \<and>
        map_option fst (settlement_due a cfg deadline) = Some due)) \<and>
   pred_option (\<lambda>e. oe_is_anomaly e \<and> oe_reason_code e = SETTLEMENT_DEADLINE_EXCEEDED \<and>
      oe_detection_type e = SETTLEMENT_TIMEOUT \<and> oe_severity e = severity_for SETTLEMENT_TIMEOUT cfg)
     (evaluate_settlement_deadline ws a asset name now cfg deadline) \<and>
   settlement_due a cfg deadline =
     (case (epoch (au_effective_until a), epoch (au_authorized_at a)) of
        (Some d, _) \<Rightarrow> Some (d, ''authorization.effective_until'')
      | (None, None) \<Rightarrow> None
      | (None, Some t) \<Rightarrow> Some (t + (case deadline of Some s \<Rightarrow> s | None \<Rightarrow> os_settlement_deadline_seconds cfg) * 1000000,
          if deadline = None then ''default'' else ''policy''))"
proof -
  have "CHECK_FAIL \<in> set (check_statuses (oe_checks (deadline_event ws a asset name cfg o')))" for o'
    by (simp add: deadline_event_def Let_def)
  moreover have "oe_conclusion (deadline_event ws a asset name cfg o') =
      conclusion_from (oe_checks (deadline_event ws a asset name cfg o')) (severity_for SETTLEMENT_TIMEOUT cfg)" for o'
    by (simp add: deadline_event_def Let_def)
  ultimately have "oe_is_anomaly (deadline_event ws a asset name cfg o')" for o'
    using conclusion_from_anomaly unfolding oe_is_anomaly_def by metis
  moreover have "oe_reason_code (deadline_event ws a asset name cfg o') = SETTLEMENT_DEADLINE_EXCEEDED"
      "oe_detection_type (deadline_event ws a asset name cfg o') = SETTLEMENT_TIMEOUT"
      "oe_severity (deadline_event ws a asset name cfg o') = severity_for SETTLEMENT_TIMEOUT cfg" for o'
    by (simp_all add: deadline_event_def Let_def)
  ultimately show ?thesis
    by (auto simp: evaluate_settlement_deadline_def settlement_due_def Let_def pred_option_def
        split: option.splits)
qed

text \<open>
  The two screens agree. For a verdict of the supply reconciliation the checks derived from
  it contain a failure exactly for an anomaly, and for a reconciled supply, for which they are
  not meant; an indeterminate verdict yields unknown checks only.
\<close>

theorem reconciliation_checks_agree:
  "(CHECK_FAIL \<in> set (check_statuses (checks_from_reconciliation
        (integrity_evaluate onchain authoritative cs given now applicable) row source)) \<longleftrightarrow>
      rr_is_anomaly (integrity_evaluate onchain authoritative cs given now applicable) \<or>
      rr_status (integrity_evaluate onchain authoritative cs given now applicable) = RECONCILED) \<and>
   (drop 2 (check_statuses (checks_from_reconciliation
        (integrity_evaluate onchain authoritative cs given now applicable) row source))
        = [CHECK_UNKNOWN, CHECK_UNKNOWN] \<longleftrightarrow>
      rr_is_indeterminate (integrity_evaluate onchain authoritative cs given now applicable))"
proof -
  let ?r = "integrity_evaluate onchain authoritative cs given now applicable"
  have coherent: "coherent_reason (rr_status ?r) (rr_reason_code ?r)" by (rule integrity_reason)
  have "\<exists>s. check_statuses (checks_from_reconciliation r row source) = [CHECK_PASS, s] @
      (if rr_reason_code r \<in> {MATCHED_AUTHORIZED_ISSUANCE, MATCHED_AUTHORIZED_REDEMPTION}
       then [CHECK_PASS, CHECK_PASS]
       else if rr_status r \<in> set INDETERMINATE_STATUSES \<or> rr_reason_code r \<in>
          {AUTHORITATIVE_SOURCE_MISSING, AUTHORITATIVE_SOURCE_STALE, AUTHORITATIVE_SOURCE_UNAVAILABLE}
       then [CHECK_UNKNOWN, CHECK_UNKNOWN]
       else [if rr_reason_code r = SETTLEMENT_NOT_COMPLETE then CHECK_PASS else CHECK_FAIL, CHECK_FAIL]) \<and>
      s \<in> {CHECK_PASS, CHECK_UNKNOWN}" for r
    by (simp add: checks_from_reconciliation_def Let_def)
  then obtain s where cs: "check_statuses (checks_from_reconciliation ?r row source) = [CHECK_PASS, s] @
      (if rr_reason_code ?r \<in> {MATCHED_AUTHORIZED_ISSUANCE, MATCHED_AUTHORIZED_REDEMPTION}
       then [CHECK_PASS, CHECK_PASS]
       else if rr_status ?r \<in> set INDETERMINATE_STATUSES \<or> rr_reason_code ?r \<in>
          {AUTHORITATIVE_SOURCE_MISSING, AUTHORITATIVE_SOURCE_STALE, AUTHORITATIVE_SOURCE_UNAVAILABLE}
       then [CHECK_UNKNOWN, CHECK_UNKNOWN]
       else [if rr_reason_code ?r = SETTLEMENT_NOT_COMPLETE then CHECK_PASS else CHECK_FAIL, CHECK_FAIL])"
    and s: "s \<noteq> CHECK_FAIL" by fastforce
  define st where "st = rr_status ?r"
  define rs where "rs = rr_reason_code ?r"
  note coh = coherent [folded st_def rs_def]
  have gap: "(st \<in> set INDETERMINATE_STATUSES \<or> rs \<in>
      {AUTHORITATIVE_SOURCE_MISSING, AUTHORITATIVE_SOURCE_STALE, AUTHORITATIVE_SOURCE_UNAVAILABLE})
      = (st \<in> set INDETERMINATE_STATUSES)"
    using coherent_source_gap [OF coh] by blast
  show ?thesis
    unfolding cs rr_is_anomaly_def rr_is_indeterminate_def st_def [symmetric] rs_def [symmetric] gap
      coherent_matched [OF coh]
    using coherent_status [OF coh] s unfolding RECONCILIATION_STATUSES_def set_simps
    by (elim insertE) (simp_all add: INDETERMINATE_STATUSES_def ANOMALY_STATUSES_def)
qed

end
