(* ===== verification/Local_Ledger.thy ===== *)
theory Local_Ledger
  imports Canonical_JSON
begin

text \<open>
  The contract the two local JSON ledgers share, that of the compliance service
  (\<open>services/compliance-service/app/store.py\<close>) and that of the reconciliation service
  (\<open>services/reconciliation-service/app/store.py\<close>): a record is appended at the end of the file
  and numbered by its position, four digits at least.
\<close>

section \<open>Numbered identifiers\<close>

text \<open>\<open>f'{n:04d}'\<close> for a non-negative number.\<close>

definition pad4 :: "nat \<Rightarrow> string" where
  "pad4 n = replicate (4 - length (str_nat n)) (CHR ''0'') @ str_nat n"

lemma pad4_inj: "pad4 m = pad4 n \<longleftrightarrow> m = n"
proof
  assume "pad4 m = pad4 n"
  then have "digits_val (pad4 m) = digits_val (pad4 n)" by simp
  then show "m = n" by (simp add: pad4_def str_nat_props)
qed simp

section \<open>Append-only ledgers\<close>

text \<open>
  The client sees how a record is added and where it is identified. The provider promises that
  adding appends one record and touches no other, and that the record is identified by the
  prefix of the ledger and its position.
\<close>

locale numbered_ledger =
  fixes add :: "'r list \<Rightarrow> 'p \<Rightarrow> 'r list"
    and ident :: "'r \<Rightarrow> string"
    and prefix :: string
  assumes add_appends: "\<exists>r. add rows p = rows @ [r] \<and> ident r = prefix @ pad4 (length rows + 1)"
begin

lemma add_run_idents:
  "map ident (foldl add [] ps) = map (\<lambda>i. prefix @ pad4 (i + 1)) [0..<length ps]"
proof (induction ps rule: rev_induct)
  case (snoc p ps)
  obtain r where r: "add (foldl add [] ps) p = foldl add [] ps @ [r]"
      "ident r = prefix @ pad4 (length (foldl add [] ps) + 1)"
    using add_appends by blast
  have "length (foldl add [] ps) = length ps"
    using arg_cong [OF snoc, of length] by simp
  with r snoc show ?case by simp
qed simp

lemma add_run_distinct: "distinct (map ident (foldl add [] ps))"
  unfolding add_run_idents by (simp add: distinct_map inj_on_def pad4_inj)

lemma add_run_length: "length (foldl add [] ps) = length ps"
  using arg_cong [OF add_run_idents [of ps], of length] by simp

text \<open>No record is ever rewritten: a ledger is a prefix of every later one.\<close>

lemma add_run_prefix: "\<exists>later. foldl add rows ps = rows @ later"
proof (induction ps arbitrary: rows)
  case (Cons p ps)
  obtain r where "add rows p = rows @ [r]" using add_appends by blast
  with Cons [of "rows @ [r]"] show ?case by auto
qed simp

text \<open>Looking a record up by its identifier finds it, and nothing else is found.\<close>

lemma find_distinct: "distinct (map ident rows) \<Longrightarrow> r \<in> set rows \<Longrightarrow> find (\<lambda>q. ident q = ident r) rows = Some r"
  by (induction rows) (auto simp: rev_image_eqI)

lemma lookup_added:
  "r \<in> set (foldl add [] ps) \<Longrightarrow> find (\<lambda>q. ident q = ident r) (foldl add [] ps) = Some r"
  by (rule find_distinct [OF add_run_distinct])

end

end
