(* ===== verification/Compliance.thy ===== *)
theory Compliance
  imports Complex_Main Local_Ledger
begin

text \<open>
  The compliance service, \<open>services/compliance-service/app/engine.py\<close>, \<open>store.py\<close> and
  \<open>schemas.py\<close>: the policy state the governance actions change, their ledger, and the screening of
  transfers and of data residency against that state.

  An amount and a threshold are the exact rational value of the float; the dictionary of an asset
  policy is a record of the entries the code reads, an absent one by its default. Both files of
  the store are present and complete, as the constructor leaves them.
\<close>

section \<open>The policy state\<close>

record policy_state =
  ps_allowlisted_wallets :: "string list"
  ps_blocklisted_wallets :: "string list"
  ps_frozen_wallets :: "string list"
  ps_review_required_wallets :: "string list"
  ps_paused_assets :: "string list"
  ps_approved_cloud_regions :: "string list"
  ps_friendly_regions :: "string list"
  ps_restricted_regions :: "string list"

definition default_policy_state :: policy_state where
  "default_policy_state = \<lparr>
     ps_allowlisted_wallets = [''0xaaa0000000000000000000000000000000000101'', ''0xbbb0000000000000000000000000000000000202''],
     ps_blocklisted_wallets = [''0xblocked000000000000000000000000000000003''],
     ps_frozen_wallets = [],
     ps_review_required_wallets = [''0xreview000000000000000000000000000000004''],
     ps_paused_assets = [],
     ps_approved_cloud_regions = [''us-east'', ''us-central'', ''eu-west''],
     ps_friendly_regions = [''us-east'', ''us-central'', ''eu-west'', ''sg-gov''],
     ps_restricted_regions = [''cn-north'', ''ru-central'', ''ir-gov'']\<rparr>"

section \<open>Governance actions\<close>

datatype action_type =
    FreezeWallet | UnfreezeWallet | AllowlistWallet | BlocklistWallet | MarkReviewRequired
  | PauseAssetTransfers | ResumeAssetTransfers

fun action_text :: "action_type \<Rightarrow> string" where
  "action_text FreezeWallet = ''freeze_wallet''"
| "action_text UnfreezeWallet = ''unfreeze_wallet''"
| "action_text AllowlistWallet = ''allowlist_wallet''"
| "action_text BlocklistWallet = ''blocklist_wallet''"
| "action_text MarkReviewRequired = ''mark_wallet_review_required''"
| "action_text PauseAssetTransfers = ''pause_asset_transfers''"
| "action_text ResumeAssetTransfers = ''resume_asset_transfers''"

record action_request =
  ga_action_type :: action_type
  ga_target_type :: string
  ga_target_id :: string
  ga_actor :: string
  ga_reason :: string
  ga_related_asset_id :: "string option"
  ga_metadata :: "(string \<times> json) list"

definition action_asset :: "action_request \<Rightarrow> string" where
  "action_asset r = (case ga_related_asset_id r of Some a \<Rightarrow> if a = [] then ga_target_id r else a
                     | None \<Rightarrow> ga_target_id r)"

text \<open>\<open>sorted(set(xs))\<close>.\<close>

definition sorted_set :: "string list \<Rightarrow> string list" where
  "sorted_set xs = sort (remdups xs)"

text \<open>The match on the action: the lists changed and the effects reported.\<close>

fun action_effect :: "action_type \<Rightarrow> string \<Rightarrow> string \<Rightarrow> policy_state \<Rightarrow> policy_state \<times> string list" where
  "action_effect FreezeWallet target asset s =
     (s\<lparr>ps_frozen_wallets := append_new target (ps_frozen_wallets s)\<rparr>, [''Wallet '' @ target @ '' frozen.''])"
| "action_effect UnfreezeWallet target asset s =
     (s\<lparr>ps_frozen_wallets := remove1 target (ps_frozen_wallets s)\<rparr>, [''Wallet '' @ target @ '' unfrozen.''])"
| "action_effect AllowlistWallet target asset s =
     (s\<lparr>ps_allowlisted_wallets := append_new target (ps_allowlisted_wallets s),
        ps_blocklisted_wallets := remove1 target (ps_blocklisted_wallets s)\<rparr>,
      [''Wallet '' @ target @ '' added to allowlist.''] @
      (if target \<in> set (ps_blocklisted_wallets s)
       then [''Wallet '' @ target @ '' removed from blocklist because allowlist took precedence in demo policy.'']
       else []))"
| "action_effect BlocklistWallet target asset s =
     (s\<lparr>ps_blocklisted_wallets := append_new target (ps_blocklisted_wallets s),
        ps_allowlisted_wallets := remove1 target (ps_allowlisted_wallets s)\<rparr>,
      [''Wallet '' @ target @ '' added to blocklist.''] @
      (if target \<in> set (ps_allowlisted_wallets s)
       then [''Wallet '' @ target @ '' removed from allowlist because blocklist took precedence in demo policy.'']
       else []))"
| "action_effect MarkReviewRequired target asset s =
     (s\<lparr>ps_review_required_wallets := append_new target (ps_review_required_wallets s)\<rparr>,
      [''Wallet '' @ target @ '' marked as review-required.''])"
| "action_effect PauseAssetTransfers target asset s =
     (s\<lparr>ps_paused_assets := append_new asset (ps_paused_assets s)\<rparr>,
      [''Asset '' @ asset @ '' transfer activity paused.''])"
| "action_effect ResumeAssetTransfers target asset s =
     (s\<lparr>ps_paused_assets := remove1 asset (ps_paused_assets s)\<rparr>,
      [''Asset '' @ asset @ '' transfer activity resumed.''])"

definition tidy_state :: "policy_state \<Rightarrow> policy_state" where
  "tidy_state s = s\<lparr>ps_allowlisted_wallets := sorted_set (ps_allowlisted_wallets s),
     ps_blocklisted_wallets := sorted_set (ps_blocklisted_wallets s),
     ps_frozen_wallets := sorted_set (ps_frozen_wallets s),
     ps_review_required_wallets := sorted_set (ps_review_required_wallets s),
     ps_paused_assets := sorted_set (ps_paused_assets s)\<rparr>"

section \<open>The store\<close>

definition normalize_action_payload :: "action_request \<Rightarrow> (string \<times> json) list" where
  "normalize_action_payload r =
     [(''action_type'', JStr (action_text (ga_action_type r))), (''target_type'', JStr (ga_target_type r)),
      (''target_id'', JStr (ga_target_id r)), (''actor'', JStr (ga_actor r)), (''reason'', JStr (ga_reason r)),
      (''related_asset_id'', case ga_related_asset_id r of Some a \<Rightarrow> JStr a | None \<Rightarrow> JNull),
      (''metadata'', JDict (ga_metadata r))]"

definition action_attestation :: "hash_fun \<Rightarrow> action_request \<Rightarrow> string" where
  "action_attestation H r = bytes_hex (H (utf8 (json_dumps (JDict (normalize_action_payload r)))))"

record action_record =
  gr_request :: "(string \<times> json) list"
  gr_action_id :: string
  gr_created_at :: string
  gr_status :: string
  gr_attestation_hash :: string
  gr_policy_effects :: "string list"

definition create_action_record ::
  "hash_fun \<Rightarrow> action_record list \<Rightarrow> action_request \<times> string list \<times> string \<Rightarrow> action_record list" where
  "create_action_record H actions e = (case e of (r, effects, now) \<Rightarrow>
     actions @ [\<lparr>gr_request = normalize_action_payload r, gr_action_id = ''gov-'' @ pad4 (length actions + 1),
       gr_created_at = now, gr_status = ''applied'', gr_attestation_hash = action_attestation H r,
       gr_policy_effects = effects\<rparr>])"

interpretation actions: numbered_ledger "create_action_record H" gr_action_id "''gov-''" for H
  by unfold_locales (auto simp: create_action_record_def)

record compliance_store =
  cs_policy :: policy_state
  cs_actions :: "action_record list"

definition apply_governance_action ::
  "hash_fun \<Rightarrow> compliance_store \<Rightarrow> action_request \<Rightarrow> string \<Rightarrow> compliance_store" where
  "apply_governance_action H store r now =
     (let (s, effects) = action_effect (ga_action_type r) (ga_target_id r) (action_asset r) (cs_policy store)
      in \<lparr>cs_policy = tidy_state s, cs_actions = create_action_record H (cs_actions store) (r, effects, now)\<rparr>)"

definition list_actions :: "compliance_store \<Rightarrow> action_record list" where
  "list_actions store = rev (cs_actions store)"

definition get_action :: "string \<Rightarrow> compliance_store \<Rightarrow> action_record option" where
  "get_action action_id store = find (\<lambda>r. gr_action_id r = action_id) (cs_actions store)"

section \<open>Screening a transfer\<close>

datatype outcome = Passed | Review | Block

datatype decision = Approved | NeedsReview | Blocked

fun decision_value :: "decision \<Rightarrow> string" where
  "decision_value Approved = ''approved''"
| "decision_value NeedsReview = ''review''"
| "decision_value Blocked = ''blocked''"

record transfer_policy =
  tp_asset_status :: "string option"
  tp_restricted_jurisdictions :: "string list"
  tp_review_jurisdictions :: "string list"
  tp_restricted_jurisdiction_action :: string
  tp_requires_accreditation :: bool
  tp_allowed_assets :: "string list"
  tp_amount_review_threshold :: rat
  tp_amount_block_threshold :: rat
  tp_amount_threshold_action :: string
  tp_require_known_wallet :: bool

definition empty_policy :: transfer_policy where
  "empty_policy = \<lparr>tp_asset_status = None, tp_restricted_jurisdictions = [], tp_review_jurisdictions = [],
     tp_restricted_jurisdiction_action = ''review'', tp_requires_accreditation = False, tp_allowed_assets = [],
     tp_amount_review_threshold = 500000, tp_amount_block_threshold = 1500000,
     tp_amount_threshold_action = ''review'', tp_require_known_wallet = False\<rparr>"

record transfer_request =
  tq_asset_id :: string
  tq_sender_wallet :: string
  tq_receiver_wallet :: string
  tq_amount :: rat
  tq_sender_kyc_status :: string
  tq_receiver_kyc_status :: string
  tq_sender_jurisdiction :: string
  tq_receiver_jurisdiction :: string
  tq_sender_sanctions_flag :: bool
  tq_receiver_sanctions_flag :: bool
  tq_sender_accreditation_status :: string
  tq_receiver_accreditation_status :: string
  tq_policy :: transfer_policy
  tq_sender_tags :: "string list"
  tq_receiver_tags :: "string list"

record rule_result =
  ru_rule_id :: string
  ru_outcome :: outcome
  ru_summary :: string

definition mk_rule :: "string \<Rightarrow> outcome \<Rightarrow> string \<Rightarrow> rule_result" where
  "mk_rule i out s = \<lparr>ru_rule_id = i, ru_outcome = out, ru_summary = s\<rparr>"

definition flag_rule :: "string \<Rightarrow> outcome \<Rightarrow> bool \<Rightarrow> string \<Rightarrow> string \<Rightarrow> rule_result" where
  "flag_rule i out hit yes no = (if hit then mk_rule i out yes else mk_rule i Passed no)"

definition party_in :: "transfer_request \<Rightarrow> string list \<Rightarrow> bool" where
  "party_in r wallets = (tq_sender_wallet r \<in> set wallets \<or> tq_receiver_wallet r \<in> set wallets)"

definition jurisdiction_in :: "transfer_request \<Rightarrow> string list \<Rightarrow> bool" where
  "jurisdiction_in r js = (tq_sender_jurisdiction r \<in> set js \<or> tq_receiver_jurisdiction r \<in> set js)"

definition sanctions_rule :: "transfer_request \<Rightarrow> rule_result" where
  "sanctions_rule r = flag_rule ''sanctions-screen'' Block
     (tq_sender_sanctions_flag r \<or> tq_receiver_sanctions_flag r)
     ''Sanctions/watchlist screening failed for one or more wallets.'' ''No sanctions/watchlist hits detected.''"

definition blocklist_rule :: "policy_state \<Rightarrow> transfer_request \<Rightarrow> rule_result" where
  "blocklist_rule s r = flag_rule ''wallet-blocklist'' Block (party_in r (ps_blocklisted_wallets s))
     ''A participating wallet is currently blocklisted by governance policy.''
     ''No participating wallets are blocklisted.''"

definition freeze_rule :: "policy_state \<Rightarrow> transfer_request \<Rightarrow> rule_result" where
  "freeze_rule s r = flag_rule ''wallet-freeze'' Block (party_in r (ps_frozen_wallets s))
     ''A participating wallet is currently frozen by governance action.'' ''No participating wallets are frozen.''"

definition asset_status_rule :: "policy_state \<Rightarrow> transfer_request \<Rightarrow> rule_result" where
  "asset_status_rule s r = flag_rule ''asset-transfer-status'' Block
     (tq_asset_id r \<in> set (ps_paused_assets s) \<or> tp_asset_status (tq_policy r) = Some ''paused'')
     ''Asset transfers are currently paused for this asset.'' ''Asset transfer status is active.''"

definition kyc_rule :: "transfer_request \<Rightarrow> rule_result" where
  "kyc_rule r = flag_rule ''kyc-status'' Review
     (tq_sender_kyc_status r \<noteq> ''verified'' \<or> tq_receiver_kyc_status r \<noteq> ''verified'')
     ''One or more wallets have incomplete or pending KYC status.'' ''Sender and receiver KYC controls are complete.''"

definition review_flag_rule :: "policy_state \<Rightarrow> transfer_request \<Rightarrow> rule_result" where
  "review_flag_rule s r = flag_rule ''wallet-review-flag'' Review (party_in r (ps_review_required_wallets s))
     ''A participating wallet requires manual compliance review.'' ''No manual wallet review flags are active.''"

definition jurisdiction_rule :: "transfer_request \<Rightarrow> rule_result" where
  "jurisdiction_rule r =
     (let p = tq_policy r;
          blocked = jurisdiction_in r (tp_restricted_jurisdictions p) \<and>
            tp_restricted_jurisdiction_action p = ''block'';
          review = jurisdiction_in r (tp_restricted_jurisdictions p @ tp_review_jurisdictions p) \<and> \<not> blocked
      in if blocked then mk_rule ''jurisdiction-policy'' Block ''A participating jurisdiction is restricted by asset policy.''
         else if review then mk_rule ''jurisdiction-policy'' Review ''A participating jurisdiction requires manual review.''
         else mk_rule ''jurisdiction-policy'' Passed ''Jurisdiction controls passed.'')"

definition accreditation_rule :: "transfer_request \<Rightarrow> rule_result" where
  "accreditation_rule r =
     (let accredited = tq_sender_accreditation_status r = ''approved'' \<and> tq_receiver_accreditation_status r = ''approved''
      in if tp_requires_accreditation (tq_policy r) \<and> \<not> accredited then
           if tq_sender_accreditation_status r = ''denied'' \<or> tq_receiver_accreditation_status r = ''denied''
           then mk_rule ''accreditation-status'' Block
                  ''A participating party failed the required accreditation/authorization control.''
           else mk_rule ''accreditation-status'' Review
                  ''One or more parties are missing the required accreditation/authorization status.''
         else mk_rule ''accreditation-status'' Passed ''Accreditation/authorization controls passed.'')"

definition asset_policy_rule :: "transfer_request \<Rightarrow> rule_result" where
  "asset_policy_rule r = flag_rule ''asset-transfer-policy'' Block
     (tp_allowed_assets (tq_policy r) \<noteq> [] \<and> tq_asset_id r \<notin> set (tp_allowed_assets (tq_policy r)))
     ''Asset is not authorized for transfer under the current wrapper policy.'' ''Asset-level transfer policy passed.''"

definition amount_rule :: "transfer_request \<Rightarrow> rule_result" where
  "amount_rule r =
     (let p = tq_policy r
      in if tq_amount r \<ge> tp_amount_block_threshold p then
           mk_rule ''amount-threshold'' (if tp_amount_threshold_action p = ''block'' then Block else Review)
             ''Transfer amount breached the hard threshold for this asset policy.''
         else if tq_amount r \<ge> tp_amount_review_threshold p then
           mk_rule ''amount-threshold'' Review ''Transfer amount breached the review threshold for this asset policy.''
         else mk_rule ''amount-threshold'' Passed ''Transfer amount is within approved thresholds.'')"

definition allowlist_rule :: "policy_state \<Rightarrow> transfer_request \<Rightarrow> rule_result" where
  "allowlist_rule s r =
     (let allowlisted = party_in r (ps_allowlisted_wallets s) \<or> ''allowlisted'' \<in> set (tq_sender_tags r) \<or>
            ''allowlisted'' \<in> set (tq_receiver_tags r);
          required = tp_require_known_wallet (tq_policy r)
      in mk_rule ''wallet-allowlist'' (if allowlisted then Passed else if required then Review else Passed)
           (if allowlisted then ''At least one participating wallet is allowlisted or tagged as trusted.''
            else if \<not> required then ''Wallets are not explicitly allowlisted, but policy does not require it.''
            else ''Wallet is not on the required allowlist.''))"

definition transfer_rules :: "policy_state \<Rightarrow> transfer_request \<Rightarrow> rule_result list" where
  "transfer_rules s r =
     [sanctions_rule r, blocklist_rule s r, freeze_rule s r, asset_status_rule s r, kyc_rule r,
      review_flag_rule s r, jurisdiction_rule r, accreditation_rule r, asset_policy_rule r, amount_rule r,
      allowlist_rule s r]"

text \<open>The locals \<open>decision\<close> and \<open>severity\<close> that \<open>apply_rule\<close> updates.\<close>

fun apply_rule :: "outcome \<Rightarrow> decision \<times> string \<Rightarrow> decision \<times> string" where
  "apply_rule Block (d, severity) = (Blocked, ''critical'')"
| "apply_rule Review (d, severity) =
     (if d \<noteq> Blocked
      then (NeedsReview, if severity = ''low'' \<or> severity = ''medium'' then ''high'' else severity)
      else (d, severity))"
| "apply_rule Passed (d, severity) = (d, severity)"

definition final_severity :: "rule_result list \<Rightarrow> decision \<times> string \<Rightarrow> string" where
  "final_severity rules acc = (case acc of (d, severity) \<Rightarrow>
     if d = Approved then ''low''
     else if d = NeedsReview \<and> severity \<noteq> ''critical''
     then if list_ex (\<lambda>ru. ru_outcome ru = Review) rules then ''high'' else ''medium''
     else severity)"

fun recommended_action :: "decision \<Rightarrow> string" where
  "recommended_action Approved = ''Proceed with wrapped transfer execution.''"
| "recommended_action NeedsReview = ''Escalate to compliance operations for manual approval.''"
| "recommended_action Blocked = ''Reject the transfer and record an exception in governance audit logs.''"

fun wrapper_status :: "decision \<Rightarrow> string" where
  "wrapper_status Approved = ''wrapper-clear''"
| "wrapper_status NeedsReview = ''wrapper-hold''"
| "wrapper_status Blocked = ''wrapper-blocked''"

definition suggest_enforcement_actions :: "transfer_request \<Rightarrow> decision \<Rightarrow> (string \<times> string \<times> string) list" where
  "suggest_enforcement_actions r d = (case d of
       Blocked \<Rightarrow> [(''freeze_wallet'', tq_sender_wallet r, ''Blocked transfer decision suggested wallet freeze.''),
         (''notify_only'', tq_receiver_wallet r, ''Escalate blocked transfer for manual review.'')]
     | NeedsReview \<Rightarrow> [(''notify_only'', tq_sender_wallet r, ''Review decision should notify compliance operators.'')]
     | Approved \<Rightarrow> [])"

record transfer_response =
  tr_decision :: decision
  tr_risk_level :: string
  tr_reasons :: "string list"
  tr_triggered_rules :: "rule_result list"
  tr_recommended_action :: string
  tr_wrapper_status :: string
  tr_explainability_summary :: string
  tr_enforcement_candidates :: "(string \<times> string \<times> string) list"

definition screen_transfer :: "policy_state \<Rightarrow> transfer_request \<Rightarrow> transfer_response" where
  "screen_transfer s r =
     (let rules = transfer_rules s r;
          acc = fold (\<lambda>ru. apply_rule (ru_outcome ru)) rules (Approved, ''low'');
          d = fst acc;
          reasons = map ru_summary (filter (\<lambda>ru. ru_outcome ru \<noteq> Passed) rules)
      in \<lparr>tr_decision = d, tr_risk_level = final_severity rules acc,
          tr_reasons = (if reasons = [] then [''All required compliance controls passed.''] else reasons),
          tr_triggered_rules = rules, tr_recommended_action = recommended_action d,
          tr_wrapper_status = wrapper_status d,
          tr_explainability_summary = ''Decision '' @ decision_value d @ '': '' @
            (case reasons of [] \<Rightarrow> ''all required compliance controls passed.'' | x # _ \<Rightarrow> x),
          tr_enforcement_candidates = suggest_enforcement_actions r d\<rparr>)"

section \<open>Screening data residency\<close>

record residency_request =
  rq_asset_id :: string
  rq_requested_processing_region :: string
  rq_approved_regions :: "string list"
  rq_restricted_regions :: "string list"
  rq_sensitivity_level :: string
  rq_cloud_environment :: string

datatype residency_decision = RAllowed | RReview | RDenied

datatype governance_status = GNormal | GWatch | GRestricted

record residency_response =
  rr_residency_decision :: residency_decision
  rr_policy_violations :: "string list"
  rr_routing_recommendation :: string
  rr_governance_status :: governance_status
  rr_explainability_summary :: string
  rr_allowed_region_outcome :: string

definition residency_violations :: "policy_state \<Rightarrow> residency_request \<Rightarrow> string list" where
  "residency_violations s r =
     (let region = rq_requested_processing_region r;
          level = rq_sensitivity_level r;
          approved = (if rq_approved_regions r = [] then ps_approved_cloud_regions s else rq_approved_regions r);
          restricted = (if rq_restricted_regions r = [] then ps_restricted_regions s else rq_restricted_regions r)
      in (if region \<in> set restricted then [''Requested processing region is on the restricted region list.''] else []) @
         (if region \<notin> set approved then [''Requested processing region is not on the approved cloud region list.''] else []) @
         (if (level = ''restricted'' \<or> level = ''sovereign'') \<and> region \<notin> set (ps_friendly_regions s)
          then [''Sensitivity level requires processing in a friendly or sovereign-aligned region.''] else []) @
         (if level = ''sovereign'' \<and> \<not> starts_with ''sovereign'' (rq_cloud_environment r)
          then [''Sovereign data requires a sovereign cloud environment.''] else []))"

definition screen_residency :: "policy_state \<Rightarrow> residency_request \<Rightarrow> residency_response" where
  "screen_residency s r =
     (let region = rq_requested_processing_region r;
          level = rq_sensitivity_level r;
          approved = (if rq_approved_regions r = [] then ps_approved_cloud_regions s else rq_approved_regions r);
          violations = residency_violations s r;
          d = (if violations \<noteq> [] then
                 if list_ex (\<lambda>v. contains ''restricted region list'' v \<or> contains ''sovereign cloud environment'' v) violations
                 then RDenied else RReview
               else RAllowed);
          gov = (if rq_asset_id r \<in> set (ps_paused_assets s) then GRestricted
                 else if level = ''restricted'' \<or> level = ''sovereign'' then GWatch else GNormal);
          fallback = (case sort (filter (\<lambda>x. x \<in> set (ps_friendly_regions s)) approved) of
              [] \<Rightarrow> ''manual-sovereign-review'' | x # _ \<Rightarrow> x)
      in \<lparr>rr_residency_decision = d, rr_policy_violations = violations,
          rr_routing_recommendation = (if d = RAllowed
            then ''Route processing to '' @ region @ '' in '' @ rq_cloud_environment r @ ''.''
            else ''Route processing to '' @ fallback @ '' or request governance override.''),
          rr_governance_status = gov,
          rr_explainability_summary = (if violations = [] then ''Residency controls passed without violations.''
            else py_join ''; '' violations),
          rr_allowed_region_outcome = (if d = RAllowed then region else fallback)\<rparr>)"

section \<open>The policy state as sets\<close>

text \<open>The contract of the governance actions: five sets, each action changes those it names.\<close>

record policy_sets =
  pa_allowlisted :: "string set"
  pa_blocklisted :: "string set"
  pa_frozen :: "string set"
  pa_review :: "string set"
  pa_paused :: "string set"

definition policy_sets_of :: "policy_state \<Rightarrow> policy_sets" where
  "policy_sets_of s = \<lparr>pa_allowlisted = set (ps_allowlisted_wallets s), pa_blocklisted = set (ps_blocklisted_wallets s),
     pa_frozen = set (ps_frozen_wallets s), pa_review = set (ps_review_required_wallets s),
     pa_paused = set (ps_paused_assets s)\<rparr>"

fun action_spec :: "action_type \<Rightarrow> string \<Rightarrow> string \<Rightarrow> policy_sets \<Rightarrow> policy_sets" where
  "action_spec FreezeWallet w a p = p\<lparr>pa_frozen := insert w (pa_frozen p)\<rparr>"
| "action_spec UnfreezeWallet w a p = p\<lparr>pa_frozen := pa_frozen p - {w}\<rparr>"
| "action_spec AllowlistWallet w a p =
     p\<lparr>pa_allowlisted := insert w (pa_allowlisted p), pa_blocklisted := pa_blocklisted p - {w}\<rparr>"
| "action_spec BlocklistWallet w a p =
     p\<lparr>pa_blocklisted := insert w (pa_blocklisted p), pa_allowlisted := pa_allowlisted p - {w}\<rparr>"
| "action_spec MarkReviewRequired w a p = p\<lparr>pa_review := insert w (pa_review p)\<rparr>"
| "action_spec PauseAssetTransfers w a p = p\<lparr>pa_paused := insert a (pa_paused p)\<rparr>"
| "action_spec ResumeAssetTransfers w a p = p\<lparr>pa_paused := pa_paused p - {a}\<rparr>"

definition tidy :: "policy_state \<Rightarrow> bool" where
  "tidy s = list_all distinct [ps_allowlisted_wallets s, ps_blocklisted_wallets s, ps_frozen_wallets s,
     ps_review_required_wallets s, ps_paused_assets s]"

lemma sorted_set_simps [simp]: "set (sorted_set xs) = set xs" "distinct (sorted_set xs)" "sorted (sorted_set xs)"
  by (simp_all add: sorted_set_def)

lemma tidy_tidy_state [step_invs]: "tidy (tidy_state s)"
  by (simp add: tidy_def tidy_state_def)

lemma policy_sets_tidy_state [simp]: "policy_sets_of (tidy_state s) = policy_sets_of s"
  by (simp add: policy_sets_of_def tidy_state_def)

lemma action_effect_spec:
  "tidy s \<Longrightarrow> policy_sets_of (fst (action_effect t w a s)) = action_spec t w a (policy_sets_of s)"
  by (cases t) (simp_all add: policy_sets_of_def tidy_def)

lemma apply_governance_action_policy:
  "cs_policy (apply_governance_action H store r now) =
     tidy_state (fst (action_effect (ga_action_type r) (ga_target_id r) (action_asset r) (cs_policy store)))"
  by (simp add: apply_governance_action_def split_beta)

lemma apply_governance_action_sets:
  "tidy (cs_policy store) \<Longrightarrow> policy_sets_of (cs_policy (apply_governance_action H store r now)) =
     action_spec (ga_action_type r) (ga_target_id r) (action_asset r) (policy_sets_of (cs_policy store))"
  by (simp add: apply_governance_action_policy action_effect_spec)

text \<open>A run of actions, each with the time it is applied.\<close>

definition run_actions :: "hash_fun \<Rightarrow> compliance_store \<Rightarrow> (action_request \<times> string) list \<Rightarrow> compliance_store" where
  "run_actions H store rs = foldl (\<lambda>st (r, now). apply_governance_action H st r now) store rs"

definition run_spec :: "policy_sets \<Rightarrow> (action_request \<times> string) list \<Rightarrow> policy_sets" where
  "run_spec p rs = foldl (\<lambda>p (r, now). action_spec (ga_action_type r) (ga_target_id r) (action_asset r) p) p rs"

lemma run_actions_snoc:
  "run_actions H store (rs @ [(r, now)]) = apply_governance_action H (run_actions H store rs) r now"
  "run_spec p (rs @ [(r, now)]) = action_spec (ga_action_type r) (ga_target_id r) (action_asset r) (run_spec p rs)"
  by (simp_all add: run_actions_def run_spec_def)

lemma run_actions_sets:
  "tidy (cs_policy store) \<Longrightarrow> tidy (cs_policy (run_actions H store rs)) \<and>
     policy_sets_of (cs_policy (run_actions H store rs)) = run_spec (policy_sets_of (cs_policy store)) rs"
proof (induction rs rule: rev_induct)
  case Nil
  then show ?case by (simp add: run_actions_def run_spec_def)
next
  case (snoc e rs)
  obtain r now where e: "e = (r, now)" by fastforce
  with snoc show ?case
    by (simp add: run_actions_snoc apply_governance_action_sets) (simp add: apply_governance_action_policy tidy_tidy_state)
qed

section \<open>Lemmas on screening\<close>

text \<open>The strictest outcome wins.\<close>

definition strictest :: "outcome list \<Rightarrow> decision" where
  "strictest os = (if Block \<in> set os then Blocked else if Review \<in> set os then NeedsReview else Approved)"

fun risk_of :: "decision \<Rightarrow> string" where
  "risk_of Approved = ''low''"
| "risk_of NeedsReview = ''high''"
| "risk_of Blocked = ''critical''"

lemma apply_rules_strictest:
  "fold (\<lambda>ru. apply_rule (ru_outcome ru)) rules (Approved, ''low'') =
     (strictest (map ru_outcome rules), risk_of (strictest (map ru_outcome rules)))"
proof (induction rules rule: rev_induct)
  case (snoc ru rules)
  then show ?case by (cases "ru_outcome ru") (auto simp: strictest_def)
qed (simp add: strictest_def)

lemma screen_transfer_decision:
  "tr_decision (screen_transfer s r) = strictest (map ru_outcome (transfer_rules s r))"
  "tr_risk_level (screen_transfer s r) = risk_of (tr_decision (screen_transfer s r))"
proof -
  let ?os = "map ru_outcome (transfer_rules s r)"
  show d: "tr_decision (screen_transfer s r) = strictest ?os"
    by (simp add: screen_transfer_def Let_def apply_rules_strictest)
  have "final_severity (transfer_rules s r) (strictest ?os, risk_of (strictest ?os)) = risk_of (strictest ?os)"
    by (cases "strictest ?os") (force simp: final_severity_def strictest_def list_ex_iff split: if_splits)+
  then show "tr_risk_level (screen_transfer s r) = risk_of (tr_decision (screen_transfer s r))"
    unfolding d by (simp add: screen_transfer_def Let_def apply_rules_strictest)
qed

text \<open>What blocks a transfer, and what sends it to review, in the words of the policy.\<close>

definition transfer_forbidden :: "policy_state \<Rightarrow> transfer_request \<Rightarrow> bool" where
  "transfer_forbidden s r = (let p = tq_policy r in
     tq_sender_sanctions_flag r \<or> tq_receiver_sanctions_flag r \<or>
     party_in r (ps_blocklisted_wallets s) \<or> party_in r (ps_frozen_wallets s) \<or>
     tq_asset_id r \<in> set (ps_paused_assets s) \<or> tp_asset_status p = Some ''paused'' \<or>
     jurisdiction_in r (tp_restricted_jurisdictions p) \<and> tp_restricted_jurisdiction_action p = ''block'' \<or>
     tp_requires_accreditation p \<and>
       (tq_sender_accreditation_status r = ''denied'' \<or> tq_receiver_accreditation_status r = ''denied'') \<or>
     tp_allowed_assets p \<noteq> [] \<and> tq_asset_id r \<notin> set (tp_allowed_assets p) \<or>
     tq_amount r \<ge> tp_amount_block_threshold p \<and> tp_amount_threshold_action p = ''block'')"

definition transfer_doubtful :: "policy_state \<Rightarrow> transfer_request \<Rightarrow> bool" where
  "transfer_doubtful s r = (let p = tq_policy r in
     tq_sender_kyc_status r \<noteq> ''verified'' \<or> tq_receiver_kyc_status r \<noteq> ''verified'' \<or>
     party_in r (ps_review_required_wallets s) \<or>
     jurisdiction_in r (tp_restricted_jurisdictions p @ tp_review_jurisdictions p) \<or>
     tp_requires_accreditation p \<and>
       (tq_sender_accreditation_status r \<noteq> ''approved'' \<or> tq_receiver_accreditation_status r \<noteq> ''approved'') \<or>
     tq_amount r \<ge> tp_amount_block_threshold p \<or> tq_amount r \<ge> tp_amount_review_threshold p \<or>
     tp_require_known_wallet p \<and> \<not> party_in r (ps_allowlisted_wallets s) \<and>
       ''allowlisted'' \<notin> set (tq_sender_tags r) \<and> ''allowlisted'' \<notin> set (tq_receiver_tags r))"

lemma rule_outcomes:
  "out \<in> set (map ru_outcome (transfer_rules s r)) \<longleftrightarrow>
     ru_outcome (sanctions_rule r) = out \<or> ru_outcome (blocklist_rule s r) = out \<or> ru_outcome (freeze_rule s r) = out \<or>
     ru_outcome (asset_status_rule s r) = out \<or> ru_outcome (kyc_rule r) = out \<or> ru_outcome (review_flag_rule s r) = out \<or>
     ru_outcome (jurisdiction_rule r) = out \<or> ru_outcome (accreditation_rule r) = out \<or>
     ru_outcome (asset_policy_rule r) = out \<or> ru_outcome (amount_rule r) = out \<or> ru_outcome (allowlist_rule s r) = out"
  by (auto simp: transfer_rules_def)

lemma flag_outcomes:
  "ru_outcome (flag_rule i out hit yes no) = Block \<longleftrightarrow> hit \<and> out = Block"
  "ru_outcome (flag_rule i out hit yes no) = Review \<longleftrightarrow> hit \<and> out = Review"
  by (simp_all add: flag_rule_def mk_rule_def)

lemma other_outcomes:
  "ru_outcome (accreditation_rule r) = Block \<longleftrightarrow> tp_requires_accreditation (tq_policy r) \<and>
     (tq_sender_accreditation_status r = ''denied'' \<or> tq_receiver_accreditation_status r = ''denied'')"
  "ru_outcome (jurisdiction_rule r) = Block \<longleftrightarrow>
     jurisdiction_in r (tp_restricted_jurisdictions (tq_policy r)) \<and> tp_restricted_jurisdiction_action (tq_policy r) = ''block''"
  "ru_outcome (amount_rule r) = Block \<longleftrightarrow>
     tq_amount r \<ge> tp_amount_block_threshold (tq_policy r) \<and> tp_amount_threshold_action (tq_policy r) = ''block''"
  "ru_outcome (allowlist_rule s r) \<noteq> Block"
  by (auto simp: accreditation_rule_def jurisdiction_rule_def amount_rule_def allowlist_rule_def mk_rule_def Let_def)

lemmas flag_rules = sanctions_rule_def blocklist_rule_def freeze_rule_def asset_status_rule_def kyc_rule_def
  review_flag_rule_def asset_policy_rule_def

lemma blocks_iff: "Block \<in> set (map ru_outcome (transfer_rules s r)) \<longleftrightarrow> transfer_forbidden s r"
  unfolding rule_outcomes other_outcomes flag_rules flag_outcomes transfer_forbidden_def Let_def
  by (simp only: outcome.distinct simp_thms disj_assoc other_outcomes)

text \<open>Unless something blocks, review is what the doubtful cases get.\<close>

lemma review_outcomes:
  assumes "\<not> transfer_forbidden s r"
  shows "ru_outcome (accreditation_rule r) = Review \<longleftrightarrow> tp_requires_accreditation (tq_policy r) \<and>
       (tq_sender_accreditation_status r \<noteq> ''approved'' \<or> tq_receiver_accreditation_status r \<noteq> ''approved'')"
    and "ru_outcome (jurisdiction_rule r) = Review \<longleftrightarrow>
       jurisdiction_in r (tp_restricted_jurisdictions (tq_policy r) @ tp_review_jurisdictions (tq_policy r))"
    and "ru_outcome (amount_rule r) = Review \<longleftrightarrow> tq_amount r \<ge> tp_amount_block_threshold (tq_policy r) \<or>
       tq_amount r \<ge> tp_amount_review_threshold (tq_policy r)"
    and "ru_outcome (allowlist_rule s r) = Review \<longleftrightarrow> tp_require_known_wallet (tq_policy r) \<and>
       \<not> party_in r (ps_allowlisted_wallets s) \<and>
       ''allowlisted'' \<notin> set (tq_sender_tags r) \<and> ''allowlisted'' \<notin> set (tq_receiver_tags r)"
proof -
  have no: "ru_outcome (accreditation_rule r) \<noteq> Block" "ru_outcome (jurisdiction_rule r) \<noteq> Block"
      "ru_outcome (amount_rule r) \<noteq> Block"
    using assms unfolding blocks_iff [symmetric] rule_outcomes by blast+
  show "ru_outcome (accreditation_rule r) = Review \<longleftrightarrow> tp_requires_accreditation (tq_policy r) \<and>
       (tq_sender_accreditation_status r \<noteq> ''approved'' \<or> tq_receiver_accreditation_status r \<noteq> ''approved'')"
    using no(1) unfolding other_outcomes(1) by (auto simp: accreditation_rule_def mk_rule_def Let_def)
  show "ru_outcome (jurisdiction_rule r) = Review \<longleftrightarrow>
       jurisdiction_in r (tp_restricted_jurisdictions (tq_policy r) @ tp_review_jurisdictions (tq_policy r))"
    using no(2) unfolding other_outcomes(2) by (auto simp: jurisdiction_rule_def mk_rule_def Let_def)
  show "ru_outcome (amount_rule r) = Review \<longleftrightarrow> tq_amount r \<ge> tp_amount_block_threshold (tq_policy r) \<or>
       tq_amount r \<ge> tp_amount_review_threshold (tq_policy r)"
    using no(3) unfolding other_outcomes(3) by (auto simp: amount_rule_def mk_rule_def Let_def)
qed (auto simp: allowlist_rule_def mk_rule_def Let_def)

lemma reviews_iff:
  assumes "\<not> transfer_forbidden s r"
  shows "Review \<in> set (map ru_outcome (transfer_rules s r)) \<longleftrightarrow> transfer_doubtful s r"
  unfolding rule_outcomes review_outcomes [OF assms] flag_rules flag_outcomes transfer_doubtful_def Let_def
  by (simp only: outcome.distinct simp_thms disj_assoc)

section \<open>Properties\<close>

text \<open>
  C17. The transfer decision is the strictest control. A transfer is blocked exactly when a
  sanctions flag, the blocklist, a freeze, a pause, a blocking jurisdiction, a denied
  accreditation, the asset list or a blocking amount forbids it; otherwise it goes to review
  exactly when a control is in doubt, and is approved exactly when none is. The risk level is that
  of the decision, and the reasons are the summaries of the rules that did not pass.
\<close>

theorem transfer_decision_iff:
  "tr_decision (screen_transfer s r) =
     (if transfer_forbidden s r then Blocked else if transfer_doubtful s r then NeedsReview else Approved) \<and>
   tr_risk_level (screen_transfer s r) = risk_of (tr_decision (screen_transfer s r)) \<and>
   (tr_decision (screen_transfer s r) = Approved \<longleftrightarrow>
      list_all (\<lambda>ru. ru_outcome ru = Passed) (tr_triggered_rules (screen_transfer s r)))"
proof (intro conjI)
  show d: "tr_decision (screen_transfer s r) =
     (if transfer_forbidden s r then Blocked else if transfer_doubtful s r then NeedsReview else Approved)"
    using blocks_iff [of s r] reviews_iff [of s r] by (auto simp: screen_transfer_decision(1) strictest_def)
  show "tr_risk_level (screen_transfer s r) = risk_of (tr_decision (screen_transfer s r))"
    by (rule screen_transfer_decision)
  have rules: "tr_triggered_rules (screen_transfer s r) = transfer_rules s r" by (simp add: screen_transfer_def Let_def)
  have all: "list_all (\<lambda>ru. ru_outcome ru = Passed) rules \<longleftrightarrow>
      Block \<notin> set (map ru_outcome rules) \<and> Review \<notin> set (map ru_outcome rules)" for rules
  proof (induction rules)
    case (Cons ru rules)
    then show ?case by (cases "ru_outcome ru") simp_all
  qed simp
  show "tr_decision (screen_transfer s r) = Approved \<longleftrightarrow>
      list_all (\<lambda>ru. ru_outcome ru = Passed) (tr_triggered_rules (screen_transfer s r))"
    unfolding rules all screen_transfer_decision(1) strictest_def by simp
qed

text \<open>
  C18. A frozen wallet stays blocked until it is unfrozen. After a governance action that freezes
  a wallet and any later actions none of which unfreezes it, every transfer from or to the wallet
  is blocked as critical, whatever the asset policy and the other facts of the transfer.
\<close>

theorem frozen_wallet_blocked:
  assumes "tidy (cs_policy store)" and "ga_action_type freeze = FreezeWallet"
    and "list_all (\<lambda>(a, t). ga_action_type a \<noteq> UnfreezeWallet \<or> ga_target_id a \<noteq> ga_target_id freeze) later"
    and "tq_sender_wallet r = ga_target_id freeze \<or> tq_receiver_wallet r = ga_target_id freeze"
  shows "tr_decision (screen_transfer (cs_policy (run_actions H store (before @ (freeze, now) # later))) r) = Blocked \<and>
    tr_risk_level (screen_transfer (cs_policy (run_actions H store (before @ (freeze, now) # later))) r) = ''critical''"
proof -
  let ?w = "ga_target_id freeze"
  have keeps: "?w \<in> pa_frozen (run_spec p later)" if "?w \<in> pa_frozen p" for p
    using assms(3)
  proof (induction later rule: rev_induct)
    case Nil
    then show ?case using that by (simp add: run_spec_def)
  next
    case (snoc e later)
    obtain a t where e: "e = (a, t)" by fastforce
    with snoc show ?case by (cases "ga_action_type a") (auto simp: run_actions_snoc)
  qed
  have split: "run_spec p (before @ (freeze, now) # later) = run_spec (run_spec p (before @ [(freeze, now)])) later" for p
    by (simp add: run_spec_def)
  have "?w \<in> pa_frozen (run_spec p (before @ [(freeze, now)]))" for p
    using assms(2) by (simp add: run_actions_snoc)
  from keeps [OF this] have "?w \<in> pa_frozen (run_spec p (before @ (freeze, now) # later))" for p
    unfolding split .
  then have "?w \<in> pa_frozen (policy_sets_of (cs_policy (run_actions H store (before @ (freeze, now) # later))))"
    using run_actions_sets [OF assms(1)] by simp
  then have "transfer_forbidden (cs_policy (run_actions H store (before @ (freeze, now) # later))) r"
    using assms(4) by (auto simp: policy_sets_of_def transfer_forbidden_def party_in_def Let_def)
  then have "tr_decision (screen_transfer (cs_policy (run_actions H store (before @ (freeze, now) # later))) r) = Blocked"
    using blocks_iff by (simp add: screen_transfer_decision(1) strictest_def)
  then show ?thesis by (simp add: screen_transfer_decision(2))
qed

definition sample_action :: "action_type \<Rightarrow> string \<Rightarrow> action_request" where
  "sample_action t w = \<lparr>ga_action_type = t, ga_target_type = ''wallet'', ga_target_id = w, ga_actor = ''gov'',
     ga_reason = ''r'', ga_related_asset_id = None, ga_metadata = []\<rparr>"

definition sample_transfer :: transfer_request where
  "sample_transfer = \<lparr>tq_asset_id = ''A'', tq_sender_wallet = ''w1'', tq_receiver_wallet = ''w2'', tq_amount = 1,
     tq_sender_kyc_status = ''verified'', tq_receiver_kyc_status = ''verified'', tq_sender_jurisdiction = ''US'',
     tq_receiver_jurisdiction = ''US'', tq_sender_sanctions_flag = False, tq_receiver_sanctions_flag = False,
     tq_sender_accreditation_status = ''approved'', tq_receiver_accreditation_status = ''approved'',
     tq_policy = empty_policy, tq_sender_tags = [], tq_receiver_tags = []\<rparr>"

definition empty_store :: compliance_store where
  "empty_store = \<lparr>cs_policy = default_policy_state, cs_actions = []\<rparr>"

lemma tidy_default: "tidy default_policy_state"
  by (simp add: tidy_def default_policy_state_def)

theorem frozen_wallet_blocked_witness:
  "tr_decision (screen_transfer (cs_policy (run_actions (\<lambda>b. b) empty_store
     ([] @ (sample_action FreezeWallet ''w1'', ''t0'') # [(sample_action AllowlistWallet ''w1'', ''t1''),
       (sample_action UnfreezeWallet ''w2'', ''t2'')]))) sample_transfer) = Blocked"
  using frozen_wallet_blocked [of empty_store "sample_action FreezeWallet ''w1''"
      "[(sample_action AllowlistWallet ''w1'', ''t1''), (sample_action UnfreezeWallet ''w2'', ''t2'')]" sample_transfer
      "\<lambda>b. b" "[]" "''t0''"]
  by (simp add: sample_action_def sample_transfer_def empty_store_def tidy_default)

text \<open>
  C19. The governance state refines five sets. From the shipped policy state, any run of
  governance actions leaves lists without duplicates whose elements are those the specification
  of the actions gives, no wallet is ever both allowlisted and blocklisted, and the ledger holds
  one record per action under identifiers of their own.
\<close>

theorem governance_run_refines:
  "tidy (cs_policy (run_actions H empty_store rs)) \<and>
   policy_sets_of (cs_policy (run_actions H empty_store rs)) = run_spec (policy_sets_of default_policy_state) rs \<and>
   set (ps_allowlisted_wallets (cs_policy (run_actions H empty_store rs))) \<inter>
     set (ps_blocklisted_wallets (cs_policy (run_actions H empty_store rs))) = {} \<and>
   distinct (map gr_action_id (cs_actions (run_actions H empty_store rs))) \<and>
   length (cs_actions (run_actions H empty_store rs)) = length rs"
proof -
  have tidy: "tidy (cs_policy empty_store)" by (simp add: empty_store_def tidy_default)
  have sets: "policy_sets_of (cs_policy (run_actions H empty_store rs)) = run_spec (policy_sets_of default_policy_state) rs"
    using run_actions_sets [OF tidy] by (simp add: empty_store_def)
  have "pa_allowlisted (run_spec (policy_sets_of default_policy_state) rs) \<inter>
      pa_blocklisted (run_spec (policy_sets_of default_policy_state) rs) = {}"
  proof (induction rs rule: rev_induct)
    case Nil
    show ?case by (simp add: run_spec_def policy_sets_of_def default_policy_state_def)
  next
    case (snoc e rs)
    obtain a t where e: "e = (a, t)" by fastforce
    with snoc show ?case by (cases "ga_action_type a") (auto simp: run_actions_snoc)
  qed
  then have "set (ps_allowlisted_wallets (cs_policy (run_actions H empty_store rs))) \<inter>
      set (ps_blocklisted_wallets (cs_policy (run_actions H empty_store rs))) = {}"
    unfolding sets [symmetric] by (simp add: policy_sets_of_def)
  moreover have "\<exists>ps. cs_actions (run_actions H empty_store rs) = foldl (create_action_record H) [] ps \<and> length ps = length rs"
  proof (induction rs rule: rev_induct)
    case Nil
    show ?case by (simp add: run_actions_def empty_store_def)
  next
    case (snoc e rs)
    obtain a t where e: "e = (a, t)" by fastforce
    obtain ps where ps: "cs_actions (run_actions H empty_store rs) = foldl (create_action_record H) [] ps"
        "length ps = length rs" using snoc by blast
    obtain p where "cs_actions (apply_governance_action H (run_actions H empty_store rs) a t) =
        create_action_record H (cs_actions (run_actions H empty_store rs)) p"
      by (auto simp: apply_governance_action_def split_beta)
    with ps show ?case unfolding e run_actions_snoc by (intro exI [of _ "ps @ [p]"]) simp
  qed
  then obtain ps where "cs_actions (run_actions H empty_store rs) = foldl (create_action_record H) [] ps" "length ps = length rs"
    by blast
  ultimately show ?thesis
    using run_actions_sets [OF tidy, of H rs] sets actions.add_run_distinct [of H ps] actions.add_run_length [of H ps]
    by simp
qed

end
