(* ===== verification/Backstop.thy ===== *)
theory Backstop
  imports Complex_Main Local_Ledger
begin

text \<open>
  The liquidity backstop and the incident ledger of the reconciliation service,
  \<open>services/reconciliation-service/app/engine.py\<close> and \<open>store.py\<close>.

  A score is the exact rational value of the float, between 0 and 100 as the request schema
  demands. SHA-256 is the parameter \<open>H\<close>, the clock an argument. The texts of the safeguards and
  of the recommended actions are those of the code.
\<close>

section \<open>The backstop decision\<close>

datatype backstop_decision = BNormal | BAlert | BRestricted | BPaused

fun decision_text :: "backstop_decision \<Rightarrow> string" where
  "decision_text BNormal = ''normal''"
| "decision_text BAlert = ''alert''"
| "decision_text BRestricted = ''restricted''"
| "decision_text BPaused = ''paused''"

fun operational_status :: "backstop_decision \<Rightarrow> string" where
  "operational_status BNormal = ''normal''"
| "operational_status BAlert = ''stressed''"
| "operational_status BRestricted = ''restricted''"
| "operational_status BPaused = ''paused''"

record backstop_request =
  br_asset_id :: string
  br_volatility_score :: rat
  br_cyber_alert_score :: rat
  br_reconciliation_severity :: rat
  br_oracle_confidence_score :: rat
  br_compliance_incident_score :: rat

text \<open>The five locals the thresholds update.\<close>

record backstop_acc =
  ba_decision :: backstop_decision
  ba_triggered :: "string list"
  ba_actions :: "string list"
  ba_trading :: string
  ba_bridge :: string
  ba_settlement :: string

definition backstop_start :: backstop_acc where
  "backstop_start = \<lparr>ba_decision = BNormal, ba_triggered = [], ba_actions = [],
     ba_trading = ''active'', ba_bridge = ''active'', ba_settlement = ''active''\<rparr>"

definition trigger :: "string list \<Rightarrow> string \<Rightarrow> backstop_acc \<Rightarrow> backstop_acc" where
  "trigger ts act a = a\<lparr>ba_triggered := ba_triggered a @ ts, ba_actions := ba_actions a @ [act]\<rparr>"

definition volatility_alert :: "backstop_request \<Rightarrow> backstop_acc \<Rightarrow> backstop_acc" where
  "volatility_alert r a =
     (if br_volatility_score r \<ge> 60
      then (trigger [''soft alert''] ''Increase monitoring frequency and inform treasury operations.'' a)
             \<lparr>ba_decision := BAlert\<rparr>
      else a)"

definition volatility_restrict :: "backstop_request \<Rightarrow> backstop_acc \<Rightarrow> backstop_acc" where
  "volatility_restrict r a =
     (if br_volatility_score r \<ge> 80
      then (trigger [''high-volatility mode'', ''reduce transfer threshold'']
              ''Reduce transfer thresholds while volatility remains elevated.'' a)
             \<lparr>ba_decision := BRestricted, ba_trading := ''guarded''\<rparr>
      else a)"

definition cyber_pause :: "backstop_request \<Rightarrow> backstop_acc \<Rightarrow> backstop_acc" where
  "cyber_pause r a =
     (if br_cyber_alert_score r \<ge> 75
      then (trigger [''pause trading''] ''Route all new trading requests through incident command review.'' a)
             \<lparr>ba_trading := ''paused'',
              ba_decision := (if br_volatility_score r \<ge> 70 then BPaused else BRestricted)\<rparr>
      else a)"

definition reconciliation_pause :: "backstop_request \<Rightarrow> backstop_acc \<Rightarrow> backstop_acc" where
  "reconciliation_pause r a =
     (if br_reconciliation_severity r \<ge> 70
      then (trigger [''pause bridge / settlement lane'', ''circuit breaker triggered'']
              ''Pause bridge mint/burn and settlement lanes until reconciliation recovers.'' a)
             \<lparr>ba_bridge := ''paused'', ba_settlement := ''paused'', ba_decision := BPaused\<rparr>
      else a)"

definition oracle_escalate :: "backstop_request \<Rightarrow> backstop_acc \<Rightarrow> backstop_acc" where
  "oracle_escalate r a =
     (if br_oracle_confidence_score r \<le> 45
      then (trigger [''soft alert'']
              ''Require dual confirmation for oracle-dependent pricing and collateral checks.'' a)
             \<lparr>ba_decision := (case ba_decision a of BNormal \<Rightarrow> BAlert | BAlert \<Rightarrow> BRestricted | d \<Rightarrow> d)\<rparr>
      else a)"

definition compliance_escalate :: "backstop_request \<Rightarrow> backstop_acc \<Rightarrow> backstop_acc" where
  "compliance_escalate r a =
     (if br_compliance_incident_score r \<ge> 60
      then (trigger [''reduce transfer threshold'']
              ''Reduce outbound transfer thresholds until compliance incident volume normalizes.'' a)
             \<lparr>ba_decision := (case ba_decision a of BNormal \<Rightarrow> BAlert | d \<Rightarrow> d)\<rparr>
      else a)"

text \<open>The statuses that follow the decision, and the action of a quiet market.\<close>

definition settle_statuses :: "backstop_acc \<Rightarrow> backstop_acc" where
  "settle_statuses a =
     (let d = ba_decision a in
      a\<lparr>ba_bridge := (if ba_bridge a = ''active'' \<and> d \<in> {BAlert, BRestricted} then ''guarded'' else ba_bridge a),
        ba_settlement := (if ba_settlement a = ''active'' \<and> d = BRestricted then ''guarded'' else ba_settlement a),
        ba_trading := (if ba_trading a = ''active'' \<and> d = BAlert then ''watch'' else ba_trading a),
        ba_actions := (if ba_triggered a = []
          then ba_actions a @ [''Maintain normal operations and keep baseline telemetry active.'']
          else ba_actions a)\<rparr>)"

record backstop_response =
  bs_asset_id :: string
  bs_decision :: backstop_decision
  bs_triggered_safeguards :: "string list"
  bs_recommended_actions :: "string list"
  bs_operational_status :: string
  bs_trading_status :: string
  bs_bridge_status :: string
  bs_settlement_status :: string

text \<open>\<open>_unique_list\<close>: the non-empty texts, each at its first place.\<close>

definition unique_list :: "string list \<Rightarrow> string list" where
  "unique_list values = fold append_new (filter (\<lambda>v. v \<noteq> []) values) []"

definition evaluate_backstop :: "backstop_request \<Rightarrow> backstop_response" where
  "evaluate_backstop r =
     (let a = settle_statuses (compliance_escalate r (oracle_escalate r (reconciliation_pause r (cyber_pause r
                (volatility_restrict r (volatility_alert r backstop_start))))))
      in \<lparr>bs_asset_id = br_asset_id r, bs_decision = ba_decision a,
          bs_triggered_safeguards = unique_list (ba_triggered a),
          bs_recommended_actions = unique_list (ba_actions a),
          bs_operational_status = operational_status (ba_decision a),
          bs_trading_status = ba_trading a, bs_bridge_status = ba_bridge a,
          bs_settlement_status = ba_settlement a\<rparr>)"

section \<open>The incident ledger\<close>

record incident_request =
  ir_event_type :: string
  ir_trigger_source :: string
  ir_related_asset_id :: string
  ir_affected_assets :: "string list"
  ir_affected_ledgers :: "string list"
  ir_severity :: string
  ir_status :: string
  ir_summary :: string
  ir_metadata :: "(string \<times> json) list"

definition normalize_incident_payload :: "incident_request \<Rightarrow> (string \<times> json) list" where
  "normalize_incident_payload p =
     [(''event_type'', JStr (ir_event_type p)), (''trigger_source'', JStr (ir_trigger_source p)),
      (''related_asset_id'', JStr (ir_related_asset_id p)),
      (''affected_assets'', JList (map JStr (sort (ir_affected_assets p)))),
      (''affected_ledgers'', JList (map JStr (sort (ir_affected_ledgers p)))),
      (''severity'', JStr (ir_severity p)), (''status'', JStr (ir_status p)), (''summary'', JStr (ir_summary p)),
      (''metadata'', JDict (ir_metadata p))]"

definition incident_attestation :: "hash_fun \<Rightarrow> incident_request \<Rightarrow> string" where
  "incident_attestation H p = bytes_hex (H (utf8 (json_dumps (JDict (normalize_incident_payload p)))))"

record incident_record =
  in_payload :: "(string \<times> json) list"
  in_event_id :: string
  in_created_at :: string
  in_attestation_hash :: string
  in_fingerprint :: string

definition create_incident :: "hash_fun \<Rightarrow> incident_record list \<Rightarrow> incident_request \<times> string \<Rightarrow> incident_record list" where
  "create_incident H incidents e =
     (let attestation = incident_attestation H (fst e)
      in incidents @ [\<lparr>in_payload = normalize_incident_payload (fst e),
           in_event_id = ''evt-'' @ pad4 (length incidents + 1), in_created_at = snd e,
           in_attestation_hash = attestation, in_fingerprint = take 16 attestation\<rparr>])"

definition list_incidents :: "incident_record list \<Rightarrow> incident_record list" where
  "list_incidents incidents = rev incidents"

definition get_incident :: "string \<Rightarrow> incident_record list \<Rightarrow> incident_record option" where
  "get_incident event_id incidents = find (\<lambda>r. in_event_id r = event_id) incidents"

interpretation incidents: numbered_ledger "create_incident H" in_event_id "''evt-''" for H
  by unfold_locales (simp add: create_incident_def Let_def)

section \<open>Specification of the decision\<close>

text \<open>The level of protection the scores ask for.\<close>

definition must_pause :: "backstop_request \<Rightarrow> bool" where
  "must_pause r = (br_reconciliation_severity r \<ge> 70 \<or> br_cyber_alert_score r \<ge> 75 \<and> br_volatility_score r \<ge> 70)"

definition must_restrict :: "backstop_request \<Rightarrow> bool" where
  "must_restrict r = (br_volatility_score r \<ge> 80 \<or> br_cyber_alert_score r \<ge> 75 \<or>
     br_volatility_score r \<ge> 60 \<and> br_oracle_confidence_score r \<le> 45)"

definition must_alert :: "backstop_request \<Rightarrow> bool" where
  "must_alert r = (br_volatility_score r \<ge> 60 \<or> br_oracle_confidence_score r \<le> 45 \<or>
     br_compliance_incident_score r \<ge> 60)"

definition required_decision :: "backstop_request \<Rightarrow> backstop_decision" where
  "required_decision r = (if must_pause r then BPaused else if must_restrict r then BRestricted
     else if must_alert r then BAlert else BNormal)"

lemmas threshold_defs = volatility_alert_def volatility_restrict_def cyber_pause_def reconciliation_pause_def
  oracle_escalate_def compliance_escalate_def trigger_def backstop_start_def

lemma evaluate_backstop_decision: "bs_decision (evaluate_backstop r) = required_decision r"
proof -
  have "\<not> br_volatility_score r \<ge> 70 \<Longrightarrow> \<not> br_volatility_score r \<ge> 80"
    and "\<not> br_volatility_score r \<ge> 60 \<Longrightarrow> \<not> br_volatility_score r \<ge> 70" by linarith+
  then show ?thesis
    by (cases "br_volatility_score r \<ge> 60"; cases "br_volatility_score r \<ge> 80"; cases "br_cyber_alert_score r \<ge> 75";
        cases "br_reconciliation_severity r \<ge> 70")
      (simp_all add: evaluate_backstop_def Let_def settle_statuses_def threshold_defs required_decision_def
        must_pause_def must_restrict_def must_alert_def)
qed

text \<open>The levels are ordered; a worse market never asks for less protection.\<close>

fun level :: "backstop_decision \<Rightarrow> nat" where
  "level BNormal = 0"
| "level BAlert = 1"
| "level BRestricted = 2"
| "level BPaused = 3"

definition no_better :: "backstop_request \<Rightarrow> backstop_request \<Rightarrow> bool" where
  "no_better r r' = (br_volatility_score r \<le> br_volatility_score r' \<and> br_cyber_alert_score r \<le> br_cyber_alert_score r' \<and>
     br_reconciliation_severity r \<le> br_reconciliation_severity r' \<and>
     br_oracle_confidence_score r' \<le> br_oracle_confidence_score r \<and>
     br_compliance_incident_score r \<le> br_compliance_incident_score r')"

lemma required_decision_mono: "no_better r r' \<Longrightarrow> level (required_decision r) \<le> level (required_decision r')"
proof -
  assume w: "no_better r r'"
  have "must_pause r \<longrightarrow> must_pause r'" "must_restrict r \<longrightarrow> must_restrict r'" "must_alert r \<longrightarrow> must_alert r'"
    using w unfolding no_better_def must_pause_def must_restrict_def must_alert_def by linarith+
  then show ?thesis by (simp add: required_decision_def)
qed

section \<open>Properties\<close>

text \<open>
  C20. The backstop decision is the one the thresholds ask for: \<open>paused\<close> exactly for a critical
  reconciliation or a cyber alert in a volatile market, \<open>restricted\<close> exactly for a very volatile
  market, a cyber alert, or volatility with an unreliable oracle, \<open>alert\<close> exactly for one warning
  sign; and a market that is worse in every score never gets a weaker decision.
\<close>

theorem backstop_decision_required:
  "bs_decision (evaluate_backstop r) = required_decision r \<and>
   level (required_decision r) \<le> level (required_decision
     (r\<lparr>br_volatility_score := br_volatility_score r + \<bar>dv\<bar>, br_cyber_alert_score := br_cyber_alert_score r + \<bar>dc\<bar>,
        br_reconciliation_severity := br_reconciliation_severity r + \<bar>dr\<bar>,
        br_oracle_confidence_score := br_oracle_confidence_score r - \<bar>da\<bar>,
        br_compliance_incident_score := br_compliance_incident_score r + \<bar>di\<bar>\<rparr>))"
proof
  show "bs_decision (evaluate_backstop r) = required_decision r" by (rule evaluate_backstop_decision)
qed (rule required_decision_mono, simp add: no_better_def)

text \<open>
  The incident ledger keeps what it is told. After any sequence of recordings every
  incident is found under its own identifier, no two incidents share one, the payloads stand in
  the order they were recorded, and an earlier ledger is a prefix of a later one.
\<close>

theorem incident_ledger_faithful:
  "(\<forall>r \<in> set (foldl (create_incident H) [] es). get_incident (in_event_id r) (foldl (create_incident H) [] es) = Some r) \<and>
   distinct (map in_event_id (foldl (create_incident H) [] es)) \<and>
   map in_payload (foldl (create_incident H) [] es) = map (normalize_incident_payload \<circ> fst) es \<and>
   (\<exists>later. foldl (create_incident H) [] (es @ es') = foldl (create_incident H) [] es @ later)"
proof (intro conjI ballI)
  fix r assume "r \<in> set (foldl (create_incident H) [] es)"
  then show "get_incident (in_event_id r) (foldl (create_incident H) [] es) = Some r"
    unfolding get_incident_def by (rule incidents.lookup_added)
next
  show "distinct (map in_event_id (foldl (create_incident H) [] es))" by (rule incidents.add_run_distinct)
next
  show "map in_payload (foldl (create_incident H) [] es) = map (normalize_incident_payload \<circ> fst) es"
    by (induction es rule: rev_induct) (simp_all add: create_incident_def Let_def)
next
  show "\<exists>later. foldl (create_incident H) [] (es @ es') = foldl (create_incident H) [] es @ later"
    using incidents.add_run_prefix [of H "foldl (create_incident H) [] es" es'] by simp
qed

definition one_incident :: "incident_request \<times> string" where
  "one_incident = (\<lparr>ir_event_type = ''failure'', ir_trigger_source = ''engine'', ir_related_asset_id = ''A'',
     ir_affected_assets = [], ir_affected_ledgers = [], ir_severity = ''high'', ir_status = ''open'',
     ir_summary = ''s'', ir_metadata = []\<rparr>, ''t'')"

theorem incident_ledger_faithful_witness:
  "get_incident ''evt-0001'' (create_incident (\<lambda>b. b) [] one_incident) = Some (hd (create_incident (\<lambda>b. b) [] one_incident))"
proof -
  have "str_nat 1 = ''1''" by code_simp
  then have "in_event_id (hd (create_incident (\<lambda>b. b) [] one_incident)) = ''evt-0001''"
    by (simp add: create_incident_def Let_def pad4_def numeral_3_eq_3 replicate_app_Cons_same)
  moreover have "hd (create_incident (\<lambda>b. b) [] one_incident) \<in> set (foldl (create_incident (\<lambda>b. b)) [] [one_incident])"
    by (simp add: create_incident_def Let_def)
  ultimately show ?thesis
    using incident_ledger_faithful [of "\<lambda>b. b" "[one_incident]" "[]"] by (metis foldl_Cons foldl_Nil)
qed

text \<open>
  A pause leaves the bridge more open than a restriction does: between a restricted and a paused
  market that differ only in volatility, the bridge and settlement lanes go from guarded back to
  active.
\<close>

lemma pause_reopens_bridge:
  assumes "br_cyber_alert_score r \<ge> 75" "br_reconciliation_severity r < 70" "br_volatility_score r < 60"
    "br_oracle_confidence_score r > 45" "br_compliance_incident_score r < 60"
  shows "bs_decision (evaluate_backstop r) = BRestricted" "bs_bridge_status (evaluate_backstop r) = ''guarded''"
    "bs_decision (evaluate_backstop (r\<lparr>br_volatility_score := 75\<rparr>)) = BPaused"
    "bs_bridge_status (evaluate_backstop (r\<lparr>br_volatility_score := 75\<rparr>)) = ''active''"
    "bs_settlement_status (evaluate_backstop (r\<lparr>br_volatility_score := 75\<rparr>)) = ''active''"
  using assms by (simp_all add: evaluate_backstop_def Let_def settle_statuses_def threshold_defs)

end
