(* ===== verification/Rate_Limit.thy ===== *)
theory Rate_Limit
  imports Complex_Main Evidence_Merkle Governance_Config
begin

text \<open>
  The guard of the authentication endpoints, \<open>services/api/app/domains/rate_limit/__init__.py\<close>: the
  shared counter when a backend is configured, the sliding window in memory otherwise.

  The shared backend, Redis or Upstash, is a parameter: \<open>incr\<close> and \<open>expire\<close> answer a command with a
  number or an error and the backend's new state. A reading of the clock is its exact rational
  value. SHA-256 is \<open>H\<close>. Logging is left out.
\<close>

section \<open>Constants and keys\<close>

definition AUTH_WINDOW_SECONDS :: nat where
  "AUTH_WINDOW_SECONDS = 15 * 60"

definition AUTH_MAX_ATTEMPTS :: nat where
  "AUTH_MAX_ATTEMPTS = 5"

definition rate_limit_subject :: "hash_fun \<Rightarrow> string option \<Rightarrow> string" where
  "rate_limit_subject H identifier =
     (let normalized = py_lower (py_strip (case identifier of Some s \<Rightarrow> s | None \<Rightarrow> []))
      in if normalized = [] then ''unknown'' else bytes_hex (H (utf8 normalized)))"

definition rate_key :: "hash_fun \<Rightarrow> string \<Rightarrow> string option \<Rightarrow> string option \<Rightarrow> string" where
  "rate_key H action client_host identifier =
     ''pilot:rate:'' @ action @ '':'' @ (case client_host of Some h \<Rightarrow> h | None \<Rightarrow> ''unknown'') @ '':'' @
     rate_limit_subject H identifier"

section \<open>The window in memory\<close>

type_synonym window_state = "string \<rightharpoonup> rat list"

definition prune :: "rat \<Rightarrow> window_state \<Rightarrow> window_state" where
  "prune cutoff st = (\<lambda>k. case st k of
     None \<Rightarrow> None
   | Some stamps \<Rightarrow> (let active = filter (\<lambda>stamp. stamp \<ge> cutoff) stamps
                    in if active = [] then None else Some active))"

definition enforce_in_memory_rate_limit :: "string \<Rightarrow> rat \<Rightarrow> window_state \<Rightarrow> bool \<times> window_state" where
  "enforce_in_memory_rate_limit key now st =
     (let st' = prune (now - of_nat AUTH_WINDOW_SECONDS) st;
          attempts = (case st' key of Some a \<Rightarrow> a | None \<Rightarrow> [])
      in if length attempts \<ge> AUTH_MAX_ATTEMPTS then (False, st') else (True, st'(key \<mapsto> attempts @ [now])))"

section \<open>The shared counter\<close>

type_synonym 's counter = "'s \<Rightarrow> string \<Rightarrow> (string + nat) \<times> 's"

definition backend_name :: "environ \<Rightarrow> string" where
  "backend_name env =
     (let setting = (\<lambda>n. py_strip (case env n of Some s \<Rightarrow> s | None \<Rightarrow> []))
      in if setting ''REDIS_URL'' \<noteq> [] then ''redis''
         else if setting ''UPSTASH_REDIS_REST_URL'' \<noteq> [] \<and> setting ''UPSTASH_REDIS_REST_TOKEN'' \<noteq> [] then ''upstash''
         else ''memory'')"

definition rate_limit_enterprise_ready :: "environ \<Rightarrow> bool" where
  "rate_limit_enterprise_ready env = (backend_name env \<in> {''redis'', ''upstash''})"

text \<open>\<open>Inr None\<close> when no backend is configured, \<open>Inl\<close> when a command fails.\<close>

definition distributed_attempts ::
  "'s counter \<Rightarrow> ('s \<Rightarrow> string \<Rightarrow> nat \<Rightarrow> (string + unit) \<times> 's) \<Rightarrow> environ \<Rightarrow> string \<Rightarrow> 's
     \<Rightarrow> (string + nat option) \<times> 's" where
  "distributed_attempts incr expire env key s =
     (if backend_name env = ''memory'' then (Inr None, s)
      else case incr s key of
          (Inl e, s1) \<Rightarrow> (Inl e, s1)
        | (Inr attempts, s1) \<Rightarrow>
            if attempts = 1 then
              (case expire s1 key AUTH_WINDOW_SECONDS of
                 (Inl e, s2) \<Rightarrow> (Inl e, s2)
               | (Inr _, s2) \<Rightarrow> (Inr (Some attempts), s2))
            else (Inr (Some attempts), s1))"

section \<open>The guard\<close>

datatype rate_outcome = Admitted | TooManyRequests | ServiceUnavailable

definition rate_production_like :: "environ \<Rightarrow> bool" where
  "rate_production_like env =
     (let mode = (case env ''APP_MODE'' of Some s \<Rightarrow> s | None \<Rightarrow> ''development'')
      in py_lower (py_strip (case env ''APP_ENV'' of Some s \<Rightarrow> s | None \<Rightarrow> mode)) \<in> {''production'', ''prod'', ''staging''})"

definition enforce_auth_rate_limit ::
  "'s counter \<Rightarrow> ('s \<Rightarrow> string \<Rightarrow> nat \<Rightarrow> (string + unit) \<times> 's) \<Rightarrow> environ \<Rightarrow> string \<Rightarrow> rat
     \<Rightarrow> 's \<times> window_state \<Rightarrow> rate_outcome \<times> 's \<times> window_state" where
  "enforce_auth_rate_limit incr expire env key now st =
     (let (answer, s') = distributed_attempts incr expire env key (fst st);
          in_memory = (let (ok, mem) = enforce_in_memory_rate_limit key now (snd st)
                       in (if ok then Admitted else TooManyRequests, s', mem))
      in case answer of
          Inr (Some attempts) \<Rightarrow> (if attempts > AUTH_MAX_ATTEMPTS then TooManyRequests else Admitted, s', snd st)
        | Inr None \<Rightarrow> if rate_production_like env then (ServiceUnavailable, s', snd st) else in_memory
        | Inl e \<Rightarrow> if rate_production_like env then (ServiceUnavailable, s', snd st) else in_memory)"

section \<open>Runs of the window\<close>

text \<open>The attempts of a run in order, each with its key, its time and whether it was admitted.\<close>

fun window_run :: "(string \<times> rat) list \<Rightarrow> window_state \<Rightarrow> (string \<times> rat \<times> bool) list" where
  "window_run [] st = []"
| "window_run ((key, now) # rest) st =
     (let (ok, st') = enforce_in_memory_rate_limit key now st in (key, now, ok) # window_run rest st')"

text \<open>The reference: the admitted attempts of a key since a time, counted over the whole history.\<close>

definition admitted_since :: "rat \<Rightarrow> string \<Rightarrow> (string \<times> rat \<times> bool) list \<Rightarrow> rat list" where
  "admitted_since cutoff key trace =
     map (\<lambda>(k, t, ok). t) (filter (\<lambda>(k, t, ok). k = key \<and> ok \<and> t \<ge> cutoff) trace)"

fun reference_run :: "(string \<times> rat) list \<Rightarrow> (string \<times> rat \<times> bool) list \<Rightarrow> (string \<times> rat \<times> bool) list" where
  "reference_run [] trace = trace"
| "reference_run ((key, now) # rest) trace =
     reference_run rest (trace @ [(key, now, length (admitted_since (now - of_nat AUTH_WINDOW_SECONDS) key trace)
        < AUTH_MAX_ATTEMPTS)])"

section \<open>Lemmas\<close>

text \<open>The state holds the admitted attempts since the last cutoff, and no empty entry.\<close>

definition window_inv :: "rat \<Rightarrow> (string \<times> rat \<times> bool) list \<Rightarrow> window_state \<Rightarrow> bool" where
  "window_inv cutoff trace st = (\<forall>k. (case st k of Some a \<Rightarrow> a | None \<Rightarrow> []) = admitted_since cutoff k trace \<and> st k \<noteq> Some [])"

lemma admitted_since_filter:
  "c \<le> c' \<Longrightarrow> filter (\<lambda>t. t \<ge> c') (admitted_since c k trace) = admitted_since c' k trace"
  unfolding admitted_since_def by (induction trace) auto

lemma admitted_since_snoc:
  "admitted_since c k (trace @ [(k', t, ok)]) = admitted_since c k trace @ (if k' = k \<and> ok \<and> t \<ge> c then [t] else [])"
  by (simp add: admitted_since_def)

lemma prune_inv:
  assumes "window_inv c trace st" and "c \<le> c'"
  shows "window_inv c' trace (prune c' st)"
  unfolding window_inv_def
proof
  fix k
  have "(case st k of Some a \<Rightarrow> a | None \<Rightarrow> []) = admitted_since c k trace" using assms(1) by (simp add: window_inv_def)
  then show "(case prune c' st k of Some a \<Rightarrow> a | None \<Rightarrow> []) = admitted_since c' k trace \<and> prune c' st k \<noteq> Some []"
    using admitted_since_filter [OF assms(2), of k trace] by (cases "st k") (auto simp: prune_def Let_def)
qed

lemma enforce_inv:
  assumes "window_inv c trace st" and "c \<le> now - of_nat AUTH_WINDOW_SECONDS"
  shows "fst (enforce_in_memory_rate_limit key now st) \<longleftrightarrow>
      length (admitted_since (now - of_nat AUTH_WINDOW_SECONDS) key trace) < AUTH_MAX_ATTEMPTS"
    and "window_inv (now - of_nat AUTH_WINDOW_SECONDS)
      (trace @ [(key, now, fst (enforce_in_memory_rate_limit key now st))]) (snd (enforce_in_memory_rate_limit key now st))"
proof -
  let ?c = "now - of_nat AUTH_WINDOW_SECONDS"
  have inv: "window_inv ?c trace (prune ?c st)" by (rule prune_inv [OF assms])
  then have key: "(case prune ?c st key of Some a \<Rightarrow> a | None \<Rightarrow> []) = admitted_since ?c key trace"
    by (simp add: window_inv_def)
  show adm: "fst (enforce_in_memory_rate_limit key now st) \<longleftrightarrow> length (admitted_since ?c key trace) < AUTH_MAX_ATTEMPTS"
    by (simp add: enforce_in_memory_rate_limit_def Let_def key not_less)
  show "window_inv ?c (trace @ [(key, now, fst (enforce_in_memory_rate_limit key now st))])
      (snd (enforce_in_memory_rate_limit key now st))"
    using inv by (simp add: window_inv_def admitted_since_snoc enforce_in_memory_rate_limit_def Let_def key)
qed

lemma window_run_reference:
  assumes "window_inv c trace st" and "sorted (map snd attempts)"
    and "\<forall>(k, t) \<in> set attempts. c \<le> t - of_nat AUTH_WINDOW_SECONDS"
  shows "trace @ window_run attempts st = reference_run attempts trace"
  using assms
proof (induction attempts arbitrary: c trace st)
  case (Cons e rest)
  obtain key now where e: "e = (key, now)" by fastforce
  let ?c = "now - of_nat AUTH_WINDOW_SECONDS" and ?ok = "fst (enforce_in_memory_rate_limit key now st)"
  have "c \<le> ?c" using Cons.prems(3) by (simp add: e)
  note step = enforce_inv [OF Cons.prems(1) this, of key]
  have "trace @ [(key, now, ?ok)] @ window_run rest (snd (enforce_in_memory_rate_limit key now st)) =
      reference_run rest (trace @ [(key, now, ?ok)])"
    using Cons.IH [OF step(2)] Cons.prems(2) by (force simp: e)
  then show ?case by (simp add: e split_beta step(1))
qed simp

lemma window_run_empty:
  assumes "sorted (map snd attempts)"
  shows "window_run attempts Map.empty = reference_run attempts []"
proof (cases attempts)
  case (Cons e rest)
  have "window_inv (snd e - of_nat AUTH_WINDOW_SECONDS) [] Map.empty" by (simp add: window_inv_def admitted_since_def)
  moreover have "\<forall>(k, t) \<in> set attempts. snd e - of_nat AUTH_WINDOW_SECONDS \<le> t - of_nat AUTH_WINDOW_SECONDS"
    using assms Cons by (cases e) auto
  ultimately show ?thesis using window_run_reference [of _ "[]" Map.empty attempts] assms by simp
qed simp

lemma reference_run_append: "reference_run (xs @ ys) trace = reference_run ys (reference_run xs trace)"
  by (induction xs trace rule: reference_run.induct) simp_all

lemma reference_run_times: "map (\<lambda>(k, t, ok). (k, t)) (reference_run xs trace) = map (\<lambda>(k, t, ok). (k, t)) trace @ xs"
  by (induction xs trace rule: reference_run.induct) simp_all

definition admitted_in_window :: "rat \<Rightarrow> string \<Rightarrow> (string \<times> rat \<times> bool) list \<Rightarrow> nat" where
  "admitted_in_window t key trace =
     length (filter (\<lambda>x. x \<le> t) (admitted_since (t - of_nat AUTH_WINDOW_SECONDS) key trace))"

lemma reference_window_bound:
  assumes "sorted (map snd attempts)"
  shows "admitted_in_window t key (reference_run attempts []) \<le> AUTH_MAX_ATTEMPTS"
  using assms
proof (induction attempts arbitrary: t rule: rev_induct)
  case Nil
  show ?case by (simp add: admitted_in_window_def admitted_since_def)
next
  case (snoc e attempts)
  obtain k now where e: "e = (k, now)" by fastforce
  let ?tr = "reference_run attempts []"
  let ?c = "\<lambda>t. t - of_nat AUTH_WINDOW_SECONDS"
  have IH: "admitted_in_window t key ?tr \<le> AUTH_MAX_ATTEMPTS" for t using snoc by (simp add: sorted_append)
  have run: "reference_run (attempts @ [e]) [] = ?tr @ [(k, now, length (admitted_since (?c now) k ?tr) < AUTH_MAX_ATTEMPTS)]"
    by (simp add: reference_run_append e)
  show ?case
  proof (cases "now \<le> t \<and> k = key \<and> length (admitted_since (?c now) k ?tr) < AUTH_MAX_ATTEMPTS \<and> now \<ge> ?c t")
    case False
    then have "admitted_in_window t key (reference_run (attempts @ [e]) []) = admitted_in_window t key ?tr"
      unfolding run by (auto simp: admitted_in_window_def admitted_since_snoc)
    then show ?thesis using IH by simp
  next
    case True
    have "filter (\<lambda>x. x \<le> t) (admitted_since (?c t) key ?tr) = filter (\<lambda>x. x \<le> t) (filter (\<lambda>x. x \<ge> ?c t) (admitted_since (?c now) key ?tr))"
      using admitted_since_filter [of "?c now" "?c t" key ?tr] True by simp
    then have "length (filter (\<lambda>x. x \<le> t) (admitted_since (?c t) key ?tr)) \<le> length (admitted_since (?c now) key ?tr)"
      by (metis length_filter_le le_trans)
    then show ?thesis
      using True unfolding run by (auto simp: admitted_in_window_def admitted_since_snoc)
  qed
qed

section \<open>Properties\<close>

text \<open>
  C21. The pruned window is exact and bounds every window. With a clock that does not go back,
  the limiter that forgets expired attempts decides every attempt as one that counts over the
  whole history would, and no interval of fifteen minutes, wherever it lies, holds more than five
  admitted attempts of a key.
\<close>

theorem window_limiter_exact:
  assumes "sorted (map snd attempts)"
  shows "window_run attempts Map.empty = reference_run attempts [] \<and>
    admitted_in_window t key (window_run attempts Map.empty) \<le> AUTH_MAX_ATTEMPTS"
  using window_run_empty [OF assms] reference_window_bound [OF assms] by simp

theorem window_limiter_exact_witness:
  "admitted_in_window 900 ''k'' (window_run [(''k'', 0), (''j'', 1), (''k'', 1)] Map.empty) \<le> 5"
proof -
  have "sorted (map snd [(''k'', 0 :: rat), (''j'', 1), (''k'', 1)])" by simp
  from window_limiter_exact [OF this, of 900 "''k''"] show ?thesis unfolding AUTH_MAX_ATTEMPTS_def by blast
qed

text \<open>
  Nobody is locked out for good. However many attempts a key made, once the window has
  passed since its last one the next attempt is admitted, whatever the other keys do.
\<close>

theorem window_limiter_recovers:
  assumes "sorted (map snd (attempts @ [(key, now)]))"
    and "\<forall>(k, t) \<in> set attempts. k = key \<longrightarrow> t < now - of_nat AUTH_WINDOW_SECONDS"
  shows "last (window_run (attempts @ [(key, now)]) Map.empty) = (key, now, True)"
proof -
  let ?tr = "reference_run attempts []"
  have "admitted_since (now - of_nat AUTH_WINDOW_SECONDS) key ?tr = []"
  proof -
    have "t < now - of_nat AUTH_WINDOW_SECONDS" if "(key, t, ok) \<in> set ?tr" for t ok
    proof -
      have "(key, t) \<in> set (map (\<lambda>(k, t, ok). (k, t)) ?tr)" using that by force
      then show ?thesis using assms(2) unfolding reference_run_times by auto
    qed
    then show ?thesis by (fastforce simp: admitted_since_def filter_empty_conv)
  qed
  then show ?thesis
    using window_run_empty [OF assms(1)] by (simp add: reference_run_append AUTH_MAX_ATTEMPTS_def)
qed

theorem window_limiter_recovers_witness:
  "last (window_run (replicate 6 (''k'', 0) @ [(''k'', 901)]) Map.empty) = (''k'', 901, True)"
  using window_limiter_recovers [of "replicate 6 (''k'', 0)" "''k''" 901]
  by (simp add: AUTH_WINDOW_SECONDS_def sorted_append)

text \<open>
  C22. Production fails closed. In a production-like deployment an attempt is admitted only when
  the shared backend counted it and the count is at most five; an unconfigured or a failing
  backend never admits, and the window in memory is not consulted.
\<close>

theorem production_limit_fails_closed:
  assumes "rate_production_like env"
    and "enforce_auth_rate_limit incr expire env key now st = (outcome, s', mem)"
  shows "mem = snd st \<and> (outcome = Admitted \<longleftrightarrow>
    (\<exists>n. fst (distributed_attempts incr expire env key (fst st)) = Inr (Some n) \<and> n \<le> AUTH_MAX_ATTEMPTS))"
  using assms by (cases "fst (distributed_attempts incr expire env key (fst st))")
    (auto simp: enforce_auth_rate_limit_def split_beta Let_def split: option.splits if_splits)

definition shared_env :: environ where
  "shared_env = map_of [(''APP_ENV'', ''production''), (''REDIS_URL'', ''r'')]"

theorem production_limit_fails_closed_witness:
  "enforce_auth_rate_limit (\<lambda>s k. (Inl ''down'', s)) (\<lambda>s k n. (Inr (), s))
     shared_env ''k'' 0 ((), Map.empty) = (ServiceUnavailable, (), Map.empty)"
proof -
  let ?incr = "\<lambda>s k. (Inl ''down'', s)" and ?expire = "\<lambda>s k n. (Inr (), s)"
  have env: "rate_production_like shared_env" "backend_name shared_env = ''redis''" by code_simp+
  obtain outcome s' mem where run: "enforce_auth_rate_limit ?incr ?expire shared_env ''k'' 0 ((), Map.empty) = (outcome, s', mem)"
    by (metis prod_cases3)
  have "fst (distributed_attempts ?incr ?expire shared_env ''k'' ()) = Inl ''down''"
    by (simp add: distributed_attempts_def env)
  then have "outcome \<noteq> Admitted" and "mem = Map.empty"
    using production_limit_fails_closed [OF env(1) run] by simp_all
  moreover have "outcome \<noteq> TooManyRequests"
    using run by (auto simp: enforce_auth_rate_limit_def distributed_attempts_def env)
  ultimately show ?thesis using run by (cases outcome) auto
qed

text \<open>
  The expiry of the shared counter is set by the first attempt only. When that command fails the
  counter has no expiry and no later attempt sets one, so the key is refused for good once the
  counter has passed five.
\<close>

lemma expiry_only_on_first_attempt:
  assumes "backend_name env \<noteq> ''memory''" and "incr s key = (Inr n, s1)" and "n \<noteq> 1"
  shows "distributed_attempts incr expire env key s = (Inr (Some n), s1)"
  using assms by (simp add: distributed_attempts_def)

end
