(* ===== verification/Abi_Words.thy ===== *)
theory Abi_Words
  imports Canonical_JSON
begin

text \<open>
  The words of an Ethereum log, the low-level helpers of
  \<open>services/api/app/domains/external_watchlist/abi.py\<close>: hexadecimal integers as Python's
  \<open>int(text, 16)\<close> reads them, the 32-byte words of the data, addresses and signed values.

  A helper that can raise returns an option; a list is indexed as Python does, negative indexes
  included. The encoder that the round trips are stated for is the one of the contract ABI.
\<close>

section \<open>Hexadecimal integers\<close>

definition hex_char :: "char \<Rightarrow> bool" where
  "hex_char c = (let n = of_char c :: nat in
     48 \<le> n \<and> n \<le> 57 \<or> 97 \<le> n \<and> n \<le> 102 \<or> 65 \<le> n \<and> n \<le> 70)"

definition hex_char_val :: "char \<Rightarrow> nat" where
  "hex_char_val c = (let n = of_char c in if n < 58 then n - 48 else if n < 71 then n - 55 else n - 87)"

definition hex_val :: "string \<Rightarrow> nat" where
  "hex_val s = foldl (\<lambda>acc c. 16 * acc + hex_char_val c) 0 s"

fun hex_with_underscores :: "string \<Rightarrow> bool" where
  "hex_with_underscores [] = False"
| "hex_with_underscores [c] = hex_char c"
| "hex_with_underscores (c # d # cs) =
     (hex_char c \<and> (if d = CHR ''_'' then hex_with_underscores cs else hex_with_underscores (d # cs)))"

text \<open>The optional \<open>0x\<close>, after which one underscore may stand.\<close>

definition drop_prefix16 :: "string \<Rightarrow> string" where
  "drop_prefix16 s =
     (if take 2 s = ''0x'' \<or> take 2 s = ''0X''
      then (if take 1 (drop 2 s) = ''_'' then drop 3 s else drop 2 s) else s)"

definition py_int16_nat :: "string \<Rightarrow> nat option" where
  "py_int16_nat s = (let t = drop_prefix16 s in
     if hex_with_underscores t then Some (hex_val (filter (\<lambda>c. c \<noteq> CHR ''_'') t)) else None)"

text \<open>\<open>int(text, 16)\<close>; \<open>None\<close> is \<open>ValueError\<close>.\<close>

definition py_int16 :: "string \<Rightarrow> int option" where
  "py_int16 s = (case int_strip s of
       [] \<Rightarrow> None
     | c # cs \<Rightarrow>
         if c = CHR ''-'' then map_option (\<lambda>n. - int n) (py_int16_nat cs)
         else if c = CHR ''+'' then map_option int (py_int16_nat cs)
         else map_option int (py_int16_nat (c # cs)))"

text \<open>\<open>str(n)\<close>, which raises beyond 4300 digits, the interpreter's default limit.\<close>

definition MAX_STR_DIGITS :: nat where "MAX_STR_DIGITS = 4300"

definition int_text :: "int \<Rightarrow> string option" where
  "int_text i = (if length (str_nat (nat \<bar>i\<bar>)) > MAX_STR_DIGITS then None else Some (str_int i))"

section \<open>Words, topics and addresses\<close>

text \<open>\<open>xs[i]\<close>; \<open>None\<close> is \<open>IndexError\<close>.\<close>

definition py_index :: "'a list \<Rightarrow> int \<Rightarrow> 'a option" where
  "py_index xs i = (let n = int (length xs) in
     if 0 \<le> i \<and> i < n then Some (xs ! nat i)
     else if - n \<le> i \<and> i < 0 then Some (xs ! nat (n + i)) else None)"

definition normalize_address :: "pyval \<Rightarrow> string option" where
  "normalize_address value = (let t = lower_key value in
     if length t = 42 \<and> take 2 t = ''0x'' \<and> list_all is_hex (drop 2 t) then Some t else None)"

definition is_word32 :: "string \<Rightarrow> bool" where
  "is_word32 t = (length t = 66 \<and> take 2 t = ''0x'' \<and> list_all is_hex (drop 2 t))"

function chunks64 :: "string \<Rightarrow> string list" where
  "chunks64 s = (if length s < 64 then [] else take 64 s # chunks64 (drop 64 s))"
  by auto
termination by (relation "measure length") auto

declare chunks64.simps [simp del]

text \<open>The words of the data; a last incomplete one is cut off.\<close>

definition data_words :: "pyval \<Rightarrow> string list" where
  "data_words data = (let t = lower_key data in chunks64 (if take 2 t = ''0x'' then drop 2 t else t))"

definition word_to_address :: "string \<Rightarrow> string" where
  "word_to_address w = ''0x'' @ py_lower (drop (length w - 40) w)"

definition word_to_uint :: "string \<Rightarrow> int option" where
  "word_to_uint w = py_int16 w"

definition word_to_int256 :: "string \<Rightarrow> int option" where
  "word_to_int256 w = map_option (\<lambda>v. if v \<ge> 2 ^ 255 then v - 2 ^ 256 else v) (py_int16 w)"

definition padded_address_topic :: "string \<Rightarrow> string" where
  "padded_address_topic address = ''0x'' @ replicate 24 (CHR ''0'') @ drop 2 address"

section \<open>The encoder\<close>

fun hex_word :: "nat \<Rightarrow> nat \<Rightarrow> string" where
  "hex_word 0 n = []"
| "hex_word (Suc k) n = hex_word k (n div 16) @ [hex_digit (n mod 16)]"

definition uint_word :: "nat \<Rightarrow> string" where
  "uint_word n = hex_word 64 n"

definition int256_word :: "int \<Rightarrow> string" where
  "int256_word i = uint_word (nat (i mod 2 ^ 256))"

definition address_word :: "string \<Rightarrow> string" where
  "address_word a = drop 2 (padded_address_topic a)"

definition is_address :: "string \<Rightarrow> bool" where
  "is_address a = (length a = 42 \<and> take 2 a = ''0x'' \<and> list_all is_hex (drop 2 a))"

section \<open>Lemmas\<close>

lemma hex_word_length [simp]: "length (hex_word k n) = k"
  by (induction k arbitrary: n) auto

lemma is_hex_digit: "n < 16 \<Longrightarrow> is_hex (hex_digit n)"
proof -
  assume "n < 16"
  moreover have "list_all (\<lambda>n. is_hex (hex_digit n)) [0..<16]" by code_simp
  ultimately show ?thesis by (simp add: list_all_iff)
qed

lemma hex_word_hex [simp]: "list_all is_hex (hex_word k n)"
  by (induction k arbitrary: n) (auto simp: is_hex_digit)

lemma hex_char_val_digit: "n < 16 \<Longrightarrow> hex_char_val (hex_digit n) = n"
  by (auto simp: hex_char_val_def hex_digit_def Let_def)

lemma hex_val_snoc: "hex_val (s @ [c]) = 16 * hex_val s + hex_char_val c"
  by (simp add: hex_val_def)

lemma hex_val_word: "hex_val (hex_word k n) = n mod 16 ^ k"
proof (induction k arbitrary: n)
  case (Suc k)
  have "n mod (16 ^ k * 16) = 16 * (n div 16 mod 16 ^ k) + n mod 16"
    by (metis mod_mult2_eq mult.commute)
  with Suc show ?case by (simp add: hex_val_snoc hex_char_val_digit mult.commute)
qed (simp add: hex_val_def)

lemma is_hex_char: "is_hex c \<Longrightarrow> hex_char c \<and> c \<noteq> CHR ''_'' \<and> c \<noteq> CHR ''x'' \<and> c \<noteq> CHR ''X'' \<and>
    c \<noteq> CHR ''-'' \<and> c \<noteq> CHR ''+'' \<and> \<not> int_space c \<and> \<not> py_space c \<and> lower_char c = c"
proof -
  assume "is_hex c"
  moreover have "list_all (\<lambda>c. hex_char c \<and> c \<noteq> CHR ''_'' \<and> c \<noteq> CHR ''x'' \<and> c \<noteq> CHR ''X'' \<and>
    c \<noteq> CHR ''-'' \<and> c \<noteq> CHR ''+'' \<and> \<not> int_space c \<and> \<not> py_space c \<and> lower_char c = c) ''0123456789abcdef''"
    by code_simp
  ultimately show ?thesis unfolding list_all_iff is_hex_def by blast
qed

lemma hex_plain:
  assumes "list_all is_hex s" and "s \<noteq> []"
  shows "hex_with_underscores s" and "filter (\<lambda>c. c \<noteq> CHR ''_'') s = s" and "drop_prefix16 s = s" and "int_strip s = s"
proof -
  have hex: "is_hex c" if "c \<in> set s" for c using assms(1) that by (simp add: list_all_iff)
  show "hex_with_underscores s"
    using assms
  proof (induction s rule: hex_with_underscores.induct)
    case (3 c d cs)
    then show ?case using is_hex_char [of c] is_hex_char [of d] by simp
  qed (use is_hex_char in auto)
  show "filter (\<lambda>c. c \<noteq> CHR ''_'') s = s"
    using hex is_hex_char by (auto simp: filter_id_conv)
  have "s ! 1 \<noteq> CHR ''x'' \<and> s ! 1 \<noteq> CHR ''X''" if "length s > 1"
    using hex [of "s ! 1"] is_hex_char that by (metis nth_mem One_nat_def)
  then show "drop_prefix16 s = s"
    by (cases s; cases "tl s") (simp_all add: drop_prefix16_def)
  have "dropWhile int_space s = s"
    using assms(2) hex is_hex_char by (intro dropWhile_id) (auto intro: hd_in_set)
  moreover have "dropWhile int_space (rev s) = rev s"
    using assms(2) hex is_hex_char by (intro dropWhile_id) (auto simp: hd_rev)
  ultimately show "int_strip s = s" by (simp add: int_strip_def)
qed

lemma py_int16_hex:
  assumes "list_all is_hex s" and "s \<noteq> []"
  shows "py_int16 s = Some (int (hex_val s))"
proof -
  obtain c cs where s: "s = c # cs" using assms(2) by (cases s) auto
  with assms(1) is_hex_char [of c] have "c \<noteq> CHR ''-''" "c \<noteq> CHR ''+''" by auto
  then show ?thesis
    using hex_plain [OF assms] by (simp add: py_int16_def py_int16_nat_def Let_def s)
qed

lemma word_to_uint_word: "n < 2 ^ 256 \<Longrightarrow> word_to_uint (uint_word n) = Some (int n)"
proof -
  assume n: "n < 2 ^ 256"
  have "(16 :: nat) ^ 64 = 2 ^ 256" by simp
  with n have "hex_val (hex_word 64 n) = n" by (simp add: hex_val_word)
  moreover have "hex_word 64 n \<noteq> []" using hex_word_length [of 64 n] by (metis length_0_conv zero_neq_numeral)
  ultimately show ?thesis by (simp add: word_to_uint_def uint_word_def py_int16_hex)
qed

lemma word_to_int256_word:
  assumes "- (2 ^ 255) \<le> i" and "i < 2 ^ 255"
  shows "word_to_int256 (int256_word i) = Some i"
proof -
  have "nat (i mod 2 ^ 256) < 2 ^ 256" by (simp add: nat_less_iff)
  from word_to_uint_word [OF this] have u: "py_int16 (int256_word i) = Some (i mod 2 ^ 256)"
    by (simp add: word_to_uint_def int256_word_def)
  have "i mod 2 ^ 256 = (if i < 0 then i + 2 ^ 256 else i)"
  proof (cases "i < 0")
    case True
    have "i mod 2 ^ 256 = (i + 2 ^ 256) mod 2 ^ 256" by simp
    also have "\<dots> = i + 2 ^ 256" using assms True by (intro mod_pos_pos_trivial) auto
    finally show ?thesis using True by simp
  next
    case False
    then show ?thesis using assms by (simp add: mod_pos_pos_trivial)
  qed
  with assms show ?thesis by (auto simp: word_to_int256_def u)
qed

lemma py_lower_hex: "list_all is_hex s \<Longrightarrow> py_lower s = s"
  by (induction s) (auto simp: py_lower_def dest: is_hex_char)

lemma address_word_props:
  assumes "is_address a"
  shows "length (address_word a) = 64" and "list_all is_hex (address_word a)"
    and "word_to_address (address_word a) = a"
proof -
  have a: "''0x'' @ drop 2 a = a" using assms by (metis append_take_drop_id is_address_def)
  have z: "is_hex (CHR ''0'')" by (simp add: is_hex_def)
  show len: "length (address_word a) = 64" using assms by (simp add: address_word_def padded_address_topic_def is_address_def)
  show "list_all is_hex (address_word a)"
    using assms z by (simp add: address_word_def padded_address_topic_def is_address_def list_all_iff)
  show "word_to_address (address_word a) = a"
    using assms a by (simp add: word_to_address_def len)
      (simp add: address_word_def padded_address_topic_def is_address_def py_lower_hex)
qed

text \<open>The words of well-formed data are the ones that were written.\<close>

definition word_ok :: "string \<Rightarrow> bool" where
  "word_ok w = (length w = 64 \<and> list_all is_hex w)"

lemma word_ok_simps [simp]: "word_ok (uint_word n)" "word_ok (int256_word i)" "is_address a \<Longrightarrow> word_ok (address_word a)"
  by (simp_all add: word_ok_def uint_word_def int256_word_def address_word_props)

lemma chunks64_concat: "list_all (\<lambda>w. length w = 64) ws \<Longrightarrow> chunks64 (concat ws) = ws"
  by (induction ws) (simp_all add: chunks64.simps)

lemma prefixed_hex_key: "list_all is_hex s \<Longrightarrow> lower_key (PStr (''0x'' @ s)) = ''0x'' @ s"
proof -
  assume s: "list_all is_hex s"
  have "\<not> py_space (CHR ''0'')" "\<not> py_space (CHR ''x'')" by code_simp+
  moreover have "\<not> py_space c" if "c \<in> set s" for c using s that is_hex_char by (auto simp: list_all_iff)
  ultimately have "py_strip (''0x'' @ s) = ''0x'' @ s"
    by (intro py_strip_id) (cases s rule: rev_cases; simp)
  moreover have "py_lower (''0x'' @ s) = ''0x'' @ s"
  proof -
    have "py_lower ''0x'' = ''0x''" by code_simp
    then show ?thesis using py_lower_hex [OF s] by (simp add: py_lower_def)
  qed
  ultimately show ?thesis by (simp add: lower_key_def)
qed

lemma data_words_concat:
  assumes "list_all word_ok ws"
  shows "data_words (PStr (''0x'' @ concat ws)) = ws"
proof -
  have "list_all is_hex (concat ws)" "list_all (\<lambda>w. length w = 64) ws"
    using assms by (auto simp: list_all_iff word_ok_def)
  from prefixed_hex_key [OF this(1)] chunks64_concat [OF this(2)] show ?thesis
    by (simp add: data_words_def)
qed

lemma normalize_address_valid: "is_address a \<Longrightarrow> normalize_address (PStr a) = Some a"
proof -
  assume a: "is_address a"
  then have "a = ''0x'' @ drop 2 a" by (metis append_take_drop_id is_address_def)
  with a prefixed_hex_key [of "drop 2 a"] have "lower_key (PStr a) = a" by (simp add: is_address_def)
  then show ?thesis using a by (simp add: normalize_address_def is_address_def)
qed

lemma normalize_address_is: "normalize_address v = Some a \<Longrightarrow> is_address a"
  by (auto simp: normalize_address_def is_address_def Let_def split: if_splits)

end
