(* ===== verification/External_Logs.thy ===== *)
theory External_Logs
  imports Abi_Words Entitlements "HOL-Library.Monad_Syntax"
begin

text \<open>
  The event catalogue and the log decoder of the external watchlist,
  \<open>services/api/app/domains/external_watchlist/abi.py\<close>, and the log filters it asks a node for.

  A log is the JSON object a node returns: its scalar fields are values, its topics a list of
  values (absent and null read as the empty list). A decoder that raises returns \<open>None\<close>. SHA-256
  is the parameter \<open>H\<close>; a block time is the number of seconds since the epoch, and the last
  second of the year 9999 is the largest one \<open>datetime\<close> holds.
\<close>

section \<open>The catalogue\<close>

definition ZERO_WORD :: string where
  "ZERO_WORD = ''0x'' @ replicate 64 (CHR ''0'')"

definition TOPIC_ROLE_GRANTED :: string where
  "TOPIC_ROLE_GRANTED = ''0x2f8788117e7eff1d82e926ec794901d17c78024a50270940304540a733656f0d''"

definition TOPIC_ROLE_REVOKED :: string where
  "TOPIC_ROLE_REVOKED = ''0xf6391f5c32d9c69d2a47ea670b442974b53935d1edc7fd64eb21e047a839171b''"

definition TOPIC_ROLE_ADMIN_CHANGED :: string where
  "TOPIC_ROLE_ADMIN_CHANGED = ''0xbd79b86ffe0ab8e8776151514217cd7cacd52c909f66475c3af44e129f0b00ff''"

definition TOPIC_OWNERSHIP_TRANSFERRED :: string where
  "TOPIC_OWNERSHIP_TRANSFERRED = ''0x8be0079c531659141344cd1fd0a4f28419497f9722a3daafe3b4186f6b6457e0''"

definition TOPIC_OWNERSHIP_TRANSFER_STARTED :: string where
  "TOPIC_OWNERSHIP_TRANSFER_STARTED = ''0x38d16b8cac22d99fc7c124b9cd0de2d3fa1faef420bfe791d8c362d765e22700''"

definition TOPIC_UPGRADED :: string where
  "TOPIC_UPGRADED = ''0xbc7cd75a20ee27fd9adebab32041f755214dbc6bffa90cc0225b39da2e5c2d3b''"

definition TOPIC_ADMIN_CHANGED :: string where
  "TOPIC_ADMIN_CHANGED = ''0x7e644d79422f17c01e4894b5f4f588d331ebfa28653d42ae832dc59e38c9798f''"

definition TOPIC_BEACON_UPGRADED :: string where
  "TOPIC_BEACON_UPGRADED = ''0x1cf3b03a6cf19fa2baba4df148e9dcabedea7f8a5c07840e207e5c089be95d3e''"

definition TOPIC_DIAMOND_CUT :: string where
  "TOPIC_DIAMOND_CUT = ''0x8faa70878671ccd212d20771b795c50af8fd3ff6cf27f4bde57e5d4de0aeb673''"

definition TOPIC_PAUSED :: string where
  "TOPIC_PAUSED = ''0x62e78cea01bee320cd4e420270b5ea74000d11b0c9f74754ebdbfc544b05a258''"

definition TOPIC_UNPAUSED :: string where
  "TOPIC_UNPAUSED = ''0x5db9ee0a495bf2e6ff9c91a7834c1ba4fdd244a5e8aa4e537bd38aeae4b073aa''"

definition TOPIC_TRANSFER :: string where
  "TOPIC_TRANSFER = ''0xddf252ad1be2c89b69c2b068fc378daa952ba7f163c4a11628f55a4df523b3ef''"

definition TOPIC_SAFE_ADDED_OWNER :: string where
  "TOPIC_SAFE_ADDED_OWNER = ''0x9465fa0c962cc76958e6373a993326400c1c94f8be2fe3a952adfa7f60b2ea26''"

definition TOPIC_SAFE_REMOVED_OWNER :: string where
  "TOPIC_SAFE_REMOVED_OWNER = ''0xf8d49fc529812e9a7c5c50e69c20f0dccc0db8fa95c98bc58cc9a4f1c1299eaf''"

definition TOPIC_SAFE_CHANGED_THRESHOLD :: string where
  "TOPIC_SAFE_CHANGED_THRESHOLD = ''0x610f7ff2b304ae8903c3de74c60c6ab1f7d6226b3f52c5161905bb5ad4039c93''"

definition TOPIC_SAFE_ENABLED_MODULE :: string where
  "TOPIC_SAFE_ENABLED_MODULE = ''0xecdf3a3effea5783a3c4c2140e677577666428d44ed9d474a0b3a4c9943f8440''"

definition TOPIC_SAFE_DISABLED_MODULE :: string where
  "TOPIC_SAFE_DISABLED_MODULE = ''0xaab4fa2b463f581b2b32cb3b7e3b704b9ce37cc209b5fb4d77e593ace4054276''"

definition TOPIC_SAFE_CHANGED_GUARD :: string where
  "TOPIC_SAFE_CHANGED_GUARD = ''0x1151116914515bc0891ff9047a6cb32cf902546f83066499bcf8ba33d2353fa2''"

definition TOPIC_SAFE_CHANGED_FALLBACK_HANDLER :: string where
  "TOPIC_SAFE_CHANGED_FALLBACK_HANDLER = ''0x5ac6c46c93c8d0e53714ba3b53db3e7c046da994313d7ed0d192028bc7c228b0''"

definition TOPIC_SAFE_CHANGED_MASTER_COPY :: string where
  "TOPIC_SAFE_CHANGED_MASTER_COPY = ''0x75e41bc35ff1bf14d81d1d2f649c0084a0f974f9289c803ec9898eeec4c8d0b8''"

definition TOPIC_ANSWER_UPDATED :: string where
  "TOPIC_ANSWER_UPDATED = ''0x0559884fd3a460db3073b7fc896cc77986f16e378210ded43186175bf646fc5f''"

definition ROLE_LABELS :: "(string \<times> string) list" where
  "ROLE_LABELS =
    [(ZERO_WORD, ''DEFAULT_ADMIN_ROLE''),
     (''0x9f2df0fed2c77648de5860a4cc508cd0818c85b8b8a1ab4ceeef8d981c8956a6'', ''MINTER_ROLE''),
     (''0x65d7a28e3265b37a6474929f336521b332c1681b933f6cb9f3376673440d862a'', ''PAUSER_ROLE''),
     (''0x3c11d16cbaffd01df69ce1c404f6340ee057498f5f00246190ea54220576a848'', ''BURNER_ROLE''),
     (''0x189ab7a9244df0848122154315af71fe140f3db0fe014031783b0946b8c9d2e3'', ''UPGRADER_ROLE''),
     (''0x97667070c54ef182b0f5858b034beac1b6f3089aa2d3188bb1e8929f4fa9b929'', ''OPERATOR_ROLE''),
     (''0xa49807205ce4d355092ef5a8a18f56e8913cf4a201fbe287825b095693c21775'', ''ADMIN_ROLE''),
     (''0x241ecf16d79d0f8dbfb92cbc07fe17840425976cf0667f022fe9877caa831b08'', ''MANAGER_ROLE''),
     (''0x68e79a7bf1e0bc45d0a330c573bc367f9cf464fd326078812f301165fbda4ef1'', ''ORACLE_ROLE''),
     (''0x442a94f1a1fac79af32856af2a64f63648cfa2ef3b98610a5bb7cbec4cee6985'', ''COMPLIANCE_ROLE''),
     (''0x92de27771f92d6942691d73358b3a4673e4880de8356f8f2cf452be87e02d363'', ''FREEZER_ROLE''),
     (''0xcf6f9f892731e14b8859835f2ff35575f447fb501f46243c4eb8bac19e31a050'', ''RESCUER_ROLE''),
     (''0x98db8a220cd0f09badce9f22d0ba7e93edb3d404448cc3560d391ab096ad16e9'', ''BLACKLISTER_ROLE'')]"

record event_spec =
  es_name :: string
  es_signature :: string
  es_topic0 :: string
  es_event_type :: string
  es_category :: string
  es_profiles :: "string list"
  es_emitter_types :: "string list"

definition mk_spec :: "string \<Rightarrow> string \<Rightarrow> string \<Rightarrow> string \<Rightarrow> string \<Rightarrow> string list \<Rightarrow> string list \<Rightarrow> event_spec" where
  "mk_spec n sig t ev cat ps es = \<lparr>es_name = n, es_signature = sig, es_topic0 = t, es_event_type = ev,
     es_category = cat, es_profiles = ps, es_emitter_types = es\<rparr>"

definition EVENT_SPECS :: "event_spec list" where
  "EVENT_SPECS =
    [mk_spec ''RoleGranted'' ''RoleGranted(bytes32,address,address)'' TOPIC_ROLE_GRANTED ''role_granted'' ''access_control'' [''privileged_role_changes''] [''contract'', ''oracle''],
     mk_spec ''RoleRevoked'' ''RoleRevoked(bytes32,address,address)'' TOPIC_ROLE_REVOKED ''role_revoked'' ''access_control'' [''privileged_role_changes''] [''contract'', ''oracle''],
     mk_spec ''RoleAdminChanged'' ''RoleAdminChanged(bytes32,bytes32,bytes32)'' TOPIC_ROLE_ADMIN_CHANGED ''config_changed'' ''access_control'' [''privileged_role_changes''] [''contract'', ''oracle''],
     mk_spec ''OwnershipTransferred'' ''OwnershipTransferred(address,address)'' TOPIC_OWNERSHIP_TRANSFERRED ''ownership_transferred'' ''access_control'' [''ownership_changes''] [''contract'', ''oracle''],
     mk_spec ''OwnershipTransferStarted'' ''OwnershipTransferStarted(address,address)'' TOPIC_OWNERSHIP_TRANSFER_STARTED ''owner_changed'' ''access_control'' [''ownership_changes''] [''contract'', ''oracle''],
     mk_spec ''Upgraded'' ''Upgraded(address)'' TOPIC_UPGRADED ''implementation_upgraded'' ''upgradeability'' [''contract_upgrades''] [''contract'', ''oracle''],
     mk_spec ''BeaconUpgraded'' ''BeaconUpgraded(address)'' TOPIC_BEACON_UPGRADED ''proxy_upgraded'' ''upgradeability'' [''contract_upgrades''] [''contract'', ''oracle''],
     mk_spec ''DiamondCut'' ''DiamondCut((address,uint8,bytes4[])[],address,bytes)'' TOPIC_DIAMOND_CUT ''upgraded'' ''upgradeability'' [''contract_upgrades''] [''contract''],
     mk_spec ''AdminChanged'' ''AdminChanged(address,address)'' TOPIC_ADMIN_CHANGED ''admin_changed'' ''upgradeability'' [''proxy_admin_changes''] [''contract'', ''oracle''],
     mk_spec ''Paused'' ''Paused(address)'' TOPIC_PAUSED ''paused'' ''emergency_control'' [''pause_unpause''] [''contract''],
     mk_spec ''Unpaused'' ''Unpaused(address)'' TOPIC_UNPAUSED ''unpaused'' ''emergency_control'' [''pause_unpause''] [''contract''],
     mk_spec ''Transfer'' ''Transfer(address,address,uint256)'' TOPIC_TRANSFER ''erc20_transfer'' ''token_operation'' [''mint_burn'', ''large_transfers''] [''contract''],
     mk_spec ''AddedOwner'' ''AddedOwner(address)'' TOPIC_SAFE_ADDED_OWNER ''owner_changed'' ''multisig'' [''multisig_configuration''] [''multisig''],
     mk_spec ''RemovedOwner'' ''RemovedOwner(address)'' TOPIC_SAFE_REMOVED_OWNER ''owner_changed'' ''multisig'' [''multisig_configuration''] [''multisig''],
     mk_spec ''ChangedThreshold'' ''ChangedThreshold(uint256)'' TOPIC_SAFE_CHANGED_THRESHOLD ''config_changed'' ''multisig'' [''multisig_configuration''] [''multisig''],
     mk_spec ''EnabledModule'' ''EnabledModule(address)'' TOPIC_SAFE_ENABLED_MODULE ''config_changed'' ''multisig'' [''multisig_configuration''] [''multisig''],
     mk_spec ''DisabledModule'' ''DisabledModule(address)'' TOPIC_SAFE_DISABLED_MODULE ''config_changed'' ''multisig'' [''multisig_configuration''] [''multisig''],
     mk_spec ''ChangedGuard'' ''ChangedGuard(address)'' TOPIC_SAFE_CHANGED_GUARD ''config_changed'' ''multisig'' [''multisig_configuration''] [''multisig''],
     mk_spec ''ChangedFallbackHandler'' ''ChangedFallbackHandler(address)'' TOPIC_SAFE_CHANGED_FALLBACK_HANDLER ''config_changed'' ''multisig'' [''multisig_configuration''] [''multisig''],
     mk_spec ''ChangedMasterCopy'' ''ChangedMasterCopy(address)'' TOPIC_SAFE_CHANGED_MASTER_COPY ''implementation_upgraded'' ''multisig'' [''multisig_configuration''] [''multisig''],
     mk_spec ''AnswerUpdated'' ''AnswerUpdated(int256,uint256,uint256)'' TOPIC_ANSWER_UPDATED ''oracle_answer_updated'' ''oracle'' [''oracle_updates''] [''oracle'']]"

definition EVENTS_BY_TOPIC :: "string \<rightharpoonup> event_spec" where
  "EVENTS_BY_TOPIC = map_of (rev (map (\<lambda>s. (es_topic0 s, s)) EVENT_SPECS))"

section \<open>Decoders\<close>

definition hex_int :: "pyval \<Rightarrow> py_error + int option" where
  "hex_int value = (case value of
       PInt i \<Rightarrow> Inr (Some i)
     | _ \<Rightarrow> (let t = lower_key value in
         if take 2 t \<noteq> ''0x'' then
           (if py_isdigit t
            then (if length t > MAX_STR_DIGITS then Inl ValueError
                  else case py_int t of None \<Rightarrow> Inl ValueError | Some i \<Rightarrow> Inr (Some i))
            else Inr None)
         else Inr (py_int16 t)))"

definition address_arg :: "string list \<Rightarrow> string list \<Rightarrow> int \<Rightarrow> int \<Rightarrow> string option" where
  "address_arg topics words topic_index word_index =
     (if topic_index < int (length topics)
      then Some (word_to_address (drop 2 (topics ! nat topic_index)))
      else map_option word_to_address (py_index words word_index))"

definition role_label :: "string \<Rightarrow> json" where
  "role_label role = (case map_of ROLE_LABELS (py_lower role) of None \<Rightarrow> JNull | Some l \<Rightarrow> JStr l)"

text \<open>The address in a topic.\<close>

definition topic_address :: "string list \<Rightarrow> int \<Rightarrow> string option" where
  "topic_address topics i = map_option (\<lambda>t. word_to_address (drop 2 t)) (py_index topics i)"

definition decode_role :: "string list \<Rightarrow> string list \<Rightarrow> (string \<times> json) list option" where
  "decode_role topics words = do {
     role \<leftarrow> py_index topics 1;
     account \<leftarrow> topic_address topics 2;
     sender \<leftarrow> topic_address topics 3;
     Some [(''role'', JStr role), (''role_label'', role_label role), (''account'', JStr account),
           (''sender'', JStr sender)] }"

definition decode_role_admin_changed :: "string list \<Rightarrow> string list \<Rightarrow> (string \<times> json) list option" where
  "decode_role_admin_changed topics words = do {
     role \<leftarrow> py_index topics 1;
     previous \<leftarrow> py_index topics 2;
     new \<leftarrow> py_index topics 3;
     Some [(''role'', JStr role), (''role_label'', role_label role),
           (''previous_admin_role'', JStr previous), (''previous_admin_role_label'', role_label previous),
           (''new_admin_role'', JStr new), (''new_admin_role_label'', role_label new)] }"

text \<open>Two addresses, indexed or in the data.\<close>

definition address_pair :: "string \<Rightarrow> string \<Rightarrow> string list \<Rightarrow> string list \<Rightarrow> (string \<times> json) list option" where
  "address_pair old_key new_key topics words =
     (if length topics \<ge> 3 then do {
        a \<leftarrow> topic_address topics 1;
        b \<leftarrow> topic_address topics 2;
        Some [(old_key, JStr a), (new_key, JStr b)] }
      else do {
        a \<leftarrow> py_index words 0;
        b \<leftarrow> py_index words 1;
        Some [(old_key, JStr (word_to_address a)), (new_key, JStr (word_to_address b))] })"

definition decode_ownership :: "string list \<Rightarrow> string list \<Rightarrow> (string \<times> json) list option" where
  "decode_ownership = address_pair ''previous_owner'' ''new_owner''"

definition decode_admin_changed :: "string list \<Rightarrow> string list \<Rightarrow> (string \<times> json) list option" where
  "decode_admin_changed = address_pair ''previous_admin'' ''new_admin''"

definition one_address :: "string \<Rightarrow> string list \<Rightarrow> string list \<Rightarrow> (string \<times> json) list option" where
  "one_address key topics words = map_option (\<lambda>a. [(key, JStr a)]) (address_arg topics words 1 0)"

definition decode_upgraded :: "string list \<Rightarrow> string list \<Rightarrow> (string \<times> json) list option" where
  "decode_upgraded = one_address ''implementation''"

definition decode_beacon_upgraded :: "string list \<Rightarrow> string list \<Rightarrow> (string \<times> json) list option" where
  "decode_beacon_upgraded = one_address ''beacon''"

definition decode_pause :: "string list \<Rightarrow> string list \<Rightarrow> (string \<times> json) list option" where
  "decode_pause = one_address ''account''"

definition decode_transfer :: "string list \<Rightarrow> string list \<Rightarrow> (string \<times> json) list option" where
  "decode_transfer topics words = do {
     sender \<leftarrow> topic_address topics 1;
     receiver \<leftarrow> topic_address topics 2;
     if length topics \<ge> 4 then do {
       n \<leftarrow> word_to_uint (drop 2 (topics ! 3));
       token_id \<leftarrow> int_text n;
       Some [(''from'', JStr sender), (''to'', JStr receiver), (''token_standard'', JStr ''erc721''),
             (''token_id'', JStr token_id), (''value'', JNull)] }
     else do {
       w \<leftarrow> py_index words 0;
       n \<leftarrow> word_to_uint w;
       amount \<leftarrow> int_text n;
       Some [(''from'', JStr sender), (''to'', JStr receiver), (''token_standard'', JStr ''erc20''),
             (''value'', JStr amount)] } }"

definition decode_safe_owner :: "string list \<Rightarrow> string list \<Rightarrow> (string \<times> json) list option" where
  "decode_safe_owner = one_address ''owner''"

definition decode_safe_threshold :: "string list \<Rightarrow> string list \<Rightarrow> (string \<times> json) list option" where
  "decode_safe_threshold topics words = do {
     w \<leftarrow> (case words of v # vs \<Rightarrow> Some v | [] \<Rightarrow> map_option (drop 2) (py_index topics 1));
     n \<leftarrow> word_to_uint w;
     Some [(''threshold'', JInt n)] }"

definition decode_safe_module :: "string list \<Rightarrow> string list \<Rightarrow> (string \<times> json) list option" where
  "decode_safe_module = one_address ''module''"

definition decode_safe_guard :: "string list \<Rightarrow> string list \<Rightarrow> (string \<times> json) list option" where
  "decode_safe_guard = one_address ''guard''"

definition decode_safe_handler :: "string list \<Rightarrow> string list \<Rightarrow> (string \<times> json) list option" where
  "decode_safe_handler = one_address ''handler''"

definition decode_safe_master_copy :: "string list \<Rightarrow> string list \<Rightarrow> (string \<times> json) list option" where
  "decode_safe_master_copy = one_address ''implementation''"

definition decode_answer_updated :: "string list \<Rightarrow> string list \<Rightarrow> (string \<times> json) list option" where
  "decode_answer_updated topics words = do {
     t1 \<leftarrow> py_index topics 1;
     current \<leftarrow> Option.bind (word_to_int256 (drop 2 t1)) int_text;
     t2 \<leftarrow> py_index topics 2;
     round_id \<leftarrow> Option.bind (word_to_uint (drop 2 t2)) int_text;
     w \<leftarrow> py_index words 0;
     updated_at \<leftarrow> word_to_uint w;
     Some [(''current'', JStr current), (''round_id'', JStr round_id), (''updated_at'', JInt updated_at)] }"

text \<open>The word at an index, as a number.\<close>

definition uint_at :: "string list \<Rightarrow> int \<Rightarrow> int option" where
  "uint_at words i = Option.bind (py_index words i) word_to_uint"

definition facet_action :: "int \<Rightarrow> string" where
  "facet_action n = (if n = 0 then ''add'' else if n = 1 then ''replace'' else if n = 2 then ''remove'' else str_int n)"

definition facet_json :: "string \<Rightarrow> int \<Rightarrow> int \<Rightarrow> json" where
  "facet_json address action selector_count =
     JDict [(''facet_address'', JStr address), (''action'', JStr (facet_action action)),
            (''selector_count'', JInt selector_count)]"

definition decode_facet :: "string list \<Rightarrow> int \<Rightarrow> nat \<Rightarrow> json option" where
  "decode_facet words base index = do {
     offset \<leftarrow> uint_at words (base + int index);
     let tuple_start = base + offset div 32;
     w \<leftarrow> py_index words tuple_start;
     action \<leftarrow> uint_at words (tuple_start + 1);
     selectors_offset \<leftarrow> uint_at words (tuple_start + 2);
     selector_count \<leftarrow> uint_at words (tuple_start + selectors_offset div 32);
     if selector_count > 4096 then None
     else Some (facet_json (word_to_address w) action selector_count) }"

definition decode_diamond_cut :: "string list \<Rightarrow> string list \<Rightarrow> (string \<times> json) list option" where
  "decode_diamond_cut topics words = do {
     init \<leftarrow> py_index words 1;
     offset \<leftarrow> uint_at words 0;
     let cuts_offset = offset div 32;
     count \<leftarrow> uint_at words cuts_offset;
     if count > 256 then None
     else do {
       facets \<leftarrow> those (map (decode_facet words (cuts_offset + 1)) [0..<nat count]);
       Some [(''init'', JStr (word_to_address init)), (''facet_cuts'', JList facets),
             (''facet_cut_count'', JInt (int (length facets)))] } }"

definition DECODERS :: "(string \<times> (string list \<Rightarrow> string list \<Rightarrow> (string \<times> json) list option)) list" where
  "DECODERS =
    [(''RoleGranted'', decode_role),
     (''RoleRevoked'', decode_role),
     (''RoleAdminChanged'', decode_role_admin_changed),
     (''OwnershipTransferred'', decode_ownership),
     (''OwnershipTransferStarted'', decode_ownership),
     (''Upgraded'', decode_upgraded),
     (''BeaconUpgraded'', decode_beacon_upgraded),
     (''DiamondCut'', decode_diamond_cut),
     (''AdminChanged'', decode_admin_changed),
     (''Paused'', decode_pause),
     (''Unpaused'', decode_pause),
     (''Transfer'', decode_transfer),
     (''AddedOwner'', decode_safe_owner),
     (''RemovedOwner'', decode_safe_owner),
     (''ChangedThreshold'', decode_safe_threshold),
     (''EnabledModule'', decode_safe_module),
     (''DisabledModule'', decode_safe_module),
     (''ChangedGuard'', decode_safe_guard),
     (''ChangedFallbackHandler'', decode_safe_handler),
     (''ChangedMasterCopy'', decode_safe_master_copy),
     (''AnswerUpdated'', decode_answer_updated)]"

section \<open>The log\<close>

record raw_log =
  lg_removed :: pyval
  lg_address :: pyval
  lg_topics :: "pyval list"
  lg_data :: pyval
  lg_blockNumber :: pyval
  lg_blockHash :: pyval
  lg_transactionHash :: pyval
  lg_transactionIndex :: pyval
  lg_logIndex :: pyval
  lg_blockTimestamp :: pyval

text \<open>\<open>str(value or '').lower()\<close>, and the same with \<open>or None\<close>.\<close>

definition low :: "pyval \<Rightarrow> string" where
  "low v = py_lower (text_of v)"

definition low_or_none :: "pyval \<Rightarrow> string option" where
  "low_or_none v = (if low v = [] then None else Some (low v))"

definition str_or_null :: "string option \<Rightarrow> json" where
  "str_or_null v = (case v of None \<Rightarrow> JNull | Some s \<Rightarrow> JStr s)"

definition canonical_raw_log :: "raw_log \<Rightarrow> (string \<times> json) list" where
  "canonical_raw_log lg =
     [(''address'', JStr (low (lg_address lg))),
      (''topics'', JList (map (JStr \<circ> low) (lg_topics lg))),
      (''data'', JStr (if truthy (lg_data lg) then low (lg_data lg) else ''0x'')),
      (''blockNumber'', JStr (low (lg_blockNumber lg))),
      (''blockHash'', str_or_null (low_or_none (lg_blockHash lg))),
      (''transactionHash'', JStr (low (lg_transactionHash lg))),
      (''transactionIndex'', str_or_null (low_or_none (lg_transactionIndex lg))),
      (''logIndex'', JStr (low (lg_logIndex lg)))]"

definition payload_sha256 :: "hash_fun \<Rightarrow> (string \<times> json) list \<Rightarrow> string" where
  "payload_sha256 H raw = bytes_hex (H (utf8 (json_dumps (JDict raw))))"

record decoded_log =
  dl_spec :: event_spec
  dl_contract_address :: string
  dl_block_number :: int
  dl_block_hash :: "string option"
  dl_tx_hash :: string
  dl_log_index :: int
  dl_topic0 :: string
  dl_decoded :: "(string \<times> json) list"
  dl_decode_status :: string
  dl_raw_log :: "(string \<times> json) list"
  dl_payload_sha256 :: string
  dl_block_timestamp :: "int option"

text \<open>The guarded call of the decoder: what it decoded, and the status.\<close>

definition run_decoder :: "event_spec \<Rightarrow> string list \<Rightarrow> string list \<Rightarrow> (string \<times> json) list \<times> string" where
  "run_decoder spec topics words =
     (case Option.bind (map_of DECODERS (es_name spec)) (\<lambda>d. d topics words) of
        None \<Rightarrow> ([], ''undecoded'')
      | Some decoded \<Rightarrow>
          (decoded, if es_name spec = ''DiamondCut'' \<and>
                       (map_of decoded ''facet_cuts'' = None \<or> map_of decoded ''facet_cuts'' = Some (JList []))
                    then ''partial'' else ''decoded''))"

definition MAX_TIMESTAMP :: int where
  "MAX_TIMESTAMP = 253402300799"

definition block_time :: "pyval \<Rightarrow> py_error + int option" where
  "block_time v = bind_result (hex_int v) (\<lambda>t. case t of
       None \<Rightarrow> Inr None
     | Some s \<Rightarrow> if s > 0 then (if s > MAX_TIMESTAMP then Inl ValueError else Inr (Some s)) else Inr None)"

definition decode_log :: "hash_fun \<Rightarrow> raw_log \<Rightarrow> py_error + decoded_log option" where
  "decode_log H lg =
     (if lg_removed lg = PBool True then Inr None
      else let topics = map low (lg_topics lg) in
      if topics = [] \<or> \<not> is_word32 (hd topics) then Inr None
      else case EVENTS_BY_TOPIC (hd topics) of
        None \<Rightarrow> Inr None
      | Some spec \<Rightarrow>
          bind_result (hex_int (lg_blockNumber lg)) (\<lambda>block_number.
          bind_result (hex_int (lg_logIndex lg)) (\<lambda>log_index.
          case (normalize_address (lg_address lg), block_number, log_index) of
            (Some contract, Some number, Some index) \<Rightarrow>
              if \<not> is_word32 (low (lg_transactionHash lg)) then Inr None
              else let (decoded, status) = run_decoder spec topics (data_words (lg_data lg));
                       block_hash = low_or_none (lg_blockHash lg);
                       raw = canonical_raw_log lg
                   in bind_result (block_time (lg_blockTimestamp lg)) (\<lambda>time.
                        Inr (Some \<lparr>dl_spec = spec, dl_contract_address = contract, dl_block_number = number,
                          dl_block_hash = (case block_hash of
                             Some h \<Rightarrow> if is_word32 h then Some h else None | None \<Rightarrow> None),
                          dl_tx_hash = low (lg_transactionHash lg), dl_log_index = index, dl_topic0 = hd topics,
                          dl_decoded = decoded, dl_decode_status = status, dl_raw_log = raw,
                          dl_payload_sha256 = payload_sha256 H raw, dl_block_timestamp = time\<rparr>))
          | _ \<Rightarrow> Inr None)))"

section \<open>Filters\<close>

text \<open>A filter of \<open>eth_getLogs\<close>: the emitters, \<open>None\<close> for any, and per position the topics, \<open>None\<close> for any.\<close>

record log_filter =
  lf_address :: "string list option"
  lf_topics :: "string list option list"

definition spec_enabled :: "string list \<Rightarrow> string \<Rightarrow> event_spec \<Rightarrow> bool" where
  "spec_enabled profiles target_type spec =
     (target_type \<in> set (es_emitter_types spec) \<and> list_ex (\<lambda>p. p \<in> set profiles) (es_profiles spec))"

definition emitter_topics :: "string list \<Rightarrow> string \<Rightarrow> string list" where
  "emitter_topics profiles target_type =
     sort (map es_topic0 (filter (spec_enabled profiles target_type) EVENT_SPECS))"

definition log_filters_for_target :: "string \<Rightarrow> string \<Rightarrow> string list \<Rightarrow> string list \<Rightarrow> log_filter list" where
  "log_filters_for_target target_type address profiles extra_emitters =
     (let topics = emitter_topics profiles target_type;
          padded = padded_address_topic address
      in (if topics \<noteq> []
          then [\<lparr>lf_address = Some (address # filter (\<lambda>a. a \<noteq> [] \<and> a \<noteq> address) extra_emitters),
                 lf_topics = [Some topics]\<rparr>] else []) @
         (if target_type \<in> {''wallet'', ''multisig''} \<and>
             (''large_transfers'' \<in> set profiles \<or> ''mint_burn'' \<in> set profiles)
          then [\<lparr>lf_address = None, lf_topics = [Some [TOPIC_TRANSFER], Some [padded]]\<rparr>,
                \<lparr>lf_address = None, lf_topics = [Some [TOPIC_TRANSFER], None, Some [padded]]\<rparr>]
          else []))"

section \<open>The encoder of a conforming node\<close>

fun hex_text :: "nat \<Rightarrow> string" where
  "hex_text n = (if n < 16 then [hex_digit n] else hex_text (n div 16) @ [hex_digit (n mod 16)])"

declare hex_text.simps [simp del]

definition quantity :: "nat \<Rightarrow> pyval" where
  "quantity n = PStr (''0x'' @ hex_text n)"

definition node_log :: "string \<Rightarrow> string list \<Rightarrow> string list \<Rightarrow> nat \<Rightarrow> string \<Rightarrow> string \<Rightarrow> nat \<Rightarrow> nat \<Rightarrow> raw_log" where
  "node_log address topics words block_number block_hash tx_hash log_index time =
     \<lparr>lg_removed = PBool False, lg_address = PStr address, lg_topics = map PStr topics,
      lg_data = PStr (''0x'' @ concat words), lg_blockNumber = quantity block_number, lg_blockHash = PStr block_hash,
      lg_transactionHash = PStr tx_hash, lg_transactionIndex = quantity 0, lg_logIndex = quantity log_index,
      lg_blockTimestamp = quantity time\<rparr>"

text \<open>A facet cut of the contract ABI: the facet, the action and its selector words.\<close>

definition facet_words :: "string \<times> nat \<times> string list \<Rightarrow> string list" where
  "facet_words f = (case f of (address, action, selectors) \<Rightarrow>
     [address_word address, uint_word action, uint_word 96, uint_word (length selectors)] @ selectors)"

definition facet_offset :: "(string \<times> nat \<times> string list) list \<Rightarrow> nat \<Rightarrow> nat" where
  "facet_offset fs i = length fs + length (concat (map facet_words (take i fs)))"

definition cut_words :: "string \<Rightarrow> (string \<times> nat \<times> string list) list \<Rightarrow> string \<Rightarrow> string list \<Rightarrow> string list" where
  "cut_words init fs calldata_offset calldata =
     [uint_word 96, address_word init, calldata_offset, uint_word (length fs)] @
     map (\<lambda>i. uint_word (32 * facet_offset fs i)) [0..<length fs] @ concat (map facet_words fs) @ calldata"

definition facet_ok :: "string \<times> nat \<times> string list \<Rightarrow> bool" where
  "facet_ok f = (case f of (address, action, selectors) \<Rightarrow>
     is_address address \<and> action < 2 ^ 256 \<and> length selectors \<le> 4096)"

section \<open>Lemmas\<close>

lemma hex_text_props: "hex_text n \<noteq> [] \<and> list_all is_hex (hex_text n) \<and> hex_val (hex_text n) = n"
proof (induction n rule: hex_text.induct)
  case (1 n)
  show ?case
  proof (cases "n < 16")
    case True
    then show ?thesis by (subst (1 2 3) hex_text.simps) (simp add: is_hex_digit hex_val_def hex_char_val_digit)
  next
    case False
    with 1 show ?thesis
      by (subst (1 2 3) hex_text.simps) (simp add: is_hex_digit hex_val_snoc hex_char_val_digit)
  qed
qed

lemma hex_int_quantity [simp]: "hex_int (quantity n) = Inr (Some (int n))"
proof -
  have hex: "hex_text n \<noteq> []" "list_all is_hex (hex_text n)" "hex_val (hex_text n) = n" using hex_text_props [of n] by auto
  have "\<not> int_space c" if "c \<in> set (hex_text n)" for c
    using hex(2) that is_hex_char by (auto simp: list_all_iff)
  moreover have "\<not> int_space (CHR ''0'')" by code_simp
  ultimately have strip: "int_strip (''0x'' @ hex_text n) = ''0x'' @ hex_text n"
    using hex(1) by (simp add: int_strip_def) (cases "hex_text n" rule: rev_cases; simp)
  have "take 1 (hex_text n) \<noteq> ''_''" using hex is_hex_char by (cases "hex_text n") auto
  then have "drop_prefix16 (''0x'' @ hex_text n) = hex_text n" by (simp add: drop_prefix16_def)
  with strip have "py_int16 (''0x'' @ hex_text n) = Some (int n)"
    using hex_plain(1,2) [OF hex(2,1)] by (simp add: py_int16_def py_int16_nat_def hex(3))
  then show ?thesis using prefixed_hex_key [OF hex(2)] by (simp add: hex_int_def quantity_def)
qed

lemma topics_distinct: "distinct (map es_topic0 EVENT_SPECS)"
  by code_simp

lemma topics_words: "list_all (\<lambda>s. is_word32 (es_topic0 s)) EVENT_SPECS"
  by code_simp

lemma event_of_topic: "EVENTS_BY_TOPIC t = Some spec \<longleftrightarrow> spec \<in> set EVENT_SPECS \<and> es_topic0 spec = t"
proof -
  have "distinct (map fst (rev (map (\<lambda>s. (es_topic0 s, s)) EVENT_SPECS)))"
    using topics_distinct by (simp add: rev_map [symmetric] comp_def)
  then show ?thesis by (auto simp: EVENTS_BY_TOPIC_def)
qed

lemma word32_low: "is_word32 t \<Longrightarrow> low (PStr t) = t"
proof -
  assume t: "is_word32 t"
  have "py_lower ''0x'' = ''0x''" by code_simp
  then have "py_lower (take 2 t @ drop 2 t) = take 2 t @ drop 2 t"
    using t py_lower_hex [of "drop 2 t"] by (simp add: is_word32_def py_lower_def)
  then show ?thesis by (simp add: low_def)
qed

lemma word32_topic: "word_ok w \<Longrightarrow> is_word32 (''0x'' @ w)"
  by (simp add: word_ok_def is_word32_def)

lemma node_log_decoded:
  assumes "is_address a" and "list_all is_word32 topics" and "topics \<noteq> []" and "EVENTS_BY_TOPIC (hd topics) = Some spec"
    and "list_all word_ok words" and "is_word32 bh" and "is_word32 tx" and "int t \<le> MAX_TIMESTAMP"
  shows "decode_log H (node_log a topics words n bh tx i t) = Inr (Some
    \<lparr>dl_spec = spec, dl_contract_address = a, dl_block_number = int n, dl_block_hash = Some bh, dl_tx_hash = tx,
     dl_log_index = int i, dl_topic0 = hd topics, dl_decoded = fst (run_decoder spec topics words),
     dl_decode_status = snd (run_decoder spec topics words),
     dl_raw_log = canonical_raw_log (node_log a topics words n bh tx i t),
     dl_payload_sha256 = payload_sha256 H (canonical_raw_log (node_log a topics words n bh tx i t)),
     dl_block_timestamp = (if t = 0 then None else Some (int t))\<rparr>)"
proof -
  have topics: "map (low \<circ> PStr) topics = topics"
    using assms(2) word32_low by (auto simp: list_all_iff intro: map_idI)
  have head: "is_word32 (hd topics)" using assms(2,3) by (cases topics) auto
  have bh: "low_or_none (PStr bh) = Some bh" using assms(6) word32_low by (auto simp: low_or_none_def is_word32_def)
  have time: "block_time (quantity t) = Inr (if t = 0 then None else Some (int t))"
    using assms(8) by (simp add: block_time_def)
  show ?thesis
    unfolding decode_log_def Let_def
    by (simp add: node_log_def topics head assms(3,4,6,7) bh time word32_low normalize_address_valid [OF assms(1)]
        data_words_concat [OF assms(5), simplified] split_beta)
qed

text \<open>The index of a word inside the bodies of the facets.\<close>

lemma nth_concat_take:
  "i < length xss \<Longrightarrow> j < length (xss ! i) \<Longrightarrow> concat xss ! (length (concat (take i xss)) + j) = xss ! i ! j"
proof (induction xss arbitrary: i)
  case (Cons xs xss)
  then show ?case by (cases i) (auto simp: nth_append)
qed simp

lemma concat_take_bound:
  "i < length xss \<Longrightarrow> j < length (xss ! i) \<Longrightarrow> length (concat (take i xss)) + j < length (concat xss)"
proof (induction xss arbitrary: i)
  case (Cons xs xss)
  then show ?case by (cases i) auto
qed simp

lemma those_map: "(\<And>x. x \<in> set xs \<Longrightarrow> f x = Some (g x)) \<Longrightarrow> those (map f xs) = Some (map g xs)"
  by (induction xs) auto

lemma py_index_nat: "k < length xs \<Longrightarrow> py_index xs (int k) = Some (xs ! k)"
  by (simp add: py_index_def)

lemma length_facet_words: "facet_ok f \<Longrightarrow> length (facet_words f) \<le> 4100"
  by (cases f) (simp add: facet_ok_def facet_words_def)

lemma facet_offset_bound:
  assumes "list_all facet_ok fs" and "length fs \<le> 256"
  shows "facet_offset fs i \<le> 256 + 256 * 4100"
proof -
  have "length (concat (map facet_words gs)) \<le> length gs * 4100" if "list_all facet_ok gs" for gs
    using that
  proof (induction gs)
    case (Cons f gs)
    then show ?case using length_facet_words [of f] by simp
  qed simp
  moreover have "list_all facet_ok (take i fs)" using assms(1) by (auto simp: list_all_iff dest: in_set_takeD)
  ultimately have "length (concat (map facet_words (take i fs))) \<le> length (take i fs) * 4100" by blast
  also have "\<dots> \<le> 256 * 4100" using assms(2) by simp
  finally show ?thesis using assms(2) by (simp add: facet_offset_def)
qed

lemma cut_words_facet:
  assumes "list_all facet_ok fs" and "i < length fs" and "j < length (facet_words (fs ! i))"
  shows "4 + facet_offset fs i + j < length (cut_words init fs c rest)"
    and "cut_words init fs c rest ! (4 + facet_offset fs i + j) = facet_words (fs ! i) ! j"
proof -
  let ?b = "map facet_words fs" and ?k = "length (concat (take i (map facet_words fs))) + j"
  have lt: "?k < length (concat ?b)" using concat_take_bound [of i ?b j] assms by simp
  have eq: "concat ?b ! ?k = facet_words (fs ! i) ! j" using nth_concat_take [of i ?b j] assms by simp
  have off: "facet_offset fs i + j = length fs + ?k" by (simp add: facet_offset_def take_map)
  show "4 + facet_offset fs i + j < length (cut_words init fs c rest)"
    using lt off by (simp add: cut_words_def)
  have "cut_words init fs c rest ! (4 + (length fs + ?k)) = (concat ?b @ rest) ! ?k"
    by (simp add: cut_words_def nth_append)
  also have "\<dots> = concat ?b ! ?k" using lt by (simp add: nth_append)
  finally show "cut_words init fs c rest ! (4 + facet_offset fs i + j) = facet_words (fs ! i) ! j"
    using off eq by (simp add: add.assoc)
qed

lemma decode_facet_encoded:
  assumes "list_all facet_ok fs" and "length fs \<le> 256" and "i < length fs" and "fs ! i = (a, act, sels)"
  shows "decode_facet (cut_words init fs c rest) 4 i = Some (facet_json a (int act) (int (length sels)))"
proof -
  let ?ws = "cut_words init fs c rest" and ?k = "4 + facet_offset fs i"
  have ok: "is_address a" "act < 2 ^ 256" "length sels \<le> 4096"
    using assms(1,3,4) by (auto simp: list_all_length facet_ok_def)
  have fw: "facet_words (fs ! i) = [address_word a, uint_word act, uint_word 96, uint_word (length sels)] @ sels"
    by (simp add: facet_words_def assms(4))
  have at: "py_index ?ws (int ?k + int j) = Some (facet_words (fs ! i) ! j)" if "j < length (facet_words (fs ! i))" for j
    using cut_words_facet [OF assms(1,3) that, of init c rest] py_index_nat [of "?k + j" ?ws] by simp
  have words: "py_index ?ws (int ?k) = Some (address_word a)" "py_index ?ws (int ?k + 1) = Some (uint_word act)"
      "py_index ?ws (int ?k + 2) = Some (uint_word 96)" "py_index ?ws (int ?k + 3) = Some (uint_word (length sels))"
    using at [of 0] at [of 1] at [of 2] at [of 3] by (simp_all add: fw numeral_2_eq_2 numeral_3_eq_3)
  have off: "32 * facet_offset fs i < 2 ^ 256"
  proof -
    have "32 * facet_offset fs i \<le> 32 * (256 + 256 * 4100)" using facet_offset_bound [OF assms(1,2), of i] by simp
    also have "\<dots> < 2 ^ 256" by simp
    finally show ?thesis .
  qed
  have "4 + i < length ?ws" "?ws ! (4 + i) = uint_word (32 * facet_offset fs i)"
    using assms(3) by (simp_all add: cut_words_def nth_append)
  then have "uint_at ?ws (4 + int i) = Some (int (32 * facet_offset fs i))"
    using py_index_nat [of "4 + i" ?ws] by (simp add: uint_at_def word_to_uint_word [OF off])
  moreover have "uint_at ?ws (int ?k + 1) = Some (int act)" "uint_at ?ws (int ?k + 2) = Some 96"
      "uint_at ?ws (int ?k + 3) = Some (int (length sels))"
    using words ok word_to_uint_word [of act] word_to_uint_word [of 96] word_to_uint_word [of "length sels"]
    by (simp_all add: uint_at_def)
  ultimately show ?thesis
    using words(1) ok by (simp add: decode_facet_def address_word_props)
qed

text \<open>What a cut says, as the decoder reports it.\<close>

definition cut_json :: "string \<Rightarrow> (string \<times> nat \<times> string list) list \<Rightarrow> (string \<times> json) list" where
  "cut_json init fs =
     [(''init'', JStr init),
      (''facet_cuts'', JList (map (\<lambda>(a, act, sels). facet_json a (int act) (int (length sels))) fs)),
      (''facet_cut_count'', JInt (int (length fs)))]"

lemma decode_cut_encoded:
  assumes "list_all facet_ok fs" and "length fs \<le> 256" and "is_address init"
  shows "decode_diamond_cut topics (cut_words init fs c rest) = Some (cut_json init fs)"
proof -
  let ?ws = "cut_words init fs c rest"
  let ?g = "\<lambda>i. case fs ! i of (a, act, sels) \<Rightarrow> facet_json a (int act) (int (length sels))"
  have "those (map (decode_facet ?ws 4) [0..<length fs]) = Some (map ?g [0..<length fs])"
    using decode_facet_encoded [OF assms(1,2)] by (intro those_map) (auto split: prod.splits)
  moreover have "map ?g [0..<length fs] = map (\<lambda>(a, act, sels). facet_json a (int act) (int (length sels))) fs"
    by (intro nth_equalityI) auto
  moreover have "py_index ?ws 1 = Some (address_word init)" "uint_at ?ws 0 = Some 96" "uint_at ?ws 3 = Some (int (length fs))"
    using word_to_uint_word [of 96] word_to_uint_word [of "length fs"] assms(2)
    by (simp_all add: uint_at_def py_index_def cut_words_def)
  ultimately show ?thesis
    using assms by (simp add: decode_diamond_cut_def cut_json_def address_word_props)
qed

lemma length_str_nat: "n < 10 ^ k \<Longrightarrow> 0 < k \<Longrightarrow> length (str_nat n) \<le> k"
proof (induction n arbitrary: k rule: str_nat.induct)
  case (1 n)
  show ?case
  proof (cases "n < 10")
    case True
    then show ?thesis using 1(3) by (simp add: str_nat.simps [of n])
  next
    case False
    then obtain j where j: "k = Suc j" "0 < j" using 1(2,3) by (cases k; cases "k - 1") auto
    then have "n div 10 < 10 ^ j" using 1(2) by (simp add: less_mult_imp_div_less mult.commute)
    with 1(1) [OF False this j(2)] False j show ?thesis by (simp add: str_nat.simps [of n])
  qed
qed

lemma int_text_uint: "v < 2 ^ 256 \<Longrightarrow> int_text (int v) = Some (str_nat v)"
proof -
  assume "v < 2 ^ 256"
  also have "(2 :: nat) ^ 256 < 10 ^ 78" by simp
  finally have "length (str_nat v) \<le> 78" by (intro length_str_nat) auto
  then show ?thesis by (simp add: int_text_def MAX_STR_DIGITS_def str_int_def)
qed

lemma topic_padded: "is_address f \<Longrightarrow> drop 2 (padded_address_topic f) = address_word f \<and> is_word32 (padded_address_topic f)"
proof -
  assume "is_address f"
  then have "is_word32 (''0x'' @ address_word f)" by (intro word32_topic) simp
  moreover have "''0x'' @ address_word f = padded_address_topic f" by (simp add: address_word_def padded_address_topic_def)
  ultimately show ?thesis by (simp add: address_word_def)
qed

definition transfer_spec :: event_spec where
  "transfer_spec = EVENT_SPECS ! 11"

lemma transfer_spec_props:
  "EVENTS_BY_TOPIC TOPIC_TRANSFER = Some transfer_spec" "es_name transfer_spec = ''Transfer''"
  "map_of DECODERS ''Transfer'' = Some decode_transfer" "is_word32 TOPIC_TRANSFER"
proof -
  have "es_topic0 transfer_spec = TOPIC_TRANSFER" "length EVENT_SPECS > 11"
    by (simp_all add: transfer_spec_def EVENT_SPECS_def mk_spec_def)
  then show "EVENTS_BY_TOPIC TOPIC_TRANSFER = Some transfer_spec"
    by (simp add: event_of_topic transfer_spec_def)
  show "es_name transfer_spec = ''Transfer''" by (simp add: transfer_spec_def EVENT_SPECS_def mk_spec_def)
  show "map_of DECODERS ''Transfer'' = Some decode_transfer" by (simp add: DECODERS_def)
  show "is_word32 TOPIC_TRANSFER" by code_simp
qed

definition diamond_spec :: event_spec where
  "diamond_spec = EVENT_SPECS ! 7"

lemma diamond_spec_props:
  "EVENTS_BY_TOPIC TOPIC_DIAMOND_CUT = Some diamond_spec" "es_name diamond_spec = ''DiamondCut''"
  "map_of DECODERS ''DiamondCut'' = Some decode_diamond_cut" "is_word32 TOPIC_DIAMOND_CUT"
proof -
  have "es_topic0 diamond_spec = TOPIC_DIAMOND_CUT" "length EVENT_SPECS > 7"
    by (simp_all add: diamond_spec_def EVENT_SPECS_def mk_spec_def)
  then show "EVENTS_BY_TOPIC TOPIC_DIAMOND_CUT = Some diamond_spec"
    by (simp add: event_of_topic diamond_spec_def)
  show "es_name diamond_spec = ''DiamondCut''" by (simp add: diamond_spec_def EVENT_SPECS_def mk_spec_def)
  show "map_of DECODERS ''DiamondCut'' = Some decode_diamond_cut" by (simp add: DECODERS_def)
  show "is_word32 TOPIC_DIAMOND_CUT" by code_simp
qed

lemma facet_words_ok: "facet_ok f \<Longrightarrow> list_all word_ok (snd (snd f)) \<Longrightarrow> list_all word_ok (facet_words f)"
  by (cases f) (simp add: facet_ok_def facet_words_def)

lemma cut_words_ok:
  assumes "list_all facet_ok fs" and "list_all (\<lambda>f. list_all word_ok (snd (snd f))) fs"
    and "is_address init" and "word_ok c" and "list_all word_ok rest"
  shows "list_all word_ok (cut_words init fs c rest)"
proof -
  have "list_all word_ok (concat (map facet_words fs))"
    using assms(1,2) by (induction fs) (auto simp: facet_words_ok)
  with assms show ?thesis by (simp add: cut_words_def) (simp add: list_all_iff)
qed

section \<open>What a filter selects\<close>

text \<open>The documented meaning of a filter: a topic position must exist, and be one of the listed topics.\<close>

fun topics_match :: "string list option list \<Rightarrow> string list \<Rightarrow> bool" where
  "topics_match [] ts = True"
| "topics_match (p # ps) [] = False"
| "topics_match (p # ps) (t # ts) = ((case p of None \<Rightarrow> True | Some alts \<Rightarrow> t \<in> set alts) \<and> topics_match ps ts)"

definition filter_matches :: "log_filter \<Rightarrow> string \<Rightarrow> string list \<Rightarrow> bool" where
  "filter_matches f emitter ts =
     ((case lf_address f of None \<Rightarrow> True | Some as \<Rightarrow> emitter \<in> set as) \<and> topics_match (lf_topics f) ts)"

lemma padded_inj: "is_address a \<Longrightarrow> is_address b \<Longrightarrow> padded_address_topic a = padded_address_topic b \<longleftrightarrow> a = b"
  by (metis address_word_def address_word_props(3))

lemma emitter_topics_mem:
  "t \<in> set (emitter_topics ps tt) \<longleftrightarrow> (\<exists>spec \<in> set EVENT_SPECS. es_topic0 spec = t \<and> spec_enabled ps tt spec)"
  by (auto simp: emitter_topics_def)

lemma filters_match:
  assumes "ts \<noteq> []"
  shows "list_ex (\<lambda>f. filter_matches f e ts) (log_filters_for_target tt a ps extra) \<longleftrightarrow>
    hd ts \<in> set (emitter_topics ps tt) \<and> (e = a \<or> e \<noteq> [] \<and> e \<in> set extra) \<or>
    tt \<in> {''wallet'', ''multisig''} \<and> (''large_transfers'' \<in> set ps \<or> ''mint_burn'' \<in> set ps) \<and> hd ts = TOPIC_TRANSFER \<and>
    (length ts > 1 \<and> ts ! 1 = padded_address_topic a \<or> length ts > 2 \<and> ts ! 2 = padded_address_topic a)"
proof -
  obtain t rest where ts: "ts = t # rest" using assms by (cases ts) auto
  have "list_ex (\<lambda>f. filter_matches f e ts) (log_filters_for_target tt a ps extra) \<longleftrightarrow>
      t \<in> set (emitter_topics ps tt) \<and> (e = a \<or> e \<noteq> [] \<and> e \<in> set extra) \<or>
      tt \<in> {''wallet'', ''multisig''} \<and> (''large_transfers'' \<in> set ps \<or> ''mint_burn'' \<in> set ps) \<and>
      (topics_match [Some [TOPIC_TRANSFER], Some [padded_address_topic a]] ts \<or>
       topics_match [Some [TOPIC_TRANSFER], None, Some [padded_address_topic a]] ts)"
    unfolding log_filters_for_target_def Let_def by (auto simp: filter_matches_def ts)
  moreover have "topics_match [Some [TOPIC_TRANSFER], Some [p]] ts \<longleftrightarrow> t = TOPIC_TRANSFER \<and> length ts > 1 \<and> ts ! 1 = p" for p
    by (cases rest) (auto simp: ts)
  moreover have "topics_match [Some [TOPIC_TRANSFER], None, Some [p]] ts \<longleftrightarrow> t = TOPIC_TRANSFER \<and> length ts > 2 \<and> ts ! 2 = p" for p
    by (cases rest; cases "tl rest") (auto simp: ts)
  ultimately show ?thesis by (auto simp: ts)
qed

section \<open>Properties\<close>

definition sample_address :: "char \<Rightarrow> string" where
  "sample_address c = ''0x'' @ replicate 40 c"

definition sample_hash :: string where
  "sample_hash = ''0x'' @ replicate 64 (CHR ''5'')"

lemma sample_logs: "is_address (sample_address (CHR ''1''))" "is_address (sample_address (CHR ''2''))"
    "is_address (sample_address (CHR ''3''))" "is_word32 sample_hash"
  by code_simp+

text \<open>
  A transfer is read back exactly. The log a conforming node returns for an ERC-20 transfer
  of any 256-bit amount between any two addresses decodes, without raising, to the contract, the
  sender, the receiver and the decimal text of the amount, at its block and position.
\<close>

theorem transfer_log_round_trip:
  assumes "is_address a" and "is_address f" and "is_address r" and "v < 2 ^ 256"
    and "is_word32 bh" and "is_word32 tx" and "int t \<le> MAX_TIMESTAMP"
  shows "\<exists>d. decode_log H (node_log a [TOPIC_TRANSFER, padded_address_topic f, padded_address_topic r] [uint_word v] n bh tx i t)
        = Inr (Some d) \<and>
      dl_contract_address d = a \<and> dl_block_number d = int n \<and> dl_log_index d = int i \<and> dl_tx_hash d = tx \<and>
      es_name (dl_spec d) = ''Transfer'' \<and> dl_decode_status d = ''decoded'' \<and>
      dl_decoded d = [(''from'', JStr f), (''to'', JStr r), (''token_standard'', JStr ''erc20''), (''value'', JStr (str_nat v))]"
proof -
  let ?ts = "[TOPIC_TRANSFER, padded_address_topic f, padded_address_topic r]"
  have ok: "list_all is_word32 ?ts" "list_all word_ok [uint_word v]"
    using assms(2,3) transfer_spec_props(4) by (simp_all add: topic_padded)
  have "topic_address ?ts 1 = Some f" "topic_address ?ts 2 = Some r"
    using assms(2,3) by (simp_all add: topic_address_def py_index_def topic_padded address_word_props)
  then have "decode_transfer ?ts [uint_word v] =
      Some [(''from'', JStr f), (''to'', JStr r), (''token_standard'', JStr ''erc20''), (''value'', JStr (str_nat v))]"
    using assms(4) by (simp add: decode_transfer_def py_index_def word_to_uint_word int_text_uint)
  then have "run_decoder transfer_spec ?ts [uint_word v] =
      ([(''from'', JStr f), (''to'', JStr r), (''token_standard'', JStr ''erc20''), (''value'', JStr (str_nat v))], ''decoded'')"
    by (simp add: run_decoder_def transfer_spec_props)
  then show ?thesis
    using node_log_decoded [OF assms(1) ok(1) _ _ ok(2) assms(5,6,7), of transfer_spec H n i]
    by (simp add: transfer_spec_props)
qed

theorem transfer_log_round_trip_witness:
  "\<exists>d. decode_log (\<lambda>b. b) (node_log (sample_address (CHR ''1'')) [TOPIC_TRANSFER, padded_address_topic (sample_address (CHR ''2'')),
        padded_address_topic (sample_address (CHR ''3''))] [uint_word 7] 1 sample_hash sample_hash 0 0) = Inr (Some d) \<and>
      dl_decoded d = [(''from'', JStr (sample_address (CHR ''2''))), (''to'', JStr (sample_address (CHR ''3''))),
        (''token_standard'', JStr ''erc20''), (''value'', JStr ''7'')]"
proof -
  have "str_nat 7 = ''7''" by code_simp
  then show ?thesis
    using transfer_log_round_trip [OF sample_logs(1,2,3) _ sample_logs(4,4), of 7 0 "\<lambda>b. b" 1 0]
    by (auto simp: MAX_TIMESTAMP_def)
qed

text \<open>
  C31. A diamond cut is read back exactly. The ABI encoding of any cut of up to 256 facets with up
  to 4096 selectors each, whatever call data follows it, decodes to the facets in order with their
  actions and selector counts; the status is \<open>partial\<close> exactly for an empty cut.
\<close>

theorem diamond_cut_round_trip:
  assumes "is_address a" and "is_address init" and "list_all facet_ok fs" and "length fs \<le> 256"
    and "list_all (\<lambda>x. list_all word_ok (snd (snd x))) fs" and "word_ok c" and "list_all word_ok calldata"
    and "is_word32 bh" and "is_word32 tx" and "int t \<le> MAX_TIMESTAMP"
  shows "\<exists>d. decode_log H (node_log a [TOPIC_DIAMOND_CUT] (cut_words init fs c calldata) n bh tx i t) = Inr (Some d) \<and>
      dl_decoded d = cut_json init fs \<and> dl_decode_status d = (if fs = [] then ''partial'' else ''decoded'')"
proof -
  have "run_decoder diamond_spec [TOPIC_DIAMOND_CUT] (cut_words init fs c calldata) =
      (cut_json init fs, if fs = [] then ''partial'' else ''decoded'')"
    using decode_cut_encoded [OF assms(3,4,2)]
    by (simp add: run_decoder_def diamond_spec_props) (simp add: cut_json_def)
  moreover have "list_all is_word32 [TOPIC_DIAMOND_CUT]" by (simp add: diamond_spec_props)
  ultimately show ?thesis
    using node_log_decoded [OF assms(1) _ _ _ cut_words_ok [OF assms(3,5,2,6,7)] assms(8,9,10),
        of "[TOPIC_DIAMOND_CUT]" diamond_spec H n i]
    by (simp add: diamond_spec_props)
qed

theorem diamond_cut_round_trip_witness:
  "\<exists>d. decode_log (\<lambda>b. b) (node_log (sample_address (CHR ''1'')) [TOPIC_DIAMOND_CUT]
        (cut_words (sample_address (CHR ''2'')) [(sample_address (CHR ''3''), 1, [uint_word 9])] (uint_word 0) [])
        1 sample_hash sample_hash 0 0) = Inr (Some d) \<and>
      dl_decoded d = cut_json (sample_address (CHR ''2'')) [(sample_address (CHR ''3''), 1, [uint_word 9])]"
proof -
  have "facet_ok (sample_address (CHR ''3''), 1, [uint_word 9])" by (simp add: facet_ok_def sample_logs)
  then show ?thesis
    using diamond_cut_round_trip [OF sample_logs(1,2), of "[(sample_address (CHR ''3''), 1, [uint_word 9])]" "uint_word 0" "[]"
        sample_hash sample_hash 0 "\<lambda>b. b" 1 0]
    by (auto simp: MAX_TIMESTAMP_def sample_logs)
qed

text \<open>
  C32. The filters of a target select exactly what it watches, of all logs, whatever their topics. They
  match a log exactly when it has a first topic and either the target, or one of its extra emitters,
  emitted it and the topic is that of an event which targets of its type emit and one of the enabled
  profiles asks for, or the target is a wallet or a multisig that watches transfers or mints and the
  log is a transfer whose first or second argument is the address of the target.
\<close>

theorem watch_filters_exact:
  "list_ex (\<lambda>flt. filter_matches flt e ts) (log_filters_for_target tt a ps extra) \<longleftrightarrow>
     (\<exists>t0 args. ts = t0 # args \<and>
       ((\<exists>spec. spec \<in> set EVENT_SPECS \<and> es_topic0 spec = t0 \<and> tt \<in> set (es_emitter_types spec) \<and>
            set (es_profiles spec) \<inter> set ps \<noteq> {}) \<and> (e = a \<or> e \<noteq> [] \<and> e \<in> set extra) \<or>
        tt \<in> {''wallet'', ''multisig''} \<and> (''large_transfers'' \<in> set ps \<or> ''mint_burn'' \<in> set ps) \<and>
          t0 = TOPIC_TRANSFER \<and> (\<exists>n < 2. n < length args \<and> args ! n = padded_address_topic a)))"
proof (cases ts)
  case Nil
  then show ?thesis
    by (auto simp: log_filters_for_target_def Let_def filter_matches_def)
next
  case (Cons t0 args)
  have enabled: "spec_enabled ps tt spec \<longleftrightarrow> tt \<in> set (es_emitter_types spec) \<and> set (es_profiles spec) \<inter> set ps \<noteq> {}" for spec
    by (auto simp: spec_enabled_def list_ex_iff)
  have "(\<exists>n < 2. n < length args \<and> args ! n = p) \<longleftrightarrow> length ts > 1 \<and> ts ! 1 = p \<or> length ts > 2 \<and> ts ! 2 = p" for p
  proof -
    have "(\<exists>n < 2. P n) \<longleftrightarrow> P 0 \<or> P (1::nat)" for P by (auto simp: less_2_cases_iff)
    then show ?thesis by (auto simp: Cons numeral_2_eq_2)
  qed
  then show ?thesis
    using filters_match [of ts e tt a ps extra] unfolding emitter_topics_mem enabled by (auto simp: Cons)
qed

theorem watch_filters_exact_witness:
  "list_ex (\<lambda>flt. filter_matches flt [] [TOPIC_TRANSFER, padded_address_topic (sample_address (CHR ''1'')),
        padded_address_topic (sample_address (CHR ''2''))])
      (log_filters_for_target ''wallet'' (sample_address (CHR ''2'')) [''mint_burn''] [])"
  unfolding watch_filters_exact by (simp add: numeral_2_eq_2 Ex_less_Suc)

text \<open>
  Two corners of the decoder. A decimal field of superscript digits passes the test for digits and
  makes the conversion raise out of the decoder; a malformed cut is recorded as \<open>undecoded\<close>, not as
  the \<open>partial\<close> the comment of its decoder announces.
\<close>

lemma superscript_block_number_raises:
  "hex_int (PStr [char_of (178 :: nat)]) = Inl ValueError"
  by code_simp

lemma malformed_cut_undecoded: "run_decoder diamond_spec [TOPIC_DIAMOND_CUT] [] = ([], ''undecoded'')"
  by (simp add: run_decoder_def diamond_spec_props decode_diamond_cut_def py_index_def)

lemma late_block_time_raises: "t > MAX_TIMESTAMP \<Longrightarrow> block_time (PInt t) = Inl ValueError"
  by (simp add: block_time_def hex_int_def MAX_TIMESTAMP_def)

end
