(* ===== verification/Chain_Scan.thy ===== *)
theory Chain_Scan
  imports External_Logs
begin

text \<open>
  Read-only chain access, \<open>services/api/app/domains/external_watchlist/rpc.py\<close>: the gateway that
  lets read methods through within a budget, and the adaptive scan of a block range.

  The transport below the gateway, \<open>inner.call\<close>, is a parameter: a function of its own state, the
  method and the parameters, that answers or fails. The code that consumes a chunk of the scan is
  a parameter as well: it may use the gateway, may raise, and its effect is a state of its own.
  Waiting between attempts is not modelled. The loops have no bound of their own, so they are
  partial functions; \<open>None\<close> is a run that does not end.
\<close>

section \<open>The gateway\<close>

text \<open>An exception, with its \<open>str()\<close> text where the code reads it.\<close>

datatype rpc_error =
    ExternalExecutionForbidden
  | RpcBudgetExhausted
  | RpcRequestTooLarge string
  | RpcFailure string

definition READ_ONLY_RPC_METHODS :: "string list" where
  "READ_ONLY_RPC_METHODS = [''eth_chainId'', ''eth_blockNumber'', ''eth_getLogs'', ''eth_getBlockByNumber'',
     ''eth_getCode'', ''eth_call'', ''eth_getStorageAt'', ''eth_getTransactionByHash'']"

record call_budget =
  bg_limit :: int
  bg_used :: int

definition spend :: "call_budget \<Rightarrow> call_budget option" where
  "spend b = (if bg_used b + 1 > bg_limit b then None else Some (b\<lparr>bg_used := bg_used b + 1\<rparr>))"

definition remaining_calls :: "call_budget \<Rightarrow> int" where
  "remaining_calls b = max 0 (bg_limit b - bg_used b)"

record 's rpc_client =
  cl_budget :: "call_budget option"
  cl_calls :: int
  cl_inner :: 's

type_synonym ('s, 'p, 'r) transport = "'s \<Rightarrow> string \<Rightarrow> 'p \<Rightarrow> (rpc_error + 'r) \<times> 's"

text \<open>The call that leaves the process.\<close>

definition inner_call :: "('s, 'p, 'r) transport \<Rightarrow> string \<Rightarrow> 'p \<Rightarrow> 's rpc_client \<Rightarrow> (rpc_error + 'r) \<times> 's rpc_client" where
  "inner_call tr method p c =
     (let (r, s) = tr (cl_inner c) method p in (r, c\<lparr>cl_calls := cl_calls c + 1, cl_inner := s\<rparr>))"

definition rpc_call :: "('s, 'p, 'r) transport \<Rightarrow> string \<Rightarrow> 'p \<Rightarrow> 's rpc_client \<Rightarrow> (rpc_error + 'r) \<times> 's rpc_client" where
  "rpc_call tr method p c =
     (if method \<notin> set READ_ONLY_RPC_METHODS then (Inl ExternalExecutionForbidden, c)
      else case cl_budget c of
        None \<Rightarrow> inner_call tr method p c
      | Some b \<Rightarrow> (case spend b of
            None \<Rightarrow> (Inl RpcBudgetExhausted, c)
          | Some b' \<Rightarrow> inner_call tr method p (c\<lparr>cl_budget := Some b'\<rparr>)))"

section \<open>Errors that ask for a smaller range\<close>

fun http_429 :: "char option \<Rightarrow> string \<Rightarrow> bool" where
  "http_429 previous [] = False"
| "http_429 previous (c # cs) =
     (take 3 (c # cs) = ''429'' \<and>
      (case previous of None \<Rightarrow> True | Some p \<Rightarrow> \<not> is_hex p \<and> p \<noteq> CHR ''x'') \<and>
      (case drop 3 (c # cs) of [] \<Rightarrow> True | d # ds \<Rightarrow> \<not> is_hex d)
      \<or> http_429 (Some c) cs)"

definition RATE_LIMIT_MARKERS :: "string list" where
  "RATE_LIMIT_MARKERS = [''too many requests'', ''rate limit'', ''ratelimit'', ''rate-limit'', ''throttl'',
     ''compute units'', ''capacity'']"

definition RANGE_ERROR_MARKERS :: "string list" where
  "RANGE_ERROR_MARKERS = [''request_too_large'', ''too large'', ''too wide'', ''more than'', ''response size'',
     ''block range'', ''max range'', ''maximum block range'', ''max results'', ''exceeds max'',
     ''is limited to'', ''range'', ''-32005'', ''http error 413'']"

definition is_range_error :: "rpc_error \<Rightarrow> bool" where
  "is_range_error e = (case e of
       RpcRequestTooLarge _ \<Rightarrow> True
     | ExternalExecutionForbidden \<Rightarrow> False
     | RpcBudgetExhausted \<Rightarrow> False
     | RpcFailure message \<Rightarrow> (let t = py_lower message in
         if http_429 None t \<or> list_ex (\<lambda>m. contains m t) RATE_LIMIT_MARKERS then False
         else list_ex (\<lambda>m. contains m t) RANGE_ERROR_MARKERS))"

section \<open>Fetching one chunk\<close>

text \<open>
  The answer to \<open>eth_getLogs\<close>: null, or entries of which those that are no object read as \<open>None\<close>.
  The parameters are a filter and the two bounds. The dictionary of the logs seen is keyed by
  transaction hash and log index, and keeps the place of the first of a key and the last value.
\<close>

type_synonym logs_answer = "raw_log option list option"

type_synonym 's log_transport = "('s, log_filter \<times> int \<times> int, logs_answer) transport"

type_synonym seen_logs = "((string \<times> string) \<times> raw_log) list"

definition log_key :: "raw_log \<Rightarrow> string \<times> string" where
  "log_key lg = (low (lg_transactionHash lg), low (lg_logIndex lg))"

definition note_log :: "raw_log option \<Rightarrow> seen_logs \<Rightarrow> seen_logs" where
  "note_log entry seen = (case entry of
       None \<Rightarrow> seen
     | Some lg \<Rightarrow> if lg_removed lg = PBool True then seen else AList.update (log_key lg) lg seen)"

definition note_answer :: "logs_answer \<Rightarrow> seen_logs \<Rightarrow> seen_logs" where
  "note_answer answer seen = (case answer of None \<Rightarrow> seen | Some entries \<Rightarrow> fold note_log entries seen)"

fun fetch_filters ::
  "'s log_transport \<Rightarrow> int \<Rightarrow> int \<Rightarrow> log_filter list \<Rightarrow> seen_logs \<Rightarrow> 's rpc_client \<Rightarrow> (rpc_error + seen_logs) \<times> 's rpc_client"
where
  "fetch_filters tr cursor finish [] seen c = (Inr seen, c)"
| "fetch_filters tr cursor finish (flt # flts) seen c =
     (case rpc_call tr ''eth_getLogs'' (flt, cursor, finish) c of
        (Inl e, c') \<Rightarrow> (Inl e, c')
      | (Inr answer, c') \<Rightarrow> fetch_filters tr cursor finish flts (note_answer answer seen) c')"

text \<open>Why a scan stopped: an error that is passed on, or the range that kept failing.\<close>

datatype scan_error = Raised rpc_error | ChunkFetchFailed int int rpc_error

partial_function (option) fetch_chunk ::
  "'s log_transport \<Rightarrow> log_filter list \<Rightarrow> int \<Rightarrow> int \<Rightarrow> int \<Rightarrow> int \<Rightarrow> int \<Rightarrow> int \<Rightarrow> int \<Rightarrow> 's rpc_client
     \<Rightarrow> ((scan_error + int \<times> int \<times> int \<times> seen_logs) \<times> 's rpc_client) option" where
  "fetch_chunk tr flts cursor to_block min_chunk max_retries width finish retries c =
     (case fetch_filters tr cursor finish flts [] c of
        (Inr seen, c') \<Rightarrow> Some (Inr (finish, width, retries, seen), c')
      | (Inl e, c') \<Rightarrow>
          if e = ExternalExecutionForbidden \<or> e = RpcBudgetExhausted then Some (Inl (Raised e), c')
          else let span = finish - cursor + 1 in
            if is_range_error e \<and> span > min_chunk
            then let width' = max min_chunk (span div 2)
                 in fetch_chunk tr flts cursor to_block min_chunk max_retries width' (min to_block (cursor + width' - 1)) retries c'
            else if retries + 1 > max_retries then Some (Inl (ChunkFetchFailed cursor finish e), c')
            else fetch_chunk tr flts cursor to_block min_chunk max_retries width finish (retries + 1) c')"

section \<open>The scan\<close>

record log_chunk =
  ch_from_block :: int
  ch_to_block :: int
  ch_logs :: "raw_log list"
  ch_chunk_size :: int
  ch_retries :: int

text \<open>
  The consumer takes a chunk, the gateway and its own state; it completes or raises. The scan
  returns how it ended, the chunks that were consumed completely, and the two states.
\<close>

type_synonym ('s, 'd, 'e) consumer = "log_chunk \<Rightarrow> 's rpc_client \<Rightarrow> 'd \<Rightarrow> ('e + 'd) \<times> 's rpc_client"

datatype 'e scan_end = ScanDone | ScanFailed scan_error | ConsumerRaised 'e

partial_function (option) scan_loop ::
  "'s log_transport \<Rightarrow> ('s, 'd, 'e) consumer \<Rightarrow> log_filter list \<Rightarrow> int \<Rightarrow> int \<Rightarrow> int \<Rightarrow> int \<Rightarrow> int \<Rightarrow> log_chunk list
     \<Rightarrow> 's rpc_client \<Rightarrow> 'd \<Rightarrow> ('e scan_end \<times> log_chunk list \<times> 's rpc_client \<times> 'd) option" where
  "scan_loop tr consume flts to_block min_chunk max_retries cursor width consumed c d =
     (if cursor > to_block then Some (ScanDone, consumed, c, d)
      else case fetch_chunk tr flts cursor to_block min_chunk max_retries width (min to_block (cursor + width - 1)) 0 c of
        None \<Rightarrow> None
      | Some (Inl e, c') \<Rightarrow> Some (ScanFailed e, consumed, c', d)
      | Some (Inr (finish, width', retries, seen), c') \<Rightarrow>
          let chunk = \<lparr>ch_from_block = cursor, ch_to_block = finish, ch_logs = map snd seen,
                       ch_chunk_size = width', ch_retries = retries\<rparr>
          in case consume chunk c' d of
               (Inl e, c'') \<Rightarrow> Some (ConsumerRaised e, consumed, c'', d)
             | (Inr d', c'') \<Rightarrow>
                 scan_loop tr consume flts to_block min_chunk max_retries (finish + 1) width' (consumed @ [chunk]) c'' d')"

definition iter_log_chunks ::
  "'s log_transport \<Rightarrow> ('s, 'd, 'e) consumer \<Rightarrow> log_filter list \<Rightarrow> int \<Rightarrow> int \<Rightarrow> int \<Rightarrow> int \<Rightarrow> int
     \<Rightarrow> 's rpc_client \<Rightarrow> 'd \<Rightarrow> ('e scan_end \<times> log_chunk list \<times> 's rpc_client \<times> 'd) option" where
  "iter_log_chunks tr consume flts from_block to_block chunk_size min_chunk max_retries c d =
     (if flts = [] \<or> from_block > to_block then Some (ScanDone, [], c, d)
      else scan_loop tr consume flts to_block min_chunk max_retries from_block (max min_chunk chunk_size) [] c d)"

declare fetch_chunk.simps [code] scan_loop.simps [code]

section \<open>The gateway is read only and within its budget\<close>

lemma inner_call_fields:
  "cl_budget (snd (inner_call tr m p c)) = cl_budget c" "cl_calls (snd (inner_call tr m p c)) = cl_calls c + 1"
  by (simp_all add: inner_call_def split_beta)

definition budget_kept :: "'s rpc_client \<Rightarrow> 's rpc_client \<Rightarrow> bool" where
  "budget_kept c c' = (case cl_budget c of
      None \<Rightarrow> cl_budget c' = None \<and> cl_calls c \<le> cl_calls c'
    | Some b \<Rightarrow> (\<exists>b'. cl_budget c' = Some b' \<and> bg_limit b' = bg_limit b \<and> bg_used b \<le> bg_used b' \<and>
        (bg_used b \<le> bg_limit b \<longrightarrow> bg_used b' \<le> bg_limit b) \<and> cl_calls c' - cl_calls c = bg_used b' - bg_used b))"

lemma budget_kept_refl [simp]: "budget_kept c c"
  by (simp add: budget_kept_def split: option.split)

lemma budget_kept_trans: "budget_kept c c' \<Longrightarrow> budget_kept c' c'' \<Longrightarrow> budget_kept c c''"
  by (cases "cl_budget c"; cases "cl_budget c'") (auto simp: budget_kept_def)

lemma rpc_call_budget: "budget_kept c (snd (rpc_call tr m p c))"
  by (cases "cl_budget c")
    (auto simp: rpc_call_def budget_kept_def inner_call_fields spend_def split: option.splits)

lemma fetch_filters_budget: "budget_kept c (snd (fetch_filters tr a b flts seen c))"
proof (induction flts arbitrary: seen c)
  case (Cons flt flts)
  obtain r c' where r: "rpc_call tr ''eth_getLogs'' (flt, a, b) c = (r, c')" by fastforce
  then have "budget_kept c c'" using rpc_call_budget [of c tr "''eth_getLogs''" "(flt, a, b)"] by simp
  with Cons show ?case by (cases r) (auto simp: r intro: budget_kept_trans)
qed simp

section \<open>Termination\<close>

text \<open>
  With a least chunk of at least one block every attempt either ends, or halves a span of at least
  two blocks, or uses one of finitely many retries.
\<close>

text \<open>How an attempt at a chunk of at most \<open>finish\<close> ended.\<close>

definition fetch_ended ::
  "'s log_transport \<Rightarrow> log_filter list \<Rightarrow> int \<Rightarrow> int \<Rightarrow> int \<Rightarrow> (scan_error + int \<times> int \<times> int \<times> seen_logs) \<Rightarrow> 's rpc_client \<Rightarrow> bool" where
  "fetch_ended tr flts cursor finish width r c' \<longleftrightarrow>
     (case r of
        Inr (e, w, k, seen) \<Rightarrow> cursor \<le> e \<and> e \<le> finish \<and> (w = width \<or> 1 \<le> w) \<and>
          (\<exists>c0. fetch_filters tr cursor e flts [] c0 = (Inr seen, c'))
      | Inl (ChunkFetchFailed a b e) \<Rightarrow> a = cursor \<and> cursor \<le> b \<and> b \<le> finish
      | Inl (Raised e) \<Rightarrow> e = ExternalExecutionForbidden \<or> e = RpcBudgetExhausted)"

lemma fetch_ended_mono:
  "fetch_ended tr flts cursor finish' width' r c' \<Longrightarrow> finish' \<le> finish \<Longrightarrow> 1 \<le> width' \<Longrightarrow> fetch_ended tr flts cursor finish width r c'"
  by (auto simp: fetch_ended_def split: sum.splits scan_error.splits)

lemma fetch_chunk_ends:
  assumes "1 \<le> min_chunk" and "cursor \<le> finish" and "finish \<le> to_block"
  shows "\<exists>r c'. fetch_chunk tr flts cursor to_block min_chunk max_retries width finish retries c = Some (r, c') \<and>
    budget_kept c c' \<and> fetch_ended tr flts cursor finish width r c'"
  using assms(2,3)
proof (induction "(nat (finish - cursor), nat (max_retries - retries))" arbitrary: width finish retries c
    rule: wf_induct_rule [OF wf_lex_prod [OF wf_less wf_less]])
  case (1 finish retries width c)
  note unfold = fetch_chunk.simps [of tr flts cursor to_block min_chunk max_retries width finish retries c]
  obtain r c' where r: "fetch_filters tr cursor finish flts [] c = (r, c')" by fastforce
  have kept: "budget_kept c c'" using fetch_filters_budget [of c tr cursor finish flts "[]"] by (simp add: r)
  show ?case
  proof (cases r)
    case (Inr seen)
    then have "fetch_ended tr flts cursor finish width (Inr (finish, width, retries, seen)) c'"
      using 1(2) r by (auto simp: fetch_ended_def)
    then show ?thesis using Inr r kept by (simp add: unfold)
  next
    case (Inl e)
    let ?span = "finish - cursor + 1"
    consider "e = ExternalExecutionForbidden \<or> e = RpcBudgetExhausted"
      | "e \<noteq> ExternalExecutionForbidden" "e \<noteq> RpcBudgetExhausted" "is_range_error e" "?span > min_chunk"
      | "e \<noteq> ExternalExecutionForbidden" "e \<noteq> RpcBudgetExhausted" "\<not> (is_range_error e \<and> ?span > min_chunk)" "retries + 1 > max_retries"
      | "e \<noteq> ExternalExecutionForbidden" "e \<noteq> RpcBudgetExhausted" "\<not> (is_range_error e \<and> ?span > min_chunk)" "retries + 1 \<le> max_retries"
      by linarith
    then show ?thesis
    proof cases
      case 1
      then show ?thesis using kept by (simp add: unfold r Inl fetch_ended_def)
    next
      case 2
      let ?width = "max min_chunk (?span div 2)" and ?finish = "min to_block (cursor + max min_chunk (?span div 2) - 1)"
      have half: "?span div 2 < ?span" using 2(4) assms(1) by simp
      have bounds: "cursor \<le> ?finish" "?finish < finish" "?finish \<le> to_block" "1 \<le> ?width"
        using half 2(4) assms(1) 1(2,3) by auto
      have "((nat (?finish - cursor), nat (max_retries - retries)), (nat (finish - cursor), nat (max_retries - retries)))
          \<in> {(x, y). x < y} <*lex*> {(x, y). x < y}"
        using bounds(1,2) by auto
      from "1.hyps" [OF this bounds(1,3), of ?width c']
      obtain r2 c2 where IH: "fetch_chunk tr flts cursor to_block min_chunk max_retries ?width ?finish retries c' = Some (r2, c2)"
          "budget_kept c' c2" "fetch_ended tr flts cursor ?finish ?width r2 c2"
        by blast
      have "fetch_ended tr flts cursor finish width r2 c2"
        using fetch_ended_mono [OF IH(3) _ bounds(4)] bounds(2) by (meson less_imp_le)
      moreover have "fetch_chunk tr flts cursor to_block min_chunk max_retries width finish retries c = Some (r2, c2)"
        using 2 IH(1) by (simp add: unfold r Inl Let_def)
      ultimately show ?thesis using budget_kept_trans [OF kept IH(2)] by blast
    next
      case 3
      then have "fetch_chunk tr flts cursor to_block min_chunk max_retries width finish retries c =
          Some (Inl (ChunkFetchFailed cursor finish e), c')" by (auto simp: unfold r Inl Let_def)
      then show ?thesis using 1(2) kept by (simp add: fetch_ended_def)
    next
      case 4
      have "((nat (finish - cursor), nat (max_retries - (retries + 1))), (nat (finish - cursor), nat (max_retries - retries)))
          \<in> {(x, y). x < y} <*lex*> {(x, y). x < y}"
        using 4(4) by auto
      from "1.hyps" [OF this 1(2,3), of width c']
      obtain r2 c2 where IH: "fetch_chunk tr flts cursor to_block min_chunk max_retries width finish (retries + 1) c' = Some (r2, c2)"
          "budget_kept c' c2" "fetch_ended tr flts cursor finish width r2 c2"
        by blast
      moreover have "fetch_chunk tr flts cursor to_block min_chunk max_retries width finish retries c = Some (r2, c2)"
        using 4 IH(1) by (auto simp: unfold r Inl Let_def)
      ultimately show ?thesis using budget_kept_trans [OF kept IH(2)] by blast
    qed
  qed
qed

text \<open>The chunks of a scan tile what was scanned: from a block, in order, without gap or overlap.\<close>

fun tiles :: "int \<Rightarrow> log_chunk list \<Rightarrow> int \<Rightarrow> bool" where
  "tiles from_block [] next_block \<longleftrightarrow> from_block = next_block"
| "tiles from_block (ch # chs) next_block \<longleftrightarrow>
     ch_from_block ch = from_block \<and> from_block \<le> ch_to_block ch \<and> tiles (ch_to_block ch + 1) chs next_block"

lemma tiles_append: "tiles a (xs @ ys) b \<longleftrightarrow> (\<exists>k. tiles a xs k \<and> tiles k ys b)"
  by (induction xs arbitrary: a) auto

definition chunk_fetched :: "'s log_transport \<Rightarrow> log_filter list \<Rightarrow> log_chunk \<Rightarrow> bool" where
  "chunk_fetched tr flts ch \<longleftrightarrow>
     (\<exists>c c' seen. fetch_filters tr (ch_from_block ch) (ch_to_block ch) flts [] c = (Inr seen, c') \<and> ch_logs ch = map snd seen)"

text \<open>How a scan ended, whatever the consumer does; \<open>I\<close> is an invariant of the consumer's state.\<close>

definition scan_ended ::
  "'s log_transport \<Rightarrow> log_filter list \<Rightarrow> (log_chunk list \<Rightarrow> 'd \<Rightarrow> bool) \<Rightarrow> int \<Rightarrow> int
     \<Rightarrow> 'e scan_end \<times> log_chunk list \<times> 's rpc_client \<times> 'd \<Rightarrow> bool" where
  "scan_ended tr flts I from_block to_block r \<longleftrightarrow> (case r of (outcome, chs, c, d) \<Rightarrow>
     I chs d \<and> list_all (chunk_fetched tr flts) chs \<and>
     (\<exists>k. tiles from_block chs k \<and> k \<le> to_block + 1 \<and> (outcome = ScanDone \<longleftrightarrow> k = to_block + 1) \<and>
       (case outcome of
          ScanFailed (ChunkFetchFailed a b e) \<Rightarrow> a = k \<and> k \<le> b \<and> b \<le> to_block
        | ScanFailed (Raised e) \<Rightarrow> e = ExternalExecutionForbidden \<or> e = RpcBudgetExhausted
        | _ \<Rightarrow> True)))"

lemma scan_loop_ends:
  assumes "1 \<le> min_chunk" and "cursor \<le> to_block + 1" and "1 \<le> width" and "I consumed d"
    and step: "\<And>chs ch c d c' d'. I chs d \<Longrightarrow> tiles from_block chs (ch_from_block ch) \<Longrightarrow> ch_from_block ch \<le> ch_to_block ch \<Longrightarrow>
        ch_to_block ch \<le> to_block \<Longrightarrow> chunk_fetched tr flts ch \<Longrightarrow> consume ch c d = (Inr d', c') \<Longrightarrow> I (chs @ [ch]) d'"
    and "tiles from_block consumed cursor" and "list_all (chunk_fetched tr flts) consumed"
  shows "\<exists>r. scan_loop tr consume flts to_block min_chunk max_retries cursor width consumed c d = Some r \<and>
    scan_ended tr flts I from_block to_block r"
  using assms(2,3,4,6,7)
proof (induction "nat (to_block + 1 - cursor)" arbitrary: cursor width consumed c d rule: less_induct)
  case less
  note unfold = scan_loop.simps [of tr consume flts to_block min_chunk max_retries cursor width consumed c d]
  show ?case
  proof (cases "cursor > to_block")
    case True
    then have "cursor = to_block + 1" using less.prems(1) by simp
    then have "scan_ended tr flts I from_block to_block (ScanDone, consumed, c, d)"
      using less.prems(3,4,5) by (simp add: scan_ended_def)
    then show ?thesis using True by (simp add: unfold)
  next
    case False
    let ?finish = "min to_block (cursor + width - 1)"
    have fin: "cursor \<le> ?finish" "?finish \<le> to_block" using False less.prems(2) by auto
    from fetch_chunk_ends [OF assms(1) fin, of tr flts max_retries width 0 c]
    obtain r c1 where r: "fetch_chunk tr flts cursor to_block min_chunk max_retries width ?finish 0 c = Some (r, c1)"
        "fetch_ended tr flts cursor ?finish width r c1"
      by blast
    show ?thesis
    proof (cases r)
      case (Inl e)
      have "case e of ChunkFetchFailed a b e' \<Rightarrow> a = cursor \<and> cursor \<le> b \<and> b \<le> ?finish
           | Raised e' \<Rightarrow> e' = ExternalExecutionForbidden \<or> e' = RpcBudgetExhausted"
        using r(2) Inl by (simp add: fetch_ended_def)
      then have "scan_ended tr flts I from_block to_block (ScanFailed e, consumed, c1, d)"
        using less.prems(3,4,5) False
        by (auto simp: scan_ended_def split: scan_error.splits intro!: exI [of _ cursor])
      then show ?thesis using Inl False by (simp add: unfold r(1))
    next
      case (Inr t)
      obtain e w k seen where t: "t = (e, w, k, seen)" by (metis prod_cases4)
      let ?ch = "\<lparr>ch_from_block = cursor, ch_to_block = e, ch_logs = map snd seen, ch_chunk_size = w, ch_retries = k\<rparr>"
      have e: "cursor \<le> e" "e \<le> to_block" "1 \<le> w" and fetched: "chunk_fetched tr flts ?ch"
        using r(2) Inr t less.prems(2) by (auto simp: chunk_fetched_def fetch_ended_def)
      obtain r2 c2 where r2: "consume ?ch c1 d = (r2, c2)" by fastforce
      show ?thesis
      proof (cases r2)
        case (Inl x)
        have "scan_ended tr flts I from_block to_block (ConsumerRaised x, consumed, c2, d)"
          using less.prems(3,4,5) False by (auto simp: scan_ended_def intro!: exI [of _ cursor])
        then show ?thesis using False Inl by (simp add: unfold r(1) Inr t r2)
      next
        case (Inr d2)
        have "I (consumed @ [?ch]) d2"
          using step [of consumed d ?ch c1 d2 c2] less.prems(3,4) e fetched r2 Inr by simp
        moreover have "tiles from_block (consumed @ [?ch]) (e + 1)" using less.prems(4) e by (auto simp: tiles_append)
        moreover have "list_all (chunk_fetched tr flts) (consumed @ [?ch])" using less.prems(5) fetched by simp
        ultimately have "\<exists>r. scan_loop tr consume flts to_block min_chunk max_retries (e + 1) w (consumed @ [?ch]) c2 d2 = Some r \<and>
            scan_ended tr flts I from_block to_block r"
          using e by (intro less.hyps) auto
        then show ?thesis using False Inr by (simp add: unfold r(1) \<open>r = Inr t\<close> t r2)
      qed
    qed
  qed
qed

lemma iter_log_chunks_ends:
  assumes "1 \<le> min_chunk" and "I [] d" and "flts \<noteq> []" and "from_block \<le> to_block"
    and "\<And>chs ch c d c' d'. I chs d \<Longrightarrow> tiles from_block chs (ch_from_block ch) \<Longrightarrow> ch_from_block ch \<le> ch_to_block ch \<Longrightarrow>
        ch_to_block ch \<le> to_block \<Longrightarrow> chunk_fetched tr flts ch \<Longrightarrow> consume ch c d = (Inr d', c') \<Longrightarrow> I (chs @ [ch]) d'"
  shows "\<exists>r. iter_log_chunks tr consume flts from_block to_block chunk_size min_chunk max_retries c d = Some r \<and>
    scan_ended tr flts I from_block to_block r"
proof -
  have "\<exists>r. scan_loop tr consume flts to_block min_chunk max_retries from_block (max min_chunk chunk_size) [] c d = Some r \<and>
      scan_ended tr flts I from_block to_block r"
    using assms(1,2,4) by (intro scan_loop_ends [where I = I]) (auto intro: assms(5))
  then show ?thesis using assms(3,4) by (simp add: iter_log_chunks_def)
qed

section \<open>Nothing is skipped\<close>

text \<open>
  A truthful node: when it answers \<open>eth_getLogs\<close> at all, the entries that are objects are the logs
  of the chain in the range that match the filter. It may fail as often as it likes.
\<close>

definition answered :: "logs_answer \<Rightarrow> raw_log list" where
  "answered answer = (case answer of None \<Rightarrow> [] | Some entries \<Rightarrow> List.map_filter id entries)"

definition truthful :: "'s log_transport \<Rightarrow> raw_log list \<Rightarrow> (raw_log \<Rightarrow> int) \<Rightarrow> (log_filter \<Rightarrow> raw_log \<Rightarrow> bool) \<Rightarrow> bool" where
  "truthful tr chain block_of selects \<longleftrightarrow>
     (\<forall>s flt a b answer s'. tr s ''eth_getLogs'' (flt, a, b) = (Inr answer, s') \<longrightarrow>
        answered answer = filter (\<lambda>lg. a \<le> block_of lg \<and> block_of lg \<le> b \<and> selects flt lg) chain)"

definition watched_logs ::
  "raw_log list \<Rightarrow> (raw_log \<Rightarrow> int) \<Rightarrow> (log_filter \<Rightarrow> raw_log \<Rightarrow> bool) \<Rightarrow> log_filter list \<Rightarrow> int \<Rightarrow> int \<Rightarrow> raw_log set" where
  "watched_logs chain block_of selects flts a b =
     {lg \<in> set chain. a \<le> block_of lg \<and> block_of lg \<le> b \<and> (\<exists>flt \<in> set flts. selects flt lg) \<and> lg_removed lg \<noteq> PBool True}"

text \<open>What is noted: the keys of the logs that are not removed, each with one of those logs.\<close>

definition noted :: "raw_log set \<Rightarrow> seen_logs \<Rightarrow> seen_logs \<Rightarrow> bool" where
  "noted logs seen seen' \<longleftrightarrow> fst ` set seen' = fst ` set seen \<union> log_key ` logs \<and>
     (\<forall>p \<in> set seen'. p \<in> set seen \<or> (\<exists>lg \<in> logs. p = (log_key lg, lg)))"

lemma noted_refl: "noted {} seen seen"
  by (simp add: noted_def)

lemma noted_trans: "noted A seen seen' \<Longrightarrow> noted B seen' seen'' \<Longrightarrow> noted (A \<union> B) seen seen''"
  unfolding noted_def by (simp add: image_Un Un_assoc) blast

lemma update_noted: "noted {lg} seen (AList.update (log_key lg) lg seen)"
proof -
  have "set (AList.update (log_key lg) lg seen) \<subseteq> insert (log_key lg, lg) (set seen)"
    by (induction seen) auto
  moreover have "fst ` set (AList.update (log_key lg) lg seen) = insert (log_key lg) (fst ` set seen)"
    by (induction seen) auto
  ultimately show ?thesis unfolding noted_def by (intro conjI ballI) (simp, blast)
qed

lemma note_log_noted: "noted {lg. entry = Some lg \<and> lg_removed lg \<noteq> PBool True} seen (note_log entry seen)"
proof (cases entry)
  case (Some lg)
  have "{lg'. entry = Some lg' \<and> lg_removed lg' \<noteq> PBool True} = (if lg_removed lg = PBool True then {} else {lg})"
    using Some by auto
  then show ?thesis using noted_refl update_noted by (simp only:) (simp add: Some note_log_def)
qed (simp add: noted_def note_log_def)

lemma note_answer_noted: "noted {lg \<in> set (answered answer). lg_removed lg \<noteq> PBool True} seen (note_answer answer seen)"
proof (cases answer)
  case (Some entries)
  have "noted {lg. Some lg \<in> set entries \<and> lg_removed lg \<noteq> PBool True} seen (fold note_log entries seen)"
  proof (induction entries arbitrary: seen)
    case (Cons entry entries)
    have "{lg. Some lg \<in> set (entry # entries) \<and> lg_removed lg \<noteq> PBool True} =
        {lg. entry = Some lg \<and> lg_removed lg \<noteq> PBool True} \<union> {lg. Some lg \<in> set entries \<and> lg_removed lg \<noteq> PBool True}"
      by auto
    then show ?case using noted_trans [OF note_log_noted Cons [of "note_log entry seen"]] by simp
  qed (simp add: noted_def)
  moreover have "set (List.map_filter id entries) = {lg. Some lg \<in> set entries}"
    by (force simp: List.map_filter_def)
  ultimately show ?thesis by (simp add: Some note_answer_def answered_def)
qed (simp add: noted_def note_answer_def answered_def)

lemma rpc_call_answer: "rpc_call tr m p c = (Inr answer, c') \<Longrightarrow> \<exists>s s'. tr s m p = (Inr answer, s')"
  by (auto simp: rpc_call_def inner_call_def split_beta split: if_splits option.splits) (metis prod.collapse)+

lemma fetch_filters_noted:
  assumes "truthful tr chain block_of selects"
  shows "fetch_filters tr a b flts seen c = (Inr seen', c') \<Longrightarrow>
    noted (watched_logs chain block_of selects flts a b) seen seen'"
proof (induction flts arbitrary: seen c)
  case Nil
  then show ?case by (simp add: watched_logs_def noted_def)
next
  case (Cons flt flts)
  obtain answer c1 where call: "rpc_call tr ''eth_getLogs'' (flt, a, b) c = (Inr answer, c1)"
      and rest: "fetch_filters tr a b flts (note_answer answer seen) c1 = (Inr seen', c')"
    using Cons.prems by (auto split: prod.splits sum.splits)
  have "answered answer = filter (\<lambda>lg. a \<le> block_of lg \<and> block_of lg \<le> b \<and> selects flt lg) chain"
    using rpc_call_answer [OF call] assms by (simp add: truthful_def) blast
  then have "{lg \<in> set (answered answer). lg_removed lg \<noteq> PBool True} \<union> watched_logs chain block_of selects flts a b =
      watched_logs chain block_of selects (flt # flts) a b"
    by (auto simp: watched_logs_def)
  with noted_trans [OF note_answer_noted Cons.IH [OF rest]] show ?case by simp
qed

lemma chunk_fetched_watched:
  assumes "truthful tr chain block_of selects" and "chunk_fetched tr flts ch"
  defines "ws \<equiv> watched_logs chain block_of selects flts (ch_from_block ch) (ch_to_block ch)"
  shows "set (ch_logs ch) \<subseteq> ws \<and> log_key ` set (ch_logs ch) = log_key ` ws"
proof -
  obtain c c' seen where f: "fetch_filters tr (ch_from_block ch) (ch_to_block ch) flts [] c = (Inr seen, c')"
      "ch_logs ch = map snd seen" using assms(2) by (auto simp: chunk_fetched_def)
  from fetch_filters_noted [OF assms(1) f(1)] have n: "noted ws [] seen" by (simp add: ws_def)
  then have val: "\<exists>lg \<in> ws. p = (log_key lg, lg)" if "p \<in> set seen" for p using that by (auto simp: noted_def)
  then have "set (ch_logs ch) \<subseteq> ws" by (fastforce simp: f(2))
  moreover have "log_key ` snd ` set seen = fst ` set seen" using val by (force simp: image_image intro!: image_cong)
  ultimately show ?thesis using n by (simp add: noted_def f(2))
qed

lemma watched_logs_split:
  "a \<le> m \<Longrightarrow> m \<le> b \<Longrightarrow> watched_logs chain block_of selects flts a b =
     watched_logs chain block_of selects flts a (m - 1) \<union> watched_logs chain block_of selects flts m b"
  by (auto simp: watched_logs_def)

lemma tiles_watched:
  assumes "truthful tr chain block_of selects"
  shows "list_all (chunk_fetched tr flts) chs \<Longrightarrow> tiles a chs k \<Longrightarrow>
    a \<le> k \<and> set (concat (map ch_logs chs)) \<subseteq> watched_logs chain block_of selects flts a (k - 1) \<and>
    log_key ` set (concat (map ch_logs chs)) = log_key ` watched_logs chain block_of selects flts a (k - 1)"
proof (induction chs arbitrary: a)
  case Nil
  then show ?case by (auto simp: watched_logs_def)
next
  case (Cons ch chs)
  let ?m = "ch_to_block ch + 1"
  have IH: "?m \<le> k \<and> set (concat (map ch_logs chs)) \<subseteq> watched_logs chain block_of selects flts ?m (k - 1) \<and>
      log_key ` set (concat (map ch_logs chs)) = log_key ` watched_logs chain block_of selects flts ?m (k - 1)"
    using Cons by simp
  have ch: "ch_from_block ch = a" "a \<le> ch_to_block ch" using Cons.prems by auto
  have "watched_logs chain block_of selects flts a (k - 1) =
      watched_logs chain block_of selects flts a (ch_to_block ch) \<union> watched_logs chain block_of selects flts ?m (k - 1)"
    using IH ch by (auto simp: watched_logs_def)
  with chunk_fetched_watched [OF assms, of flts ch] Cons.prems(1) IH ch show ?case
    by (auto simp: image_Un)
qed

text \<open>Each key once: within a chunk by the dictionary, across chunks because a key names a log of one block.\<close>

lemma note_answer_distinct: "distinct (map fst seen) \<Longrightarrow> distinct (map fst (note_answer answer seen))"
proof -
  have "distinct (map fst seen) \<Longrightarrow> distinct (map fst (fold note_log entries seen))" for entries seen
    by (induction entries arbitrary: seen) (simp_all add: note_log_def distinct_update split: option.split)
  then show "distinct (map fst seen) \<Longrightarrow> distinct (map fst (note_answer answer seen))"
    by (simp add: note_answer_def split: option.split)
qed

lemma fetch_filters_distinct:
  "fetch_filters tr a b flts seen c = (Inr seen', c') \<Longrightarrow> distinct (map fst seen) \<Longrightarrow> distinct (map fst seen')"
  by (induction flts arbitrary: seen c) (auto split: prod.splits sum.splits intro: note_answer_distinct)

definition one_block_per_key :: "raw_log list \<Rightarrow> (raw_log \<Rightarrow> int) \<Rightarrow> bool" where
  "one_block_per_key chain block_of \<longleftrightarrow>
     (\<forall>lg \<in> set chain. \<forall>lg' \<in> set chain. log_key lg = log_key lg' \<longrightarrow> block_of lg = block_of lg')"

lemma chunk_fetched_distinct:
  assumes "truthful tr chain block_of selects" and "chunk_fetched tr flts ch"
  shows "distinct (map log_key (ch_logs ch))"
proof -
  obtain c c' seen where f: "fetch_filters tr (ch_from_block ch) (ch_to_block ch) flts [] c = (Inr seen, c')"
      "ch_logs ch = map snd seen" using assms(2) by (auto simp: chunk_fetched_def)
  have "fst p = log_key (snd p)" if "p \<in> set seen" for p
    using fetch_filters_noted [OF assms(1) f(1)] that by (auto simp: noted_def)
  then have "map log_key (ch_logs ch) = map fst seen" by (simp add: f(2))
  with fetch_filters_distinct [OF f(1)] show ?thesis by simp
qed

lemma tiles_distinct:
  assumes "truthful tr chain block_of selects" and "one_block_per_key chain block_of"
  shows "list_all (chunk_fetched tr flts) chs \<Longrightarrow> tiles a chs k \<Longrightarrow> distinct (map log_key (concat (map ch_logs chs)))"
proof (induction chs arbitrary: a)
  case (Cons ch chs)
  let ?m = "ch_to_block ch + 1"
  have ch: "ch_from_block ch = a" "chunk_fetched tr flts ch" and rest: "list_all (chunk_fetched tr flts) chs" "tiles ?m chs k"
    using Cons.prems by auto
  have low: "lg \<in> set chain \<and> block_of lg < ?m" if "lg \<in> set (ch_logs ch)" for lg
    using chunk_fetched_watched [OF assms(1) ch(2)] that by (auto simp: watched_logs_def)
  have high: "lg \<in> set chain \<and> ?m \<le> block_of lg" if "lg \<in> set (concat (map ch_logs chs))" for lg
    using tiles_watched [OF assms(1) rest] that by (auto simp: watched_logs_def)
  have "log_key ` set (ch_logs ch) \<inter> log_key ` set (concat (map ch_logs chs)) = {}"
  proof (rule equals0I)
    fix key assume "key \<in> log_key ` set (ch_logs ch) \<inter> log_key ` set (concat (map ch_logs chs))"
    then obtain x y where xy: "x \<in> set (ch_logs ch)" "y \<in> set (concat (map ch_logs chs))" "log_key x = log_key y" by force
    then have "block_of x = block_of y" using low high assms(2) unfolding one_block_per_key_def by blast
    then show False using low [OF xy(1)] high [OF xy(2)] by simp
  qed
  then show ?case using chunk_fetched_distinct [OF assms(1) ch(2)] Cons.IH [OF rest] by simp
qed simp

section \<open>The calls that leave the process\<close>

text \<open>A transport that keeps a record of the methods it is asked for, and a client of it used for any requests.\<close>

definition recorded :: "('s, 'p, 'r) transport \<Rightarrow> ('s \<times> string list, 'p, 'r) transport" where
  "recorded tr s method p = (case tr (fst s) method p of (r, s') \<Rightarrow> (r, (s', snd s @ [method])))"

definition new_client :: "int \<Rightarrow> 's \<Rightarrow> 's rpc_client" where
  "new_client limit s = \<lparr>cl_budget = Some \<lparr>bg_limit = limit, bg_used = 0\<rparr>, cl_calls = 0, cl_inner = s\<rparr>"

fun use_client :: "('s, 'p, 'r) transport \<Rightarrow> (string \<times> 'p) list \<Rightarrow> 's rpc_client \<Rightarrow> 's rpc_client" where
  "use_client tr [] c = c"
| "use_client tr ((method, p) # requests) c = use_client tr requests (snd (rpc_call tr method p c))"

definition within_gateway :: "int \<Rightarrow> ('s \<times> string list) rpc_client \<Rightarrow> bool" where
  "within_gateway limit c \<longleftrightarrow> (\<exists>b. cl_budget c = Some b \<and> bg_limit b = limit \<and> bg_used b \<le> limit \<and>
     int (length (snd (cl_inner c))) = bg_used b) \<and> set (snd (cl_inner c)) \<subseteq> set READ_ONLY_RPC_METHODS"

lemma rpc_call_within: "within_gateway limit c \<Longrightarrow> within_gateway limit (snd (rpc_call (recorded tr) m p c))"
  by (auto simp: within_gateway_def rpc_call_def inner_call_def recorded_def spend_def split_beta split: option.splits)

lemma use_client_within: "within_gateway limit c \<Longrightarrow> within_gateway limit (use_client (recorded tr) requests c)"
proof (induction requests arbitrary: c)
  case (Cons request requests)
  then show ?case by (cases request) (simp add: rpc_call_within)
qed simp

section \<open>Properties\<close>

text \<open>
  C25. Whatever is asked of the gateway, only the methods of the closed read-only list ever reach the
  provider, and never more calls than the budget of the cycle. A refused call changes nothing.
\<close>

theorem gateway_is_read_only:
  assumes "0 \<le> limit"
  shows "set (snd (cl_inner (use_client (recorded tr) requests (new_client limit (s, []))))) \<subseteq> set READ_ONLY_RPC_METHODS \<and>
    int (length (snd (cl_inner (use_client (recorded tr) requests (new_client limit (s, [])))))) \<le> limit \<and>
    (m \<notin> set READ_ONLY_RPC_METHODS \<longrightarrow> rpc_call tr m p c = (Inl ExternalExecutionForbidden, c))"
proof -
  have "within_gateway limit (new_client limit (s, []))" using assms by (simp add: within_gateway_def new_client_def)
  from use_client_within [OF this, of tr requests] show ?thesis by (auto simp: within_gateway_def rpc_call_def)
qed

text \<open>
  C24. A scan with a least chunk of one block or more ends, whatever the provider and the code that
  uses its chunks do. Its chunks start at the first block and follow one another without gap or
  overlap; they reach the last block exactly when the scan is done; and a range that kept failing is
  reported as starting at the next block, so that the next attempt resumes there.
\<close>

theorem scan_always_ends:
  assumes "1 \<le> min_chunk"
  shows "\<exists>outcome chs c' d'. iter_log_chunks tr consume flts from_block to_block chunk_size min_chunk max_retries c d =
      Some (outcome, chs, c', d') \<and>
    (flts \<noteq> [] \<and> from_block \<le> to_block \<longrightarrow>
      (\<exists>k. tiles from_block chs k \<and> k \<le> to_block + 1 \<and> (outcome = ScanDone \<longleftrightarrow> k = to_block + 1) \<and>
        (\<forall>a b e. outcome = ScanFailed (ChunkFetchFailed a b e) \<longrightarrow> a = k \<and> k \<le> b \<and> b \<le> to_block)))"
proof (cases "flts = [] \<or> from_block > to_block")
  case True
  then show ?thesis by (auto simp: iter_log_chunks_def)
next
  case False
  then have "\<exists>r. iter_log_chunks tr consume flts from_block to_block chunk_size min_chunk max_retries c d = Some r \<and>
      scan_ended tr flts (\<lambda>_ _. True) from_block to_block r"
    using assms by (intro iter_log_chunks_ends) auto
  then obtain outcome chs c' d' where "iter_log_chunks tr consume flts from_block to_block chunk_size min_chunk max_retries c d =
      Some (outcome, chs, c', d')" "scan_ended tr flts (\<lambda>_ _. True) from_block to_block (outcome, chs, c', d')"
    by (metis prod_cases4)
  then show ?thesis by (fastforce simp: scan_ended_def)
qed

text \<open>
  C23. A scan that is done has skipped nothing and repeated nothing. Let the chain stand still while
  it runs, a log's transaction hash and index name one block, and the node, when it answers, answer
  with the logs of the range that match the filter. Then the chunks tile the range, their logs are
  watched logs of it, every watched log of the range that no reorganisation removed is among them,
  up to its key (transaction hash and log index), and no key comes twice.
\<close>

theorem scan_skips_nothing:
  assumes "1 \<le> min_chunk" and "flts \<noteq> []" and "from_block \<le> to_block" and "truthful tr chain block_of selects"
    and "one_block_per_key chain block_of"
    and "iter_log_chunks tr consume flts from_block to_block chunk_size min_chunk max_retries c d = Some (ScanDone, chs, c', d')"
  shows "tiles from_block chs (to_block + 1) \<and> distinct (map log_key (concat (map ch_logs chs))) \<and>
    set (concat (map ch_logs chs)) \<subseteq> watched_logs chain block_of selects flts from_block to_block \<and>
    log_key ` set (concat (map ch_logs chs)) = log_key ` watched_logs chain block_of selects flts from_block to_block"
proof -
  have "\<exists>r. iter_log_chunks tr consume flts from_block to_block chunk_size min_chunk max_retries c d = Some r \<and>
      scan_ended tr flts (\<lambda>_ _. True) from_block to_block r"
    using assms(1-3) by (intro iter_log_chunks_ends) auto
  then have run: "list_all (chunk_fetched tr flts) chs" "tiles from_block chs (to_block + 1)"
    using assms(6) by (auto simp: scan_ended_def)
  from tiles_watched [OF assms(4) run] tiles_distinct [OF assms(4,5) run] run(2) show ?thesis by simp
qed

section \<open>Concrete runs\<close>

text \<open>A chain with one log, at block 4, behind a provider that refuses ranges of more than two blocks.\<close>

definition demo_log :: raw_log where
  "demo_log = node_log (sample_address (CHR ''1'')) [TOPIC_TRANSFER] [] 4 sample_hash sample_hash 0 0"

definition demo_filter :: log_filter where
  "demo_filter = \<lparr>lf_address = None, lf_topics = []\<rparr>"

definition demo_node :: "unit log_transport" where
  "demo_node s method p = (case p of (flt, a, b) \<Rightarrow>
     if b - a + 1 > 2 then (Inl (RpcRequestTooLarge ''block range is too wide''), s)
     else (Inr (Some (if a \<le> 4 \<and> 4 \<le> b then [Some demo_log] else [])), s))"

definition demo_client :: "unit rpc_client" where
  "demo_client = \<lparr>cl_budget = None, cl_calls = 0, cl_inner = ()\<rparr>"

definition keep_ranges :: "(unit, (int \<times> int) list, unit) consumer" where
  "keep_ranges ch c d = (Inr (d @ [(ch_from_block ch, ch_to_block ch)]), c)"

definition demo_chunk :: "int \<Rightarrow> int \<Rightarrow> raw_log list \<Rightarrow> log_chunk" where
  "demo_chunk a b logs = \<lparr>ch_from_block = a, ch_to_block = b, ch_logs = logs, ch_chunk_size = 2, ch_retries = 0\<rparr>"

lemma demo_fetch:
  "b - a + 1 \<le> 2 \<Longrightarrow> cl_budget c = None \<Longrightarrow> fetch_chunk demo_node [demo_filter] a t 1 3 w b k c =
     Some (Inr (b, w, k, if a \<le> 4 \<and> 4 \<le> b then [(log_key demo_log, demo_log)] else []), c\<lparr>cl_calls := cl_calls c + 1\<rparr>)"
  by (simp add: fetch_chunk.simps [of demo_node] rpc_call_def READ_ONLY_RPC_METHODS_def inner_call_def demo_node_def
      note_answer_def note_log_def demo_log_def node_log_def)

lemma demo_refused:
  "cl_budget c = None \<Longrightarrow> fetch_chunk demo_node [demo_filter] 1 5 1 3 4 4 0 c =
     fetch_chunk demo_node [demo_filter] 1 5 1 3 2 2 0 (c\<lparr>cl_calls := cl_calls c + 1\<rparr>)"
  by (subst fetch_chunk.simps, cases c)
    (simp add: rpc_call_def READ_ONLY_RPC_METHODS_def inner_call_def demo_node_def is_range_error_def)

lemma demo_scan:
  "iter_log_chunks demo_node keep_ranges [demo_filter] 1 5 4 1 3 demo_client [] =
     Some (ScanDone, [demo_chunk 1 2 [], demo_chunk 3 4 [demo_log], demo_chunk 5 5 []], demo_client\<lparr>cl_calls := 4\<rparr>,
           [(1, 2), (3, 4), (5, 5)])"
proof -
  note loop = scan_loop.simps [of demo_node keep_ranges "[demo_filter]" 5 1 3]
  show ?thesis
    by (simp add: iter_log_chunks_def loop [of 1] demo_refused demo_fetch demo_client_def keep_ranges_def)
      (simp add: loop [of 3] loop [of 5] loop [of 6] demo_fetch keep_ranges_def demo_chunk_def)
qed

text \<open>An instance of \<open>gateway_is_read_only\<close>.\<close>

theorem gateway_is_read_only_witness:
  "(let requests = [(''eth_chainId'', ()), (''eth_sendRawTransaction'', ()), (''eth_blockNumber'', ()), (''eth_getLogs'', ())];
        sent = snd (cl_inner (use_client (recorded (\<lambda>s m p. (Inr (0::nat), s))) requests (new_client 2 ((), []))))
    in sent = [''eth_chainId'', ''eth_blockNumber''] \<and> set sent \<subseteq> set READ_ONLY_RPC_METHODS \<and> int (length sent) \<le> 2)"
proof -
  let ?requests = "[(''eth_chainId'', ()), (''eth_sendRawTransaction'', ()), (''eth_blockNumber'', ()), (''eth_getLogs'', ())]"
  have "snd (cl_inner (use_client (recorded (\<lambda>s m p. (Inr (0::nat), s))) ?requests (new_client 2 ((), [])))) =
      [''eth_chainId'', ''eth_blockNumber'']"
    by (simp add: new_client_def rpc_call_def READ_ONLY_RPC_METHODS_def inner_call_def recorded_def spend_def)
  then show ?thesis
    using gateway_is_read_only [of 2 "\<lambda>s m p. (Inr (0::nat), s)" ?requests "()" "[]" "()" demo_client]
    unfolding Let_def by (metis zero_le_numeral)
qed

text \<open>An instance of \<open>scan_always_ends\<close>.\<close>

theorem scan_always_ends_witness:
  "\<exists>outcome chs c' d'. iter_log_chunks demo_node keep_ranges [demo_filter] 1 5 4 1 3 demo_client [] = Some (outcome, chs, c', d') \<and>
     (\<exists>k. tiles 1 chs k \<and> (outcome = ScanDone \<longleftrightarrow> k = 6))"
  using scan_always_ends [of 1 demo_node keep_ranges "[demo_filter]" 1 5 4 3 demo_client "[]"] by simp blast

text \<open>An instance of \<open>scan_skips_nothing\<close>.\<close>

theorem scan_skips_nothing_witness:
  "watched_logs [demo_log] (\<lambda>_. 4) (\<lambda>_ _. True) [demo_filter] 1 5 = {demo_log} \<and>
   log_key ` {demo_log} = log_key ` set (concat (map ch_logs [demo_chunk 1 2 [], demo_chunk 3 4 [demo_log], demo_chunk 5 5 []]))"
proof -
  have "truthful demo_node [demo_log] (\<lambda>_. 4) (\<lambda>_ _. True)"
    by (auto simp: truthful_def demo_node_def answered_def List.map_filter_def split: if_splits)
  moreover have "one_block_per_key [demo_log] (\<lambda>_. 4)" by (simp add: one_block_per_key_def)
  ultimately have run: "log_key ` set (concat (map ch_logs [demo_chunk 1 2 [], demo_chunk 3 4 [demo_log], demo_chunk 5 5 []]))
      = log_key ` watched_logs [demo_log] (\<lambda>_. 4) (\<lambda>_ _. True) [demo_filter] 1 5"
    using scan_skips_nothing [OF _ _ _ _ _ demo_scan] by simp
  have "watched_logs [demo_log] (\<lambda>_. 4) (\<lambda>_ _. True) [demo_filter] 1 5 = {demo_log}"
    by (auto simp: watched_logs_def demo_log_def node_log_def)
  with run show ?thesis by simp
qed

end
