(* ===== verification/Block_Ranges.thy ===== *)
theory Block_Ranges
  imports Main "HOL-Library.Product_Lexorder"
begin

text \<open>
  Block ranges, \<open>merge_ranges\<close> and \<open>subtract_ranges\<close> of
  \<open>services/api/app/domains/external_watchlist/backfill.py\<close>: the history scan reads the window it
  was asked for less what an earlier scan of the target has read. A range is a pair of inclusive
  bounds; the bounds of a stored range may be null.
\<close>

section \<open>Merging\<close>

type_synonym block_range = "int \<times> int"

fun usable_range :: "int option \<times> int option \<Rightarrow> block_range list" where
  "usable_range (Some a, Some b) = (if a \<le> b then [(a, b)] else [])"
| "usable_range _ = []"

fun merge_loop :: "block_range list \<Rightarrow> block_range list \<Rightarrow> block_range list" where
  "merge_loop merged [] = merged"
| "merge_loop merged ((start, finish) # ranges) =
     (if merged \<noteq> [] \<and> start \<le> snd (last merged) + 1
      then merge_loop (butlast merged @ [(fst (last merged), max (snd (last merged)) finish)]) ranges
      else merge_loop (merged @ [(start, finish)]) ranges)"

definition merge_ranges :: "(int option \<times> int option) list \<Rightarrow> block_range list" where
  "merge_ranges ranges = merge_loop [] (sort (concat (map usable_range ranges)))"

section \<open>Subtracting\<close>

text \<open>The loop over the merged ranges, to its end or to a \<open>break\<close>: the cursor and what remains.\<close>

fun subtract_loop :: "int \<Rightarrow> int \<Rightarrow> block_range list \<Rightarrow> block_range list \<Rightarrow> int \<times> block_range list" where
  "subtract_loop finish cursor remaining [] = (cursor, remaining)"
| "subtract_loop finish cursor remaining ((c_start, c_end) # covered) =
     (if c_end < cursor then subtract_loop finish cursor remaining covered
      else if c_start > finish then (cursor, remaining)
      else let remaining' = (if c_start > cursor then remaining @ [(cursor, min finish (c_start - 1))] else remaining);
               cursor' = max cursor (c_end + 1)
           in if cursor' > finish then (cursor', remaining') else subtract_loop finish cursor' remaining' covered)"

definition subtract_ranges :: "block_range \<Rightarrow> (int option \<times> int option) list \<Rightarrow> block_range list" where
  "subtract_ranges window covered =
     (if fst window > snd window then []
      else let (cursor, remaining) = subtract_loop (snd window) (fst window) [] (merge_ranges covered)
           in if cursor \<le> snd window then remaining @ [(cursor, snd window)] else remaining)"

section \<open>Ranges as sets of blocks\<close>

definition blocks :: "block_range list \<Rightarrow> int set" where
  "blocks rs = (\<Union>r \<in> set rs. {fst r..snd r})"

definition block_count :: "block_range list \<Rightarrow> int" where
  "block_count rs = sum_list (map (\<lambda>r. snd r - fst r + 1) rs)"

text \<open>Non-empty, in order and disjoint; separated when no two touch.\<close>

definition ordered_ranges :: "block_range list \<Rightarrow> bool" where
  "ordered_ranges rs \<longleftrightarrow> list_all (\<lambda>r. fst r \<le> snd r) rs \<and> sorted_wrt (\<lambda>r r'. snd r < fst r') rs"

definition separated_ranges :: "block_range list \<Rightarrow> bool" where
  "separated_ranges rs \<longleftrightarrow> list_all (\<lambda>r. fst r \<le> snd r) rs \<and> sorted_wrt (\<lambda>r r'. snd r + 1 < fst r') rs"

lemma separated_ordered: "separated_ranges rs \<Longrightarrow> ordered_ranges rs"
  unfolding separated_ranges_def ordered_ranges_def by (auto elim: sorted_wrt_mono_rel [rotated])

lemma blocks_simps [simp]: "blocks [] = {}" "blocks (r # rs) = {fst r..snd r} \<union> blocks rs"
    "blocks (rs @ rs') = blocks rs \<union> blocks rs'"
  by (auto simp: blocks_def)

lemma blocks_sort [simp]: "blocks (sort rs) = blocks rs"
  by (simp add: blocks_def)

lemma ordered_simps [simp]: "ordered_ranges []"
    "ordered_ranges (r # rs) \<longleftrightarrow> fst r \<le> snd r \<and> (\<forall>r' \<in> set rs. snd r < fst r') \<and> ordered_ranges rs"
  by (auto simp: ordered_ranges_def)

lemma ordered_snoc:
  "ordered_ranges (rs @ [r]) \<longleftrightarrow> ordered_ranges rs \<and> fst r \<le> snd r \<and> (\<forall>r' \<in> set rs. snd r' < fst r)"
  by (auto simp: ordered_ranges_def sorted_wrt_append)

lemma separated_snoc:
  "separated_ranges (rs @ [r]) \<longleftrightarrow> separated_ranges rs \<and> fst r \<le> snd r \<and> (\<forall>r' \<in> set rs. snd r' + 1 < fst r)"
  by (auto simp: separated_ranges_def sorted_wrt_append)

lemma blocks_above: "ordered_ranges (r # rs) \<Longrightarrow> b \<in> blocks rs \<Longrightarrow> snd r < b"
  by (fastforce simp: blocks_def)

text \<open>Counting the blocks of disjoint ranges.\<close>

lemma block_count_card: "ordered_ranges rs \<Longrightarrow> block_count rs = int (card (blocks rs)) \<and> finite (blocks rs)"
proof (induction rs)
  case (Cons r rs)
  then have "{fst r..snd r} \<inter> blocks rs = {}" using blocks_above [of r rs] by fastforce
  with Cons show ?case by (simp add: block_count_def card_Un_disjoint)
qed (simp add: block_count_def)

section \<open>Merging is union\<close>

lemma merge_loop_spec:
  assumes "separated_ranges merged" and "sorted rs" and "list_all (\<lambda>r. fst r \<le> snd r) rs"
    and "merged \<noteq> [] \<Longrightarrow> rs \<noteq> [] \<Longrightarrow> fst (last merged) \<le> fst (hd rs)"
  shows "separated_ranges (merge_loop merged rs) \<and> blocks (merge_loop merged rs) = blocks merged \<union> blocks rs"
  using assms
proof (induction merged rs rule: merge_loop.induct)
  case (2 merged start finish rs)
  have tail: "sorted rs" "list_all (\<lambda>r. fst r \<le> snd r) rs" "start \<le> finish" using 2(4,5) by auto
  have nxt: "rs \<noteq> [] \<Longrightarrow> start \<le> fst (hd rs)" using 2(4) by (cases rs) auto
  show ?case
  proof (cases "merged \<noteq> [] \<and> start \<le> snd (last merged) + 1")
    case True
    then obtain init a b where m: "merged = init @ [(a, b)]" by (metis append_butlast_last_id surj_pair)
    let ?m = "init @ [(a, max b finish)]"
    have "a \<le> start" using 2(6) by (simp add: m)
    have "separated_ranges ?m" using 2(3) by (auto simp: m separated_snoc)
    moreover have "rs \<noteq> [] \<Longrightarrow> fst (last ?m) \<le> fst (hd rs)" using nxt \<open>a \<le> start\<close> by force
    ultimately have "separated_ranges (merge_loop ?m rs) \<and> blocks (merge_loop ?m rs) = blocks ?m \<union> blocks rs"
      using 2(1) True tail by (simp add: m)
    moreover have "{a..max b finish} = {a..b} \<union> {start..finish}"
      using True \<open>a \<le> start\<close> tail(3) by (auto simp: m)
    ultimately show ?thesis using True by (simp add: m Un_assoc)
  next
    case False
    have "\<forall>r \<in> set merged. snd r + 1 < start"
    proof (cases merged rule: rev_cases)
      case (snoc init r)
      then show ?thesis using False 2(3) by (fastforce simp: separated_snoc)
    qed simp
    then have "separated_ranges (merged @ [(start, finish)])" using 2(3) tail by (simp add: separated_snoc)
    then have "separated_ranges (merge_loop (merged @ [(start, finish)]) rs) \<and>
        blocks (merge_loop (merged @ [(start, finish)]) rs) = blocks (merged @ [(start, finish)]) \<union> blocks rs"
      using 2(2) False tail nxt by simp
    with False show ?thesis by auto
  qed
qed simp

definition usable_blocks :: "(int option \<times> int option) list \<Rightarrow> int set" where
  "usable_blocks rs = blocks (concat (map usable_range rs))"

lemma merge_ranges_spec:
  "separated_ranges (merge_ranges rs) \<and> blocks (merge_ranges rs) = usable_blocks rs"
proof -
  have "list_all (\<lambda>r. fst r \<le> snd r) (usable_range r)" for r
    by (cases r rule: usable_range.cases) auto
  then have "list_all (\<lambda>r. fst r \<le> snd r) (sort (concat (map usable_range rs)))"
    by (auto simp: list_all_iff)
  then show ?thesis
    using merge_loop_spec [of "[]" "sort (concat (map usable_range rs))"]
    by (simp add: merge_ranges_def separated_ranges_def usable_blocks_def)
qed

section \<open>Subtracting is set difference\<close>

definition rest_of :: "int \<Rightarrow> int \<times> block_range list \<Rightarrow> block_range list" where
  "rest_of finish r = (if fst r \<le> finish then snd r @ [(fst r, finish)] else snd r)"

lemma subtract_loop_spec:
  assumes "ordered_ranges covered" and "ordered_ranges remaining" and "\<forall>r \<in> set remaining. snd r < cursor"
    and "cursor \<le> finish"
  shows "ordered_ranges (rest_of finish (subtract_loop finish cursor remaining covered)) \<and>
    blocks (rest_of finish (subtract_loop finish cursor remaining covered)) =
      blocks remaining \<union> ({cursor..finish} - blocks covered)"
  using assms
proof (induction finish cursor remaining covered rule: subtract_loop.induct)
  case (1 finish cursor remaining)
  then show ?case by (simp add: rest_of_def ordered_snoc)
next
  case (2 finish cursor remaining c_start c_end covered)
  note IHs = 2(1,2) and prems = 2(3-6)
  let ?rem = "if c_start > cursor then remaining @ [(cursor, min finish (c_start - 1))] else remaining"
  let ?cur = "max cursor (c_end + 1)"
  have ord: "c_start \<le> c_end" "ordered_ranges covered" using prems(1) by auto
  have above: "b \<in> blocks covered \<Longrightarrow> c_end < b" for b using blocks_above [OF prems(1)] by simp
  consider "c_end < cursor" | "cursor \<le> c_end" "finish < c_start"
    | "cursor \<le> c_end" "c_start \<le> finish" "finish < ?cur" | "cursor \<le> c_end" "c_start \<le> finish" "?cur \<le> finish"
    by linarith
  then show ?case
  proof cases
    case 1
    then have "{cursor..finish} - blocks ((c_start, c_end) # covered) = {cursor..finish} - blocks covered" by auto
    with 1 IHs(1) [OF 1] prems(2,3,4) ord show ?thesis by simp
  next
    case 2
    have "{cursor..finish} - blocks ((c_start, c_end) # covered) = {cursor..finish}"
      using 2 above ord by fastforce
    with 2 prems show ?thesis by (simp add: rest_of_def ordered_snoc)
  next
    case 3
    have "{cursor..finish} - blocks ((c_start, c_end) # covered) = {cursor..<c_start}"
      using 3 above ord by fastforce
    moreover have "blocks ?rem = blocks remaining \<union> {cursor..<c_start}" using 3 by auto
    moreover have "ordered_ranges ?rem" using prems(2,3,4) by (auto simp: ordered_snoc)
    ultimately show ?thesis using 3 by (simp add: rest_of_def Let_def)
  next
    case 4
    have "ordered_ranges ?rem" "\<forall>r \<in> set ?rem. snd r < ?cur"
      using prems(2,3,4) 4 ord by (auto simp: ordered_snoc)
    then have IH: "ordered_ranges (rest_of finish (subtract_loop finish ?cur ?rem covered)) \<and>
        blocks (rest_of finish (subtract_loop finish ?cur ?rem covered)) = blocks ?rem \<union> ({?cur..finish} - blocks covered)"
      using IHs(2) [of ?rem ?cur] 4 ord by auto
    have "{cursor..finish} - blocks ((c_start, c_end) # covered) = {cursor..<c_start} \<union> ({?cur..finish} - blocks covered)"
      using 4 above ord by fastforce
    moreover have "blocks ?rem = blocks remaining \<union> {cursor..<c_start}" using 4 by auto
    ultimately show ?thesis using IH 4 by (simp add: Let_def Un_assoc)
  qed
qed

lemma subtract_ranges_spec:
  "ordered_ranges (subtract_ranges w covered) \<and>
   blocks (subtract_ranges w covered) = {fst w..snd w} - usable_blocks covered"
proof (cases "fst w \<le> snd w")
  case True
  have "subtract_ranges w covered = rest_of (snd w) (subtract_loop (snd w) (fst w) [] (merge_ranges covered))"
    using True by (simp add: subtract_ranges_def rest_of_def split_beta)
  then show ?thesis
    using True merge_ranges_spec [of covered] separated_ordered
      subtract_loop_spec [of "merge_ranges covered" "[]" "fst w" "snd w"] by simp
qed (simp add: subtract_ranges_def)

end
