(* ===== verification/Watch_Config.thy ===== *)
theory Watch_Config
  imports Governance_Config Abi_Words
begin

text \<open>
  Settings of the external watchlist, \<open>services/api/app/domains/external_watchlist/config.py\<close>: the
  vocabularies, the networks, and the worker's budgets read from the environment and clamped.

  The waiting times, which are binary floating-point numbers, are left out.
\<close>

section \<open>Vocabularies\<close>

definition WATCHLIST_STATUSES :: "string list" where
  "WATCHLIST_STATUSES = [''live'', ''backfilling'', ''paused'', ''degraded'', ''error'']"

definition OPEN_BACKFILL_STATUSES :: "string list" where
  "OPEN_BACKFILL_STATUSES = [''pending'', ''running'']"

definition EXTERNAL_SEVERITIES :: "string list" where
  "EXTERNAL_SEVERITIES = [''low'', ''medium'', ''high'']"

definition DETECTION_PROFILE_KEYS :: "string list" where
  "DETECTION_PROFILE_KEYS = [''privileged_role_changes'', ''ownership_changes'', ''contract_upgrades'',
     ''proxy_admin_changes'', ''pause_unpause'', ''multisig_configuration'', ''mint_burn'', ''large_transfers'',
     ''oracle_updates'']"

section \<open>Networks\<close>

record network_meta =
  nm_chain_id :: int
  nm_confirmations :: int

definition SUPPORTED_NETWORKS :: "(string \<times> network_meta) list" where
  "SUPPORTED_NETWORKS =
     [(''base-mainnet'', \<lparr>nm_chain_id = 8453, nm_confirmations = 10\<rparr>),
      (''ethereum-mainnet'', \<lparr>nm_chain_id = 1, nm_confirmations = 3\<rparr>),
      (''arbitrum-one'', \<lparr>nm_chain_id = 42161, nm_confirmations = 40\<rparr>)]"

section \<open>Budgets of the worker\<close>

record worker_settings =
  ws_enabled :: bool
  ws_interval_seconds :: int
  ws_poll_stale_seconds :: int
  ws_worker_heartbeat_stale_seconds :: int
  ws_error_failure_threshold :: int
  ws_max_rpc_calls_per_cycle :: int
  ws_backfill_chunk_blocks :: int
  ws_min_chunk_blocks :: int
  ws_chunk_max_retries :: int
  ws_max_blocks_per_poll :: int
  ws_max_targets_per_cycle :: int
  ws_max_backfills_per_cycle :: int
  ws_max_enrichments_per_chunk :: int
  ws_lease_seconds :: int
  ws_confirmations_override :: "int option"

text \<open>\<open>int()\<close> refuses more than 4300 digits, as it refuses a text that is no number.\<close>

definition env_int_between :: "environ \<Rightarrow> string \<Rightarrow> int \<Rightarrow> int \<Rightarrow> int \<Rightarrow> int" where
  "env_int_between env name dflt minimum maximum =
     (let parsed = (case env name of
          None \<Rightarrow> Some dflt
        | Some s \<Rightarrow> (let t = py_strip s in if length (filter digit_char t) > MAX_STR_DIGITS then None else py_int t));
          value = (case parsed of Some v \<Rightarrow> v | None \<Rightarrow> dflt)
      in max minimum (min maximum value))"

definition feature_enabled :: "environ \<Rightarrow> bool" where
  "feature_enabled env =
     (py_lower (py_strip (case env ''EXTERNAL_WATCHLIST_ENABLED'' of Some s \<Rightarrow> s | None \<Rightarrow> []))
      \<in> {''1'', ''true'', ''yes'', ''on''})"

definition worker_config :: "environ \<Rightarrow> worker_settings" where
  "worker_config env =
     (let interval = env_int_between env ''EXTERNAL_WATCHLIST_WORKER_INTERVAL_SECONDS'' 120 30 3600
      in \<lparr>ws_enabled = feature_enabled env,
          ws_interval_seconds = interval,
          ws_poll_stale_seconds = env_int_between env ''EXTERNAL_WATCHLIST_POLL_STALE_SECONDS'' (max 300 (interval * 3)) 60 86400,
          ws_worker_heartbeat_stale_seconds = max 120 (interval * 3),
          ws_error_failure_threshold = env_int_between env ''EXTERNAL_WATCHLIST_ERROR_FAILURE_THRESHOLD'' 5 1 100,
          ws_max_rpc_calls_per_cycle = env_int_between env ''EXTERNAL_WATCHLIST_MAX_RPC_CALLS_PER_CYCLE'' 600 10 100000,
          ws_backfill_chunk_blocks = env_int_between env ''EXTERNAL_WATCHLIST_BACKFILL_CHUNK_BLOCKS'' 2000 10 100000,
          ws_min_chunk_blocks = env_int_between env ''EXTERNAL_WATCHLIST_MIN_CHUNK_BLOCKS'' 1 1 10000,
          ws_chunk_max_retries = env_int_between env ''EXTERNAL_WATCHLIST_CHUNK_MAX_RETRIES'' 3 0 10,
          ws_max_blocks_per_poll = env_int_between env ''EXTERNAL_WATCHLIST_MAX_BLOCKS_PER_POLL'' 5000 10 1000000,
          ws_max_targets_per_cycle = env_int_between env ''EXTERNAL_WATCHLIST_MAX_TARGETS_PER_CYCLE'' 50 1 10000,
          ws_max_backfills_per_cycle = env_int_between env ''EXTERNAL_WATCHLIST_MAX_BACKFILLS_PER_CYCLE'' 3 1 100,
          ws_max_enrichments_per_chunk = env_int_between env ''EXTERNAL_WATCHLIST_MAX_ENRICHMENTS_PER_CHUNK'' 40 0 10000,
          ws_lease_seconds = env_int_between env ''EXTERNAL_WATCHLIST_LEASE_SECONDS'' 600 60 86400,
          ws_confirmations_override =
            (if py_strip (case env ''EXTERNAL_WATCHLIST_CONFIRMATIONS'' of Some s \<Rightarrow> s | None \<Rightarrow> []) \<noteq> []
             then Some (env_int_between env ''EXTERNAL_WATCHLIST_CONFIRMATIONS'' 0 0 10000) else None)\<rparr>)"

definition confirmations_for :: "string \<Rightarrow> worker_settings \<Rightarrow> int" where
  "confirmations_for network cfg = (case ws_confirmations_override cfg of
       Some n \<Rightarrow> n
     | None \<Rightarrow> (case map_of SUPPORTED_NETWORKS network of Some m \<Rightarrow> nm_confirmations m | None \<Rightarrow> 5))"

lemma env_int_between_bounds: "lo \<le> hi \<Longrightarrow> lo \<le> env_int_between env name dflt lo hi \<and> env_int_between env name dflt lo hi \<le> hi"
  by (simp add: env_int_between_def Let_def)

text \<open>The settings the loops of the worker rely on, whatever the environment.\<close>

definition settings_ok :: "worker_settings \<Rightarrow> bool" where
  "settings_ok cfg \<longleftrightarrow> 1 \<le> ws_min_chunk_blocks cfg \<and> 1 \<le> ws_backfill_chunk_blocks cfg \<and> 0 \<le> ws_chunk_max_retries cfg \<and>
     1 \<le> ws_max_blocks_per_poll cfg \<and> 1 \<le> ws_max_rpc_calls_per_cycle cfg \<and> 1 \<le> ws_error_failure_threshold cfg \<and>
     (\<forall>network. 0 \<le> confirmations_for network cfg)"

lemma worker_config_ok: "settings_ok (worker_config env)"
proof -
  note b = env_int_between_bounds
  have "0 \<le> confirmations_for network (worker_config env)" for network
    using b [of 0 10000 env "''EXTERNAL_WATCHLIST_CONFIRMATIONS''" 0]
    by (simp add: confirmations_for_def worker_config_def Let_def SUPPORTED_NETWORKS_def)
  then show ?thesis
    using b [of 1 10000 env "''EXTERNAL_WATCHLIST_MIN_CHUNK_BLOCKS''" 1]
      b [of 10 100000 env "''EXTERNAL_WATCHLIST_BACKFILL_CHUNK_BLOCKS''" 2000]
      b [of 0 10 env "''EXTERNAL_WATCHLIST_CHUNK_MAX_RETRIES''" 3]
      b [of 10 1000000 env "''EXTERNAL_WATCHLIST_MAX_BLOCKS_PER_POLL''" 5000]
      b [of 10 100000 env "''EXTERNAL_WATCHLIST_MAX_RPC_CALLS_PER_CYCLE''" 600]
      b [of 1 100 env "''EXTERNAL_WATCHLIST_ERROR_FAILURE_THRESHOLD''" 5]
    by (simp add: settings_ok_def worker_config_def Let_def)
qed

end
