(* ===== verification/Backfill.thy ===== *)
theory Backfill
  imports Chain_Scan Block_Ranges Watch_Config
begin

text \<open>
  Historical scans, \<open>services/api/app/domains/external_watchlist/backfill.py\<close> and the statements of
  \<open>service.py\<close> and \<open>worker.py\<close> that create and claim a scan: the plan, the loop over its ranges, what
  each chunk commits, and how a scan ends.

  Parameters: the transport of the chain reader; the estimate of the first block, which is
  computed in binary floating point; \<open>ingest.process_logs\<close>, that may raise and that returns its
  statistics, the rule state it leaves and whether it saved that state; and the rest of the
  database, \<open>'w\<close>. Left out are timestamps, and the error texts kept for display.
\<close>

section \<open>The stored scan\<close>

type_synonym 'v rule_state = "(string \<times> 'v) list"

record 'v backfill_job =
  jb_status :: string
  jb_status_reason :: "string option"
  jb_planned :: bool
  jb_estimated_start_block :: "int option"
  jb_window_end_block :: "int option"
  jb_plan_ranges :: "block_range list"
  jb_range_index :: nat
  jb_cursor_block :: "int option"
  jb_total_blocks :: int
  jb_scanned_blocks :: int
  jb_chunks_completed :: int
  jb_retries :: int
  jb_logs_found :: int
  jb_events_inserted :: int
  jb_attempts :: int
  jb_chunk_size :: int
  jb_rule_state :: "(nat \<times> 'v rule_state) option"
  jb_lease_owner :: "string option"

definition MAX_JOB_ATTEMPTS :: int where
  "MAX_JOB_ATTEMPTS = 3"

definition MAX_OUTAGE_ATTEMPTS :: int where
  "MAX_OUTAGE_ATTEMPTS = 10"

text \<open>\<open>service.create_backfill\<close>, with the columns' defaults; a chunk size of 0 stands for null.\<close>

definition create_backfill :: "'v backfill_job" where
  "create_backfill =
     \<lparr>jb_status = ''pending'', jb_status_reason = None, jb_planned = False, jb_estimated_start_block = None,
      jb_window_end_block = None, jb_plan_ranges = [], jb_range_index = 0, jb_cursor_block = None,
      jb_total_blocks = 0, jb_scanned_blocks = 0, jb_chunks_completed = 0, jb_retries = 0, jb_logs_found = 0,
      jb_events_inserted = 0, jb_attempts = 0, jb_chunk_size = 0, jb_rule_state = None, jb_lease_owner = None\<rparr>"

text \<open>The assignments of \<open>worker.claim_backfills\<close>.\<close>

definition claim_backfill :: "string \<Rightarrow> 'v backfill_job \<Rightarrow> 'v backfill_job" where
  "claim_backfill owner job = job\<lparr>jb_status := ''running'', jb_lease_owner := Some owner\<rparr>"

definition finish_job :: "string \<Rightarrow> string option \<Rightarrow> 'v backfill_job \<Rightarrow> 'v backfill_job" where
  "finish_job state reason job = job\<lparr>jb_status := state, jb_status_reason := reason, jb_lease_owner := None\<rparr>"

text \<open>\<open>service.remove_target\<close> on an open scan of the target.\<close>

definition remove_target_job :: "'v backfill_job \<Rightarrow> 'v backfill_job" where
  "remove_target_job job =
     (if jb_status job \<in> {''pending'', ''running''}
      then finish_job (if jb_scanned_blocks job > 0 then ''partial'' else ''failed'') (Some ''target_removed'') job else job)"

definition release_job :: "bool \<Rightarrow> 'v backfill_job \<Rightarrow> 'v backfill_job" where
  "release_job count_attempt job =
     job\<lparr>jb_lease_owner := None, jb_attempts := jb_attempts job + (if count_attempt then 1 else 0)\<rparr>"

definition partial_or_failed :: "'v backfill_job \<Rightarrow> string" where
  "partial_or_failed job = (if jb_scanned_blocks job \<noteq> 0 then ''partial'' else ''failed'')"

definition covered_spans :: "'v backfill_job \<Rightarrow> block_range list" where
  "covered_spans job =
     take (jb_range_index job) (jb_plan_ranges job) @
     (case jb_cursor_block job of
        None \<Rightarrow> []
      | Some cursor \<Rightarrow>
          if jb_range_index job < length (jb_plan_ranges job) \<and> cursor \<ge> fst (jb_plan_ranges job ! jb_range_index job)
          then [(fst (jb_plan_ranges job ! jb_range_index job), min cursor (snd (jb_plan_ranges job ! jb_range_index job)))]
          else [])"

definition history_rule_state :: "'v backfill_job \<Rightarrow> nat \<Rightarrow> 'v rule_state" where
  "history_rule_state job range_index = (case jb_rule_state job of
       Some (i, state) \<Rightarrow> if i = range_index then state else []
     | None \<Rightarrow> [])"

text \<open>The filters of a target; no profiles is a value that is no list, no aggregator one that is no dict.\<close>

definition filters_for :: "string \<Rightarrow> string \<Rightarrow> string list option \<Rightarrow> pyval \<Rightarrow> log_filter list" where
  "filters_for target_type address profiles aggregator =
     log_filters_for_target target_type address (case profiles of Some ps \<Rightarrow> ps | None \<Rightarrow> DETECTION_PROFILE_KEYS)
       (case normalize_address aggregator of
          Some a \<Rightarrow> if target_type = ''oracle'' then [a] else []
        | None \<Rightarrow> [])"

section \<open>Planning\<close>

text \<open>Why a scan of this cycle stops; the name is the code of the error.\<close>

datatype run_error = BudgetStop | AuthorityStop string | OtherStop

definition stop_of :: "scan_error \<Rightarrow> run_error" where
  "stop_of e = (case e of
       Raised RpcBudgetExhausted \<Rightarrow> BudgetStop
     | Raised ExternalExecutionForbidden \<Rightarrow> AuthorityStop ''external_execution_forbidden''
     | _ \<Rightarrow> OtherStop)"

definition plan_ranges :: "int \<Rightarrow> int \<Rightarrow> block_range list \<Rightarrow> block_range list" where
  "plan_ranges estimate window_end covered =
     (let start = min estimate window_end
      in if start \<le> window_end then subtract_ranges (start, window_end) (map (\<lambda>(a, b). (Some a, Some b)) covered) else [])"

definition plan_job ::
  "('s rpc_client \<Rightarrow> (run_error + int) \<times> 's rpc_client) \<Rightarrow> 'v backfill_job list \<Rightarrow> int option \<Rightarrow> int \<Rightarrow> worker_settings
     \<Rightarrow> 'v backfill_job \<Rightarrow> 's rpc_client \<Rightarrow> (run_error + 'v backfill_job) \<times> 's rpc_client" where
  "plan_job estimate others live_start_block tip cfg job c =
     (let window_end = (case live_start_block of Some b \<Rightarrow> if b \<noteq> 0 then b - 1 else tip | None \<Rightarrow> tip)
      in case estimate c of
           (Inl e, c') \<Rightarrow> (Inl e, c')
         | (Inr block, c') \<Rightarrow>
             let plan = plan_ranges block window_end (concat (map covered_spans others))
             in (Inr (job\<lparr>jb_estimated_start_block := Some block, jb_window_end_block := Some window_end,
                          jb_plan_ranges := plan, jb_total_blocks := block_count plan, jb_planned := True,
                          jb_range_index := 0, jb_cursor_block := None,
                          jb_chunk_size := ws_backfill_chunk_blocks cfg\<rparr>), c'))"

section \<open>The loop over the ranges\<close>

text \<open>
  What the loop changes: the stored scan and the rest of the database as of the last commit, the
  rule state in memory and the range it belongs to, the chunk size, and, as a record of the
  history, the chunks whose transaction was committed.
\<close>

record stats =
  st_logs :: int
  st_events_inserted :: int

record ('v, 'w) scan_state =
  sc_job :: "'v backfill_job"
  sc_world :: 'w
  sc_history_index :: nat
  sc_runtime :: "'v rule_state"
  sc_chunk_size :: int
  sc_committed :: "log_chunk list"

text \<open>A chunk is processed with the range it belongs to and the rule state replayed so far.\<close>

type_synonym ('s, 'v, 'w) process =
  "nat \<Rightarrow> 'v rule_state \<Rightarrow> raw_log list \<Rightarrow> 's rpc_client \<Rightarrow> 'w \<Rightarrow> (run_error + stats \<times> 'v rule_state \<times> bool \<times> 'w) \<times> 's rpc_client"

definition chunk_progress :: "nat \<Rightarrow> log_chunk \<Rightarrow> stats \<Rightarrow> 'v backfill_job \<Rightarrow> 'v backfill_job" where
  "chunk_progress index chunk counts job =
     job\<lparr>jb_range_index := index, jb_cursor_block := Some (ch_to_block chunk),
         jb_scanned_blocks := min (jb_total_blocks job) (jb_scanned_blocks job + (ch_to_block chunk - ch_from_block chunk + 1)),
         jb_chunks_completed := jb_chunks_completed job + 1, jb_retries := jb_retries job + ch_retries chunk,
         jb_logs_found := jb_logs_found job + st_logs counts,
         jb_events_inserted := jb_events_inserted job + st_events_inserted counts,
         jb_chunk_size := ch_chunk_size chunk\<rparr>"

definition commit_chunk ::
  "('s, 'v, 'w) process \<Rightarrow> nat \<Rightarrow> ('s, ('v, 'w) scan_state, run_error) consumer" where
  "commit_chunk process index chunk c st =
     (case process (sc_history_index st) (sc_runtime st) (ch_logs chunk) c (sc_world st) of
        (Inl e, c') \<Rightarrow> (Inl e, c')
      | (Inr (counts, runtime, saved, w), c') \<Rightarrow>
          let job = chunk_progress index chunk counts (sc_job st)
          in (Inr (st\<lparr>sc_job := if saved then job\<lparr>jb_rule_state := Some (sc_history_index st, runtime)\<rparr> else job,
                      sc_world := w, sc_runtime := runtime, sc_chunk_size := ch_chunk_size chunk,
                      sc_committed := sc_committed st @ [chunk]\<rparr>), c'))"

definition enter_range :: "nat \<Rightarrow> ('v, 'w) scan_state \<Rightarrow> ('v, 'w) scan_state" where
  "enter_range index st =
     (if sc_history_index st \<noteq> index then st\<lparr>sc_history_index := index, sc_runtime := []\<rparr> else st)"

definition leave_range :: "nat \<Rightarrow> ('v, 'w) scan_state \<Rightarrow> ('v, 'w) scan_state" where
  "leave_range index st = st\<lparr>sc_job := (sc_job st)\<lparr>jb_range_index := index + 1, jb_cursor_block := None\<rparr>\<rparr>"

definition resume_at :: "block_range \<Rightarrow> int option \<Rightarrow> int" where
  "resume_at r cursor = (case cursor of Some k \<Rightarrow> if k \<ge> fst r then k + 1 else fst r | None \<Rightarrow> fst r)"

fun run_ranges ::
  "'s log_transport \<Rightarrow> ('s, 'v, 'w) process \<Rightarrow> worker_settings \<Rightarrow> log_filter list \<Rightarrow> nat \<Rightarrow> block_range list \<Rightarrow> int option
     \<Rightarrow> 's rpc_client \<Rightarrow> ('v, 'w) scan_state \<Rightarrow> (run_error option \<times> 's rpc_client \<times> ('v, 'w) scan_state) option" where
  "run_ranges tr process cfg flts index [] cursor c st = Some (None, c, st)"
| "run_ranges tr process cfg flts index (r # rs) cursor c st =
     (let st = enter_range index st; start = resume_at r cursor
      in case (if start \<le> snd r
               then iter_log_chunks tr (commit_chunk process index) flts start (snd r) (sc_chunk_size st)
                      (ws_min_chunk_blocks cfg) (ws_chunk_max_retries cfg) c st
               else Some (ScanDone, [], c, st)) of
           None \<Rightarrow> None
         | Some (ScanFailed e, chs, c', st') \<Rightarrow> Some (Some (stop_of e), c', st')
         | Some (ConsumerRaised e, chs, c', st') \<Rightarrow> Some (Some e, c', st')
         | Some (ScanDone, chs, c', st') \<Rightarrow>
             run_ranges tr process cfg flts (index + 1) rs None c' (leave_range index st'))"

section \<open>One cycle of a scan\<close>

record 's network_handle =
  nc_client :: "'s rpc_client option"
  nc_tip :: "int option"
  nc_error :: "string option"
  nc_error_code :: "string option"

definition network_ready :: "'s network_handle \<Rightarrow> bool" where
  "network_ready net = (nc_client net \<noteq> None \<and> nc_tip net \<noteq> None \<and> nc_error net = None)"

text \<open>The handlers of \<open>run_job\<close>: the transaction is rolled back, so \<open>job\<close> is the committed row.\<close>

definition stop_job :: "run_error \<Rightarrow> 'v backfill_job \<Rightarrow> string \<times> 'v backfill_job" where
  "stop_job e job = (case e of
       BudgetStop \<Rightarrow> (''budget_exhausted'', release_job False job)
     | AuthorityStop code \<Rightarrow> (''failed'', finish_job (partial_or_failed job) (Some code) job)
     | OtherStop \<Rightarrow>
         if jb_attempts job + 1 \<ge> MAX_JOB_ATTEMPTS
         then (''stopped'', finish_job (partial_or_failed job) (Some ''range_failed_after_retries'')
                 (job\<lparr>jb_attempts := jb_attempts job + 1\<rparr>))
         else (''retry_next_cycle'', release_job True job))"

text \<open>A network that cannot be read.\<close>

definition defer_job :: "string option \<Rightarrow> 'v backfill_job \<Rightarrow> string \<times> 'v backfill_job" where
  "defer_job error_code job =
     (if error_code = Some ''RPC_NOT_CONFIGURED'' \<or> error_code = Some ''CHAIN_MISMATCH''
      then (''failed'', finish_job (partial_or_failed job) (map_option py_lower error_code) job)
      else if jb_attempts job + 1 \<ge> MAX_OUTAGE_ATTEMPTS
      then (''failed'', finish_job (partial_or_failed job) (Some ''rpc_unavailable'') (job\<lparr>jb_attempts := jb_attempts job + 1\<rparr>))
      else (''deferred'', release_job True job))"

text \<open>The plan of a scan and its ranges, once there is a client.\<close>

definition run_plan ::
  "'s log_transport \<Rightarrow> ('s, 'v, 'w) process \<Rightarrow> worker_settings \<Rightarrow> log_filter list \<Rightarrow> 'v backfill_job
     \<Rightarrow> 's rpc_client \<Rightarrow> 'w \<Rightarrow> log_chunk list \<Rightarrow> (string \<times> 's rpc_client \<times> 'v backfill_job \<times> 'w \<times> log_chunk list) option" where
  "run_plan tr process cfg flts job c w committed =
     (if jb_plan_ranges job = []
      then Some (''completed'', c, finish_job ''completed'' (Some ''window_already_covered'') job, w, committed)
      else let index = jb_range_index job;
               st = \<lparr>sc_job = job, sc_world = w, sc_history_index = index, sc_runtime = history_rule_state job index,
                     sc_chunk_size = (if jb_chunk_size job \<noteq> 0 then jb_chunk_size job else ws_backfill_chunk_blocks cfg),
                     sc_committed = committed\<rparr>
           in case run_ranges tr process cfg flts index (drop index (jb_plan_ranges job)) (jb_cursor_block job) c st of
                None \<Rightarrow> None
              | Some (None, c', st') \<Rightarrow>
                  Some (''completed'', c', finish_job ''completed'' None (sc_job st'), sc_world st', sc_committed st')
              | Some (Some e, c', st') \<Rightarrow>
                  (case stop_job e (sc_job st') of
                     (state, job') \<Rightarrow> Some (state, c', job', sc_world st', sc_committed st')))"

text \<open>
  \<open>run_job\<close>. \<open>flts\<close> is \<open>None\<close> when the target or the watchlist is gone. The result is the state the
  cycle reports, the client as it was left, the row, the rest of the database and the history.
\<close>

definition run_job ::
  "'s log_transport \<Rightarrow> ('s, 'v, 'w) process \<Rightarrow> ('s rpc_client \<Rightarrow> (run_error + int) \<times> 's rpc_client) \<Rightarrow> 'v backfill_job list
     \<Rightarrow> int option \<Rightarrow> worker_settings \<Rightarrow> log_filter list option \<Rightarrow> 's network_handle \<Rightarrow> 'v backfill_job \<Rightarrow> 'w \<Rightarrow> log_chunk list
     \<Rightarrow> (string \<times> 's rpc_client option \<times> 'v backfill_job \<times> 'w \<times> log_chunk list) option" where
  "run_job tr process estimate others live_start_block cfg flts net job w committed =
     (case flts of
        None \<Rightarrow> Some (''target_removed'', nc_client net, finish_job (partial_or_failed job) (Some ''target_removed'') job, w, committed)
      | Some fs \<Rightarrow>
         if \<not> network_ready net
         then (case defer_job (nc_error_code net) job of (state, job') \<Rightarrow> Some (state, nc_client net, job', w, committed))
         else let c = the (nc_client net) in
           (case (if jb_planned job then (Inr job, c)
                  else plan_job estimate others live_start_block (the (nc_tip net)) cfg job c) of
              (Inl e, c') \<Rightarrow> (case stop_job e job of (state, job') \<Rightarrow> Some (state, Some c', job', w, committed))
            | (Inr job1, c') \<Rightarrow>
                (case run_plan tr process cfg fs job1 c' w committed of
                   None \<Rightarrow> None
                 | Some (state, c2, job', w', committed') \<Rightarrow> Some (state, Some c2, job', w', committed'))))"

section \<open>Every block once\<close>

text \<open>The ranges of the committed chunks, in the order of their commits.\<close>

definition chunk_ranges :: "log_chunk list \<Rightarrow> block_range list" where
  "chunk_ranges chs = map (\<lambda>ch. (ch_from_block ch, ch_to_block ch)) chs"

definition cursor_ok :: "'v backfill_job \<Rightarrow> bool" where
  "cursor_ok job \<longleftrightarrow> (case jb_cursor_block job of
       None \<Rightarrow> jb_range_index job \<le> length (jb_plan_ranges job)
     | Some k \<Rightarrow> jb_range_index job < length (jb_plan_ranges job) \<and>
         fst (jb_plan_ranges job ! jb_range_index job) \<le> k \<and> k \<le> snd (jb_plan_ranges job ! jb_range_index job))"

text \<open>
  The invariant of a stored scan: its row says which blocks were covered. They are those of the
  committed chunks, each once and in ascending order, and the blocks \<open>p\<close> that cycles without a
  filter passed over.
\<close>

definition job_inv :: "int set \<Rightarrow> 'v backfill_job \<Rightarrow> log_chunk list \<Rightarrow> bool" where
  "job_inv p job committed \<longleftrightarrow> ordered_ranges (jb_plan_ranges job) \<and> cursor_ok job \<and>
     jb_total_blocks job = block_count (jb_plan_ranges job) \<and>
     jb_scanned_blocks job = block_count (chunk_ranges committed) \<and> ordered_ranges (chunk_ranges committed) \<and>
     blocks (covered_spans job) = blocks (chunk_ranges committed) \<union> p \<and> blocks (chunk_ranges committed) \<inter> p = {}"

text \<open>The next block to read in range \<open>index\<close>.\<close>

definition at_block :: "nat \<Rightarrow> int \<Rightarrow> 'v backfill_job \<Rightarrow> bool" where
  "at_block index k job \<longleftrightarrow> jb_range_index job = index \<and> index < length (jb_plan_ranges job) \<and>
     (jb_cursor_block job = None \<and> k = fst (jb_plan_ranges job ! index) \<or> jb_cursor_block job = Some (k - 1))"

lemma ordered_append: "ordered_ranges (xs @ ys) \<longleftrightarrow> ordered_ranges xs \<and> ordered_ranges ys \<and> (\<forall>x \<in> set xs. \<forall>y \<in> set ys. snd x < fst y)"
  by (auto simp: ordered_ranges_def sorted_wrt_append)

lemma block_count_simps [simp]: "block_count [] = 0" "block_count (r # rs) = snd r - fst r + 1 + block_count rs"
    "block_count (xs @ ys) = block_count xs + block_count ys"
  by (simp_all add: block_count_def)

lemma block_count_nonneg: "ordered_ranges rs \<Longrightarrow> 0 \<le> block_count rs"
  by (induction rs) auto

lemma covered_at:
  assumes "cursor_ok job" and "at_block index k job" and "ordered_ranges (jb_plan_ranges job)"
  defines "r \<equiv> jb_plan_ranges job ! index"
  shows "fst r \<le> k \<and> k \<le> snd r + 1 \<and>
    covered_spans job = take index (jb_plan_ranges job) @ (if k = fst r then [] else [(fst r, k - 1)])"
proof -
  have "r \<in> set (jb_plan_ranges job)" using assms(2) by (simp add: at_block_def r_def)
  then have "fst r \<le> snd r" using assms(3) by (auto simp: ordered_ranges_def list_all_iff)
  then show ?thesis
    using assms(1,2) by (auto simp: cursor_ok_def at_block_def covered_spans_def r_def split: option.splits)
qed

lemma plan_split:
  assumes "ordered_ranges plan" and "index < length plan"
  shows "ordered_ranges (take index plan)" and "ordered_ranges (drop (Suc index) plan)"
    and "\<forall>x \<in> set (take index plan). snd x < fst (plan ! index)"
    and "block_count plan = block_count (take index plan) + (snd (plan ! index) - fst (plan ! index) + 1) + block_count (drop (Suc index) plan)"
proof -
  have eq: "take index plan @ plan ! index # drop (Suc index) plan = plan" using assms(2) by (simp add: id_take_nth_drop [symmetric])
  then have "ordered_ranges (take index plan @ plan ! index # drop (Suc index) plan)" using assms(1) by simp
  then show "ordered_ranges (take index plan)" "ordered_ranges (drop (Suc index) plan)"
      "\<forall>x \<in> set (take index plan). snd x < fst (plan ! index)"
    by (simp_all add: ordered_append)
  have "block_count plan = block_count (take index plan @ plan ! index # drop (Suc index) plan)" by (simp only: eq)
  then show "block_count plan = block_count (take index plan) + (snd (plan ! index) - fst (plan ! index) + 1) + block_count (drop (Suc index) plan)"
    by simp
qed

lemma covered_ordered:
  assumes "ordered_ranges (jb_plan_ranges job)" and "cursor_ok job"
  shows "ordered_ranges (covered_spans job)"
proof (cases "jb_cursor_block job")
  case None
  have "ordered_ranges (take n (jb_plan_ranges job))" for n
    using assms(1) ordered_append [of "take n (jb_plan_ranges job)" "drop n (jb_plan_ranges job)"] by simp
  then show ?thesis by (simp add: covered_spans_def None)
next
  case (Some k)
  then have len: "jb_range_index job < length (jb_plan_ranges job)"
      and k: "fst (jb_plan_ranges job ! jb_range_index job) \<le> k" "k \<le> snd (jb_plan_ranges job ! jb_range_index job)"
    using assms(2) by (auto simp: cursor_ok_def)
  then show ?thesis using plan_split [OF assms(1) len]
    by (simp add: covered_spans_def Some ordered_snoc)
qed

lemma covered_within: "cursor_ok job \<Longrightarrow> blocks (covered_spans job) \<subseteq> blocks (jb_plan_ranges job)"
proof -
  assume ok: "cursor_ok job"
  have "set (take n (jb_plan_ranges job)) \<subseteq> set (jb_plan_ranges job)" for n by (rule set_take_subset)
  moreover have "jb_plan_ranges job ! jb_range_index job \<in> set (jb_plan_ranges job)" if "jb_cursor_block job = Some k" for k
    using ok that by (simp add: cursor_ok_def)
  ultimately show ?thesis
    using ok by (fastforce simp: covered_spans_def blocks_def split: option.splits if_splits)
qed

text \<open>A committed chunk, and the end of a range, keep the invariant.\<close>

lemma chunk_progress_inv:
  assumes "job_inv p job committed" and "at_block index (ch_from_block ch) job"
    and "ch_from_block ch \<le> ch_to_block ch" and "ch_to_block ch \<le> snd (jb_plan_ranges job ! index)"
  shows "job_inv p (chunk_progress index ch counts job) (committed @ [ch])" (is ?inv)
    and "at_block index (ch_to_block ch + 1) (chunk_progress index ch counts job)" (is ?at)
proof -
  let ?plan = "jb_plan_ranges job" and ?job = "chunk_progress index ch counts job"
  let ?r = "?plan ! index" and ?a = "ch_from_block ch" and ?b = "ch_to_block ch"
  have ord: "ordered_ranges ?plan" and cur: "cursor_ok job" using assms(1) by (auto simp: job_inv_def)
  have len: "index < length ?plan" "jb_range_index job = index" using assms(2) by (auto simp: at_block_def)
  note cov = covered_at [OF cur assms(2) ord]
  show at: ?at using len by (simp add: at_block_def chunk_progress_def)
  have cur': "cursor_ok ?job"
    using len cov assms(3,4) by (simp add: cursor_ok_def chunk_progress_def)
  have cov': "covered_spans ?job = take index ?plan @ [(fst ?r, ?b)]"
    using covered_at [OF cur' at] ord cov assms(3) by (simp add: chunk_progress_def)
  note split = plan_split [OF ord len(1)]
  have covered: "blocks (covered_spans ?job) = blocks (covered_spans job) \<union> {?a..?b}"
    using cov assms(3) by (auto simp: cov')
  have below: "x < ?a" if "x \<in> blocks (covered_spans job)" for x
  proof -
    have "x \<in> blocks (take index ?plan) \<or> x \<in> {fst ?r..?a - 1}" using that cov by (auto split: if_splits)
    then show ?thesis
    proof
      assume "x \<in> blocks (take index ?plan)"
      then obtain y where y: "y \<in> set (take index ?plan)" "x \<le> snd y" by (auto simp: blocks_def)
      then have "snd y < fst ?r" using split(3) by blast
      then show ?thesis using y(2) cov by linarith
    qed auto
  qed
  have "\<forall>r' \<in> set (chunk_ranges committed). snd r' < ?a"
  proof
    fix r' assume r': "r' \<in> set (chunk_ranges committed)"
    then have "fst r' \<le> snd r'" using assms(1) by (auto simp: job_inv_def ordered_ranges_def list_all_iff)
    then have "snd r' \<in> blocks (chunk_ranges committed)" using r' by (auto simp: blocks_def)
    then have "snd r' \<in> blocks (covered_spans job)" using assms(1) by (simp add: job_inv_def)
    then show "snd r' < ?a" by (rule below)
  qed
  then have order: "ordered_ranges (chunk_ranges (committed @ [ch]))"
    using assms(1,3) by (simp add: job_inv_def chunk_ranges_def ordered_snoc)
  have scanned: "blocks (chunk_ranges (committed @ [ch])) = blocks (chunk_ranges committed) \<union> {?a..?b}"
    by (simp add: chunk_ranges_def)
  have fields: "jb_plan_ranges ?job = ?plan" "jb_total_blocks ?job = jb_total_blocks job"
      "jb_scanned_blocks ?job = min (jb_total_blocks job) (jb_scanned_blocks job + (?b - ?a + 1))"
    by (simp_all add: chunk_progress_def)
  have within: "blocks (covered_spans ?job) = blocks (chunk_ranges (committed @ [ch])) \<union> p"
    using assms(1) unfolding scanned covered job_inv_def by blast
  have "p \<inter> {?a..?b} = {}" using assms(1) below unfolding job_inv_def by force
  then have apart: "blocks (chunk_ranges (committed @ [ch])) \<inter> p = {}"
    using assms(1) unfolding scanned job_inv_def by blast
  have count: "block_count (chunk_ranges (committed @ [ch])) = block_count (chunk_ranges committed) + (?b - ?a + 1)"
    by (simp add: chunk_ranges_def)
  have "blocks (chunk_ranges (committed @ [ch])) \<subseteq> blocks ?plan"
    using within covered_within [OF cur'] by (auto simp: fields)
  then have "block_count (chunk_ranges (committed @ [ch])) \<le> block_count ?plan"
    using block_count_card [OF order] block_count_card [OF ord] card_mono by (metis of_nat_le_iff)
  then have "jb_scanned_blocks ?job = block_count (chunk_ranges (committed @ [ch]))" and "jb_total_blocks ?job = block_count ?plan"
    using assms(1) count by (simp_all only: fields job_inv_def)
  with within apart show ?inv using ord cur' order by (simp only: job_inv_def fields)
qed

lemma leave_range_inv:
  assumes "job_inv p job committed" and "at_block index (snd (jb_plan_ranges job ! index) + 1) job"
  shows "job_inv p (job\<lparr>jb_range_index := index + 1, jb_cursor_block := None\<rparr>) committed"
proof -
  let ?plan = "jb_plan_ranges job"
  have ord: "ordered_ranges ?plan" and cur: "cursor_ok job" using assms(1) by (auto simp: job_inv_def)
  have len: "index < length ?plan" using assms(2) by (simp add: at_block_def)
  then have "?plan ! index \<in> set ?plan" by simp
  then have "fst (?plan ! index) \<le> snd (?plan ! index)" using ord by (auto simp: ordered_ranges_def list_all_iff)
  then have "covered_spans job = take (index + 1) ?plan"
    using covered_at [OF cur assms(2) ord] len by (simp add: take_Suc_conv_app_nth)
  then show ?thesis using assms(1) len by (simp add: job_inv_def cursor_ok_def covered_spans_def)
qed

text \<open>What the loop leaves as it is.\<close>

definition job_kept :: "'v backfill_job \<Rightarrow> 'v backfill_job \<Rightarrow> bool" where
  "job_kept job job' \<longleftrightarrow> jb_plan_ranges job' = jb_plan_ranges job \<and> jb_total_blocks job' = jb_total_blocks job \<and>
     jb_status job' = jb_status job \<and> jb_attempts job' = jb_attempts job \<and> jb_planned job' = jb_planned job"

lemma job_kept_trans: "job_kept a b \<Longrightarrow> job_kept b c \<Longrightarrow> job_kept a c"
  by (simp add: job_kept_def)

text \<open>The invariant of the scan of one range, from a state \<open>st0\<close>.\<close>

definition range_inv :: "int set \<Rightarrow> nat \<Rightarrow> int \<Rightarrow> ('v, 'w) scan_state \<Rightarrow> log_chunk list \<Rightarrow> ('v, 'w) scan_state \<Rightarrow> bool" where
  "range_inv p index start st0 chs st \<longleftrightarrow> job_inv p (sc_job st) (sc_committed st) \<and> job_kept (sc_job st0) (sc_job st) \<and>
     sc_committed st = sc_committed st0 @ chs \<and> (\<exists>k. tiles start chs k \<and> at_block index k (sc_job st))"

lemma tiles_unique: "tiles a chs k \<Longrightarrow> tiles a chs k' \<Longrightarrow> k = k'"
  by (induction chs arbitrary: a) auto

text \<open>The saved rule state and the columns of the life cycle say nothing about the blocks.\<close>

lemma blocks_of_row:
  assumes "jb_plan_ranges job' = jb_plan_ranges job" and "jb_total_blocks job' = jb_total_blocks job"
    and "jb_range_index job' = jb_range_index job" and "jb_cursor_block job' = jb_cursor_block job"
    and "jb_scanned_blocks job' = jb_scanned_blocks job"
  shows "job_inv p job' cs = job_inv p job cs" and "at_block index k job' = at_block index k job"
    and "covered_spans job' = covered_spans job"
  by (simp_all only: assms job_inv_def cursor_ok_def covered_spans_def at_block_def)

lemma commit_chunk_inv:
  assumes "range_inv p index start st0 chs st" and "tiles start chs (ch_from_block ch)" and "ch_from_block ch \<le> ch_to_block ch"
    and "ch_to_block ch \<le> snd (jb_plan_ranges (sc_job st0) ! index)" and "commit_chunk process index ch c st = (Inr st', c')"
  shows "range_inv p index start st0 (chs @ [ch]) st'"
proof -
  obtain counts runtime saved w where p: "process (sc_history_index st) (sc_runtime st) (ch_logs ch) c (sc_world st) =
      (Inr (counts, runtime, saved, w), c')"
    using assms(5) by (auto simp: commit_chunk_def Let_def split: prod.splits sum.splits)
  let ?job = "chunk_progress index ch counts (sc_job st)"
  have job: "sc_job st' = (if saved then ?job\<lparr>jb_rule_state := Some (sc_history_index st, runtime)\<rparr> else ?job)"
      and committed: "sc_committed st' = sc_committed st @ [ch]"
    using assms(5) by (auto simp: commit_chunk_def p Let_def)
  have same: "job_inv p (?job\<lparr>jb_rule_state := x\<rparr>) cs = job_inv p ?job cs" "at_block index k (?job\<lparr>jb_rule_state := x\<rparr>) = at_block index k ?job"
      "job_kept j (?job\<lparr>jb_rule_state := x\<rparr>) = job_kept j ?job" for x cs k j
    using blocks_of_row [of "?job\<lparr>jb_rule_state := x\<rparr>" ?job] by (simp_all add: job_kept_def)
  have inv: "job_inv p (sc_job st) (sc_committed st)" and kept: "job_kept (sc_job st0) (sc_job st)"
    using assms(1) by (auto simp: range_inv_def)
  have at: "at_block index (ch_from_block ch) (sc_job st)"
    using assms(1,2) tiles_unique by (fastforce simp: range_inv_def)
  have le: "ch_to_block ch \<le> snd (jb_plan_ranges (sc_job st) ! index)" using assms(4) kept by (simp add: job_kept_def)
  note progress = chunk_progress_inv [OF inv at assms(3) le, of counts]
  have "job_kept (sc_job st) ?job" by (simp add: job_kept_def chunk_progress_def)
  then have "job_kept (sc_job st0) (sc_job st')" using job_kept_trans [OF kept] by (simp add: job same)
  moreover have "tiles start (chs @ [ch]) (ch_to_block ch + 1)" using assms(2,3) by (auto simp: tiles_append)
  ultimately show ?thesis
    using progress assms(1) unfolding range_inv_def by (auto simp: job same committed)
qed

lemma run_ranges_inv:
  assumes "1 \<le> ws_min_chunk_blocks cfg" and "flts \<noteq> []"
  shows "job_inv p (sc_job st) (sc_committed st) \<Longrightarrow> jb_range_index (sc_job st) = index \<Longrightarrow> jb_cursor_block (sc_job st) = cursor \<Longrightarrow>
    rs = drop index (jb_plan_ranges (sc_job st)) \<Longrightarrow>
    \<exists>e c' st' chs. run_ranges tr process cfg flts index rs cursor c st = Some (e, c', st') \<and>
      job_inv p (sc_job st') (sc_committed st') \<and> job_kept (sc_job st) (sc_job st') \<and>
      sc_committed st' = sc_committed st @ chs \<and>
      (e = None \<longrightarrow> covered_spans (sc_job st') = jb_plan_ranges (sc_job st'))"
proof (induction rs arbitrary: index cursor c st)
  case Nil
  then have "jb_cursor_block (sc_job st) = None" by (auto simp: job_inv_def cursor_ok_def split: option.splits)
  then show ?case using Nil by (simp add: job_kept_def covered_spans_def)
next
  case (Cons r rs)
  let ?plan = "jb_plan_ranges (sc_job st)" and ?st = "enter_range index st"
  let ?start = "resume_at r cursor"
  have len: "index < length ?plan" using Cons.prems(4) by (metis drop_eq_Nil linorder_not_less list.distinct(1))
  have r: "r = ?plan ! index" "rs = drop (index + 1) ?plan" using Cons.prems(4) len by (simp_all add: Cons_nth_drop_Suc [symmetric])
  have st: "sc_job ?st = sc_job st" "sc_committed ?st = sc_committed st" by (simp_all add: enter_range_def)
  have ord: "ordered_ranges ?plan" and cur: "cursor_ok (sc_job st)" using Cons.prems(1) by (auto simp: job_inv_def)
  have at: "at_block index ?start (sc_job st)"
    using Cons.prems(2,3) cur len by (auto simp: at_block_def resume_at_def r cursor_ok_def split: option.splits)
  note within = covered_at [OF cur at ord]
  have start_inv: "range_inv p index ?start ?st [] ?st"
    using Cons.prems(1) at by (simp add: range_inv_def st job_kept_def)
  let ?scan = "if ?start \<le> snd r
     then iter_log_chunks tr (commit_chunk process index) flts ?start (snd r) (sc_chunk_size ?st)
            (ws_min_chunk_blocks cfg) (ws_chunk_max_retries cfg) c ?st
     else Some (ScanDone, [], c, ?st)"
  obtain res where scan: "?scan = Some res" and ended: "scan_ended tr flts (range_inv p index ?start ?st) ?start (snd r) res"
  proof (cases "?start \<le> snd r")
    case True
    have "\<exists>res. iter_log_chunks tr (commit_chunk process index) flts ?start (snd r) (sc_chunk_size ?st)
        (ws_min_chunk_blocks cfg) (ws_chunk_max_retries cfg) c ?st = Some res \<and>
        scan_ended tr flts (range_inv p index ?start ?st) ?start (snd r) res"
      by (rule iter_log_chunks_ends [where I = "range_inv p index ?start ?st", OF assms(1) start_inv assms(2) True])
        (rule commit_chunk_inv, auto simp: st r(1))
    then show thesis using True that by auto
  next
    case False
    then have "scan_ended tr flts (range_inv p index ?start ?st) ?start (snd r) (ScanDone, [], c, ?st)"
      using start_inv within r by (simp add: scan_ended_def)
    then show thesis using False that by simp
  qed
  obtain outcome chs c' st' where res: "res = (outcome, chs, c', st')" by (cases res)
  have inv: "range_inv p index ?start ?st chs st'" using ended by (simp add: res scan_ended_def)
  then have st': "job_inv p (sc_job st') (sc_committed st')" "job_kept (sc_job st) (sc_job st')"
      "sc_committed st' = sc_committed st @ chs"
    unfolding range_inv_def st by auto
  show ?case
  proof (cases outcome)
    case ScanDone
    let ?next = "leave_range index st'"
    obtain k where "tiles ?start chs k" "at_block index k (sc_job st')" using inv by (auto simp: range_inv_def)
    moreover have "tiles ?start chs (snd r + 1)" using ended ScanDone by (auto simp: res scan_ended_def)
    moreover have plan: "jb_plan_ranges (sc_job st') = ?plan" using st'(2) by (simp add: job_kept_def)
    ultimately have "at_block index (snd (jb_plan_ranges (sc_job st') ! index) + 1) (sc_job st')"
      using tiles_unique by (metis r(1))
    from leave_range_inv [OF st'(1) this]
    have nxt: "job_inv p (sc_job ?next) (sc_committed ?next)" by (simp add: leave_range_def)
    have kept: "job_kept (sc_job st) (sc_job ?next)" using st'(2) by (simp add: job_kept_def leave_range_def)
    have "rs = drop (index + 1) (jb_plan_ranges (sc_job ?next))" using r(2) plan by (simp add: leave_range_def)
    from Cons.IH [OF nxt _ _ this, of None c']
    obtain e c2 st2 chs2 where "run_ranges tr process cfg flts (index + 1) rs None c' ?next = Some (e, c2, st2)"
        "job_inv p (sc_job st2) (sc_committed st2)" "job_kept (sc_job ?next) (sc_job st2)"
        "sc_committed st2 = sc_committed ?next @ chs2"
        "e = None \<longrightarrow> covered_spans (sc_job st2) = jb_plan_ranges (sc_job st2)"
      by (auto simp: leave_range_def)
    moreover have "sc_committed ?next = sc_committed st @ chs" by (simp add: leave_range_def st'(3))
    ultimately show ?thesis
      using job_kept_trans [OF kept] scan by (auto simp: Let_def res ScanDone)
  next
    case (ScanFailed e)
    then show ?thesis using st' scan by (auto simp: Let_def res)
  next
    case (ConsumerRaised e)
    then show ?thesis using st' scan by (auto simp: Let_def res)
  qed
qed

section \<open>The life of a scan\<close>

text \<open>
  Every history of a stored scan: it is created; a cycle claims it when it is open and runs it,
  with filters, network and settings of its own; the target is removed. The first block of the live
  tail is set once, when the target is added. Between two cycles the rest of the
  database may change. A cycle that runs without a filter reads nothing and still advances the scan;
  the last index collects the blocks it passes over.
\<close>

definition passed_over :: "log_filter list option \<Rightarrow> 'v backfill_job \<Rightarrow> 'v backfill_job \<Rightarrow> int set" where
  "passed_over flts job job' = (if flts = Some [] then blocks (covered_spans job') - blocks (covered_spans job) else {})"

inductive scan_history ::
  "'s log_transport \<Rightarrow> int option \<Rightarrow> 'v backfill_job \<Rightarrow> 'w \<Rightarrow> log_chunk list \<Rightarrow> int set \<Rightarrow> bool"
  for tr :: "'s log_transport" and live_start_block :: "int option"
where
  created: "scan_history tr live_start_block create_backfill w [] {}"
| cycle: "scan_history tr live_start_block job w committed p \<Longrightarrow> jb_status job \<in> set OPEN_BACKFILL_STATUSES \<Longrightarrow>
    run_job tr process estimate others live_start_block (worker_config env) flts net (claim_backfill owner job) w1 committed =
      Some (state, c, job', w', committed') \<Longrightarrow>
    scan_history tr live_start_block job' w' committed' (p \<union> passed_over flts job job')"
| removed: "scan_history tr live_start_block job w committed p \<Longrightarrow> scan_history tr live_start_block (remove_target_job job) w' committed p"

text \<open>What the status of a scan claims about its blocks.\<close>

definition status_ok :: "'v backfill_job \<Rightarrow> bool" where
  "status_ok job \<longleftrightarrow>
     (jb_status job = ''completed'' \<longrightarrow> covered_spans job = jb_plan_ranges job) \<and>
     (jb_status job = ''failed'' \<longrightarrow> jb_scanned_blocks job = 0) \<and>
     (jb_status job = ''partial'' \<longrightarrow> jb_scanned_blocks job \<noteq> 0) \<and>
     (\<not> jb_planned job \<longrightarrow> jb_plan_ranges job = [] \<and> jb_scanned_blocks job = 0)"

definition scan_ok :: "int set \<Rightarrow> 'v backfill_job \<Rightarrow> log_chunk list \<Rightarrow> bool" where
  "scan_ok p job committed \<longleftrightarrow> job_inv p job committed \<and> status_ok job"

lemma create_ok: "scan_ok {} create_backfill []"
  by (simp add: scan_ok_def status_ok_def job_inv_def create_backfill_def cursor_ok_def covered_spans_def chunk_ranges_def)

lemma claim_ok: "scan_ok p job committed \<Longrightarrow> scan_ok p (claim_backfill owner job) committed"
  using blocks_of_row [of "claim_backfill owner job" job]
  by (simp add: scan_ok_def status_ok_def claim_backfill_def)

lemma finish_inv: "job_inv p (finish_job state reason job) committed = job_inv p job committed"
    "job_inv p (release_job count_attempt job) committed = job_inv p job committed"
    "job_inv p (job\<lparr>jb_attempts := n\<rparr>) committed = job_inv p job committed"
    "covered_spans (finish_job state reason job) = covered_spans job"
    "jb_plan_ranges (finish_job state reason job) = jb_plan_ranges job"
  using blocks_of_row [of "finish_job state reason job" job] blocks_of_row [of "release_job count_attempt job" job]
    blocks_of_row [of "job\<lparr>jb_attempts := n\<rparr>" job]
  by (simp_all add: finish_job_def release_job_def)

text \<open>Stopping and deferring a running scan.\<close>

definition running :: "'v backfill_job \<Rightarrow> bool" where
  "running job \<longleftrightarrow> jb_status job = ''running'' \<and> (\<not> jb_planned job \<longrightarrow> jb_plan_ranges job = [] \<and> jb_scanned_blocks job = 0)"

lemma stop_ok: "job_inv p job committed \<Longrightarrow> running job \<Longrightarrow> scan_ok p (snd (stop_job e job)) committed"
  by (auto simp: scan_ok_def stop_job_def finish_inv partial_or_failed_def split: run_error.split)
    (auto simp: running_def status_ok_def finish_job_def release_job_def)

lemma defer_ok: "job_inv p job committed \<Longrightarrow> running job \<Longrightarrow> scan_ok p (snd (defer_job code job)) committed"
  by (auto simp: scan_ok_def defer_job_def finish_inv partial_or_failed_def)
    (auto simp: running_def status_ok_def finish_job_def release_job_def)

text \<open>The number in the row is the number of blocks in the committed chunks.\<close>

lemma scanned_card: "job_inv p job committed \<Longrightarrow> jb_scanned_blocks job = int (card (blocks (chunk_ranges committed)))"
  using block_count_card [of "chunk_ranges committed"] by (simp add: job_inv_def)

lemma removed_ok: "scan_ok p job committed \<Longrightarrow> scan_ok p (remove_target_job job) committed"
  using scanned_card [of p job committed]
  by (auto simp: scan_ok_def remove_target_job_def finish_inv) (auto simp: status_ok_def finish_job_def)

lemma stopped_plan: "jb_plan_ranges (snd (stop_job e job)) = jb_plan_ranges job"
    "jb_plan_ranges (snd (defer_job code job)) = jb_plan_ranges job"
  by (simp_all add: stop_job_def defer_job_def finish_job_def release_job_def split: run_error.split)

lemma run_plan_ok:
  assumes "job_inv p job committed" and "running job" and "1 \<le> ws_min_chunk_blocks cfg" and "flts \<noteq> []"
  shows "\<exists>state c' job' w' chs. run_plan tr process cfg flts job c w committed = Some (state, c', job', w', committed @ chs) \<and>
    scan_ok p job' (committed @ chs) \<and> jb_plan_ranges job' = jb_plan_ranges job"
proof (cases "jb_plan_ranges job = []")
  case True
  then have "covered_spans job = []" by (auto simp: covered_spans_def split: option.split)
  then show ?thesis using True assms(1,2)
    by (auto simp: run_plan_def scan_ok_def finish_inv status_ok_def running_def) (auto simp: finish_job_def)
next
  case False
  let ?st = "\<lparr>sc_job = job, sc_world = w, sc_history_index = jb_range_index job,
     sc_runtime = history_rule_state job (jb_range_index job),
     sc_chunk_size = (if jb_chunk_size job \<noteq> 0 then jb_chunk_size job else ws_backfill_chunk_blocks cfg),
     sc_committed = committed\<rparr>"
  obtain e c' st' chs where run: "run_ranges tr process cfg flts (jb_range_index job)
        (drop (jb_range_index job) (jb_plan_ranges job)) (jb_cursor_block job) c ?st = Some (e, c', st')"
      and inv: "job_inv p (sc_job st') (committed @ chs)" and kept: "job_kept job (sc_job st')"
      and cs: "sc_committed st' = committed @ chs"
      and all: "e = None \<longrightarrow> covered_spans (sc_job st') = jb_plan_ranges (sc_job st')"
    using run_ranges_inv [OF assms(3,4), of p ?st "jb_range_index job" "jb_cursor_block job"
        "drop (jb_range_index job) (jb_plan_ranges job)" tr process c] assms(1) by auto
  have "jb_planned job" using assms(2) False by (auto simp: running_def)
  then have running: "running (sc_job st')" using kept assms(2) by (simp add: job_kept_def running_def)
  show ?thesis
  proof (cases e)
    case None
    then have "scan_ok p (finish_job ''completed'' None (sc_job st')) (committed @ chs)"
      using inv all running by (simp add: scan_ok_def finish_inv status_ok_def running_def) (simp add: finish_job_def)
    then show ?thesis using run None cs False kept by (simp add: run_plan_def Let_def finish_inv job_kept_def)
  next
    case (Some err)
    then show ?thesis using run cs False kept stop_ok [OF inv running, of err] stopped_plan(1) [of err "sc_job st'"]
      by (auto simp: job_kept_def run_plan_def Let_def split: prod.split)
  qed
qed

text \<open>Without a filter the ranges are passed over and count as covered.\<close>

lemma run_ranges_unfiltered:
  "jb_range_index (sc_job st) = index \<Longrightarrow> jb_cursor_block (sc_job st) = cursor \<Longrightarrow> cursor_ok (sc_job st) \<Longrightarrow>
   rs = drop index (jb_plan_ranges (sc_job st)) \<Longrightarrow>
   \<exists>st'. run_ranges tr process cfg [] index rs cursor c st = Some (None, c, st') \<and> sc_committed st' = sc_committed st \<and>
     job_kept (sc_job st) (sc_job st') \<and> jb_scanned_blocks (sc_job st') = jb_scanned_blocks (sc_job st) \<and>
     cursor_ok (sc_job st') \<and> covered_spans (sc_job st') = jb_plan_ranges (sc_job st)"
proof (induction rs arbitrary: index cursor st)
  case Nil
  then have "jb_cursor_block (sc_job st) = None" by (auto simp: cursor_ok_def split: option.splits)
  then show ?case using Nil by (simp add: covered_spans_def job_kept_def)
next
  case (Cons r rs)
  let ?next = "leave_range index (enter_range index st)"
  have len: "index < length (jb_plan_ranges (sc_job st))"
    using Cons.prems(4) by (metis drop_eq_Nil linorder_not_less list.distinct(1))
  then have "rs = drop (index + 1) (jb_plan_ranges (sc_job ?next))"
    using Cons.prems(4) by (simp add: leave_range_def enter_range_def Cons_nth_drop_Suc [symmetric])
  moreover have "cursor_ok (sc_job ?next)" using len by (simp add: cursor_ok_def leave_range_def enter_range_def)
  ultimately obtain st' where "run_ranges tr process cfg [] (index + 1) rs None c ?next = Some (None, c, st')"
      "sc_committed st' = sc_committed ?next" "job_kept (sc_job ?next) (sc_job st')"
      "jb_scanned_blocks (sc_job st') = jb_scanned_blocks (sc_job ?next)" "cursor_ok (sc_job st')"
      "covered_spans (sc_job st') = jb_plan_ranges (sc_job ?next)"
    using Cons.IH [of ?next "index + 1" None] by (auto simp: leave_range_def)
  moreover have "sc_committed ?next = sc_committed st" "jb_plan_ranges (sc_job ?next) = jb_plan_ranges (sc_job st)"
      "jb_scanned_blocks (sc_job ?next) = jb_scanned_blocks (sc_job st)" "job_kept (sc_job st) (sc_job ?next)"
    by (simp_all add: leave_range_def enter_range_def job_kept_def)
  ultimately show ?case by (simp add: iter_log_chunks_def Let_def) (metis job_kept_trans)
qed

lemma run_plan_unfiltered:
  assumes "job_inv p job committed" and "running job"
  shows "\<exists>job' w'. run_plan tr process cfg [] job c w committed = Some (''completed'', c, job', w', committed) \<and>
    scan_ok (p \<union> passed_over (Some []) job job') job' committed \<and> jb_plan_ranges job' = jb_plan_ranges job \<and>
    covered_spans job' = jb_plan_ranges job"
proof (cases "jb_plan_ranges job = []")
  case True
  then have "covered_spans job = []" by (auto simp: covered_spans_def split: option.split)
  then show ?thesis using True assms
    by (auto simp: run_plan_def scan_ok_def finish_inv status_ok_def running_def passed_over_def) (auto simp: finish_job_def)
next
  case False
  let ?st = "\<lparr>sc_job = job, sc_world = w, sc_history_index = jb_range_index job,
     sc_runtime = history_rule_state job (jb_range_index job),
     sc_chunk_size = (if jb_chunk_size job \<noteq> 0 then jb_chunk_size job else ws_backfill_chunk_blocks cfg),
     sc_committed = committed\<rparr>"
  have cur: "cursor_ok job" using assms(1) by (simp add: job_inv_def)
  obtain st' where st': "run_ranges tr process cfg [] (jb_range_index job) (drop (jb_range_index job) (jb_plan_ranges job))
      (jb_cursor_block job) c ?st = Some (None, c, st')" "sc_committed st' = committed" "job_kept job (sc_job st')"
      "jb_scanned_blocks (sc_job st') = jb_scanned_blocks job" "cursor_ok (sc_job st')"
      "covered_spans (sc_job st') = jb_plan_ranges job"
    using run_ranges_unfiltered [of ?st "jb_range_index job" "jb_cursor_block job" "drop (jb_range_index job) (jb_plan_ranges job)" tr process cfg c]
      cur by auto
  let ?job = "finish_job ''completed'' None (sc_job st')"
  have "blocks (covered_spans job) \<subseteq> blocks (jb_plan_ranges job)" by (rule covered_within [OF cur])
  then have "job_inv (p \<union> passed_over (Some []) job (sc_job st')) (sc_job st') committed"
    using assms(1) st'(3-6) by (auto simp: job_inv_def job_kept_def passed_over_def)
  moreover have "passed_over (Some []) job ?job = passed_over (Some []) job (sc_job st')"
    by (simp add: passed_over_def finish_inv)
  moreover have "status_ok ?job"
    using st'(3,6) assms(2) False by (simp add: status_ok_def finish_inv job_kept_def running_def) (simp add: finish_job_def)
  ultimately have "scan_ok (p \<union> passed_over (Some []) job ?job) ?job committed" by (simp add: scan_ok_def finish_inv)
  then show ?thesis using st' False by (simp add: run_plan_def Let_def finish_inv job_kept_def)
qed

text \<open>A new plan: exactly the blocks of the window that no earlier scan covered.\<close>

lemma plan_ranges_spec:
  "ordered_ranges (plan_ranges estimate window_end covered) \<and>
   blocks (plan_ranges estimate window_end covered) = {min estimate window_end..window_end} - blocks (filter (\<lambda>r. fst r \<le> snd r) covered)"
proof -
  let ?spans = "map (\<lambda>(a, b). (Some a, Some b)) covered"
  have "concat (map usable_range ?spans) = filter (\<lambda>r. fst r \<le> snd r) covered"
    by (induction covered) auto
  then have u: "usable_blocks ?spans = blocks (filter (\<lambda>r. fst r \<le> snd r) covered)"
    by (simp only: usable_blocks_def)
  have p: "plan_ranges estimate window_end covered = subtract_ranges (min estimate window_end, window_end) ?spans"
    by (simp add: plan_ranges_def)
  show ?thesis
    unfolding p u [symmetric] using subtract_ranges_spec [of "(min estimate window_end, window_end)" ?spans]
    by (simp only: fst_conv snd_conv)
qed

text \<open>The plan ends before the live tail begins.\<close>

definition plan_below :: "int option \<Rightarrow> 'v backfill_job \<Rightarrow> bool" where
  "plan_below live_start_block job \<longleftrightarrow>
     (\<forall>b. live_start_block = Some b \<and> b \<noteq> 0 \<longrightarrow> blocks (jb_plan_ranges job) \<subseteq> {..<b})"

lemma unplanned_empty:
  assumes "job_inv p job committed" and "running job" and "\<not> jb_planned job"
  shows "blocks (chunk_ranges committed) = {}" and "p = {}" and "covered_spans job = []"
proof -
  have "jb_plan_ranges job = []" "jb_scanned_blocks job = 0" using assms(2,3) by (auto simp: running_def)
  then have "block_count (chunk_ranges committed) = 0" "ordered_ranges (chunk_ranges committed)" "covered_spans job = []"
    using assms(1) by (auto simp: job_inv_def covered_spans_def cursor_ok_def split: option.split)
  then show "blocks (chunk_ranges committed) = {}" "p = {}" "covered_spans job = []"
    using assms(1) block_count_card [of "chunk_ranges committed"] by (auto simp: job_inv_def)
qed

lemma plan_job_ok:
  assumes "job_inv p job committed" and "running job" and "\<not> jb_planned job"
    and "plan_job estimate others live_start_block tip cfg job c = (Inr job', c')"
  shows "job_inv p job' committed" and "running job'" and "plan_below live_start_block job'"
proof -
  have old: "jb_plan_ranges job = []" "jb_scanned_blocks job = 0" "jb_status job = ''running''"
    using assms(2,3) by (auto simp: running_def)
  note empty = unplanned_empty(1,2) [OF assms(1-3)]
  let ?w = "case live_start_block of None \<Rightarrow> tip | Some b \<Rightarrow> if b \<noteq> 0 then b - 1 else tip"
  obtain block where job': "job' = job\<lparr>jb_estimated_start_block := Some block, jb_window_end_block := Some ?w,
      jb_plan_ranges := plan_ranges block ?w (concat (map covered_spans others)),
      jb_total_blocks := block_count (plan_ranges block ?w (concat (map covered_spans others))), jb_planned := True,
      jb_range_index := 0, jb_cursor_block := None, jb_chunk_size := ws_backfill_chunk_blocks cfg\<rparr>"
    using assms(4) by (auto simp: plan_job_def Let_def split: prod.splits sum.splits)
  then show "job_inv p job' committed" "running job'"
    using assms(1) old empty plan_ranges_spec [of block ?w "concat (map covered_spans others)"]
    by (simp_all add: job_inv_def cursor_ok_def covered_spans_def running_def)
  show "plan_below live_start_block job'"
    using job' plan_ranges_spec [of block ?w "concat (map covered_spans others)"] by (auto simp: plan_below_def)
qed

text \<open>One claimed cycle ends, keeps what was committed and keeps the invariant.\<close>

lemma passed_over_same: "covered_spans job' = covered_spans job \<Longrightarrow> passed_over flts job job' = {}"
  by (simp add: passed_over_def)

lemma stopped_covered: "covered_spans (snd (stop_job e job)) = covered_spans job"
    "covered_spans (snd (defer_job code job)) = covered_spans job"
  using blocks_of_row [of "snd (stop_job e job)" job] blocks_of_row [of "snd (defer_job code job)" job]
  by (auto simp: stop_job_def defer_job_def finish_job_def release_job_def split: run_error.split)

lemma run_job_ok:
  assumes "scan_ok p job committed" and "jb_status job = ''running''" and "settings_ok cfg"
  shows "\<exists>state c job' w' chs. run_job tr process estimate others live_start_block cfg flts net job w committed =
      Some (state, c, job', w', committed @ chs) \<and> scan_ok (p \<union> passed_over flts job job') job' (committed @ chs) \<and>
      (plan_below live_start_block job \<longrightarrow> plan_below live_start_block job')"
proof -
  have inv: "job_inv p job committed" and run: "running job"
    using assms(1,2) by (auto simp: scan_ok_def running_def status_ok_def)
  show ?thesis
  proof (cases flts)
    case None
    have "scan_ok p (finish_job (partial_or_failed job) reason job) committed" for reason
      using inv run by (auto simp: scan_ok_def finish_inv partial_or_failed_def)
        (auto simp: running_def status_ok_def finish_job_def)
    then show ?thesis by (simp add: run_job_def None plan_below_def finish_inv passed_over_def)
  next
    case (Some fs)
    let ?start = "if jb_planned job then (Inr job, the (nc_client net))
      else plan_job estimate others live_start_block (the (nc_tip net)) cfg job (the (nc_client net))"
    obtain r c' where start: "?start = (r, c')" by fastforce
    consider "\<not> network_ready net" | e where "network_ready net" "r = Inl e" | job1 where "network_ready net" "r = Inr job1"
      by (cases r) auto
    then show ?thesis
    proof cases
      case 1
      obtain state job' where d: "defer_job (nc_error_code net) job = (state, job')" by fastforce
      have "scan_ok (p \<union> passed_over flts job job') job' committed" "jb_plan_ranges job' = jb_plan_ranges job"
        using defer_ok [OF inv run, of "nc_error_code net"] stopped_plan(2) [of "nc_error_code net" job]
          passed_over_same [OF stopped_covered(2), of flts job "nc_error_code net"] by (simp_all add: d)
      with 1 d show ?thesis by (simp add: run_job_def Some plan_below_def)
    next
      case (2 e)
      obtain state job' where d: "stop_job e job = (state, job')" by fastforce
      have "scan_ok (p \<union> passed_over flts job job') job' committed" "jb_plan_ranges job' = jb_plan_ranges job"
        using stop_ok [OF inv run, of e] stopped_plan(1) [of e job]
          passed_over_same [OF stopped_covered(1), of flts job e] by (simp_all add: d)
      with 2 start d show ?thesis by (simp add: run_job_def Some plan_below_def)
    next
      case (3 job1)
      have job1: "job_inv p job1 committed" "running job1" "plan_below live_start_block job \<longrightarrow> plan_below live_start_block job1"
        using start 3 inv run plan_job_ok [OF inv run, of estimate others live_start_block "the (nc_tip net)" cfg]
        by (auto split: if_splits)
      have same: "blocks (covered_spans job1) = blocks (covered_spans job)"
      proof (cases "jb_planned job")
        case True
        then show ?thesis using start 3 by simp
      next
        case False
        note empty = unplanned_empty [OF inv run False]
        then have "blocks (covered_spans job1) = {}" using job1(1) by (simp add: job_inv_def)
        then show ?thesis using empty(3) by simp
      qed
      show ?thesis
      proof (cases "fs = []")
        case True
        then obtain job' w' where "run_plan tr process cfg fs job1 c' w committed = Some (''completed'', c', job', w', committed)"
            "scan_ok (p \<union> passed_over flts job job') job' committed" "jb_plan_ranges job' = jb_plan_ranges job1"
          using run_plan_unfiltered [OF job1(1,2), of tr process cfg c' w] same by (auto simp: passed_over_def Some)
        then show ?thesis using start 3 job1(3) by (simp add: run_job_def Some Let_def plan_below_def)
      next
        case False
        then obtain state c2 job' w' chs where "run_plan tr process cfg fs job1 c' w committed =
            Some (state, c2, job', w', committed @ chs)" "scan_ok p job' (committed @ chs)" "jb_plan_ranges job' = jb_plan_ranges job1"
          using run_plan_ok [OF job1(1,2) _ False, of cfg tr process c' w] assms(3) by (auto simp: settings_ok_def)
        then show ?thesis using start 3 job1(3) False by (auto simp: run_job_def Some Let_def plan_below_def passed_over_def)
      qed
    qed
  qed
qed

lemma scan_history_ok: "scan_history tr live job w committed p \<Longrightarrow> scan_ok p job committed \<and> plan_below live job"
proof (induction rule: scan_history.induct)
  case (cycle job w committed p process estimate others env flts net owner w1 state c job' w' committed')
  have st: "jb_status (claim_backfill owner job) = ''running''" by (simp add: claim_backfill_def)
  have claimed: "scan_ok p (claim_backfill owner job) committed" "plan_below live (claim_backfill owner job)"
    using cycle.IH claim_ok by (auto simp: plan_below_def claim_backfill_def)
  have "covered_spans (claim_backfill owner job) = covered_spans job"
    using blocks_of_row(3) [of "claim_backfill owner job" job] by (simp add: claim_backfill_def)
  then have "passed_over flts (claim_backfill owner job) job' = passed_over flts job job'" by (simp add: passed_over_def)
  with run_job_ok [OF claimed(1) st worker_config_ok] claimed(2) cycle(3) show ?case by (metis option.inject prod.inject)
next
  case (created w)
  show ?case using create_ok by (simp add: plan_below_def create_backfill_def)
next
  case (removed job w committed p w')
  moreover have "jb_plan_ranges (remove_target_job job) = jb_plan_ranges job" by (simp add: remove_target_job_def finish_inv)
  ultimately show ?case using removed_ok by (auto simp: plan_below_def)
qed

section \<open>What goes wrong\<close>

lemma unwatched_history_counts_as_covered:
  assumes "job_inv {} job []" and "running job" and "jb_plan_ranges job \<noteq> []"
  shows "\<exists>job' w'. run_plan tr process cfg [] job c w [] = Some (''completed'', c, job', w', []) \<and>
    covered_spans job' = jb_plan_ranges job"
  using run_plan_unfiltered [OF assms(1,2), of tr process cfg c w] by blast

text \<open>Cycles in which no provider answered use up the attempts of a range that then fails once.\<close>

lemma outages_use_up_the_attempts:
  "fst (stop_job OtherStop (snd (defer_job (Some ''RPC_UNAVAILABLE'') (snd (defer_job (Some ''RPC_UNAVAILABLE'') create_backfill)))))
     = ''stopped''"
  by (simp add: stop_job_def defer_job_def release_job_def create_backfill_def MAX_JOB_ATTEMPTS_def MAX_OUTAGE_ATTEMPTS_def)

section \<open>Properties\<close>

text \<open>
  C28. The plan of a new scan is, in order and without overlap, exactly the blocks from the
  estimated start to the end of the window (the block before the live tail, or the tip) that no
  other scan of the target has covered, and its number of blocks is theirs.
\<close>

theorem plan_is_what_is_missing:
  assumes "plan_job estimate others live_start_block tip cfg job c = (Inr job', c')"
  shows "\<exists>block. estimate c = (Inr block, c') \<and>
    (let window_end = (case live_start_block of Some b \<Rightarrow> if b \<noteq> 0 then b - 1 else tip | None \<Rightarrow> tip);
         missing = {min block window_end..window_end} - blocks (filter (\<lambda>r. fst r \<le> snd r) (concat (map covered_spans others)))
     in ordered_ranges (jb_plan_ranges job') \<and> blocks (jb_plan_ranges job') = missing \<and>
        jb_total_blocks job' = int (card missing))"
proof -
  let ?w = "case live_start_block of Some b \<Rightarrow> if b \<noteq> 0 then b - 1 else tip | None \<Rightarrow> tip"
  obtain block where "estimate c = (Inr block, c')"
      and job': "jb_plan_ranges job' = plan_ranges block ?w (concat (map covered_spans others))"
        "jb_total_blocks job' = block_count (plan_ranges block ?w (concat (map covered_spans others)))"
    using assms by (auto simp: plan_job_def Let_def split: prod.splits sum.splits)
  moreover let ?covered = "concat (map covered_spans others)"
  note spec = plan_ranges_spec [of block ?w ?covered]
  have "block_count (plan_ranges block ?w ?covered) = int (card ({min block ?w..?w} - blocks (filter (\<lambda>r. fst r \<le> snd r) ?covered)))"
    using block_count_card [of "plan_ranges block ?w ?covered"] spec by simp
  ultimately show ?thesis using spec unfolding Let_def by (intro exI [of _ block]) (simp only: job')
qed

text \<open>
  C26. Over every history of a scan (cycles with whatever filters, answers of the provider, budgets,
  errors, rollbacks and settings of the environment; removal of its target) the committed chunks are
  in ascending order and without overlap, so that no block is committed twice, and their number of
  blocks is the number the row reports. The blocks the row claims to have covered are the committed
  ones and those that cycles without a filter passed over, which are never committed. A completed
  scan has covered its plan, and read all of it when every cycle had a filter; a failed one has
  committed nothing; a partial one something.
\<close>

theorem backfill_reads_each_block_once:
  assumes "scan_history tr live_start_block job w committed passed"
  shows "ordered_ranges (chunk_ranges committed) \<and> jb_scanned_blocks job = int (card (blocks (chunk_ranges committed))) \<and>
    blocks (covered_spans job) = blocks (chunk_ranges committed) \<union> passed \<and> blocks (chunk_ranges committed) \<inter> passed = {} \<and>
    (jb_status job = ''completed'' \<longrightarrow> blocks (covered_spans job) = blocks (jb_plan_ranges job) \<and>
       (passed = {} \<longrightarrow> blocks (chunk_ranges committed) = blocks (jb_plan_ranges job) \<and> jb_scanned_blocks job = jb_total_blocks job)) \<and>
    (jb_status job = ''failed'' \<longrightarrow> committed = []) \<and> (jb_status job = ''partial'' \<longrightarrow> committed \<noteq> [])"
proof -
  have inv: "job_inv passed job committed" and st: "status_ok job" using scan_history_ok [OF assms] by (auto simp: scan_ok_def)
  have "jb_scanned_blocks job = 0 \<longleftrightarrow> committed = []"
    using scanned_card [OF inv] inv block_count_card [of "chunk_ranges committed"]
    by (cases committed) (auto simp: job_inv_def chunk_ranges_def)
  moreover have "jb_total_blocks job = int (card (blocks (jb_plan_ranges job)))"
    using inv block_count_card [of "jb_plan_ranges job"] by (simp add: job_inv_def)
  ultimately show ?thesis using inv st scanned_card [OF inv] by (auto simp: job_inv_def status_ok_def)
qed

text \<open>
  C27. A cycle of an open scan always returns, whatever the provider answers: with the settings of
  any environment the loops over ranges, chunks, smaller chunks and retries end, and everything
  committed before stays committed.
\<close>

theorem backfill_cycle_ends:
  assumes "scan_history tr live_start_block job w committed passed" and "jb_status job \<in> set OPEN_BACKFILL_STATUSES"
  shows "\<exists>state c job' w' chs. run_job tr process estimate others live_start_block (worker_config env) flts net
      (claim_backfill owner job) w1 committed = Some (state, c, job', w', committed @ chs)"
proof -
  have "jb_status (claim_backfill owner job) = ''running''" by (simp add: claim_backfill_def)
  from run_job_ok [OF claim_ok [OF conjunct1 [OF scan_history_ok [OF assms(1)]]] this worker_config_ok] show ?thesis by metis
qed

section \<open>Concrete runs\<close>

text \<open>A window of blocks 1 to 5 of which another scan covered block 3, over \<open>demo_node\<close>; the live tail begins at block 6.\<close>

definition demo_process :: "(unit, unit, unit) process" where
  "demo_process index runtime logs c w = (Inr (\<lparr>st_logs = int (length logs), st_events_inserted = 0\<rparr>, runtime, False, w), c)"

definition demo_estimate :: "unit rpc_client \<Rightarrow> (run_error + int) \<times> unit rpc_client" where
  "demo_estimate c = (Inr 1, c)"

definition demo_other :: "unit backfill_job" where
  "demo_other = create_backfill\<lparr>jb_status := ''completed'', jb_plan_ranges := [(3, 3)], jb_range_index := 1\<rparr>"

definition demo_network :: "unit network_handle" where
  "demo_network = \<lparr>nc_client = Some demo_client, nc_tip = Some 10, nc_error = None, nc_error_code = None\<rparr>"

definition demo_cycle :: "(string \<times> unit rpc_client option \<times> unit backfill_job \<times> unit \<times> log_chunk list) option" where
  "demo_cycle = run_job demo_node demo_process demo_estimate [demo_other] (Some 6) (worker_config Map.empty) (Some [demo_filter])
     demo_network (claim_backfill ''w'' create_backfill) () []"

lemma demo_plan: "plan_ranges 1 5 (concat (map covered_spans [demo_other])) = [(1, 2), (4, 5)]"
  by (simp add: plan_ranges_def demo_other_def create_backfill_def covered_spans_def subtract_ranges_def merge_ranges_def)

theorem plan_is_what_is_missing_witness:
  "(let missing = {1..5} - blocks (filter (\<lambda>r. fst r \<le> snd r) (concat (map covered_spans [demo_other])))
    in blocks [(1, 2), (4, 5)] = missing \<and> card missing = 4)"
proof -
  obtain job' where job': "plan_job demo_estimate [demo_other] (Some 6) 10 (worker_config Map.empty) create_backfill demo_client =
      (Inr job', demo_client)" "jb_plan_ranges job' = [(1, 2), (4, 5)]" "jb_total_blocks job' = 4"
    using demo_plan by (simp add: plan_job_def demo_estimate_def)
  from plan_is_what_is_missing [OF job'(1)] job'(2,3) show ?thesis
    by (simp add: demo_estimate_def Let_def)
qed

definition demo_job :: "unit backfill_job" where
  "demo_job = create_backfill\<lparr>jb_status := ''completed'', jb_planned := True, jb_estimated_start_block := Some 1,
     jb_window_end_block := Some 5, jb_plan_ranges := [(1, 2), (4, 5)], jb_range_index := 2, jb_total_blocks := 4,
     jb_scanned_blocks := 4, jb_chunks_completed := 2, jb_logs_found := 1, jb_chunk_size := 2000\<rparr>"

definition demo_chunks :: "log_chunk list" where
  "demo_chunks = [(demo_chunk 1 2 [])\<lparr>ch_chunk_size := 2000\<rparr>, (demo_chunk 4 5 [demo_log])\<lparr>ch_chunk_size := 2000\<rparr>]"

lemma default_settings:
  "ws_min_chunk_blocks (worker_config Map.empty) = 1" "ws_chunk_max_retries (worker_config Map.empty) = 3"
  "ws_backfill_chunk_blocks (worker_config Map.empty) = 2000"
  by (simp_all add: worker_config_def Let_def env_int_between_def)

lemma demo_cycle_runs:
  "demo_cycle = Some (''completed'', Some (demo_client\<lparr>cl_calls := 2\<rparr>), demo_job, (), demo_chunks)"
proof -
  let ?job = "(claim_backfill ''w'' create_backfill)\<lparr>jb_planned := True, jb_estimated_start_block := Some 1,
     jb_window_end_block := Some 5, jb_plan_ranges := [(1, 2), (4, 5)], jb_total_blocks := 4, jb_chunk_size := 2000\<rparr>"
  have plan: "plan_job demo_estimate [demo_other] (Some 6) 10 (worker_config Map.empty) (claim_backfill ''w'' create_backfill) demo_client =
      (Inr ?job, demo_client)"
    using demo_plan by (simp add: plan_job_def demo_estimate_def default_settings claim_backfill_def create_backfill_def)
  note loop = scan_loop.simps [of demo_node]
  have "run_plan demo_node demo_process (worker_config Map.empty) [demo_filter] ?job demo_client () [] =
      Some (''completed'', demo_client\<lparr>cl_calls := 2\<rparr>, demo_job, (), demo_chunks)"
    by (simp add: run_plan_def Let_def history_rule_state_def default_settings resume_at_def enter_range_def leave_range_def iter_log_chunks_def
        loop demo_fetch commit_chunk_def demo_process_def chunk_progress_def demo_client_def claim_backfill_def create_backfill_def
        finish_job_def demo_job_def demo_chunks_def demo_chunk_def)
  then show ?thesis
    using plan by (simp add: demo_cycle_def run_job_def network_ready_def demo_network_def claim_backfill_def create_backfill_def)
qed

lemma demo_history: "scan_history demo_node (Some 6) demo_job () demo_chunks {}"
  using scan_history.cycle [OF scan_history.created _ demo_cycle_runs [unfolded demo_cycle_def]]
  by (simp add: OPEN_BACKFILL_STATUSES_def create_backfill_def passed_over_def)

theorem backfill_reads_each_block_once_witness:
  "jb_status demo_job = ''completed'' \<and> blocks (chunk_ranges demo_chunks) = blocks [(1, 2), (4, 5)] \<and>
   int (card (blocks (chunk_ranges demo_chunks))) = 4"
proof -
  have "jb_status demo_job = ''completed''" "jb_plan_ranges demo_job = [(1, 2), (4, 5)]" "jb_scanned_blocks demo_job = 4"
    by (simp_all add: demo_job_def)
  then show ?thesis using backfill_reads_each_block_once [OF demo_history] by metis
qed

theorem backfill_cycle_ends_witness:
  "\<exists>state c job' w' chs. run_job demo_node demo_process demo_estimate [demo_other] (Some 6) (worker_config Map.empty) (Some [demo_filter])
     demo_network (claim_backfill ''w'' create_backfill) () [] = Some (state, c, job', w', [] @ chs)"
  by (rule backfill_cycle_ends [OF scan_history.created [where w = "()"]]) (simp_all add: OPEN_BACKFILL_STATUSES_def create_backfill_def)

end
