(* ===== verification/Live_Poll.thy ===== *)
theory Live_Poll
  imports Backfill
begin

text \<open>
  The live tail of a target, \<open>poll_target\<close> of
  \<open>services/api/app/domains/external_watchlist/worker.py\<close>, and the networks of a cycle: how the chain
  reader is built and checked, which blocks a poll reads, what it commits and how it is recorded.

  Parameters: the transport; \<open>ingest.process_logs\<close> and the evaluation of the oracle heartbeats, which
  read and change the rule state in memory and the rest of the database, and may raise; what is
  loaded at the start. The time is the current one in microseconds.
\<close>

section \<open>The networks of a cycle\<close>

text \<open>
  \<open>network_context\<close>: a client for a configured network, its chain checked, and the tip. The answers of
  \<open>eth_chainId\<close> and \<open>eth_blockNumber\<close> are read as integers; \<open>tip_time\<close> is that of the tip's block. A
  budget that runs out is passed on.
\<close>

datatype 's opened = BudgetGone "'s rpc_client" | Context "'s network_handle"

definition failed_network :: "string \<Rightarrow> 's network_handle" where
  "failed_network code = \<lparr>nc_client = None, nc_tip = None, nc_error = Some code, nc_error_code = Some code\<rparr>"

type_synonym 's int_transport = "('s, string, int option) transport"

definition network_context :: "'s int_transport \<Rightarrow> string \<Rightarrow> 's rpc_client option \<Rightarrow> 's opened" where
  "network_context tr network configured =
     (case map_of SUPPORTED_NETWORKS network of
        None \<Rightarrow> Context (failed_network ''UNSUPPORTED_NETWORK'')
      | Some meta \<Rightarrow>
          (case configured of
             None \<Rightarrow> Context (failed_network ''RPC_NOT_CONFIGURED'')
           | Some c \<Rightarrow>
               (case rpc_call tr ''eth_chainId'' [] c of
                  (Inl RpcBudgetExhausted, c1) \<Rightarrow> BudgetGone c1
                | (Inl e, c1) \<Rightarrow> Context (failed_network ''RPC_UNAVAILABLE'')
                | (Inr served, c1) \<Rightarrow>
                    if served \<noteq> Some (nm_chain_id meta) then Context (failed_network ''CHAIN_MISMATCH'')
                    else (case rpc_call tr ''eth_blockNumber'' [] c1 of
                       (Inl RpcBudgetExhausted, c2) \<Rightarrow> BudgetGone c2
                     | (Inl e, c2) \<Rightarrow> Context (failed_network ''RPC_UNAVAILABLE'')
                     | (Inr None, c2) \<Rightarrow> Context (failed_network ''RPC_UNAVAILABLE'')
                     | (Inr (Some tip), c2) \<Rightarrow>
                         (case rpc_call tr ''eth_getBlockByNumber'' (str_int tip) c2 of
                            (Inl RpcBudgetExhausted, c3) \<Rightarrow> BudgetGone c3
                          | (Inl e, c3) \<Rightarrow> Context (failed_network ''RPC_UNAVAILABLE'')
                          | (Inr None, c3) \<Rightarrow> Context (failed_network ''RPC_UNAVAILABLE'')
                          | (Inr (Some tip_time), c3) \<Rightarrow>
                              Context \<lparr>nc_client = Some c3, nc_tip = Some tip, nc_error = None, nc_error_code = None\<rparr>)))))"

text \<open>A network is ready only when its endpoint was asked for its chain and serves the expected one.\<close>

lemma ready_network_served:
  assumes "network_context tr network configured = Context net" and "network_ready net"
  shows "\<exists>meta c c1. map_of SUPPORTED_NETWORKS network = Some meta \<and> configured = Some c \<and>
    rpc_call tr ''eth_chainId'' [] c = (Inr (Some (nm_chain_id meta)), c1)"
  using assms
  by (auto simp: network_context_def failed_network_def network_ready_def
      split: option.splits prod.splits sum.splits rpc_error.splits if_splits)

section \<open>One poll\<close>

record watch_target =
  wt_live_start_block :: "int option"
  wt_last_processed_block :: "int option"
  wt_consecutive_failures :: int
  wt_last_polled_at :: "int option"
  wt_last_successful_poll_at :: "int option"
  wt_lease_owner :: "string option"

text \<open>\<open>service.insert_target\<close>, called with the tip the probe saw and the next block.\<close>

definition insert_target :: "int \<Rightarrow> watch_target" where
  "insert_target tip = \<lparr>wt_live_start_block = Some (tip + 1), wt_last_processed_block = None, wt_consecutive_failures = 0,
     wt_last_polled_at = None, wt_last_successful_poll_at = None, wt_lease_owner = None\<rparr>"

definition record_poll :: "int \<Rightarrow> bool \<Rightarrow> watch_target \<Rightarrow> watch_target" where
  "record_poll now failed t =
     (if failed
      then t\<lparr>wt_last_polled_at := Some now, wt_consecutive_failures := wt_consecutive_failures t + 1, wt_lease_owner := None\<rparr>
      else t\<lparr>wt_last_polled_at := Some now, wt_last_successful_poll_at := Some now, wt_consecutive_failures := 0,
             wt_lease_owner := None\<rparr>)"

definition release_target :: "watch_target \<Rightarrow> watch_target" where
  "release_target t = t\<lparr>wt_lease_owner := None\<rparr>"

text \<open>The first and the last block of a poll.\<close>

definition poll_window :: "worker_settings \<Rightarrow> string \<Rightarrow> int \<Rightarrow> watch_target \<Rightarrow> int \<times> int" where
  "poll_window cfg network tip t =
     (let safe_tip = tip - confirmations_for network cfg;
          last_block = (case wt_last_processed_block t of
              Some b \<Rightarrow> b
            | None \<Rightarrow> (case wt_live_start_block t of Some b \<Rightarrow> if b \<noteq> 0 then b - 1 else safe_tip | None \<Rightarrow> safe_tip))
      in (last_block + 1, min safe_tip (last_block + ws_max_blocks_per_poll cfg)))"

text \<open>
  The rest of the database comes with the rule state in memory, which \<open>load\<close> reads afresh.
\<close>

record 'w poll_state =
  ps_target :: watch_target
  ps_world :: 'w
  ps_polled :: "log_chunk list"

type_synonym ('s, 'w) live_process = "raw_log list \<Rightarrow> 's rpc_client \<Rightarrow> 'w \<Rightarrow> (run_error + 'w) \<times> 's rpc_client"

definition commit_poll :: "('s, 'w) live_process \<Rightarrow> ('s, 'w poll_state, run_error) consumer" where
  "commit_poll process chunk c st =
     (case process (ch_logs chunk) c (ps_world st) of
        (Inl e, c') \<Rightarrow> (Inl e, c')
      | (Inr w, c') \<Rightarrow>
          (Inr \<lparr>ps_target = (ps_target st)\<lparr>wt_last_processed_block := Some (ch_to_block chunk)\<rparr>, ps_world = w,
                ps_polled = ps_polled st @ [chunk]\<rparr>, c'))"

text \<open>The blocks of the poll and the heartbeats; \<open>None\<close> is no error.\<close>

definition poll_blocks ::
  "'s log_transport \<Rightarrow> ('s, 'w) live_process \<Rightarrow> ('s, 'w) live_process \<Rightarrow> worker_settings \<Rightarrow> log_filter list \<Rightarrow> int \<times> int
     \<Rightarrow> 's rpc_client \<Rightarrow> 'w poll_state \<Rightarrow> (run_error option \<times> 's rpc_client \<times> 'w poll_state) option" where
  "poll_blocks tr process heartbeat cfg flts window c st =
     (case (if fst window \<le> snd window
            then iter_log_chunks tr (commit_poll process) flts (fst window) (snd window) (ws_backfill_chunk_blocks cfg)
                   (ws_min_chunk_blocks cfg) (ws_chunk_max_retries cfg) c st
            else Some (ScanDone, [], c, st)) of
        None \<Rightarrow> None
      | Some (ScanFailed e, chs, c', st') \<Rightarrow> Some (Some (stop_of e), c', st')
      | Some (ConsumerRaised e, chs, c', st') \<Rightarrow> Some (Some e, c', st')
      | Some (ScanDone, chs, c', st') \<Rightarrow>
          (case heartbeat [] c' (ps_world st') of
             (Inl e, c2) \<Rightarrow> Some (Some e, c2, st')
           | (Inr w, c2) \<Rightarrow> Some (None, c2, st'\<lparr>ps_world := w\<rparr>)))"

definition poll_target ::
  "'s log_transport \<Rightarrow> ('s, 'w) live_process \<Rightarrow> ('s, 'w) live_process \<Rightarrow> ('w \<Rightarrow> 'w) \<Rightarrow> worker_settings \<Rightarrow> log_filter list
     \<Rightarrow> string \<Rightarrow> 's network_handle \<Rightarrow> int \<Rightarrow> watch_target \<Rightarrow> 'w \<Rightarrow> log_chunk list
     \<Rightarrow> (string \<times> 's rpc_client option \<times> watch_target \<times> 'w \<times> log_chunk list) option" where
  "poll_target tr process heartbeat load cfg flts network net now t w polled =
     (if \<not> network_ready net then Some (''failed'', nc_client net, record_poll now True t, w, polled)
      else (case poll_blocks tr process heartbeat cfg flts (poll_window cfg network (the (nc_tip net)) t) (the (nc_client net))
                   \<lparr>ps_target = t, ps_world = load w, ps_polled = polled\<rparr> of
              None \<Rightarrow> None
            | Some (None, c, st) \<Rightarrow> Some (''ok'', Some c, record_poll now False (ps_target st), ps_world st, ps_polled st)
            | Some (Some BudgetStop, c, st) \<Rightarrow>
                Some (''budget_exhausted'', Some c, release_target (ps_target st), ps_world st, ps_polled st)
            | Some (Some e, c, st) \<Rightarrow> Some (''failed'', Some c, record_poll now True (ps_target st), ps_world st, ps_polled st)))"

section \<open>The live tail is contiguous\<close>

text \<open>The polled chunks run from the first block of the live tail to the last processed one.\<close>

definition tail_inv :: "int \<Rightarrow> watch_target \<Rightarrow> log_chunk list \<Rightarrow> bool" where
  "tail_inv first t polled \<longleftrightarrow> wt_live_start_block t = Some first \<and>
     (case wt_last_processed_block t of None \<Rightarrow> polled = [] | Some b \<Rightarrow> polled \<noteq> [] \<and> tiles first polled (b + 1))"

definition next_block :: "int \<Rightarrow> watch_target \<Rightarrow> int" where
  "next_block first t = (case wt_last_processed_block t of None \<Rightarrow> first | Some b \<Rightarrow> b + 1)"

lemma tail_tiles: "tail_inv first t polled \<Longrightarrow> tiles first polled (next_block first t)"
  by (auto simp: tail_inv_def next_block_def split: option.splits)

definition poll_inv :: "int \<Rightarrow> 'w poll_state \<Rightarrow> log_chunk list \<Rightarrow> 'w poll_state \<Rightarrow> bool" where
  "poll_inv first st0 chs st \<longleftrightarrow> tail_inv first (ps_target st) (ps_polled st) \<and> ps_polled st = ps_polled st0 @ chs \<and>
     tiles (next_block first (ps_target st0)) chs (next_block first (ps_target st))"

lemma poll_inv_world [simp]: "poll_inv first st0 chs (st\<lparr>ps_world := w\<rparr>) = poll_inv first st0 chs st"
  by (simp add: poll_inv_def)

lemma commit_poll_inv:
  assumes "poll_inv first st0 chs st" and "tiles (next_block first (ps_target st0)) chs (ch_from_block ch)"
    and "ch_from_block ch \<le> ch_to_block ch" and "commit_poll process ch c st = (Inr st', c')"
  shows "poll_inv first st0 (chs @ [ch]) st'"
proof -
  have st': "ps_target st' = (ps_target st)\<lparr>wt_last_processed_block := Some (ch_to_block ch)\<rparr>" "ps_polled st' = ps_polled st @ [ch]"
    using assms(4) by (auto simp: commit_poll_def split: prod.splits sum.splits)
  have inv: "tail_inv first (ps_target st) (ps_polled st)" using assms(1) unfolding poll_inv_def by blast
  have "next_block first (ps_target st) = ch_from_block ch"
    using assms(1,2) tiles_unique unfolding poll_inv_def by metis
  then have "tiles first (ps_polled st) (ch_from_block ch)" using tail_tiles [OF inv] by simp
  then have "tiles first (ps_polled st') (ch_to_block ch + 1)" using assms(3) by (auto simp: st' tiles_append)
  then have "tail_inv first (ps_target st') (ps_polled st')" using inv by (simp add: tail_inv_def st')
  moreover have "tiles (next_block first (ps_target st0)) (chs @ [ch]) (next_block first (ps_target st'))"
    using assms(2,3) by (auto simp: tiles_append st' next_block_def)
  ultimately show ?thesis using assms(1) by (simp add: poll_inv_def st')
qed

lemma poll_window_bounds:
  assumes "tail_inv first t polled" and "first \<noteq> 0" and "poll_window cfg network tip t = (a, b)"
  shows "a = next_block first t" and "b \<le> tip - confirmations_for network cfg" and "b - a < ws_max_blocks_per_poll cfg"
  using assms by (auto simp: poll_window_def tail_inv_def next_block_def Let_def split: option.splits)

text \<open>A poll reads, at most, the window, and in order.\<close>

lemma poll_blocks_inv:
  assumes "tail_inv first (ps_target st) (ps_polled st)" and "a = next_block first (ps_target st)" and "settings_ok cfg"
  shows "\<exists>e c' st' chs. poll_blocks tr process heartbeat cfg flts (a, b) c st = Some (e, c', st') \<and>
    poll_inv first st chs st' \<and> (a \<le> b \<longrightarrow> next_block first (ps_target st') \<le> b + 1) \<and> (b < a \<longrightarrow> chs = []) \<and>
    (e = None \<and> flts \<noteq> [] \<and> a \<le> b \<longrightarrow> next_block first (ps_target st') = b + 1)"
proof -
  have start: "poll_inv first st [] st" using assms(1) by (simp add: poll_inv_def)
  let ?scan = "if a \<le> b then iter_log_chunks tr (commit_poll process) flts a b (ws_backfill_chunk_blocks cfg)
      (ws_min_chunk_blocks cfg) (ws_chunk_max_retries cfg) c st else Some (ScanDone, [], c, st)"
  have "\<exists>outcome chs c' st'. ?scan = Some (outcome, chs, c', st') \<and> poll_inv first st chs st' \<and>
      (a \<le> b \<longrightarrow> next_block first (ps_target st') \<le> b + 1) \<and> (b < a \<longrightarrow> chs = []) \<and>
      (outcome = ScanDone \<and> flts \<noteq> [] \<and> a \<le> b \<longrightarrow> next_block first (ps_target st') = b + 1)"
  proof (cases "flts = [] \<or> b < a")
    case True
    then show ?thesis using start assms(2) by (auto simp: iter_log_chunks_def)
  next
    case False
    then have "\<exists>r. iter_log_chunks tr (commit_poll process) flts a b (ws_backfill_chunk_blocks cfg)
        (ws_min_chunk_blocks cfg) (ws_chunk_max_retries cfg) c st = Some r \<and> scan_ended tr flts (poll_inv first st) a b r"
      using assms(3) start commit_poll_inv
      by (intro iter_log_chunks_ends [where I = "poll_inv first st"]) (auto simp: settings_ok_def assms(2))
    then obtain outcome chs c' st' where scan: "?scan = Some (outcome, chs, c', st')"
        "scan_ended tr flts (poll_inv first st) a b (outcome, chs, c', st')"
      using False by (auto; metis prod_cases4)
    obtain k where k: "tiles a chs k" "k \<le> b + 1" "outcome = ScanDone \<longleftrightarrow> k = b + 1" and inv: "poll_inv first st chs st'"
      using scan(2) by (auto simp: scan_ended_def)
    have "tiles a chs (next_block first (ps_target st'))" using inv assms(2) by (simp add: poll_inv_def)
    then have "next_block first (ps_target st') = k" using k(1) tiles_unique by metis
    then show ?thesis using scan(1) inv k(2,3) False by auto
  qed
  then obtain outcome chs c' st' where scan: "?scan = Some (outcome, chs, c', st')" and inv: "poll_inv first st chs st'"
      and le: "a \<le> b \<longrightarrow> next_block first (ps_target st') \<le> b + 1" and none: "b < a \<longrightarrow> chs = []"
      and all: "outcome = ScanDone \<and> flts \<noteq> [] \<and> a \<le> b \<longrightarrow> next_block first (ps_target st') = b + 1"
    by blast
  have blocks: "poll_blocks tr process heartbeat cfg flts (a, b) c st =
      (case Some (outcome, chs, c', st') of
        None \<Rightarrow> None
      | Some (ScanFailed e, chs, c', st') \<Rightarrow> Some (Some (stop_of e), c', st')
      | Some (ConsumerRaised e, chs, c', st') \<Rightarrow> Some (Some e, c', st')
      | Some (ScanDone, chs, c', st') \<Rightarrow>
          (case heartbeat [] c' (ps_world st') of
             (Inl e, c2) \<Rightarrow> Some (Some e, c2, st')
           | (Inr w, c2) \<Rightarrow> Some (None, c2, st'\<lparr>ps_world := w\<rparr>)))"
    by (simp only: poll_blocks_def fst_conv snd_conv scan)
  show ?thesis
  proof (cases outcome)
    case ScanDone
    obtain r c2 where "heartbeat [] c' (ps_world st') = (r, c2)" by fastforce
    then show ?thesis using inv le none all by (cases r) (auto simp: blocks ScanDone intro!: exI [of _ chs])
  qed (use inv le none in \<open>auto simp: blocks intro!: exI [of _ chs]\<close>)
qed

text \<open>Every poll ends; what it read, and the row it leaves.\<close>

lemma tail_inv_kept: "tail_inv first (record_poll now failed t) polled = tail_inv first t polled"
    "tail_inv first (release_target t) polled = tail_inv first t polled"
    "next_block first (record_poll now failed t) = next_block first t" "next_block first (release_target t) = next_block first t"
  by (simp_all add: tail_inv_def next_block_def record_poll_def release_target_def)

lemma poll_target_inv:
  assumes "tail_inv first t polled" and "first \<noteq> 0" and "settings_ok cfg"
  shows "\<exists>state c t' w' chs. poll_target tr process heartbeat load cfg flts network net now t w polled =
      Some (state, c, t', w', polled @ chs) \<and> tail_inv first t' (polled @ chs) \<and>
      tiles (next_block first t) chs (next_block first t') \<and>
      (chs \<noteq> [] \<longrightarrow> next_block first t' - 1 \<le> the (nc_tip net) - confirmations_for network cfg \<and>
         next_block first t' - next_block first t \<le> ws_max_blocks_per_poll cfg)"
proof (cases "network_ready net")
  case False
  then show ?thesis using assms(1) by (intro exI [of _ "[]"] exI) (auto simp: poll_target_def tail_inv_kept)
next
  case True
  let ?st = "\<lparr>ps_target = t, ps_world = load w, ps_polled = polled\<rparr>"
  obtain a b where window: "poll_window cfg network (the (nc_tip net)) t = (a, b)" by fastforce
  note bounds = poll_window_bounds [OF assms(1,2) window]
  obtain e c' st' chs where run: "poll_blocks tr process heartbeat cfg flts (a, b) (the (nc_client net)) ?st = Some (e, c', st')"
      and inv: "poll_inv first ?st chs st'" and le: "a \<le> b \<longrightarrow> next_block first (ps_target st') \<le> b + 1" "b < a \<longrightarrow> chs = []"
    using poll_blocks_inv [OF _ _ assms(3), of first ?st a tr process heartbeat flts b "the (nc_client net)"] assms(1) bounds(1)
    by auto
  have polled: "ps_polled st' = polled @ chs" and tail: "tail_inv first (ps_target st') (polled @ chs)"
      and tiles: "tiles (next_block first t) chs (next_block first (ps_target st'))"
    using inv by (auto simp: poll_inv_def)
  have lim: "chs \<noteq> [] \<longrightarrow> next_block first (ps_target st') - 1 \<le> the (nc_tip net) - confirmations_for network cfg \<and>
      next_block first (ps_target st') - next_block first t \<le> ws_max_blocks_per_poll cfg"
    using le bounds by linarith
  define t' where "t' = (case e of None \<Rightarrow> record_poll now False (ps_target st') | Some BudgetStop \<Rightarrow> release_target (ps_target st')
    | Some _ \<Rightarrow> record_poll now True (ps_target st'))"
  have t': "tail_inv first t' (polled @ chs)" "next_block first t' = next_block first (ps_target st')"
    using tail by (auto simp: t'_def tail_inv_kept split: option.split run_error.split)
  have "\<exists>state. poll_target tr process heartbeat load cfg flts network net now t w polled =
      Some (state, Some c', t', ps_world st', polled @ chs)"
    using True by (auto simp: poll_target_def window run t'_def polled split: option.split run_error.split)
  then show ?thesis using t' tiles lim by auto
qed

section \<open>Both lanes\<close>

text \<open>Every history of the live tail of a target that was added when the tip was \<open>tip\<close>.\<close>

inductive live_history :: "'s log_transport \<Rightarrow> string \<Rightarrow> int \<Rightarrow> watch_target \<Rightarrow> 'w \<Rightarrow> log_chunk list \<Rightarrow> bool"
  for tr :: "'s log_transport" and network :: string and tip :: int
where
  added: "live_history tr network tip (insert_target tip) w []"
| polled: "live_history tr network tip t w polled \<Longrightarrow>
    poll_target tr process heartbeat load (worker_config env) flts network net now (t\<lparr>wt_lease_owner := Some owner\<rparr>) w1 polled =
      Some (state, c, t', w', polled') \<Longrightarrow>
    live_history tr network tip t' w' polled'"

lemma live_history_inv: "live_history tr network tip t w polled \<Longrightarrow> 0 \<le> tip \<Longrightarrow> tail_inv (tip + 1) t polled"
proof (induction rule: live_history.induct)
  case (polled t w polled process heartbeat load env flts net now owner w1 state c t' w' polled')
  have inv: "tail_inv (tip + 1) (t\<lparr>wt_lease_owner := Some owner\<rparr>) polled" using polled by (simp add: tail_inv_def)
  have "tip + 1 \<noteq> 0" using polled.prems by simp
  from poll_target_inv [OF inv this worker_config_ok, of tr process heartbeat load env flts network net now w1]
  show ?case using polled(2) by auto
qed (simp add: tail_inv_def insert_target_def)

lemma tiles_blocks: "tiles a chs k \<Longrightarrow> a \<le> k \<and> ordered_ranges (chunk_ranges chs) \<and> blocks (chunk_ranges chs) = {a..k - 1}"
proof (induction chs arbitrary: a)
  case (Cons ch chs)
  then have IH: "ch_to_block ch + 1 \<le> k" "ordered_ranges (chunk_ranges chs)" "blocks (chunk_ranges chs) = {ch_to_block ch + 1..k - 1}"
      and ch: "ch_from_block ch = a" "a \<le> ch_to_block ch"
    by auto
  have "ch_to_block ch < fst r" if "r \<in> set (chunk_ranges chs)" for r
  proof -
    have "fst r \<le> snd r" using that IH(2) by (auto simp: ordered_ranges_def list_all_iff)
    then have "fst r \<in> blocks (chunk_ranges chs)" using that by (auto simp: blocks_def)
    then show ?thesis using IH(3) by simp
  qed
  then show ?case using IH ch by (auto simp: chunk_ranges_def)
qed (simp add: chunk_ranges_def)

section \<open>Properties\<close>

text \<open>
  A poll of the live tail always returns, reads only blocks that have the network's
  confirmations, and no more blocks than the settings of the environment allow.
\<close>

theorem poll_reads_confirmed_blocks:
  assumes "live_history tr network tip t w polled" and "0 \<le> tip"
  shows "\<exists>state c t' w' chs. poll_target tr process heartbeat load (worker_config env) flts network net now t w1 polled =
      Some (state, c, t', w', polled @ chs) \<and>
    (\<forall>b. b \<in> blocks (chunk_ranges chs) \<longrightarrow> b \<le> the (nc_tip net) - confirmations_for network (worker_config env)) \<and>
    int (card (blocks (chunk_ranges chs))) \<le> ws_max_blocks_per_poll (worker_config env)"
proof -
  have "tip + 1 \<noteq> 0" using assms(2) by simp
  from poll_target_inv [OF live_history_inv [OF assms] this worker_config_ok, of tr process heartbeat load env flts network net now w1]
  obtain state c t' w' chs where run: "poll_target tr process heartbeat load (worker_config env) flts network net now t w1 polled =
      Some (state, c, t', w', polled @ chs)"
      and tiles: "tiles (next_block (tip + 1) t) chs (next_block (tip + 1) t')"
      and lim: "chs \<noteq> [] \<longrightarrow> next_block (tip + 1) t' - 1 \<le> the (nc_tip net) - confirmations_for network (worker_config env) \<and>
        next_block (tip + 1) t' - next_block (tip + 1) t \<le> ws_max_blocks_per_poll (worker_config env)"
    by auto
  have max: "1 \<le> ws_max_blocks_per_poll (worker_config env)" using worker_config_ok by (simp add: settings_ok_def)
  show ?thesis
  proof (cases "chs = []")
    case True
    then show ?thesis using run max by (auto simp: chunk_ranges_def)
  next
    case False
    then show ?thesis using run lim tiles_blocks [OF tiles] by auto
  qed
qed

text \<open>
  C29. The two lanes of a target never overlap and leave no gap in the live tail: whatever polls and
  history scans have run, the polled blocks are, each once and in order, those from the first block
  after the tip seen when the target was added to the last one recorded, and no block of a history
  scan is among them.
\<close>

theorem lanes_never_overlap:
  assumes "live_history tr network tip t w polled" and "0 \<le> tip" and "scan_history tr' (Some (tip + 1)) job w' committed passed"
  shows "ordered_ranges (chunk_ranges polled) \<and>
    blocks (chunk_ranges polled) = (case wt_last_processed_block t of None \<Rightarrow> {} | Some b \<Rightarrow> {tip + 1..b}) \<and>
    blocks (chunk_ranges polled) \<inter> blocks (chunk_ranges committed) = {}"
proof -
  have tail: "tail_inv (tip + 1) t polled" using live_history_inv [OF assms(1,2)] .
  from tiles_blocks [OF tail_tiles [OF tail]]
  have live: "ordered_ranges (chunk_ranges polled)" "blocks (chunk_ranges polled) = {tip + 1..next_block (tip + 1) t - 1}"
    by auto
  have inv: "job_inv passed job committed" and below: "blocks (jb_plan_ranges job) \<subseteq> {..<tip + 1}"
    using scan_history_ok [OF assms(3)] assms(2) by (auto simp: scan_ok_def plan_below_def)
  have "blocks (covered_spans job) \<subseteq> blocks (jb_plan_ranges job)"
    using inv covered_within [of job] by (simp add: job_inv_def)
  then have "blocks (chunk_ranges committed) \<subseteq> {..<tip + 1}" using inv below unfolding job_inv_def by blast
  then show ?thesis using live by (auto simp: next_block_def split: option.splits)
qed

section \<open>Concrete runs\<close>

definition demo_live :: "(unit, unit) live_process" where
  "demo_live logs c w = (Inr w, c)"

definition demo_tail :: watch_target where
  "demo_tail = (insert_target 5)\<lparr>wt_last_processed_block := Some 7, wt_last_polled_at := Some 9, wt_last_successful_poll_at := Some 9\<rparr>"

definition live_chunk :: log_chunk where
  "live_chunk = (demo_chunk 6 7 [])\<lparr>ch_chunk_size := 2000\<rparr>"

lemma demo_poll:
  "poll_target demo_node demo_live demo_live id (worker_config Map.empty) [demo_filter] ''ethereum-mainnet''
     demo_network 9 ((insert_target 5)\<lparr>wt_lease_owner := Some ''w''\<rparr>) () [] =
   Some (''ok'', Some (demo_client\<lparr>cl_calls := 1\<rparr>), demo_tail, (), [live_chunk])"
proof -
  have conf: "confirmations_for ''ethereum-mainnet'' (worker_config Map.empty) = 3"
      "ws_max_blocks_per_poll (worker_config Map.empty) = 5000"
    by (simp_all add: confirmations_for_def worker_config_def Let_def SUPPORTED_NETWORKS_def env_int_between_def)
  note loop = scan_loop.simps [of demo_node]
  show ?thesis
    by (simp add: poll_target_def network_ready_def demo_network_def poll_window_def conf insert_target_def poll_blocks_def
        iter_log_chunks_def default_settings loop demo_fetch commit_poll_def demo_live_def demo_client_def record_poll_def
        demo_tail_def live_chunk_def demo_chunk_def Let_def)
qed

lemma demo_live_history: "live_history demo_node ''ethereum-mainnet'' 5 demo_tail () [live_chunk]"
  by (rule live_history.polled [OF live_history.added demo_poll])

theorem lanes_never_overlap_witness:
  "blocks (chunk_ranges [live_chunk]) = {6..7} \<and>
   blocks (chunk_ranges [live_chunk]) \<inter> blocks (chunk_ranges demo_chunks) = {}"
proof -
  have "scan_history demo_node (Some (5 + 1)) demo_job () demo_chunks {}" using demo_history by simp
  moreover have "wt_last_processed_block demo_tail = Some 7" by (simp add: demo_tail_def)
  ultimately show ?thesis using lanes_never_overlap [OF demo_live_history] by (metis add.commute add_numeral_special(2) numeral_plus_one option.simps(5) semiring_norm(2-8) zero_le_numeral)
qed

theorem poll_reads_confirmed_blocks_witness:
  "\<exists>state c t' w' chs. poll_target demo_node demo_live demo_live id (worker_config Map.empty) [demo_filter] ''ethereum-mainnet''
     (demo_network\<lparr>nc_tip := Some 12\<rparr>) 10 demo_tail () [live_chunk] = Some (state, c, t', w', [live_chunk] @ chs) \<and>
   (\<forall>b. b \<in> blocks (chunk_ranges chs) \<longrightarrow> b \<le> 12 - confirmations_for ''ethereum-mainnet'' (worker_config Map.empty))"
  using poll_reads_confirmed_blocks [OF demo_live_history, of demo_live demo_live id Map.empty "[demo_filter]"
      "demo_network\<lparr>nc_tip := Some 12\<rparr>" 10 "()"]
  by auto

end
