(* ===== verification/Watch_Status.thy ===== *)
theory Watch_Status
  imports Watch_Config
begin

text \<open>
  The status shown for a watched protocol, \<open>services/api/app/domains/external_watchlist/status.py\<close>:
  derived from stored facts, never from the last status written.

  Times are whole microseconds since the epoch; an age in seconds is compared with a whole number of
  seconds, so the comparison of the floating-point age is that of the microseconds.
\<close>

section \<open>The facts\<close>

record status_target =
  sg_id :: string
  sg_monitoring_enabled :: bool
  sg_removed :: bool
  sg_network :: string
  sg_consecutive_failures :: int
  sg_last_successful_poll_at :: "int option"
  sg_last_poll_error :: "string option"
  sg_last_processed_block :: "int option"

record status_job =
  sj_target_id :: string
  sj_status :: string

definition stale_after :: "int \<Rightarrow> int \<Rightarrow> int \<Rightarrow> bool" where
  "stale_after limit_seconds now moment = (now - moment > limit_seconds * 1000000)"

section \<open>Deriving the status\<close>

record derived_status =
  dv_status :: string
  dv_reason :: "string option"
  dv_network :: "string option"
  dv_failing :: "nat option"

definition status_with :: "string \<Rightarrow> string \<Rightarrow> derived_status" where
  "status_with st reason = \<lparr>dv_status = st, dv_reason = Some reason, dv_network = None, dv_failing = None\<rparr>"

text \<open>The loop over the polls: the first target without a poll, or with a stale one, decides.\<close>

fun poll_verdict :: "worker_settings \<Rightarrow> int \<Rightarrow> status_target list \<Rightarrow> string option" where
  "poll_verdict cfg now [] = None"
| "poll_verdict cfg now (t # ts) = (case sg_last_successful_poll_at t of
       None \<Rightarrow> Some ''awaiting_first_poll''
     | Some moment \<Rightarrow> if stale_after (ws_poll_stale_seconds cfg) now moment then Some ''poll_stale'' else poll_verdict cfg now ts)"

definition derive_status ::
  "(string \<Rightarrow> bool) \<Rightarrow> worker_settings \<Rightarrow> int \<Rightarrow> int option \<Rightarrow> bool \<Rightarrow> status_target list \<Rightarrow> status_job list \<Rightarrow> derived_status" where
  "derive_status rpc_configured cfg now heartbeat_at monitoring_enabled targets latest_backfills =
     (if \<not> monitoring_enabled then status_with ''paused'' ''monitoring_paused''
      else let enabled = filter (\<lambda>t. sg_monitoring_enabled t \<and> \<not> sg_removed t) targets in
      if enabled = [] then status_with ''paused'' (if targets = [] then ''no_active_targets'' else ''all_targets_paused'')
      else case find (\<lambda>t. \<not> rpc_configured (sg_network t)) enabled of
        Some t \<Rightarrow> (status_with ''error'' ''rpc_not_configured'')\<lparr>dv_network := Some (sg_network t)\<rparr>
      | None \<Rightarrow>
          let failing = filter (\<lambda>t. sg_consecutive_failures t \<ge> ws_error_failure_threshold cfg) enabled in
          if failing \<noteq> [] then (status_with ''error'' ''repeated_poll_failures'')\<lparr>dv_failing := Some (length failing)\<rparr>
          else let worker_alive = (case heartbeat_at of
                     None \<Rightarrow> False | Some moment \<Rightarrow> \<not> stale_after (ws_worker_heartbeat_stale_seconds cfg) now moment);
                   relevant = filter (\<lambda>j. sj_target_id j \<in> set (map sg_id enabled)) latest_backfills;
                   open_jobs = filter (\<lambda>j. sj_status j \<in> set OPEN_BACKFILL_STATUSES) relevant in
          if open_jobs \<noteq> []
          then if worker_alive then status_with ''backfilling'' ''history_scan_in_progress''
               else status_with ''degraded'' ''worker_not_running''
          else if \<not> worker_alive then status_with ''degraded'' ''worker_not_running''
          else case poll_verdict cfg now enabled of
            Some reason \<Rightarrow> status_with ''degraded'' reason
          | None \<Rightarrow>
              if list_ex (\<lambda>j. sj_status j \<in> {''failed'', ''partial''}) relevant then status_with ''degraded'' ''history_scan_incomplete''
              else if list_ex (\<lambda>t. sg_consecutive_failures t > 0) enabled then status_with ''degraded'' ''recent_poll_failures''
              else \<lparr>dv_status = ''live'', dv_reason = None, dv_network = None, dv_failing = None\<rparr>)"

section \<open>Health of the networks\<close>

record network_health =
  nh_network :: string
  nh_state :: string
  nh_last_error :: "string option"
  nh_last_processed_block :: "int option"

definition truthy_error :: "status_target \<Rightarrow> string option" where
  "truthy_error t = (case sg_last_poll_error t of Some e \<Rightarrow> if e \<noteq> [] then Some e else None | None \<Rightarrow> None)"

definition network_state :: "worker_settings \<Rightarrow> int \<Rightarrow> bool \<Rightarrow> status_target list \<Rightarrow> string" where
  "network_state cfg now configured rows =
     (if \<not> configured then ''not_configured''
      else let failures = (case map sg_consecutive_failures rows of [] \<Rightarrow> 0 | f # fs \<Rightarrow> fold max fs f);
               polls = map sg_last_successful_poll_at rows in
      if failures \<ge> ws_error_failure_threshold cfg then ''failing''
      else if failures > 0 then ''degraded''
      else if list_ex (\<lambda>p. p = None) polls then ''unknown''
      else if list_ex (\<lambda>p. case p of Some moment \<Rightarrow> stale_after (ws_poll_stale_seconds cfg) now moment | None \<Rightarrow> False) polls
      then ''stale'' else ''healthy'')"

definition rpc_health :: "(string \<Rightarrow> bool) \<Rightarrow> worker_settings \<Rightarrow> int \<Rightarrow> status_target list \<Rightarrow> network_health list" where
  "rpc_health rpc_configured cfg now targets =
     map (\<lambda>network. let rows = filter (\<lambda>t. sg_network t = network) targets in
            \<lparr>nh_network = network, nh_state = network_state cfg now (rpc_configured network) rows,
             nh_last_error = (case List.map_filter truthy_error rows of [] \<Rightarrow> None | e # es \<Rightarrow> Some e),
             nh_last_processed_block =
               (case List.map_filter sg_last_processed_block rows of [] \<Rightarrow> None | b # bs \<Rightarrow> Some (fold max bs b))\<rparr>)
       (sort (remdups (map sg_network targets)))"

section \<open>Lemmas\<close>

lemma poll_verdict_None:
  "poll_verdict cfg now ts = None \<longleftrightarrow>
     (\<forall>t \<in> set ts. \<exists>moment. sg_last_successful_poll_at t = Some moment \<and> now - moment \<le> ws_poll_stale_seconds cfg * 1000000)"
  by (induction ts) (auto simp: stale_after_def split: option.splits)

lemma poll_verdict_reasons: "poll_verdict cfg now ts = Some reason \<Longrightarrow> reason \<in> {''awaiting_first_poll'', ''poll_stale''}"
  by (induction ts) (auto split: option.splits if_splits)

lemma status_with_simps [simp]: "dv_status (status_with st reason) = st"
  by (simp add: status_with_def)

lemma statuses_apart:
  "{sj_status j | j. j \<in> set jobs \<and> sj_target_id j \<in> S} \<inter> X = {} \<longleftrightarrow>
     (\<forall>j \<in> set (filter (\<lambda>j. sj_target_id j \<in> S) jobs). sj_status j \<notin> X)"
  by auto

definition enabled_targets :: "status_target list \<Rightarrow> status_target set" where
  "enabled_targets targets = {t \<in> set targets. sg_monitoring_enabled t \<and> \<not> sg_removed t}"

section \<open>Properties\<close>

text \<open>
  C30. The status is live exactly when monitoring is on, some target is enabled, every enabled target
  has an endpoint, no failed poll since its last successful one, and a successful poll that is not
  stale, the worker's heartbeat is not stale, and no latest history scan of an enabled target is
  open, failed or partial. Nothing else is reported as live.
\<close>

theorem live_is_earned:
  "dv_status (derive_status rpc_configured (worker_config env) now heartbeat_at monitoring_enabled targets jobs) = ''live'' \<longleftrightarrow>
    monitoring_enabled \<and> enabled_targets targets \<noteq> {} \<and>
    enabled_targets targets \<subseteq> {t. rpc_configured (sg_network t) \<and> sg_consecutive_failures t \<le> 0 \<and>
      (\<exists>moment. sg_last_successful_poll_at t = Some moment \<and>
         now - moment \<le> ws_poll_stale_seconds (worker_config env) * 1000000)} \<and>
    (\<exists>moment. heartbeat_at = Some moment \<and> now - moment \<le> ws_worker_heartbeat_stale_seconds (worker_config env) * 1000000) \<and>
    {sj_status j | j. j \<in> set jobs \<and> sj_target_id j \<in> sg_id ` enabled_targets targets} \<inter>
      {''pending'', ''running'', ''failed'', ''partial''} = {}"
proof -
  let ?cfg = "worker_config env"
  let ?on = "filter (\<lambda>t. sg_monitoring_enabled t \<and> \<not> sg_removed t) targets"
  have on: "enabled_targets targets = set ?on" by (auto simp: enabled_targets_def)
  have threshold: "1 \<le> ws_error_failure_threshold ?cfg" using worker_config_ok by (simp add: settings_ok_def)
  have find: "find (\<lambda>t. \<not> rpc_configured (sg_network t)) ?on = None \<longleftrightarrow> (\<forall>t \<in> set ?on. rpc_configured (sg_network t))"
    by (auto simp: find_None_iff)
  define alive where "alive = (case heartbeat_at of None \<Rightarrow> False
    | Some moment \<Rightarrow> \<not> stale_after (ws_worker_heartbeat_stale_seconds ?cfg) now moment)"
  have alive: "alive \<longleftrightarrow> (\<exists>moment. heartbeat_at = Some moment \<and> now - moment \<le> ws_worker_heartbeat_stale_seconds ?cfg * 1000000)"
    by (auto simp: alive_def stale_after_def split: option.split)
  let ?jobs = "filter (\<lambda>j. sj_target_id j \<in> set (map sg_id ?on)) jobs"
  let ?failing = "filter (\<lambda>t. sg_consecutive_failures t \<ge> ws_error_failure_threshold ?cfg) ?on"
  let ?open = "filter (\<lambda>j. sj_status j \<in> set OPEN_BACKFILL_STATUSES) ?jobs"
  have lists: "?failing = [] \<longleftrightarrow> (\<forall>t \<in> set ?on. sg_consecutive_failures t < ws_error_failure_threshold ?cfg)"
    "?open = [] \<longleftrightarrow> (\<forall>j \<in> set ?jobs. sj_status j \<notin> set OPEN_BACKFILL_STATUSES)"
    "list_ex (\<lambda>j. sj_status j \<in> {''failed'', ''partial''}) ?jobs \<longleftrightarrow> \<not> (\<forall>j \<in> set ?jobs. sj_status j \<notin> {''failed'', ''partial''})"
    "list_ex (\<lambda>t. sg_consecutive_failures t > 0) ?on \<longleftrightarrow> \<not> (\<forall>t \<in> set ?on. sg_consecutive_failures t \<le> 0)"
    by (auto simp only: filter_empty_conv list_ex_iff not_le not_less)
  have below: "(\<forall>t \<in> set ?on. sg_consecutive_failures t \<le> 0) \<Longrightarrow>
      (\<forall>t \<in> set ?on. sg_consecutive_failures t < ws_error_failure_threshold ?cfg)"
    using threshold by (meson le_less_trans less_le_trans zero_less_one)
  have jobs: "(\<forall>j \<in> set ?jobs. sj_status j \<notin> {''pending'', ''running'', ''failed'', ''partial''}) \<longleftrightarrow>
      ?open = [] \<and> \<not> list_ex (\<lambda>j. sj_status j \<in> {''failed'', ''partial''}) ?jobs"
    unfolding lists by (auto simp: OPEN_BACKFILL_STATUSES_def)
  have "dv_status (derive_status rpc_configured ?cfg now heartbeat_at monitoring_enabled targets jobs) = ''live'' \<longleftrightarrow>
      monitoring_enabled \<and> ?on \<noteq> [] \<and> find (\<lambda>t. \<not> rpc_configured (sg_network t)) ?on = None \<and> ?failing = [] \<and> alive \<and> ?open = [] \<and>
      poll_verdict ?cfg now ?on = None \<and> \<not> list_ex (\<lambda>j. sj_status j \<in> {''failed'', ''partial''}) ?jobs \<and>
      \<not> list_ex (\<lambda>t. sg_consecutive_failures t > 0) ?on"
    unfolding derive_status_def alive_def [symmetric] Let_def by (simp split: option.split)
  also have "\<dots> \<longleftrightarrow> monitoring_enabled \<and> ?on \<noteq> [] \<and> find (\<lambda>t. \<not> rpc_configured (sg_network t)) ?on = None \<and>
      (\<forall>t \<in> set ?on. sg_consecutive_failures t < ws_error_failure_threshold ?cfg) \<and> alive \<and>
      (\<forall>j \<in> set ?jobs. sj_status j \<notin> {''pending'', ''running'', ''failed'', ''partial''}) \<and>
      poll_verdict ?cfg now ?on = None \<and> (\<forall>t \<in> set ?on. sg_consecutive_failures t \<le> 0)"
    unfolding jobs by (simp only: lists not_not conj_ac)
  also have "\<dots> \<longleftrightarrow> monitoring_enabled \<and> set ?on \<noteq> {} \<and>
      (\<forall>t \<in> set ?on. rpc_configured (sg_network t) \<and> sg_consecutive_failures t \<le> 0 \<and>
        (\<exists>moment. sg_last_successful_poll_at t = Some moment \<and> now - moment \<le> ws_poll_stale_seconds ?cfg * 1000000)) \<and>
      alive \<and> (\<forall>j \<in> set ?jobs. sj_status j \<notin> {''pending'', ''running'', ''failed'', ''partial''})"
    unfolding find poll_verdict_None ball_conj_distrib set_empty
    by (rule iffI; elim conjE; intro conjI; (assumption | rule below, assumption))
  also have "\<dots> \<longleftrightarrow> monitoring_enabled \<and> set ?on \<noteq> {} \<and>
      set ?on \<subseteq> {t. rpc_configured (sg_network t) \<and> sg_consecutive_failures t \<le> 0 \<and>
        (\<exists>moment. sg_last_successful_poll_at t = Some moment \<and> now - moment \<le> ws_poll_stale_seconds ?cfg * 1000000)} \<and>
      alive \<and> {sj_status j | j. j \<in> set jobs \<and> sj_target_id j \<in> sg_id ` set ?on} \<inter>
        {''pending'', ''running'', ''failed'', ''partial''} = {}"
    by (simp only: subset_eq mem_Collect_eq statuses_apart set_map)
  finally show ?thesis unfolding on alive .
qed

end
