(* ===== verification/Py_Float.thy ===== *)
theory Py_Float
  imports Complex_Main
begin

text \<open>
  Python's \<open>float\<close>: IEEE 754 binary64, rounding to nearest, ties to even. A float is its exact
  rational value, and an operation is the exact operation on rationals followed by \<open>fl\<close>.

  Subnormal numbers are included. Infinities, NaN, the sign of zero and overflow are outside the
  model: they do not arise below \<open>2 ^ 1024\<close>, which bounds every quantity the program computes.
\<close>

section \<open>Rounding\<close>

text \<open>To the nearest integer, ties to even.\<close>

definition rint :: "rat \<Rightarrow> int" where
  "rint x = (let n = \<lfloor>x\<rfloor>; r = x - of_int n in
     if r < 1 / 2 then n else if r > 1 / 2 then n + 1 else if even n then n else n + 1)"

text \<open>\<open>n.bit_length()\<close>.\<close>

function nbits :: "int \<Rightarrow> nat" where
  "nbits n = (if n \<le> 0 then 0 else Suc (nbits (n div 2)))"
  by auto
termination by (relation "measure nat") auto

declare nbits.simps [simp del]

definition pow2 :: "int \<Rightarrow> rat" where
  "pow2 e = power_int 2 e"

text \<open>The exponent \<open>e\<close> with \<open>2 ^ e \<le> x < 2 ^ (e + 1)\<close>, of a positive rational.\<close>

definition flog2 :: "rat \<Rightarrow> int" where
  "flog2 x = (let (n, d) = quotient_of x; e = int (nbits n) - int (nbits d) in
     if pow2 e \<le> x then e else e - 1)"

definition ulp_exp :: "rat \<Rightarrow> int" where
  "ulp_exp x = max (flog2 \<bar>x\<bar> - 52) (- 1074)"

definition fl :: "rat \<Rightarrow> rat" where
  "fl x = (if x = 0 then 0 else of_int (rint (x / pow2 (ulp_exp x))) * pow2 (ulp_exp x))"

text \<open>
  \<open>round(x, n)\<close> for \<open>n \<ge> 0\<close>: the nearest decimal with \<open>n\<close> digits, ties to even on the exact value, and
  then the nearest float.
\<close>

definition py_round :: "nat \<Rightarrow> rat \<Rightarrow> rat" where
  "py_round n x = fl (of_int (rint (x * 10 ^ n)) / 10 ^ n)"

section \<open>Powers of two\<close>

lemmas pow2_powi = pow2_def

lemma pow2_pos [simp]: "0 < pow2 e"
  unfolding pow2_powi by (rule zero_less_power_int) simp

lemma pow2_nonzero [simp]: "pow2 e \<noteq> 0" "0 \<le> pow2 e"
  using pow2_pos [of e] by linarith+

lemma pow2_add: "pow2 (a + b) = pow2 a * pow2 b"
  by (simp add: pow2_powi power_int_add)

lemma pow2_mono: "a \<le> b \<Longrightarrow> pow2 a \<le> pow2 b"
  by (simp add: pow2_powi power_int_increasing)

lemma pow2_less: "pow2 a < pow2 b \<Longrightarrow> a < b"
  using pow2_mono [of b a] by linarith

lemma pow2_le: "pow2 a \<le> pow2 b \<Longrightarrow> a \<le> b"
proof (rule ccontr)
  assume "pow2 a \<le> pow2 b" "\<not> a \<le> b"
  then have "pow2 (b + 1) \<le> pow2 b" using pow2_mono [of "b + 1" a] by linarith
  then have "pow2 b * 2 \<le> pow2 b" by (simp only: pow2_add) (simp add: pow2_def)
  then show False using pow2_pos [of b] by linarith
qed

lemma pow2_int: "0 \<le> e \<Longrightarrow> pow2 e = of_int (2 ^ nat e)"
  by (simp add: pow2_def power_int_nonneg_exp)

lemma nbits_bounds: "0 < n \<Longrightarrow> 2 ^ (nbits n - 1) \<le> n \<and> n < 2 ^ nbits n \<and> 0 < nbits n"
proof (induction n rule: nbits.induct)
  case (1 n)
  show ?case
  proof (cases "n = 1")
    case True
    have "nbits 0 = 0" by (subst nbits.simps) simp
    then have "nbits 1 = 1" by (subst nbits.simps) simp
    then show ?thesis using True by simp
  next
    case False
    let ?m = "n div 2"
    have m: "0 < ?m" using 1(2) False by simp
    then have IH: "2 ^ (nbits ?m - 1) \<le> ?m" "?m < 2 ^ nbits ?m" "0 < nbits ?m" using 1 by auto
    have nb: "nbits n = Suc (nbits ?m)" using 1(2) by (simp add: nbits.simps [of n])
    have "n < 2 * 2 ^ nbits ?m" using IH(2) by linarith
    moreover have "2 ^ nbits ?m \<le> n"
    proof -
      have "2 ^ nbits ?m = 2 * (2::int) ^ (nbits ?m - 1)" using IH(3) by (simp add: power_eq_if)
      then show ?thesis using IH(1) by linarith
    qed
    ultimately show ?thesis by (simp add: nb)
  qed
qed

lemma flog2_bounds:
  assumes "0 < x"
  shows "pow2 (flog2 x) \<le> x \<and> x < pow2 (flog2 x + 1)"
proof -
  obtain n d where q: "quotient_of x = (n, d)" by (cases "quotient_of x")
  have d: "0 < d" using quotient_of_denom_pos [OF q] .
  have x: "x = of_int n / of_int d" using quotient_of_div [OF q] .
  then have n: "0 < n" using assms d by (simp add: zero_less_divide_iff)
  let ?a = "nbits n" and ?b = "nbits d"
  have bn: "(2::rat) ^ (?a - 1) \<le> of_int n" "of_int n < (2::rat) ^ ?a" "0 < ?a"
    and bd: "(2::rat) ^ (?b - 1) \<le> of_int d" "of_int d < (2::rat) ^ ?b" "0 < ?b"
  proof -
    have *: "(2::rat) ^ (nbits m - 1) \<le> of_int m" "of_int m < (2::rat) ^ nbits m" "0 < nbits m" if "0 < m" for m
      using nbits_bounds [of m] that
      by (metis of_int_le_iff of_int_numeral of_int_power, metis of_int_less_iff of_int_numeral of_int_power, simp)
    show "(2::rat) ^ (?a - 1) \<le> of_int n" "of_int n < (2::rat) ^ ?a" "0 < ?a" using *[OF n] .
    show "(2::rat) ^ (?b - 1) \<le> of_int d" "of_int d < (2::rat) ^ ?b" "0 < ?b" using *[OF d] .
  qed
  define e where "e = int ?a - int ?b"
  have up: "x < pow2 (e + 1)"
  proof -
    have "x < 2 ^ ?a / 2 ^ (?b - 1)"
      unfolding x using bn bd n d by (intro frac_less) auto
    also have "\<dots> = pow2 (int ?a) * pow2 (- int (?b - 1))" by (simp add: pow2_powi power_int_minus divide_inverse)
    also have "\<dots> = pow2 (e + 1)" using bd(3) by (simp add: pow2_add [symmetric] e_def of_nat_diff algebra_simps)
    finally show ?thesis .
  qed
  have low: "pow2 (e - 1) \<le> x"
  proof -
    have "2 ^ (?a - 1) / 2 ^ ?b \<le> x"
      unfolding x using bn bd n d by (intro frac_le) auto
    moreover have "2 ^ (?a - 1) / 2 ^ ?b = pow2 (int (?a - 1)) * pow2 (- int ?b)" by (simp add: pow2_powi power_int_minus divide_inverse)
    moreover have "\<dots> = pow2 (e - 1)" using bn(3) by (simp add: pow2_add [symmetric] e_def of_nat_diff algebra_simps)
    ultimately show ?thesis by simp
  qed
  have "flog2 x = (if pow2 e \<le> x then e else e - 1)" by (simp add: flog2_def q e_def)
  then show ?thesis using up low by auto
qed

lemma flog2_mono: "0 < x \<Longrightarrow> x \<le> y \<Longrightarrow> flog2 x \<le> flog2 y"
  using flog2_bounds [of x] flog2_bounds [of y] pow2_less [of "flog2 x" "flog2 y + 1"] by linarith

lemma flog2_ge: "0 < x \<Longrightarrow> pow2 e \<le> x \<Longrightarrow> e \<le> flog2 x"
  using flog2_bounds [of x] pow2_less [of e "flog2 x + 1"] by linarith

lemma flog2_less: "0 < x \<Longrightarrow> x < pow2 e \<Longrightarrow> flog2 x < e"
  using flog2_bounds [of x] pow2_less [of "flog2 x" e] by linarith

section \<open>Rounding to an integer\<close>

lemma rint_of_int [simp]: "rint (of_int n) = n"
  by (simp add: rint_def)

lemma rint_floor: "\<lfloor>x\<rfloor> \<le> rint x \<and> rint x \<le> \<lfloor>x\<rfloor> + 1"
  by (simp add: rint_def Let_def)

lemma rint_mono: "x \<le> y \<Longrightarrow> rint x \<le> rint y"
proof (cases "\<lfloor>x\<rfloor> = \<lfloor>y\<rfloor>")
  case True
  assume "x \<le> y"
  then show ?thesis unfolding rint_def Let_def True by simp
next
  case False
  assume "x \<le> y"
  then have "\<lfloor>x\<rfloor> + 1 \<le> \<lfloor>y\<rfloor>" using False floor_mono [of x y] by linarith
  then show ?thesis using rint_floor [of x] rint_floor [of y] by linarith
qed

lemma rint_error: "\<bar>of_int (rint x) - x\<bar> \<le> 1 / 2"
proof -
  have "of_int \<lfloor>x\<rfloor> \<le> x" "x < of_int \<lfloor>x\<rfloor> + 1" by linarith+
  then show ?thesis unfolding rint_def Let_def by (cases "x - of_int \<lfloor>x\<rfloor> < 1 / 2"; cases "x - of_int \<lfloor>x\<rfloor> > 1 / 2") (auto simp: abs_le_iff)
qed

lemma rint_nonneg: "0 \<le> x \<Longrightarrow> 0 \<le> rint x"
  using rint_mono [of 0 x] by (simp add: rint_def)

lemma rint_minus: "rint (- x) = - rint x"
proof (cases "x = of_int \<lfloor>x\<rfloor>")
  case True
  then show ?thesis by (metis rint_of_int of_int_minus)
next
  case False
  then have "\<lfloor>- x\<rfloor> = - \<lfloor>x\<rfloor> - 1" by linarith
  then show ?thesis by (auto simp: rint_def Let_def)
qed

section \<open>Rounding to a float\<close>

lemma fl_zero [simp]: "fl 0 = 0"
  by (simp add: fl_def)

lemma fl_eq: "fl x = of_int (rint (x / pow2 (ulp_exp x))) * pow2 (ulp_exp x)"
  by (cases "x = 0") (simp_all add: fl_def rint_def)

lemma ulp_exp_minus [simp]: "ulp_exp (- x) = ulp_exp x"
  by (simp add: ulp_exp_def)

lemma fl_minus: "fl (- x) = - fl x"
  by (simp add: fl_eq rint_minus)

lemma fl_nonneg: "0 \<le> x \<Longrightarrow> 0 \<le> fl x"
  by (simp add: fl_eq rint_nonneg)

text \<open>The integer that is rounded has at most 53 bits.\<close>

lemma scaled_less: "0 < x \<Longrightarrow> x / pow2 (ulp_exp x) < 2 ^ 53"
proof -
  assume x: "0 < x"
  then have "x < pow2 (flog2 x + 1)" using flog2_bounds by blast
  also have "\<dots> \<le> pow2 (53 + ulp_exp x)" using x by (intro pow2_mono) (simp add: ulp_exp_def)
  also have "\<dots> = 2 ^ 53 * pow2 (ulp_exp x)" by (simp only: pow2_add) (simp add: pow2_def)
  finally show ?thesis by (simp add: divide_less_eq)
qed

lemma rint_le_int: "x \<le> of_int n \<Longrightarrow> rint x \<le> n"
  using rint_mono [of x "of_int n"] by simp

lemma rint_ge_int: "of_int n \<le> x \<Longrightarrow> n \<le> rint x"
  using rint_mono [of "of_int n" x] by simp

lemma fl_mono_pos:
  assumes "0 < x" and "x \<le> y"
  shows "fl x \<le> fl y"
proof (cases "ulp_exp x = ulp_exp y")
  case True
  then show ?thesis using assms by (simp add: fl_eq rint_mono divide_right_mono)
next
  case False
  let ?a = "ulp_exp x" and ?b = "ulp_exp y"
  have "?a \<le> ?b" using assms flog2_mono [of x y] by (simp add: ulp_exp_def)
  with False have less: "?a < ?b" by simp
  then have b: "?b = flog2 y - 52" using assms by (auto simp: ulp_exp_def max_def split: if_splits)
  have "rint (x / pow2 ?a) \<le> 2 ^ 53" using scaled_less [OF assms(1)] by (intro rint_le_int) simp
  then have "of_int (rint (x / pow2 ?a)) \<le> (2::rat) ^ 53" by (metis of_int_le_iff of_int_numeral of_int_power)
  then have "fl x \<le> 2 ^ 53 * pow2 ?a" by (simp add: fl_eq)
  also have "\<dots> = pow2 (53 + ?a)" by (simp only: pow2_add) (simp add: pow2_def)
  also have "\<dots> \<le> pow2 (52 + ?b)" using less by (intro pow2_mono) simp
  also have "\<dots> = 2 ^ 52 * pow2 ?b" by (simp only: pow2_add) (simp add: pow2_def)
  also have "\<dots> \<le> fl y"
  proof -
    have "pow2 (52 + ?b) \<le> y" using flog2_bounds [of y] assms b by simp
    then have "2 ^ 52 * pow2 ?b \<le> y" by (simp only: pow2_add) (simp add: pow2_def)
    then have "of_int (2 ^ 52) \<le> y / pow2 ?b" by (simp add: le_divide_eq)
    then have "2 ^ 52 \<le> rint (y / pow2 ?b)" by (rule rint_ge_int)
    then have "(2::rat) ^ 52 \<le> of_int (rint (y / pow2 ?b))" by (metis of_int_le_iff of_int_numeral of_int_power)
    then show ?thesis by (simp add: fl_eq)
  qed
  finally show ?thesis .
qed

lemma fl_mono: "x \<le> y \<Longrightarrow> fl x \<le> fl y"
proof -
  assume le: "x \<le> y"
  consider "0 < x" | "x \<le> 0" "0 \<le> y" | "y < 0" by linarith
  then show ?thesis
  proof cases
    case 1
    then show ?thesis using le by (rule fl_mono_pos)
  next
    case 2
    then show ?thesis using fl_nonneg [of y] fl_nonneg [of "- x"] by (simp add: fl_minus)
  next
    case 3
    then show ?thesis using fl_mono_pos [of "- y" "- x"] le by (simp add: fl_minus)
  qed
qed

text \<open>A number with 53 significant bits is a float.\<close>

lemma fl_exact_pos:
  assumes "0 < m" and "m \<le> 2 ^ 53" and "- 1074 \<le> e"
  shows "fl (of_int m * pow2 e) = of_int m * pow2 e"
proof -
  let ?x = "of_int m * pow2 e" and ?u = "ulp_exp (of_int m * pow2 e)"
  have x: "0 < ?x" using assms(1) by simp
  have "\<exists>k. ?x / pow2 ?u = of_int k"
  proof (cases "?u \<le> e")
    case True
    then have "?x = of_int m * pow2 (e - ?u) * pow2 ?u" by (simp add: pow2_add [symmetric] mult.assoc)
    then have "?x / pow2 ?u = of_int m * pow2 (e - ?u)" by (metis nonzero_mult_div_cancel_right pow2_nonzero(1))
    also have "\<dots> = of_int (m * 2 ^ nat (e - ?u))" using True by (simp add: pow2_int)
    finally show ?thesis by blast
  next
    case False
    then have u: "?u = flog2 ?x - 52" using assms x by (simp add: ulp_exp_def split: if_splits)
    have "pow2 (flog2 ?x) \<le> ?x" using flog2_bounds [OF x] by simp
    also have "\<dots> \<le> pow2 (53 + e)"
    proof -
      have "of_int m \<le> (2::rat) ^ 53" using assms(2) by (metis of_int_le_iff of_int_numeral of_int_power)
      then have "?x \<le> 2 ^ 53 * pow2 e" by (intro mult_right_mono) auto
      then show ?thesis by (simp only: pow2_add) (simp add: pow2_def)
    qed
    finally have "flog2 ?x \<le> 53 + e" by (rule pow2_le)
    then have eq: "flog2 ?x = 53 + e" and u': "?u = e + 1" using False u by linarith+
    have "pow2 (53 + e) \<le> ?x" using flog2_bounds [OF x] eq by simp
    then have "2 ^ 53 * pow2 e \<le> of_int m * pow2 e" by (simp only: pow2_add) (simp add: pow2_def)
    then have "(2::rat) ^ 53 \<le> of_int m" by simp
    then have "2 ^ 53 \<le> m" by (metis of_int_le_iff of_int_numeral of_int_power)
    then have "m = 2 ^ 53" using assms(2) by simp
    then have "?x / pow2 ?u = of_int (2 ^ 52)" unfolding u' by (simp only: pow2_add) (simp add: pow2_def)
    then show ?thesis by blast
  qed
  then show ?thesis by (simp add: fl_eq) (metis nonzero_eq_divide_eq pow2_nonzero(1) rint_of_int)
qed

lemma fl_exact: "\<bar>m\<bar> \<le> 2 ^ 53 \<Longrightarrow> - 1074 \<le> e \<Longrightarrow> fl (of_int m * pow2 e) = of_int m * pow2 e"
proof -
  assume m: "\<bar>m\<bar> \<le> 2 ^ 53" and e: "- 1074 \<le> e"
  consider "m = 0" | "0 < m" | "0 < - m" by linarith
  then show ?thesis
  proof cases
    case 3
    then show ?thesis using fl_exact_pos [of "- m" e] m e fl_minus [of "of_int (- m) * pow2 e"] by simp
  qed (use m e fl_exact_pos in auto)
qed

lemma fl_of_int: "\<bar>m\<bar> \<le> 2 ^ 53 \<Longrightarrow> fl (of_int m) = of_int m"
  using fl_exact [of m 0] by (simp add: pow2_def)

lemma fl_idem [simp]: "fl (fl x) = fl x"
proof (cases "x = 0")
  case False
  let ?q = "x / pow2 (ulp_exp x)"
  have "\<bar>?q\<bar> < 2 ^ 53" using scaled_less [of "\<bar>x\<bar>"] False by (simp add: ulp_exp_def abs_divide)
  then have "?q \<le> 2 ^ 53" "- (2 ^ 53) \<le> ?q" by linarith+
  then have "?q \<le> of_int (2 ^ 53)" "of_int (- (2 ^ 53)) \<le> ?q" by simp_all
  then have "rint ?q \<le> 2 ^ 53" "- (2 ^ 53) \<le> rint ?q" using rint_le_int rint_ge_int by blast+
  then have "\<bar>rint ?q\<bar> \<le> 2 ^ 53" by linarith
  then show ?thesis unfolding fl_eq [of x] by (intro fl_exact) (auto simp: ulp_exp_def)
qed simp

text \<open>The error of one rounding: half a unit in the last place.\<close>

lemma fl_error: "\<bar>fl x - x\<bar> \<le> pow2 (ulp_exp x) / 2"
proof -
  let ?q = "pow2 (ulp_exp x)"
  have "\<bar>of_int (rint (x / ?q)) - x / ?q\<bar> * ?q \<le> 1 / 2 * ?q" using rint_error by (intro mult_right_mono) auto
  moreover have "\<bar>of_int (rint (x / ?q)) - x / ?q\<bar> * ?q = \<bar>fl x - x\<bar>"
  proof -
    have "fl x - x = (of_int (rint (x / ?q)) - x / ?q) * ?q" by (simp add: fl_eq left_diff_distrib)
    then show ?thesis by (simp only: abs_mult) simp
  qed
  ultimately show ?thesis by simp
qed

section \<open>Ground evaluation\<close>

text \<open>With the exponent given, rounding a numeral is arithmetic.\<close>

lemma fl_at:
  assumes "pow2 k \<le> x" and "x < pow2 (k + 1)" and "- 1022 \<le> k"
  shows "fl x = of_int (rint (x * pow2 (52 - k))) * pow2 (k - 52)"
proof -
  have x: "0 < x" using assms(1) pow2_pos [of k] by linarith
  then have "flog2 x = k" using flog2_ge [OF x assms(1)] flog2_less [OF x assms(2)] by linarith
  then have "ulp_exp x = k - 52" using x assms(3) by (simp add: ulp_exp_def)
  moreover have "x / pow2 (k - 52) = x * pow2 (52 - k)"
    using pow2_add [of "52 - k" "k - 52"] by (simp add: pow2_def [of 0] divide_eq_eq mult.assoc)
  ultimately show ?thesis by (simp add: fl_eq)
qed

lemma rint_at: "\<lfloor>x\<rfloor> = n \<Longrightarrow> rint x = (if x - of_int n < 1 / 2 then n else if x - of_int n > 1 / 2 then n + 1 else if even n then n else n + 1)"
  by (simp add: rint_def Let_def)

lemma pow2_eval: "pow2 (numeral k) = 2 ^ numeral k" "pow2 (- numeral k) = inverse (2 ^ numeral k)" "pow2 0 = 1" "pow2 1 = 2"
  by (simp_all add: pow2_def power_int_minus)

lemma floor_numerals: "\<lfloor>numeral a / numeral b :: rat\<rfloor> = numeral a div numeral b"
  using floor_divide_of_int_eq [of "numeral a" "numeral b", where 'a = rat] by simp

lemma float_examples:
  "fl (1 / 10) = 3602879701896397 / 36028797018963968"
  "fl (1 / 2) = 1 / 2"
proof -
  show "fl (1 / 10) = 3602879701896397 / 36028797018963968"
    by (subst fl_at [where k = "- 4"]) (simp_all add: pow2_eval rint_def Let_def floor_numerals)
  show "fl (1 / 2) = 1 / 2" using fl_exact [of 1 "- 1"] by (simp add: pow2_def)
qed

end
