(* ===== verification/Threat_Scoring.thy ===== *)
theory Threat_Scoring
  imports Py_Float Evidence_Merkle "HOL-Library.List_Lexorder" "HOL-Library.Char_ord"
begin

text \<open>
  Deterministic scoring of a threat detection,
  \<open>services/api/app/domains/threat_detection/scoring.py\<close>: severity, confidence, evidence quality and
  the key of a cluster. Severity is integer arithmetic; confidence is floating point and modelled
  operation by operation with \<open>fl\<close>. SHA-256 is \<open>H\<close>.
\<close>

section \<open>Evidence quality\<close>

definition EVIDENCE_QUALITY_RANK :: "(string \<times> int) list" where
  "EVIDENCE_QUALITY_RANK = [(''transaction_trace'', 5), (''decoded_call'', 4), (''event_logs'', 3),
     (''normalized_telemetry'', 2), (''partial_metadata'', 1)]"

definition evidence_quality_rank :: "string \<Rightarrow> int" where
  "evidence_quality_rank quality =
     (case map_of EVIDENCE_QUALITY_RANK (py_lower (py_strip quality)) of Some r \<Rightarrow> r | None \<Rightarrow> 0)"

fun best_quality :: "string option \<Rightarrow> int \<Rightarrow> string list \<Rightarrow> string option" where
  "best_quality best best_rank [] = best"
| "best_quality best best_rank (q # qs) =
     (let r = evidence_quality_rank q in
      if r > best_rank then best_quality (Some (py_lower (py_strip q))) r qs else best_quality best best_rank qs)"

definition best_evidence_quality :: "string list \<Rightarrow> string" where
  "best_evidence_quality qualities =
     (case best_quality None (- 1) qualities of Some q \<Rightarrow> if q \<noteq> [] then q else ''partial_metadata'' | None \<Rightarrow> ''partial_metadata'')"

section \<open>Severity\<close>

definition SEVERITY_LEVELS :: "string list" where
  "SEVERITY_LEVELS = [''low'', ''medium'', ''high'', ''critical'']"

definition BASE_IMPACT_POINTS :: "(string \<times> int) list" where
  "BASE_IMPACT_POINTS = [(''privileged_action'', 45), (''mint_burn_irregularity'', 40), (''oracle_deviation'', 40),
     (''flash_loan_pattern'', 45), (''reentrancy_pattern'', 45), (''unusual_transfer'', 20),
     (''coordinated_activity'', 25), (''other'', 15)]"

definition severity_rank :: "string \<Rightarrow> int" where
  "severity_rank severity =
     (case map_of [(''low'', 1), (''medium'', 2), (''high'', 3), (''critical'', 4)] (py_lower (py_strip severity)) of
        Some r \<Rightarrow> r | None \<Rightarrow> 0)"

definition severity_for_points :: "int \<Rightarrow> string" where
  "severity_for_points points =
     (if points \<ge> 80 then ''critical'' else if points \<ge> 55 then ''high'' else if points \<ge> 30 then ''medium'' else ''low'')"

definition base_points :: "string \<Rightarrow> int" where
  "base_points detection_type =
     (case map_of BASE_IMPACT_POINTS (py_lower (py_strip detection_type)) of Some b \<Rightarrow> b | None \<Rightarrow> 15)"

record severity_inputs =
  si_detection_type :: string
  si_value_usd :: "rat option"
  si_amount_deviation :: "rat option"
  si_privileged :: bool
  si_affected_asset_count :: int
  si_actor_count :: int
  si_persistence_windows :: int
  si_asset_importance :: int

definition severity_points :: "severity_inputs \<Rightarrow> int" where
  "severity_points i =
     (let points = base_points (si_detection_type i)
        + (case si_value_usd i of None \<Rightarrow> 0
           | Some v \<Rightarrow> if v \<ge> 1000000 then 40 else if v \<ge> 100000 then 25 else if v \<ge> 10000 then 10 else 0)
        + (case si_amount_deviation i of None \<Rightarrow> 0 | Some d \<Rightarrow> if d \<ge> 10 then 30 else if d \<ge> 4 then 15 else 0)
        + (if si_privileged i then 30 else 0)
        + min 20 (6 * max 0 (si_affected_asset_count i - 1))
        + min 15 (3 * max 0 (si_actor_count i - 1))
        + (if si_persistence_windows i \<ge> 3 then 20 else if si_persistence_windows i \<ge> 2 then 12 else 0)
        + max 0 (min 20 (si_asset_importance i))
      in max 0 (min 100 points))"

definition compute_severity :: "severity_inputs \<Rightarrow> string \<times> int" where
  "compute_severity i = (let points = severity_points i in (severity_for_points points, points))"

section \<open>Confidence\<close>

record confidence_inputs =
  ci_evidence_quality :: string
  ci_evidence_count :: int
  ci_signal_count :: int
  ci_baseline_deviation :: "rat option"
  ci_actor_repetition :: int
  ci_temporal_correlation :: bool
  ci_baseline_samples :: int
  ci_min_baseline_samples :: int

definition fmul_int :: "rat \<Rightarrow> int \<Rightarrow> rat" where
  "fmul_int x n = fl (fl x * fl (of_int n))"

definition baseline_step :: "confidence_inputs \<Rightarrow> rat \<Rightarrow> rat" where
  "baseline_step i conf = (case ci_baseline_deviation i of
       None \<Rightarrow> conf
     | Some d \<Rightarrow>
         if ci_baseline_samples i \<ge> ci_min_baseline_samples i
         then fl (conf + min (fl (15 / 100)) (fl (fl (d / 10) * fl (15 / 100))))
         else fl (conf - fl (5 / 100)))"

definition raw_confidence :: "confidence_inputs \<Rightarrow> rat" where
  "raw_confidence i =
     (let conf = fl (fl (of_int (evidence_quality_rank (ci_evidence_quality i)) / 5) * fl (40 / 100));
          conf = fl (conf + min (fl (25 / 100)) (fmul_int (5 / 100) (max 0 (ci_evidence_count i))));
          conf = fl (conf + min (fl (15 / 100)) (fmul_int (5 / 100) (max 0 (ci_signal_count i - 1))));
          conf = baseline_step i conf;
          conf = fl (conf + min (fl (10 / 100)) (fmul_int (3 / 100) (max 0 (ci_actor_repetition i))))
      in if ci_temporal_correlation i then fl (conf + fl (5 / 100)) else conf)"

text \<open>The ends of the clamp.\<close>

definition CONFIDENCE_MIN :: rat where
  "CONFIDENCE_MIN = fl (5 / 100)"

definition CONFIDENCE_MAX :: rat where
  "CONFIDENCE_MAX = fl (98 / 100)"

definition compute_confidence :: "confidence_inputs \<Rightarrow> rat" where
  "compute_confidence i = py_round 3 (max CONFIDENCE_MIN (min CONFIDENCE_MAX (raw_confidence i)))"

section \<open>Keys\<close>

definition text_or_empty :: "string option \<Rightarrow> string" where
  "text_or_empty s = (case s of Some t \<Rightarrow> t | None \<Rightarrow> [])"

definition actor_signature :: "hash_fun \<Rightarrow> string list \<Rightarrow> string" where
  "actor_signature H actors =
     (let cleaned = sort (remdups (map (\<lambda>a. py_lower (py_strip a)) (filter (\<lambda>a. py_strip a \<noteq> []) actors)))
      in if cleaned = [] then ''noactor'' else take 16 (bytes_hex (H (utf8 (py_join ''|'' cleaned)))))"

definition window_bucket :: "int option \<Rightarrow> int \<Rightarrow> int" where
  "window_bucket epoch_seconds window_seconds = (case epoch_seconds of
       None \<Rightarrow> 0
     | Some t \<Rightarrow> if window_seconds \<le> 0 then 0 else (t div window_seconds) * window_seconds)"

definition cluster_key :: "hash_fun \<Rightarrow> string \<Rightarrow> string \<Rightarrow> int option \<Rightarrow> string option \<Rightarrow> string option \<Rightarrow> string \<Rightarrow> int \<Rightarrow> string \<Rightarrow> string" where
  "cluster_key H workspace_id detection_type chain_id asset_id contract_address signature bucket version =
     bytes_hex (H (utf8 (py_join ''|''
       [''threat-detect'', workspace_id, detection_type, (case chain_id of Some c \<Rightarrow> str_int c | None \<Rightarrow> []),
        text_or_empty asset_id, py_lower (py_strip (text_or_empty contract_address)),
        (if signature \<noteq> [] then signature else ''noactor''), str_int bucket,
        (if version \<noteq> [] then version else ''threat-detect-v1'')])))"

section \<open>Lemmas\<close>

lemma py_round_mono: "x \<le> y \<Longrightarrow> py_round n x \<le> py_round n y"
  unfolding py_round_def by (intro fl_mono divide_right_mono) (auto intro!: rint_mono mult_right_mono)

lemma confidence_ends: "CONFIDENCE_MIN = 3602879701896397 / 72057594037927936" "CONFIDENCE_MAX = 8827055269646172 / 9007199254740992"
  unfolding CONFIDENCE_MIN_def CONFIDENCE_MAX_def
  by (subst fl_at [where k = "- 5"], simp_all add: pow2_eval rint_def Let_def floor_numerals)
    (subst fl_at [where k = "- 1"], simp_all add: pow2_def power_int_minus rint_def Let_def floor_numerals)

lemma confidence_clamps: "py_round 3 CONFIDENCE_MIN = CONFIDENCE_MIN" "py_round 3 CONFIDENCE_MAX = CONFIDENCE_MAX"
proof -
  have "rint (CONFIDENCE_MIN * 10 ^ 3) = 50" "rint (CONFIDENCE_MAX * 10 ^ 3) = 980"
    by (simp_all add: confidence_ends rint_def Let_def floor_numerals)
  then show "py_round 3 CONFIDENCE_MIN = CONFIDENCE_MIN" "py_round 3 CONFIDENCE_MAX = CONFIDENCE_MAX"
    unfolding py_round_def by (simp_all add: CONFIDENCE_MIN_def CONFIDENCE_MAX_def)
qed

lemma confidence_between: "CONFIDENCE_MIN \<le> compute_confidence i \<and> compute_confidence i \<le> CONFIDENCE_MAX"
proof -
  let ?c = "max CONFIDENCE_MIN (min CONFIDENCE_MAX (raw_confidence i))"
  have "CONFIDENCE_MIN \<le> CONFIDENCE_MAX" by (simp add: confidence_ends)
  then have "CONFIDENCE_MIN \<le> ?c" "?c \<le> CONFIDENCE_MAX" by auto
  then show ?thesis using py_round_mono [of CONFIDENCE_MIN ?c 3] py_round_mono [of ?c CONFIDENCE_MAX 3]
    by (simp only: confidence_clamps compute_confidence_def)
qed

lemma fl_plus_mono: "a \<le> b \<Longrightarrow> x \<le> y \<Longrightarrow> fl (a + x) \<le> fl (b + y)"
  by (intro fl_mono add_mono)

lemma fmul_int_mono: "0 \<le> x \<Longrightarrow> m \<le> n \<Longrightarrow> fmul_int x m \<le> fmul_int x n"
  unfolding fmul_int_def by (intro fl_mono mult_left_mono fl_nonneg) auto

lemma baseline_step_mono: "a \<le> b \<Longrightarrow> baseline_step i a \<le> baseline_step i b"
  unfolding baseline_step_def by (auto intro!: fl_mono split: option.split)

lemma evidence_step_mono: "a \<le> b \<Longrightarrow> 0 \<le> w \<Longrightarrow> m \<le> n \<Longrightarrow> fl (a + min cap (fmul_int w m)) \<le> fl (b + min cap (fmul_int w n))"
  by (intro fl_plus_mono min.mono fmul_int_mono order_refl)

definition corroborates :: "confidence_inputs \<Rightarrow> confidence_inputs \<Rightarrow> bool" where
  "corroborates b a \<longleftrightarrow>
     evidence_quality_rank (ci_evidence_quality a) \<le> evidence_quality_rank (ci_evidence_quality b)
   \<and> ci_evidence_count a \<le> ci_evidence_count b \<and> ci_signal_count a \<le> ci_signal_count b
   \<and> ci_actor_repetition a \<le> ci_actor_repetition b \<and> (ci_temporal_correlation a \<le> ci_temporal_correlation b)
   \<and> ci_baseline_deviation b = ci_baseline_deviation a \<and> ci_baseline_samples b = ci_baseline_samples a
   \<and> ci_min_baseline_samples b = ci_min_baseline_samples a"

lemma corroboratesD:
  assumes "corroborates b a"
  shows "evidence_quality_rank (ci_evidence_quality a) \<le> evidence_quality_rank (ci_evidence_quality b)"
    "max 0 (ci_evidence_count a) \<le> max 0 (ci_evidence_count b)"
    "max 0 (ci_signal_count a - 1) \<le> max 0 (ci_signal_count b - 1)"
    "max 0 (ci_actor_repetition a) \<le> max 0 (ci_actor_repetition b)"
    "ci_temporal_correlation a \<Longrightarrow> ci_temporal_correlation b"
    "ci_baseline_deviation b = ci_baseline_deviation a" "ci_baseline_samples b = ci_baseline_samples a"
    "ci_min_baseline_samples b = ci_min_baseline_samples a"
  using assms unfolding corroborates_def by (auto intro: max.mono diff_right_mono)

lemma baseline_step_same:
  assumes "corroborates b a"
  shows "baseline_step b = baseline_step a"
proof (rule ext)
  fix x
  show "baseline_step b x = baseline_step a x"
    unfolding baseline_step_def corroboratesD(6-8) [OF assms] by (rule refl)
qed

lemma clamp_percent: "0 \<le> max 0 (min 100 p) \<and> max 0 (min 100 p) \<le> (100 :: int)"
  by auto

lemma severity_points_between: "0 \<le> severity_points i \<and> severity_points i \<le> 100"
  unfolding severity_points_def Let_def by (rule clamp_percent)

definition quality_part :: "confidence_inputs \<Rightarrow> rat" where
  "quality_part i = fl (fl (of_int (evidence_quality_rank (ci_evidence_quality i)) / 5) * fl (40 / 100))"

definition counted_part :: "confidence_inputs \<Rightarrow> rat" where
  "counted_part i = fl (fl (quality_part i
       + min (fl (25 / 100)) (fmul_int (5 / 100) (max 0 (ci_evidence_count i))))
       + min (fl (15 / 100)) (fmul_int (5 / 100) (max 0 (ci_signal_count i - 1))))"

definition repeated_part :: "confidence_inputs \<Rightarrow> rat" where
  "repeated_part i = fl (baseline_step i (counted_part i) + min (fl (10 / 100)) (fmul_int (3 / 100) (max 0 (ci_actor_repetition i))))"

lemma raw_confidence_parts:
  "raw_confidence i = (if ci_temporal_correlation i then fl (repeated_part i + fl (5 / 100)) else repeated_part i)"
  by (simp only: raw_confidence_def repeated_part_def counted_part_def quality_part_def Let_def)

lemma small_nonneg: "0 \<le> (5 / 100 :: rat)" "0 \<le> (3 / 100 :: rat)" "0 \<le> (40 / 100 :: rat)"
  by simp_all

lemma quality_part_mono: "corroborates b a \<Longrightarrow> quality_part a \<le> quality_part b"
  unfolding quality_part_def
  by (intro fl_mono mult_right_mono divide_right_mono fl_nonneg small_nonneg)
    (auto dest: corroboratesD)

lemma counted_part_mono: "corroborates b a \<Longrightarrow> counted_part a \<le> counted_part b"
  unfolding counted_part_def
  by (intro evidence_step_mono quality_part_mono small_nonneg corroboratesD)

lemma repeated_part_mono:
  assumes "corroborates b a"
  shows "repeated_part a \<le> repeated_part b"
  unfolding repeated_part_def baseline_step_same [OF assms]
  by (intro evidence_step_mono baseline_step_mono counted_part_mono small_nonneg corroboratesD assms)

lemma repeated_part_up: "repeated_part i \<le> fl (repeated_part i + fl (5 / 100))"
proof -
  have "fl (repeated_part i) = repeated_part i" unfolding repeated_part_def by (rule fl_idem)
  moreover have "repeated_part i \<le> repeated_part i + fl (5 / 100)"
    using fl_nonneg [OF small_nonneg(1)] by (rule add_increasing2) (rule order_refl)
  ultimately show ?thesis by (metis fl_mono)
qed

lemma raw_confidence_mono:
  assumes c: "corroborates b a"
  shows "raw_confidence a \<le> raw_confidence b"
proof (cases "ci_temporal_correlation a")
  case True
  then have "ci_temporal_correlation b" by (rule corroboratesD(5) [OF c])
  with True show ?thesis
    by (simp only: raw_confidence_parts if_True) (intro fl_plus_mono repeated_part_mono c order_refl)
next
  case False
  have "repeated_part b \<le> raw_confidence b"
    unfolding raw_confidence_parts by (cases "ci_temporal_correlation b") (simp_all only: if_True if_False repeated_part_up order_refl)
  then have "repeated_part a \<le> raw_confidence b" by (rule order_trans [OF repeated_part_mono [OF c]])
  with False show ?thesis by (simp only: raw_confidence_parts [of a] if_False)
qed

section \<open>Properties\<close>

text \<open>
  C33. A detection is never certain and never scored outside its scale: confidence stays between the
  two ends of the clamp, below 1, after every rounding of the floating-point sum; severity points lie
  in 0..100, and the level is one of the four levels, \<open>critical\<close> exactly from 80 points on.
\<close>

theorem confidence_is_never_certain:
  "CONFIDENCE_MIN \<le> compute_confidence i \<and> compute_confidence i \<le> CONFIDENCE_MAX \<and> CONFIDENCE_MAX < 1 \<and> 0 < CONFIDENCE_MIN
   \<and> 0 \<le> snd (compute_severity j) \<and> snd (compute_severity j) \<le> 100
   \<and> fst (compute_severity j) \<in> set SEVERITY_LEVELS
   \<and> (fst (compute_severity j) = ''critical'' \<longleftrightarrow> snd (compute_severity j) \<ge> 80)"
proof -
  have "CONFIDENCE_MAX < 1" "0 < CONFIDENCE_MIN" by (simp_all add: confidence_ends)
  then show ?thesis using confidence_between [of i] severity_points_between [of j]
    by (simp add: compute_severity_def severity_for_points_def SEVERITY_LEVELS_def Let_def)
qed

text \<open>
  Corroboration never lowers confidence: for two detections with the same deviation and baseline,
  the one with evidence at least as good, at least as many items, signals and actor repetitions, and
  temporal correlation where the other has it, is at least as confident, although every step of the
  sum is rounded.
\<close>

theorem corroboration_never_lowers_confidence:
  assumes "corroborates b a"
  shows "compute_confidence a \<le> compute_confidence b"
  unfolding compute_confidence_def
  by (intro py_round_mono max.mono min.mono order_refl raw_confidence_mono assms)

theorem corroboration_never_lowers_confidence_witness:
  "compute_confidence \<lparr>ci_evidence_quality = ''normalized_telemetry'', ci_evidence_count = 1, ci_signal_count = 1,
      ci_baseline_deviation = Some 6, ci_actor_repetition = 1, ci_temporal_correlation = False, ci_baseline_samples = 9,
      ci_min_baseline_samples = 8\<rparr>
   \<le> compute_confidence \<lparr>ci_evidence_quality = ''decoded_call'', ci_evidence_count = 3, ci_signal_count = 2,
      ci_baseline_deviation = Some 6, ci_actor_repetition = 4, ci_temporal_correlation = True, ci_baseline_samples = 9,
      ci_min_baseline_samples = 8\<rparr>"
  by (rule corroboration_never_lowers_confidence)
    (simp only: corroborates_def confidence_inputs.simps, code_simp)

end
