(* ===== verification/Threat_Detectors.thy ===== *)
theory Threat_Detectors
  imports Threat_Scoring Py_Decimal
begin

text \<open>
  The threat detectors, \<open>services/api/app/domains/threat_detection/detectors.py\<close> with the vocabularies
  of its \<open>config.py\<close>: unusual transfers, coordinated activity, mint and burn irregularities and
  privileged actions, over a batch of normalised telemetry.

  An event is taken after \<open>normalize_event\<close>, its instant in microseconds since the epoch; its amount is a
  finite decimal. A set of evidence sources
  has no order in Python: \<open>pick\<close> is the element its iteration yields first. Explanations and next
  steps are left out.
\<close>

section \<open>Vocabularies\<close>

definition WINDOW_15M :: int where "WINDOW_15M = 15 * 60"

definition WINDOW_1H :: int where "WINDOW_1H = 60 * 60"

definition WINDOW_24H :: int where "WINDOW_24H = 24 * 60 * 60"

definition THREAT_TRANSFER_TYPES :: "string list" where
  "THREAT_TRANSFER_TYPES = [''wallet_transfer_detected'', ''native_transfer'', ''erc20_transfer'', ''token_transfer'', ''transfer'']"

definition PRIVILEGED_EVENT_TYPES :: "string list" where
  "PRIVILEGED_EVENT_TYPES = [''ownership_transferred'', ''owner_changed'', ''role_granted'', ''role_revoked'', ''admin_changed'',
     ''paused'', ''unpaused'', ''upgraded'', ''implementation_upgraded'', ''proxy_upgraded'', ''minter_added'', ''minter_removed'',
     ''blacklist_updated'', ''config_changed'', ''parameter_changed'']"

definition RUNTIME_EVENT_TYPES :: "string list" where
  "RUNTIME_EVENT_TYPES = [''rpc_polling'', ''live_provider'', ''poll'', ''poll_heartbeat'', ''provider_check'', ''provider_health'',
     ''coverage_probe'', ''worker_heartbeat'', ''heartbeat'', ''cursor_update'', ''checkpoint_update'', ''stream_coverage'',
     ''diagnostic'', ''diagnostic_result'']"

definition HIGH_IMPACT_PRIVILEGED :: "string list" where
  "HIGH_IMPACT_PRIVILEGED = [''ownership_transferred'', ''owner_changed'', ''admin_changed'', ''upgraded'',
     ''implementation_upgraded'', ''proxy_upgraded'']"

definition MINT_ADDRESS :: string where
  "MINT_ADDRESS = ''0x'' @ replicate 40 (CHR ''0'')"

definition THREAT_BURN_ADDRESSES :: "string list" where
  "THREAT_BURN_ADDRESSES = [MINT_ADDRESS, ''0x000000000000000000000000000000000000dead'']"

section \<open>Data\<close>

record tele_event =
  te_id :: string
  te_event_type :: string
  te_at :: int
  te_evidence_source :: string
  te_asset_id :: "string option"
  te_chain_id :: "int option"
  te_tx_hash :: "string option"
  te_block_number :: "int option"
  te_from_address :: "string option"
  te_to_address :: "string option"
  te_amount :: "fin_dec option"
  te_contract_address :: "string option"

text \<open>\<open>TelemetryEvent.epoch\<close>: the whole seconds of an instant held in microseconds.\<close>

definition epoch_of :: "int \<Rightarrow> int" where
  "epoch_of at_us = at_us div 1000000"

definition te_epoch :: "tele_event \<Rightarrow> int" where
  "te_epoch e = epoch_of (te_at e)"

record asset_baseline =
  ab_transfer_mean :: "fin_dec option"
  ab_transfer_samples :: int
  ab_mint_burn_mean :: "fin_dec option"
  ab_mint_burn_samples :: int

definition no_baseline :: asset_baseline where
  "no_baseline = \<lparr>ab_transfer_mean = None, ab_transfer_samples = 0, ab_mint_burn_mean = None, ab_mint_burn_samples = 0\<rparr>"

type_synonym baselines = "string \<rightharpoonup> asset_baseline"

definition baseline_for :: "baselines \<Rightarrow> string option \<Rightarrow> asset_baseline" where
  "baseline_for bs asset_id =
     (let global = (case bs ''__global__'' of Some b \<Rightarrow> b | None \<Rightarrow> no_baseline)
      in case asset_id of
           Some a \<Rightarrow> if a = [] then global else (case bs a of Some b \<Rightarrow> b | None \<Rightarrow> global)
         | None \<Rightarrow> global)"

record detector_config =
  dt_amount_deviation_medium :: rat
  dt_mint_burn_deviation_high :: rat
  dt_min_baseline_samples :: int
  dt_fan_out_min_destinations :: int
  dt_fan_out_window_seconds :: int
  dt_low_slow_window_seconds :: int
  dt_low_slow_min_events :: int
  dt_low_slow_min_actors :: int

text \<open>An evidence item: the event it stands for, and what its payload adds.\<close>

record evidence_ref =
  er_event :: tele_event
  er_evidence_type :: string
  er_quality :: string
  er_deviation :: "rat option"

definition evidence_key :: "evidence_ref \<Rightarrow> string" where
  "evidence_key e = py_join ''|'' [te_id (er_event e), er_evidence_type e, text_or_empty (te_tx_hash (er_event e)),
     text_or_empty (te_from_address (er_event e))]"

record candidate =
  dc_detection_type :: string
  dc_title :: string
  dc_evidence_quality :: string
  dc_window_seconds :: int
  dc_window_epoch :: int
  dc_chain_id :: "int option"
  dc_asset_id :: "string option"
  dc_contract_address :: "string option"
  dc_actors :: "string list"
  dc_tx_hashes :: "string list"
  dc_evidence :: "evidence_ref list"
  dc_evidence_source :: string
  dc_cluster_signature :: "string option"
  dc_signal_count :: int
  dc_amount_deviation :: "rat option"
  dc_baseline_samples :: int
  dc_privileged :: bool
  dc_actor_repetition :: int
  dc_temporal_correlation :: bool

section \<open>Helpers\<close>

text \<open>A dictionary of lists keyed in the order of the first event of a key.\<close>

definition group_by :: "('a \<Rightarrow> 'k) \<Rightarrow> 'a list \<Rightarrow> ('k \<times> 'a list) list" where
  "group_by key xs = map (\<lambda>k. (k, filter (\<lambda>x. key x = k) xs)) (fold append_new (map key xs) [])"

definition truthy_text :: "string option \<Rightarrow> string list" where
  "truthy_text s = (case s of Some t \<Rightarrow> if t = [] then [] else [t] | None \<Rightarrow> [])"

definition texts :: "(tele_event \<Rightarrow> string option) \<Rightarrow> tele_event list \<Rightarrow> string list" where
  "texts field evs = concat (map (\<lambda>e. truthy_text (field e)) evs)"

definition first_chain :: "tele_event list \<Rightarrow> int option" where
  "first_chain evs = (case List.map_filter te_chain_id evs of [] \<Rightarrow> None | c # cs \<Rightarrow> Some c)"

definition first_contract :: "tele_event list \<Rightarrow> string option" where
  "first_contract evs = (case texts te_contract_address evs of [] \<Rightarrow> None | c # cs \<Rightarrow> Some c)"

definition earliest_epoch :: "tele_event list \<Rightarrow> int" where
  "earliest_epoch evs = (case map te_epoch evs of [] \<Rightarrow> 0 | t # ts \<Rightarrow> fold min ts t)"

definition latest_epoch :: "tele_event list \<Rightarrow> int" where
  "latest_epoch evs = (case map te_epoch evs of [] \<Rightarrow> 0 | t # ts \<Rightarrow> fold max ts t)"

definition evidence_source_for :: "(string set \<Rightarrow> string) \<Rightarrow> tele_event list \<Rightarrow> string" where
  "evidence_source_for pick evs =
     (let sources = te_evidence_source ` set evs in
      if sources = {''live''} then ''live''
      else if ''simulator'' \<in> sources then ''simulator''
      else if ''replay'' \<in> sources then ''replay''
      else if sources = {} then ''live'' else pick sources)"

text \<open>\<open>float(amount / mean)\<close>; the mean is positive where it is used.\<close>

definition deviation :: "fin_dec \<Rightarrow> fin_dec \<Rightarrow> rat" where
  "deviation amount mean = (case fd_div 28 amount mean of Inr q \<Rightarrow> fl (fd_val q) | Inl _ \<Rightarrow> 0)"

definition positive_mean :: "fin_dec option \<Rightarrow> int \<Rightarrow> int \<Rightarrow> fin_dec option" where
  "positive_mean mean samples min_samples = (case mean of
       Some m \<Rightarrow> if 0 < fd_int m \<and> samples \<ge> min_samples then Some m else None
     | None \<Rightarrow> None)"

definition flagged_events :: "rat \<Rightarrow> fin_dec option \<Rightarrow> tele_event list \<Rightarrow> (tele_event \<times> rat) list" where
  "flagged_events threshold mean evs = (case mean of
       None \<Rightarrow> []
     | Some m \<Rightarrow> List.map_filter (\<lambda>e. case te_amount e of
           None \<Rightarrow> None
         | Some a \<Rightarrow> if deviation a m \<ge> threshold then Some (e, deviation a m) else None) evs)"

definition max_deviation :: "(tele_event \<times> rat) list \<Rightarrow> rat" where
  "max_deviation flagged = fold max (map snd flagged) 0"

definition reported_deviation :: "rat \<Rightarrow> rat option" where
  "reported_deviation d = (if d \<noteq> 0 then Some (py_round 3 d) else None)"

definition mk_evidence :: "string \<Rightarrow> string \<Rightarrow> rat option \<Rightarrow> tele_event \<Rightarrow> evidence_ref" where
  "mk_evidence evidence_type quality dev e =
     \<lparr>er_event = e, er_evidence_type = evidence_type, er_quality = quality, er_deviation = dev\<rparr>"

fun dedupe_evidence :: "string list \<Rightarrow> evidence_ref list \<Rightarrow> evidence_ref list" where
  "dedupe_evidence seen [] = []"
| "dedupe_evidence seen (e # es) =
     (if evidence_key e \<in> set seen then dedupe_evidence seen es else e # dedupe_evidence (evidence_key e # seen) es)"

section \<open>Unusual transfers\<close>

definition unusual_in_group ::
  "(string set \<Rightarrow> string) \<Rightarrow> baselines \<Rightarrow> detector_config \<Rightarrow> string option \<Rightarrow> string \<Rightarrow> tele_event list \<Rightarrow> candidate option" where
  "unusual_in_group pick bs cfg asset_id source evs =
     (let baseline = baseline_for bs asset_id;
          flagged = flagged_events (dt_amount_deviation_medium cfg)
            (positive_mean (ab_transfer_mean baseline) (ab_transfer_samples baseline) (dt_min_baseline_samples cfg)) evs;
          max_dev = max_deviation flagged;
          dests = remdups (texts te_to_address evs);
          earliest = earliest_epoch evs;
          fan_out = (int (length dests) \<ge> dt_fan_out_min_destinations cfg \<and>
            latest_epoch evs - earliest \<le> dt_fan_out_window_seconds cfg)
      in if flagged = [] \<and> \<not> fan_out then None
      else let involved = (if flagged \<noteq> [] then map fst flagged else evs);
               evidence = map (\<lambda>(e, d). mk_evidence ''unusual_transfer'' ''normalized_telemetry'' (Some (py_round 3 d)) e) flagged @
                 (if fan_out then map (mk_evidence ''fan_out_transfer'' ''normalized_telemetry'' None)
                    (filter (\<lambda>e. truthy_text (te_to_address e) \<noteq> []) evs) else [])
           in Some \<lparr>dc_detection_type = ''unusual_transfer'',
                dc_title = (if fan_out \<and> flagged \<noteq> [] then ''Large transfer with rapid fan-out''
                            else if fan_out then ''Rapid fund fan-out to multiple destinations'' else ''Unusual fund movement''),
                dc_evidence_quality = ''normalized_telemetry'', dc_window_seconds = WINDOW_24H, dc_window_epoch = earliest,
                dc_chain_id = first_chain evs, dc_asset_id = asset_id, dc_contract_address = first_contract evs,
                dc_actors = [source], dc_tx_hashes = texts te_tx_hash involved, dc_evidence = dedupe_evidence [] evidence,
                dc_evidence_source = evidence_source_for pick evs, dc_cluster_signature = None,
                dc_signal_count = max 1 ((if flagged \<noteq> [] then 1 else 0) + (if fan_out then 1 else 0)),
                dc_amount_deviation = reported_deviation max_dev, dc_baseline_samples = ab_transfer_samples baseline,
                dc_privileged = False, dc_actor_repetition = int (length evs), dc_temporal_correlation = fan_out\<rparr>)"

definition detect_unusual_transfers ::
  "(string set \<Rightarrow> string) \<Rightarrow> baselines \<Rightarrow> detector_config \<Rightarrow> tele_event list \<Rightarrow> candidate list" where
  "detect_unusual_transfers pick bs cfg transfers =
     List.map_filter (\<lambda>((asset_id, source), evs). unusual_in_group pick bs cfg asset_id (the source) evs)
       (group_by (\<lambda>e. (te_asset_id e, te_from_address e)) (filter (\<lambda>e. te_from_address e \<noteq> None) transfers))"

section \<open>Coordinated activity\<close>

definition coordinated_in_bucket ::
  "(string set \<Rightarrow> string) \<Rightarrow> detector_config \<Rightarrow> string option \<Rightarrow> int \<Rightarrow> tele_event list \<Rightarrow> candidate option" where
  "coordinated_in_bucket pick cfg asset_id bucket_epoch evs =
     (let actors = remdups (texts te_from_address evs); dests = remdups (texts te_to_address evs)
      in if int (length evs) < dt_low_slow_min_events cfg \<or> int (length actors) < dt_low_slow_min_actors cfg then None
      else let shared_dest = (length dests = 1 \<and> int (length actors) \<ge> dt_low_slow_min_actors cfg);
               shared_contract = (length (remdups (texts te_contract_address evs)) = 1)
           in if \<not> (shared_dest \<or> shared_contract) then None
           else let shared_target = (if shared_dest then hd dests
                      else (case first_contract evs of Some c \<Rightarrow> c | None \<Rightarrow> ''contract-wide''))
                in Some \<lparr>dc_detection_type = ''coordinated_activity'', dc_title = ''Coordinated low-and-slow activity'',
                     dc_evidence_quality = ''normalized_telemetry'', dc_window_seconds = dt_low_slow_window_seconds cfg,
                     dc_window_epoch = bucket_epoch, dc_chain_id = first_chain evs, dc_asset_id = asset_id,
                     dc_contract_address = first_contract evs, dc_actors = sort actors, dc_tx_hashes = texts te_tx_hash evs,
                     dc_evidence = map (mk_evidence ''coordinated_transfer'' ''normalized_telemetry'' None) evs,
                     dc_evidence_source = evidence_source_for pick evs, dc_cluster_signature = Some (''coord:'' @ shared_target),
                     dc_signal_count = (if shared_dest \<and> shared_contract then 2 else 1), dc_amount_deviation = None,
                     dc_baseline_samples = 0, dc_privileged = False, dc_actor_repetition = int (length evs),
                     dc_temporal_correlation = True\<rparr>)"

definition bucket_of :: "detector_config \<Rightarrow> tele_event \<Rightarrow> int" where
  "bucket_of cfg e = (let w = dt_low_slow_window_seconds cfg in if w \<noteq> 0 then (te_epoch e div w) * w else 0)"

definition detect_coordinated_activity :: "(string set \<Rightarrow> string) \<Rightarrow> detector_config \<Rightarrow> tele_event list \<Rightarrow> candidate list" where
  "detect_coordinated_activity pick cfg transfers =
     concat (map (\<lambda>(asset_id, evs). List.map_filter (\<lambda>(bucket, bes). coordinated_in_bucket pick cfg asset_id bucket bes)
         (group_by (bucket_of cfg) evs))
       (group_by te_asset_id transfers))"

section \<open>Mints and burns\<close>

definition mint_burn_kind :: "tele_event \<Rightarrow> string option" where
  "mint_burn_kind e =
     (if te_from_address e = Some MINT_ADDRESS then Some ''mint''
      else case te_to_address e of
             Some a \<Rightarrow> if a \<in> set THREAT_BURN_ADDRESSES then Some ''burn'' else None
           | None \<Rightarrow> None)"

definition mint_burn_in_group ::
  "(string set \<Rightarrow> string) \<Rightarrow> baselines \<Rightarrow> detector_config \<Rightarrow> string option \<Rightarrow> string \<Rightarrow> tele_event list \<Rightarrow> candidate option" where
  "mint_burn_in_group pick bs cfg asset_id kind evs =
     (let baseline = baseline_for bs asset_id;
          flagged = flagged_events (dt_mint_burn_deviation_high cfg)
            (positive_mean (ab_mint_burn_mean baseline) (ab_mint_burn_samples baseline) (dt_min_baseline_samples cfg)) evs;
          max_dev = max_deviation flagged;
          frequency = (int (length evs) \<ge> max 3 (dt_min_baseline_samples cfg))
      in if flagged = [] \<and> \<not> frequency then None
      else let involved = (if flagged \<noteq> [] then map fst flagged else evs)
           in Some \<lparr>dc_detection_type = ''mint_burn_irregularity'',
                dc_title = (if kind = ''mint'' then ''Mint irregularity'' else ''Burn irregularity''),
                dc_evidence_quality = ''event_logs'', dc_window_seconds = WINDOW_24H, dc_window_epoch = earliest_epoch evs,
                dc_chain_id = first_chain evs, dc_asset_id = asset_id, dc_contract_address = first_contract evs,
                dc_actors = sort (remdups (texts te_from_address involved)), dc_tx_hashes = texts te_tx_hash involved,
                dc_evidence = map (mk_evidence (kind @ ''_event'') ''event_logs'' None) involved,
                dc_evidence_source = evidence_source_for pick evs, dc_cluster_signature = Some kind,
                dc_signal_count = (if flagged \<noteq> [] then 1 else 0) + (if frequency then 1 else 0),
                dc_amount_deviation = reported_deviation max_dev, dc_baseline_samples = ab_mint_burn_samples baseline,
                dc_privileged = False, dc_actor_repetition = int (length evs), dc_temporal_correlation = frequency\<rparr>)"

definition detect_mint_burn_irregularity ::
  "(string set \<Rightarrow> string) \<Rightarrow> baselines \<Rightarrow> detector_config \<Rightarrow> tele_event list \<Rightarrow> candidate list" where
  "detect_mint_burn_irregularity pick bs cfg transfers =
     List.map_filter (\<lambda>((asset_id, kind), evs). mint_burn_in_group pick bs cfg asset_id (the kind) evs)
       (group_by (\<lambda>e. (te_asset_id e, mint_burn_kind e)) (filter (\<lambda>e. mint_burn_kind e \<noteq> None) transfers))"

section \<open>Privileged actions\<close>

definition privileged_in_group ::
  "(string set \<Rightarrow> string) \<Rightarrow> string option \<Rightarrow> string option \<Rightarrow> string \<Rightarrow> tele_event list \<Rightarrow> candidate" where
  "privileged_in_group pick asset_id actor event_type evs =
     \<lparr>dc_detection_type = ''privileged_action'',
      dc_title = ''Privileged action: '' @ replace_char (CHR ''_'') (CHR '' '') event_type,
      dc_evidence_quality = ''decoded_call'', dc_window_seconds = WINDOW_1H, dc_window_epoch = earliest_epoch evs,
      dc_chain_id = first_chain evs, dc_asset_id = asset_id, dc_contract_address = first_contract evs,
      dc_actors = truthy_text actor, dc_tx_hashes = texts te_tx_hash evs,
      dc_evidence = map (mk_evidence ''privileged_action'' ''decoded_call'' None) evs,
      dc_evidence_source = evidence_source_for pick evs,
      dc_cluster_signature = Some ((case truthy_text actor of a # _ \<Rightarrow> a | [] \<Rightarrow> ''admin'') @ '':'' @ event_type),
      dc_signal_count = (if event_type \<in> set HIGH_IMPACT_PRIVILEGED \<and> length evs > 1 then 2 else 1),
      dc_amount_deviation = None, dc_baseline_samples = 0, dc_privileged = True, dc_actor_repetition = int (length evs),
      dc_temporal_correlation = length evs > 1\<rparr>"

definition detect_privileged_actions :: "(string set \<Rightarrow> string) \<Rightarrow> tele_event list \<Rightarrow> candidate list" where
  "detect_privileged_actions pick privileged_events =
     map (\<lambda>((asset_id, actor, event_type), evs). privileged_in_group pick asset_id actor event_type evs)
       (group_by (\<lambda>e. (te_asset_id e, te_from_address e, te_event_type e))
         (filter (\<lambda>e. te_event_type e \<in> set PRIVILEGED_EVENT_TYPES) privileged_events))"

section \<open>All detectors\<close>

definition extract_candidates ::
  "(string set \<Rightarrow> string) \<Rightarrow> baselines \<Rightarrow> detector_config \<Rightarrow> tele_event list \<Rightarrow> candidate list" where
  "extract_candidates pick bs cfg events =
     (let transfers = filter (\<lambda>e. te_event_type e \<in> set THREAT_TRANSFER_TYPES) events;
          privileged = filter (\<lambda>e. te_event_type e \<in> set PRIVILEGED_EVENT_TYPES) events
      in detect_unusual_transfers pick bs cfg transfers @ detect_coordinated_activity pick cfg transfers @
         detect_mint_burn_irregularity pick bs cfg transfers @ detect_privileged_actions pick privileged)"

section \<open>Lemmas\<close>

lemma set_fold_append_new: "set (fold append_new ks acc) = set acc \<union> set ks"
  by (induction ks arbitrary: acc) (auto simp: append_new_def)

lemma group_byD: "(k, g) \<in> set (group_by key xs) \<Longrightarrow> g = filter (\<lambda>x. key x = k) xs \<and> g \<noteq> []"
  by (auto simp: group_by_def set_fold_append_new filter_empty_conv)

lemma group_by_members: "(k, g) \<in> set (group_by key xs) \<Longrightarrow> g \<noteq> [] \<and> set g \<subseteq> set xs"
  by (auto dest: group_byD)

text \<open>What a candidate built from the events \<open>evs\<close> rests on.\<close>

definition rests_on :: "(string set \<Rightarrow> string) \<Rightarrow> tele_event list \<Rightarrow> candidate \<Rightarrow> bool" where
  "rests_on pick evs c \<longleftrightarrow> dc_evidence c \<noteq> [] \<and> er_event ` set (dc_evidence c) \<subseteq> set evs
     \<and> dc_evidence_source c = evidence_source_for pick evs"

lemma map_filter_mem: "y \<in> set (List.map_filter f xs) \<longleftrightarrow> (\<exists>x \<in> set xs. f x = Some y)"
  by (induction xs) (auto simp: List.map_filter_simps split: option.splits)

lemma set_dedupe: "set (dedupe_evidence seen es) \<subseteq> set es"
proof (induction es arbitrary: seen)
  case (Cons e es)
  then show ?case by (cases "evidence_key e \<in> set seen") (simp_all add: subset_insertI2 insert_mono)
qed simp

lemma dedupe_nonempty: "es \<noteq> [] \<Longrightarrow> dedupe_evidence [] es \<noteq> []"
  by (cases es) simp_all

lemma flagged_event: "(e, d) \<in> set (flagged_events th mean evs) \<Longrightarrow> e \<in> set evs"
  by (cases mean) (simp_all add: flagged_events_def map_filter_mem split: option.splits if_splits, blast)

lemma er_event_mk [simp]: "er_event (mk_evidence t q d e) = e"
  by (simp add: mk_evidence_def)

lemma texts_nonempty: "texts f evs \<noteq> [] \<Longrightarrow> filter (\<lambda>e. truthy_text (f e) \<noteq> []) evs \<noteq> []"
  by (induction evs) (auto simp: texts_def)

lemma remdups_count: "0 < n \<Longrightarrow> n \<le> int (length (remdups xs)) \<Longrightarrow> xs \<noteq> []"
  by auto

lemma privileged_rests:
  "evs \<noteq> [] \<Longrightarrow> rests_on pick evs (privileged_in_group pick a ac et evs)"
  by (simp add: rests_on_def privileged_in_group_def image_image)

lemma if_none_some: "(if b then None else Some r) = Some c \<longleftrightarrow> \<not> b \<and> c = r"
  by auto

lemma mint_burn_rests:
  assumes "mint_burn_in_group pick bs cfg a k evs = Some c" "evs \<noteq> []"
  shows "rests_on pick evs c \<and> dc_detection_type c = ''mint_burn_irregularity'' \<and> \<not> dc_privileged c"
proof -
  let ?fl = "flagged_events (dt_mint_burn_deviation_high cfg) (positive_mean (ab_mint_burn_mean (baseline_for bs a))
     (ab_mint_burn_samples (baseline_for bs a)) (dt_min_baseline_samples cfg)) evs"
  have "dc_evidence c = map (mk_evidence (k @ ''_event'') ''event_logs'' None) (if ?fl \<noteq> [] then map fst ?fl else evs)
     \<and> dc_evidence_source c = evidence_source_for pick evs \<and> dc_detection_type c = ''mint_burn_irregularity'' \<and> \<not> dc_privileged c"
    using assms(1) unfolding mint_burn_in_group_def Let_def if_none_some
    by (elim conjE) (simp only: candidate.select_convs simp_thms)
  moreover have "fst ` set ?fl \<subseteq> set evs" using flagged_event by fastforce
  ultimately show ?thesis using assms(2) by (auto simp: rests_on_def image_image)
qed

lemma coordinated_rests:
  assumes "coordinated_in_bucket pick cfg a b evs = Some c" "evs \<noteq> []"
  shows "rests_on pick evs c \<and> dc_detection_type c = ''coordinated_activity'' \<and> \<not> dc_privileged c"
proof -
  have "dc_evidence c = map (mk_evidence ''coordinated_transfer'' ''normalized_telemetry'' None) evs
     \<and> dc_evidence_source c = evidence_source_for pick evs \<and> dc_detection_type c = ''coordinated_activity'' \<and> \<not> dc_privileged c"
    using assms(1) unfolding coordinated_in_bucket_def Let_def if_none_some
    by (simp only: if_none_some split: if_split_asm) (simp_all only: candidate.select_convs simp_thms option.distinct)
  then show ?thesis using assms(2) by (simp add: rests_on_def image_image)
qed

lemma append_if_nonempty: "b \<Longrightarrow> xs \<noteq> [] \<Longrightarrow> ys @ (if b then map f xs else []) \<noteq> []"
  by simp

lemma append_map_nonempty: "xs \<noteq> [] \<Longrightarrow> map f xs @ ys \<noteq> []"
  by simp

lemma unusual_rests:
  assumes "unusual_in_group pick bs cfg a src evs = Some c" "0 < dt_fan_out_min_destinations cfg"
  shows "rests_on pick evs c \<and> dc_detection_type c = ''unusual_transfer'' \<and> \<not> dc_privileged c"
proof -
  let ?fl = "flagged_events (dt_amount_deviation_medium cfg) (positive_mean (ab_transfer_mean (baseline_for bs a))
     (ab_transfer_samples (baseline_for bs a)) (dt_min_baseline_samples cfg)) evs"
  let ?dests = "texts te_to_address evs"
  let ?fan = "int (length (remdups ?dests)) \<ge> dt_fan_out_min_destinations cfg \<and>
     latest_epoch evs - earliest_epoch evs \<le> dt_fan_out_window_seconds cfg"
  let ?to = "filter (\<lambda>e. truthy_text (te_to_address e) \<noteq> []) evs"
  let ?ev = "map (\<lambda>(e, d). mk_evidence ''unusual_transfer'' ''normalized_telemetry'' (Some (py_round 3 d)) e) ?fl @
     (if ?fan then map (mk_evidence ''fan_out_transfer'' ''normalized_telemetry'' None) ?to else [])"
  note some = assms(1) [unfolded unusual_in_group_def Let_def if_none_some]
  have c1: "\<not> (?fl = [] \<and> \<not> ?fan)" by (rule conjunct1 [OF some])
  have c2: "dc_evidence c = dedupe_evidence [] ?ev"
    by (subst conjunct2 [OF some]) (rule candidate.select_convs)
  have c3: "dc_evidence_source c = evidence_source_for pick evs"
    by (subst conjunct2 [OF some]) (rule candidate.select_convs)
  have c4: "dc_detection_type c = ''unusual_transfer''"
    by (subst conjunct2 [OF some]) (rule candidate.select_convs)
  have c5: "dc_privileged c = False"
    by (subst conjunct2 [OF some]) (rule candidate.select_convs)
  have ne: "?ev \<noteq> []"
  proof (cases "?fl = []")
    case True
    with c1 have fan: ?fan by blast
    then have "?dests \<noteq> []" using remdups_count [OF assms(2)] by blast
    then have "?to \<noteq> []" by (rule texts_nonempty)
    with fan show ?thesis by (rule append_if_nonempty)
  next
    case False
    then show ?thesis by (rule append_map_nonempty)
  qed
  have sub: "er_event ` set ?ev \<subseteq> set evs"
    unfolding set_append image_Un set_map using flagged_event by (fastforce split: if_splits)
  have "er_event ` set (dc_evidence c) \<subseteq> set evs"
    unfolding c2 by (rule order_trans [OF image_mono [OF set_dedupe] sub])
  moreover have "dc_evidence c \<noteq> []" unfolding c2 by (rule dedupe_nonempty [OF ne])
  ultimately show ?thesis unfolding rests_on_def using c3 c4 c5 by blast
qed

lemma last_of_three: "S \<subseteq> {a, b, c} \<Longrightarrow> S \<noteq> {a} \<Longrightarrow> S \<noteq> {} \<Longrightarrow> b \<notin> S \<Longrightarrow> c \<in> S"
  by blast

lemma live_source:
  assumes ne: "evs \<noteq> []" and known: "te_evidence_source ` set evs \<subseteq> {''live'', ''simulator'', ''replay''}"
    and live: "evidence_source_for pick evs = ''live''" and e: "e \<in> set evs"
  shows "te_evidence_source e = ''live''"
proof -
  let ?S = "te_evidence_source ` set evs"
  have "?S \<noteq> {}" using ne by simp
  have distinct: "''simulator'' \<noteq> ''live''" "''replay'' \<noteq> ''live''" by simp_all
  have "?S = {''live''}"
  proof (rule ccontr)
    assume other: "?S \<noteq> {''live''}"
    show False
    proof (cases "''simulator'' \<in> ?S")
      case True
      have "evidence_source_for pick evs = ''simulator''" 
        unfolding evidence_source_for_def Let_def by (rule trans [OF if_not_P [OF other] if_P [OF True]])
      with live distinct show False by metis
    next
      case no_simulator: False
      have replay: "''replay'' \<in> ?S" by (rule last_of_three [OF known other \<open>?S \<noteq> {}\<close> no_simulator])
      have "evidence_source_for pick evs = ''replay''"
        unfolding evidence_source_for_def Let_def
        by (rule trans [OF if_not_P [OF other] trans [OF if_not_P [OF no_simulator] if_P [OF replay]]])
      with live distinct show False by metis
    qed
  qed
  with e show ?thesis by (metis image_eqI singletonD)
qed

section \<open>What a candidate rests on\<close>

definition transfer_events :: "tele_event list \<Rightarrow> tele_event list" where
  "transfer_events events = filter (\<lambda>e. te_event_type e \<in> set THREAT_TRANSFER_TYPES) events"

definition privileged_events :: "tele_event list \<Rightarrow> tele_event list" where
  "privileged_events events = filter (\<lambda>e. te_event_type e \<in> set PRIVILEGED_EVENT_TYPES) events"

definition built_from :: "(string set \<Rightarrow> string) \<Rightarrow> tele_event list \<Rightarrow> string \<Rightarrow> bool \<Rightarrow> candidate \<Rightarrow> bool" where
  "built_from pick evs ty priv c \<longleftrightarrow> (\<exists>g. g \<noteq> [] \<and> set g \<subseteq> set evs \<and> rests_on pick g c)
     \<and> dc_detection_type c = ty \<and> dc_privileged c = priv"

lemma built_fromI:
  "(k, g) \<in> set (group_by key xs) \<Longrightarrow> set xs \<subseteq> set evs \<Longrightarrow> rests_on pick g c \<Longrightarrow> dc_detection_type c = ty \<Longrightarrow>
     dc_privileged c = priv \<Longrightarrow> built_from pick evs ty priv c"
  unfolding built_from_def by (blast dest: group_by_members)

lemma unusual_built:
  assumes "c \<in> set (detect_unusual_transfers pick bs cfg evs)" "0 < dt_fan_out_min_destinations cfg"
  shows "built_from pick evs ''unusual_transfer'' False c"
proof -
  from assms(1) obtain a src g
    where g: "((a, src), g) \<in> set (group_by (\<lambda>e. (te_asset_id e, te_from_address e)) (filter (\<lambda>e. te_from_address e \<noteq> None) evs))"
      and c: "unusual_in_group pick bs cfg a (the src) g = Some c"
    unfolding detect_unusual_transfers_def map_filter_mem by fastforce
  show ?thesis using unusual_rests [OF c assms(2)] by (intro built_fromI [OF g]) auto
qed

lemma mint_burn_built:
  assumes "c \<in> set (detect_mint_burn_irregularity pick bs cfg evs)"
  shows "built_from pick evs ''mint_burn_irregularity'' False c"
proof -
  from assms obtain a k g
    where g: "((a, k), g) \<in> set (group_by (\<lambda>e. (te_asset_id e, mint_burn_kind e)) (filter (\<lambda>e. mint_burn_kind e \<noteq> None) evs))"
      and c: "mint_burn_in_group pick bs cfg a (the k) g = Some c"
    unfolding detect_mint_burn_irregularity_def map_filter_mem by fastforce
  show ?thesis using mint_burn_rests [OF c] group_by_members [OF g] by (intro built_fromI [OF g]) auto
qed

lemma coordinated_built:
  assumes "c \<in> set (detect_coordinated_activity pick cfg evs)"
  shows "built_from pick evs ''coordinated_activity'' False c"
proof -
  from assms obtain a h b g
    where h: "(a, h) \<in> set (group_by te_asset_id evs)" and g: "(b, g) \<in> set (group_by (bucket_of cfg) h)"
      and c: "coordinated_in_bucket pick cfg a b g = Some c"
    unfolding detect_coordinated_activity_def set_concat set_map
    by (auto simp only: map_filter_mem image_iff UN_iff split: prod.splits) blast
  show ?thesis using coordinated_rests [OF c] group_by_members [OF g] group_by_members [OF h]
    by (intro built_fromI [OF g]) auto
qed

lemma privileged_built:
  assumes "c \<in> set (detect_privileged_actions pick evs)"
  shows "built_from pick evs ''privileged_action'' True c"
proof -
  from assms obtain a ac et g
    where g: "((a, ac, et), g) \<in> set (group_by (\<lambda>e. (te_asset_id e, te_from_address e, te_event_type e))
         (filter (\<lambda>e. te_event_type e \<in> set PRIVILEGED_EVENT_TYPES) evs))"
      and c: "c = privileged_in_group pick a ac et g"
    unfolding detect_privileged_actions_def by auto
  show ?thesis using privileged_rests group_by_members [OF g]
    by (intro built_fromI [OF g]) (auto simp: c privileged_in_group_def)
qed

lemma candidate_built:
  assumes "c \<in> set (extract_candidates pick bs cfg events)" "0 < dt_fan_out_min_destinations cfg"
  shows "built_from pick (transfer_events events) ''unusual_transfer'' False c
    \<or> built_from pick (transfer_events events) ''coordinated_activity'' False c
    \<or> built_from pick (transfer_events events) ''mint_burn_irregularity'' False c
    \<or> built_from pick (privileged_events events) ''privileged_action'' True c"
  using assms unusual_built coordinated_built mint_burn_built privileged_built
  unfolding extract_candidates_def Let_def transfer_events_def privileged_events_def set_append Un_iff by metis

definition SUPPORTED_TYPES :: "string list" where
  "SUPPORTED_TYPES = [''unusual_transfer'', ''coordinated_activity'', ''mint_burn_irregularity'', ''privileged_action'']"

definition grounded :: "tele_event list \<Rightarrow> candidate \<Rightarrow> bool" where
  "grounded events c \<longleftrightarrow> dc_evidence c \<noteq> [] \<and> er_event ` set (dc_evidence c) \<subseteq> set events
     \<and> (dc_evidence_source c = ''live'' \<longrightarrow> te_evidence_source ` er_event ` set (dc_evidence c) \<subseteq> {''live''})
     \<and> te_event_type ` er_event ` set (dc_evidence c)
         \<subseteq> set (if dc_privileged c then PRIVILEGED_EVENT_TYPES else THREAT_TRANSFER_TYPES)
     \<and> (dc_privileged c \<longleftrightarrow> dc_detection_type c = ''privileged_action'')
     \<and> dc_detection_type c \<in> set SUPPORTED_TYPES"

lemma groundedI:
  assumes "dc_evidence c \<noteq> []" "er_event ` set (dc_evidence c) \<subseteq> set events"
    "dc_evidence_source c = ''live'' \<Longrightarrow> te_evidence_source ` er_event ` set (dc_evidence c) \<subseteq> {''live''}"
    "te_event_type ` er_event ` set (dc_evidence c) \<subseteq> set (if p then PRIVILEGED_EVENT_TYPES else THREAT_TRANSFER_TYPES)"
    "dc_privileged c = p" "p \<longleftrightarrow> dc_detection_type c = ''privileged_action''" "dc_detection_type c \<in> set SUPPORTED_TYPES"
  shows "grounded events c"
  unfolding grounded_def using assms by (intro conjI impI) simp_all

lemma built_evidence:
  assumes b: "built_from pick evs ty priv c" and sub: "set evs \<subseteq> set events"
    and known: "te_evidence_source ` set events \<subseteq> {''live'', ''simulator'', ''replay''}"
  shows "dc_evidence c \<noteq> []" "er_event ` set (dc_evidence c) \<subseteq> set evs"
    "dc_evidence_source c = ''live'' \<Longrightarrow> te_evidence_source ` er_event ` set (dc_evidence c) \<subseteq> {''live''}"
proof -
  from b obtain g where g: "g \<noteq> []" "set g \<subseteq> set evs" "rests_on pick g c" unfolding built_from_def by blast
  show "dc_evidence c \<noteq> []" "er_event ` set (dc_evidence c) \<subseteq> set evs" using g(2,3) unfolding rests_on_def by blast+
  assume live: "dc_evidence_source c = ''live''"
  have "te_evidence_source ` set g \<subseteq> {''live'', ''simulator'', ''replay''}"
    by (rule order_trans [OF image_mono [OF order_trans [OF g(2) sub]] known])
  moreover have "evidence_source_for pick g = ''live''" using g(3) live unfolding rests_on_def by metis
  ultimately have "te_evidence_source e = ''live''" if "e \<in> set g" for e using live_source [OF g(1)] that by metis
  moreover have "er_event ` set (dc_evidence c) \<subseteq> set g" using g(3) unfolding rests_on_def by blast
  ultimately show "te_evidence_source ` er_event ` set (dc_evidence c) \<subseteq> {''live''}" by blast
qed

lemma candidate_grounded:
  assumes c: "c \<in> set (extract_candidates pick bs cfg events)" and cfg: "0 < dt_fan_out_min_destinations cfg"
    and known: "te_evidence_source ` set events \<subseteq> {''live'', ''simulator'', ''replay''}"
  shows "grounded events c"
proof -
  have subs: "set (transfer_events events) \<subseteq> set events" "set (privileged_events events) \<subseteq> set events"
    unfolding transfer_events_def privileged_events_def by (rule filter_is_subset)+
  have transfers: "grounded events c"
    if b: "built_from pick (transfer_events events) ty False c" and ty: "ty \<in> set SUPPORTED_TYPES" "ty \<noteq> ''privileged_action''" for ty
  proof -
    note ev = built_evidence [OF b subs(1) known]
    have "te_event_type ` er_event ` set (dc_evidence c) \<subseteq> set THREAT_TRANSFER_TYPES"
      using ev(2) unfolding transfer_events_def by auto
    moreover have "dc_detection_type c = ty" "dc_privileged c = False" using b unfolding built_from_def by metis+
    ultimately show ?thesis using ev(1) order_trans [OF ev(2) subs(1)] ev(3) ty
      by (intro groundedI [where p = False]) simp_all
  qed
  have privileged: "grounded events c" if b: "built_from pick (privileged_events events) ''privileged_action'' True c"
  proof -
    note ev = built_evidence [OF b subs(2) known]
    have "te_event_type ` er_event ` set (dc_evidence c) \<subseteq> set PRIVILEGED_EVENT_TYPES"
      using ev(2) unfolding privileged_events_def by auto
    moreover have "''privileged_action'' \<in> set SUPPORTED_TYPES" by (simp add: SUPPORTED_TYPES_def)
    moreover have "dc_detection_type c = ''privileged_action''" "dc_privileged c = True"
      using b unfolding built_from_def by metis+
    ultimately show ?thesis using ev(1) order_trans [OF ev(2) subs(2)] ev(3)
      by (intro groundedI [where p = True]) simp_all
  qed
  have types: "''unusual_transfer'' \<in> set SUPPORTED_TYPES" "''coordinated_activity'' \<in> set SUPPORTED_TYPES"
    "''mint_burn_irregularity'' \<in> set SUPPORTED_TYPES" by (simp_all add: SUPPORTED_TYPES_def)
  have others: "''unusual_transfer'' \<noteq> ''privileged_action''" "''coordinated_activity'' \<noteq> ''privileged_action''"
    "''mint_burn_irregularity'' \<noteq> ''privileged_action''" by simp_all
  from candidate_built [OF c cfg] show ?thesis
    by (elim disjE) (rule transfers privileged, assumption, (rule types others)+ | erule privileged)+
qed

section \<open>Properties\<close>

text \<open>
  C38. A threat is never invented. Every candidate the detectors report, from any batch of live,
  simulated and replayed events and any baselines, rests on at least one event of the batch and on
  nothing else; it is marked live only when every one of those events is live; a privileged action
  rests on decoded administrative events only and every other candidate on transfers only; and no
  candidate has a type the detectors do not support, such as reentrancy.
\<close>

theorem threats_rest_on_recorded_events:
  assumes "c \<in> set (extract_candidates pick bs cfg events)" and "0 < dt_fan_out_min_destinations cfg"
    and "te_evidence_source ` set events \<subseteq> {''live'', ''simulator'', ''replay''}"
  shows "grounded events c"
  using assms by (rule candidate_grounded)

definition demo_event :: tele_event where
  "demo_event = \<lparr>te_id = ''t1'', te_event_type = ''upgraded'', te_at = 1700000000000000, te_evidence_source = ''live'',
     te_asset_id = Some ''a1'', te_chain_id = Some 1, te_tx_hash = Some ''h1'', te_block_number = Some 7,
     te_from_address = Some ''0xadmin'', te_to_address = None, te_amount = None, te_contract_address = Some ''0xc''\<rparr>"

definition demo_detectors :: detector_config where
  "demo_detectors = \<lparr>dt_amount_deviation_medium = 4, dt_mint_burn_deviation_high = 5, dt_min_baseline_samples = 8,
     dt_fan_out_min_destinations = 4, dt_fan_out_window_seconds = 900, dt_low_slow_window_seconds = 3600,
     dt_low_slow_min_events = 5, dt_low_slow_min_actors = 2\<rparr>"

theorem threats_rest_on_recorded_events_witness:
  "extract_candidates (\<lambda>_. []) (\<lambda>_. None) demo_detectors [demo_event] \<noteq> []
   \<and> grounded [demo_event] (hd (extract_candidates (\<lambda>_. []) (\<lambda>_. None) demo_detectors [demo_event]))"
proof -
  have e: "extract_candidates (\<lambda>_. []) (\<lambda>_. None) demo_detectors [demo_event] \<noteq> []"
    by (simp add: extract_candidates_def demo_event_def THREAT_TRANSFER_TYPES_def PRIVILEGED_EVENT_TYPES_def
        detect_privileged_actions_def group_by_def append_new_def)
  have "grounded [demo_event] (hd (extract_candidates (\<lambda>_. []) (\<lambda>_. None) demo_detectors [demo_event]))"
    by (rule threats_rest_on_recorded_events [OF hd_in_set [OF e]]) (simp_all add: demo_detectors_def demo_event_def)
  with e show ?thesis by blast
qed

end
