(* ===== verification/Threat_Scan.thy ===== *)
theory Threat_Scan
  imports Threat_Detectors "HOL-Library.Product_Lexorder"
begin

text \<open>
  What a run of the threat detection worker reads: the scan window, the rows it counts as new and the
  checkpoint of a workspace, \<open>services/api/app/domains/threat_detection/service.py\<close>
  (\<open>_load_scan_window\<close>, \<open>_advance_checkpoint\<close> and the frame of \<open>process_workspace\<close>).

  The table holds the rows of one workspace; a row is the event \<open>normalize_event\<close> makes of it together
  with its stored type. Identifiers are lower-case UUID texts, which the database orders as texts.
\<close>

section \<open>Rows and checkpoint\<close>

record telemetry =
  tw_event_type :: string
  tw_event :: tele_event

definition tw_at :: "telemetry \<Rightarrow> int" where
  "tw_at r = te_at (tw_event r)"

definition tw_id :: "telemetry \<Rightarrow> string" where
  "tw_id r = te_id (tw_event r)"

record checkpoint =
  cp_last_at :: "int option"
  cp_last_id :: "string option"
  cp_processed :: int

text \<open>\<open>_read_checkpoint\<close> of a workspace that has none.\<close>

definition no_checkpoint :: checkpoint where
  "no_checkpoint = \<lparr>cp_last_at = None, cp_last_id = None, cp_processed = 0\<rparr>"

section \<open>The scan window\<close>

definition correlation_micros :: "int \<Rightarrow> int" where
  "correlation_micros low_slow_window = max WINDOW_24H low_slow_window * 1000000"

definition window_start :: "int \<Rightarrow> int \<Rightarrow> checkpoint \<Rightarrow> int" where
  "window_start low_slow_window now cp =
     (case cp_last_at cp of Some t \<Rightarrow> t | None \<Rightarrow> now) - correlation_micros low_slow_window"

definition in_scan :: "int \<Rightarrow> telemetry \<Rightarrow> bool" where
  "in_scan start r = (tw_at r \<ge> start \<and> py_lower (tw_event_type r) \<notin> set RUNTIME_EVENT_TYPES)"

definition scan_key :: "telemetry \<Rightarrow> int \<times> string" where
  "scan_key r = (tw_at r, tw_id r)"

definition load_scan_window :: "int \<Rightarrow> nat \<Rightarrow> int \<Rightarrow> checkpoint \<Rightarrow> telemetry list \<Rightarrow> telemetry list" where
  "load_scan_window low_slow_window batch now cp table =
     take batch (sort_key scan_key (filter (in_scan (window_start low_slow_window now cp)) table))"

section \<open>New rows and the next checkpoint\<close>

definition is_new_row :: "checkpoint \<Rightarrow> telemetry \<Rightarrow> bool" where
  "is_new_row cp r = (case cp_last_at cp of
       None \<Rightarrow> True
     | Some t \<Rightarrow> epoch_of (tw_at r) > epoch_of t \<or>
         epoch_of (tw_at r) = epoch_of t \<and>
           (case cp_last_id cp of None \<Rightarrow> False | Some i \<Rightarrow> i \<noteq> [] \<and> tw_id r \<noteq> i))"

definition position :: "telemetry \<Rightarrow> int \<times> string" where
  "position r = (epoch_of (tw_at r), tw_id r)"

text \<open>\<open>max\<close> with a key: the first row of the greatest key.\<close>

fun newest_row :: "telemetry \<Rightarrow> telemetry list \<Rightarrow> telemetry" where
  "newest_row best [] = best"
| "newest_row best (r # rs) = newest_row (if position best < position r then r else best) rs"

definition advance_checkpoint :: "telemetry \<Rightarrow> nat \<Rightarrow> checkpoint \<Rightarrow> checkpoint" where
  "advance_checkpoint r processed cp =
     \<lparr>cp_last_at = Some (tw_at r), cp_last_id = Some (tw_id r), cp_processed = cp_processed cp + int processed\<rparr>"

datatype scan_result = ScanSkipped | Scanned "telemetry list" checkpoint

text \<open>The rows \<open>process_workspace\<close> hands to the detectors, and the checkpoint it leaves.\<close>

definition scan_workspace :: "int \<Rightarrow> nat \<Rightarrow> int \<Rightarrow> checkpoint \<Rightarrow> telemetry list \<Rightarrow> scan_result" where
  "scan_workspace low_slow_window batch now cp table =
     (case load_scan_window low_slow_window batch now cp table of
        [] \<Rightarrow> ScanSkipped
      | r # rs \<Rightarrow>
          (let fresh = filter (is_new_row cp) (r # rs) in
           if cp_last_at cp \<noteq> None \<and> fresh = [] then ScanSkipped
           else Scanned (r # rs) (advance_checkpoint (newest_row r rs) (length fresh) cp)))"

section \<open>Lemmas\<close>

lemma epoch_of_mono: "a \<le> b \<Longrightarrow> epoch_of a \<le> epoch_of b"
  by (simp add: epoch_of_def zdiv_mono1)

lemma newest_in: "newest_row best rs \<in> set (best # rs)"
proof (induction rs arbitrary: best)
  case (Cons x xs)
  show ?case using Cons.IH [of "if position best < position x then x else best"] by (simp split: if_splits) blast+
qed simp

lemma newest_greatest: "r \<in> set (best # rs) \<Longrightarrow> position r \<le> position (newest_row best rs)"
proof (induction rs arbitrary: best r)
  case (Cons x xs)
  let ?b = "if position best < position x then x else best"
  have "position ?b \<le> position (newest_row ?b xs)" by (rule Cons.IH) simp
  moreover have "position best \<le> position ?b" "position x \<le> position ?b" by auto
  ultimately show ?case using Cons.IH [of r ?b] Cons.prems by (auto intro: order_trans)
qed simp

lemma newest_epoch: "r \<in> set (best # rs) \<Longrightarrow> epoch_of (tw_at r) \<le> epoch_of (tw_at (newest_row best rs))"
  using newest_greatest [of r best rs] by (auto simp: position_def less_eq_prod_def)

lemma load_scan_window_set:
  "r \<in> set (load_scan_window low_slow batch now cp table) \<Longrightarrow>
     r \<in> set table \<and> in_scan (window_start low_slow now cp) r"
  unfolding load_scan_window_def by (auto dest: in_set_takeD)

text \<open>Of a sorted list, a prefix no longer than the number of small elements is small.\<close>

lemma sorted_prefix_small:
  assumes "sorted (map f xs)" and "\<And>x y. f x \<le> f y \<Longrightarrow> P y \<Longrightarrow> P x"
    and "n \<le> length (filter P xs)" and "x \<in> set (take n xs)"
  shows "P x"
  using assms(1,3,4)
proof (induction xs arbitrary: n)
  case (Cons y ys)
  from Cons.prems(3) obtain m where n: "n = Suc m" by (cases n) auto
  show ?case
  proof (cases "P y")
    case True
    then show ?thesis using Cons n by auto
  next
    case False
    have "filter P (y # ys) = []" using False Cons.prems(1) assms(2) by (auto simp: filter_empty_conv)
    with Cons.prems(2) n show ?thesis by simp
  qed
qed simp

lemma scan_result_cases:
  assumes "scan_workspace low_slow batch now cp table = Scanned rows cp'"
  shows "rows = load_scan_window low_slow batch now cp table" "rows \<noteq> []"
    "cp_last_at cp \<noteq> None \<Longrightarrow> \<exists>r \<in> set rows. is_new_row cp r"
    "cp_last_at cp' = Some (tw_at (newest_row (hd rows) (tl rows)))"
proof -
  obtain x xs where w: "load_scan_window low_slow batch now cp table = x # xs"
    using assms by (cases "load_scan_window low_slow batch now cp table") (simp_all add: scan_workspace_def)
  have "rows = x # xs \<and> cp' = advance_checkpoint (newest_row x xs) (length (filter (is_new_row cp) (x # xs))) cp
      \<and> (cp_last_at cp \<noteq> None \<longrightarrow> filter (is_new_row cp) (x # xs) \<noteq> [])"
    using assms unfolding scan_workspace_def w Let_def list.case
    by (auto simp del: filter.simps split: if_split_asm)
  with w show "rows = load_scan_window low_slow batch now cp table" "rows \<noteq> []"
    "cp_last_at cp \<noteq> None \<Longrightarrow> \<exists>r \<in> set rows. is_new_row cp r"
    "cp_last_at cp' = Some (tw_at (newest_row (hd rows) (tl rows)))"
    by (auto simp del: filter.simps simp: filter_empty_conv advance_checkpoint_def)
qed

section \<open>Runs over a growing table\<close>

text \<open>Rows are stored, and the worker runs, in any order; the third component is what it has read.\<close>

inductive scan_run :: "int \<Rightarrow> nat \<Rightarrow> telemetry list \<Rightarrow> checkpoint \<Rightarrow> telemetry list \<Rightarrow> checkpoint \<Rightarrow> telemetry list \<Rightarrow> bool"
  for low_slow batch table cp where
  start: "scan_run low_slow batch table cp table cp []"
| store: "scan_run low_slow batch table cp table' cp' reads \<Longrightarrow> scan_run low_slow batch table cp (table' @ [r]) cp' reads"
| skip: "scan_run low_slow batch table cp table' cp' reads \<Longrightarrow> scan_workspace low_slow batch now cp' table' = ScanSkipped \<Longrightarrow>
    scan_run low_slow batch table cp table' cp' reads"
| scan: "scan_run low_slow batch table cp table' cp' reads \<Longrightarrow>
    scan_workspace low_slow batch now cp' table' = Scanned rows cp'' \<Longrightarrow>
    scan_run low_slow batch table cp table' cp'' (reads @ rows)"

definition full_day :: "int \<Rightarrow> nat \<Rightarrow> int \<Rightarrow> telemetry list \<Rightarrow> bool" where
  "full_day low_slow batch E table \<longleftrightarrow>
     batch \<le> length (filter (\<lambda>r. in_scan ((E + 1) * 1000000 - correlation_micros low_slow) r \<and> epoch_of (tw_at r) \<le> E) table)"

lemma epoch_upper: "epoch_of t = E \<Longrightarrow> t < (E + 1) * 1000000"
  unfolding epoch_of_def by presburger

lemma full_day_grows: "full_day low_slow batch E table \<Longrightarrow> full_day low_slow batch E (table @ [r])"
  by (simp add: full_day_def)

lemma full_day_window:
  assumes full: "full_day low_slow batch E table" and cp: "cp_last_at cp = Some t" "epoch_of t = E"
    and r: "r \<in> set (load_scan_window low_slow batch now cp table)"
  shows "epoch_of (tw_at r) \<le> E"
proof -
  let ?start = "window_start low_slow now cp"
  let ?win = "filter (in_scan ?start) table"
  let ?P = "\<lambda>r. epoch_of (tw_at r) \<le> E"
  have start: "?start \<le> (E + 1) * 1000000 - correlation_micros low_slow"
    using epoch_upper [OF cp(2)] by (simp add: window_start_def cp(1))
  have "length (filter (\<lambda>r. in_scan ((E + 1) * 1000000 - correlation_micros low_slow) r \<and> ?P r) table)
      \<le> length (filter ?P ?win)"
    unfolding filter_filter by (induction table) (use start in \<open>auto simp: in_scan_def\<close>)
  also have "\<dots> = length (filter ?P (sort_key scan_key ?win))"
    by (metis mset_filter mset_sort size_mset)
  finally have "batch \<le> length (filter ?P (sort_key scan_key ?win))"
    using full unfolding full_day_def by linarith
  moreover have "?P x" if "scan_key x \<le> scan_key y" "?P y" for x y
    using that epoch_of_mono [of "tw_at x" "tw_at y"] by (auto simp: scan_key_def less_eq_prod_def)
  moreover have "sorted (map scan_key (sort_key scan_key ?win))" by simp
  ultimately show ?thesis
    using r sorted_prefix_small [of scan_key "sort_key scan_key ?win" ?P batch r] unfolding load_scan_window_def by blast
qed

lemma full_day_step:
  assumes full: "full_day low_slow batch E table" and cp: "cp_last_at cp = Some t" "epoch_of t = E"
    and scan: "scan_workspace low_slow batch now cp table = Scanned rows cp'"
  shows "\<exists>t'. cp_last_at cp' = Some t' \<and> epoch_of t' = E" "\<forall>r \<in> set rows. epoch_of (tw_at r) \<le> E"
proof -
  note res = scan_result_cases [OF scan]
  show all: "\<forall>r \<in> set rows. epoch_of (tw_at r) \<le> E" using full_day_window [OF full cp] unfolding res(1) by blast
  obtain r where r: "r \<in> set rows" "is_new_row cp r" using res(3) cp by auto
  have rows: "set rows = set (hd rows # tl rows)" using res(2) by simp
  let ?new = "newest_row (hd rows) (tl rows)"
  have "E \<le> epoch_of (tw_at r)" using r(2) cp by (auto simp: is_new_row_def)
  also have "\<dots> \<le> epoch_of (tw_at ?new)" by (rule newest_epoch) (use r(1) rows in simp)
  finally have "E \<le> epoch_of (tw_at ?new)" .
  moreover have "?new \<in> set rows" unfolding rows by (rule newest_in)
  ultimately show "\<exists>t'. cp_last_at cp' = Some t' \<and> epoch_of t' = E" using res(4) all by force
qed

lemma starving_run:
  assumes "scan_run low_slow batch table cp table' cp' reads"
    and "full_day low_slow batch E table" "cp_last_at cp = Some t" "epoch_of t = E"
  shows "full_day low_slow batch E table' \<and> (\<exists>t'. cp_last_at cp' = Some t' \<and> epoch_of t' = E)
    \<and> (\<forall>r \<in> set reads. epoch_of (tw_at r) \<le> E)"
  using assms
proof (induction rule: scan_run.induct)
  case (scan table' cp' reads now rows cp'')
  then show ?case using full_day_step by (metis Un_iff set_append)
qed (auto intro: full_day_grows)

section \<open>Properties\<close>

text \<open>
  What a run should read, said over the table alone: the \<open>batch\<close> oldest of the rows that are no runtime
  events and not older than a day (or the longer correlation window) before the checkpoint.
\<close>

definition eligible_rows :: "int \<Rightarrow> int \<Rightarrow> checkpoint \<Rightarrow> telemetry list \<Rightarrow> telemetry set" where
  "eligible_rows low_slow now cp table = {r \<in> set table. py_lower (tw_event_type r) \<notin> set RUNTIME_EVENT_TYPES \<and>
     (case cp_last_at cp of Some t \<Rightarrow> t | None \<Rightarrow> now) \<le> te_at (tw_event r) + max 86400 low_slow * 1000000}"

definition row_before :: "telemetry \<Rightarrow> telemetry \<Rightarrow> bool" where
  "row_before r q \<longleftrightarrow> te_at (tw_event r) < te_at (tw_event q) \<or>
     te_at (tw_event r) = te_at (tw_event q) \<and> te_id (tw_event r) < te_id (tw_event q)"

definition oldest_rows :: "nat \<Rightarrow> telemetry set \<Rightarrow> telemetry list \<Rightarrow> bool" where
  "oldest_rows batch eligible rows \<longleftrightarrow> set rows \<subseteq> eligible \<and> sorted_wrt row_before rows \<and>
     length rows = min batch (card eligible) \<and> (\<forall>x \<in> eligible - set rows. \<forall>r \<in> set rows. row_before r x)"

text \<open>Rows beyond the checkpoint: of a later second, or another row of its second.\<close>

definition beyond :: "checkpoint \<Rightarrow> telemetry \<Rightarrow> bool" where
  "beyond cp r \<longleftrightarrow> (\<forall>t. cp_last_at cp = Some t \<longrightarrow> te_at (tw_event r) div 1000000 > t div 1000000 \<or>
     te_at (tw_event r) div 1000000 = t div 1000000 \<and> (\<exists>i. cp_last_id cp = Some i \<and> i \<noteq> [] \<and> i \<noteq> te_id (tw_event r)))"

definition moved_to :: "checkpoint \<Rightarrow> telemetry list \<Rightarrow> checkpoint \<Rightarrow> bool" where
  "moved_to cp rows cp' \<longleftrightarrow> cp_processed cp' = cp_processed cp + int (length (filter (beyond cp) rows)) \<and>
     (\<exists>r. r \<in> set rows \<and> cp_last_at cp' = Some (te_at (tw_event r)) \<and> cp_last_id cp' = Some (te_id (tw_event r)) \<and>
       (\<forall>q \<in> set rows. te_at (tw_event q) div 1000000 < te_at (tw_event r) div 1000000 \<or>
          te_at (tw_event q) div 1000000 = te_at (tw_event r) div 1000000 \<and> te_id (tw_event q) \<le> te_id (tw_event r)))"

lemma row_before_key: "row_before r q \<longleftrightarrow> scan_key r < scan_key q"
  by (auto simp: row_before_def scan_key_def tw_at_def tw_id_def less_prod_def)

lemma beyond_iff: "beyond cp r \<longleftrightarrow> is_new_row cp r"
  by (auto simp: beyond_def is_new_row_def epoch_of_def tw_at_def tw_id_def split: option.split)

lemma eligible_filter: "eligible_rows low_slow now cp table = set (filter (in_scan (window_start low_slow now cp)) table)"
  by (auto simp: eligible_rows_def in_scan_def window_start_def correlation_micros_def tw_at_def WINDOW_24H_def)

text \<open>A prefix of the sorted rows is their oldest.\<close>

lemma sorted_keys_wrt: "distinct (map scan_key rows) \<Longrightarrow> sorted (map scan_key rows) \<Longrightarrow> sorted_wrt row_before rows"
  unfolding row_before_key by (induction rows) (force simp: less_le)+

lemma load_scan_window_oldest:
  assumes "distinct (map tw_id table)"
  shows "oldest_rows batch (eligible_rows low_slow now cp table) (load_scan_window low_slow batch now cp table)"
proof -
  let ?win = "filter (in_scan (window_start low_slow now cp)) table"
  let ?all = "sort_key scan_key ?win"
  have ids: "distinct (map tw_id ?win)" using assms by (rule distinct_map_filter)
  then have "distinct (map scan_key ?win)" by (simp add: distinct_map inj_on_def scan_key_def)
  then have "distinct (map scan_key ?all)" by (simp add: distinct_map)
  then have order: "sorted_wrt row_before ?all" by (intro sorted_keys_wrt) simp_all
  have eligible: "eligible_rows low_slow now cp table = set ?all" by (simp add: eligible_filter)
  have "distinct ?win" using ids by (simp add: distinct_map)
  then have count: "card (set ?all) = length ?all" by (metis distinct_card distinct_sort set_sort)
  have "\<forall>x \<in> set ?all - set (take batch ?all). \<forall>r \<in> set (take batch ?all). row_before r x"
  proof (intro ballI)
    fix x r assume x: "x \<in> set ?all - set (take batch ?all)" and r: "r \<in> set (take batch ?all)"
    have "x \<in> set (drop batch ?all)" using x by (metis DiffE Un_iff append_take_drop_id set_append)
    with r order show "row_before r x" by (metis append_take_drop_id sorted_wrt_append)
  qed
  moreover have "sorted_wrt row_before (take batch ?all)" using order by (rule sorted_wrt_take)
  moreover have "length (take batch ?all) = min batch (card (set ?all))" unfolding count by simp
  ultimately show ?thesis unfolding oldest_rows_def eligible load_scan_window_def
    using set_take_subset [of batch ?all] by blast
qed

text \<open>
  C39. A run reads the oldest rows of its window. With the identifiers of the table distinct, there is one
  list of rows the run looks at: in ascending order of instant and identifier, as many of the oldest
  rows as the batch takes of those that are no runtime events and not older than a day, or the longer
  correlation window, before the checkpoint (before the present, where there is none). The run is
  skipped exactly when the list is empty or the checkpoint is set and no row of the list is beyond it;
  otherwise the detectors get the whole list, the rows before the checkpoint included, the checkpoint
  moves to the row of the latest second in the list, the greatest identifier of that second, and counts the rows that were beyond it.
\<close>

theorem scan_reads_the_oldest:
  assumes "distinct (map tw_id table)"
  shows "\<exists>rows. oldest_rows batch (eligible_rows low_slow now cp table) rows \<and>
    (scan_workspace low_slow batch now cp table = ScanSkipped \<longleftrightarrow>
       rows = [] \<or> cp_last_at cp \<noteq> None \<and> \<not> (\<exists>r. r \<in> set rows \<and> beyond cp r)) \<and>
    (\<forall>read cp'. scan_workspace low_slow batch now cp table = Scanned read cp' \<longrightarrow> read = rows \<and> moved_to cp rows cp')"
proof -
  let ?rows = "load_scan_window low_slow batch now cp table"
  have "scan_workspace low_slow batch now cp table = ScanSkipped \<longleftrightarrow>
      ?rows = [] \<or> cp_last_at cp \<noteq> None \<and> \<not> (\<exists>r. r \<in> set ?rows \<and> beyond cp r)"
    by (cases ?rows) (auto simp: scan_workspace_def Let_def beyond_iff filter_empty_conv simp del: filter.simps)
  moreover have "read = ?rows \<and> moved_to cp ?rows cp'" if run: "scan_workspace low_slow batch now cp table = Scanned read cp'" for read cp'
  proof -
    obtain x xs where w: "?rows = x # xs" using run by (cases ?rows) (simp_all add: scan_workspace_def)
    have "read = x # xs \<and> cp' = advance_checkpoint (newest_row x xs) (length (filter (is_new_row cp) (x # xs))) cp"
      using run unfolding scan_workspace_def w Let_def list.case by (auto simp del: filter.simps split: if_split_asm)
    moreover have "te_at (tw_event q) div 1000000 < te_at (tw_event (newest_row x xs)) div 1000000 \<or>
        te_at (tw_event q) div 1000000 = te_at (tw_event (newest_row x xs)) div 1000000 \<and>
        te_id (tw_event q) \<le> te_id (tw_event (newest_row x xs))" if "q \<in> set (x # xs)" for q
      using newest_greatest [OF that] by (auto simp: position_def epoch_of_def tw_at_def tw_id_def less_eq_prod_def)
    moreover have "filter (beyond cp) (x # xs) = filter (is_new_row cp) (x # xs)" by (rule filter_cong) (simp_all add: beyond_iff)
    ultimately show ?thesis
      using newest_in [of x xs] unfolding w moved_to_def
      by (intro conjI exI [of _ "newest_row x xs"]) (auto simp: advance_checkpoint_def tw_at_def tw_id_def simp del: filter.simps)
  qed
  ultimately show ?thesis using load_scan_window_oldest [OF assms, of batch low_slow now cp] by blast
qed

text \<open>
  C40. A full day starves the detectors. Once the 24 hours before the checkpoint hold as many rows as
  the batch, no later run, whatever rows are stored in between, reads a row newer than the second
  of the checkpoint or moves the checkpoint past it: the query takes the oldest rows of the window,
  and the window starts 24 hours before the checkpoint.
\<close>

theorem full_day_starves:
  assumes "full_day low_slow batch E table" and "cp_last_at cp = Some t" and "epoch_of t = E"
    and "scan_run low_slow batch table cp table' cp' reads"
  shows "(\<forall>r \<in> set reads. epoch_of (tw_at r) \<le> E) \<and> (\<exists>t'. cp_last_at cp' = Some t' \<and> epoch_of t' = E)"
  using starving_run [OF assms(4,1-3)] by blast

definition demo_row :: "string \<Rightarrow> int \<Rightarrow> telemetry" where
  "demo_row i sec = \<lparr>tw_event_type = ''transfer'', tw_event = demo_event\<lparr>te_id := i, te_at := sec * 1000000\<rparr>\<rparr>"

definition demo_checkpoint :: checkpoint where
  "demo_checkpoint = \<lparr>cp_last_at = Some (1000 * 1000000), cp_last_id = Some ''a'', cp_processed = 1\<rparr>"

theorem scan_reads_the_oldest_witness:
  "\<exists>read cp'. scan_workspace 3600 500 0 demo_checkpoint [demo_row ''b'' 2000, demo_row ''a'' 1000] = Scanned read cp' \<and>
     moved_to demo_checkpoint read cp' \<and> sorted_wrt row_before read"
proof -
  have runtime: "py_lower ''transfer'' \<notin> set RUNTIME_EVENT_TYPES" by code_simp
  note defs = demo_row_def demo_checkpoint_def in_scan_def window_start_def correlation_micros_def WINDOW_24H_def
    tw_at_def tw_id_def is_new_row_def epoch_of_def
  have "distinct (map tw_id [demo_row ''b'' 2000, demo_row ''a'' 1000])" by (simp add: defs)
  note spec = scan_reads_the_oldest [OF this, of 500 3600 0 demo_checkpoint]
  have "scan_workspace 3600 500 0 demo_checkpoint [demo_row ''b'' 2000, demo_row ''a'' 1000] \<noteq> ScanSkipped"
    by (simp add: scan_workspace_def load_scan_window_def defs runtime scan_key_def)
  then obtain read cp' where "scan_workspace 3600 500 0 demo_checkpoint [demo_row ''b'' 2000, demo_row ''a'' 1000] = Scanned read cp'"
    by (metis scan_result.exhaust)
  with spec show ?thesis unfolding oldest_rows_def by blast
qed

theorem full_day_starves_witness:
  "scan_run 3600 1 [demo_row ''a'' 1000] demo_checkpoint [demo_row ''a'' 1000, demo_row ''b'' 5000] demo_checkpoint []
   \<and> (\<exists>t'. cp_last_at demo_checkpoint = Some t' \<and> epoch_of t' = 1000)"
proof -
  have runtime: "py_lower ''transfer'' \<notin> set RUNTIME_EVENT_TYPES" by code_simp
  note defs = demo_row_def demo_checkpoint_def in_scan_def window_start_def correlation_micros_def WINDOW_24H_def
    tw_at_def tw_id_def is_new_row_def epoch_of_def
  have "scan_run 3600 1 [demo_row ''a'' 1000] demo_checkpoint ([demo_row ''a'' 1000] @ [demo_row ''b'' 5000]) demo_checkpoint []"
    by (intro scan_run.store scan_run.start)
  moreover have "scan_workspace 3600 1 0 demo_checkpoint [demo_row ''a'' 1000, demo_row ''b'' 5000] = ScanSkipped"
    by (simp add: scan_workspace_def load_scan_window_def defs runtime scan_key_def)
  ultimately have run: "scan_run 3600 1 [demo_row ''a'' 1000] demo_checkpoint [demo_row ''a'' 1000, demo_row ''b'' 5000] demo_checkpoint []"
    by (simp add: scan_run.skip)
  have "full_day 3600 1 1000 [demo_row ''a'' 1000]" by (simp add: full_day_def defs runtime)
  from full_day_starves [OF this _ _ run, of "1000 * 1000000"] run show ?thesis by (simp add: demo_checkpoint_def epoch_of_def)
qed

end
