(* ===== verification/Threat_Store.thy ===== *)
theory Threat_Store
  imports Threat_Scan
begin

text \<open>
  What a threat candidate becomes: the stored detection with its evidence, the alert and the incident,
  \<open>services/api/app/domains/threat_detection/service.py\<close> (\<open>upsert_candidate\<close>,
  \<open>ensure_alert_for_detection\<close>, \<open>process_workspace\<close>, \<open>investigate_detection\<close>) and
  \<open>services/api/app/incident_auto_creation.py\<close>.

  The store is that of one workspace. A detection is stored under its cluster key, which the table keeps
  unique; its alert has an identifier computed from that key and its incident a deduplication key
  computed from it, so the key stands for all three. Identifiers drawn at random, explanations, the
  echoed score inputs, the narrative, the instant of the last write and the retention that deletes old
  rows are left out; every statement is taken to succeed. Whether the
  asset of a detection has a user is the parameter \<open>has_user\<close>. Instants are microseconds.
\<close>

section \<open>The store\<close>

record detection =
  dn_detection_type :: string
  dn_title :: string
  dn_severity :: string
  dn_confidence :: rat
  dn_status :: string
  dn_asset_id :: "string option"
  dn_evidence_source :: string
  dn_evidence_quality :: string
  dn_evidence_count :: int
  dn_actor_count :: int
  dn_transaction_count :: int
  dn_alert_eligible :: bool
  dn_linked_alert :: bool
  dn_linked_incident :: bool
  dn_first_seen :: int
  dn_last_seen :: int
  dn_detected_at :: int
  dn_evidence :: "evidence_ref list"

record alert =
  al_type :: string
  al_title :: string
  al_severity :: string
  al_status :: string
  al_occurrences :: int
  al_first_seen :: int
  al_last_seen :: int
  al_incident :: bool

record incident =
  in_type :: string
  in_title :: string
  in_severity :: string
  in_status :: string

record threat_store =
  ts_detections :: "string \<rightharpoonup> detection"
  ts_alerts :: "string \<rightharpoonup> alert"
  ts_incidents :: "string \<rightharpoonup> incident"

record service_config =
  sv_detectors :: detector_config
  sv_promote_confidence :: rat
  sv_alert_min_confidence :: rat

definition DETECTOR_VERSION :: string where
  "DETECTOR_VERSION = ''threat-detect-v1''"

section \<open>Evidence and its aggregates\<close>

text \<open>\<open>ON CONFLICT (detection_id, dedupe_key) DO NOTHING\<close>.\<close>

definition attach_one :: "evidence_ref \<Rightarrow> evidence_ref list \<Rightarrow> evidence_ref list" where
  "attach_one e rows = (if evidence_key e \<in> evidence_key ` set rows then rows else rows @ [e])"

definition attach_evidence :: "evidence_ref list \<Rightarrow> evidence_ref list \<Rightarrow> evidence_ref list" where
  "attach_evidence evs rows = fold attach_one evs rows"

definition distinct_count :: "(tele_event \<Rightarrow> string option) \<Rightarrow> evidence_ref list \<Rightarrow> int" where
  "distinct_count field rows = int (length (remdups (List.map_filter (\<lambda>e. field (er_event e)) rows)))"

definition min_at :: "evidence_ref list \<Rightarrow> int option" where
  "min_at rows = (case map (te_at \<circ> er_event) rows of [] \<Rightarrow> None | t # ts \<Rightarrow> Some (fold min ts t))"

definition max_at :: "evidence_ref list \<Rightarrow> int option" where
  "max_at rows = (case map (te_at \<circ> er_event) rows of [] \<Rightarrow> None | t # ts \<Rightarrow> Some (fold max ts t))"

definition span_seconds :: "evidence_ref list \<Rightarrow> int" where
  "span_seconds rows = (case (min_at rows, max_at rows) of
       (Some a, Some b) \<Rightarrow> max 0 (epoch_of b - epoch_of a)
     | _ \<Rightarrow> 0)"

definition persistence_windows :: "evidence_ref list \<Rightarrow> int \<Rightarrow> int" where
  "persistence_windows rows window_seconds = max 1 (span_seconds rows div max 1 window_seconds + 1)"

definition candidate_actor_count :: "candidate \<Rightarrow> int" where
  "candidate_actor_count c = int (length (remdups (filter (\<lambda>a. a \<noteq> []) (dc_actors c))))"

definition candidate_transaction_count :: "candidate \<Rightarrow> int" where
  "candidate_transaction_count c = int (length (remdups (filter (\<lambda>t. t \<noteq> []) (dc_tx_hashes c))))"

section \<open>Storing a candidate\<close>

definition candidate_key :: "hash_fun \<Rightarrow> string \<Rightarrow> int \<Rightarrow> candidate \<Rightarrow> string" where
  "candidate_key H workspace_id now c =
     (let signature = (case truthy_text (dc_cluster_signature c) of s # _ \<Rightarrow> s | [] \<Rightarrow> actor_signature H (dc_actors c));
          epoch = (if dc_window_epoch c \<noteq> 0 then dc_window_epoch c else epoch_of now)
      in cluster_key H workspace_id (dc_detection_type c) (dc_chain_id c) (dc_asset_id c) (dc_contract_address c)
           signature (window_bucket (Some epoch) (dc_window_seconds c)) DETECTOR_VERSION)"

definition candidate_severity :: "evidence_ref list \<Rightarrow> candidate \<Rightarrow> string" where
  "candidate_severity rows c = fst (compute_severity
     \<lparr>si_detection_type = dc_detection_type c, si_value_usd = None, si_amount_deviation = dc_amount_deviation c,
      si_privileged = dc_privileged c, si_affected_asset_count = 1,
      si_actor_count = max (distinct_count te_from_address rows) (candidate_actor_count c),
      si_persistence_windows = persistence_windows rows (dc_window_seconds c), si_asset_importance = 0\<rparr>)"

definition candidate_confidence :: "service_config \<Rightarrow> evidence_ref list \<Rightarrow> candidate \<Rightarrow> rat" where
  "candidate_confidence cfg rows c = compute_confidence
     \<lparr>ci_evidence_quality = dc_evidence_quality c, ci_evidence_count = int (length rows),
      ci_signal_count = dc_signal_count c, ci_baseline_deviation = dc_amount_deviation c,
      ci_actor_repetition = dc_actor_repetition c, ci_temporal_correlation = dc_temporal_correlation c,
      ci_baseline_samples = dc_baseline_samples c,
      ci_min_baseline_samples = dt_min_baseline_samples (sv_detectors cfg)\<rparr>"

definition promotes :: "service_config \<Rightarrow> evidence_ref list \<Rightarrow> candidate \<Rightarrow> bool" where
  "promotes cfg rows c = (candidate_confidence cfg rows c \<ge> sv_promote_confidence cfg
     \<and> severity_rank (candidate_severity rows c) \<ge> severity_rank ''medium'')"

definition OPERATOR_STATES :: "string list" where
  "OPERATOR_STATES = [''investigating'', ''resolved'', ''dismissed'']"

definition next_status :: "string \<Rightarrow> bool \<Rightarrow> string" where
  "next_status prior promote =
     (if prior \<in> set OPERATOR_STATES then prior else if promote then ''open'' else ''anomaly'')"

definition alert_eligible :: "service_config \<Rightarrow> string \<Rightarrow> evidence_ref list \<Rightarrow> candidate \<Rightarrow> bool" where
  "alert_eligible cfg status rows c =
     ((status = ''open'' \<or> status = ''investigating'') \<and> dc_evidence_source c = ''live''
      \<and> severity_rank (candidate_severity rows c) \<ge> severity_rank ''high''
      \<and> candidate_confidence cfg rows c \<ge> sv_alert_min_confidence cfg)"

text \<open>The row the \<open>INSERT\<close> makes.\<close>

definition new_detection :: "int \<Rightarrow> candidate \<Rightarrow> detection" where
  "new_detection now c =
     \<lparr>dn_detection_type = dc_detection_type c, dn_title = dc_title c, dn_severity = ''low'', dn_confidence = 0,
      dn_status = ''anomaly'', dn_asset_id = dc_asset_id c, dn_evidence_source = dc_evidence_source c,
      dn_evidence_quality = dc_evidence_quality c, dn_evidence_count = 0, dn_actor_count = 0,
      dn_transaction_count = 0, dn_alert_eligible = False, dn_linked_alert = False, dn_linked_incident = False,
      dn_first_seen = now, dn_last_seen = now, dn_detected_at = now, dn_evidence = []\<rparr>"

definition or_now :: "int \<Rightarrow> int option \<Rightarrow> int" where
  "or_now now t = (case t of Some x \<Rightarrow> x | None \<Rightarrow> now)"

text \<open>The evidence inserts, the aggregates and the \<open>UPDATE\<close>.\<close>

definition update_detection :: "service_config \<Rightarrow> int \<Rightarrow> candidate \<Rightarrow> detection \<Rightarrow> detection" where
  "update_detection cfg now c d =
     (let rows = attach_evidence (dc_evidence c) (dn_evidence d);
          status = next_status (dn_status d) (promotes cfg rows c)
      in d\<lparr>dn_title := dc_title c, dn_severity := candidate_severity rows c,
           dn_confidence := candidate_confidence cfg rows c, dn_status := status,
           dn_evidence_source := dc_evidence_source c, dn_evidence_quality := dc_evidence_quality c,
           dn_evidence_count := int (length rows),
           dn_actor_count := max (distinct_count te_from_address rows) (candidate_actor_count c),
           dn_transaction_count := max (distinct_count te_tx_hash rows) (candidate_transaction_count c),
           dn_alert_eligible := alert_eligible cfg status rows c,
           dn_first_seen := min (dn_first_seen d) (or_now now (min_at rows)),
           dn_last_seen := max (dn_last_seen d) (or_now now (max_at rows)),
           dn_detected_at := (if dn_status d = ''anomaly'' \<and> status \<noteq> ''anomaly'' then now else dn_detected_at d),
           dn_evidence := rows\<rparr>)"

record upsert_outcome =
  uo_key :: string
  uo_created :: bool
  uo_status :: string
  uo_alert_eligible :: bool
  uo_evidence_added :: int

definition upsert_candidate ::
  "hash_fun \<Rightarrow> string \<Rightarrow> service_config \<Rightarrow> int \<Rightarrow> candidate \<Rightarrow> threat_store \<Rightarrow> upsert_outcome \<times> threat_store" where
  "upsert_candidate H workspace_id cfg now c s =
     (let key = candidate_key H workspace_id now c;
          before = (case ts_detections s key of Some d \<Rightarrow> d | None \<Rightarrow> new_detection now c);
          d = update_detection cfg now c before
      in (\<lparr>uo_key = key, uo_created = (ts_detections s key = None), uo_status = dn_status d,
           uo_alert_eligible = dn_alert_eligible d,
           uo_evidence_added = int (length (dn_evidence d)) - int (length (dn_evidence before))\<rparr>,
          s\<lparr>ts_detections := (ts_detections s)(key \<mapsto> d)\<rparr>))"

section \<open>Alerts and incidents\<close>

definition text_or_else :: "string \<Rightarrow> string \<Rightarrow> string" where
  "text_or_else s dflt = (if s \<noteq> [] then s else dflt)"

definition ensure_alert :: "string \<Rightarrow> int \<Rightarrow> detection \<Rightarrow> threat_store \<Rightarrow> threat_store" where
  "ensure_alert key now d s =
     (let title = text_or_else (dn_title d) ''Threat detection''; severity = text_or_else (dn_severity d) ''medium'';
          a = (case ts_alerts s key of
                 None \<Rightarrow> \<lparr>al_type = text_or_else (dn_detection_type d) ''threat_detection'', al_title = title, al_severity = severity,
                           al_status = ''open'', al_occurrences = 1, al_first_seen = now, al_last_seen = now, al_incident = False\<rparr>
               | Some a \<Rightarrow> a\<lparr>al_severity := severity, al_title := title,
                   al_status := (if al_status a = ''resolved'' \<or> al_status a = ''false_positive'' then ''open'' else al_status a),
                   al_occurrences := al_occurrences a + 1, al_last_seen := now\<rparr>)
      in s\<lparr>ts_alerts := (ts_alerts s)(key \<mapsto> a),
           ts_detections := (case ts_detections s key of None \<Rightarrow> ts_detections s
              | Some d' \<Rightarrow> (ts_detections s)(key \<mapsto> d'\<lparr>dn_linked_alert := True\<rparr>))\<rparr>)"

record auto_policy =
  ap_enabled :: bool
  ap_min_severity :: string
  ap_min_confidence :: rat
  ap_require_asset :: bool

definition AUTO_RANK :: "(string \<times> int) list" where
  "AUTO_RANK = [(''info'', 0), (''low'', 1), (''medium'', 2), (''high'', 3), (''critical'', 4)]"

definition auto_rank :: "int \<Rightarrow> string \<Rightarrow> int" where
  "auto_rank dflt severity = (case map_of AUTO_RANK severity of Some r \<Rightarrow> r | None \<Rightarrow> dflt)"

definition evaluate_auto_policy :: "auto_policy \<Rightarrow> detection \<Rightarrow> bool \<times> string" where
  "evaluate_auto_policy pol d =
     (if \<not> ap_enabled pol then (False, ''policy_disabled'')
      else if auto_rank (- 1) (py_lower (py_strip (dn_severity d))) < auto_rank 4 (text_or_else (ap_min_severity pol) ''critical'')
      then (False, ''below_min_severity'')
      else if dn_confidence d < ap_min_confidence pol then (False, ''below_min_confidence'')
      else if \<not> dn_alert_eligible d then (False, ''not_alert_eligible'')
      else if ap_require_asset pol \<and> truthy_text (dn_asset_id d) = [] then (False, ''no_monitored_asset'')
      else (True, ''eligible''))"

text \<open>\<open>maybe_auto_create_incident\<close>; \<open>d\<close> is the detection as it was read before the alert.\<close>

definition link_incident :: "string \<Rightarrow> bool \<Rightarrow> threat_store \<Rightarrow> threat_store" where
  "link_incident key opened s = (case ts_detections s key of
       None \<Rightarrow> s
     | Some d \<Rightarrow> if dn_linked_incident d then s
         else s\<lparr>ts_detections := (ts_detections s)(key \<mapsto> d\<lparr>dn_linked_incident := True,
                dn_status := (if opened \<and> dn_status d = ''open'' then ''investigating'' else dn_status d)\<rparr>)\<rparr>)"

definition mark_alert :: "string \<Rightarrow> threat_store \<Rightarrow> threat_store" where
  "mark_alert key s = (case ts_alerts s key of
       None \<Rightarrow> s
     | Some a \<Rightarrow> s\<lparr>ts_alerts := (ts_alerts s)(key \<mapsto> a\<lparr>al_incident := True\<rparr>)\<rparr>)"

definition maybe_auto_create_incident :: "auto_policy \<Rightarrow> string \<Rightarrow> detection \<Rightarrow> threat_store \<Rightarrow> bool \<times> threat_store" where
  "maybe_auto_create_incident pol key d s =
     (if \<not> fst (evaluate_auto_policy pol d) then (False, s)
      else if dn_linked_incident d then (False, s)
      else case ts_incidents s key of
        Some _ \<Rightarrow> (False, link_incident key False s)
      | None \<Rightarrow> (True, mark_alert key (link_incident key True
          (s\<lparr>ts_incidents := (ts_incidents s)(key \<mapsto>
             \<lparr>in_type = text_or_else (dn_detection_type d) ''threat_detection'',
              in_title = text_or_else (dn_title d) ''Critical threat detection'',
              in_severity = py_lower (py_strip (dn_severity d)), in_status = ''open''\<rparr>)\<rparr>))))"

section \<open>A run over a workspace\<close>

record run_stats =
  rs_candidates :: int
  rs_created :: int
  rs_updated :: int
  rs_anomalies :: int
  rs_alerts :: int
  rs_incidents :: int

definition has_owner :: "(string \<Rightarrow> bool) \<Rightarrow> detection \<Rightarrow> bool" where
  "has_owner has_user d = (case truthy_text (dn_asset_id d) of a # _ \<Rightarrow> has_user a | [] \<Rightarrow> False)"

text \<open>The alert of an eligible detection, and the incident the policy opens for it.\<close>

definition raise_alert ::
  "(string \<Rightarrow> bool) \<Rightarrow> auto_policy \<Rightarrow> int \<Rightarrow> string \<Rightarrow> threat_store \<Rightarrow> bool \<times> bool \<times> threat_store" where
  "raise_alert has_user pol now key s = (case ts_detections s key of
       None \<Rightarrow> (False, False, s)
     | Some d \<Rightarrow> if \<not> has_owner has_user d then (False, False, s)
         else (True, maybe_auto_create_incident pol key d (ensure_alert key now d s)))"

definition process_candidate ::
  "hash_fun \<Rightarrow> string \<Rightarrow> service_config \<Rightarrow> auto_policy \<Rightarrow> (string \<Rightarrow> bool) \<Rightarrow> int \<Rightarrow> candidate
     \<Rightarrow> run_stats \<times> threat_store \<Rightarrow> run_stats \<times> threat_store" where
  "process_candidate H workspace_id cfg pol has_user now c acc =
     (let (stats, s) = acc;
          (out, s1) = upsert_candidate H workspace_id cfg now c s;
          (alerted, opened, s2) =
            (if uo_alert_eligible out then raise_alert has_user pol now (uo_key out) s1 else (False, False, s1))
      in (stats\<lparr>rs_created := rs_created stats + (if uo_created out then 1 else 0),
                rs_updated := rs_updated stats + (if uo_created out then 0 else 1),
                rs_anomalies := rs_anomalies stats + (if uo_status out = ''anomaly'' then 1 else 0),
                rs_alerts := rs_alerts stats + (if alerted then 1 else 0),
                rs_incidents := rs_incidents stats + (if opened then 1 else 0)\<rparr>, s2))"

definition no_stats :: run_stats where
  "no_stats = \<lparr>rs_candidates = 0, rs_created = 0, rs_updated = 0, rs_anomalies = 0, rs_alerts = 0, rs_incidents = 0\<rparr>"

text \<open>\<open>gather_baselines\<close> is the argument \<open>bs\<close>: averages the database computes.\<close>

definition process_workspace ::
  "hash_fun \<Rightarrow> string \<Rightarrow> (string set \<Rightarrow> string) \<Rightarrow> baselines \<Rightarrow> service_config \<Rightarrow> nat \<Rightarrow> auto_policy \<Rightarrow> (string \<Rightarrow> bool) \<Rightarrow> int
     \<Rightarrow> telemetry list \<Rightarrow> checkpoint \<times> threat_store \<Rightarrow> run_stats \<times> checkpoint \<times> threat_store" where
  "process_workspace H workspace_id pick bs cfg batch pol has_user now table st =
     (let (cp, s) = st in
      case scan_workspace (dt_low_slow_window_seconds (sv_detectors cfg)) batch now cp table of
        ScanSkipped \<Rightarrow> (no_stats, cp, s)
      | Scanned rows cp' \<Rightarrow>
          (let cs = extract_candidates pick bs (sv_detectors cfg) (map tw_event rows);
               (stats, s') = fold (process_candidate H workspace_id cfg pol has_user now) cs
                 (no_stats\<lparr>rs_candidates := int (length cs)\<rparr>, s)
           in (stats, cp', s')))"

section \<open>Start investigation\<close>

datatype investigate_error = NotFound | DetectionClosed | SubThreshold | InsufficientEvidence

datatype investigation = ExistingIncident | ExistingAlert | InvestigationCreated

definition investigate_detection ::
  "int \<Rightarrow> string \<Rightarrow> threat_store \<Rightarrow> investigate_error + (investigation \<times> threat_store)" where
  "investigate_detection now key s = (case ts_detections s key of
       None \<Rightarrow> Inl NotFound
     | Some d \<Rightarrow>
         if dn_linked_incident d \<and>
            (case ts_incidents s key of Some i \<Rightarrow> in_status i \<noteq> ''resolved'' \<and> in_status i \<noteq> ''closed'' | None \<Rightarrow> False)
         then Inr (ExistingIncident, s)
         else if dn_status d = ''resolved'' \<or> dn_status d = ''dismissed'' then Inl DetectionClosed
         else if dn_status d = ''anomaly'' then Inl SubThreshold
         else if dn_evidence_count d \<le> 0 then Inl InsufficientEvidence
         else if dn_linked_alert d \<and> ts_alerts s key \<noteq> None
         then Inr (if al_incident (the (ts_alerts s key)) then ExistingIncident else ExistingAlert, s)
         else let s1 = ensure_alert key now d s in
           Inr (InvestigationCreated, s1\<lparr>ts_detections := (ts_detections s1)(key \<mapsto>
             (the (ts_detections s1 key))\<lparr>dn_status := ''investigating'', dn_linked_alert := True\<rparr>)\<rparr>))"

section \<open>Lemmas: evidence and one detection\<close>

lemma attach_keys: "evidence_key ` set (attach_evidence evs rows) = evidence_key ` set evs \<union> evidence_key ` set rows"
  unfolding attach_evidence_def by (induction evs arbitrary: rows) (auto simp: attach_one_def)

lemma attach_keeps: "set rows \<subseteq> set (attach_evidence evs rows)"
  unfolding attach_evidence_def by (induction evs arbitrary: rows) (fastforce simp: attach_one_def split: if_splits)+

lemma attach_distinct: "distinct (map evidence_key rows) \<Longrightarrow> distinct (map evidence_key (attach_evidence evs rows))"
  unfolding attach_evidence_def by (induction evs arbitrary: rows) (auto simp: attach_one_def)

lemma attach_known: "evidence_key ` set evs \<subseteq> evidence_key ` set rows \<Longrightarrow> attach_evidence evs rows = rows"
  unfolding attach_evidence_def by (induction evs) (auto simp: attach_one_def)

lemma attach_idem [simp]: "attach_evidence evs (attach_evidence evs rows) = attach_evidence evs rows"
  by (rule attach_known) (simp add: attach_keys)

lemma next_status_idem [simp]: "next_status (next_status p b) b = next_status p b"
  by (simp add: next_status_def OPERATOR_STATES_def)

lemma update_idem: "update_detection cfg now c (update_detection cfg now c d) = update_detection cfg now c d"
proof -
  have f: "dn_evidence (update_detection cfg now c d) = attach_evidence (dc_evidence c) (dn_evidence d)"
    "dn_status (update_detection cfg now c d) =
       next_status (dn_status d) (promotes cfg (attach_evidence (dc_evidence c) (dn_evidence d)) c)"
    by (simp_all add: update_detection_def Let_def)
  show ?thesis
    by (subst update_detection_def) (simp add: f Let_def, simp add: update_detection_def Let_def)
qed

text \<open>With evidence of its own a candidate finds the same detection at any later instant.\<close>

lemma attach_nonempty: "evs \<noteq> [] \<Longrightarrow> attach_evidence evs rows \<noteq> []"
  using attach_keys [of evs rows] by auto

lemma update_later:
  assumes "dc_evidence c \<noteq> []"
  shows "update_detection cfg now' c (update_detection cfg now c d) = update_detection cfg now c d"
proof -
  let ?rows = "attach_evidence (dc_evidence c) (dn_evidence d)"
  have "?rows \<noteq> []" using assms by (rule attach_nonempty)
  then obtain a b where ends: "min_at ?rows = Some a" "max_at ?rows = Some b"
    by (cases ?rows) (simp_all add: min_at_def max_at_def)
  have f: "dn_evidence (update_detection cfg now c d) = ?rows"
    "dn_status (update_detection cfg now c d) = next_status (dn_status d) (promotes cfg ?rows c)"
    by (simp_all add: update_detection_def Let_def)
  have anomaly: "next_status p b = ''anomaly'' \<Longrightarrow> next_status ''anomaly'' b = ''anomaly''" for p b
    by (auto simp: next_status_def OPERATOR_STATES_def split: if_split_asm)
  show ?thesis
    by (subst update_detection_def) (simp add: f Let_def ends or_now_def, simp add: update_detection_def Let_def ends or_now_def anomaly)
qed

lemma update_fields:
  "dn_evidence (update_detection cfg now c d) = attach_evidence (dc_evidence c) (dn_evidence d)"
  "dn_evidence_source (update_detection cfg now c d) = dc_evidence_source c"
  "dn_linked_alert (update_detection cfg now c d) = dn_linked_alert d"
  "dn_linked_incident (update_detection cfg now c d) = dn_linked_incident d"
  by (simp_all add: update_detection_def Let_def)

lemma update_status: "dn_status (update_detection cfg now c d) =
    next_status (dn_status d) (promotes cfg (attach_evidence (dc_evidence c) (dn_evidence d)) c)"
  by (simp add: update_detection_def Let_def)

lemma severity_rank_levels:
  "severity_rank ''low'' = 1" "severity_rank ''medium'' = 2" "severity_rank ''high'' = 3" "severity_rank ''critical'' = 4"
  by code_simp+

lemma severe_points:
  "severity_rank (severity_for_points p) \<ge> 3 \<Longrightarrow> severity_for_points p = ''high'' \<or> severity_for_points p = ''critical''"
  unfolding severity_for_points_def by (simp add: severity_rank_levels split: if_split_asm)

lemma severe_level:
  "severity_rank (candidate_severity rows c) \<ge> severity_rank ''high'' \<Longrightarrow>
     candidate_severity rows c = ''high'' \<or> candidate_severity rows c = ''critical''"
  unfolding candidate_severity_def compute_severity_def Let_def fst_conv severity_rank_levels by (rule severe_points)

lemma eligible_update:
  assumes "dn_alert_eligible (update_detection cfg now c d)"
  shows "dn_status (update_detection cfg now c d) \<in> {''open'', ''investigating''}" "dc_evidence_source c = ''live''"
    "dn_severity (update_detection cfg now c d) \<in> {''high'', ''critical''}"
    "dn_confidence (update_detection cfg now c d) \<ge> sv_alert_min_confidence cfg"
proof -
  let ?rows = "attach_evidence (dc_evidence c) (dn_evidence d)"
  have e: "alert_eligible cfg (dn_status (update_detection cfg now c d)) ?rows c"
    using assms by (simp add: update_detection_def Let_def)
  then show "dn_status (update_detection cfg now c d) \<in> {''open'', ''investigating''}" "dc_evidence_source c = ''live''"
    unfolding alert_eligible_def by blast+
  have "dn_severity (update_detection cfg now c d) = candidate_severity ?rows c"
    "dn_confidence (update_detection cfg now c d) = candidate_confidence cfg ?rows c"
    by (simp_all add: update_detection_def Let_def)
  then show "dn_severity (update_detection cfg now c d) \<in> {''high'', ''critical''}"
    "dn_confidence (update_detection cfg now c d) \<ge> sv_alert_min_confidence cfg"
    using e severe_level unfolding alert_eligible_def by auto
qed

section \<open>Lemmas: one step on the store\<close>

definition upserted :: "service_config \<Rightarrow> int \<Rightarrow> candidate \<Rightarrow> string \<Rightarrow> threat_store \<Rightarrow> detection" where
  "upserted cfg now c key s = update_detection cfg now c
     (case ts_detections s key of Some d \<Rightarrow> d | None \<Rightarrow> new_detection now c)"

lemma upsert_eq:
  "snd (upsert_candidate H ws cfg now c s) =
     s\<lparr>ts_detections := (ts_detections s)(candidate_key H ws now c \<mapsto> upserted cfg now c (candidate_key H ws now c) s)\<rparr>"
  "uo_key (fst (upsert_candidate H ws cfg now c s)) = candidate_key H ws now c"
  "uo_alert_eligible (fst (upsert_candidate H ws cfg now c s)) =
     dn_alert_eligible (upserted cfg now c (candidate_key H ws now c) s)"
  by (simp_all add: upsert_candidate_def upserted_def Let_def)

lemma process_store:
  "snd (process_candidate H ws cfg pol has_user now c acc) =
     (let k = candidate_key H ws now c; d = upserted cfg now c k (snd acc);
          s1 = (snd acc)\<lparr>ts_detections := (ts_detections (snd acc))(k \<mapsto> d)\<rparr>
      in if dn_alert_eligible d then snd (snd (raise_alert has_user pol now k s1)) else s1)"
proof -
  obtain stats s where acc: "acc = (stats, s)" by (cases acc)
  obtain out s1 where u: "upsert_candidate H ws cfg now c s = (out, s1)" by (cases "upsert_candidate H ws cfg now c s")
  have k: "uo_key out = candidate_key H ws now c" using upsert_eq(2) [of H ws cfg now c s] u by simp
  have e: "uo_alert_eligible out = dn_alert_eligible (upserted cfg now c (candidate_key H ws now c) s)"
    using upsert_eq(3) [of H ws cfg now c s] u by simp
  have s1: "s1 = s\<lparr>ts_detections := (ts_detections s)(candidate_key H ws now c \<mapsto> upserted cfg now c (candidate_key H ws now c) s)\<rparr>"
    using upsert_eq(1) [of H ws cfg now c s] u by simp
  show ?thesis
    unfolding process_candidate_def acc Let_def prod.case u k e snd_conv s1 [symmetric]
    by (simp split: prod.split if_split)
qed

text \<open>What raising an alert leaves at the other keys and at its own.\<close>

lemma ensure_other:
  "k' \<noteq> key \<Longrightarrow> ts_detections (ensure_alert key now d s) k' = ts_detections s k'
     \<and> ts_alerts (ensure_alert key now d s) k' = ts_alerts s k' \<and> ts_incidents (ensure_alert key now d s) k' = ts_incidents s k'"
  by (simp add: ensure_alert_def Let_def split: option.split)

lemma ensure_own:
  "ts_detections s key = Some d' \<Longrightarrow> ts_detections (ensure_alert key now d s) key = Some (d'\<lparr>dn_linked_alert := True\<rparr>)"
  "ts_alerts (ensure_alert key now d s) key \<noteq> None" "ts_incidents (ensure_alert key now d s) = ts_incidents s"
  by (simp_all add: ensure_alert_def Let_def)

lemma auto_other:
  "k' \<noteq> key \<Longrightarrow> ts_detections (snd (maybe_auto_create_incident pol key d s)) k' = ts_detections s k'
     \<and> ts_alerts (snd (maybe_auto_create_incident pol key d s)) k' = ts_alerts s k'
     \<and> ts_incidents (snd (maybe_auto_create_incident pol key d s)) k' = ts_incidents s k'"
  by (simp add: maybe_auto_create_incident_def link_incident_def mark_alert_def split: option.split if_split)

text \<open>A detection that an alert or an incident was linked to; nothing else of it changes but its status.\<close>

definition linked_as :: "detection \<Rightarrow> detection \<Rightarrow> bool" where
  "linked_as d d' \<longleftrightarrow> (\<exists>a i st. d' = d\<lparr>dn_linked_alert := a, dn_linked_incident := i, dn_status := st\<rparr> \<and>
     (st = dn_status d \<or> dn_status d = ''open'' \<and> st = ''investigating'') \<and>
     (dn_linked_alert d \<longrightarrow> a) \<and> (dn_linked_incident d \<longrightarrow> i))"

lemma auto_own:
  assumes d: "ts_detections s key = Some d0" and a: "ts_alerts s key \<noteq> None" and lk: "dn_linked_incident d0 = dn_linked_incident d"
    and inc: "dn_linked_incident d0 \<longleftrightarrow> ts_incidents s key \<noteq> None"
  shows "\<exists>i st. ts_detections (snd (maybe_auto_create_incident pol key d s)) key = Some (d0\<lparr>dn_linked_incident := i, dn_status := st\<rparr>)
      \<and> (st = dn_status d0 \<or> dn_status d0 = ''open'' \<and> st = ''investigating'')
      \<and> (i \<longleftrightarrow> ts_incidents (snd (maybe_auto_create_incident pol key d s)) key \<noteq> None)
      \<and> (dn_linked_incident d0 \<longrightarrow> i)"
    "ts_alerts (snd (maybe_auto_create_incident pol key d s)) key \<noteq> None"
    "ts_incidents (snd (maybe_auto_create_incident pol key d s)) key \<noteq> ts_incidents s key \<Longrightarrow> fst (evaluate_auto_policy pol d)"
proof -
  consider (same) "snd (maybe_auto_create_incident pol key d s) = s"
    | (created) "fst (evaluate_auto_policy pol d)" "\<not> dn_linked_incident d0" "ts_incidents s key = None"
        "ts_detections (snd (maybe_auto_create_incident pol key d s)) key = Some (d0\<lparr>dn_linked_incident := True,
            dn_status := (if dn_status d0 = ''open'' then ''investigating'' else dn_status d0)\<rparr>)"
        "ts_alerts (snd (maybe_auto_create_incident pol key d s)) key \<noteq> None"
        "ts_incidents (snd (maybe_auto_create_incident pol key d s)) key \<noteq> None"
  proof (cases "fst (evaluate_auto_policy pol d) \<and> \<not> dn_linked_incident d")
    case False
    then have "maybe_auto_create_incident pol key d s = (False, s)" by (auto simp: maybe_auto_create_incident_def)
    then have "snd (maybe_auto_create_incident pol key d s) = s" by simp
    then show ?thesis by (rule same)
  next
    case True
    then have none: "ts_incidents s key = None" "\<not> dn_linked_incident d0" using inc lk by auto
    obtain al where al: "ts_alerts s key = Some al" using a by blast
    show ?thesis
      by (rule created) (use True none d al in \<open>simp_all add: maybe_auto_create_incident_def link_incident_def mark_alert_def\<close>)
  qed
  note split = this
  have same_rec: "d0\<lparr>dn_linked_incident := dn_linked_incident d0, dn_status := dn_status d0\<rparr> = d0" by simp
  show "\<exists>i st. ts_detections (snd (maybe_auto_create_incident pol key d s)) key = Some (d0\<lparr>dn_linked_incident := i, dn_status := st\<rparr>)
      \<and> (st = dn_status d0 \<or> dn_status d0 = ''open'' \<and> st = ''investigating'')
      \<and> (i \<longleftrightarrow> ts_incidents (snd (maybe_auto_create_incident pol key d s)) key \<noteq> None) \<and> (dn_linked_incident d0 \<longrightarrow> i)"
  proof (cases rule: split)
    case same
    then show ?thesis using d inc same_rec by metis
  next
    case created
    show ?thesis
      by (rule exI [where x = True], rule exI [where x = "if dn_status d0 = ''open'' then ''investigating'' else dn_status d0"])
        (use created in simp)
  qed
  show "ts_alerts (snd (maybe_auto_create_incident pol key d s)) key \<noteq> None" using split a by metis
  show "ts_incidents (snd (maybe_auto_create_incident pol key d s)) key \<noteq> ts_incidents s key \<Longrightarrow> fst (evaluate_auto_policy pol d)"
    using split by metis
qed

lemma raise_other:
  "k' \<noteq> key \<Longrightarrow> ts_detections (snd (snd (raise_alert has_user pol now key s))) k' = ts_detections s k'
     \<and> ts_alerts (snd (snd (raise_alert has_user pol now key s))) k' = ts_alerts s k'
     \<and> ts_incidents (snd (snd (raise_alert has_user pol now key s))) k' = ts_incidents s k'"
  by (simp add: raise_alert_def auto_other ensure_other split: option.split)

text \<open>The record of one key: the detection with its alert and its incident.\<close>

definition detection_ok :: "detection \<Rightarrow> bool" where
  "detection_ok d \<longleftrightarrow> distinct (map evidence_key (dn_evidence d)) \<and> dn_evidence_count d = int (length (dn_evidence d))
     \<and> dn_actor_count d \<ge> distinct_count te_from_address (dn_evidence d)
     \<and> dn_transaction_count d \<ge> distinct_count te_tx_hash (dn_evidence d)
     \<and> CONFIDENCE_MIN \<le> dn_confidence d \<and> dn_confidence d \<le> CONFIDENCE_MAX
     \<and> (dn_alert_eligible d \<longrightarrow> dn_evidence_source d = ''live'' \<and> dn_severity d \<in> {''high'', ''critical''})"

definition links_ok :: "detection \<Rightarrow> alert option \<Rightarrow> incident option \<Rightarrow> bool" where
  "links_ok d a i \<longleftrightarrow> (dn_linked_alert d \<longleftrightarrow> a \<noteq> None) \<and> (dn_linked_incident d \<longleftrightarrow> i \<noteq> None) \<and> (i \<noteq> None \<longrightarrow> a \<noteq> None)"

definition key_ok :: "detection option \<Rightarrow> alert option \<Rightarrow> incident option \<Rightarrow> bool" where
  "key_ok d a i = (case d of None \<Rightarrow> a = None \<and> i = None | Some d \<Rightarrow> detection_ok d \<and> links_ok d a i)"

definition store_ok :: "threat_store \<Rightarrow> bool" where
  "store_ok s \<longleftrightarrow> (\<forall>k. key_ok (ts_detections s k) (ts_alerts s k) (ts_incidents s k))"

lemma linked_ok: "linked_as d d' \<Longrightarrow> detection_ok d' = detection_ok d"
  by (auto simp: linked_as_def detection_ok_def)

lemma update_ok:
  assumes "distinct (map evidence_key (dn_evidence d))"
  shows "detection_ok (update_detection cfg now c d)"
proof -
  let ?u = "update_detection cfg now c d"
  have el: "dn_alert_eligible ?u \<Longrightarrow> dn_evidence_source ?u = ''live'' \<and> dn_severity ?u \<in> {''high'', ''critical''}"
    using eligible_update update_fields(2) by metis
  have "dn_confidence ?u = candidate_confidence cfg (dn_evidence ?u) c" by (simp add: update_detection_def Let_def)
  then have conf: "CONFIDENCE_MIN \<le> dn_confidence ?u" "dn_confidence ?u \<le> CONFIDENCE_MAX"
    using confidence_between unfolding candidate_confidence_def by metis+
  have "distinct (map evidence_key (dn_evidence ?u))" by (simp only: update_fields attach_distinct assms)
  moreover have "dn_evidence_count ?u = int (length (dn_evidence ?u))"
    "dn_actor_count ?u \<ge> distinct_count te_from_address (dn_evidence ?u)"
    "dn_transaction_count ?u \<ge> distinct_count te_tx_hash (dn_evidence ?u)"
    by (simp_all add: update_detection_def Let_def)
  ultimately show ?thesis using el conf unfolding detection_ok_def by blast
qed

lemma raise_own:
  assumes d: "ts_detections s key = Some d" and links: "links_ok d (ts_alerts s key) (ts_incidents s key)"
  shows "\<exists>d'. ts_detections (snd (snd (raise_alert has_user pol now key s))) key = Some d' \<and> linked_as d d'
      \<and> links_ok d' (ts_alerts (snd (snd (raise_alert has_user pol now key s))) key)
          (ts_incidents (snd (snd (raise_alert has_user pol now key s))) key)"
    "ts_incidents (snd (snd (raise_alert has_user pol now key s))) key \<noteq> ts_incidents s key \<Longrightarrow>
       fst (evaluate_auto_policy pol d)"
proof -
  let ?s1 = "ensure_alert key now d s"
  let ?s2 = "snd (maybe_auto_create_incident pol key d ?s1)"
  let ?d1 = "d\<lparr>dn_linked_alert := True\<rparr>"
  have eq: "snd (snd (raise_alert has_user pol now key s)) = (if has_owner has_user d then ?s2 else s)"
    by (simp add: raise_alert_def d)
  have own: "ts_detections ?s1 key = Some ?d1" "ts_alerts ?s1 key \<noteq> None" "ts_incidents ?s1 key = ts_incidents s key"
    by (rule ensure_own(1) [OF d], rule ensure_own(2), simp add: ensure_own(3))
  have inc: "dn_linked_incident ?d1 = dn_linked_incident d" "dn_linked_incident ?d1 \<longleftrightarrow> ts_incidents ?s1 key \<noteq> None"
    using links own(3) by (simp_all add: links_ok_def)
  note auto = auto_own [OF own(1,2) inc, of pol]
  show "ts_incidents (snd (snd (raise_alert has_user pol now key s))) key \<noteq> ts_incidents s key \<Longrightarrow> fst (evaluate_auto_policy pol d)"
    unfolding eq using auto(3) own(3) by (simp split: if_split_asm)
  show "\<exists>d'. ts_detections (snd (snd (raise_alert has_user pol now key s))) key = Some d' \<and> linked_as d d'
      \<and> links_ok d' (ts_alerts (snd (snd (raise_alert has_user pol now key s))) key)
          (ts_incidents (snd (snd (raise_alert has_user pol now key s))) key)"
  proof (cases "has_owner has_user d")
    case False
    have "d\<lparr>dn_linked_alert := dn_linked_alert d, dn_linked_incident := dn_linked_incident d, dn_status := dn_status d\<rparr> = d" by simp
    then have "linked_as d d" unfolding linked_as_def by metis
    with False d links show ?thesis by (simp add: eq)
  next
    case True
    obtain i st where r: "ts_detections ?s2 key = Some (?d1\<lparr>dn_linked_incident := i, dn_status := st\<rparr>)"
        "st = dn_status d \<or> dn_status d = ''open'' \<and> st = ''investigating''"
        "i \<longleftrightarrow> ts_incidents ?s2 key \<noteq> None" "dn_linked_incident d \<longrightarrow> i"
      using auto(1) by auto
    have "linked_as d (?d1\<lparr>dn_linked_incident := i, dn_status := st\<rparr>)" unfolding linked_as_def using r(2,4) by auto
    moreover have "links_ok (?d1\<lparr>dn_linked_incident := i, dn_status := st\<rparr>) (ts_alerts ?s2 key) (ts_incidents ?s2 key)"
      using r(3) auto(2) by (simp add: links_ok_def)
    ultimately show ?thesis unfolding eq if_P [OF True] using r(1) by blast
  qed
qed

lemma upserted_ok:
  assumes "store_ok s"
  shows "detection_ok (upserted cfg now c key s)" "links_ok (upserted cfg now c key s) (ts_alerts s key) (ts_incidents s key)"
proof -
  have k: "key_ok (ts_detections s key) (ts_alerts s key) (ts_incidents s key)" using assms by (simp add: store_ok_def)
  show "detection_ok (upserted cfg now c key s)"
    unfolding upserted_def
    by (rule update_ok) (use k in \<open>cases "ts_detections s key"; simp add: key_ok_def detection_ok_def new_detection_def\<close>)
  show "links_ok (upserted cfg now c key s) (ts_alerts s key) (ts_incidents s key)"
    using k by (cases "ts_detections s key") (simp_all add: upserted_def key_ok_def links_ok_def update_fields new_detection_def)
qed

text \<open>The effect of one candidate on the store.\<close>

lemma process_effect:
  fixes H ws now c cfg pol has_user and acc :: "run_stats \<times> threat_store"
  defines "k \<equiv> candidate_key H ws now c" and "s \<equiv> snd acc" and "s' \<equiv> snd (process_candidate H ws cfg pol has_user now c acc)"
  assumes ok: "store_ok (snd acc)"
  shows "k' \<noteq> k \<Longrightarrow> ts_detections s' k' = ts_detections s k' \<and> ts_alerts s' k' = ts_alerts s k' \<and> ts_incidents s' k' = ts_incidents s k'"
    "\<exists>d'. ts_detections s' k = Some d' \<and> linked_as (upserted cfg now c k s) d' \<and> links_ok d' (ts_alerts s' k) (ts_incidents s' k)"
    "\<not> dn_alert_eligible (upserted cfg now c k s) \<Longrightarrow> s' = s\<lparr>ts_detections := (ts_detections s)(k \<mapsto> upserted cfg now c k s)\<rparr>"
    "ts_incidents s' k \<noteq> ts_incidents s k \<Longrightarrow> fst (evaluate_auto_policy pol (upserted cfg now c k s))"
proof -
  let ?d = "upserted cfg now c k s"
  let ?s1 = "s\<lparr>ts_detections := (ts_detections s)(k \<mapsto> ?d)\<rparr>"
  let ?s2 = "snd (snd (raise_alert has_user pol now k ?s1))"
  have s': "s' = (if dn_alert_eligible ?d then ?s2 else ?s1)"
    unfolding s'_def process_store Let_def k_def s_def by (rule refl)
  have d: "ts_detections ?s1 k = Some ?d" by simp
  have links: "links_ok ?d (ts_alerts ?s1 k) (ts_incidents ?s1 k)" using upserted_ok(2) ok by (simp add: s_def)
  note own = raise_own [OF d links, of has_user pol now]
  show "\<not> dn_alert_eligible ?d \<Longrightarrow> s' = ?s1" by (simp add: s')
  show "k' \<noteq> k \<Longrightarrow> ts_detections s' k' = ts_detections s k' \<and> ts_alerts s' k' = ts_alerts s k' \<and> ts_incidents s' k' = ts_incidents s k'"
    using raise_other [of k' k has_user pol now ?s1] by (simp add: s')
  have "?d\<lparr>dn_linked_alert := dn_linked_alert ?d, dn_linked_incident := dn_linked_incident ?d, dn_status := dn_status ?d\<rparr> = ?d" by simp
  then have "linked_as ?d ?d" unfolding linked_as_def by metis
  with d links have stay: "\<exists>d'. ts_detections ?s1 k = Some d' \<and> linked_as ?d d' \<and> links_ok d' (ts_alerts ?s1 k) (ts_incidents ?s1 k)"
    by blast
  show "\<exists>d'. ts_detections s' k = Some d' \<and> linked_as ?d d' \<and> links_ok d' (ts_alerts s' k) (ts_incidents s' k)"
  proof (cases "dn_alert_eligible ?d")
    case True
    show ?thesis unfolding s' if_P [OF True] by (rule own(1))
  next
    case False
    show ?thesis unfolding s' if_not_P [OF False] by (rule stay)
  qed
  show "ts_incidents s' k \<noteq> ts_incidents s k \<Longrightarrow> fst (evaluate_auto_policy pol ?d)"
    using own(2) unfolding s' by (simp split: if_split_asm)
qed

lemma process_ok:
  assumes "store_ok (snd acc)"
  shows "store_ok (snd (process_candidate H ws cfg pol has_user now c acc))"
  unfolding store_ok_def
proof (rule allI)
  fix k'
  let ?k = "candidate_key H ws now c"
  let ?s' = "snd (process_candidate H ws cfg pol has_user now c acc)"
  note eff = process_effect [OF assms, where H = H and ws = ws and cfg = cfg and pol = pol and has_user = has_user and now = now and c = c]
  show "key_ok (ts_detections ?s' k') (ts_alerts ?s' k') (ts_incidents ?s' k')"
  proof (cases "k' = ?k")
    case True
    obtain d' where "ts_detections ?s' ?k = Some d'" "linked_as (upserted cfg now c ?k (snd acc)) d'"
        "links_ok d' (ts_alerts ?s' ?k) (ts_incidents ?s' ?k)" using eff(2) by blast
    with linked_ok upserted_ok(1) [OF assms] show ?thesis unfolding True key_ok_def by (metis option.simps(5))
  next
    case False
    with eff(1) assms show ?thesis unfolding store_ok_def by metis
  qed
qed

lemma investigate_effect:
  assumes "investigate_detection now key s = Inr (r, s')" "s' \<noteq> s"
  obtains d where "ts_detections s key = Some d" "dn_status d \<notin> {''resolved'', ''dismissed'', ''anomaly''}"
    "0 < dn_evidence_count d" "r = InvestigationCreated"
    "s' = (ensure_alert key now d s)\<lparr>ts_detections := (ts_detections (ensure_alert key now d s))
       (key \<mapsto> d\<lparr>dn_status := ''investigating'', dn_linked_alert := True\<rparr>)\<rparr>"
proof -
  obtain d where d: "ts_detections s key = Some d" using assms(1) by (cases "ts_detections s key") (auto simp: investigate_detection_def)
  show ?thesis
    by (rule that [OF d]) (use assms d ensure_own(1) [OF d] in
      \<open>auto simp: investigate_detection_def Let_def split: if_split_asm\<close>)
qed

lemma investigate_ok:
  assumes ok: "store_ok s" and inv: "investigate_detection now key s = Inr (r, s')"
  shows "store_ok s'"
proof (cases "s' = s")
  case False
  obtain d where d: "ts_detections s key = Some d"
    and s': "s' = (ensure_alert key now d s)\<lparr>ts_detections := (ts_detections (ensure_alert key now d s))
       (key \<mapsto> d\<lparr>dn_status := ''investigating'', dn_linked_alert := True\<rparr>)\<rparr>"
    using investigate_effect [OF inv False] by metis
  show ?thesis unfolding store_ok_def
  proof (rule allI)
    fix k'
    have old: "key_ok (ts_detections s k') (ts_alerts s k') (ts_incidents s k')" using ok by (simp add: store_ok_def)
    show "key_ok (ts_detections s' k') (ts_alerts s' k') (ts_incidents s' k')"
    proof (cases "k' = key")
      case True
      have "detection_ok d" "links_ok d (ts_alerts s key) (ts_incidents s key)" using old d True by (simp_all add: key_ok_def)
      then show ?thesis using ensure_own(2) [of key now d s]
        by (simp add: True s' key_ok_def links_ok_def detection_ok_def ensure_own(3))
    next
      case False
      with old ensure_other [OF False, of now d s] show ?thesis by (simp add: s')
    qed
  qed
qed (use ok in simp)

section \<open>Histories\<close>

inductive store_run :: "hash_fun \<Rightarrow> string \<Rightarrow> service_config \<Rightarrow> threat_store \<Rightarrow> threat_store \<Rightarrow> bool"
  for H ws cfg s where
  start: "store_run H ws cfg s s"
| candidate: "store_run H ws cfg s s' \<Longrightarrow>
    store_run H ws cfg s (snd (process_candidate H ws cfg pol has_user now c (stats, s')))"
| investigate: "store_run H ws cfg s s' \<Longrightarrow> investigate_detection now key s' = Inr (r, s'') \<Longrightarrow> store_run H ws cfg s s''"

lemma store_run_ok: "store_run H ws cfg s s' \<Longrightarrow> store_ok s \<Longrightarrow> store_ok s'"
proof (induction rule: store_run.induct)
  case (candidate s' pol has_user now c stats)
  then show ?case by (intro process_ok) simp
qed (auto intro: investigate_ok)

lemma fold_run:
  "store_run H ws cfg s (snd acc) \<Longrightarrow> store_run H ws cfg s (snd (fold (process_candidate H ws cfg pol has_user now) cs acc))"
proof (induction cs arbitrary: acc)
  case (Cons c cs)
  have "store_run H ws cfg s (snd (process_candidate H ws cfg pol has_user now c (fst acc, snd acc)))"
    by (rule store_run.candidate [OF Cons.prems])
  then show ?case using Cons.IH by simp
qed simp

text \<open>A run of the worker is a history.\<close>

lemma workspace_run:
  "store_run H ws cfg s (snd st) \<Longrightarrow>
     store_run H ws cfg s (snd (snd (process_workspace H ws pick bs cfg batch pol has_user now table st)))"
proof -
  assume run: "store_run H ws cfg s (snd st)"
  obtain cp s0 where st: "st = (cp, s0)" by (cases st)
  show ?thesis
  proof (cases "scan_workspace (dt_low_slow_window_seconds (sv_detectors cfg)) batch now cp table")
    case ScanSkipped
    with run show ?thesis by (simp add: process_workspace_def st)
  next
    case (Scanned rows cp')
    let ?cs = "extract_candidates pick bs (sv_detectors cfg) (map tw_event rows)"
    let ?start = "(no_stats\<lparr>rs_candidates := int (length ?cs)\<rparr>, s0)"
    obtain stats s2 where f: "fold (process_candidate H ws cfg pol has_user now) ?cs ?start = (stats, s2)"
      by (cases "fold (process_candidate H ws cfg pol has_user now) ?cs ?start")
    have "store_run H ws cfg s (snd (fold (process_candidate H ws cfg pol has_user now) ?cs ?start))"
      by (rule fold_run) (use run in \<open>simp add: st\<close>)
    then have "store_run H ws cfg s s2" unfolding f snd_conv .
    then show ?thesis unfolding process_workspace_def st Let_def prod.case Scanned scan_result.case f snd_conv .
  qed
qed

lemma closed_step:
  assumes ok: "store_ok s" and d: "ts_detections s k = Some d" and closed: "dn_status d = ''resolved'' \<or> dn_status d = ''dismissed''"
  shows "(\<exists>d'. ts_detections (snd (process_candidate H ws cfg pol has_user now c (stats, s))) k = Some d' \<and> dn_status d' = dn_status d)
      \<and> ts_alerts (snd (process_candidate H ws cfg pol has_user now c (stats, s))) k = ts_alerts s k
      \<and> ts_incidents (snd (process_candidate H ws cfg pol has_user now c (stats, s))) k = ts_incidents s k"
proof (cases "k = candidate_key H ws now c")
  case False
  note eff = process_effect(1) [of "(stats, s)", unfolded snd_conv, OF ok False, of cfg pol has_user]
  then show ?thesis using d by simp
next
  case True
  have u: "upserted cfg now c k s = update_detection cfg now c d" by (simp add: upserted_def d)
  have st: "dn_status (update_detection cfg now c d) = dn_status d"
    unfolding update_status next_status_def OPERATOR_STATES_def using closed by auto
  have "dn_status (update_detection cfg now c d) \<notin> {''open'', ''investigating''}" unfolding st using closed by auto
  then have "\<not> dn_alert_eligible (update_detection cfg now c d)" using eligible_update(1) by metis
  then have "snd (process_candidate H ws cfg pol has_user now c (stats, s)) =
      s\<lparr>ts_detections := (ts_detections s)(k \<mapsto> update_detection cfg now c d)\<rparr>"
    using process_effect(3) [of "(stats, s)", unfolded snd_conv, OF ok, of cfg now c H ws pol has_user] u True by simp
  then show ?thesis using st by simp
qed

lemma closed_run:
  assumes "store_run H ws cfg s s'" "store_ok s" "ts_detections s k = Some d" "dn_status d = ''resolved'' \<or> dn_status d = ''dismissed''"
  shows "(\<exists>d'. ts_detections s' k = Some d' \<and> dn_status d' = dn_status d) \<and> ts_alerts s' k = ts_alerts s k \<and> ts_incidents s' k = ts_incidents s k"
  using assms
proof (induction rule: store_run.induct)
  case start
  then show ?case by blast
next
  case (candidate s' pol has_user now c stats)
  then obtain d' where d': "ts_detections s' k = Some d'" "dn_status d' = dn_status d"
      "ts_alerts s' k = ts_alerts s k" "ts_incidents s' k = ts_incidents s k" by blast
  have "store_ok s'" using store_run_ok candidate.hyps candidate.prems(1) by blast
  from closed_step [OF this d'(1), of H ws cfg pol has_user now c stats] show ?case
    using d' candidate.prems(3) by metis
next
  case (investigate s' now key r s'')
  then obtain d' where d': "ts_detections s' k = Some d'" "dn_status d' = dn_status d"
      "ts_alerts s' k = ts_alerts s k" "ts_incidents s' k = ts_incidents s k" by blast
  show ?case
  proof (cases "s'' = s'")
    case False
    obtain e where e: "ts_detections s' key = Some e" "dn_status e \<notin> {''resolved'', ''dismissed'', ''anomaly''}"
      and s'': "s'' = (ensure_alert key now e s')\<lparr>ts_detections := (ts_detections (ensure_alert key now e s'))
       (key \<mapsto> e\<lparr>dn_status := ''investigating'', dn_linked_alert := True\<rparr>)\<rparr>"
      using investigate_effect [OF investigate.hyps(2) False] by metis
    have "k \<noteq> key" using e d' investigate.prems(3) by auto
    then show ?thesis using d' ensure_other [of k key now e s'] by (simp add: s'')
  qed (use d' in simp)
qed

section \<open>What the service does besides its documentation\<close>

text \<open>Evidence stored once stays, while the source is that of the last candidate.\<close>

lemma stored_simulated_evidence_survives:
  "e \<in> set (dn_evidence d) \<Longrightarrow> e \<in> set (dn_evidence (update_detection cfg now c d))
     \<and> dn_evidence_source (update_detection cfg now c d) = dc_evidence_source c"
  using attach_keeps by (fastforce simp: update_fields)

text \<open>An investigation returns the linked alert whatever its status is.\<close>

lemma resolved_alert_returned:
  assumes "ts_detections s k = Some d" "dn_status d = ''open''" "0 < dn_evidence_count d" "dn_linked_alert d"
    "\<not> dn_linked_incident d" "ts_alerts s k = Some a" "al_status a = ''resolved''" "\<not> al_incident a"
  shows "investigate_detection now k s = Inr (ExistingAlert, s)"
  using assms by (simp add: investigate_detection_def)

section \<open>Lemmas: investigations\<close>

lemma investigate_again:
  assumes "investigate_detection now k s = Inr (r, s')" "r \<noteq> InvestigationCreated"
  shows "s' = s" "investigate_detection now' k s = Inr (r, s)"
  using assms by (cases "ts_detections s k"; simp add: investigate_detection_def Let_def split: if_split_asm)+

lemma investigate_created:
  assumes inv: "investigate_detection now k s = Inr (InvestigationCreated, s')"
  obtains d a where "ts_detections s' k = Some d" "ts_alerts s' k = Some a" "dn_status d = ''investigating''"
    "0 < dn_evidence_count d" "dn_linked_alert d"
    "\<not> (dn_linked_incident d \<and>
        (case ts_incidents s' k of Some i \<Rightarrow> in_status i \<noteq> ''resolved'' \<and> in_status i \<noteq> ''closed'' | None \<Rightarrow> False))"
proof -
  obtain d where d: "ts_detections s k = Some d" using inv by (cases "ts_detections s k") (auto simp: investigate_detection_def)
  let ?s1 = "ensure_alert k now d s"
  let ?d = "d\<lparr>dn_status := ''investigating'', dn_linked_alert := True\<rparr>"
  have s': "s' = ?s1\<lparr>ts_detections := (ts_detections ?s1)(k \<mapsto> ?d)\<rparr>" and pos: "0 < dn_evidence_count d"
    and inc: "\<not> (dn_linked_incident d \<and>
        (case ts_incidents s k of Some i \<Rightarrow> in_status i \<noteq> ''resolved'' \<and> in_status i \<noteq> ''closed'' | None \<Rightarrow> False))"
    using inv d by (auto simp: investigate_detection_def Let_def ensure_own(1) [OF d] split: if_split_asm)
  obtain a where a: "ts_alerts ?s1 k = Some a" using ensure_own(2) by blast
  show ?thesis
    by (rule that [of ?d a]) (use s' pos a inc in \<open>simp_all add: ensure_own(3)\<close>)
qed

section \<open>Properties\<close>

text \<open>
  C37. Reprocessing changes nothing. Storing a candidate a second time, at any later instant, finds the
  detection it made, attaches no evidence and leaves the whole store as it is: the counts, the
  scores, the status and the three instants. The candidate has evidence and a window of its own, as
  every candidate the detectors make from events after the first second of 1970.
\<close>

theorem reprocessing_changes_nothing:
  assumes "dc_window_epoch c \<noteq> 0" and "dc_evidence c \<noteq> []"
  shows "(let (first, s') = upsert_candidate H ws cfg now c s; (again, s'') = upsert_candidate H ws cfg now' c s'
     in s'' = s' \<and> uo_key again = uo_key first \<and> \<not> uo_created again \<and> uo_evidence_added again = 0)"
proof -
  let ?k = "candidate_key H ws now c"
  have key: "candidate_key H ws now' c = ?k" using assms(1) by (simp add: candidate_key_def Let_def)
  let ?d = "upserted cfg now c ?k s"
  have same: "update_detection cfg now' c ?d = ?d" unfolding upserted_def by (rule update_later [OF assms(2)])
  obtain first s' again s'' where u: "upsert_candidate H ws cfg now c s = (first, s')" "upsert_candidate H ws cfg now' c s' = (again, s'')"
    by (metis surj_pair)
  have s': "s' = s\<lparr>ts_detections := (ts_detections s)(?k \<mapsto> ?d)\<rparr>" "uo_key first = ?k"
    using upsert_eq(1,2) [of H ws cfg now c s] by (simp_all add: u)
  have k': "ts_detections s' ?k = Some ?d" by (simp add: s')
  have "again = \<lparr>uo_key = ?k, uo_created = False, uo_status = dn_status ?d, uo_alert_eligible = dn_alert_eligible ?d,
      uo_evidence_added = 0\<rparr> \<and> s'' = s'\<lparr>ts_detections := (ts_detections s')(?k \<mapsto> ?d)\<rparr>"
    using u(2) unfolding upsert_candidate_def Let_def key k' option.case same by simp
  moreover have "s'\<lparr>ts_detections := (ts_detections s')(?k \<mapsto> ?d)\<rparr> = s'" using s'(1) by simp
  ultimately show ?thesis using s'(2) u by simp
qed

text \<open>
  C35. Counts are never inflated and nothing is orphaned. After any history of candidates, in any
  runs with any policies, and of investigations, from an empty store: a detection holds each piece of
  evidence once and counts exactly what it holds; its confidence is within the clamp; it is eligible
  for an alert only with live evidence and high severity; it is linked to an alert exactly when there
  is one, to an incident exactly when there is one, and an incident always has its alert.
\<close>

theorem detections_never_inflate:
  assumes "store_run H ws cfg \<lparr>ts_detections = Map.empty, ts_alerts = Map.empty, ts_incidents = Map.empty\<rparr> s"
  shows "(\<forall>d. ts_detections s k = Some d \<longrightarrow> detection_ok d \<and> links_ok d (ts_alerts s k) (ts_incidents s k))
    \<and> (ts_detections s k = None \<longrightarrow> ts_alerts s k = None \<and> ts_incidents s k = None)"
proof -
  have "store_ok s" by (rule store_run_ok [OF assms]) (simp add: store_ok_def key_ok_def)
  then have "key_ok (ts_detections s k) (ts_alerts s k) (ts_incidents s k)" by (simp add: store_ok_def)
  then show ?thesis by (auto simp: key_ok_def)
qed

text \<open>
  C36. What an operator closed stays closed. A detection that is resolved or dismissed keeps that
  status over every later history, whatever is detected again, and no alert is raised, reopened or
  counted for it and no incident opened.
\<close>

theorem closed_detections_stay_closed:
  assumes "store_run H ws cfg s s'" and "store_ok s" and "ts_detections s k = Some d"
    and "dn_status d = ''resolved'' \<or> dn_status d = ''dismissed''"
  shows "(\<exists>d'. ts_detections s' k = Some d' \<and> dn_status d' = dn_status d)
    \<and> ts_alerts s' k = ts_alerts s k \<and> ts_incidents s' k = ts_incidents s k"
  using assms by (rule closed_run)

text \<open>
  C34. Alerts and incidents are earned. When a candidate the detectors found in a batch of live,
  simulated and replayed events changes an alert, then the alert is the candidate's own, all the
  evidence of the candidate is live and there is some, and its detection is live, under way, of high
  or critical severity and as confident as the settings ask. When it opens an incident, the policy for
  opening one is enabled and the detection meets its least severity (critical, where the policy names
  none or one that is unknown), its least confidence and, where the policy asks for it, has an asset.
  Evidence that earlier candidates stored under the same detection may be simulated.
\<close>

theorem alerts_are_earned:
  assumes c: "c \<in> set (extract_candidates pick bs (sv_detectors cfg) events)"
    and cfg: "0 < dt_fan_out_min_destinations (sv_detectors cfg)"
    and known: "te_evidence_source ` set events \<subseteq> {''live'', ''simulator'', ''replay''}"
    and ok: "store_ok s" and s': "s' = snd (process_candidate H ws cfg pol has_user now c (stats, s))"
    and changed: "ts_alerts s' k \<noteq> ts_alerts s k \<or> ts_incidents s' k \<noteq> ts_incidents s k"
  shows "\<exists>d. ts_detections s' k = Some d \<and> dn_evidence_source d = ''live'' \<and> dn_status d \<in> {''open'', ''investigating''}
     \<and> dn_severity d \<in> {''high'', ''critical''} \<and> dn_confidence d \<ge> sv_alert_min_confidence cfg
     \<and> dc_evidence c \<noteq> [] \<and> te_evidence_source ` er_event ` set (dc_evidence c) \<subseteq> {''live''}
     \<and> k = candidate_key H ws now c
     \<and> (ts_incidents s' k \<noteq> ts_incidents s k \<longrightarrow> ap_enabled pol \<and> dn_confidence d \<ge> ap_min_confidence pol
          \<and> (dn_severity d = ''critical'' \<or> ap_min_severity pol \<in> {''info'', ''low'', ''medium'', ''high''})
          \<and> (ap_require_asset pol \<longrightarrow> truthy_text (dn_asset_id d) \<noteq> []))"
proof -
  let ?k = "candidate_key H ws now c"
  let ?u = "upserted cfg now c ?k s"
  note eff = process_effect [of "(stats, s)", unfolded snd_conv, OF ok,
      where H = H and ws = ws and cfg = cfg and pol = pol and has_user = has_user and now = now and c = c, folded s']
  have k: "k = ?k" using eff(1) changed by metis
  have el: "dn_alert_eligible ?u"
  proof (rule ccontr)
    assume "\<not> dn_alert_eligible ?u"
    then have "ts_alerts s' k = ts_alerts s k" "ts_incidents s' k = ts_incidents s k" using eff(3) by simp_all
    with changed show False by blast
  qed
  note eu = eligible_update [OF el [unfolded upserted_def], folded upserted_def]
  obtain d' where d': "ts_detections s' ?k = Some d'" "linked_as ?u d'" using eff(2) by blast
  have keep: "dn_evidence_source d' = dn_evidence_source ?u" "dn_severity d' = dn_severity ?u" "dn_confidence d' = dn_confidence ?u"
    "dn_asset_id d' = dn_asset_id ?u" "dn_status d' \<in> {''open'', ''investigating''}"
    using d'(2) eu(1) by (auto simp: linked_as_def)
  have src: "dn_evidence_source ?u = ''live''" using eu(2) by (simp add: upserted_def update_fields)
  have "grounded events c" by (rule candidate_grounded [OF c cfg known])
  then have ev: "dc_evidence c \<noteq> []" "te_evidence_source ` er_event ` set (dc_evidence c) \<subseteq> {''live''}"
    using eu(2) unfolding grounded_def by metis+
  have lower: "py_lower (py_strip ''high'') = ''high''" by code_simp
  have rank: "dn_severity ?u = ''critical'' \<or> ap_min_severity pol \<in> {''info'', ''low'', ''medium'', ''high''}"
    if "ts_incidents s' ?k \<noteq> ts_incidents s ?k"
    using eff(4) [OF that] eu(3) lower
    by (auto simp: evaluate_auto_policy_def auto_rank_def AUTO_RANK_def text_or_else_def split: if_split_asm)
  have pol: "ap_enabled pol \<and> dn_confidence ?u \<ge> ap_min_confidence pol \<and> (ap_require_asset pol \<longrightarrow> truthy_text (dn_asset_id ?u) \<noteq> [])"
    if "ts_incidents s' ?k \<noteq> ts_incidents s ?k"
    using eff(4) [OF that] by (auto simp: evaluate_auto_policy_def split: if_split_asm)
  show ?thesis using d'(1) keep src eu(3,4) ev pol rank unfolding k by auto
qed

text \<open>
  An investigation is opened once. When starting an investigation succeeds, starting it again at
  any later time succeeds too, opens nothing and changes nothing: it returns what there is.
\<close>

theorem investigation_opens_once:
  assumes "investigate_detection now k s = Inr (r, s')"
  shows "\<exists>r'. investigate_detection now' k s' = Inr (r', s') \<and> r' \<noteq> InvestigationCreated"
proof (cases "r = InvestigationCreated")
  case False
  have "s' = s" "investigate_detection now' k s = Inr (r, s)" using investigate_again [OF assms False] by simp_all
  with False show ?thesis by blast
next
  case True
  show ?thesis
    by (rule investigate_created [OF assms [unfolded True]])
      (simp add: investigate_detection_def split: if_split)
qed

section \<open>The properties on an administrative action\<close>

definition demo_candidate :: candidate where
  "demo_candidate = privileged_in_group (\<lambda>_. []) (Some ''a1'') (Some ''0xadmin'') ''upgraded'' [demo_event]"

definition demo_service :: service_config where
  "demo_service = \<lparr>sv_detectors = demo_detectors, sv_promote_confidence = 0, sv_alert_min_confidence = 0\<rparr>"

definition demo_policy :: auto_policy where
  "demo_policy = \<lparr>ap_enabled = True, ap_min_severity = ''high'', ap_min_confidence = 0, ap_require_asset = True\<rparr>"

definition no_threats :: threat_store where
  "no_threats = \<lparr>ts_detections = Map.empty, ts_alerts = Map.empty, ts_incidents = Map.empty\<rparr>"

definition demo_run :: "threat_store \<Rightarrow> threat_store" where
  "demo_run s = snd (process_candidate (\<lambda>_. []) ''w'' demo_service demo_policy (\<lambda>_. True) 5 demo_candidate (no_stats, s))"

definition demo_key :: string where
  "demo_key = candidate_key (\<lambda>_. []) ''w'' 5 demo_candidate"

lemma no_threats_ok: "store_ok no_threats"
  by (simp add: store_ok_def key_ok_def no_threats_def)

lemma demo_extracted: "extract_candidates (\<lambda>_. []) (\<lambda>_. None) demo_detectors [demo_event] = [demo_candidate]"
  by (simp add: extract_candidates_def demo_event_def THREAT_TRANSFER_TYPES_def PRIVILEGED_EVENT_TYPES_def
      detect_privileged_actions_def group_by_def append_new_def demo_candidate_def detect_unusual_transfers_def
      detect_coordinated_activity_def detect_mint_burn_irregularity_def List.map_filter_simps)

lemma demo_severity: "candidate_severity (dc_evidence demo_candidate) demo_candidate = ''high''"
  by code_simp

lemma confidence_nonneg: "0 \<le> candidate_confidence cfg rows c"
proof -
  have "0 \<le> CONFIDENCE_MIN" by (simp add: confidence_ends)
  then show ?thesis using confidence_between unfolding candidate_confidence_def by (metis order_trans)
qed

lemma demo_eligible: "dn_alert_eligible (upserted demo_service 5 demo_candidate demo_key no_threats)"
proof -
  have rows: "attach_evidence (dc_evidence demo_candidate) (dn_evidence (new_detection 5 demo_candidate)) = dc_evidence demo_candidate"
    by (simp add: new_detection_def demo_candidate_def privileged_in_group_def attach_evidence_def attach_one_def)
  have live: "dc_evidence_source demo_candidate = ''live''"
    by (simp add: demo_candidate_def privileged_in_group_def evidence_source_for_def demo_event_def)
  have "promotes demo_service (dc_evidence demo_candidate) demo_candidate"
    by (simp add: promotes_def demo_severity severity_rank_levels demo_service_def confidence_nonneg)
  then have "next_status ''anomaly'' (promotes demo_service (dc_evidence demo_candidate) demo_candidate) = ''open''"
    by (simp add: next_status_def OPERATOR_STATES_def)
  then have "alert_eligible demo_service (next_status ''anomaly'' (promotes demo_service (dc_evidence demo_candidate) demo_candidate))
      (dc_evidence demo_candidate) demo_candidate"
    by (simp add: alert_eligible_def live demo_severity severity_rank_levels demo_service_def confidence_nonneg)
  moreover have "dn_status (new_detection 5 demo_candidate) = ''anomaly''" by (simp add: new_detection_def)
  ultimately show ?thesis
    by (simp add: upserted_def no_threats_def update_detection_def Let_def rows)
qed

lemma demo_alert: "ts_alerts (demo_run no_threats) demo_key \<noteq> None"
proof -
  let ?d = "upserted demo_service 5 demo_candidate demo_key no_threats"
  let ?s1 = "no_threats\<lparr>ts_detections := (ts_detections no_threats)(demo_key \<mapsto> ?d)\<rparr>"
  have run: "demo_run no_threats = snd (snd (raise_alert (\<lambda>_. True) demo_policy 5 demo_key ?s1))"
    unfolding demo_run_def process_store snd_conv Let_def demo_key_def [symmetric] if_P [OF demo_eligible] by (rule refl)
  have links: "links_ok ?d (ts_alerts ?s1 demo_key) (ts_incidents ?s1 demo_key)"
    using upserted_ok(2) [OF no_threats_ok] by simp
  have "dn_asset_id ?d = Some ''a1''"
    by (simp add: upserted_def no_threats_def update_detection_def Let_def new_detection_def demo_candidate_def privileged_in_group_def)
  then have own: "has_owner (\<lambda>_. True) ?d" by (simp add: has_owner_def truthy_text_def)
  have d: "ts_detections ?s1 demo_key = Some ?d" by simp
  have e: "ts_detections (ensure_alert demo_key 5 ?d ?s1) demo_key = Some (?d\<lparr>dn_linked_alert := True\<rparr>)" by (rule ensure_own(1) [OF d])
  have "ts_alerts (snd (maybe_auto_create_incident demo_policy demo_key ?d (ensure_alert demo_key 5 ?d ?s1))) demo_key \<noteq> None"
    by (rule auto_own(2) [OF e ensure_own(2)]) (use links in \<open>simp_all add: links_ok_def ensure_own(3)\<close>)
  then show ?thesis unfolding run by (simp add: raise_alert_def own)
qed

theorem alerts_are_earned_witness:
  "\<exists>d. ts_detections (demo_run no_threats) demo_key = Some d \<and> dn_evidence_source d = ''live''
     \<and> dn_severity d \<in> {''high'', ''critical''} \<and> dc_evidence demo_candidate \<noteq> []"
proof -
  have c: "demo_candidate \<in> set (extract_candidates (\<lambda>_. []) (\<lambda>_. None) (sv_detectors demo_service) [demo_event])"
    by (simp add: demo_service_def demo_extracted)
  have cfg: "0 < dt_fan_out_min_destinations (sv_detectors demo_service)" by (simp add: demo_service_def demo_detectors_def)
  have known: "te_evidence_source ` set [demo_event] \<subseteq> {''live'', ''simulator'', ''replay''}" by (simp add: demo_event_def)
  have changed: "ts_alerts (demo_run no_threats) demo_key \<noteq> ts_alerts no_threats demo_key
      \<or> ts_incidents (demo_run no_threats) demo_key \<noteq> ts_incidents no_threats demo_key"
    using demo_alert by (simp add: no_threats_def)
  from alerts_are_earned [OF c cfg known no_threats_ok demo_run_def changed] show ?thesis by blast
qed

theorem reprocessing_changes_nothing_witness:
  "(let (first, s') = upsert_candidate (\<lambda>b. b) ''w'' demo_service 5 (demo_candidate\<lparr>dc_window_epoch := 3600\<rparr>) no_threats;
        (again, s'') = upsert_candidate (\<lambda>b. b) ''w'' demo_service 9999 (demo_candidate\<lparr>dc_window_epoch := 3600\<rparr>) s'
    in s'' = s' \<and> \<not> uo_created again)"
  using reprocessing_changes_nothing [of "demo_candidate\<lparr>dc_window_epoch := 3600\<rparr>" "\<lambda>b. b" "''w''" demo_service 5 no_threats 9999]
  by (simp add: demo_candidate_def privileged_in_group_def split_beta Let_def)

theorem detections_never_inflate_witness:
  "\<exists>d. ts_detections (demo_run no_threats) demo_key = Some d \<and> detection_ok d
     \<and> links_ok d (ts_alerts (demo_run no_threats) demo_key) (ts_incidents (demo_run no_threats) demo_key)"
proof -
  have "store_run (\<lambda>_. []) ''w'' demo_service no_threats (demo_run no_threats)"
    unfolding demo_run_def by (rule store_run.candidate [OF store_run.start])
  note inv = detections_never_inflate [OF this [unfolded no_threats_def], folded no_threats_def, of demo_key]
  show ?thesis using inv demo_alert by (cases "ts_detections (demo_run no_threats) demo_key") auto
qed

definition demo_dismissed :: detection where
  "demo_dismissed = (new_detection 0 demo_candidate)\<lparr>dn_status := ''dismissed'', dn_confidence := CONFIDENCE_MIN\<rparr>"

definition closed_store :: threat_store where
  "closed_store = no_threats\<lparr>ts_detections := [demo_key \<mapsto> demo_dismissed]\<rparr>"

theorem closed_detections_stay_closed_witness:
  "\<exists>d. ts_detections (demo_run closed_store) demo_key = Some d \<and> dn_status d = ''dismissed''
     \<and> ts_alerts (demo_run closed_store) demo_key = None"
proof -
  have run: "store_run (\<lambda>_. []) ''w'' demo_service closed_store (demo_run closed_store)"
    unfolding demo_run_def by (rule store_run.candidate [OF store_run.start])
  have ok: "store_ok closed_store"
    by (simp add: store_ok_def key_ok_def closed_store_def no_threats_def demo_dismissed_def new_detection_def
        detection_ok_def links_ok_def distinct_count_def List.map_filter_simps confidence_ends)
  have d: "ts_detections closed_store demo_key = Some demo_dismissed" by (simp add: closed_store_def)
  have st: "dn_status demo_dismissed = ''dismissed''" by (simp add: demo_dismissed_def)
  from closed_detections_stay_closed [OF run ok d] st show ?thesis by (simp add: closed_store_def no_threats_def)
qed

definition open_store :: threat_store where
  "open_store = no_threats\<lparr>ts_detections := [''k'' \<mapsto> demo_dismissed\<lparr>dn_status := ''open'', dn_evidence_count := 1\<rparr>]\<rparr>"

theorem investigation_opens_once_witness:
  "\<exists>s' r'. investigate_detection 5 ''k'' open_store = Inr (InvestigationCreated, s')
     \<and> investigate_detection 9 ''k'' s' = Inr (r', s') \<and> r' \<noteq> InvestigationCreated"
proof -
  have "\<exists>s'. investigate_detection 5 ''k'' open_store = Inr (InvestigationCreated, s')"
    by (simp add: investigate_detection_def open_store_def demo_dismissed_def new_detection_def no_threats_def Let_def)
  then obtain s' where "investigate_detection 5 ''k'' open_store = Inr (InvestigationCreated, s')" by blast
  from investigation_opens_once [OF this, of 9] this show ?thesis by blast
qed

end
