(* ===== verification/Spec2Isabelle.thy ===== *)
theory Spec2Isabelle
  imports Execution_Authorization Policy_Enforcement Response_Gate Audit_Chain Operational_Matcher
    Compliance Backstop Rate_Limit Live_Poll Watch_Status Threat_Store
begin

text \<open>
  Verification development of the decision cores of decoda-rwa-guard.

  The program is a guard for tokenized real-world assets. An API application
  (\<open>services/api/app\<close>) collects chain telemetry, decides whether what it sees is authorized,
  proposes response actions, and lets an action run only when the plan of the organization, the
  deterministic policy and a human quorum allow it; everything it did is written to an audit log
  whose rows are chained by hashes and exported in sealed evidence packages. Small services beside
  it screen transfers (\<open>services/compliance-service\<close>) and decide the liquidity backstop
  (\<open>services/reconciliation-service\<close>). The code is Python; the parts modelled here are the
  decisions, which read no file and no network, and the state they keep. The paths below are
  relative to \<open>services/api/app\<close> unless they name a service.

  \<^bold>\<open>Values.\<close> \<open>Prelude\<close> holds the string functions of Python and the generic lemmas; a string
  is a list of characters, and text outside Latin-1 does not occur in a model. \<open>Py_Values\<close> holds
  the untyped values rows and payloads carry, the reading of decimals and instants, and the
  exceptions as values: a function that can raise returns a sum whose left side is the error.
  Instants are microseconds since the epoch; \<open>datetime.fromisoformat\<close> is a parameter.
  \<open>Py_Decimal\<close> is decimal arithmetic with the precision and the rounding of the context the
  code computes in (28 digits, 90 in the matcher), so that rounding is part of every statement
  about amounts.

  \<^bold>\<open>May the tenant act.\<close> \<open>Entitlements\<close> (\<open>entitlements.py\<close>): plans, overrides, lifecycle,
  limits and the capability matrix. \<open>Execution_Authorization\<close> (\<open>execution_authorization.py\<close>,
  the schema probe of \<open>organizations.py\<close>): the tenancy lock, its cache within a request, the
  grant an authorization returns and the provider boundary that demands it. The database is the
  result of its two reads, which may fail. Runs of requests are the step relation \<open>exec_step\<close>,
  with the invariant that no provider call happens without a read that permitted it.

  \<^bold>\<open>May the action run.\<close> \<open>Governance_Config\<close> and \<open>Policy_Engine\<close>
  (\<open>domains/governance_policy\<close>): the vocabulary, shared through the locale \<open>vocabulary\<close>,
  and \<open>evaluate_policy\<close> with its checks in order. \<open>Response_Gate\<close> (\<open>domains/response_gate\<close>):
  the execution gate over the policy verdict, the approvals and the lifecycle. Both are proved to
  open exactly when a declarative specification over their inputs holds. \<open>Policy_Storage\<close>
  (\<open>service.py\<close>) keeps the policies and their versions: creation, reading and the versioned edit, with
  histories in which an edit may be built on a copy read long before. \<open>Policy_Enforcement\<close>
  (\<open>enforcement.py\<close> and the context, the daily total and the recording of \<open>service.py\<close>) is the
  evaluation of a response action over the tables of every workspace: its facts, the policy that
  governs, the engine, the recorded verdict. What the database does is a parameter, the session. It is
  shown what an ALLOW rests on, that workspaces do not interfere, that evaluating again writes nothing,
  and that the ALLOW verdicts of a day stay within the cap over any history of evaluations one after
  the other. \<open>Json_Text\<close> is the text the digest of the facts is taken of.

  \<^bold>\<open>Was the operation authorized.\<close> \<open>Asset_Reconciliation\<close> (\<open>domains/asset_integrity\<close>),
  \<open>Telemetry_Normalization\<close> and \<open>Operational_Matcher\<close> (\<open>domains/operational_integrity\<close>):
  the verdict on a supply, the search for the record that explains an observed operation, and the
  deadline of a settlement. The theorems say which inputs are an anomaly, and that nothing else is.

  \<^bold>\<open>Can the record be trusted.\<close> \<open>Canonical_JSON\<close>, \<open>Evidence_Merkle\<close>, \<open>Managed_Keys\<close>,
  \<open>Evidence_Signing\<close> and \<open>Audit_Chain\<close> (\<open>evidence_signing.py\<close>, \<open>evidence_merkle.py\<close>,
  \<open>managed_keys.py\<close>, \<open>log_audit\<close> in \<open>pilot.py\<close>, the anonymization in
  \<open>data_retention.py\<close>). SHA-256 and HMAC are parameters; nothing is assumed of the hash but the
  length of its result. The binding theorems are reductions: from two different inputs with the
  same commitment they exhibit two colliding arguments of the hash among the bytes that were
  hashed.

  \<^bold>\<open>The services.\<close> \<open>Compliance\<close>: transfer and residency screening and the governance actions
  that change its state. \<open>Backstop\<close>: the backstop decision and the incident ledger. Both ledgers
  are instances of the locale \<open>numbered_ledger\<close> of \<open>Local_Ledger\<close>. \<open>Rate_Limit\<close>
  (\<open>domains/rate_limit\<close>): the authentication limiter with the shared counter as a parameter.

  \<^bold>\<open>The external watchlist\<close> (\<open>domains/external_watchlist\<close>) watches contracts and wallets of others.
  \<open>Abi_Words\<close> and \<open>External_Logs\<close> (\<open>abi.py\<close>) decode its logs and build its filters, with round trips
  against the encoding of the contract ABI. \<open>Chain_Scan\<close> (\<open>rpc.py\<close>) is the read-only gateway and the
  chunked scan over a provider that is any function of its own state and may refuse or fail at every
  call. \<open>Block_Ranges\<close> and \<open>Backfill\<close> (\<open>backfill.py\<close>, the SQL of \<open>service.py\<close> and \<open>worker.py\<close> it goes with)
  are the life of a history scan as the step relation \<open>scan_history\<close>; \<open>Live_Poll\<close> (\<open>worker.py\<close>) is the
  live tail of a target beside it; \<open>Watch_Config\<close> and \<open>Watch_Status\<close> (\<open>config.py\<close>, \<open>status.py\<close>) are
  the settings and the status shown. The storage of a chunk's events is a parameter of both lanes.

  \<^bold>\<open>Threat detection\<close> (\<open>domains/threat_detection\<close>). \<open>Py_Float\<close> is Python's binary floating point:
  a rational and the rounding \<open>fl\<close> after every operation (overflow does not occur in what uses it).
  \<open>Threat_Scoring\<close> (\<open>scoring.py\<close>) computes severity and confidence with it. \<open>Threat_Detectors\<close>
  (\<open>detectors.py\<close>) makes candidates of a batch of events; the baselines of the assets are a parameter
  (they are averages the database computes), and so is \<open>pick\<close>, the element a Python set is asked for when
  the code does not say which. \<open>Threat_Scan\<close> (\<open>service.py\<close>) is the scan window of a workspace and its
  checkpoint; \<open>scan_run\<close> is the step relation of a worker over a table that grows under it, and it is
  where the window is shown to stall. \<open>Threat_Store\<close> (\<open>service.py\<close>, \<open>incident_auto_creation.py\<close>) stores
  candidates as detections with their evidence, raises alerts and opens incidents; its histories are the
  step relation \<open>store_run\<close>, whose invariant ties the counts to the evidence and the links to the rows.
  The deletion of old rows by the data retention is not a step of it.
  What the detectors guarantee of a candidate (\<open>grounded\<close>) is what the theorem on alerts rests on.

  \<^bold>\<open>Termination.\<close> Recursion is structural or carries a termination proof (the levels of the Merkle
  tree shrink). The two loops of the chunked scan, which retry while a provider refuses, are
  \<open>partial_function (option)\<close>, and it is proved that they return, for every provider, when the
  least chunk is a block or more; with a least chunk of zero they need not. No fuel is used. The
  recursion of \<open>json_safe_for_hash\<close> is over finite values; cyclic Python objects are not values of
  the model.

  \<^bold>\<open>Not modelled.\<close> The HTTP routes and SQL of \<open>main.py\<close> and \<open>pilot.py\<close>, the polling of the
  monitoring runner and the chain ingestors, prompts to language models, storage back ends, the
  ZIP container, Ed25519 and the AWS client, the loops of the workers, the scripts, the front
  end: they are input and output around the decisions. The heuristics of the risk and threat
  engines and \<open>reconcile\<close> in the reconciliation service are not modelled. Where a theory models only a part of its
  file, its own header says so.
\<close>

end
